(* ===== verification/Prelude.thy ===== *)
theory Prelude
  imports
    Main
    "HOL-Library.Word"
    "HOL-Library.Monad_Syntax"
    "HOL-Library.Signed_Division"
begin

text \<open>
  What every component shares: the C integer types as conversions on \<open>int\<close>, shifts,
  saturation and truncating division; arrays as lists with checked access; counted loops
  with an invariant rule; the predicates that say an array holds 16 or 32 bit values.

  \<^item> A signed C integer of width w is an \<open>int\<close>; \<open>s16\<close>, \<open>s32\<close>, \<open>s64\<close> store a value in
    such an integer (two's complement, wrap-around), \<open>u8\<close>, \<open>u16\<close>, \<open>u32\<close> the unsigned
    ones. Where C leaves signed overflow undefined the model wraps, as the instructions
    of the ARM target do; lemmas named \<open>no_overflow\<close> show where no wrap happens.
  \<^item> Reading or writing an array out of its bounds has no defined result in C: it is
    \<open>None\<close>, and so is a loop that never ends. A function of type \<open>'a option\<close> returns
    \<open>Some\<close> exactly when all its accesses are in bounds and its loops end.
  \<^item> Division truncates towards zero (\<open>sdiv\<close>); a division by zero gives 0, the result of
    the ARM SDIV instruction.
\<close>

unbundle bit_operations_syntax

section \<open>Collections the components fill\<close>

named_theorems range_simps \<open>16 and 32 bit range facts of the operations\<close>
named_theorems table_simps \<open>sizes and entry ranges of the constant tables\<close>

section \<open>Integer types of the C code\<close>

definition s16 :: "int \<Rightarrow> int" where
  "s16 x = (x + 32768) mod 65536 - 32768"

definition s32 :: "int \<Rightarrow> int" where
  "s32 x = (x + 2147483648) mod 4294967296 - 2147483648"

definition s64 :: "int \<Rightarrow> int" where
  "s64 x = (x + 9223372036854775808) mod 18446744073709551616 - 9223372036854775808"

definition u8 :: "int \<Rightarrow> int" where
  "u8 x = x mod 256"

definition s8 :: "int \<Rightarrow> int" where
  "s8 x = (x + 128) mod 256 - 128"

definition u16 :: "int \<Rightarrow> int" where
  "u16 x = x mod 65536"

definition u32 :: "int \<Rightarrow> int" where
  "u32 x = x mod 4294967296"

definition is_s16 :: "int \<Rightarrow> bool" where
  "is_s16 x \<longleftrightarrow> -32768 \<le> x \<and> x \<le> 32767"

definition is_s32 :: "int \<Rightarrow> bool" where
  "is_s32 x \<longleftrightarrow> -2147483648 \<le> x \<and> x \<le> 2147483647"

definition is_u16 :: "int \<Rightarrow> bool" where
  "is_u16 x \<longleftrightarrow> 0 \<le> x \<and> x \<le> 65535"

lemma s16_id [simp]: "is_s16 x \<Longrightarrow> s16 x = x"
  by (simp add: is_s16_def s16_def)

lemma s32_id [simp]: "is_s32 x \<Longrightarrow> s32 x = x"
  by (simp add: is_s32_def s32_def)

lemma s16_idI: "-32768 \<le> x \<Longrightarrow> x \<le> 32767 \<Longrightarrow> s16 x = x"
  by (simp add: is_s16_def)

lemma s32_idI: "-2147483648 \<le> x \<Longrightarrow> x \<le> 2147483647 \<Longrightarrow> s32 x = x"
  by (simp add: is_s32_def)

lemma s64_idI: "-9223372036854775808 \<le> x \<Longrightarrow> x \<le> 9223372036854775807 \<Longrightarrow> s64 x = x"
  by (simp add: s64_def)

lemma u16_idI: "0 \<le> x \<Longrightarrow> x \<le> 65535 \<Longrightarrow> u16 x = x"
  by (simp add: u16_def)

lemma is_s16_s16 [simp, range_simps]: "is_s16 (s16 x)"
  using pos_mod_bound [of 65536 "x + 32768"] pos_mod_sign [of 65536 "x + 32768"]
  unfolding is_s16_def s16_def by linarith

lemma is_s32_s32 [simp, range_simps]: "is_s32 (s32 x)"
  using pos_mod_bound [of 4294967296 "x + 2147483648"] pos_mod_sign [of 4294967296 "x + 2147483648"]
  unfolding is_s32_def s32_def by linarith

lemma is_u16_u16 [simp, range_simps]: "is_u16 (u16 x)"
  using pos_mod_bound [of 65536 x] pos_mod_sign [of 65536 x]
  unfolding is_u16_def u16_def by linarith

lemma s16_bounds: "-32768 \<le> s16 x" "s16 x \<le> 32767"
  using is_s16_s16 [of x] by (simp_all add: is_s16_def)

lemma s32_bounds: "-2147483648 \<le> s32 x" "s32 x \<le> 2147483647"
  using is_s32_s32 [of x] by (simp_all add: is_s32_def)

lemma is_s16_is_s32: "is_s16 x \<Longrightarrow> is_s32 x"
  by (simp add: is_s16_def is_s32_def)

lemma is_s16_0 [simp]: "is_s16 0"
  by (simp add: is_s16_def)

lemma s32_eq: "\<exists>k. s32 x = x + 4294967296 * k"
proof -
  have "s32 x = x + 4294967296 * (- ((x + 2147483648) div 4294967296))"
    by (simp add: s32_def minus_mult_div_eq_mod [symmetric])
  then show ?thesis ..
qed

lemma s16_cong_65536: "s16 (x + 65536 * k) = s16 x"
proof -
  have "x + 65536 * k + 32768 = x + 32768 + 65536 * k" by simp
  then show ?thesis unfolding s16_def by (simp only: mod_mult_self2)
qed

lemma s16_s32 [simp]: "s16 (s32 x) = s16 x"
proof -
  obtain k where "s32 x = x + 65536 * (65536 * k)"
    using s32_eq [of x] by auto
  then show ?thesis by (simp only: s16_cong_65536)
qed

section \<open>Shifts, saturation\<close>

text \<open>\<open>a >> n\<close> on a signed value is the arithmetic shift: division rounding down.\<close>

definition shr :: "int \<Rightarrow> nat \<Rightarrow> int" where
  "shr a n = a div 2 ^ n"

text \<open>The two-sided limit shared by all saturating operations.\<close>

definition clamp :: "int \<Rightarrow> int \<Rightarrow> int \<Rightarrow> int" where
  "clamp lo hi x = (if x > hi then hi else if x < lo then lo else x)"

lemma clamp_range: "lo \<le> hi \<Longrightarrow> lo \<le> clamp lo hi x \<and> clamp lo hi x \<le> hi"
  by (simp add: clamp_def)

lemma clamp_id: "lo \<le> x \<Longrightarrow> x \<le> hi \<Longrightarrow> clamp lo hi x = x"
  by (simp add: clamp_def)

lemma clamp_mono: "lo \<le> hi \<Longrightarrow> x \<le> y \<Longrightarrow> clamp lo hi x \<le> clamp lo hi y"
  by (simp add: clamp_def)

lemma int_div_less: "a div c < b" if "0 < c" "a < b * c" for a b c :: int
proof (rule ccontr)
  assume "\<not> a div c < b"
  then have "b * c \<le> (a div c) * c" using that(1) by simp
  also have "\<dots> \<le> a"
    using div_mult_mod_eq [of a c] pos_mod_sign [OF that(1), of a] by linarith
  finally show False using that(2) by simp
qed

lemma shr_bounds: "lo * 2 ^ n \<le> a \<Longrightarrow> a < (hi + 1) * 2 ^ n \<Longrightarrow> lo \<le> shr a n \<and> shr a n \<le> hi"
proof -
  assume lo: "lo * 2 ^ n \<le> a" and hi: "a < (hi + 1) * 2 ^ n"
  have "lo * 2 ^ n div 2 ^ n \<le> a div 2 ^ n"
    using lo by (rule zdiv_mono1) simp
  moreover have "a div 2 ^ n < hi + 1"
    by (rule int_div_less [OF _ hi]) simp
  ultimately show ?thesis by (simp add: shr_def)
qed

lemma div_pow_shrinks: "min a 0 \<le> a div 2 ^ n \<and> a div 2 ^ n \<le> max a 0" for a :: int
proof (cases "a < 0")
  case True
  then have "a div 1 \<le> a div 2 ^ n" by (intro zdiv_mono2_neg) auto
  moreover from True have "a div 2 ^ n < 0" by (simp add: pos_imp_zdiv_neg_iff)
  ultimately show ?thesis using True by simp
next
  case False
  then have "a div 2 ^ n \<le> a div 1" by (intro zdiv_mono2) auto
  moreover from False have "0 \<le> a div 2 ^ n" by (simp add: pos_imp_zdiv_nonneg_iff)
  ultimately show ?thesis using False by simp
qed

lemma shr_shrinks: "is_s32 a \<Longrightarrow> is_s32 (shr a n)"
  using div_pow_shrinks [of a n] unfolding is_s32_def shr_def by linarith

lemma shr_s16: "is_s16 a \<Longrightarrow> is_s16 (shr a n)"
  using div_pow_shrinks [of a n] unfolding is_s16_def shr_def by linarith

lemma div_abs_bound:
  fixes x M k :: int
  assumes "0 < k" "- (M * k) \<le> x" "x \<le> M * k"
  shows "\<bar>x div k\<bar> \<le> M"
proof -
  have "(- M) * k div k \<le> x div k" by (rule zdiv_mono1) (use assms in simp_all)
  moreover have "x div k \<le> M * k div k" by (rule zdiv_mono1) (use assms in simp_all)
  moreover have "(- M) * k div k = - M" "M * k div k = M"
    using assms(1) by (intro nonzero_mult_div_cancel_right; simp)+
  ultimately show ?thesis by linarith
qed

lemma mult_abs_le: "\<bar>a\<bar> \<le> A \<Longrightarrow> \<bar>b\<bar> \<le> B \<Longrightarrow> \<bar>a * b\<bar> \<le> A * B" for a b A B :: int
  by (simp add: abs_mult mult_mono')

lemma mult_bounds:
  fixes a b A B :: int
  assumes "\<bar>a\<bar> \<le> A" "\<bar>b\<bar> \<le> B"
  shows "- (A * B) \<le> a * b" "a * b \<le> A * B"
  using mult_abs_le [OF assms] by linarith+

lemma abs_add_le: "\<bar>a\<bar> \<le> A \<Longrightarrow> \<bar>b\<bar> \<le> B \<Longrightarrow> \<bar>a + b\<bar> \<le> A + B" for a b A B :: int
  by linarith

lemma is_s16_abs: "is_s16 x \<Longrightarrow> \<bar>x\<bar> \<le> 32768"
  unfolding is_s16_def by linarith

lemma abs_is_s32: "\<bar>x\<bar> \<le> 2147483647 \<Longrightarrow> is_s32 x"
  unfolding is_s32_def by linarith

section \<open>Arrays with checked access\<close>

text \<open>
  \<open>get xs i\<close> and \<open>put xs i v\<close> are \<open>xs[i]\<close> and \<open>xs[i] = v\<close> for an array \<open>xs\<close>. The
  index is an \<open>int\<close>, since C code computes it with signed arithmetic.
\<close>

definition get :: "'a list \<Rightarrow> int \<Rightarrow> 'a option" where
  "get xs i = (if 0 \<le> i \<and> i < int (length xs) then Some (xs ! nat i) else None)"

definition put :: "'a list \<Rightarrow> int \<Rightarrow> 'a \<Rightarrow> 'a list option" where
  "put xs i v = (if 0 \<le> i \<and> i < int (length xs) then Some (xs[nat i := v]) else None)"

lemma get_in [simp]: "0 \<le> i \<Longrightarrow> i < int (length xs) \<Longrightarrow> get xs i = Some (xs ! nat i)"
  by (simp add: get_def)

lemma put_in [simp]: "0 \<le> i \<Longrightarrow> i < int (length xs) \<Longrightarrow> put xs i v = Some (xs[nat i := v])"
  by (simp add: put_def)

definition get2 :: "'a list list \<Rightarrow> int \<Rightarrow> int \<Rightarrow> 'a option" where
  "get2 xss i j = Option.bind (get xss i) (\<lambda>xs. get xs j)"

definition get3 :: "'a list list list \<Rightarrow> int \<Rightarrow> int \<Rightarrow> int \<Rightarrow> 'a option" where
  "get3 xsss i j k = Option.bind (get xsss i) (\<lambda>xss. get2 xss j k)"

definition put2 :: "'a list list \<Rightarrow> int \<Rightarrow> int \<Rightarrow> 'a \<Rightarrow> 'a list list option" where
  "put2 xss i j v = Option.bind (get xss i) (\<lambda>xs. Option.bind (put xs j v) (put xss i))"

lemma get_neg [simp]: "i < 0 \<Longrightarrow> get xs i = None"
  by (simp add: get_def)

lemma get_beyond [simp]: "int (length xs) \<le> i \<Longrightarrow> get xs i = None"
  by (simp add: get_def)

lemma get_SomeD: "get xs i = Some v \<Longrightarrow> 0 \<le> i \<and> i < int (length xs) \<and> v = xs ! nat i"
  by (simp add: get_def split: if_splits)

lemma put_length: "put xs i v = Some ys \<Longrightarrow> length ys = length xs"
  by (auto simp: put_def split: if_splits)

text \<open>An array of n signed 16 bit (32 bit) values, and n values in a given range.\<close>

definition arr :: "(int \<Rightarrow> bool) \<Rightarrow> nat \<Rightarrow> int list \<Rightarrow> bool" where
  "arr P n xs \<longleftrightarrow> length xs = n \<and> list_all P xs"

abbreviation s16_arr :: "nat \<Rightarrow> int list \<Rightarrow> bool" where
  "s16_arr \<equiv> arr is_s16"

abbreviation s32_arr :: "nat \<Rightarrow> int list \<Rightarrow> bool" where
  "s32_arr \<equiv> arr is_s32"

lemma arr_length: "arr P n xs \<Longrightarrow> length xs = n"
  by (simp add: arr_def)

lemma arr_nth: "arr P n xs \<Longrightarrow> i < n \<Longrightarrow> P (xs ! i)"
  by (simp add: arr_def list_all_length)

lemma arr_get: "arr P n xs \<Longrightarrow> 0 \<le> i \<Longrightarrow> i < int n \<Longrightarrow> \<exists>v. get xs i = Some v \<and> P v"
  by (simp add: arr_def list_all_length)

lemma arr_update: "arr P n xs \<Longrightarrow> P v \<Longrightarrow> arr P n (xs[i := v])"
  by (cases "i < length xs") (auto simp: arr_def list_all_length nth_list_update list_update_beyond)

lemma arr_put: "arr P n xs \<Longrightarrow> 0 \<le> i \<Longrightarrow> i < int n \<Longrightarrow> P v \<Longrightarrow>
    \<exists>ys. put xs i v = Some ys \<and> arr P n ys"
  by (auto simp: arr_length arr_update)

lemma arr_replicate [simp]: "P v \<Longrightarrow> arr P n (replicate n v)"
  by (simp add: arr_def list_all_length)

lemma arr_append: "arr P m xs \<Longrightarrow> arr P n ys \<Longrightarrow> arr P (m + n) (xs @ ys)"
  by (simp add: arr_def)

lemma arr_take: "arr P n xs \<Longrightarrow> k \<le> n \<Longrightarrow> arr P k (take k xs)"
  by (auto simp: arr_def list_all_iff dest: in_set_takeD)

lemma arr_drop: "arr P n xs \<Longrightarrow> arr P (n - k) (drop k xs)"
  by (auto simp: arr_def list_all_iff dest: in_set_dropD)

text \<open>A table of m rows of n values each.\<close>

definition arr2 :: "(int \<Rightarrow> bool) \<Rightarrow> nat \<Rightarrow> nat \<Rightarrow> int list list \<Rightarrow> bool" where
  "arr2 P m n xss \<longleftrightarrow> length xss = m \<and> list_all (arr P n) xss"

lemma arr2_row: "arr2 P m n xss \<Longrightarrow> i < m \<Longrightarrow> arr P n (xss ! i)"
  by (simp add: arr2_def list_all_length)

lemma arr2_get:
  "arr2 P m n xss \<Longrightarrow> 0 \<le> i \<Longrightarrow> i < int m \<Longrightarrow> \<exists>xs. get xss i = Some xs \<and> arr P n xs"
  by (simp add: arr2_def list_all_length)

lemma arr2_get2:
  "arr2 P m n xss \<Longrightarrow> 0 \<le> i \<Longrightarrow> i < int m \<Longrightarrow> 0 \<le> j \<Longrightarrow> j < int n \<Longrightarrow>
    \<exists>v. get2 xss i j = Some v \<and> P v"
  using arr2_get [of P m n xss i] arr_get unfolding get2_def by fastforce

lemma arr2_put2:
  assumes "arr2 P m n xss" "0 \<le> i" "i < int m" "0 \<le> j" "j < int n" "P v"
  shows "\<exists>yss. put2 xss i j v = Some yss \<and> arr2 P m n yss"
proof -
  from assms obtain r where r: "get xss i = Some r" "arr P n r"
    using arr2_get by blast
  moreover from r assms obtain s where "put r j v = Some s" "arr P n s"
    using arr_put by blast
  ultimately show ?thesis using assms
    by (auto simp: put2_def arr2_def list_all_length nth_list_update)
qed

definition arr3 :: "(int \<Rightarrow> bool) \<Rightarrow> nat \<Rightarrow> nat \<Rightarrow> nat \<Rightarrow> int list list list \<Rightarrow> bool" where
  "arr3 P l m n xsss \<longleftrightarrow> length xsss = l \<and> list_all (arr2 P m n) xsss"

lemma arr3_get:
  "arr3 P l m n xsss \<Longrightarrow> 0 \<le> i \<Longrightarrow> i < int l \<Longrightarrow>
    \<exists>xss. get xsss i = Some xss \<and> arr2 P m n xss"
  by (simp add: arr3_def list_all_length)

lemma arr3_get3:
  "arr3 P l m n xsss \<Longrightarrow> 0 \<le> i \<Longrightarrow> i < int l \<Longrightarrow> 0 \<le> j \<Longrightarrow> j < int m \<Longrightarrow>
    0 \<le> k \<Longrightarrow> k < int n \<Longrightarrow> \<exists>v. get3 xsss i j k = Some v \<and> P v"
  using arr3_get [of P l m n xsss i] arr2_get2 unfolding get3_def by fastforce

lemma arr_mono: "arr P n xs \<Longrightarrow> (\<And>x. P x \<Longrightarrow> Q x) \<Longrightarrow> arr Q n xs"
  by (auto simp: arr_def list_all_iff)

lemma arr_map: "arr P n xs \<Longrightarrow> (\<And>x. P x \<Longrightarrow> Q (f x)) \<Longrightarrow> arr Q n (map f xs)"
  by (auto simp: arr_def list_all_iff)

section \<open>Counted loops\<close>

text \<open>
  \<open>run_loop is f s\<close> runs the body \<open>f\<close> for the loop variable taking the values \<open>is\<close> in
  order, on the state \<open>s\<close> of the variables the loop assigns. \<open>for_up a b\<close> is
  \<open>for (i = a; i < b; i++)\<close>, \<open>for_down a b\<close> is \<open>for (i = b - 1; i >= a; i--)\<close>.
\<close>

fun run_loop :: "'i list \<Rightarrow> ('i \<Rightarrow> 's \<Rightarrow> 's option) \<Rightarrow> 's \<Rightarrow> 's option" where
  "run_loop [] f s = Some s"
| "run_loop (i # is) f s = Option.bind (f i s) (run_loop is f)"

definition for_up :: "nat \<Rightarrow> nat \<Rightarrow> (int \<Rightarrow> 's \<Rightarrow> 's option) \<Rightarrow> 's \<Rightarrow> 's option" where
  "for_up a b f = run_loop (map int [a..<b]) f"

definition for_down :: "nat \<Rightarrow> nat \<Rightarrow> (int \<Rightarrow> 's \<Rightarrow> 's option) \<Rightarrow> 's \<Rightarrow> 's option" where
  "for_down a b f = run_loop (rev (map int [a..<b])) f"

lemma run_loop_append:
  "run_loop (xs @ ys) f s = Option.bind (run_loop xs f s) (run_loop ys f)"
proof (induction xs arbitrary: s)
  case (Cons x xs)
  then show ?case by (cases "f x s") auto
qed simp

lemma run_loop_cong:
  "(\<And>i s. i \<in> set is \<Longrightarrow> f i s = g i s) \<Longrightarrow> run_loop is f s = run_loop is g s"
  by (induction "is" arbitrary: s) (auto intro!: bind_option_cong)

text \<open>The total-correctness rule: an invariant indexed by the loop variable.\<close>

lemma for_up_rule:
  assumes "a \<le> b" and "P a s"
    and step: "\<And>i s. a \<le> i \<Longrightarrow> i < b \<Longrightarrow> P i s \<Longrightarrow> \<exists>t. f (int i) s = Some t \<and> P (Suc i) t"
  shows "\<exists>t. for_up a b f s = Some t \<and> P b t"
  using assms
proof (induction "b - a" arbitrary: a s)
  case 0
  then show ?case by (simp add: for_up_def)
next
  case (Suc n)
  from Suc.hyps(2) have lt: "a < b" by simp
  with Suc.prems obtain t where t: "f (int a) s = Some t" "P (Suc a) t" by blast
  have "\<exists>u. for_up (Suc a) b f t = Some u \<and> P b u"
    by (rule Suc.hyps(1)) (use Suc.hyps(2) Suc.prems t in auto)
  with t lt show ?case by (simp add: for_up_def upt_conv_Cons)
qed

text \<open>An invariant that does not mention the index.\<close>

lemma run_loop_inv:
  assumes "P s" and "\<And>i s. i \<in> set is \<Longrightarrow> P s \<Longrightarrow> \<exists>t. f i s = Some t \<and> P t"
  shows "\<exists>t. run_loop is f s = Some t \<and> P t"
  using assms
proof (induction "is" arbitrary: s)
  case Nil
  then show ?case by simp
next
  case (Cons i "is")
  from Cons.prems obtain t where "f i s = Some t" "P t" by (meson list.set_intros(1))
  with Cons show ?case by auto
qed

lemma for_up_inv:
  assumes "P s"
    and "\<And>i s. int a \<le> i \<Longrightarrow> i < int b \<Longrightarrow> P s \<Longrightarrow> \<exists>t. f i s = Some t \<and> P t"
  shows "\<exists>t. for_up a b f s = Some t \<and> P t"
  unfolding for_up_def by (rule run_loop_inv) (use assms in auto)

lemma for_down_inv:
  assumes "P s"
    and "\<And>i s. int a \<le> i \<Longrightarrow> i < int b \<Longrightarrow> P s \<Longrightarrow> \<exists>t. f i s = Some t \<and> P t"
  shows "\<exists>t. for_down a b f s = Some t \<and> P t"
  unfolding for_down_def by (rule run_loop_inv) (use assms in auto)

text \<open>A loop between two signed bounds, \<open>for (i = a; i < b; i++)\<close> with \<open>a\<close> possibly negative.\<close>

definition for_range :: "int \<Rightarrow> int \<Rightarrow> (int \<Rightarrow> 's \<Rightarrow> 's option) \<Rightarrow> 's \<Rightarrow> 's option" where
  "for_range a b f = run_loop [a..b - 1] f"

lemma for_range_inv:
  assumes "P s"
    and "\<And>i s. a \<le> i \<Longrightarrow> i < b \<Longrightarrow> P s \<Longrightarrow> \<exists>t. f i s = Some t \<and> P t"
  shows "\<exists>t. for_range a b f s = Some t \<and> P t"
  unfolding for_range_def by (rule run_loop_inv) (use assms in auto)

lemma for_range_rule:
  assumes "a \<le> b" and "P a s"
    and step: "\<And>i s. a \<le> i \<Longrightarrow> i < b \<Longrightarrow> P i s \<Longrightarrow> \<exists>t. f i s = Some t \<and> P (i + 1) t"
  shows "\<exists>t. for_range a b f s = Some t \<and> P b t"
  using assms
proof (induction "nat (b - a)" arbitrary: a s)
  case 0
  then show ?case by (simp add: for_range_def)
next
  case (Suc n)
  from Suc.hyps(2) have lt: "a < b" by simp
  with Suc.prems obtain t where t: "f a s = Some t" "P (a + 1) t" by blast
  have "\<exists>u. for_range (a + 1) b f t = Some u \<and> P b u"
    by (rule Suc.hyps(1)) (use Suc.hyps(2) Suc.prems t in auto)
  with t lt show ?case by (simp add: for_range_def upto_rec1)
qed

text \<open>The last round of a loop.\<close>

lemma run_loop_single: "run_loop [i] f s = f i s"
  by (cases "f i s") simp_all

lemma for_up_Suc: "a \<le> b \<Longrightarrow> for_up a (Suc b) f s = Option.bind (for_up a b f s) (f (int b))"
  by (cases "for_up a b f s") (simp_all add: for_up_def run_loop_append run_loop_single del: run_loop.simps)

lemma for_range_Suc: "a \<le> b \<Longrightarrow> for_range a (b + 1) f s = Option.bind (for_range a b f s) (f b)"
  by (cases "for_range a b f s")
    (simp_all add: for_range_def upto_rec2 [of a b] run_loop_append run_loop_single del: run_loop.simps)

text \<open>A loop with a \<open>break\<close>: the body also says whether to leave the loop.\<close>

fun run_break :: "'i list \<Rightarrow> ('i \<Rightarrow> 's \<Rightarrow> ('s \<times> bool) option) \<Rightarrow> 's \<Rightarrow> 's option" where
  "run_break [] f s = Some s"
| "run_break (i # is) f s = Option.bind (f i s) (\<lambda>(t, stop). if stop then Some t else run_break is f t)"

text \<open>The invariant holds while the loop goes on; leaving it may establish less.\<close>

lemma run_break_inv:
  assumes "P s"
    and step: "\<And>i s. i \<in> set is \<Longrightarrow> P s \<Longrightarrow> \<exists>t b. f i s = Some (t, b) \<and> (if b then Q t else P t)"
    and "\<And>s. P s \<Longrightarrow> Q s"
  shows "\<exists>t. run_break is f s = Some t \<and> Q t"
  using assms(1) step
proof (induction "is" arbitrary: s)
  case Nil
  then show ?case using assms(3) by simp
next
  case (Cons i "is")
  obtain t b where t: "f i s = Some (t, b)" "if b then Q t else P t"
    using Cons.prems by (meson list.set_intros(1))
  show ?case
  proof (cases b)
    case True
    then show ?thesis using t by simp
  next
    case False
    have "\<exists>u. run_break is f t = Some u \<and> Q u"
      by (rule Cons.IH) (use False t Cons.prems in auto)
    then show ?thesis using False t by simp
  qed
qed

text \<open>A loop whose body always succeeds is a fold.\<close>

lemma run_loop_fold:
  "(\<And>i s. i \<in> set is \<Longrightarrow> f i s = Some (g i s)) \<Longrightarrow> run_loop is f s = Some (fold g is s)"
  by (induction "is" arbitrary: s) auto

lemma for_up_fold:
  "(\<And>i s. int a \<le> i \<Longrightarrow> i < int b \<Longrightarrow> f i s = Some (g i s)) \<Longrightarrow>
    for_up a b f s = Some (fold g (map int [a..<b]) s)"
  unfolding for_up_def by (rule run_loop_fold) auto

lemma fold_pred:
  "P s \<Longrightarrow> (\<And>i s. i \<in> set is \<Longrightarrow> P s \<Longrightarrow> P (g i s)) \<Longrightarrow> P (fold g is s)"
  by (induction "is" arbitrary: s) auto

text \<open>Filling an array cell by cell is a map over the indices.\<close>

lemma for_up_fill:
  assumes "length out = n" and "\<And>i. i < n \<Longrightarrow> h (int i) = Some (v i)"
  shows "for_up 0 n (\<lambda>i out. Option.bind (h i) (put out i)) out = Some (map v [0..<n])"
proof -
  have "\<exists>t. for_up 0 n (\<lambda>i out. Option.bind (h i) (put out i)) out = Some t \<and>
      (length t = n \<and> (\<forall>k<n. t ! k = v k))"
  proof (rule for_up_rule [where P = "\<lambda>i t. length t = n \<and> (\<forall>k<i. t ! k = v k)"])
    fix i t assume "i < n" "length t = n \<and> (\<forall>k<i. t ! k = v k)"
    then show "\<exists>t'. Option.bind (h (int i)) (put t (int i)) = Some t' \<and>
        length t' = n \<and> (\<forall>k<Suc i. t' ! k = v k)"
      by (auto simp: assms(2) nth_list_update less_Suc_eq)
  qed (use assms(1) in auto)
  then obtain t where t: "for_up 0 n (\<lambda>i out. Option.bind (h i) (put out i)) out = Some t"
    "length t = n" "\<forall>k<n. t ! k = v k" by blast
  have "t = map v [0..<n]" by (rule nth_equalityI) (simp_all add: t)
  with t show ?thesis by simp
qed

section \<open>Access rules for automation\<close>

text \<open>With a size fact among the premises these rewrite an access in bounds to its value.\<close>

lemma get_arr [simp]: "arr P n xs \<Longrightarrow> 0 \<le> i \<Longrightarrow> i < int n \<Longrightarrow> get xs i = Some (xs ! nat i)"
  by (simp add: arr_length)

lemma put_arr [simp]: "arr P n xs \<Longrightarrow> 0 \<le> i \<Longrightarrow> i < int n \<Longrightarrow> put xs i v = Some (xs[nat i := v])"
  by (simp add: arr_length)

lemma put_update_arr [simp]: "arr P n xs \<Longrightarrow> 0 \<le> i \<Longrightarrow> i < int n \<Longrightarrow>
    put (xs[k := w]) i v = Some (xs[k := w, nat i := v])"
  by (simp add: arr_length)

lemma get_update_arr [simp]: "arr P n xs \<Longrightarrow> 0 \<le> i \<Longrightarrow> i < int n \<Longrightarrow>
    get (xs[k := w]) i = Some (xs[k := w] ! nat i)"
  by (simp add: arr_length)

lemma get2_arr [simp]: "arr2 P m n xss \<Longrightarrow> 0 \<le> i \<Longrightarrow> i < int m \<Longrightarrow> 0 \<le> j \<Longrightarrow> j < int n \<Longrightarrow>
    get2 xss i j = Some (xss ! nat i ! nat j)"
  using arr2_row [of P m n xss "nat i"] by (simp add: get2_def get_def arr2_def arr_def)

lemma put2_arr [simp]: "arr2 P m n xss \<Longrightarrow> 0 \<le> i \<Longrightarrow> i < int m \<Longrightarrow> 0 \<le> j \<Longrightarrow> j < int n \<Longrightarrow>
    put2 xss i j v = Some (xss[nat i := (xss ! nat i)[nat j := v]])"
  using arr2_row [of P m n xss "nat i"] by (simp add: put2_def get_def put_def arr2_def arr_def)

lemma get3_arr [simp]: "arr3 P l m n xsss \<Longrightarrow> 0 \<le> i \<Longrightarrow> i < int l \<Longrightarrow> 0 \<le> j \<Longrightarrow> j < int m \<Longrightarrow>
    0 \<le> k \<Longrightarrow> k < int n \<Longrightarrow> get3 xsss i j k = Some (xsss ! nat i ! nat j ! nat k)"
  using arr3_get [of P l m n xsss i] by (auto simp: get3_def dest: get_SomeD)

lemma arr2_update: "arr2 P m n xss \<Longrightarrow> i < m \<Longrightarrow> P v \<Longrightarrow> arr2 P m n (xss[i := (xss ! i)[j := v]])"
  using arr2_row [of P m n xss i]
  by (auto simp: arr2_def list_all_length nth_list_update arr_update)

lemma arr2_nth: "arr2 P m n xss \<Longrightarrow> i < m \<Longrightarrow> j < n \<Longrightarrow> P (xss ! i ! j)"
  by (rule arr_nth [OF arr2_row])

lemma s16_nth: "s16_arr n xs \<Longrightarrow> i < n \<Longrightarrow> is_s16 (xs ! i)"
  by (rule arr_nth)

lemma s16_nth2: "arr2 is_s16 m n xss \<Longrightarrow> i < m \<Longrightarrow> j < n \<Longrightarrow> is_s16 (xss ! i ! j)"
  by (rule arr2_nth)

lemma nat_less_int: "0 \<le> i \<Longrightarrow> i < int n \<Longrightarrow> nat i < n"
  by simp

text \<open>Copying the cells of one array to another.\<close>

lemma copy_loop:
  assumes "length src \<ge> n" "length dst = n"
  shows "for_up 0 n (\<lambda>i d. Option.bind (get src i) (put d i)) dst = Some (take n src)"
proof -
  have "for_up 0 n (\<lambda>i d. Option.bind (get src i) (put d i)) dst = Some (map ((!) src) [0..<n])"
    by (rule for_up_fill) (use assms in auto)
  also have "map ((!) src) [0..<n] = take n src"
    using assms by (intro nth_equalityI) simp_all
  finally show ?thesis .
qed

text \<open>Chaining steps of the option monad in a proof.\<close>

lemma bind_ok:
  "\<exists>x. m = Some x \<and> P x \<Longrightarrow> (\<And>x. P x \<Longrightarrow> \<exists>y. f x = Some y \<and> Q y) \<Longrightarrow>
    \<exists>y. Option.bind m f = Some y \<and> Q y"
  by auto

lemma bind_SomeE: "Option.bind m f = Some y \<Longrightarrow> (\<And>x. m = Some x \<Longrightarrow> f x = Some y \<Longrightarrow> R) \<Longrightarrow> R"
  by (cases m) auto

lemma bind_SomeE2: "Option.bind m (\<lambda>(a, b). f a b) = Some y \<Longrightarrow>
    (\<And>a b. m = Some (a, b) \<Longrightarrow> f a b = Some y \<Longrightarrow> R) \<Longrightarrow> R"
  by (cases m) auto

lemma bind_SomeE4: "Option.bind m (\<lambda>(a, b, c, d). f a b c d) = Some y \<Longrightarrow>
    (\<And>a b c d. m = Some (a, b, c, d) \<Longrightarrow> f a b c d = Some y \<Longrightarrow> R) \<Longrightarrow> R"
  by (cases m) auto

section \<open>Block copies\<close>

text \<open>\<open>memcpy\<close> or \<open>memmove\<close> of n cells from index s of one array to index d of another (or the
  same), and \<open>memset\<close> to zero of the first n cells.\<close>

definition copy_block :: "'a list \<Rightarrow> nat \<Rightarrow> 'a list \<Rightarrow> nat \<Rightarrow> nat \<Rightarrow> 'a list option" where
  "copy_block dst d src s n = (if s + n \<le> length src \<and> d + n \<le> length dst
     then Some (take d dst @ take n (drop s src) @ drop (d + n) dst) else None)"

definition zero_block :: "int list \<Rightarrow> nat \<Rightarrow> int list option" where
  "zero_block dst n = (if n \<le> length dst then Some (replicate n 0 @ drop n dst) else None)"

lemma copy_block_ok:
  assumes "arr P m dst" "arr P k src" "s + n \<le> k" "d + n \<le> m"
  shows "\<exists>r. copy_block dst d src s n = Some r \<and> arr P m r"
proof -
  have "arr P (d + (n + (m - (d + n)))) (take d dst @ take n (drop s src) @ drop (d + n) dst)"
    by (intro arr_append arr_take arr_drop arr_take [OF arr_drop]) (use assms in auto)
  moreover have "d + (n + (m - (d + n))) = m" using assms by simp
  ultimately show ?thesis using assms by (simp add: copy_block_def arr_length)
qed

lemma zero_block_ok:
  assumes "arr P m dst" "n \<le> m" "P 0"
  shows "\<exists>r. zero_block dst n = Some r \<and> arr P m r"
proof -
  have "arr P (n + (m - n)) (replicate n 0 @ drop n dst)"
    by (intro arr_append arr_drop arr_replicate) (use assms in auto)
  then show ?thesis using assms by (simp add: zero_block_def arr_length)
qed

lemmas arr_intros = arr_update arr_append arr_replicate

text \<open>A loop one of whose steps always fails.\<close>

lemma run_loop_fails: "i \<in> set is \<Longrightarrow> (\<And>s. f i s = None) \<Longrightarrow> run_loop is f s = None"
  by (induction "is" arbitrary: s) (auto simp: bind_eq_None_conv split: Option.bind_splits)

lemma for_up_fails: "a \<le> i \<Longrightarrow> i < b \<Longrightarrow> (\<And>s. f (int i) s = None) \<Longrightarrow> for_up a b f s = None"
  unfolding for_up_def by (rule run_loop_fails) auto

end
