(* ===== verification/G729_Arith.thy ===== *)
theory G729_Arith
  imports Prelude
begin

text \<open>
  The fixed point macros of \<open>fixedPointMacros.h\<close> (bcg729). Each macro is a function on the
  integer values of its arguments, with the casts of its text: \<open>ADD32\<close> adds two values cast
  to 32 bits, \<open>SUB16\<close> subtracts two values cast to 16 bits without casting the result, and
  so on. A shift right of a signed value rounds down; \<open>x & (2^n - 1)\<close> is \<open>x mod 2^n\<close>
  (lemma \<open>and_low_bits\<close>). The lemmas give the exact value of the two-step products
  \<open>MULT16_32_Qn\<close> and the absence of overflow under the stated ranges.
\<close>

section \<open>Shifts and saturation\<close>

lemma and_low_bits: "x AND (2 ^ n - 1) = x mod (2 ^ n)" for x :: int
  by (simp add: take_bit_eq_mod [symmetric] take_bit_eq_mask mask_eq_exp_minus_1)

definition SHR :: "int \<Rightarrow> nat \<Rightarrow> int" where
  "SHR a n = shr a n"

definition SHL :: "int \<Rightarrow> nat \<Rightarrow> int" where
  "SHL a n = s32 (s32 a * 2 ^ n)"

definition USHL :: "int \<Rightarrow> nat \<Rightarrow> int" where
  "USHL a n = u32 (u32 a * 2 ^ n)"

definition PSHR :: "int \<Rightarrow> nat \<Rightarrow> int" where
  "PSHR a n = SHR (s32 (a + shr (2 ^ n) 1)) n"

text \<open>\<open>VSHR32\<close> on a signed operand, and on an operand of type \<open>uword32_t\<close>.\<close>

definition VSHR32 :: "int \<Rightarrow> int \<Rightarrow> int" where
  "VSHR32 a n = (if n > 0 then shr a (nat n) else s32 (a * 2 ^ nat (- n)))"

definition UVSHR32 :: "int \<Rightarrow> int \<Rightarrow> int" where
  "UVSHR32 a n = (if n > 0 then shr a (nat n) else u32 (a * 2 ^ nat (- n)))"

definition SATURATE :: "int \<Rightarrow> int \<Rightarrow> int" where
  "SATURATE x a = (if x > a then a else if x < - (a + 1) then - (a + 1) else x)"

definition MAXINT16 :: int where "MAXINT16 = 0x7fff"
definition MAXINT28 :: int where "MAXINT28 = 0x7ffffff"
definition MAXINT29 :: int where "MAXINT29 = 0xfffffff"
definition MAXINT32 :: int where "MAXINT32 = 0x7fffffff"
definition MININT32 :: int where "MININT32 = s32 0x80000000"

definition ABS :: "int \<Rightarrow> int" where
  "ABS a = (if a > 0 then a else s32 (- a))"

section \<open>Additions, products, divisions\<close>

definition ADD16 :: "int \<Rightarrow> int \<Rightarrow> int" where
  "ADD16 a b = s16 (s16 a + s16 b)"

definition SUB16 :: "int \<Rightarrow> int \<Rightarrow> int" where
  "SUB16 a b = s16 a - s16 b"

definition ADD32 :: "int \<Rightarrow> int \<Rightarrow> int" where
  "ADD32 a b = s32 (s32 a + s32 b)"

definition SUB32 :: "int \<Rightarrow> int \<Rightarrow> int" where
  "SUB32 a b = s32 (s32 a - s32 b)"

definition MULT16_16 :: "int \<Rightarrow> int \<Rightarrow> int" where
  "MULT16_16 a b = s32 (s32 a * s32 b)"

definition MULT16_32 :: "int \<Rightarrow> int \<Rightarrow> int" where
  "MULT16_32 a b = s32 (s16 a * s32 b)"

definition UMULT16_16 :: "int \<Rightarrow> int \<Rightarrow> int" where
  "UMULT16_16 a b = u32 (s32 a * s32 b)"

definition MAC16_16 :: "int \<Rightarrow> int \<Rightarrow> int \<Rightarrow> int" where
  "MAC16_16 c a b = ADD32 c (MULT16_16 a b)"

definition MSU16_16 :: "int \<Rightarrow> int \<Rightarrow> int \<Rightarrow> int" where
  "MSU16_16 c a b = SUB32 c (MULT16_16 a b)"

definition DIV32 :: "int \<Rightarrow> int \<Rightarrow> int" where
  "DIV32 a b = s32 (s32 a sdiv s32 b)"

definition UDIV32 :: "int \<Rightarrow> int \<Rightarrow> int" where
  "UDIV32 a b = u32 a div u32 b"

section \<open>Products in a Qn format\<close>

text \<open>
  The header repeats four shapes for several n: \<open>MULT16_16_Qn\<close> (product shifted down),
  \<open>MULT16_16_Pn\<close> (with rounding), \<open>MULT16_32_Qn\<close> and \<open>MULT16_32_Pn\<close> (a 16 by 32 bit product
  in two 32 bit steps). Here n is a parameter; the named macros are instances.
\<close>

definition MULT16_16_Q :: "nat \<Rightarrow> int \<Rightarrow> int \<Rightarrow> int" where
  "MULT16_16_Q n a b = SHR (MULT16_16 a b) n"

definition MULT16_16_P :: "nat \<Rightarrow> int \<Rightarrow> int \<Rightarrow> int" where
  "MULT16_16_P n a b = SHR (ADD32 (2 ^ (n - 1)) (MULT16_16 a b)) n"

definition MULT16_32_Q :: "nat \<Rightarrow> int \<Rightarrow> int \<Rightarrow> int" where
  "MULT16_32_Q n a b = ADD32 (MULT16_16 a (SHR b n)) (SHR (MULT16_16 a (b mod 2 ^ n)) n)"

definition MULT16_32_P :: "nat \<Rightarrow> int \<Rightarrow> int \<Rightarrow> int" where
  "MULT16_32_P n a b = ADD32 (MULT16_16 a (SHR b n)) (PSHR (MULT16_16 a (b mod 2 ^ n)) n)"

abbreviation "MULT16_16_Q3 \<equiv> MULT16_16_Q 3"
abbreviation "MULT16_16_Q4 \<equiv> MULT16_16_Q 4"
abbreviation "MULT16_16_Q11 \<equiv> MULT16_16_Q 11"
abbreviation "MULT16_16_P11 \<equiv> MULT16_16_P 11"
abbreviation "MULT16_16_Q12 \<equiv> MULT16_16_Q 12"
abbreviation "MULT16_16_Q13 \<equiv> MULT16_16_Q 13"
abbreviation "MULT16_16_P13 \<equiv> MULT16_16_P 13"
abbreviation "MULT16_16_Q14 \<equiv> MULT16_16_Q 14"
abbreviation "MULT16_16_P14 \<equiv> MULT16_16_P 14"
abbreviation "MULT16_16_Q15 \<equiv> MULT16_16_Q 15"
abbreviation "MULT16_16_P15 \<equiv> MULT16_16_P 15"
abbreviation "MULT16_32_Q12 \<equiv> MULT16_32_Q 12"
abbreviation "MULT16_32_Q13 \<equiv> MULT16_32_Q 13"
abbreviation "MULT16_32_Q15 \<equiv> MULT16_32_Q 15"
abbreviation "MULT16_32_Q14 \<equiv> MULT16_32_Q 14"
abbreviation "MULT16_32_P14 \<equiv> MULT16_32_P 14"
abbreviation "MULT16_32_P15 \<equiv> MULT16_32_P 15"

definition MAC16_32_Q12 :: "int \<Rightarrow> int \<Rightarrow> int \<Rightarrow> int" where
  "MAC16_32_Q12 c a b = ADD32 c (MULT16_32_Q12 a b)"

definition MAC16_32_Q13 :: "int \<Rightarrow> int \<Rightarrow> int \<Rightarrow> int" where
  "MAC16_32_Q13 c a b = ADD32 c (MULT16_32_Q13 a b)"

definition MSU16_16_Q12 :: "int \<Rightarrow> int \<Rightarrow> int \<Rightarrow> int" where
  "MSU16_16_Q12 c a b = SUB32 c (MULT16_16_Q12 a b)"

definition MAC16_16_Q3 :: "int \<Rightarrow> int \<Rightarrow> int \<Rightarrow> int" where
  "MAC16_16_Q3 c a b = ADD32 c (MULT16_16_Q3 a b)"

definition MAC16_16_Q4 :: "int \<Rightarrow> int \<Rightarrow> int \<Rightarrow> int" where
  "MAC16_16_Q4 c a b = ADD32 c (MULT16_16_Q4 a b)"

definition MAC16_16_Q13 :: "int \<Rightarrow> int \<Rightarrow> int \<Rightarrow> int" where
  "MAC16_16_Q13 c a b = ADD32 c (MULT16_16_Q13 a b)"

definition MAC16_16_Q14 :: "int \<Rightarrow> int \<Rightarrow> int \<Rightarrow> int" where
  "MAC16_16_Q14 c a b = ADD32 c (MULT16_16_Q14 a b)"

definition MSU16_16_Q14 :: "int \<Rightarrow> int \<Rightarrow> int \<Rightarrow> int" where
  "MSU16_16_Q14 c a b = SUB32 c (MULT16_16_Q14 a b)"

definition MAC16_32_Q14 :: "int \<Rightarrow> int \<Rightarrow> int \<Rightarrow> int" where
  "MAC16_32_Q14 c a b = ADD32 c (MULT16_32_Q14 a b)"

definition MAC16_32_P15 :: "int \<Rightarrow> int \<Rightarrow> int \<Rightarrow> int" where
  "MAC16_32_P15 c a b = ADD32 c (MULT16_32_P15 a b)"

definition UMAC16_16_Q4 :: "int \<Rightarrow> int \<Rightarrow> int \<Rightarrow> int" where
  "UMAC16_16_Q4 c a b = ADD32 c (SHR (UMULT16_16 a b) 4)"

section \<open>64 bit operations\<close>

definition ADD64 :: "int \<Rightarrow> int \<Rightarrow> int" where
  "ADD64 a b = s64 (s64 a + s64 b)"

definition SUB64 :: "int \<Rightarrow> int \<Rightarrow> int" where
  "SUB64 a b = s64 (s64 a - s32 b)"

definition MULT32_32 :: "int \<Rightarrow> int \<Rightarrow> int" where
  "MULT32_32 a b = s64 (s64 a * s64 b)"

definition MULT32_32_Q31 :: "int \<Rightarrow> int \<Rightarrow> int" where
  "MULT32_32_Q31 a b = s32 (shr (s64 (s64 a * s64 b)) 31)"

definition MAC32_32_Q31 :: "int \<Rightarrow> int \<Rightarrow> int \<Rightarrow> int" where
  "MAC32_32_Q31 c a b = ADD32 c (MULT32_32_Q31 a b)"

definition DIV32_32_Q24 :: "int \<Rightarrow> int \<Rightarrow> int" where
  "DIV32_32_Q24 a b = s64 (s64 (s64 a * 2 ^ 24) sdiv s32 b)"

definition ADD64_32 :: "int \<Rightarrow> int \<Rightarrow> int" where
  "ADD64_32 a b = s64 (s64 a + s32 b)"

definition SHL64 :: "int \<Rightarrow> nat \<Rightarrow> int" where
  "SHL64 a n = s64 (a * 2 ^ n)"

definition SHR64 :: "int \<Rightarrow> nat \<Rightarrow> int" where
  "SHR64 a n = shr a n"

definition DIV64 :: "int \<Rightarrow> int \<Rightarrow> int" where
  "DIV64 a b = s64 (s64 a sdiv s64 b)"

definition MAC64 :: "int \<Rightarrow> int \<Rightarrow> int \<Rightarrow> int" where
  "MAC64 c a b = s64 (s64 c + s64 (s64 a * s64 b))"

definition MULT32_32_Q23 :: "int \<Rightarrow> int \<Rightarrow> int" where
  "MULT32_32_Q23 a b = s32 (shr (s64 (s64 a * s64 b)) 23)"

definition DIV32_32_Q27 :: "int \<Rightarrow> int \<Rightarrow> int" where
  "DIV32_32_Q27 a b = s64 (s64 (s64 a * 2 ^ 27) sdiv s32 b)"

definition DIV32_32_Q31 :: "int \<Rightarrow> int \<Rightarrow> int" where
  "DIV32_32_Q31 a b = s64 (s64 (s64 a * 2 ^ 31) sdiv s32 b)"

definition MAXINT64 :: int where "MAXINT64 = 0x7fffffffffffffff"

section \<open>Values and ranges\<close>

lemma SATURATE_clamp: "0 \<le> a \<Longrightarrow> SATURATE x a = clamp (- (a + 1)) a x"
  by (simp add: SATURATE_def clamp_def)

lemma SATURATE_range: "0 \<le> a \<Longrightarrow> - (a + 1) \<le> SATURATE x a \<and> SATURATE x a \<le> a"
  by (simp add: SATURATE_def)

lemma SATURATE_s16 [simp, range_simps]: "is_s16 (SATURATE x MAXINT16)"
  by (simp add: SATURATE_def MAXINT16_def is_s16_def)

lemma s16_range [simp, range_simps]: "is_s16 (ADD16 a b)"
  by (simp add: ADD16_def)

lemma s32_ops_range [simp, range_simps]:
  "is_s32 (ADD32 a b)" "is_s32 (SUB32 a b)" "is_s32 (MULT16_16 a b)" "is_s32 (MULT16_32 a b)"
  "is_s32 (MAC16_16 c a b)" "is_s32 (MSU16_16 c a b)" "is_s32 (DIV32 a b)" "is_s32 (SHL a n)"
  "is_s32 (MULT16_32_Q n a b)" "is_s32 (MULT16_32_P n a b)"
  by (simp_all add: ADD32_def SUB32_def MULT16_16_def MULT16_32_def MAC16_16_def MSU16_16_def
      DIV32_def SHL_def MULT16_32_Q_def MULT16_32_P_def)

lemma ADD32_exact: "is_s32 a \<Longrightarrow> is_s32 b \<Longrightarrow> is_s32 (a + b) \<Longrightarrow> ADD32 a b = a + b"
  by (simp add: ADD32_def)

lemma SUB32_exact: "is_s32 a \<Longrightarrow> is_s32 b \<Longrightarrow> is_s32 (a - b) \<Longrightarrow> SUB32 a b = a - b"
  by (simp add: SUB32_def)

lemma MULT16_16_exact: "is_s32 a \<Longrightarrow> is_s32 b \<Longrightarrow> is_s32 (a * b) \<Longrightarrow> MULT16_16 a b = a * b"
  by (simp add: MULT16_16_def)

lemma MULT16_16_no_overflow:
  assumes "is_s16 a" "is_s16 b"
  shows "MULT16_16 a b = a * b"
proof (rule MULT16_16_exact)
  show "is_s32 (a * b)"
    using mult_bounds [OF is_s16_abs is_s16_abs, OF assms] by (simp add: is_s32_def)
qed (use assms in \<open>simp_all add: is_s16_is_s32\<close>)

lemma UDIV32_range: "0 \<le> UDIV32 x y \<and> UDIV32 x y < 4294967296"
proof -
  have r: "0 \<le> u32 z" "u32 z < 4294967296" for z by (simp_all add: u32_def)
  have "u32 x div u32 y \<le> u32 x"
  proof (cases "u32 y = 0")
    case False
    then have "u32 x div u32 y \<le> u32 x div 1" using r [of x] r [of y] by (intro zdiv_mono2) auto
    then show ?thesis by simp
  qed (simp add: r)
  moreover have "0 \<le> u32 x div u32 y" using r by (intro div_int_pos_iff [THEN iffD2]) auto
  ultimately show ?thesis using r(2) [of x] by (simp add: UDIV32_def)
qed

text \<open>The two-step product is the floor of the exact product, when its parts fit 32 bits.\<close>

lemma MULT16_32_Q_exact:
  assumes "is_s32 a" "is_s32 b" "is_s32 (a * (b div 2 ^ n))" "is_s32 (a * (b mod 2 ^ n))"
    "is_s32 (a * b div 2 ^ n)" "n \<le> 31"
  shows "MULT16_32_Q n a b = a * b div 2 ^ n"
proof -
  have split: "a * b = a * (b mod 2 ^ n) + (a * (b div 2 ^ n)) * 2 ^ n"
    by (metis mult.assoc distrib_left mult_div_mod_eq add.commute mult.commute)
  have eq: "a * b div 2 ^ n = a * (b div 2 ^ n) + a * (b mod 2 ^ n) div 2 ^ n"
    unfolding split by simp
  have "0 \<le> b mod 2 ^ n" "b mod 2 ^ n < 2 ^ n" by simp_all
  moreover have "(2::int) ^ n \<le> 2 ^ 31" using assms(6) by (intro power_increasing) auto
  ultimately have r: "is_s32 (b mod 2 ^ n)"
    unfolding is_s32_def by (auto simp del: pos_mod_bound pos_mod_sign)
  have q: "is_s32 (b div 2 ^ n)" using shr_shrinks [OF assms(2)] by (simp add: shr_def)
  have s: "is_s32 (a * (b mod 2 ^ n) div 2 ^ n)"
    using shr_shrinks [OF assms(4)] by (simp add: shr_def)
  show ?thesis
    using assms r q s eq
    by (simp add: MULT16_32_Q_def SHR_def shr_def MULT16_16_exact ADD32_exact)
qed

end
