(* ===== verification/G729_Utils.thy ===== *)
theory G729_Utils
  imports G729_Arith "HOL-Library.Multiset"
begin

text \<open>
  The numeric helpers of \<open>utils.c\<close> and \<open>utils.h\<close> (bcg729): sorting and minimum of an array,
  the minimum distance rearrangement of LSF vectors, the leading zero counts, the pseudo
  random generator, the correlation of two subframes. Arrays are modified in place in C;
  here a function returns the array it leaves.
\<close>

section \<open>Sizes\<close>

definition NB_LSP_COEFF :: nat where "NB_LSP_COEFF = 10"
definition L_SUBFRAME :: nat where "L_SUBFRAME = 40"
definition L_FRAME :: nat where "L_FRAME = 80"

lemmas size_defs = NB_LSP_COEFF_def L_SUBFRAME_def L_FRAME_def

section \<open>Insertion sort\<close>

text \<open>
  The inner loop \<open>while ((j >= 0) && (x[j] > currentValue)) { x[j+1] = x[j]; j--; }\<close> returns
  the array and the final \<open>j\<close>.
\<close>

function insertion_inner :: "int \<Rightarrow> int list \<Rightarrow> int \<Rightarrow> (int list \<times> int) option" where
  "insertion_inner currentValue x j =
    (if j \<ge> 0 then
       do { xj \<leftarrow> get x j;
            if xj > currentValue
            then do { x' \<leftarrow> put x (j + 1) xj; insertion_inner currentValue x' (j - 1) }
            else Some (x, j) }
     else Some (x, j))"
  by pat_completeness auto
termination
  by (relation "measure (\<lambda>(c, x, j). nat (j + 1))") auto

declare insertion_inner.simps [simp del]

definition insertionSort :: "int list \<Rightarrow> nat \<Rightarrow> int list option" where
  "insertionSort x len = for_up 1 len
    (\<lambda>i x. do { currentValue \<leftarrow> get x i;
                (x', j) \<leftarrow> insertion_inner currentValue x (i - 1);
                put x' (j + 1) currentValue }) x"

section \<open>Minimum\<close>

definition getMinInArray :: "int list \<Rightarrow> nat \<Rightarrow> int option" where
  "getMinInArray x len = for_up 0 len
    (\<lambda>i m. do { xi \<leftarrow> get x i; Some (if xi < m then xi else m) }) MAXINT16"

section \<open>Minimum distance between consecutive coefficients\<close>

definition rearrange_step :: "int \<Rightarrow> int \<Rightarrow> int list \<Rightarrow> int list option" where
  "rearrange_step J i q = do {
     p \<leftarrow> get q (i - 1);
     c \<leftarrow> get q i;
     let delta = s16 (ADD16 (SUB16 p c) J sdiv 2);
     if delta > 0
     then do { q' \<leftarrow> put q (i - 1) (s16 (SUB16 p delta)); put q' i (ADD16 c delta) }
     else Some q }"

definition rearrangeCoefficients :: "int list \<Rightarrow> int \<Rightarrow> int list option" where
  "rearrangeCoefficients q J = for_up 1 NB_LSP_COEFF (rearrange_step J) q"

section \<open>Leading zeros\<close>

text \<open>\<open>while (x < 0x40000000) { leadingZeros++; x <<= 1; }\<close> may never end: \<open>None\<close>.\<close>

partial_function (option) clz_loop :: "int \<Rightarrow> int \<Rightarrow> int option" where
  "clz_loop x leadingZeros =
    (if x < 0x40000000 then clz_loop (s32 (x * 2)) (u16 (leadingZeros + 1)) else Some leadingZeros)"

definition countLeadingZeros :: "int \<Rightarrow> int option" where
  "countLeadingZeros x = (if x = 0 then Some 31 else clz_loop x 0)"

partial_function (option) uclz_loop :: "int \<Rightarrow> int \<Rightarrow> int option" where
  "uclz_loop x leadingZeros =
    (if x < 0x80000000 then uclz_loop (u32 (x * 2)) (u16 (leadingZeros + 1)) else Some leadingZeros)"

definition unsignedCountLeadingZeros :: "int \<Rightarrow> int option" where
  "unsignedCountLeadingZeros x = (if x = 0 then Some 32 else uclz_loop x 0)"

declare clz_loop.simps [code] uclz_loop.simps [code]

section \<open>Pseudo random numbers\<close>

text \<open>The new seed, which is also the number returned.\<close>

definition pseudoRandom :: "int \<Rightarrow> int" where
  "pseudoRandom randomGeneratorSeed = u16 (MAC16_16 13849 randomGeneratorSeed 31821)"

section \<open>Correlation\<close>

definition correlateVectors :: "int list \<Rightarrow> int list \<Rightarrow> int list \<Rightarrow> int list option" where
  "correlateVectors x y c = for_up 0 L_SUBFRAME
    (\<lambda>i c. do {
       c0 \<leftarrow> put c i 0;
       for_up (nat i) L_SUBFRAME
         (\<lambda>j c. do { ci \<leftarrow> get c i; xj \<leftarrow> get x j; yj \<leftarrow> get y (j - i);
                     put c i (MAC16_16 ci xj yj) }) c0 }) c"

section \<open>Insertion sort is sorting\<close>

lemma insort_snoc:
  fixes c :: int
  assumes "sorted (ys @ [y])"
  shows "insort c (ys @ [y]) = (if y > c then insort c ys @ [y] else ys @ [y, c])"
proof -
  let ?r = "if y > c then insort c ys @ [y] else ys @ [y, c]"
  have "sort (c # ys @ [y]) = ?r"
    by (rule properties_for_sort)
      (use assms in \<open>auto simp: sorted_append sorted_insort set_insort_key\<close>)
  moreover have "sort (c # ys @ [y]) = insort c (ys @ [y])"
    using assms by (simp add: sorted_sort_id)
  ultimately show ?thesis by simp
qed

lemma get_at [simp]: "get (ys @ y # zs) (int (length ys)) = Some y"
  by (simp add: get_def)

lemma put_at [simp]: "put (ys @ y # zs) (int (length ys)) v = Some (ys @ v # zs)"
  by (simp add: put_def list_update_append)

lemma put_at_Suc: "put (ys @ y # z # zs) (int (length ys) + 1) v = Some (ys @ y # v # zs)"
  using put_at [of "ys @ [y]" z zs v] by (simp add: add.commute)

lemma insertion_inner_sorted:
  assumes "sorted ys"
  shows "\<exists>r j. insertion_inner c (ys @ h # zs) (int (length ys) - 1) = Some (r, j)
    \<and> put r (j + 1) c = Some (insort c ys @ zs)"
  using assms
proof (induction ys arbitrary: h zs rule: rev_induct)
  case Nil
  show ?case by (simp add: insertion_inner.simps put_def)
next
  case (snoc y ys)
  have s: "sorted ys" using snoc.prems by (simp add: sorted_append)
  show ?case
  proof (cases "y > c")
    case True
    then have "insertion_inner c ((ys @ [y]) @ h # zs) (int (length (ys @ [y])) - 1) =
        insertion_inner c (ys @ y # y # zs) (int (length ys) - 1)"
      by (subst insertion_inner.simps) (simp add: put_at_Suc)
    then show ?thesis using snoc.IH [OF s, of y "y # zs"] True insort_snoc [OF snoc.prems]
      by auto
  next
    case False
    then have "insertion_inner c ((ys @ [y]) @ h # zs) (int (length (ys @ [y])) - 1) =
        Some (ys @ y # h # zs, int (length ys))"
      by (subst insertion_inner.simps) simp
    then show ?thesis using False insort_snoc [OF snoc.prems] by (simp add: put_at_Suc)
  qed
qed

lemma insertionSort_prefix:
  assumes "len \<le> length x"
  shows "insertionSort x len = Some (sort (take len x) @ drop len x)"
proof (cases len)
  case 0
  then show ?thesis by (simp add: insertionSort_def for_up_def)
next
  case (Suc n)
  let ?inv = "\<lambda>i t. t = sort (take i x) @ drop i x"
  have "\<exists>t. insertionSort x len = Some t \<and> ?inv len t"
    unfolding insertionSort_def
  proof (rule for_up_rule)
    show "?inv 1 x" using assms Suc by (cases x) auto
    fix i t assume i: "1 \<le> i" "i < len" and t: "?inv i t"
    let ?ys = "sort (take i x)" and ?c = "x ! i" and ?zs = "drop (Suc i) x"
    have split: "t = ?ys @ ?c # ?zs" using t i assms by (simp add: Cons_nth_drop_Suc)
    have len: "length ?ys = i" using i assms by simp
    obtain r j where r: "insertion_inner ?c t (int i - 1) = Some (r, j)"
      and pr: "put r (j + 1) ?c = Some (insort ?c ?ys @ ?zs)"
      using insertion_inner_sorted [of ?ys ?c ?c ?zs] split len by auto
    have "get t (int i) = Some ?c" using get_at [of ?ys ?c ?zs] split len by simp
    moreover have "sort (take (Suc i) x) = insort ?c ?ys"
      by (rule properties_for_sort)
        (use i assms in \<open>simp_all add: take_Suc_conv_app_nth sorted_insort\<close>)
    ultimately show "\<exists>t'. (do { currentValue \<leftarrow> get t (int i);
        (x', j) \<leftarrow> insertion_inner currentValue t (int i - 1);
        put x' (j + 1) currentValue }) = Some t' \<and> ?inv (Suc i) t'"
      using r pr by simp
  qed (use Suc in simp)
  then show ?thesis by blast
qed

section \<open>Leading zeros end and normalise\<close>

lemma shift_step: "0 \<le> n \<Longrightarrow> (2::int) ^ nat (n + 1) = 2 * 2 ^ nat n"
  by (simp add: nat_add_distrib)

lemma pow2_less_iff31: "(2::int) ^ m < 2147483648 \<longleftrightarrow> m < 31"
  using power_strict_increasing_iff [of "2::int" m 31] by simp

lemma pow2_less_iff32: "(2::int) ^ m < 4294967296 \<longleftrightarrow> m < 32"
  using power_strict_increasing_iff [of "2::int" m 32] by simp

lemma clz_loop_spec:
  assumes "0 \<le> n" "2 ^ nat n \<le> x" "x < 2147483648"
  shows "\<exists>m. clz_loop x n = Some (n + int m) \<and> 1073741824 \<le> x * 2 ^ m \<and> x * 2 ^ m < 2147483648"
  using assms
proof (induction "nat (2147483648 - x)" arbitrary: x n rule: less_induct)
  case less
  have "(2::int) ^ nat n < 2147483648" using less.prems by linarith
  then have n: "n < 31" using less.prems by (simp add: pow2_less_iff31)
  have x: "0 < x" using less.prems(2) zero_less_power [of "2::int" "nat n"] by linarith
  show ?case
  proof (cases "x < 1073741824")
    case True
    have u: "u16 (n + 1) = n + 1" using n less.prems by (intro u16_idI) auto
    have s: "s32 (x * 2) = x * 2" using True x by (intro s32_idI) auto
    have "\<exists>m. clz_loop (x * 2) (n + 1) = Some (n + 1 + int m)
        \<and> 1073741824 \<le> x * 2 * 2 ^ m \<and> x * 2 * 2 ^ m < 2147483648"
      by (rule less.hyps) (use True x less.prems in \<open>auto simp: shift_step\<close>)
    then obtain m where m: "clz_loop (x * 2) (n + 1) = Some (n + 1 + int m)"
      "1073741824 \<le> x * 2 * 2 ^ m" "x * 2 * 2 ^ m < 2147483648" by blast
    have "clz_loop x n = clz_loop (x * 2) (n + 1)"
      using True by (subst clz_loop.simps) (simp add: u s)
    with m show ?thesis by (intro exI [of _ "Suc m"]) (simp add: mult.assoc)
  next
    case False
    with less.prems show ?thesis by (subst clz_loop.simps) (auto intro!: exI [of _ 0])
  qed
qed

lemma uclz_loop_spec:
  assumes "0 \<le> n" "2 ^ nat n \<le> x" "x < 4294967296"
  shows "\<exists>m. uclz_loop x n = Some (n + int m) \<and> 2147483648 \<le> x * 2 ^ m \<and> x * 2 ^ m < 4294967296"
  using assms
proof (induction "nat (4294967296 - x)" arbitrary: x n rule: less_induct)
  case less
  have "(2::int) ^ nat n < 4294967296" using less.prems by linarith
  then have n: "n < 32" using less.prems by (simp add: pow2_less_iff32)
  have x: "0 < x" using less.prems(2) zero_less_power [of "2::int" "nat n"] by linarith
  show ?case
  proof (cases "x < 2147483648")
    case True
    have u: "u16 (n + 1) = n + 1" using n less.prems by (intro u16_idI) auto
    have s: "u32 (x * 2) = x * 2" using True x by (simp add: u32_def)
    have "\<exists>m. uclz_loop (x * 2) (n + 1) = Some (n + 1 + int m)
        \<and> 2147483648 \<le> x * 2 * 2 ^ m \<and> x * 2 * 2 ^ m < 4294967296"
      by (rule less.hyps) (use True x less.prems in \<open>auto simp: shift_step\<close>)
    then obtain m where m: "uclz_loop (x * 2) (n + 1) = Some (n + 1 + int m)"
      "2147483648 \<le> x * 2 * 2 ^ m" "x * 2 * 2 ^ m < 4294967296" by blast
    have "uclz_loop x n = uclz_loop (x * 2) (n + 1)"
      using True by (subst uclz_loop.simps) (simp add: u s)
    with m show ?thesis by (intro exI [of _ "Suc m"]) (simp add: mult.assoc)
  next
    case False
    with less.prems show ?thesis by (subst uclz_loop.simps) (auto intro!: exI [of _ 0])
  qed
qed

text \<open>The counts, as numbers m with the shifted value in the top half of its range.\<close>

lemma countLeadingZeros_spec:
  assumes "0 < x" "x < 2147483648"
  shows "\<exists>m. countLeadingZeros x = Some (int m) \<and> m \<le> 30
    \<and> 1073741824 \<le> x * 2 ^ m \<and> x * 2 ^ m < 2147483648"
proof -
  obtain m where m: "clz_loop x 0 = Some (0 + int m)"
    "1073741824 \<le> x * 2 ^ m" "x * 2 ^ m < 2147483648"
    using clz_loop_spec [of 0 x] assms by auto
  have "1 * 2 ^ m \<le> x * 2 ^ m" using assms by (intro mult_right_mono) auto
  then have "(2::int) ^ m < 2147483648" using m(3) by linarith
  then show ?thesis using m assms by (auto simp: countLeadingZeros_def pow2_less_iff31)
qed

lemma unsignedCountLeadingZeros_spec:
  assumes "0 < x" "x < 4294967296"
  shows "\<exists>m. unsignedCountLeadingZeros x = Some (int m) \<and> m \<le> 31
    \<and> 2147483648 \<le> x * 2 ^ m \<and> x * 2 ^ m < 4294967296"
proof -
  obtain m where m: "uclz_loop x 0 = Some (0 + int m)"
    "2147483648 \<le> x * 2 ^ m" "x * 2 ^ m < 4294967296"
    using uclz_loop_spec [of 0 x] assms by auto
  have "1 * 2 ^ m \<le> x * 2 ^ m" using assms by (intro mult_right_mono) auto
  then have "(2::int) ^ m < 4294967296" using m(3) by linarith
  then show ?thesis using m assms by (auto simp: unsignedCountLeadingZeros_def pow2_less_iff32)
qed

section \<open>The pseudo random generator has full period\<close>

text \<open>On 16 bit seeds the 32 bit product does not overflow.\<close>

lemma pseudoRandom_no_overflow:
  assumes "is_u16 x"
  shows "pseudoRandom x = (31821 * x + 13849) mod 65536"
proof -
  have "MULT16_16 x 31821 = x * 31821" "is_s32 (13849 + x * 31821)"
    using assms by (auto simp: is_u16_def is_s32_def MULT16_16_def s32_idI)
  then have "MAC16_16 13849 x 31821 = 13849 + x * 31821"
    using assms unfolding MAC16_16_def
    by (subst ADD32_exact) (auto simp: is_u16_def is_s32_def)
  then show ?thesis by (simp add: pseudoRandom_def u16_def algebra_simps)
qed

lemma pseudoRandom_range: "is_u16 (pseudoRandom x)"
  by (simp add: pseudoRandom_def)

definition geo :: "nat \<Rightarrow> int" where
  "geo n = (\<Sum>i<n. 31821 ^ i)"

lemma geo_Suc: "geo (Suc n) = 31821 * geo n + 1"
  unfolding geo_def sum.lessThan_Suc_shift by (simp add: sum_distrib_left)

lemma geo_double: "geo (2 * m) = geo m * (1 + 31821 ^ m)"
proof -
  have "geo (m + k) = geo m + 31821 ^ m * geo k" for k
  proof (induction k)
    case 0
    show ?case by (simp add: geo_def)
  next
    case (Suc k)
    have "geo (m + Suc k) = geo (m + k) + 31821 ^ (m + k)" by (simp add: geo_def)
    moreover have "geo (Suc k) = geo k + 31821 ^ k" by (simp add: geo_def)
    ultimately show ?case by (simp add: Suc.IH power_add distrib_left)
  qed
  from this [of m] have "geo (m + m) = geo m + 31821 ^ m * geo m" .
  then show ?thesis by (simp only: mult_2 distrib_left mult_1_right mult.commute [of "31821 ^ m"])
qed

lemma power_1_mod_4: "(31821::int) ^ m mod 4 = 1"
proof (induction m)
  case (Suc m)
  have "(31821::int) ^ Suc m mod 4 = (31821 mod 4) * (31821 ^ m mod 4) mod 4"
    by (simp only: power_Suc mod_mult_eq)
  then show ?case by (simp add: Suc)
qed simp

lemma even_geo: "even (geo n) \<longleftrightarrow> even n"
proof (induction n)
  case 0
  show ?case by (simp add: geo_def)
next
  case (Suc n)
  then show ?case by (simp add: geo_Suc)
qed

lemma two_power_dvd_geo: "2 ^ k dvd geo n \<longleftrightarrow> 2 ^ k dvd n"
proof (induction k arbitrary: n)
  case (Suc k)
  show ?case
  proof (cases "even n")
    case False
    then have "\<not> 2 dvd geo n" "\<not> 2 dvd n" by (simp_all add: even_geo)
    then show ?thesis by (metis dvd_trans dvd_triv_left power_Suc)
  next
    case True
    then obtain m where n: "n = 2 * m" by blast
    obtain q where "31821 ^ m = 4 * q + (1::int)"
      using power_1_mod_4 [of m] by (metis mult_div_mod_eq)
    then have "1 + 31821 ^ m = 2 * (2 * q + 1)" by simp
    then have "geo n = 2 * (geo m * (2 * q + 1))"
      unfolding n geo_double by (simp only: mult.left_commute)
    then have "2 ^ Suc k dvd geo n \<longleftrightarrow> 2 ^ k dvd geo m * (2 * q + 1)" by simp
    also have "\<dots> \<longleftrightarrow> 2 ^ k dvd geo m"
      by (simp add: coprime_dvd_mult_left_iff)
    finally show ?thesis by (simp add: Suc.IH n)
  qed
qed simp

lemma pseudoRandom_iterate:
  assumes "is_u16 x"
  shows "(pseudoRandom ^^ n) x = (31821 ^ n * x + 13849 * geo n) mod 65536"
proof (induction n)
  case 0
  then show ?case using assms by (simp add: geo_def is_u16_def)
next
  case (Suc n)
  let ?v = "31821 ^ n * x + 13849 * geo n"
  have "is_u16 (?v mod 65536)" using is_u16_u16 [of ?v] by (simp add: u16_def)
  then have "(pseudoRandom ^^ Suc n) x = (31821 * (?v mod 65536) + 13849) mod 65536"
    by (simp add: Suc.IH pseudoRandom_no_overflow)
  also have "\<dots> = (31821 * ?v + 13849) mod 65536" by (rule mod_add_cong [OF mod_mult_right_eq refl])
  also have "31821 * ?v + 13849 = 31821 ^ Suc n * x + 13849 * geo (Suc n)"
    by (simp only: geo_Suc power_Suc algebra_simps)
  finally show ?case .
qed

lemma geo_telescope: "31821 ^ n = 31820 * geo n + 1"
proof (induction n)
  case 0
  show ?case by (simp add: geo_def)
next
  case (Suc n)
  have "(31821::int) ^ Suc n = 31821 * (31820 * geo n + 1)" by (simp only: power_Suc Suc)
  then show ?case by (simp add: geo_Suc)
qed

text \<open>The generator visits all 65536 seeds before it repeats one: from any 16 bit seed,
  n steps lead back to it exactly when n is a multiple of 65536.\<close>

theorem pseudoRandom_period:
  assumes "is_u16 x"
  shows "(pseudoRandom ^^ n) x = x \<longleftrightarrow> 65536 dvd n"
proof -
  let ?c = "31820 * x + 13849"
  have x: "x mod 65536 = x" using assms by (simp add: is_u16_def)
  have "31821 ^ n * x + 13849 * geo n - x = geo n * ?c"
    by (simp only: geo_telescope) (simp add: algebra_simps)
  then have "(pseudoRandom ^^ n) x = x \<longleftrightarrow> 65536 dvd geo n * ?c"
    by (metis pseudoRandom_iterate [OF assms] x mod_eq_dvd_iff)
  also have "\<dots> \<longleftrightarrow> (2::int) ^ 16 dvd geo n * ?c" by simp
  also have "\<dots> \<longleftrightarrow> 2 ^ 16 dvd geo n"
    by (rule coprime_dvd_mult_left_iff) (simp only: coprime_power_left_iff coprime_left_2_iff_odd; simp)
  also have "\<dots> \<longleftrightarrow> (2::nat) ^ 16 dvd n" using two_power_dvd_geo [of 16 n]
    by (metis of_nat_numeral of_nat_power of_nat_dvd_iff)
  finally show ?thesis by simp
qed

theorem pseudoRandom_period_witness: "(pseudoRandom ^^ 3) 11111 \<noteq> (11111::int)"
  using pseudoRandom_period [of 11111 3] by (simp add: is_u16_def)

text \<open>(C20) \<open>insertionSort x len\<close> stays inside an array of at least len cells, ends, leaves the
  cells from len on as they are, and makes the first len cells a sorted permutation of
  what they were.\<close>

theorem insertionSort_sorts:
  assumes "len \<le> length x"
  shows "\<exists>y. insertionSort x len = Some y \<and> length y = length x \<and> sorted (take len y)
    \<and> mset (take len y) = mset (take len x) \<and> drop len y = drop len x"
  using insertionSort_prefix [OF assms] assms by simp

theorem insertionSort_sorts_witness:
  "\<exists>y. insertionSort [3, -1, 2, 0] 3 = Some y \<and> sorted (take 3 y) \<and> drop 3 y = [0]"
  using insertionSort_sorts [of 3 "[3, -1, 2, 0]"] by auto

section \<open>Minimum distance\<close>

text \<open>One step moves two neighbours apart by the same amount: the sum of the vector stays.\<close>

lemma rearrange_step_total:
  assumes "length q = 10" "0 < i" "i < 10"
  shows "\<exists>r. rearrange_step J i q = Some r \<and> length r = 10"
  using assms by (simp add: rearrange_step_def Let_def)

lemma rearrange_step_s16:
  assumes "s16_arr 10 q" "0 < i" "i < 10"
  shows "\<exists>r. rearrange_step J i q = Some r \<and> s16_arr 10 r"
  using assms by (auto simp: rearrange_step_def Let_def arr_length intro!: arr_update)

lemma rearrangeCoefficients_s16:
  assumes "s16_arr 10 q"
  shows "\<exists>r. rearrangeCoefficients q J = Some r \<and> s16_arr 10 r"
  unfolding rearrangeCoefficients_def
  by (rule for_up_inv) (use assms in \<open>auto simp: NB_LSP_COEFF_def intro!: rearrange_step_s16\<close>)

lemma sdiv_2_pos: "0 < x sdiv 2 \<Longrightarrow> 2 * (x sdiv 2) \<le> x \<and> x \<le> 2 * (x sdiv 2) + 1" for x :: int
proof -
  assume pos: "0 < x sdiv 2"
  then have "0 < x" by (simp add: signed_divide_int_def sgn_if split: if_splits)
  then show ?thesis by (simp add: signed_divide_int_def sgn_if) presburger
qed

lemma sum_list_update_one:
  fixes xs :: "int list"
  shows "i < length xs \<Longrightarrow> sum_list (xs[i := a]) = sum_list xs - xs ! i + a"
  by (induction xs arbitrary: i) (auto split: nat.split)

lemma sum_list_update_two:
  fixes xs :: "int list"
  assumes "i < length xs" "j < length xs" "i \<noteq> j"
  shows "sum_list (xs[i := a, j := b]) = sum_list xs - xs ! i - xs ! j + a + b"
  using assms by (simp add: sum_list_update_one)

text \<open>The arithmetic of one step, for values p and c moved apart by d.\<close>

lemma spread_bounds:
  fixes p c d J lo hi :: int
  assumes "lo \<le> p" "p \<le> hi + J" "lo \<le> c" "c \<le> hi"
    "2 * d \<le> p - c + J" "p - c + J \<le> 2 * d + 1" "0 < d" "0 \<le> J"
  shows "lo - J \<le> p - d \<and> p - d \<le> hi + J \<and> lo \<le> c + d \<and> c + d \<le> hi + J \<and> lo - J \<le> c + d"
  using assms by linarith

lemma spread_s16:
  fixes p c d J lo hi :: int
  assumes "lo \<le> p" "p \<le> hi + J" "lo \<le> c" "c \<le> hi"
    "2 * d \<le> p - c + J" "p - c + J \<le> 2 * d + 1" "0 < d" "0 \<le> J"
    "-32768 \<le> lo - J" "hi + J \<le> 32767" "hi - lo + 2 * J \<le> 32767"
  shows "s16 d = d" "s16 (p - d) = p - d" "s16 (c + d) = c + d"
  using assms by (auto intro!: s16_idI)

text \<open>The values reached while the loop runs: cells from i on are not below lo, the cells
  before may have been lowered, none exceeds hi + J.\<close>

definition rearrange_inv :: "int \<Rightarrow> int \<Rightarrow> int \<Rightarrow> int \<Rightarrow> nat \<Rightarrow> int list \<Rightarrow> bool" where
  "rearrange_inv lo hi J S i q \<longleftrightarrow> length q = 10 \<and> sum_list q = S
    \<and> (\<forall>k<10. lo - J \<le> q ! k \<and> q ! k \<le> hi + J) \<and> (\<forall>k<10. i \<le> Suc k \<longrightarrow> lo \<le> q ! k)
    \<and> (\<forall>k<10. i \<le> k \<longrightarrow> q ! k \<le> hi)
    \<and> (i \<ge> 2 \<longrightarrow> q ! (i - 1) - q ! (i - 2) \<ge> J - 1)"

lemma rearrange_inv_spread:
  assumes "rearrange_inv lo hi J S i q" "1 \<le> i" "i < 10"
    and "lo - J \<le> q ! (i - 1) - d" "q ! (i - 1) - d \<le> hi + J"
    and "lo \<le> q ! i + d" "q ! i + d \<le> hi + J" "lo - J \<le> q ! i + d"
    and "q ! (i - 1) - q ! i + J \<le> 2 * d + 1"
  shows "rearrange_inv lo hi J S (Suc i) (q[i - 1 := q ! (i - 1) - d, i := q ! i + d])"
proof -
  have len: "length q = 10" using assms(1) by (simp add: rearrange_inv_def)
  obtain j where j: "i = Suc j" using assms(2) by (cases i) auto
  have n: "q[j := a, Suc j := b] ! k = (if k = Suc j then b else if k = j then a else q ! k)"
    if "k < 10" for a b k
    using that len assms(3) j by (auto simp: nth_list_update)
  have "sum_list (q[i - 1 := q ! (i - 1) - d, i := q ! i + d]) = sum_list q"
    using assms(2,3) len by (subst sum_list_update_two) auto
  then show ?thesis
    using assms n len unfolding rearrange_inv_def j by auto
qed

lemma rearrange_step_inv:
  assumes inv: "rearrange_inv lo hi J S i q" and i: "1 \<le> i" "i < 10"
    and J: "0 \<le> J" and lo: "-32768 \<le> lo - J" and hi: "hi + J \<le> 32767" and "hi - lo + 2 * J \<le> 32767"
  shows "\<exists>r. rearrange_step J (int i) q = Some r \<and> rearrange_inv lo hi J S (Suc i) r"
proof -
  let ?p = "q ! (i - 1)" and ?c = "q ! i"
  let ?d = "(?p - ?c + J) sdiv 2"
  have b: "lo \<le> ?p" "?p \<le> hi + J" "lo \<le> ?c" "?c \<le> hi" and len: "length q = 10"
    using inv i by (auto simp: rearrange_inv_def)
  have n: "nat (int i - 1) = i - 1" using i by simp
  have s: "s16 ?p = ?p" "s16 ?c = ?c" "s16 J = J"
    using b lo hi J assms(7) by (simp_all add: s16_idI)
  have dd: "s16 (ADD16 (SUB16 ?p ?c) J sdiv 2) = ?d"
  proof -
    have e: "s16 (?p - ?c + J) = ?p - ?c + J" "s16 (?p - ?c) = ?p - ?c"
      using b lo hi J assms(7) by (auto intro!: s16_idI)
    have "s16 ?d = ?d"
      using b lo hi J assms(7) by (intro s16_idI) (simp_all add: signed_divide_int_def sgn_if, linarith+)
    then show ?thesis by (simp only: ADD16_def SUB16_def s e)
  qed
  show ?thesis
  proof (cases "?d > 0")
    case False
    then have "J - 1 \<le> ?c - ?p"
      by (simp add: signed_divide_int_def sgn_if split: if_splits)
    moreover have "rearrange_step J (int i) q = Some q"
      using False i len by (simp add: rearrange_step_def Let_def n dd [unfolded One_nat_def])
    ultimately show ?thesis using inv i by (auto simp: rearrange_inv_def)
  next
    case True
    then have d: "2 * ?d \<le> ?p - ?c + J" "?p - ?c + J \<le> 2 * ?d + 1"
      using sdiv_2_pos by blast+
    let ?r = "q[i - 1 := ?p - ?d, i := ?c + ?d]"
    have bd: "lo - J \<le> ?p - ?d" "?p - ?d \<le> hi + J" "lo \<le> ?c + ?d" "?c + ?d \<le> hi + J"
      "lo - J \<le> ?c + ?d"
      using spread_bounds [OF b d True J] by simp_all
    have e: "s16 ?d = ?d" "s16 (?p - ?d) = ?p - ?d" "s16 (?c + ?d) = ?c + ?d"
      using spread_s16 [OF b d True J lo hi assms(7)] .
    have "s16 (SUB16 ?p ?d) = ?p - ?d" "ADD16 ?c ?d = ?c + ?d"
      by (simp_all only: SUB16_def ADD16_def s e)
    then have "rearrange_step J (int i) q = Some ?r"
      using True i len by (simp add: rearrange_step_def Let_def n dd [unfolded One_nat_def])
    moreover have "rearrange_inv lo hi J S (Suc i) ?r"
      by (rule rearrange_inv_spread) (use inv i bd d in auto)
    ultimately show ?thesis by blast
  qed
qed



end
