(* ===== verification/G729_Math.thy ===== *)
theory G729_Math
  imports G729_Utils
begin

text \<open>
  The fixed point functions of \<open>g729FixedPointMath.h\<close> (bcg729): logarithm and exponential in
  base 2, square roots, cosine and the inverse trigonometric functions, as polynomials in
  Horner form on 16 and 32 bit integers. A suffix \<open>QxQy\<close> says that the argument is a number
  scaled by \<open>2^x\<close> and the result one scaled by \<open>2^y\<close>.
\<close>

section \<open>Logarithm and exponential\<close>

definition KL0 :: int where "KL0 = -135003"
definition KL1 :: int where "KL1 = 378194"
definition KL2 :: int where "KL2 = -252129"
definition KL3 :: int where "KL3 = 74705"

definition g729Log2_Q0Q16 :: "int \<Rightarrow> int option" where
  "g729Log2_Q0Q16 x = do {
     leadingZeros \<leftarrow> countLeadingZeros x;
     let retValue = SHL (SUB16 30 leadingZeros) 16;
     let acc = s16 (VSHR32 x (16 - leadingZeros));
     let acc32 = ADD32 KL0 (MULT16_32_Q15 acc (ADD32 KL1 (MULT16_32_Q15 acc
                   (ADD32 KL2 (MULT16_32_Q15 acc KL3)))));
     Some (ADD32 retValue acc32) }"

definition E0 :: int where "E0 = 16384"
definition E1 :: int where "E1 = 11356"
definition E2 :: int where "E2 = 3726"
definition E3 :: int where "E3 = 1301"

definition g729Exp2_Q11Q16 :: "int \<Rightarrow> int" where
  "g729Exp2_Q11Q16 x = (
     let integer = SHR x 11 in
     if integer > 14 then 0x7fffffff
     else if integer < -15 then 0
     else
       let frac = s16 (SHL (x - SHL integer 11) 3);
           frac = ADD16 E0 (MULT16_16_Q14 frac (ADD16 E1 (MULT16_16_Q14 frac
                    (ADD16 E2 (MULT16_16_Q14 E3 frac)))))
       in VSHR32 frac (- integer - 2))"

section \<open>Square roots\<close>

definition C0 :: int where "C0 = 3634"
definition C1 :: int where "C1 = 21173"
definition C2 :: int where "C2 = -12627"
definition C3 :: int where "C3 = 4204"

definition g729Sqrt_Q0Q7 :: "int \<Rightarrow> int option" where
  "g729Sqrt_Q0Q7 x =
    (if x = 0 then Some 0
     else do {
       leadingZeros \<leftarrow> unsignedCountLeadingZeros x;
       let k = shr (19 - leadingZeros) 1;
       let x = UVSHR32 x (k * 2);
       let rt = ADD16 C0 (MULT16_16_Q14 x (ADD16 C1 (MULT16_16_Q14 x
                  (ADD16 C2 (MULT16_16_Q14 x C3)))));
       Some (VSHR32 rt (- k)) })"

definition g729InvSqrt_Q0Q31 :: "int \<Rightarrow> int option" where
  "g729InvSqrt_Q0Q31 x =
    (if x = 1 then Some MAXINT32
     else do { rt \<leftarrow> g729Sqrt_Q0Q7 (u32 x); Some (s32 (DIV32_32_Q24 rt x)) })"

section \<open>Trigonometric functions\<close>

definition Kcos1 :: int where "Kcos1 = 32768"
definition Kcos2 :: int where "Kcos2 = -16384"
definition Kcos3 :: int where "Kcos3 = 1365"
definition Kcos4 :: int where "Kcos4 = -46"
definition Ksin1 :: int where "Ksin1 = 32768"
definition Ksin2 :: int where "Ksin2 = -5461"
definition Ksin3 :: int where "Ksin3 = 273"
definition Ksin4 :: int where "Ksin4 = -7"

definition g729Cos_Q13Q15 :: "int \<Rightarrow> int" where
  "g729Cos_Q13Q15 x =
    (if x < 12868 then
       if x < 6434 then
         let x2 = s16 (MULT16_16_P11 x x) in
         s16 (SATURATE (ADD32 Kcos1 (MULT16_16_P15 x2 (ADD32 Kcos2 (MULT16_16_P15 x2
           (ADD32 Kcos3 (MULT16_16_P15 Kcos4 x2)))))) MAXINT16)
       else
         let x = s16 (SUB16 12868 x); x2 = s16 (MULT16_16_P11 x x) in
         s16 (MULT16_16_P13 x (ADD32 Ksin1 (MULT16_16_P15 x2 (ADD32 Ksin2 (MULT16_16_P15 x2
           (ADD32 Ksin3 (MULT16_16_P15 Ksin4 x2)))))))
     else
       let xScaled = s16 (SUB16 25736 x) in
       if x < 19302 then
         let xScaled = s16 (SUB16 12868 xScaled); x2 = s16 (MULT16_16_P11 xScaled xScaled) in
         s16 (MULT16_16_P13 (- xScaled) (ADD32 Ksin1 (MULT16_16_P15 x2 (ADD32 Ksin2
           (MULT16_16_P15 x2 (ADD32 Ksin3 (MULT16_16_P15 Ksin4 x2)))))))
       else
         let x2 = s16 (MULT16_16_P11 xScaled xScaled) in
         s16 (SUB32 (- Kcos1) (MULT16_16_P15 x2 (ADD32 Kcos2 (MULT16_16_P15 x2
           (ADD32 Kcos3 (MULT16_16_P15 Kcos4 x2)))))))"

definition KPI6 :: int where "KPI6 = 17157"
definition KtanPI6 :: int where "KtanPI6 = 18919"
definition KtanPI12 :: int where "KtanPI12 = 8780"
definition atanB :: int where "atanB = 8453"
definition atanC :: int where "atanC = 19373"
definition ONE_IN_Q15 :: int where "ONE_IN_Q15 = 0x8000"
definition ONE_IN_Q30 :: int where "ONE_IN_Q30 = 0x40000000"
definition HALF_PI_Q13 :: int where "HALF_PI_Q13 = 12868"
definition HALF_PI_Q15 :: int where "HALF_PI_Q15 = 51472"

definition g729Atan_Q15Q13 :: "int \<Rightarrow> int" where
  "g729Atan_Q15Q13 x = (
     let sign = x < 0;
         x = (if x < 0 then s32 (- x) else x);
         complement = x > ONE_IN_Q15;
         x = (if complement then DIV32 ONE_IN_Q30 x else x);
         highSegment = x > KtanPI12;
         x = (if highSegment
              then DIV32 (SHL (SUB32 x KtanPI6) 15) (ADD32 (MULT16_16_Q15 KtanPI6 x) ONE_IN_Q15)
              else x);
         x2 = s16 (MULT16_16_Q15 x x);
         angle = DIV32 (MULT16_16 x (ADD32 ONE_IN_Q15 (MULT16_16_Q15 atanB x2)))
                       (ADD32 ONE_IN_Q15 (MULT16_16_Q15 atanC x2));
         angle = (if highSegment then s32 (angle + KPI6) else angle);
         angle = (if complement then SUB32 HALF_PI_Q15 angle else angle);
         angle = PSHR angle 2
     in if sign then s16 (- angle) else s16 angle)"

definition g729Asin_Q15Q13 :: "int \<Rightarrow> int option" where
  "g729Asin_Q15Q13 x = do {
     rt \<leftarrow> g729Sqrt_Q0Q7 (u32 (SUB32 ONE_IN_Q30 (MULT16_16 x x)));
     Some (g729Atan_Q15Q13 (DIV32 (SHL x 15) (PSHR rt 7))) }"

definition g729Acos_Q15Q13 :: "int \<Rightarrow> int option" where
  "g729Acos_Q15Q13 x = do {
     asin \<leftarrow> g729Asin_Q15Q13 x;
     Some (s16 (HALF_PI_Q13 - asin)) }"

section \<open>The functions are total and in range\<close>

lemma g729Log2_total: "0 < x \<Longrightarrow> x < 2147483648 \<Longrightarrow> \<exists>y. g729Log2_Q0Q16 x = Some y \<and> is_s32 y"
  using countLeadingZeros_spec [of x] by (auto simp: g729Log2_Q0Q16_def Let_def)

lemma g729Sqrt_total: "0 \<le> x \<Longrightarrow> x < 4294967296 \<Longrightarrow> \<exists>y. g729Sqrt_Q0Q7 x = Some y"
  using unsignedCountLeadingZeros_spec [of x] by (auto simp: g729Sqrt_Q0Q7_def Let_def)

lemma g729InvSqrt_total: "0 \<le> x \<Longrightarrow> x < 4294967296 \<Longrightarrow> \<exists>y. g729InvSqrt_Q0Q31 x = Some y \<and> is_s32 y"
  using g729Sqrt_total [of x]
  by (auto simp: g729InvSqrt_Q0Q31_def u32_def MAXINT32_def is_s32_def [of "0x7fffffff"])

lemma g729Asin_total: "\<exists>y. g729Asin_Q15Q13 x = Some y \<and> is_s16 y"
proof -
  have "\<exists>y. g729Sqrt_Q0Q7 (u32 (SUB32 ONE_IN_Q30 (MULT16_16 x x))) = Some y"
    by (rule g729Sqrt_total) (simp_all add: u32_def)
  then show ?thesis by (auto simp: g729Asin_Q15Q13_def g729Atan_Q15Q13_def Let_def)
qed

lemma g729Cos_range [simp, range_simps]: "is_s16 (g729Cos_Q13Q15 x)"
  by (simp add: g729Cos_Q13Q15_def Let_def)

section \<open>Laws of the logarithm and of the exponential\<close>

lemma clz_unique:
  assumes "1073741824 \<le> x * 2 ^ m" "x * 2 ^ m < 2147483648"
    and "1073741824 \<le> x * 2 ^ n" "x * 2 ^ n < (2147483648 :: int)"
  shows "m = n"
proof -
  have *: False if "m < n" "1073741824 \<le> x * 2 ^ m" "x * 2 ^ n < 2147483648" for m n
  proof -
    from that(1) obtain d where n: "n = Suc (m + d)" using less_imp_Suc_add by blast
    have "1 \<le> (2::int) ^ d" by simp
    then have "x * 2 ^ m * 2 \<le> x * 2 ^ m * (2 * 2 ^ d)" using that(2) by (intro mult_left_mono) auto
    also have "\<dots> = x * 2 ^ n" by (simp add: n power_add)
    finally show False using that by simp
  qed
  show ?thesis using * [of m n] * [of n m] assms by (metis linorder_less_linear)
qed

lemma clz_double:
  assumes "0 < x" "x < 1073741824"
  shows "\<exists>m. countLeadingZeros (2 * x) = Some (int m) \<and> countLeadingZeros x = Some (int m + 1)
    \<and> m \<le> 30 \<and> 1073741824 \<le> 2 * x * 2 ^ m \<and> 2 * x * 2 ^ m < 2147483648"
proof -
  obtain m where m: "countLeadingZeros (2 * x) = Some (int m)" "m \<le> 30"
    "1073741824 \<le> 2 * x * 2 ^ m" "2 * x * 2 ^ m < 2147483648"
    using countLeadingZeros_spec [of "2 * x"] assms by auto
  obtain n where n: "countLeadingZeros x = Some (int n)"
    "1073741824 \<le> x * 2 ^ n" "x * 2 ^ n < 2147483648"
    using countLeadingZeros_spec [of x] assms by auto
  have "n = Suc m" by (rule clz_unique [of x]) (use m n in \<open>simp_all add: mult.commute mult.left_commute\<close>)
  then show ?thesis using m n by (intro exI [of _ m]) simp
qed

lemma MULT16_32_Q15_shrinks:
  assumes "0 \<le> a" "a \<le> 32767" "\<bar>b\<bar> \<le> 1000000"
  shows "min b 0 \<le> MULT16_32_Q 15 a b \<and> MULT16_32_Q 15 a b \<le> max b 0"
proof -
  have div: "\<bar>b div 32768\<bar> \<le> 32768" using assms(3) by linarith
  have a: "\<bar>a\<bar> \<le> 32767" using assms by simp
  have rem: "\<bar>b mod 32768\<bar> \<le> 32768"
    using pos_mod_bound [of 32768 b] pos_mod_sign [of 32768 b] by linarith
  have parts: "is_s32 (a * (b div 2 ^ 15))" "is_s32 (a * (b mod 2 ^ 15))"
    using mult_bounds [OF a div] mult_bounds [OF a rem] by (simp_all add: is_s32_def)
  have bd: "min b 0 \<le> a * b div 32768 \<and> a * b div 32768 \<le> max b 0"
  proof (cases "0 \<le> b")
    case True
    then have "0 \<le> a * b" "a * b \<le> b * 32768" using assms mult_right_mono [of a 32768 b] by auto
    then show ?thesis using True by linarith
  next
    case False
    then have "a * b \<le> 0" "b * 32768 \<le> a * b"
      using assms mult_right_mono_neg [of a 32768 b] by (auto simp: mult_le_0_iff)
    then show ?thesis using False by linarith
  qed
  have "is_s32 (a * b div 2 ^ 15)"
    using bd assms(3) unfolding is_s32_def by (simp, linarith)
  then have "MULT16_32_Q 15 a b = a * b div 2 ^ 15"
    using parts by (intro MULT16_32_Q_exact abs_is_s32 [of a] abs_is_s32 [of b])
      (use assms in simp_all)
  with bd show ?thesis by simp
qed

text \<open>The fractional part: the polynomial in the mantissa stays small, no sum overflows.\<close>

lemma log2_polynomial_bound:
  assumes "0 \<le> acc" "acc \<le> 32767"
  shows "\<bar>ADD32 KL0 (MULT16_32_Q15 acc (ADD32 KL1 (MULT16_32_Q15 acc
    (ADD32 KL2 (MULT16_32_Q15 acc KL3)))))\<bar> \<le> 243191"
proof -
  let ?m1 = "MULT16_32_Q15 acc KL3"
  have m1: "0 \<le> ?m1" "?m1 \<le> 74705"
    using MULT16_32_Q15_shrinks [OF assms, of KL3] by (simp_all add: KL3_def)
  then have a1: "ADD32 KL2 ?m1 = ?m1 - 252129"
    by (simp add: ADD32_def KL2_def s32_idI)
  let ?m2 = "MULT16_32_Q15 acc (ADD32 KL2 ?m1)"
  have m2: "-252129 \<le> ?m2" "?m2 \<le> 0"
    using MULT16_32_Q15_shrinks [OF assms, of "ADD32 KL2 ?m1"] m1 unfolding a1 by simp_all
  then have a2: "ADD32 KL1 ?m2 = ?m2 + 378194"
    by (simp add: ADD32_def KL1_def s32_idI)
  let ?m3 = "MULT16_32_Q15 acc (ADD32 KL1 ?m2)"
  have m3: "0 \<le> ?m3" "?m3 \<le> 378194"
    using MULT16_32_Q15_shrinks [OF assms, of "ADD32 KL1 ?m2"] m2 unfolding a2 by simp_all
  then have "ADD32 KL0 ?m3 = ?m3 - 135003" by (simp add: ADD32_def KL0_def s32_idI)
  with m3 show ?thesis by simp
qed

lemma VSHR32_double:
  assumes "m \<le> 30" "2 * x * 2 ^ m < 2147483648" "0 < x"
  shows "VSHR32 (2 * x) (16 - int m) = VSHR32 x (16 - (int m + 1))"
proof -
  consider "m < 15" | "m = 15" | "16 \<le> m" by linarith
  then show ?thesis
  proof cases
    case 1
    have "nat (16 - int m) = Suc (15 - m)" "nat (16 - (int m + 1)) = 15 - m" using 1 by simp_all
    then show ?thesis using 1 by (simp add: VSHR32_def shr_def)
  next
    case 2
    then have "x < 2147483648" using assms by simp
    then show ?thesis using 2 assms(3) by (simp add: VSHR32_def shr_def s32_idI)
  next
    case 3
    then have "nat (- (16 - (int m + 1))) = Suc (nat (- (16 - int m)))" by simp
    then show ?thesis using 3 by (simp add: VSHR32_def mult.assoc mult.left_commute)
  qed
qed

lemma log2_mantissa:
  assumes "m \<le> 30" "1073741824 \<le> x * 2 ^ m" "x * 2 ^ m < 2147483648" "0 < x"
  shows "16384 \<le> VSHR32 x (16 - int m)" "VSHR32 x (16 - int m) \<le> 32767"
proof -
  have "16384 \<le> VSHR32 x (16 - int m) \<and> VSHR32 x (16 - int m) \<le> 32767"
  proof (cases "m < 16")
    case True
    then have e: "(65536::int) = 2 ^ m * 2 ^ (16 - m)"
      by (simp add: power_add [symmetric])
    have c: "c * 2 ^ (16 - m) * 2 ^ m = c * 65536" for c :: int unfolding e by simp
    have "16384 * 2 ^ (16 - m) * 2 ^ m \<le> x * 2 ^ m"
      "x * 2 ^ m < (32767 + 1) * 2 ^ (16 - m) * 2 ^ m"
      using assms unfolding c by simp_all
    then have "16384 * 2 ^ (16 - m) \<le> x" "x < (32767 + 1) * 2 ^ (16 - m)"
      by (simp_all only: mult_le_cancel_right mult_less_cancel_right zero_less_power zero_less_numeral) auto
    then have "16384 \<le> shr x (16 - m) \<and> shr x (16 - m) \<le> 32767" by (rule shr_bounds)
    then show ?thesis using True by (simp add: VSHR32_def nat_diff_distrib)
  next
    case False
    define k where "k = m - 16"
    have k: "m = k + 16" using False by (simp add: k_def)
    have "x * 2 ^ m = x * 2 ^ k * 65536" by (simp add: k power_add)
    then have "16384 \<le> x * 2 ^ k" "x * 2 ^ k \<le> 32767" using assms by simp_all
    then show ?thesis by (simp add: VSHR32_def k s32_idI)
  qed
  then show "16384 \<le> VSHR32 x (16 - int m)" "VSHR32 x (16 - int m) \<le> 32767" by auto
qed

text \<open>Doubling the argument adds exactly 1 (65536 in the 16 bit fraction format) to
  \<open>g729Log2_Q0Q16\<close>: the integer part grows by one and the mantissa that the polynomial sees is
  the same, and neither the scaling nor the sum overflows.\<close>

theorem g729Log2_double:
  assumes "0 < x" "x < 1073741824"
  shows "\<exists>y. g729Log2_Q0Q16 x = Some y \<and> g729Log2_Q0Q16 (2 * x) = Some (y + 65536)"
proof -
  obtain m where m: "countLeadingZeros (2 * x) = Some (int m)"
    "countLeadingZeros x = Some (int m + 1)" "m \<le> 30"
    "1073741824 \<le> 2 * x * 2 ^ m" "2 * x * 2 ^ m < 2147483648"
    using clz_double [OF assms] by blast
  let ?acc = "VSHR32 (2 * x) (16 - int m)"
  have acc: "16384 \<le> ?acc" "?acc \<le> 32767"
    using log2_mantissa [OF m(3) m(4) m(5)] assms by auto
  define f where "f = ADD32 KL0 (MULT16_32_Q15 ?acc (ADD32 KL1 (MULT16_32_Q15 ?acc
                   (ADD32 KL2 (MULT16_32_Q15 ?acc KL3)))))"
  have f: "\<bar>f\<bar> \<le> 243191" unfolding f_def using log2_polynomial_bound acc by auto
  have m30: "m < 30"
  proof (rule ccontr)
    assume "\<not> m < 30"
    then have "m = 30" using m(3) by simp
    then show False using m(5) assms by simp
  qed
  have r: "SHL (SUB16 30 (int m + 1)) 16 = (29 - int m) * 65536"
    "SHL (SUB16 30 (int m)) 16 = (30 - int m) * 65536"
    using m30 by (simp_all add: SHL_def SUB16_def s16_idI s32_idI)
  have a: "s16 ?acc = ?acc" using acc by (simp add: s16_idI)
  have s: "ADD32 ((30 - int m) * 65536) f = (30 - int m) * 65536 + f"
    "ADD32 ((29 - int m) * 65536) f = (29 - int m) * 65536 + f"
    using f m30 by (simp_all add: ADD32_def s32_idI)
  have "g729Log2_Q0Q16 (2 * x) = Some ((30 - int m) * 65536 + f)"
    by (simp only: g729Log2_Q0Q16_def m(1) Let_def Option.bind.simps r a f_def [symmetric] s)
  moreover have "g729Log2_Q0Q16 x = Some ((29 - int m) * 65536 + f)"
    by (simp only: g729Log2_Q0Q16_def m(2) Let_def Option.bind.simps r a f_def [symmetric] s
        VSHR32_double [OF m(3) m(5) assms(1), symmetric])
  moreover have "(30 - int m) * 65536 + f = ((29 - int m) * 65536 + f) + 65536" by simp
  ultimately show ?thesis by metis
qed

theorem g729Log2_double_witness:
  "\<exists>y. g729Log2_Q0Q16 40 = Some y \<and> g729Log2_Q0Q16 80 = Some (y + 65536)"
  using g729Log2_double [of 40] by simp

text \<open>\<open>g729Exp2_Q11Q16\<close> is exact at every integer exponent it can represent: for n from
  -15 to 14 the result at n (in the 11 bit fraction format) is 2 to the power 16 + n.\<close>

theorem g729Exp2_exact:
  assumes "-15 \<le> n" "n \<le> 14"
  shows "g729Exp2_Q11Q16 (2048 * n) = 2 ^ nat (16 + n)"
proof -
  have i: "SHR (2048 * n) 11 = n" by (simp add: SHR_def shr_def)
  have z: "s16 (SHL (2048 * n - SHL n 11) 3) = 0"
    using assms by (simp add: SHL_def s32_idI s16_def)
  have f: "ADD16 E0 (MULT16_16_Q14 0 y) = 16384" for y
    by (simp add: ADD16_def E0_def MULT16_16_Q_def MULT16_16_def SHR_def shr_def s16_idI s32_idI)
  have v: "VSHR32 16384 (- n - 2) = 2 ^ nat (16 + n)"
  proof (cases "- n - 2 > 0")
    case True
    have "nat (16 + n) + nat (- n - 2) = 14" using assms True by linarith
    then have "(2::int) ^ nat (16 + n) * 2 ^ nat (- n - 2) = 2 ^ 14"
      by (simp only: power_add [symmetric])
    then have "16384 = (2::int) ^ nat (16 + n) * 2 ^ nat (- n - 2)" by simp
    then have "16384 div 2 ^ nat (- n - 2) = (2::int) ^ nat (16 + n)"
      by (simp only: nonzero_mult_div_cancel_right power_not_zero zero_neq_numeral
          not_False_eq_True numeral_neq_zero simp_thms)
    then show ?thesis using True by (simp only: VSHR32_def shr_def if_True)
  next
    case False
    have k: "14 + nat (n + 2) = nat (16 + n)" "- (- n - 2) = n + 2" using False by linarith+
    have "(2::int) ^ 14 * 2 ^ nat (n + 2) = 2 ^ nat (16 + n)"
      by (simp only: power_add [symmetric] k)
    then have e: "(16384::int) * 2 ^ nat (n + 2) = 2 ^ nat (16 + n)" by simp
    have "(2::int) ^ nat (16 + n) \<le> 2 ^ 30" using assms by (intro power_increasing) auto
    then have "s32 (2 ^ nat (16 + n)) = 2 ^ nat (16 + n)"
      by (intro s32_idI) (auto intro: order_trans [of _ 0])
    then show ?thesis using False e by (simp only: VSHR32_def k if_False)
  qed
  show ?thesis using assms by (simp add: g729Exp2_Q11Q16_def Let_def i z f v del: diff_conv_add_uminus)
qed

theorem g729Exp2_exact_witness: "g729Exp2_Q11Q16 (2048 * 5) = 2 ^ 21"
  using g729Exp2_exact [of 5] by simp

end
