(* ===== verification/G729_Context.thy ===== *)
theory G729_Context
  imports G729_Math G729_Tables
begin

text \<open>
  The state of a decoder channel (\<open>typedef.h\<close>, bcg729) and the sizes and limits of
  \<open>codecParameters.h\<close>. The pointers \<open>longTermFilteredResidualSignal\<close> and
  \<open>shortTermFilteredResidualSignal\<close>, set once by \<open>initPostFilter\<close> to a fixed place of their
  buffers, are offsets (\<open>LT_OFFSET\<close>, \<open>ST_OFFSET\<close>); the comfort noise context, a separate heap
  block with the same life time, is a field.
\<close>

section \<open>Parameters of the codec\<close>

definition MA_MAX_K :: nat where "MA_MAX_K = 4"
definition MAXIMUM_INT_PITCH_DELAY :: nat where "MAXIMUM_INT_PITCH_DELAY = 143"
definition L_PAST_EXCITATION :: nat where "L_PAST_EXCITATION = 154"
definition GAP1 :: int where "GAP1 = 10"
definition GAP2 :: int where "GAP2 = 5"
definition qLSF_MIN :: int where "qLSF_MIN = 40"
definition qLSF_MAX :: int where "qLSF_MAX = 25681"
definition MIN_qLSF_DISTANCE :: int where "MIN_qLSF_DISTANCE = 321"
definition BOUNDED_PITCH_GAIN_MIN :: int where "BOUNDED_PITCH_GAIN_MIN = 3277"
definition BOUNDED_PITCH_GAIN_MAX :: int where "BOUNDED_PITCH_GAIN_MAX = 13107"
definition NB_PARAMETERS :: nat where "NB_PARAMETERS = 15"
definition L_LP_ANALYSIS_WINDOW :: nat where "L_LP_ANALYSIS_WINDOW = 240"
definition ONE_IN_Q31 :: int where "ONE_IN_Q31 = 0x7FFFFFFF"
definition ONE_IN_Q27 :: int where "ONE_IN_Q27 = 0x08000000"
definition ONE_IN_Q13 :: int where "ONE_IN_Q13 = 0x00002000"
definition ONE_IN_Q12 :: int where "ONE_IN_Q12 = 0x00001000"
definition ONE_IN_Q11 :: int where "ONE_IN_Q11 = 0x00000800"
definition OO4PIPLUS1_IN_Q13 :: int where "OO4PIPLUS1_IN_Q13 = 9221"
definition O92PIMINUS1_IN_Q13 :: int where "O92PIMINUS1_IN_Q13 = 15485"
definition ONE_POINT_2_IN_Q14 :: int where "ONE_POINT_2_IN_Q14 = 19661"
definition O7_IN_Q12 :: int where "O7_IN_Q12 = 2867"
definition O2_IN_Q14 :: int where "O2_IN_Q14 = 3277"
definition O2_IN_Q15 :: int where "O2_IN_Q15 = 6554"
definition CNG_DTX_RANDOM_SEED_INIT :: int where "CNG_DTX_RANDOM_SEED_INIT = 11111"
definition LOG2_240_Q16 :: int where "LOG2_240_Q16 = 518186"
definition INV_LOG2_10_Q15 :: int where "INV_LOG2_10_Q15 = 9864"
definition LT_OFFSET :: nat where "LT_OFFSET = 1"
definition ST_OFFSET :: nat where "ST_OFFSET = 10"

lemmas sizes = size_defs MA_MAX_K_def MAXIMUM_INT_PITCH_DELAY_def L_PAST_EXCITATION_def
  LT_OFFSET_def ST_OFFSET_def NB_PARAMETERS_def L_LP_ANALYSIS_WINDOW_def

section \<open>Channel state\<close>

record CNGContext =
  receivedSIDGain :: int
  smoothedSIDGain :: int
  cng_qLSP :: "int list"
  lastFrameEnergy :: int

record decoderContext =
  previousqLSP :: "int list"
  excitationVector :: "int list"
  boundedAdaptativeCodebookGain :: int
  adaptativeCodebookGain :: int
  fixedCodebookGain :: int
  reconstructedSpeech :: "int list"
  pseudoRandomSeed :: int
  CNGpseudoRandomSeed :: int
  lastqLSF :: "int list"
  previousLCodeWord :: "int list list"
  lastValidL0 :: int
  previousIntPitchDelay :: int
  previousGainPredictionError :: "int list"
  residualSignalBuffer :: "int list"
  scaledResidualSignalBuffer :: "int list"
  longTermFilteredResidualSignalBuffer :: "int list"
  shortTermFilteredResidualSignalBuffer :: "int list"
  previousAdaptativeGain :: int
  inputX0 :: int
  inputX1 :: int
  outputY2 :: int
  outputY1 :: int
  CNGChannelContext :: CNGContext
  previousFrameIsActiveFlag :: int

end
