(* ===== verification/G729_Filters.thy ===== *)
theory G729_Filters
  imports G729_Context
begin

text \<open>
  The linear filters of bcg729: the LP synthesis filters (\<open>LPSynthesisFilter.c\<close>, \<open>utils.c\<close>)
  and the second order high pass filters (\<open>postProcessing.c\<close>, \<open>preProcessing.c\<close>). A C pointer
  into a buffer is the buffer with an index (\<open>base\<close>). The high pass filters are two instances
  of the interface \<open>second_order_filter\<close>, which states once why no 32 bit sum overflows.
\<close>

section \<open>Synthesis filters\<close>

definition LPSynthesisFilter :: "int list \<Rightarrow> int \<Rightarrow> int list \<Rightarrow> int \<Rightarrow> int list \<Rightarrow> int \<Rightarrow> int list option" where
  "LPSynthesisFilter exc excBase LP LPBase speech base = for_up 0 L_SUBFRAME (\<lambda>i speech. do {
     x \<leftarrow> get exc (excBase + i);
     acc \<leftarrow> for_up 0 NB_LSP_COEFF (\<lambda>j acc. do {
        c \<leftarrow> get LP (LPBase + j);
        y \<leftarrow> get speech (base + (i - j - 1));
        Some (MSU16_16 acc c y) }) (SHL x 12);
     put speech (base + i) (s16 (SATURATE (PSHR acc 12) MAXINT16)) }) speech"

definition synthesisFilter :: "int list \<Rightarrow> int list \<Rightarrow> int list \<Rightarrow> int \<Rightarrow> int list option" where
  "synthesisFilter inputSignal filterCoefficients filteredSignal base =
   for_up 0 L_SUBFRAME (\<lambda>i filteredSignal. do {
     x \<leftarrow> get inputSignal i;
     acc \<leftarrow> for_up 0 NB_LSP_COEFF (\<lambda>j acc. do {
        c \<leftarrow> get filterCoefficients j;
        y \<leftarrow> get filteredSignal (base + (i - j - 1));
        Some (MSU16_16 acc c y) }) (SHL x 12);
     put filteredSignal (base + i) (s16 (SATURATE (PSHR acc 12) MAXINT16)) }) filteredSignal"

lemma synthesis_inner:
  assumes "\<And>j. 0 \<le> j \<Longrightarrow> j < 10 \<Longrightarrow> \<exists>v. get c (j + cb) = Some v" "\<And>j. 0 \<le> j \<Longrightarrow> j < 10 \<Longrightarrow> \<exists>v. get y (f j) = Some v"
  shows "\<exists>acc. for_up 0 10 (\<lambda>j acc. do { a \<leftarrow> get c (cb + j); b \<leftarrow> get y (f j); Some (MSU16_16 acc a b) }) x
    = Some acc"
proof -
  have "\<exists>acc. for_up 0 10 (\<lambda>j acc. do { a \<leftarrow> get c (cb + j); b \<leftarrow> get y (f j); Some (MSU16_16 acc a b) }) x
    = Some acc \<and> True"
    by (rule for_up_inv) (use assms in \<open>fastforce simp: add.commute\<close>)+
  then show ?thesis by simp
qed

lemma LPSynthesisFilter_ok:
  assumes "s16_arr m exc" "0 \<le> eb" "eb + 40 \<le> int m" "s16_arr p LP" "0 \<le> lb" "lb + 10 \<le> int p"
    "s16_arr n speech" "10 \<le> base" "base + 40 \<le> int n"
  shows "\<exists>r. LPSynthesisFilter exc eb LP lb speech base = Some r \<and> s16_arr n r"
  unfolding LPSynthesisFilter_def L_SUBFRAME_def NB_LSP_COEFF_def
proof (rule for_up_inv [where P = "s16_arr n"])
  fix i s assume i: "int 0 \<le> i" "i < int 40" and s: "s16_arr n s"
  have x: "get exc (eb + i) = Some (exc ! nat (eb + i))" using assms(1-3) i by simp
  have "\<exists>acc. for_up 0 10 (\<lambda>j acc. do {
        c \<leftarrow> get LP (lb + j); y \<leftarrow> get s (base + (i - j - 1)); Some (MSU16_16 acc c y) })
      (SHL (exc ! nat (eb + i)) 12) = Some acc"
    by (rule synthesis_inner) (use assms s i in auto)
  then obtain acc where acc: "for_up 0 10 (\<lambda>j acc. do {
        c \<leftarrow> get LP (lb + j); y \<leftarrow> get s (base + (i - j - 1)); Some (MSU16_16 acc c y) })
      (SHL (exc ! nat (eb + i)) 12) = Some acc" by blast
  show "\<exists>t. (do {
     x \<leftarrow> get exc (eb + i);
     acc \<leftarrow> for_up 0 10 (\<lambda>j acc. do {
        c \<leftarrow> get LP (lb + j); y \<leftarrow> get s (base + (i - j - 1)); Some (MSU16_16 acc c y) }) (SHL x 12);
     put s (base + i) (s16 (SATURATE (PSHR acc 12) MAXINT16)) }) = Some t \<and> s16_arr n t"
    unfolding x Option.bind.simps acc using s i assms by (auto intro!: arr_update)
qed (rule assms(7))

text \<open>The two functions have the same body.\<close>

lemma synthesisFilter_eq: "synthesisFilter x c y base = LPSynthesisFilter x 0 c 0 y base"
  by (simp add: synthesisFilter_def LPSynthesisFilter_def)

section \<open>High pass filters\<close>

text \<open>The state of a filter: the last two inputs and the last two outputs before scaling.\<close>

definition post_A1 :: int where "post_A1 = 15836"
definition post_A2 :: int where "post_A2 = -7667"
definition post_B0 :: int where "post_B0 = 7699"
definition post_B1 :: int where "post_B1 = -15398"
definition post_B2 :: int where "post_B2 = 7699"

definition initPostProcessing :: "decoderContext \<Rightarrow> decoderContext" where
  "initPostProcessing ctx = ctx\<lparr>outputY2 := 0, outputY1 := 0, inputX0 := 0, inputX1 := 0\<rparr>"

text \<open>One sample: the inputs \<open>x0, x1\<close> and the outputs \<open>y2, y1\<close> of the context move on.\<close>

definition postProcessing_step :: "int \<times> int \<times> int \<times> int \<Rightarrow> int \<Rightarrow> (int \<times> int \<times> int \<times> int) \<times> int" where
  "postProcessing_step st sample = (case st of (x0, x1, y2, y1) \<Rightarrow>
     let inputX2 = x1;
         x1 = x0;
         x0 = sample;
         acc = MULT16_32_Q13 post_A1 y1;
         acc = MAC16_32_Q13 acc post_A2 y2;
         acc = MAC16_16 acc x0 post_B0;
         acc = MAC16_16 acc x1 post_B1;
         acc = SATURATE (MAC16_16 acc inputX2 post_B2) MAXINT29;
         out = s16 (SATURATE (PSHR acc 12) MAXINT16)
     in ((x0, x1, y1, acc), out))"

definition postProcessing :: "decoderContext \<Rightarrow> int list \<Rightarrow> (decoderContext \<times> int list) option" where
  "postProcessing ctx signal = do {
     ((x0, x1, y2, y1), signal) \<leftarrow> for_up 0 L_SUBFRAME (\<lambda>i (st, signal). do {
        s \<leftarrow> get signal i;
        let (st, out) = postProcessing_step st s;
        signal \<leftarrow> put signal i out;
        Some (st, signal) }) ((inputX0 ctx, inputX1 ctx, outputY2 ctx, outputY1 ctx), signal);
     Some (ctx\<lparr>inputX0 := x0, inputX1 := x1, outputY2 := y2, outputY1 := y1\<rparr>, signal) }"

text \<open>\<open>preProcessing\<close> of the encoder, on the four filter fields of its context.\<close>

definition pre_A1 :: int where "pre_A1 = 7807"
definition pre_A2 :: int where "pre_A2 = -3733"
definition pre_B0 :: int where "pre_B0 = 1899"
definition pre_B1 :: int where "pre_B1 = -3798"
definition pre_B2 :: int where "pre_B2 = 1899"

definition initPreProcessing :: "int \<times> int \<times> int \<times> int" where
  "initPreProcessing = (0, 0, 0, 0)"

definition preProcessing_step :: "int \<times> int \<times> int \<times> int \<Rightarrow> int \<Rightarrow> (int \<times> int \<times> int \<times> int) \<times> int" where
  "preProcessing_step st sample = (case st of (x0, x1, y2, y1) \<Rightarrow>
     let inputX2 = x1;
         x1 = x0;
         x0 = sample;
         acc = MULT16_32_Q12 pre_A1 y1;
         acc = MAC16_32_Q12 acc pre_A2 y2;
         acc = MAC16_16 acc x0 pre_B0;
         acc = MAC16_16 acc x1 pre_B1;
         acc = MAC16_16 acc inputX2 pre_B2;
         acc = SATURATE acc MAXINT28;
         out = s16 (PSHR acc 12)
     in ((x0, x1, y1, acc), out))"

definition preProcessing ::
    "int \<times> int \<times> int \<times> int \<Rightarrow> int list \<Rightarrow> int list \<Rightarrow> ((int \<times> int \<times> int \<times> int) \<times> int list) option" where
  "preProcessing st signal preProcessedSignal = for_up 0 L_FRAME (\<lambda>i (st, out). do {
     s \<leftarrow> get signal i;
     let (st, v) = preProcessing_step st s;
     out \<leftarrow> put out i v;
     Some (st, out) }) (st, preProcessedSignal)"

section \<open>The filter interface\<close>

text \<open>
  A second order section in fixed point: inputs of 16 bits, coefficients with n fractional
  bits, outputs kept within Y. The assumption bounds the gain: the largest possible sum fits
  32 bits.
\<close>

locale second_order_filter =
  fixes n :: nat and A1 A2 B0 B1 B2 Y :: int
  assumes coefficients: "is_s16 A1" "is_s16 A2" "is_s16 B0" "is_s16 B1" "is_s16 B2"
    and bits: "n \<le> 15" "0 \<le> Y" "Y \<le> 268435456"
    and parts: "32768 * (Y div 2 ^ n + 1) \<le> 2147483647"
    and gain: "(\<bar>A1\<bar> + \<bar>A2\<bar>) * (Y div 2 ^ n + 1) + (\<bar>B0\<bar> + \<bar>B1\<bar> + \<bar>B2\<bar>) * 32768 \<le> 2147483647"
begin

lemma feedback_exact:
  assumes a: "is_s16 a" and y: "\<bar>y\<bar> \<le> Y"
  shows "MULT16_32_Q n a y = a * y div 2 ^ n \<and> \<bar>a * y div 2 ^ n\<bar> \<le> \<bar>a\<bar> * (Y div 2 ^ n + 1)"
proof -
  let ?k = "(2::int) ^ n"
  have k: "0 < ?k" "?k \<le> 32768"
    using power_increasing [of n 15 "2::int"] bits(1) by auto
  have q: "\<bar>y div ?k\<bar> \<le> Y div ?k + 1"
  proof -
    have "y div ?k \<le> Y div ?k" using y k by (intro zdiv_mono1) auto
    moreover have "- Y div ?k \<le> y div ?k" using y k by (intro zdiv_mono1) auto
    moreover have "- (Y div ?k) - 1 \<le> - Y div ?k" using k by (simp add: zdiv_zminus1_eq_if)
    ultimately show ?thesis by linarith
  qed
  have r: "0 \<le> y mod ?k" "y mod ?k < ?k" using k by simp_all
  have aq: "\<bar>a * (y div ?k)\<bar> \<le> \<bar>a\<bar> * (Y div ?k + 1)" using q by (simp add: abs_mult mult_left_mono)
  have a32: "\<bar>a\<bar> \<le> 32768" using a by (rule is_s16_abs)
  have "0 \<le> Y div ?k" using bits(2) k by (simp add: pos_imp_zdiv_nonneg_iff)
  then have A: "\<bar>a\<bar> * (Y div ?k + 1) \<le> 2147483647"
    using mult_right_mono [OF a32, of "Y div ?k + 1"] parts by linarith
  have "\<bar>y mod ?k\<bar> \<le> 32768" using r k(2) by linarith
  then have ar: "\<bar>a * (y mod ?k)\<bar> \<le> 32768 * 32768" using a32 by (intro mult_abs_le)
  have full: "\<bar>a * y div ?k\<bar> \<le> \<bar>a\<bar> * (Y div ?k + 1)"
  proof -
    have "\<bar>a * y\<bar> \<le> \<bar>a\<bar> * Y" using y by (simp add: abs_mult mult_left_mono)
    moreover have "Y \<le> (Y div ?k + 1) * ?k"
      using div_mult_mod_eq [of Y ?k] pos_mod_bound [OF k(1), of Y]
      by (simp only: distrib_right mult_1)
    then have "\<bar>a\<bar> * Y \<le> \<bar>a\<bar> * ((Y div ?k + 1) * ?k)" by (rule mult_left_mono) simp
    ultimately have "- (\<bar>a\<bar> * (Y div ?k + 1) * ?k) \<le> a * y" "a * y \<le> \<bar>a\<bar> * (Y div ?k + 1) * ?k"
      by (simp_all add: mult.assoc abs_le_iff)
    then show ?thesis by (rule div_abs_bound [OF k(1)])
  qed
  have "is_s32 a" "is_s32 y" using a y bits(3) by (auto intro: is_s16_is_s32 abs_is_s32)
  moreover have "is_s32 (a * (y div ?k))" "is_s32 (a * (y mod ?k))" "is_s32 (a * y div ?k)"
    using aq A ar full by (auto intro!: abs_is_s32)
  ultimately have "MULT16_32_Q n a y = a * y div 2 ^ n"
    using bits(1) by (intro MULT16_32_Q_exact) auto
  then show ?thesis using full by simp
qed

text \<open>All five sums are exact.\<close>

lemma sum_exact:
  assumes "\<bar>y1\<bar> \<le> Y" "\<bar>y2\<bar> \<le> Y" "is_s16 x0" "is_s16 x1" "is_s16 x2"
  shows "MAC16_16 (MAC16_16 (MAC16_16 (ADD32 (MULT16_32_Q n A1 y1) (MULT16_32_Q n A2 y2)) x0 B0) x1 B1) x2 B2
    = A1 * y1 div 2 ^ n + A2 * y2 div 2 ^ n + x0 * B0 + x1 * B1 + x2 * B2"
proof -
  let ?q = "Y div 2 ^ n + 1"
  note f1 = feedback_exact [OF coefficients(1) assms(1)] and f2 = feedback_exact [OF coefficients(2) assms(2)]
  have b: "\<bar>x * B\<bar> \<le> \<bar>B\<bar> * 32768" if "is_s16 x" for x B
    using mult_abs_le [OF is_s16_abs [OF that], of B "\<bar>B\<bar>"] by (simp add: mult.commute)
  have g: "\<bar>A1\<bar> * ?q + \<bar>A2\<bar> * ?q + \<bar>B0\<bar> * 32768 + \<bar>B1\<bar> * 32768 + \<bar>B2\<bar> * 32768 \<le> 2147483647"
    using gain by (simp add: distrib_right)
  have q: "0 \<le> \<bar>A1\<bar> * ?q" "0 \<le> \<bar>A2\<bar> * ?q"
    using bits(2) by (simp_all add: pos_imp_zdiv_nonneg_iff)
  note s1 = abs_add_le [OF conjunct2 [OF f1] conjunct2 [OF f2]]
  note s2 = abs_add_le [OF s1 b [OF assms(3), of B0]]
  note s3 = abs_add_le [OF s2 b [OF assms(4), of B1]]
  note s4 = abs_add_le [OF s3 b [OF assms(5), of B2]]
  have le: "\<bar>B\<bar> * 32768 \<ge> 0" for B :: int by simp
  have r: "is_s32 (A1 * y1 div 2 ^ n)" "is_s32 (A2 * y2 div 2 ^ n)"
    "is_s32 (A1 * y1 div 2 ^ n + A2 * y2 div 2 ^ n)"
    "is_s32 (A1 * y1 div 2 ^ n + A2 * y2 div 2 ^ n + x0 * B0)"
    "is_s32 (A1 * y1 div 2 ^ n + A2 * y2 div 2 ^ n + x0 * B0 + x1 * B1)"
    "is_s32 (A1 * y1 div 2 ^ n + A2 * y2 div 2 ^ n + x0 * B0 + x1 * B1 + x2 * B2)"
    using conjunct2 [OF f1] conjunct2 [OF f2] s1 s2 s3 s4 g q le [of B0] le [of B1] le [of B2]
    by (intro abs_is_s32; linarith)+
  have m: "is_s32 (x0 * B0)" "is_s32 (x1 * B1)" "is_s32 (x2 * B2)"
    using b [OF assms(3), of B0] b [OF assms(4), of B1] b [OF assms(5), of B2] g q
      le [of B0] le [of B1] le [of B2]
    by (intro abs_is_s32; linarith)+
  show ?thesis
    using f1 f2 r m by (simp add: MAC16_16_def MULT16_16_no_overflow assms coefficients ADD32_exact)
qed

end

interpretation post_filter: second_order_filter 13 post_A1 post_A2 post_B0 post_B1 post_B2 268435456
  by unfold_locales (simp_all add: post_A1_def post_A2_def post_B0_def post_B1_def post_B2_def is_s16_def)

interpretation pre_filter: second_order_filter 12 pre_A1 pre_A2 pre_B0 pre_B1 pre_B2 134217728
  by unfold_locales (simp_all add: pre_A1_def pre_A2_def pre_B0_def pre_B1_def pre_B2_def is_s16_def)

section \<open>Filtering a subframe\<close>

text \<open>The filters as functions on the list of samples.\<close>

fun filter_list :: "('s \<Rightarrow> int \<Rightarrow> 's \<times> int) \<Rightarrow> 's \<Rightarrow> int list \<Rightarrow> 's \<times> int list" where
  "filter_list step st [] = (st, [])"
| "filter_list step st (x # xs) =
    (let (st', y) = step st x; (st'', ys) = filter_list step st' xs in (st'', y # ys))"

lemma filter_list_snoc:
  "filter_list step st (xs @ [x]) =
    (let (st', ys) = filter_list step st xs; (st'', y) = step st' x in (st'', ys @ [y]))"
  by (induction xs arbitrary: st) (auto split: prod.splits simp: Let_def)

lemma filter_list_length: "length (snd (filter_list step st xs)) = length xs"
  by (induction xs arbitrary: st) (auto split: prod.splits simp: Let_def, metis snd_conv)

lemma filter_loop:
  assumes len: "length sig = n" "length out = n"
    and step: "\<And>k. k < n \<Longrightarrow> body (int k) (fst (filter_list step st (take k sig)),
        snd (filter_list step st (take k sig)) @ drop k out) =
      Some (let (st', y) = step (fst (filter_list step st (take k sig))) (sig ! k)
            in (st', (snd (filter_list step st (take k sig)) @ drop k out)[k := y]))"
  shows "for_up 0 n body (st, out) = Some (filter_list step st sig)"
proof -
  let ?P = "\<lambda>k s. s = (fst (filter_list step st (take k sig)), snd (filter_list step st (take k sig)) @ drop k out)"
  have "\<exists>s. for_up 0 n body (st, out) = Some s \<and> ?P n s"
  proof (rule for_up_rule)
    show "?P 0 (st, out)" by simp
  next
    fix k s assume k: "k < n" and s: "?P k s"
    let ?f = "filter_list step st (take k sig)"
    have "take (Suc k) sig = take k sig @ [sig ! k]" using k len by (simp add: take_Suc_conv_app_nth)
    moreover have "length (snd ?f) = k" using k len by (simp add: filter_list_length)
    moreover have "drop k out = out ! k # drop (Suc k) out" using k len by (simp add: Cons_nth_drop_Suc)
    ultimately show "\<exists>t. body (int k) s = Some t \<and> ?P (Suc k) t"
      using step [OF k] s by (auto simp: filter_list_snoc Let_def list_update_append split: prod.splits)
  qed simp
  then show ?thesis using len by (auto simp: prod_eq_iff)
qed

definition filter_state :: "int \<Rightarrow> int \<times> int \<times> int \<times> int \<Rightarrow> bool" where
  "filter_state Y st \<longleftrightarrow> (case st of (x0, x1, y2, y1) \<Rightarrow> is_s16 x0 \<and> is_s16 x1 \<and> \<bar>y2\<bar> \<le> Y \<and> \<bar>y1\<bar> \<le> Y)"

lemma postProcessing_loop:
  assumes "length signal = 40"
  shows "postProcessing ctx signal =
    (case filter_list postProcessing_step (inputX0 ctx, inputX1 ctx, outputY2 ctx, outputY1 ctx) signal of
      ((x0, x1, y2, y1), out) \<Rightarrow>
        Some (ctx\<lparr>inputX0 := x0, inputX1 := x1, outputY2 := y2, outputY1 := y1\<rparr>, out))"
proof -
  let ?st = "(inputX0 ctx, inputX1 ctx, outputY2 ctx, outputY1 ctx)"
  have "for_up 0 40 (\<lambda>i (st, signal). do {
        s \<leftarrow> get signal i;
        let (st, out) = postProcessing_step st s;
        signal \<leftarrow> put signal i out;
        Some (st, signal) }) (?st, signal) = Some (filter_list postProcessing_step ?st signal)"
    by (rule filter_loop)
      (use assms in \<open>auto simp: filter_list_length nth_append Let_def min_def split: prod.splits\<close>)
  then show ?thesis
    by (cases "filter_list postProcessing_step ?st signal")
      (simp add: postProcessing_def L_SUBFRAME_def split: prod.splits)
qed

lemma preProcessing_loop:
  assumes "length signal = 80" "length out = 80"
  shows "preProcessing st signal out = Some (filter_list preProcessing_step st signal)"
  unfolding preProcessing_def L_FRAME_def
  by (rule filter_loop)
    (use assms in \<open>auto simp: filter_list_length Let_def min_def split: prod.splits\<close>)

text \<open>The filters with exact integer arithmetic and explicit limits.\<close>

definition exact_acc :: "nat \<Rightarrow> int \<Rightarrow> int \<Rightarrow> int \<Rightarrow> int \<Rightarrow> int \<Rightarrow> int \<Rightarrow> int \<times> int \<times> int \<times> int \<Rightarrow> int \<Rightarrow> int" where
  "exact_acc n A1 A2 B0 B1 B2 Y st s = (case st of (x0, x1, y2, y1) \<Rightarrow>
     clamp (- Y) (Y - 1) (A1 * y1 div 2 ^ n + A2 * y2 div 2 ^ n + s * B0 + x0 * B1 + x1 * B2))"

definition post_exact_step :: "int \<times> int \<times> int \<times> int \<Rightarrow> int \<Rightarrow> (int \<times> int \<times> int \<times> int) \<times> int" where
  "post_exact_step st s = (case st of (x0, x1, y2, y1) \<Rightarrow>
     let acc = exact_acc 13 15836 (-7667) 7699 (-15398) 7699 268435456 st s
     in ((s, x0, y1, acc), clamp (-32768) 32767 ((acc + 2048) div 4096)))"

definition pre_exact_step :: "int \<times> int \<times> int \<times> int \<Rightarrow> int \<Rightarrow> (int \<times> int \<times> int \<times> int) \<times> int" where
  "pre_exact_step st s = (case st of (x0, x1, y2, y1) \<Rightarrow>
     let acc = exact_acc 12 7807 (-3733) 1899 (-3798) 1899 134217728 st s
     in ((s, x0, y1, acc), (acc + 2048) div 4096))"

lemma PSHR_12: "\<bar>a\<bar> \<le> 268435456 \<Longrightarrow> PSHR a 12 = (a + 2048) div 4096"
  by (simp add: PSHR_def SHR_def shr_def s32_idI)

lemma SATURATE_16: "SATURATE x MAXINT16 = clamp (-32768) 32767 x"
  by (simp add: SATURATE_def clamp_def MAXINT16_def)

lemma postProcessing_step_exact:
  assumes "filter_state 268435456 st" "is_s16 s"
  shows "postProcessing_step st s = post_exact_step st s"
    and "filter_state 268435456 (fst (post_exact_step st s))" "is_s16 (snd (post_exact_step st s))"
proof -
  obtain x0 x1 y2 y1 where st: "st = (x0, x1, y2, y1)" by (cases st)
  have b: "is_s16 x0" "is_s16 x1" "\<bar>y2\<bar> \<le> 268435456" "\<bar>y1\<bar> \<le> 268435456"
    using assms(1) by (auto simp: st filter_state_def)
  note e = post_filter.sum_exact [OF b(4) b(3) assms(2) b(1) b(2)]
  define acc where "acc = exact_acc 13 15836 (-7667) 7699 (-15398) 7699 268435456 st s"
  have acc: "SATURATE (MAC16_16 (MAC16_16 (MAC16_16 (MAC16_32_Q13 (MULT16_32_Q13 post_A1 y1) post_A2 y2)
      s post_B0) x0 post_B1) x1 post_B2) MAXINT29 = acc"
    unfolding MAC16_32_Q13_def e
    by (simp add: acc_def exact_acc_def st SATURATE_def clamp_def MAXINT29_def
        post_A1_def post_A2_def post_B0_def post_B1_def post_B2_def)
  have "-268435456 \<le> acc \<and> acc \<le> 268435455"
    unfolding acc_def exact_acc_def st prod.case using clamp_range [of "-268435456" "268435456 - 1"] by simp
  then have a: "\<bar>acc\<bar> \<le> 268435456" by linarith
  have "is_s16 (clamp (-32768) 32767 x)" for x by (simp add: clamp_def is_s16_def)
  then show "postProcessing_step st s = post_exact_step st s"
    by (simp add: postProcessing_step_def post_exact_step_def st Let_def acc PSHR_12 [OF a] SATURATE_16
        acc_def [unfolded st, symmetric])
  show "filter_state 268435456 (fst (post_exact_step st s))" "is_s16 (snd (post_exact_step st s))"
    using b assms(2) a \<open>\<And>x. is_s16 (clamp (-32768) 32767 x)\<close>
    by (simp_all add: post_exact_step_def st Let_def acc_def [unfolded st, symmetric] filter_state_def)
qed

lemma preProcessing_step_exact:
  assumes "filter_state 134217728 st" "is_s16 s"
  shows "fst (preProcessing_step st s) = fst (pre_exact_step st s)"
    and "snd (preProcessing_step st s) = s16 (snd (pre_exact_step st s))"
    and "filter_state 134217728 (fst (pre_exact_step st s))"
proof -
  obtain x0 x1 y2 y1 where st: "st = (x0, x1, y2, y1)" by (cases st)
  have b: "is_s16 x0" "is_s16 x1" "\<bar>y2\<bar> \<le> 134217728" "\<bar>y1\<bar> \<le> 134217728"
    using assms(1) by (auto simp: st filter_state_def)
  note e = pre_filter.sum_exact [OF b(4) b(3) assms(2) b(1) b(2)]
  define acc where "acc = exact_acc 12 7807 (-3733) 1899 (-3798) 1899 134217728 st s"
  have acc: "SATURATE (MAC16_16 (MAC16_16 (MAC16_16 (MAC16_32_Q12 (MULT16_32_Q12 pre_A1 y1) pre_A2 y2)
      s pre_B0) x0 pre_B1) x1 pre_B2) MAXINT28 = acc"
    unfolding MAC16_32_Q12_def e
    by (simp add: acc_def exact_acc_def st SATURATE_def clamp_def MAXINT28_def
        pre_A1_def pre_A2_def pre_B0_def pre_B1_def pre_B2_def)
  have "-134217728 \<le> acc \<and> acc \<le> 134217727"
    unfolding acc_def exact_acc_def st prod.case using clamp_range [of "-134217728" "134217728 - 1"] by simp
  then have a: "\<bar>acc\<bar> \<le> 134217728" "\<bar>acc\<bar> \<le> 268435456" by linarith+
  show "fst (preProcessing_step st s) = fst (pre_exact_step st s)"
    "snd (preProcessing_step st s) = s16 (snd (pre_exact_step st s))"
    by (simp_all add: preProcessing_step_def pre_exact_step_def st Let_def acc PSHR_12 [OF a(2)]
        acc_def [unfolded st, symmetric])
  show "filter_state 134217728 (fst (pre_exact_step st s))"
    using b assms(2) a by (simp add: pre_exact_step_def st Let_def acc_def [unfolded st, symmetric] filter_state_def)
qed

lemma filter_list_cong:
  assumes "Inv st" "list_all is_s16 xs"
    and "\<And>st x. Inv st \<Longrightarrow> is_s16 x \<Longrightarrow> step st x = step' st x \<and> Inv (fst (step' st x))"
  shows "filter_list step st xs = filter_list step' st xs \<and> Inv (fst (filter_list step' st xs))"
  using assms(1,2)
proof (induction xs arbitrary: st)
  case (Cons x xs)
  obtain s1 y where y: "step' st x = (s1, y)" by fastforce
  then have "step st x = (s1, y)" "Inv s1" using assms(3) [of st x] Cons.prems by simp_all
  then show ?case using Cons.IH [of s1] Cons.prems y
    by (cases "filter_list step' s1 xs") (simp add: Let_def)
qed simp

lemma filter_list_out:
  assumes "Inv st" "list_all is_s16 xs"
    and "\<And>st x. Inv st \<Longrightarrow> is_s16 x \<Longrightarrow> Inv (fst (step st x)) \<and> Q (snd (step st x))"
  shows "list_all Q (snd (filter_list step st xs))"
  using assms(1,2)
proof (induction xs arbitrary: st)
  case (Cons x xs)
  obtain s1 y where y: "step st x = (s1, y)" by fastforce
  then have "Inv s1" "Q y" using assms(3) [of st x] Cons.prems by simp_all
  then show ?case using Cons.IH [of s1] Cons.prems y
    by (cases "filter_list step s1 xs") (simp add: Let_def)
qed simp

definition post_state :: "decoderContext \<Rightarrow> int \<times> int \<times> int \<times> int" where
  "post_state ctx = (inputX0 ctx, inputX1 ctx, outputY2 ctx, outputY1 ctx)"

lemma postProcessing_exact:
  assumes "filter_state 268435456 (post_state ctx)" "s16_arr 40 signal"
  shows "\<exists>x0 x1 y2 y1 out. filter_list post_exact_step (post_state ctx) signal = ((x0, x1, y2, y1), out)
    \<and> postProcessing ctx signal
      = Some (ctx\<lparr>inputX0 := x0, inputX1 := x1, outputY2 := y2, outputY1 := y1\<rparr>, out)
    \<and> filter_state 268435456 (x0, x1, y2, y1) \<and> s16_arr 40 out"
proof -
  have s: "list_all is_s16 signal" "length signal = 40" using assms(2) by (simp_all add: arr_def)
  have c: "filter_list postProcessing_step (post_state ctx) signal = filter_list post_exact_step (post_state ctx) signal
    \<and> filter_state 268435456 (fst (filter_list post_exact_step (post_state ctx) signal))"
    by (rule filter_list_cong [where Inv = "filter_state 268435456", OF assms(1) s(1)])
      (use postProcessing_step_exact in auto)
  obtain x0 x1 y2 y1 out where f: "filter_list post_exact_step (post_state ctx) signal = ((x0, x1, y2, y1), out)"
    by (metis prod_cases4 surj_pair)
  have "list_all is_s16 (snd (filter_list post_exact_step (post_state ctx) signal))"
    by (rule filter_list_out [where Inv = "filter_state 268435456", OF assms(1) s(1)])
      (use postProcessing_step_exact in auto)
  moreover have "length (snd (filter_list post_exact_step (post_state ctx) signal)) = 40"
    by (simp add: filter_list_length s)
  moreover have "postProcessing ctx signal
      = Some (ctx\<lparr>inputX0 := x0, inputX1 := x1, outputY2 := y2, outputY1 := y1\<rparr>, out)"
    using postProcessing_loop [OF s(2), of ctx] c f by (simp add: post_state_def)
  ultimately show ?thesis using f c by (simp add: arr_def)
qed

text \<open>(C15) \<open>postProcessing\<close> computes its filter exactly: on 16 bit samples and in every state
  whose stored outputs are within 28 bits, it returns the samples of the same recurrence in
  unbounded integers with explicit limits, no 32 bit sum overflows (the source marks one with
  "Overflow??"), and the stored outputs stay within 28 bits.\<close>

theorem postProcessing_no_overflow:
  assumes "filter_state 268435456 (post_state ctx)" "s16_arr 40 signal"
  shows "\<exists>ctx' out. postProcessing ctx signal = Some (ctx', out)
    \<and> filter_list post_exact_step (post_state ctx) signal = (post_state ctx', out)
    \<and> filter_state 268435456 (post_state ctx') \<and> s16_arr 40 out"
proof -
  obtain x0 x1 y2 y1 out where
    "filter_list post_exact_step (post_state ctx) signal = ((x0, x1, y2, y1), out)"
    "postProcessing ctx signal
      = Some (ctx\<lparr>inputX0 := x0, inputX1 := x1, outputY2 := y2, outputY1 := y1\<rparr>, out)"
    "filter_state 268435456 (x0, x1, y2, y1)" "s16_arr 40 out"
    using postProcessing_exact [OF assms] by blast
  then show ?thesis by (intro exI conjI) (assumption | simp add: post_state_def)+
qed

theorem postProcessing_no_overflow_witness:
  "\<exists>ctx' out. postProcessing (initPostProcessing undefined) (replicate 40 1000) = Some (ctx', out)
    \<and> s16_arr 40 out"
proof -
  have "s16_arr 40 (replicate 40 1000)" by (rule arr_replicate) (simp add: is_s16_def)
  moreover have "filter_state 268435456 (post_state (initPostProcessing undefined))"
    by (simp add: filter_state_def post_state_def initPostProcessing_def)
  ultimately show ?thesis using postProcessing_no_overflow by blast
qed

text \<open>\<open>preProcessing\<close> also computes its recurrence without overflow in 32 bits, up to the
  last step: the accumulator is limited to 28 bits before it is rounded, so the rounded
  sample can reach 32768, and the conversion to 16 bits stores -32768 then.\<close>

theorem preProcessing_exact:
  assumes "filter_state 134217728 st" "s16_arr 80 signal" "length out = 80"
  shows "\<exists>st' ys. preProcessing st signal out = Some (st', map s16 ys)
    \<and> filter_list pre_exact_step st signal = (st', ys) \<and> filter_state 134217728 st'"
proof -
  have s: "list_all is_s16 signal" "length signal = 80" using assms(2) by (simp_all add: arr_def)
  have *: "fst (filter_list preProcessing_step st xs) = fst (filter_list pre_exact_step st xs)
    \<and> snd (filter_list preProcessing_step st xs) = map s16 (snd (filter_list pre_exact_step st xs))
    \<and> filter_state 134217728 (fst (filter_list pre_exact_step st xs))"
    if "filter_state 134217728 st" "list_all is_s16 xs" for xs st
    using that
  proof (induction xs arbitrary: st)
    case (Cons x xs)
    note e = preProcessing_step_exact [OF Cons.prems(1), of x]
    obtain s1 y where y: "pre_exact_step st x = (s1, y)" by fastforce
    have "filter_state 134217728 s1" using e(3) Cons.prems y by simp
    moreover have "fst (preProcessing_step st x) = s1" "snd (preProcessing_step st x) = s16 y"
      using e(1,2) Cons.prems y by simp_all
    then have "preProcessing_step st x = (s1, s16 y)" by (metis prod.collapse)
    ultimately show ?case using Cons.IH [of s1] Cons.prems y
      by (cases "filter_list pre_exact_step s1 xs"; cases "filter_list preProcessing_step s1 xs")
        (simp add: Let_def)
  qed simp
  obtain st' ys where f: "filter_list pre_exact_step st signal = (st', ys)" by fastforce
  have "filter_list preProcessing_step st signal = (st', map s16 ys)"
    using * [OF assms(1) s(1)] f by (metis fst_conv prod.collapse snd_conv)
  then show ?thesis using preProcessing_loop [OF s(2) assms(3)] f * [OF assms(1) s(1)] by simp
qed

theorem preProcessing_exact_witness:
  "\<exists>st' ys. preProcessing initPreProcessing (replicate 80 1000) (replicate 80 0) = Some (st', map s16 ys)"
proof -
  have "s16_arr 80 (replicate 80 1000)" by (rule arr_replicate) (simp add: is_s16_def)
  moreover have "filter_state 134217728 initPreProcessing"
    by (simp add: filter_state_def initPreProcessing_def)
  ultimately show ?thesis
    using preProcessing_exact [of initPreProcessing "replicate 80 1000" "replicate 80 0"] by auto
qed


end
