(* ===== verification/G729_EncLP.thy ===== *)
theory G729_EncLP
  imports G729_Context G729_Filters
begin

text \<open>
  Linear prediction analysis of the encoder (\<open>computeLP.c\<close>) and the weighted speech
  (\<open>computeWeightedSpeech.c\<close>): windowing, autocorrelation normalised on 32 bits, lag window,
  the Levinson-Durbin recursion, the residual and the perceptually weighted signal. The output
  arrays of the C functions are parameters, returned updated.
\<close>


section \<open>Levinson-Durbin recursion\<close>

text \<open>One iteration on the coefficients, the reflection coefficients, the previous coefficients
  and the residual energy.\<close>

definition durbin_sum :: "int list \<Rightarrow> int list \<Rightarrow> int \<Rightarrow> int option" where
  "durbin_sum ac LP i = do {
     sum \<leftarrow> for_up 1 (nat i) (\<lambda>j sum. do {
        a \<leftarrow> get LP j;
        r \<leftarrow> get ac (i - j);
        Some (MAC32_32_Q31 sum a r) }) 0;
     ri \<leftarrow> get ac i;
     Some (ADD32 (SHL sum 4) ri) }"

definition durbin_step :: "int list \<Rightarrow> int \<Rightarrow> int list \<times> int list \<times> int list \<times> int \<Rightarrow>
    (int list \<times> int list \<times> int list \<times> int) option" where
  "durbin_step ac i = (\<lambda>(LP, k, prev, E). do {
     prev \<leftarrow> for_up 1 (nat i) (\<lambda>j prev. do { v \<leftarrow> get LP j; put prev j v }) prev;
     sum \<leftarrow> durbin_sum ac LP i;
     let a = s32 (- DIV32_32_Q31 sum E);
     LP \<leftarrow> put LP i a;
     k \<leftarrow> put k (i - 1) a;
     LP \<leftarrow> for_up 1 (nat i) (\<lambda>j LP. do {
        v \<leftarrow> get LP j;
        p \<leftarrow> get prev (i - j);
        put LP j (MAC32_32_Q31 v a p) }) LP;
     let E = MULT32_32_Q31 E (SUB32 ONE_IN_Q31 (MULT32_32_Q31 a a));
     LP \<leftarrow> put LP i (SHR a 4);
     Some (LP, k, prev, E) })"

definition autoCorrelation2LP :: "int list \<Rightarrow> int list \<Rightarrow> int list \<Rightarrow> (int list \<times> int list \<times> int) option" where
  "autoCorrelation2LP ac LPQ12 k = do {
     LP \<leftarrow> put (replicate (NB_LSP_COEFF + 1) 0) 0 ONE_IN_Q27;
     r1 \<leftarrow> get ac 1;
     r0 \<leftarrow> get ac 0;
     let a1 = s32 (- DIV32_32_Q27 r1 r0);
     LP \<leftarrow> put LP 1 a1;
     k \<leftarrow> put k 0 (SHL a1 4);
     let E = MULT32_32_Q31 r0 (SUB32 ONE_IN_Q31 (MULT32_32_Q23 a1 a1));
     (LP, k, _, E) \<leftarrow> for_up 2 (NB_LSP_COEFF + 1) (durbin_step ac)
        (LP, k, replicate (NB_LSP_COEFF + 1) 0, E);
     LPQ12 \<leftarrow> for_up 0 NB_LSP_COEFF (\<lambda>i q. do {
        v \<leftarrow> get LP (i + 1);
        put q i (s16 (SATURATE (PSHR v 15) MAXINT16)) }) LPQ12;
     Some (LPQ12, k, E) }"

section \<open>Autocorrelation of the windowed signal\<close>

definition window_signal :: "int list \<Rightarrow> int list option" where
  "window_signal signal = for_up 0 L_LP_ANALYSIS_WINDOW (\<lambda>i w. do {
     x \<leftarrow> get signal i;
     c \<leftarrow> get wlp i;
     put w i (s16 (MULT16_16_P15 x c)) }) (replicate L_LP_ANALYSIS_WINDOW 0)"

definition window_energy :: "int list \<Rightarrow> int option" where
  "window_energy w = do {
     acc64 \<leftarrow> for_up 0 L_LP_ANALYSIS_WINDOW (\<lambda>i acc. do { x \<leftarrow> get w i; Some (MAC64 acc x x) }) 0;
     Some (if acc64 = 0 then 1 else acc64) }"

text \<open>\<open>do acc64 = SHR(acc64,1) ... while (acc64>MAXINT32)\<close>, entered with a larger value.\<close>

function normalise32 :: "int \<Rightarrow> int \<Rightarrow> int \<times> int" where
  "normalise32 acc64 shift =
    (if acc64 > MAXINT32 then normalise32 (SHR acc64 1) (shift + 1) else (acc64, shift))"
  by pat_completeness auto
termination
  by (relation "measure (\<lambda>(a, s). nat a)") (auto simp: SHR_def shr_def MAXINT32_def)

text \<open>The first coefficient, normalised, and the shift to the right that normalises it.\<close>

definition normalise_energy :: "int \<Rightarrow> (int \<times> int) option" where
  "normalise_energy acc64 =
    (if acc64 > MAXINT32 then (let (r0, shift) = normalise32 acc64 0 in Some (s32 r0, shift))
     else do {
       z \<leftarrow> countLeadingZeros (s32 acc64);
       Some (SHL (s32 acc64) (nat z), - z) })"

definition autocorrelation :: "int list \<Rightarrow> int \<Rightarrow> int \<Rightarrow> int option" where
  "autocorrelation w shift i =
    (if shift > 0 then do {
       acc64 \<leftarrow> for_up (nat i) L_LP_ANALYSIS_WINDOW (\<lambda>j acc. do {
          x \<leftarrow> get w j;
          y \<leftarrow> get w (j - i);
          Some (ADD64_32 acc (MULT16_16 x y)) }) 0;
       Some (s32 (SHR acc64 (nat shift))) }
     else do {
       acc32 \<leftarrow> for_up (nat i) L_LP_ANALYSIS_WINDOW (\<lambda>j acc. do {
          x \<leftarrow> get w j;
          y \<leftarrow> get w (j - i);
          Some (MAC16_16 acc x y) }) 0;
       Some (SHL acc32 (nat (- shift))) })"

text \<open>Outputs: prediction and reflection coefficients, autocorrelation with and without lag
  window, scale.\<close>

definition computeLP :: "int list \<Rightarrow> int list \<Rightarrow> int list \<Rightarrow> int list \<Rightarrow> int list \<Rightarrow> nat \<Rightarrow>
    (int list \<times> int list \<times> int list \<times> int list \<times> int) option" where
  "computeLP signal LPQ12 k ac noLag number = do {
     w \<leftarrow> window_signal signal;
     energy \<leftarrow> window_energy w;
     (r0, shift) \<leftarrow> normalise_energy energy;
     ac \<leftarrow> put ac 0 r0;
     let scale = s8 (- shift);
     ac \<leftarrow> for_up 1 number (\<lambda>i ac. do { r \<leftarrow> autocorrelation w shift i; put ac i r }) ac;
     noLag \<leftarrow> for_up 0 number (\<lambda>i noLag. do { r \<leftarrow> get ac i; put noLag i r }) noLag;
     let number = (if number > NB_LSP_COEFF + 3 then NB_LSP_COEFF + 3 else number);
     ac \<leftarrow> for_up 1 number (\<lambda>i ac. do {
        l \<leftarrow> get wlag i;
        r \<leftarrow> get ac i;
        put ac i (MULT16_32_P15 l r) }) ac;
     (LPQ12, k, _) \<leftarrow> autoCorrelation2LP ac LPQ12 k;
     Some (LPQ12, k, ac, noLag, scale) }"

section \<open>Weighted speech\<close>

text \<open>The residual of the 40 samples from \<open>off\<close> on, with ten coefficients from \<open>lp\<close> on.\<close>

definition LP_residual :: "int list \<Rightarrow> int \<Rightarrow> int list \<Rightarrow> int \<Rightarrow> nat \<Rightarrow> nat \<Rightarrow> int list \<Rightarrow> int \<Rightarrow> int list option" where
  "LP_residual inputSignal base LP lp a b res resBase = for_up a b (\<lambda>i res. do {
     x \<leftarrow> get inputSignal (base + i);
     acc \<leftarrow> for_up 0 NB_LSP_COEFF (\<lambda>j acc. do {
        c \<leftarrow> get LP (lp + j);
        y \<leftarrow> get inputSignal (base + (i - j - 1));
        Some (MAC16_16 acc c y) }) (SHL x 12);
     put res (resBase + i) (s16 (SATURATE (PSHR acc 12) MAXINT16)) }) res"

definition lowpass_coefficients :: "int list \<Rightarrow> int \<Rightarrow> int list \<Rightarrow> int list option" where
  "lowpass_coefficients weightedqLP lp out = do {
     c0 \<leftarrow> get weightedqLP lp;
     out \<leftarrow> put out 0 (s16 (SUB16 c0 O7_IN_Q12));
     for_up 1 NB_LSP_COEFF (\<lambda>i out. do {
        c \<leftarrow> get weightedqLP (lp + i);
        p \<leftarrow> get weightedqLP (lp + i - 1);
        put out i (s16 (SUB16 c (MULT16_16_Q12 p O7_IN_Q12))) }) out }"

text \<open>\<open>base\<close>, \<open>wBase\<close>, \<open>resBase\<close>: the places in their buffers where the frame begins.\<close>

definition computeWeightedSpeech :: "int list \<Rightarrow> int \<Rightarrow> int list \<Rightarrow> int list \<Rightarrow> int list \<Rightarrow> int \<Rightarrow> int list \<Rightarrow> int \<Rightarrow>
    (int list \<times> int list) option" where
  "computeWeightedSpeech inputSignal base qLP weightedqLP weighted wBase res resBase = do {
     res \<leftarrow> LP_residual inputSignal base qLP 0 0 L_SUBFRAME res resBase;
     res \<leftarrow> LP_residual inputSignal base qLP (int NB_LSP_COEFF) L_SUBFRAME L_FRAME res resBase;
     c \<leftarrow> lowpass_coefficients weightedqLP 0 (replicate NB_LSP_COEFF 0);
     weighted \<leftarrow> synthesisFilter (drop (nat resBase) res) c weighted wBase;
     c \<leftarrow> lowpass_coefficients weightedqLP (int NB_LSP_COEFF) c;
     weighted \<leftarrow> synthesisFilter (drop (nat resBase + L_SUBFRAME) res) c weighted
        (wBase + int L_SUBFRAME);
     Some (weighted, res) }"


section \<open>All accesses are in bounds\<close>

lemma is_s32_ops [simp, range_simps]:
  "is_s32 (MULT32_32_Q31 a b)" "is_s32 (MULT32_32_Q23 a b)" "is_s32 (MAC32_32_Q31 c a b)"
  by (simp_all add: MULT32_32_Q31_def MULT32_32_Q23_def MAC32_32_Q31_def)

lemma durbin_sum_ok:
  assumes "s32_arr n ac" "s32_arr 11 LP" "2 \<le> i" "i < 11" "11 \<le> n"
  shows "\<exists>s. durbin_sum ac LP i = Some s"
proof -
  have "\<exists>s. for_up 1 (nat i) (\<lambda>j sum. do { a \<leftarrow> get LP j; r \<leftarrow> get ac (i - j);
      Some (MAC32_32_Q31 sum a r) }) 0 = Some s \<and> True"
    by (rule for_up_inv) (use assms in \<open>auto\<close>)
  then show ?thesis using assms by (auto simp: durbin_sum_def)
qed

lemma durbin_step_ok:
  assumes ac: "s32_arr n ac" "11 \<le> n" and i: "2 \<le> i" "i < 11"
    and st: "s32_arr 11 LP" "s32_arr 10 k" "s32_arr 11 prev" "is_s32 E"
  shows "\<exists>LP' k' prev' E'. durbin_step ac i (LP, k, prev, E) = Some (LP', k', prev', E')
    \<and> s32_arr 11 LP' \<and> s32_arr 10 k' \<and> s32_arr 11 prev' \<and> is_s32 E'"
proof -
  have "\<exists>p. for_up 1 (nat i) (\<lambda>j prev. do { v \<leftarrow> get LP j; put prev j v }) prev = Some p \<and> s32_arr 11 p"
    by (rule for_up_inv) (use st i in \<open>auto intro!: arr_update arr_nth [of is_s32 11 LP]\<close>)
  then obtain p where p: "for_up 1 (nat i) (\<lambda>j prev. do { v \<leftarrow> get LP j; put prev j v }) prev = Some p"
    "s32_arr 11 p" by blast
  obtain s where s: "durbin_sum ac LP i = Some s" using durbin_sum_ok ac i st by blast
  define a where "a = s32 (- DIV32_32_Q31 s E)"
  have a: "is_s32 a" by (simp add: a_def)
  have l: "s32_arr 11 (LP[nat i := a])" "s32_arr 10 (k[nat (i - 1) := a])"
    using st a by (auto intro!: arr_update)
  have "\<exists>q. for_up 1 (nat i) (\<lambda>j LP. do { v \<leftarrow> get LP j; p \<leftarrow> get p (i - j);
        put LP j (MAC32_32_Q31 v a p) }) (LP[nat i := a]) = Some q \<and> s32_arr 11 q"
    by (rule for_up_inv) (use l(1) p(2) i in \<open>auto intro!: arr_update\<close>)
  then obtain q where q: "for_up 1 (nat i) (\<lambda>j LP. do { v \<leftarrow> get LP j; p \<leftarrow> get p (i - j);
        put LP j (MAC32_32_Q31 v a p) }) (LP[nat i := a]) = Some q" "s32_arr 11 q" by blast
  have "is_s32 (SHR a 4)" unfolding SHR_def by (rule shr_shrinks) (rule a)
  then have q': "s32_arr 11 (q[nat i := SHR a 4])" using q(2) by (rule arr_update [rotated])
  have "put LP i a = Some (LP[nat i := a])" "put k (i - 1) a = Some (k[nat (i - 1) := a])"
    "put q i (SHR a 4) = Some (q[nat i := SHR a 4])"
    using i st(1,2) q(2) by (auto)
  then show ?thesis using p s q(1) l(2) q' by (simp add: durbin_step_def a_def Let_def)
qed

lemma autoCorrelation2LP_ok:
  assumes "s32_arr n ac" "11 \<le> n" "s16_arr 10 LPQ12" "s32_arr 10 k"
  shows "\<exists>a b E. autoCorrelation2LP ac LPQ12 k = Some (a, b, E) \<and> s16_arr 10 a \<and> s32_arr 10 b \<and> is_s32 E"
proof -
  obtain r0 r1 where r: "get ac 0 = Some r0" "get ac 1 = Some r1"
    using assms(1,2) by (auto)
  define a1 where "a1 = s32 (- DIV32_32_Q27 r1 r0)"
  define LP where "LP = ((replicate 11 0)[0 := ONE_IN_Q27])[1 := a1]"
  define E where "E = MULT32_32_Q31 r0 (SUB32 ONE_IN_Q31 (MULT32_32_Q23 a1 a1))"
  have LP: "s32_arr 11 LP"
    unfolding LP_def by (intro arr_update) (auto simp: ONE_IN_Q27_def a1_def is_s32_def [of 134217728] is_s32_def [of 0])
  have k: "s32_arr 10 (k[0 := SHL a1 4])" using assms(4) by (auto intro!: arr_update)
  have "\<exists>s. for_up 2 11 (durbin_step ac) (LP, k[0 := SHL a1 4], replicate 11 0, E) = Some s
    \<and> (case s of (LP, k, p, E) \<Rightarrow> s32_arr 11 LP \<and> s32_arr 10 k \<and> s32_arr 11 p \<and> is_s32 E)"
  proof (rule for_up_inv)
    fix i s
    assume i: "int 2 \<le> i" "i < int 11"
      and s: "case s of (LP, k, p, E) \<Rightarrow> s32_arr 11 LP \<and> s32_arr 10 k \<and> s32_arr 11 p \<and> is_s32 E"
    obtain L K p E where se: "s = (L, K, p, E)" by (metis prod_cases4)
    show "\<exists>t. durbin_step ac i s = Some t \<and>
        (case t of (LP, k, p, E) \<Rightarrow> s32_arr 11 LP \<and> s32_arr 10 k \<and> s32_arr 11 p \<and> is_s32 E)"
      using durbin_step_ok [OF assms(1,2), of i L K p E] i s by (auto simp: se)
  qed (use LP k in \<open>simp add: E_def is_s32_def [of 0]\<close>)
  then obtain L K p E' where d: "for_up 2 11 (durbin_step ac) (LP, k[0 := SHL a1 4], replicate 11 0, E) = Some (L, K, p, E')"
    "s32_arr 11 L" "s32_arr 10 K" "is_s32 E'" by auto
  have "\<exists>q. for_up 0 10 (\<lambda>i q. do { v \<leftarrow> get L (i + 1); put q i (s16 (SATURATE (PSHR v 15) MAXINT16)) }) LPQ12
      = Some q \<and> s16_arr 10 q"
    by (rule for_up_inv) (use d(2) assms(3) in \<open>auto intro!: arr_update\<close>)
  then obtain q where q: "for_up 0 10 (\<lambda>i q. do { v \<leftarrow> get L (i + 1); put q i (s16 (SATURATE (PSHR v 15) MAXINT16)) }) LPQ12
      = Some q" "s16_arr 10 q" by blast
  have "put k 0 (SHL a1 4) = Some (k[0 := SHL a1 4])" using assms(4) by (auto)
  then show ?thesis using r d q by (simp add: autoCorrelation2LP_def a1_def LP_def E_def NB_LSP_COEFF_def)
qed

lemma window_signal_ok:
  assumes "s16_arr 240 signal"
  shows "\<exists>w. window_signal signal = Some w \<and> s16_arr 240 w"
  unfolding window_signal_def L_LP_ANALYSIS_WINDOW_def
  by (rule for_up_inv) (use assms in \<open>auto intro!: arr_update simp: wlp_def\<close>)

lemma normalise32_range:
  assumes "0 < a"
  shows "0 < fst (normalise32 a s) \<and> fst (normalise32 a s) \<le> MAXINT32 \<and> s \<le> snd (normalise32 a s)"
  using assms
proof (induction a s rule: normalise32.induct)
  case (1 a s)
  show ?case
  proof (cases "a > MAXINT32")
    case True
    then have "0 < SHR a 1" by (simp add: SHR_def shr_def MAXINT32_def pos_imp_zdiv_pos_iff)
    with 1 True show ?thesis by (simp add: normalise32.simps [of a s])
  qed (use 1 in \<open>simp add: normalise32.simps [of a s]\<close>)
qed

lemma window_energy_ok:
  assumes "s16_arr 240 w"
  shows "\<exists>e. window_energy w = Some e \<and> 0 < e"
proof -
  have "\<exists>t. for_up 0 240 (\<lambda>i acc. do { x \<leftarrow> get w i; Some (MAC64 acc x x) }) 0 = Some t
    \<and> 0 \<le> t \<and> t \<le> int 240 * 1073741824"
  proof (rule for_up_rule)
    fix i t assume i: "0 \<le> i" "i < (240::nat)" and t: "0 \<le> t \<and> t \<le> int i * 1073741824"
    have w: "is_s16 (w ! i)" using assms i by (auto intro: arr_nth)
    have sq: "0 \<le> w ! i * w ! i" "w ! i * w ! i \<le> 1073741824"
      using mult_bounds [OF is_s16_abs is_s16_abs, OF w w] by auto
    have "is_s16 x \<Longrightarrow> s64 x = x" for x by (simp add: s64_def is_s16_def)
    moreover have "t + w ! i * w ! i \<le> int (Suc i) * 1073741824" using sq t by (simp add: algebra_simps)
    moreover have "int i < 240" using i by simp
    ultimately have "MAC64 t (w ! i) (w ! i) = t + w ! i * w ! i"
      using w sq t by (simp add: MAC64_def s64_def)
    then show "\<exists>u. (do { x \<leftarrow> get w (int i); Some (MAC64 t x x) }) = Some u
        \<and> 0 \<le> u \<and> u \<le> int (Suc i) * 1073741824"
      using assms i sq t by (auto simp: algebra_simps)
  qed simp_all
  then show ?thesis by (auto simp: window_energy_def L_LP_ANALYSIS_WINDOW_def)
qed

lemma normalise_energy_ok:
  assumes "0 < e"
  shows "\<exists>r s. normalise_energy e = Some (r, s) \<and> is_s32 r"
proof (cases "e > MAXINT32")
  case True
  then show ?thesis by (cases "normalise32 e 0") (simp add: normalise_energy_def)
next
  case False
  then have "s32 e = e" "e < 2147483648" using assms by (simp_all add: MAXINT32_def s32_idI)
  with countLeadingZeros_spec [of e] assms False show ?thesis by (auto simp: normalise_energy_def)
qed

lemma is_s32_if_SHL [simp]: "is_s32 (SHL a n)" by simp

lemma autocorrelation_ok:
  assumes "s16_arr 240 w" "0 \<le> i" "i < 240"
  shows "\<exists>r. autocorrelation w s i = Some r \<and> is_s32 r"
proof -
  have "\<exists>t. for_up (nat i) 240 (\<lambda>j acc. do { x \<leftarrow> get w j; y \<leftarrow> get w (j - i);
      Some (ADD64_32 acc (MULT16_16 x y)) }) 0 = Some t \<and> True"
    "\<exists>t. for_up (nat i) 240 (\<lambda>j acc. do { x \<leftarrow> get w j; y \<leftarrow> get w (j - i);
      Some (MAC16_16 acc x y) }) 0 = Some t \<and> True"
    by (rule for_up_inv; use assms in auto)+
  then show ?thesis by (auto simp: autocorrelation_def L_LP_ANALYSIS_WINDOW_def)
qed

lemma computeLP_ok:
  assumes "s16_arr 240 signal" "s16_arr 10 LPQ12" "s32_arr 10 k" "s32_arr 13 ac" "s32_arr 13 noLag"
    and "11 \<le> number" "number \<le> 13"
  shows "\<exists>q k' ac' nl s. computeLP signal LPQ12 k ac noLag number = Some (q, k', ac', nl, s)
    \<and> s16_arr 10 q \<and> s32_arr 10 k' \<and> s32_arr 13 ac' \<and> s32_arr 13 nl"
proof -
  obtain w where w: "window_signal signal = Some w" "s16_arr 240 w" using window_signal_ok assms(1) by blast
  obtain e where e: "window_energy w = Some e" "0 < e" using window_energy_ok w(2) by blast
  obtain r0 sh where r: "normalise_energy e = Some (r0, sh)" "is_s32 r0" using normalise_energy_ok e(2) by blast
  have a0: "s32_arr 13 (ac[0 := r0])" using assms(4) r(2) by (auto intro!: arr_update)
  have p0: "put ac 0 r0 = Some (ac[0 := r0])" using assms(4) by simp
  have "\<exists>a. for_up 1 number (\<lambda>i ac. do { r \<leftarrow> autocorrelation w sh i; put ac i r }) (ac[0 := r0]) = Some a
      \<and> s32_arr 13 a"
  proof (rule for_up_inv)
    fix i s assume i: "int 1 \<le> i" "i < int number" and s: "s32_arr 13 s"
    obtain r where "autocorrelation w sh i = Some r" "is_s32 r"
      using autocorrelation_ok [OF w(2), of i] i assms(7) by auto
    with i s assms(7) show "\<exists>t. (do { r \<leftarrow> autocorrelation w sh i; put s i r }) = Some t \<and> s32_arr 13 t"
      by (auto intro!: arr_update)
  qed (rule a0)
  then obtain a where a: "for_up 1 number (\<lambda>i ac. do { r \<leftarrow> autocorrelation w sh i; put ac i r }) (ac[0 := r0]) = Some a"
    "s32_arr 13 a" by blast
  have "\<exists>n. for_up 0 number (\<lambda>i noLag. do { r \<leftarrow> get a i; put noLag i r }) noLag = Some n \<and> s32_arr 13 n"
    by (rule for_up_inv) (use a(2) assms(5,7) in \<open>auto intro!: arr_update intro: arr_nth\<close>)
  then obtain nl where nl: "for_up 0 number (\<lambda>i noLag. do { r \<leftarrow> get a i; put noLag i r }) noLag = Some nl"
    "s32_arr 13 nl" by blast
  have wl: "s16_arr 13 wlag" by (simp add: wlag_def arr_def is_s16_def)
  have "\<exists>b. for_up 1 number (\<lambda>i ac. do { l \<leftarrow> get wlag i; r \<leftarrow> get ac i; put ac i (MULT16_32_P15 l r) }) a = Some b
      \<and> s32_arr 13 b"
    by (rule for_up_inv) (use a(2) assms(7) wl in \<open>auto intro!: arr_update\<close>)
  then obtain b where b: "for_up 1 number (\<lambda>i ac. do { l \<leftarrow> get wlag i; r \<leftarrow> get ac i; put ac i (MULT16_32_P15 l r) }) a = Some b"
    "s32_arr 13 b" by blast
  obtain q k' E where q: "autoCorrelation2LP b LPQ12 k = Some (q, k', E)" "s16_arr 10 q" "s32_arr 10 k'"
    using autoCorrelation2LP_ok [OF b(2) _ assms(2,3)] by auto
  have "\<not> number > 13" using assms(7) by simp
  then show ?thesis using w e r p0 a nl b q by (simp add: computeLP_def NB_LSP_COEFF_def Let_def)
qed

lemma LP_residual_ok:
  assumes "s16_arr m x" "10 \<le> base" "base + 80 \<le> int m" "s16_arr 20 LP" "0 \<le> lp" "lp \<le> 10"
    and "s16_arr n res" "0 \<le> rb" "rb + 80 \<le> int n" "b \<le> 80"
  shows "\<exists>r. LP_residual x base LP lp a b res rb = Some r \<and> s16_arr n r"
  unfolding LP_residual_def NB_LSP_COEFF_def
proof (rule for_up_inv [where P = "s16_arr n"])
  fix i s assume i: "int a \<le> i" "i < int b" and s: "s16_arr n s"
  have "\<exists>acc. for_up 0 10 (\<lambda>j acc. do { c \<leftarrow> get LP (lp + j); y \<leftarrow> get x (base + (i - j - 1));
      Some (MAC16_16 acc c y) }) (SHL (x ! nat (base + i)) 12) = Some acc \<and> True"
    by (rule for_up_inv) (use assms i in auto)
  then show "\<exists>t. (do { x' \<leftarrow> get x (base + i); acc \<leftarrow> for_up 0 10 (\<lambda>j acc. do {
        c \<leftarrow> get LP (lp + j); y \<leftarrow> get x (base + (i - j - 1)); Some (MAC16_16 acc c y) }) (SHL x' 12);
      put s (rb + i) (s16 (SATURATE (PSHR acc 12) MAXINT16)) }) = Some t \<and> s16_arr n t"
    using assms i s by (auto intro!: arr_update)
qed (use assms in auto)

lemma lowpass_coefficients_ok:
  assumes "s16_arr 20 w" "0 \<le> lp" "lp \<le> 10" "s16_arr 10 out"
  shows "\<exists>r. lowpass_coefficients w lp out = Some r \<and> s16_arr 10 r"
proof -
  have "\<exists>r. for_up 1 10 (\<lambda>i out. do { c \<leftarrow> get w (lp + i); p \<leftarrow> get w (lp + i - 1);
        put out i (s16 (SUB16 c (MULT16_16_Q12 p O7_IN_Q12))) }) (out[0 := v]) = Some r \<and> s16_arr 10 r"
    if "is_s16 v" for v
    by (rule for_up_inv) (use assms that in \<open>auto intro!: arr_update\<close>)
  then show ?thesis using assms by (simp add: lowpass_coefficients_def NB_LSP_COEFF_def)
qed

lemma synthesisFilter_ok:
  assumes "s16_arr m x" "40 \<le> m" "s16_arr p c" "10 \<le> p" "s16_arr n y" "10 \<le> base" "base + 40 \<le> int n"
  shows "\<exists>r. synthesisFilter x c y base = Some r \<and> s16_arr n r"
  unfolding synthesisFilter_eq by (rule LPSynthesisFilter_ok [of m x _ p c]) (use assms in auto)

lemma computeWeightedSpeech_ok:
  assumes "s16_arr m x" "10 \<le> base" "base + 80 \<le> int m" "s16_arr 20 qLP" "s16_arr 20 w"
    and "s16_arr n y" "10 \<le> wb" "wb + 80 \<le> int n" "s16_arr k res" "0 \<le> rb" "rb + 80 \<le> int k"
  shows "\<exists>y' r. computeWeightedSpeech x base qLP w y wb res rb = Some (y', r) \<and> s16_arr n y' \<and> s16_arr k r"
proof -
  obtain r1 where r1: "LP_residual x base qLP 0 0 40 res rb = Some r1" "s16_arr k r1"
    using LP_residual_ok [OF assms(1-4), of 0 k res rb 40 0] assms by auto
  obtain r where r: "LP_residual x base qLP 10 40 80 r1 rb = Some r" "s16_arr k r"
    using LP_residual_ok [OF assms(1-4), of 10 k r1 rb 80 40] assms r1 by auto
  obtain c1 where c1: "lowpass_coefficients w 0 (replicate 10 0) = Some c1" "s16_arr 10 c1"
    using lowpass_coefficients_ok [OF assms(5), of 0 "replicate 10 0"] by auto
  have d: "40 \<le> k - nat rb" "40 \<le> k - (nat rb + 40)" using assms(10,11) by linarith+
  obtain y1 where y1: "synthesisFilter (drop (nat rb) r) c1 y wb = Some y1" "s16_arr n y1"
    using synthesisFilter_ok [OF arr_drop [OF r(2)] d(1) c1(2) _ assms(6,7)] assms by auto
  obtain c2 where c2: "lowpass_coefficients w 10 c1 = Some c2" "s16_arr 10 c2"
    using lowpass_coefficients_ok [OF assms(5) _ _ c1(2), of 10] by auto
  obtain y2 where y2: "synthesisFilter (drop (nat rb + 40) r) c2 y1 (wb + 40) = Some y2" "s16_arr n y2"
    using synthesisFilter_ok [OF arr_drop [OF r(2)] d(2) c2(2) _ y1(2), of "wb + 40"] assms by auto
  show ?thesis using r1 r c1 y1 c2 y2
    by (simp add: computeWeightedSpeech_def L_SUBFRAME_def L_FRAME_def NB_LSP_COEFF_def)
qed

end
