(* ===== verification/G729_Excitation.thy ===== *)
theory G729_Excitation
  imports G729_Context
begin

text \<open>
  The excitation of the decoder (bcg729): pitch delay and adaptive code vector
  (\<open>decodeAdaptativeCodeVector.c\<close>), algebraic code vector (\<open>decodeFixedCodeVector.c\<close>) and the
  two gains (\<open>decodeGains.c\<close> and the gain prediction of \<open>utils.c\<close>). A C pointer into the
  excitation buffer is the buffer with the index it points to (\<open>base\<close>).
\<close>

section \<open>Adaptive code vector\<close>

definition initDecodeAdaptativeCodeVector :: "decoderContext \<Rightarrow> decoderContext" where
  "initDecodeAdaptativeCodeVector ctx = ctx\<lparr>previousIntPitchDelay := 60\<rparr>"

definition computeAdaptativeCodebookVector ::
    "int list \<Rightarrow> int \<Rightarrow> int \<Rightarrow> int \<Rightarrow> int list option" where
  "computeAdaptativeCodebookVector exc base fracPitchDelay intPitchDelay = (
     let (frac, minusK) =
       (if fracPitchDelay = 1 then (2, base - (intPitchDelay + 1))
        else (- fracPitchDelay, base - intPitchDelay))
     in for_up 0 L_SUBFRAME (\<lambda>n exc. do {
          acc \<leftarrow> for_up 0 10 (\<lambda>i acc. do {
            u \<leftarrow> get exc (minusK + n - i);
            b \<leftarrow> get b30 (frac + 3 * i);
            let acc = MAC16_16 acc u b;
            u' \<leftarrow> get exc (minusK + (n + 1) + i);
            b' \<leftarrow> get b30 (3 - frac + 3 * i);
            Some (MAC16_16 acc u' b') }) 0;
          put exc (base + n) (SATURATE (PSHR acc 15) MAXINT16) }) exc)"

text \<open>The pitch delay of a subframe: the integer and the fractional part (in thirds), from
  the first parameter (8 bits, absolute) and from the second one (5 bits, relative).\<close>

definition pitch_P1 :: "int \<Rightarrow> int \<times> int" where
  "pitch_P1 idx =
    (if idx < 197 then
       let t = ADD16 (MULT16_16_Q15 (ADD16 idx 2) 10923) 19
       in (t, ADD16 (SUB16 idx (MULT16_16 t 3)) 58)
     else (s16 (SUB16 idx 112), 0))"

definition pitch_P2 :: "int \<Rightarrow> int \<Rightarrow> int \<times> int" where
  "pitch_P2 intPitchDelay idx = (
     let tMin = s16 (SUB16 intPitchDelay 5);
         tMin = (if tMin < 20 then 20 else tMin);
         tMin = (if tMin > 134 then 134 else tMin);
         t = s16 (SUB16 (MULT16_16_Q15 (ADD16 idx 2) 10923) 1);
         frac = s16 (SUB16 (SUB16 idx (MULT16_16 t 3)) 2)
     in (ADD16 t tMin, frac))"

text \<open>After an erasure or a parity error the last delay is used again and then grows by one.\<close>

definition pitch_repeat :: "decoderContext \<Rightarrow> decoderContext \<times> int \<times> int" where
  "pitch_repeat ctx = (
     let t = previousIntPitchDelay ctx;
         p = u16 (t + 1);
         p = (if p > int MAXIMUM_INT_PITCH_DELAY then int MAXIMUM_INT_PITCH_DELAY else p)
     in (ctx\<lparr>previousIntPitchDelay := p\<rparr>, s16 t, 0))"

definition decodePitchDelay ::
    "decoderContext \<Rightarrow> int \<Rightarrow> int \<Rightarrow> int \<Rightarrow> int \<Rightarrow> int \<Rightarrow> decoderContext \<times> int \<times> int" where
  "decodePitchDelay ctx subFrameIndex idx parityFlag frameErasureFlag intPitchDelay =
    (if subFrameIndex = 0 then
       if parityFlag OR frameErasureFlag \<noteq> 0 then pitch_repeat ctx
       else let (t, frac) = pitch_P1 idx in (ctx\<lparr>previousIntPitchDelay := u16 t\<rparr>, t, frac)
     else
       if frameErasureFlag \<noteq> 0 then pitch_repeat ctx
       else let (t, frac) = pitch_P2 intPitchDelay idx
            in (ctx\<lparr>previousIntPitchDelay := u16 t\<rparr>, t, frac))"

text \<open>The excitation buffer is a field of the context; the current subframe starts at cell
  \<open>base\<close>. Returns the context and the integer pitch delay.\<close>

definition decodeAdaptativeCodeVector ::
    "decoderContext \<Rightarrow> int \<Rightarrow> int \<Rightarrow> int \<Rightarrow> int \<Rightarrow> int \<Rightarrow> int \<Rightarrow> (decoderContext \<times> int) option" where
  "decodeAdaptativeCodeVector ctx subFrameIndex idx parityFlag frameErasureFlag intPitchDelay base = (
     let (ctx, t, frac) = decodePitchDelay ctx subFrameIndex idx parityFlag frameErasureFlag intPitchDelay
     in do {
       exc \<leftarrow> computeAdaptativeCodebookVector (excitationVector ctx) base frac t;
       Some (ctx\<lparr>excitationVector := exc\<rparr>, t) })"

section \<open>Fixed code vector\<close>

definition pulse_positions :: "int \<Rightarrow> int list" where
  "pulse_positions positions = (
     let m0 = positions mod 8 * 5;
         positions = SHR positions 3;
         m1 = positions mod 8 * 5 + 1;
         positions = SHR positions 3;
         m2 = positions mod 8 * 5 + 2;
         positions = SHR positions 3;
         jx = positions mod 2;
         positions = SHR positions 1;
         m3 = positions mod 8 * 5 + 3 + jx
     in [m0, m1, m2, m3])"

definition decodeFixedCodeVector :: "int \<Rightarrow> int \<Rightarrow> int \<Rightarrow> int \<Rightarrow> int list \<Rightarrow> int list option" where
  "decodeFixedCodeVector signs positions intPitchDelay boundedPitchGain v = do {
     v \<leftarrow> for_up 0 L_SUBFRAME (\<lambda>i v. put v i 0) v;
     (v, signs) \<leftarrow> for_up 0 4 (\<lambda>i (v, signs). do {
        p \<leftarrow> get (pulse_positions positions) i;
        v \<leftarrow> put v p (if signs mod 2 \<noteq> 0 then 8192 else -8192);
        Some (v, SHR signs 1) }) (v, signs);
     for_range intPitchDelay (int L_SUBFRAME) (\<lambda>i v. do {
        a \<leftarrow> get v i;
        b \<leftarrow> get v (i - intPitchDelay);
        put v i (ADD16 a (MULT16_16_P14 b boundedPitchGain)) }) v }"

section \<open>Gains\<close>

definition initDecodeGains :: "decoderContext \<Rightarrow> decoderContext" where
  "initDecodeGains ctx =
     ctx\<lparr>previousGainPredictionError := [-14336, -14336, -14336, -14336]\<rparr>"

definition MACodeGainPrediction :: "int list \<Rightarrow> int list \<Rightarrow> int option" where
  "MACodeGainPrediction prevError fixedCodebookVector = do {
     squaresSum \<leftarrow> for_up 0 L_SUBFRAME (\<lambda>i s. do {
        v \<leftarrow> get fixedCodebookVector i;
        Some (if v \<noteq> 0 then MAC16_16 s v v else s) }) 0;
     lg \<leftarrow> g729Log2_Q0Q16 squaresSum;
     let acc = SHL (MAC16_32_Q13 8145364 (-24660) lg) 8;
     acc \<leftarrow> for_up 0 4 (\<lambda>i acc. do {
        e \<leftarrow> get prevError i;
        m \<leftarrow> get MAPredictionCoefficients i;
        Some (MAC16_16 acc e m) }) acc;
     let acc = PSHR (MULT16_32_Q15 5442 (SHR acc 2)) 11;
     Some (g729Exp2_Q11Q16 (s16 acc)) }"

text \<open>Shift the prediction error history and insert a new value.\<close>

definition push_error :: "int list \<Rightarrow> int \<Rightarrow> int list option" where
  "push_error e v = do {
     e2 \<leftarrow> get e 2; e \<leftarrow> put e 3 e2;
     e1 \<leftarrow> get e 1; e \<leftarrow> put e 2 e1;
     e0 \<leftarrow> get e 0; e \<leftarrow> put e 1 e0;
     put e 0 v }"

definition computeGainPredictionError :: "int \<Rightarrow> int list \<Rightarrow> int list option" where
  "computeGainPredictionError gamma prevError = do {
     lg \<leftarrow> g729Log2_Q0Q16 gamma;
     let e = PSHR (MULT16_32_Q12 24660 (SUB32 lg 786432)) 6;
     push_error prevError (s16 e) }"

definition decodeGains_erased :: "decoderContext \<Rightarrow> decoderContext option" where
  "decodeGains_erased ctx = do {
     let ga = (if adaptativeCodebookGain ctx < 16384
               then s16 (MULT16_16_Q15 (adaptativeCodebookGain ctx) 29491) else 14746);
     let gc = s16 (MULT16_16_Q15 (fixedCodebookGain ctx) 32113);
     e \<leftarrow> for_up 0 4 (\<lambda>i e. do {
        v \<leftarrow> get (previousGainPredictionError ctx) i;
        Some (ADD32 e v) }) 0;
     let e = PSHR e 2;
     let e = (if e < -10240 then -14336 else SUB32 e 4096);
     pe \<leftarrow> push_error (previousGainPredictionError ctx) (s16 e);
     Some (ctx\<lparr>adaptativeCodebookGain := ga, fixedCodebookGain := gc,
               previousGainPredictionError := pe\<rparr>) }"

text \<open>The gains are fields of the context in every call of the decoder.\<close>

definition decodeGains ::
    "decoderContext \<Rightarrow> int \<Rightarrow> int \<Rightarrow> int list \<Rightarrow> int \<Rightarrow> decoderContext option" where
  "decodeGains ctx GA GB fixedCodebookVector frameErasureFlag =
    (if frameErasureFlag \<noteq> 0 then decodeGains_erased ctx
     else do {
       ga \<leftarrow> get reverseIndexMappingGA GA;
       gb \<leftarrow> get reverseIndexMappingGB GB;
       a0 \<leftarrow> get2 GACodebook ga 0;
       b0 \<leftarrow> get2 GBCodebook gb 0;
       predicted \<leftarrow> MACodeGainPrediction (previousGainPredictionError ctx) fixedCodebookVector;
       a1 \<leftarrow> get2 GACodebook ga 1;
       b1 \<leftarrow> get2 GBCodebook gb 1;
       let gamma = ADD16 a1 b1;
       pe \<leftarrow> computeGainPredictionError gamma (previousGainPredictionError ctx);
       Some (ctx\<lparr>adaptativeCodebookGain := ADD16 a0 b0,
                 fixedCodebookGain := s16 (PSHR (MULT16_32_Q12 gamma predicted) 15),
                 previousGainPredictionError := pe\<rparr>) })"

section \<open>The pitch delay\<close>

text \<open>The product with 10923, one third in Q15, is an exact division by 3.\<close>

lemma third_Q15:
  assumes "0 \<le> n" "n < 32766"
  shows "MULT16_16_Q15 n 10923 = n div 3"
proof -
  define q where "q = n div 3"
  define r where "r = n mod 3"
  have n: "n = 3 * q + r" "0 \<le> r" "r \<le> 2" "0 \<le> q" "q \<le> 10921"
    using assms by (auto simp: q_def r_def)
  have "MULT16_16 n 10923 = n * 10923" using assms by (simp add: MULT16_16_def s32_idI)
  moreover have "n * 10923 div 32768 = q"
    by (rule int_div_pos_eq [of _ _ _ "q + 10923 * r"]) (use n in auto)
  ultimately show ?thesis by (simp add: MULT16_16_Q_def SHR_def shr_def q_def)
qed

definition pitch_valid :: "int \<Rightarrow> int \<Rightarrow> bool" where
  "pitch_valid t frac \<longleftrightarrow> 19 \<le> t \<and> t \<le> 144 \<and> -1 \<le> frac \<and> frac \<le> 1 \<and> (t = 144 \<longrightarrow> frac \<le> 0)"

lemma pitch_P1_low:
  assumes "0 \<le> idx" "idx < 197"
  shows "pitch_P1 idx = ((idx + 2) div 3 + 19, (idx + 2) mod 3 - 1)"
proof -
  have a: "ADD16 idx 2 = idx + 2" using assms by (simp add: ADD16_def s16_idI)
  have t: "ADD16 ((idx + 2) div 3) 19 = (idx + 2) div 3 + 19"
    using assms by (simp add: ADD16_def s16_idI)
  have m: "MULT16_16 ((idx + 2) div 3 + 19) 3 = ((idx + 2) div 3 + 19) * 3"
    using assms by (simp add: MULT16_16_def s32_idI)
  have d: "idx - ((idx + 2) div 3 + 19) * 3 = (idx + 2) mod 3 - 59"
    by presburger
  have "ADD16 (SUB16 idx (((idx + 2) div 3 + 19) * 3)) 58 = (idx + 2) mod 3 - 1"
    using assms d by (simp add: ADD16_def SUB16_def s16_idI)
  then show ?thesis
    using assms by (simp add: pitch_P1_def Let_def a third_Q15 t m)
qed

lemma pitch_P1_high: "197 \<le> idx \<Longrightarrow> idx \<le> 255 \<Longrightarrow> pitch_P1 idx = (idx - 112, 0)"
  by (simp add: pitch_P1_def SUB16_def s16_idI)

lemma pitch_P1_valid:
  assumes "0 \<le> idx" "idx \<le> 255" "pitch_P1 idx = (t, frac)"
  shows "pitch_valid t frac" "t \<le> 143"
proof -
  have "pitch_valid t frac \<and> t \<le> 143"
  proof (cases "idx < 197")
    case True
    then have "t = (idx + 2) div 3 + 19" "frac = (idx + 2) mod 3 - 1"
      using assms pitch_P1_low by auto
    moreover have "(idx + 2) div 3 \<le> 66" using True by linarith
    moreover have "0 \<le> (idx + 2) div 3" using assms by simp
    moreover have "0 \<le> (idx + 2) mod 3" "(idx + 2) mod 3 < 3" by simp_all
    ultimately show ?thesis unfolding pitch_valid_def by linarith
  next
    case False
    then show ?thesis using assms pitch_P1_high [of idx] by (auto simp: pitch_valid_def)
  qed
  then show "pitch_valid t frac" "t \<le> 143" by auto
qed

lemma pitch_P2_eq:
  assumes "0 \<le> idx" "idx \<le> 31" "19 \<le> t0" "t0 \<le> 144"
  shows "pitch_P2 t0 idx = (clamp 20 134 (t0 - 5) + (idx + 2) div 3 - 1, (idx + 2) mod 3 - 1)"
proof -
  have a: "ADD16 idx 2 = idx + 2" using assms by (simp add: ADD16_def s16_idI)
  have t: "s16 (SUB16 ((idx + 2) div 3) 1) = (idx + 2) div 3 - 1"
    using assms by (simp add: SUB16_def s16_idI)
  have m: "MULT16_16 ((idx + 2) div 3 - 1) 3 = ((idx + 2) div 3 - 1) * 3"
    using assms by (simp add: MULT16_16_def s32_idI)
  have d: "idx - ((idx + 2) div 3 - 1) * 3 = (idx + 2) mod 3 + 1"
    by presburger
  have f: "s16 (SUB16 (SUB16 idx (((idx + 2) div 3 - 1) * 3)) 2) = (idx + 2) mod 3 - 1"
    using assms d by (simp add: SUB16_def s16_idI)
  have c: "s16 (SUB16 t0 5) = t0 - 5" using assms by (simp add: SUB16_def s16_idI)
  have s: "ADD16 ((idx + 2) div 3 - 1) m = m + (idx + 2) div 3 - 1" if "20 \<le> m" "m \<le> 134" for m
    using assms that by (simp add: ADD16_def s16_idI)
  show ?thesis
    using assms f by (simp add: pitch_P2_def Let_def a third_Q15 t m c s clamp_def)
qed

lemma pitch_P2_valid:
  assumes "0 \<le> idx" "idx \<le> 31" "19 \<le> t0" "t0 \<le> 144" "pitch_P2 t0 idx = (t, frac)"
  shows "pitch_valid t frac"
proof -
  have tf: "t = clamp 20 134 (t0 - 5) + (idx + 2) div 3 - 1" "frac = (idx + 2) mod 3 - 1"
    using assms pitch_P2_eq by auto
  have c: "20 \<le> clamp 20 134 (t0 - 5)" "clamp 20 134 (t0 - 5) \<le> 134"
    using clamp_range [of 20 134] by auto
  have q: "0 \<le> (idx + 2) div 3" "(idx + 2) div 3 \<le> 11" using assms by auto
  have r: "0 \<le> (idx + 2) mod 3" "(idx + 2) mod 3 < 3" by simp_all
  have "(idx + 2) mod 3 = 0" if "(idx + 2) div 3 = 11"
    using that assms div_mult_mod_eq [of "idx + 2" 3] r by linarith
  then show ?thesis using tf c q r unfolding pitch_valid_def by auto
qed

text \<open>The pitch delay of the first subframe: every 8 bit index gives a delay of 19 1/3 to
  143 samples with a fraction of -1, 0 or 1 thirds, and the index determines delay and
  fraction uniquely: no two indices decode to the same delay.\<close>

theorem pitch_P1_injective:
  assumes "0 \<le> i" "i \<le> 255" "0 \<le> j" "j \<le> 255"
  shows "pitch_P1 i = pitch_P1 j \<longleftrightarrow> i = j"
proof -
  have low: "fst (pitch_P1 k) * 3 + snd (pitch_P1 k) = k + 58" if "0 \<le> k" "k < 197" for k
    using div_mult_mod_eq [of "k + 2" 3] by (simp add: pitch_P1_low [OF that])
  have high: "fst (pitch_P1 k) * 3 + snd (pitch_P1 k) = 3 * k - 336" if "197 \<le> k" "k \<le> 255" for k
    using that by (simp add: pitch_P1_high)
  show ?thesis
  proof
    assume e: "pitch_P1 i = pitch_P1 j"
    define w where "w = fst (pitch_P1 i) * 3 + snd (pitch_P1 i)"
    have "w = (if i < 197 then i + 58 else 3 * i - 336)"
      using low [of i] high [of i] assms unfolding w_def by simp
    moreover have "w = (if j < 197 then j + 58 else 3 * j - 336)"
      using low [of j] high [of j] assms unfolding w_def e by simp
    ultimately show "i = j" by (simp split: if_splits)
  qed simp
qed

theorem pitch_P1_injective_witness: "pitch_P1 196 \<noteq> pitch_P1 197"
  using pitch_P1_injective [of 196 197] by simp

section \<open>The adaptive code vector\<close>

text \<open>The exact interpolation sum around cell c with the first k taps of each side, and the
  sum of the magnitudes of the taps used.\<close>

definition pitch_sum :: "int list \<Rightarrow> int \<Rightarrow> int \<Rightarrow> nat \<Rightarrow> int" where
  "pitch_sum e c frac k = (\<Sum>i\<leftarrow>[0..<k]. e ! nat (c - int i) * b30 ! nat (frac + 3 * int i)
     + e ! nat (c + 1 + int i) * b30 ! nat (3 - frac + 3 * int i))"

definition b30_weight :: "int \<Rightarrow> nat \<Rightarrow> int" where
  "b30_weight frac k = (\<Sum>i\<leftarrow>[0..<k]. \<bar>b30 ! nat (frac + 3 * int i)\<bar> + \<bar>b30 ! nat (3 - frac + 3 * int i)\<bar>)"

lemma b30_weight_10: "frac \<in> {0, 1, 2} \<Longrightarrow> b30_weight frac 10 \<le> 59398"
  by (auto simp: b30_weight_def upt_rec b30_def nat_add_distrib)

lemma b30_weight_Suc: "b30_weight frac (Suc k) = b30_weight frac k
    + \<bar>b30 ! nat (frac + 3 * int k)\<bar> + \<bar>b30 ! nat (3 - frac + 3 * int k)\<bar>"
  by (simp add: b30_weight_def)

lemma b30_weight_mono: "j \<le> k \<Longrightarrow> b30_weight frac j \<le> b30_weight frac k"
  by (induction k) (auto simp: b30_weight_Suc le_Suc_eq)

lemma weighted_s32: "\<bar>x\<bar> \<le> 32768 * W \<Longrightarrow> W \<le> 59398 \<Longrightarrow> is_s32 x"
  by (rule abs_is_s32) linarith

text \<open>The comment of the code, "no overflow possible on 32 bits", for all intermediate sums.\<close>

lemma pitch_acc_exact:
  assumes e: "s16_arr 234 e" and f: "frac \<in> {0, 1, 2}" and c: "9 \<le> c" "c \<le> 223"
  shows "for_up 0 10 (\<lambda>i acc. do {
            u \<leftarrow> get e (c - i);
            b \<leftarrow> get b30 (frac + 3 * i);
            let acc = MAC16_16 acc u b;
            u' \<leftarrow> get e (c + 1 + i);
            b' \<leftarrow> get b30 (3 - frac + 3 * i);
            Some (MAC16_16 acc u' b') }) 0 = Some (pitch_sum e c frac 10)"
proof -
  let ?f = "\<lambda>i acc. do {
            u \<leftarrow> get e (c - i);
            b \<leftarrow> get b30 (frac + 3 * i);
            let acc = MAC16_16 acc u b;
            u' \<leftarrow> get e (c + 1 + i);
            b' \<leftarrow> get b30 (3 - frac + 3 * i);
            Some (MAC16_16 acc u' b') }"
  let ?P = "\<lambda>k acc. acc = pitch_sum e c frac k \<and> \<bar>acc\<bar> \<le> 32768 * b30_weight frac k"
  have "\<exists>acc. for_up 0 10 ?f 0 = Some acc \<and> ?P 10 acc"
  proof (rule for_up_rule)
    show "?P 0 0" by (simp add: pitch_sum_def b30_weight_def)
  next
    fix k acc assume k: "k < 10" and P: "?P k acc"
    let ?u = "e ! nat (c - int k)" and ?u' = "e ! nat (c + 1 + int k)"
    let ?b = "b30 ! nat (frac + 3 * int k)" and ?b' = "b30 ! nat (3 - frac + 3 * int k)"
    have g: "get e (c - int k) = Some ?u" "get e (c + 1 + int k) = Some ?u'"
      "get b30 (frac + 3 * int k) = Some ?b" "get b30 (3 - frac + 3 * int k) = Some ?b'"
      using e b30_arr k c f by auto
    have s: "is_s16 ?u" "is_s16 ?u'" using e k c by (auto intro!: s16_nth)
    have ix: "nat (frac + 3 * int k) < 31" "nat (3 - frac + 3 * int k) < 31" using f k by auto
    have sb: "is_s16 ?b" "is_s16 ?b'"
      using arr_nth [OF b30_arr ix(1)] arr_nth [OF b30_arr ix(2)] by (simp_all add: is_s16_def)
    have m: "\<bar>?u * ?b\<bar> \<le> 32768 * \<bar>?b\<bar>" "\<bar>?u' * ?b'\<bar> \<le> 32768 * \<bar>?b'\<bar>"
      using mult_abs_le [OF is_s16_abs [OF s(1)], of ?b "\<bar>?b\<bar>"]
        mult_abs_le [OF is_s16_abs [OF s(2)], of ?b' "\<bar>?b'\<bar>"] by simp_all
    have w: "b30_weight frac k + \<bar>?b\<bar> + \<bar>?b'\<bar> \<le> 59398"
      using b30_weight_mono [of "Suc k" 10 frac] k b30_weight_10 [OF f] by (simp add: b30_weight_Suc)
    have "0 \<le> b30_weight frac k" using b30_weight_mono [of 0 k frac] by (simp add: b30_weight_def)
    then have W: "b30_weight frac k \<le> 59398" "b30_weight frac k + \<bar>?b\<bar> \<le> 59398"
      "b30_weight frac k + \<bar>?b\<bar> + \<bar>?b'\<bar> \<le> 59398" "\<bar>?b\<bar> \<le> 59398" "\<bar>?b'\<bar> \<le> 59398"
      using w abs_ge_zero [of ?b] abs_ge_zero [of ?b'] by linarith+
    have 1: "\<bar>acc + ?u * ?b\<bar> \<le> 32768 * (b30_weight frac k + \<bar>?b\<bar>)"
      "\<bar>acc + ?u * ?b + ?u' * ?b'\<bar> \<le> 32768 * (b30_weight frac k + \<bar>?b\<bar> + \<bar>?b'\<bar>)"
      unfolding distrib_left
      using abs_add_le [OF conjunct2 [OF P] m(1)] abs_add_le [OF abs_add_le [OF conjunct2 [OF P] m(1)] m(2)] .
    have i: "is_s32 acc" "is_s32 (acc + ?u * ?b)" "is_s32 (acc + ?u * ?b + ?u' * ?b')"
      "is_s32 (?u * ?b)" "is_s32 (?u' * ?b')"
      using weighted_s32 [OF conjunct2 [OF P]] weighted_s32 [OF 1(1)] weighted_s32 [OF 1(2)]
        weighted_s32 [OF m(1)] weighted_s32 [OF m(2)] W by simp_all
    have "?f (int k) acc = Some (acc + ?u * ?b + ?u' * ?b')"
      using i by (simp add: g MAC16_16_def MULT16_16_no_overflow s sb ADD32_exact)
    moreover have "pitch_sum e c frac (Suc k) = pitch_sum e c frac k + ?u * ?b + ?u' * ?b'"
      by (simp add: pitch_sum_def)
    ultimately show "\<exists>t. ?f (int k) acc = Some t \<and> ?P (Suc k) t"
      using P 1 by (simp add: b30_weight_Suc)
  qed simp
  then show ?thesis by auto
qed

lemma pitch_sum_cong:
  assumes "\<And>j. j < 10 \<Longrightarrow> e ! nat (c - int j) = e' ! nat (c - int j)"
    and "\<And>j. j < 10 \<Longrightarrow> e ! nat (c + 1 + int j) = e' ! nat (c + 1 + int j)"
  shows "pitch_sum e c frac 10 = pitch_sum e' c frac 10"
  unfolding pitch_sum_def using assms by (intro arg_cong [of _ _ sum_list] map_cong) auto

text \<open>Lag and tap phase in use: a fraction of +1/3 is 2/3 before the next sample.\<close>

definition pitch_lag :: "int \<Rightarrow> int \<Rightarrow> int" where
  "pitch_lag t frac = (if frac = 1 then t + 1 else t)"

definition pitch_phase :: "int \<Rightarrow> int" where
  "pitch_phase frac = (if frac = 1 then 2 else - frac)"

definition adaptive_sample :: "int list \<Rightarrow> int \<Rightarrow> int \<Rightarrow> int \<Rightarrow> int" where
  "adaptive_sample e c t frac =
     SATURATE (PSHR (pitch_sum e (c - pitch_lag t frac) (pitch_phase frac) 10) 15) MAXINT16"

definition adaptive_result :: "int list \<Rightarrow> int list \<Rightarrow> nat \<Rightarrow> int \<Rightarrow> int \<Rightarrow> nat \<Rightarrow> bool" where
  "adaptive_result e0 e base t frac n \<longleftrightarrow> s16_arr 234 e
    \<and> (\<forall>k. k < base \<or> base + n \<le> k \<longrightarrow> e ! k = e0 ! k)
    \<and> (\<forall>m<n. e ! (base + m) = adaptive_sample e (int (base + m)) t frac)"

lemma adaptive_sample_update:
  assumes "pitch_valid t frac" "144 < base" "m \<le> n"
  shows "adaptive_sample (e[base + n := v]) (int (base + m)) t frac = adaptive_sample e (int (base + m)) t frac"
proof -
  have "pitch_sum (e[base + n := v]) (int (base + m) - pitch_lag t frac) (pitch_phase frac) 10
      = pitch_sum e (int (base + m) - pitch_lag t frac) (pitch_phase frac) 10"
  proof (rule pitch_sum_cong)
    fix j :: nat assume j: "j < 10"
    have "int (base + n) \<noteq> int (base + m) - pitch_lag t frac - int j"
      "int (base + n) \<noteq> int (base + m) - pitch_lag t frac + 1 + int j"
      using assms j by (auto simp: pitch_lag_def pitch_valid_def)
    then have "base + n \<noteq> nat (int (base + m) - pitch_lag t frac - int j)"
      "base + n \<noteq> nat (int (base + m) - pitch_lag t frac + 1 + int j)"
      using assms(2) by linarith+
    then show "e[base + n := v] ! nat (int (base + m) - pitch_lag t frac - int j)
        = e ! nat (int (base + m) - pitch_lag t frac - int j)"
      "e[base + n := v] ! nat (int (base + m) - pitch_lag t frac + 1 + int j)
        = e ! nat (int (base + m) - pitch_lag t frac + 1 + int j)"
      by simp_all
  qed
  then show ?thesis by (simp add: adaptive_sample_def)
qed

lemma computeAdaptativeCodebookVector_spec:
  assumes e0: "s16_arr 234 e0" and v: "pitch_valid t frac" and b: "154 \<le> base" "base \<le> 194"
  shows "\<exists>e. computeAdaptativeCodebookVector e0 (int base) frac t = Some e
    \<and> adaptive_result e0 e base t frac 40"
proof -
  let ?lag = "pitch_lag t frac" and ?ph = "pitch_phase frac"
  let ?f = "\<lambda>n exc. do {
          acc \<leftarrow> for_up 0 10 (\<lambda>i acc. do {
            u \<leftarrow> get exc (int base - ?lag + n - i);
            b \<leftarrow> get b30 (?ph + 3 * i);
            let acc = MAC16_16 acc u b;
            u' \<leftarrow> get exc (int base - ?lag + (n + 1) + i);
            b' \<leftarrow> get b30 (3 - ?ph + 3 * i);
            Some (MAC16_16 acc u' b') }) 0;
          put exc (int base + n) (SATURATE (PSHR acc 15) MAXINT16) }"
  have eq: "computeAdaptativeCodebookVector e0 (int base) frac t = for_up 0 40 ?f e0"
    by (simp add: computeAdaptativeCodebookVector_def L_SUBFRAME_def pitch_lag_def pitch_phase_def Let_def)
  have "\<exists>e. for_up 0 40 ?f e0 = Some e \<and> adaptive_result e0 e base t frac 40"
  proof (rule for_up_rule [where P = "\<lambda>n e. adaptive_result e0 e base t frac n"])
    show "adaptive_result e0 e0 base t frac 0" using e0 by (simp add: adaptive_result_def)
  next
    fix n e assume n: "n < (40::nat)" and P: "adaptive_result e0 e base t frac n"
    let ?c = "int (base + n) - ?lag"
    have e: "s16_arr 234 e" using P by (simp add: adaptive_result_def)
    have ph: "?ph \<in> {0, 1, 2}" using v by (auto simp: pitch_valid_def pitch_phase_def)
    have c: "9 \<le> ?c" "?c \<le> 223" using v b n by (auto simp: pitch_valid_def pitch_lag_def)
    have i: "int base - ?lag + int n - i = ?c - i" "int base - ?lag + (int n + 1) + i = ?c + 1 + i" for i
      by simp_all
    have "?f (int n) e = Some (e[base + n := adaptive_sample e (int (base + n)) t frac])"
      unfolding i pitch_acc_exact [OF e ph c]
      using e b n by (simp add: adaptive_sample_def nat_add_distrib)
    moreover have "adaptive_result e0 (e[base + n := adaptive_sample e (int (base + n)) t frac]) base t frac (Suc n)"
    proof -
      have s: "is_s16 (adaptive_sample e (int (base + n)) t frac)" by (simp add: adaptive_sample_def)
      show ?thesis
        using P e b n s adaptive_sample_update [OF v, of base]
        unfolding adaptive_result_def
        by (auto simp: less_Suc_eq nth_list_update arr_length intro!: arr_update)
    qed
    ultimately show "\<exists>t'. ?f (int n) e = Some t' \<and> adaptive_result e0 t' base t frac (Suc n)" by blast
  qed simp
  then show ?thesis by (simp add: eq)
qed

text \<open>(C16) On the excitation buffer of the decoder (234 cells, 154 of them past), for a
  subframe that starts at cell 154 to 194 and any delay and fraction the bit stream can
  give, \<open>computeAdaptativeCodebookVector\<close> reads and writes inside the buffer, changes the 40
  cells of the subframe only, and each of these is the rounded and saturated exact
  interpolation sum over the resulting buffer: no 32 bit sum overflows on the way.\<close>

theorem adaptive_vector_correct:
  assumes "s16_arr 234 e0" "pitch_valid t frac" "154 \<le> base" "base \<le> 194"
  shows "\<exists>e. computeAdaptativeCodebookVector e0 (int base) frac t = Some e \<and> s16_arr 234 e
    \<and> (\<forall>k. k < base \<or> base + 40 \<le> k \<longrightarrow> e ! k = e0 ! k)
    \<and> (\<forall>m<40. e ! (base + m) = adaptive_sample e (int (base + m)) t frac)"
  using computeAdaptativeCodebookVector_spec [OF assms] by (auto simp: adaptive_result_def)

theorem adaptive_vector_correct_witness:
  "\<exists>e. computeAdaptativeCodebookVector (replicate 154 100 @ replicate 80 0) 154 1 19 = Some e
    \<and> s16_arr 234 e \<and> e ! 153 = 100"
proof -
  have "s16_arr 234 (replicate 154 100 @ replicate 80 0)"
    using arr_append [of is_s16 154 "replicate 154 100" 80 "replicate 80 0"]
    by (simp add: is_s16_def [of 100])
  then show ?thesis
    using adaptive_vector_correct [of "replicate 154 100 @ replicate 80 0" 19 1 154]
    by (auto simp: pitch_valid_def nth_append)
qed

lemma decodePitchDelay_ok:
  assumes "19 \<le> previousIntPitchDelay ctx" "previousIntPitchDelay ctx \<le> 144"
    "erased = 0 \<Longrightarrow> 0 \<le> idx" "erased = 0 \<Longrightarrow> idx \<le> (if sub = 0 then 255 else 31)"
    "sub \<noteq> 0 \<Longrightarrow> 19 \<le> t0 \<and> t0 \<le> 144"
    "decodePitchDelay ctx sub idx parity erased t0 = (ctx', t, frac)"
  shows "pitch_valid t frac \<and> (\<exists>p. ctx' = ctx\<lparr>previousIntPitchDelay := p\<rparr> \<and> 19 \<le> p \<and> p \<le> 144)"
proof -
  let ?goal = "pitch_valid t frac \<and> (\<exists>p. ctx' = ctx\<lparr>previousIntPitchDelay := p\<rparr> \<and> 19 \<le> p \<and> p \<le> 144)"
  have r: ?goal if h: "pitch_repeat ctx = (ctx', t, frac)"
  proof -
    define q where "q = previousIntPitchDelay ctx"
    have q: "19 \<le> q" "q \<le> 144" using assms(1,2) by (simp_all add: q_def)
    then have u: "u16 (q + 1) = q + 1" "s16 q = q" by (simp_all add: u16_idI s16_idI)
    have "ctx' = ctx\<lparr>previousIntPitchDelay := if q + 1 > 143 then 143 else q + 1\<rparr>" "t = q" "frac = 0"
      using h u by (auto simp: pitch_repeat_def Let_def q_def [symmetric] MAXIMUM_INT_PITCH_DELAY_def)
    then show ?thesis using q by (intro conjI exI [of _ "if q + 1 > 143 then 143 else q + 1"])
      (simp_all add: pitch_valid_def)
  qed
  have n: ?goal if "pitch_valid t frac" "ctx' = ctx\<lparr>previousIntPitchDelay := u16 t\<rparr>"
    using that by (intro conjI exI [of _ "u16 t"]) (simp_all add: pitch_valid_def u16_idI)
  show ?thesis
  proof (cases "sub = 0")
    case True
    show ?thesis
    proof (cases "parity OR erased \<noteq> 0")
      case False
      obtain a b where ab: "pitch_P1 idx = (a, b)" by fastforce
      then have e: "t = a" "frac = b" "ctx' = ctx\<lparr>previousIntPitchDelay := u16 t\<rparr>"
        using assms(6) unfolding decodePitchDelay_def if_P [OF True] if_not_P [OF False] ab by auto
      have z: "erased = 0" using False by (simp add: or_eq_0_iff)
      have "pitch_valid t frac" using pitch_P1_valid(1) [OF assms(3) [OF z] _ ab] assms(4) [OF z] True e(1,2) by simp
      then show ?thesis using e(3) by (rule n)
    next
      case err: True
      show ?thesis
        using assms(6) unfolding decodePitchDelay_def if_P [OF True] if_P [OF err] by (rule r)
    qed
  next
    case False
    show ?thesis
    proof (cases "erased \<noteq> 0")
      case no: False
      obtain a b where ab: "pitch_P2 t0 idx = (a, b)" by fastforce
      then have e: "t = a" "frac = b" "ctx' = ctx\<lparr>previousIntPitchDelay := u16 t\<rparr>"
        using assms(6) unfolding decodePitchDelay_def if_not_P [OF False] if_not_P [OF no] ab by auto
      have z: "erased = 0" using no by simp
      have "pitch_valid t frac"
        using pitch_P2_valid [OF assms(3) [OF z] _ _ _ ab] assms(4) [OF z] assms(5) False e(1,2) by simp
      then show ?thesis using e(3) by (rule n)
    next
      case err: True
      show ?thesis
        using assms(6) unfolding decodePitchDelay_def if_not_P [OF False] if_P [OF err] by (rule r)
    qed
  qed
qed

lemma decodeAdaptativeCodeVector_ok:
  assumes "s16_arr 234 (excitationVector ctx)"
    "19 \<le> previousIntPitchDelay ctx" "previousIntPitchDelay ctx \<le> 144"
    "erased = 0 \<Longrightarrow> 0 \<le> idx" "erased = 0 \<Longrightarrow> idx \<le> (if sub = 0 then 255 else 31)"
    "sub \<noteq> 0 \<Longrightarrow> 19 \<le> t0 \<and> t0 \<le> 144"
    "154 \<le> base" "base \<le> 194"
  shows "\<exists>e p t. decodeAdaptativeCodeVector ctx sub idx parity erased t0 base
      = Some (ctx\<lparr>previousIntPitchDelay := p, excitationVector := e\<rparr>, t)
    \<and> s16_arr 234 e \<and> 19 \<le> p \<and> p \<le> 144 \<and> 19 \<le> t \<and> t \<le> 144"
proof -
  obtain ctx' t frac where d: "decodePitchDelay ctx sub idx parity erased t0 = (ctx', t, frac)"
    using prod_cases3 by blast
  from decodePitchDelay_ok [OF assms(2-6) this]
  obtain p where p: "pitch_valid t frac" "ctx' = ctx\<lparr>previousIntPitchDelay := p\<rparr>" "19 \<le> p" "p \<le> 144"
    by blast
  define b where "b = nat base"
  have b: "base = int b" "154 \<le> b" "b \<le> 194" using assms(7,8) by (simp_all add: b_def nat_le_iff)
  obtain e where "computeAdaptativeCodebookVector (excitationVector ctx) base frac t = Some e"
    "s16_arr 234 e"
    using computeAdaptativeCodebookVector_spec [OF assms(1) p(1) b(2,3)] b(1)
    by (auto simp: adaptive_result_def)
  then show ?thesis
    using d p by (intro exI [of _ e] exI [of _ p] exI [of _ t])
      (simp add: decodeAdaptativeCodeVector_def pitch_valid_def)
qed

section \<open>The fixed code vector\<close>

text \<open>Four signed unit pulses on four interleaved tracks.\<close>

definition pulse_sign :: "int \<Rightarrow> nat \<Rightarrow> int" where
  "pulse_sign signs k = (if shr signs k mod 2 \<noteq> 0 then 8192 else -8192)"

definition pulses :: "int \<Rightarrow> int \<Rightarrow> int list" where
  "pulses signs positions = (let p = pulse_positions positions in
     (replicate 40 0)[nat (p ! 0) := pulse_sign signs 0, nat (p ! 1) := pulse_sign signs 1,
       nat (p ! 2) := pulse_sign signs 2, nat (p ! 3) := pulse_sign signs 3])"

lemma pulse_positions_tracks:
  "\<exists>a b c d j. pulse_positions positions = [5 * a, 5 * b + 1, 5 * c + 2, 5 * d + 3 + j]
    \<and> 0 \<le> a \<and> a < 8 \<and> 0 \<le> b \<and> b < 8 \<and> 0 \<le> c \<and> c < 8 \<and> 0 \<le> d \<and> d < 8 \<and> (j = 0 \<or> j = 1)"
proof -
  let ?p1 = "SHR positions 3" let ?p2 = "SHR ?p1 3" let ?p3 = "SHR ?p2 3"
  have "pulse_positions positions = [5 * (positions mod 8), 5 * (?p1 mod 8) + 1, 5 * (?p2 mod 8) + 2,
      5 * (SHR ?p3 1 mod 8) + 3 + ?p3 mod 2]"
    by (simp add: pulse_positions_def Let_def)
  moreover have "?p3 mod 2 = 0 \<or> ?p3 mod 2 = 1" by presburger
  ultimately show ?thesis by (metis pos_mod_bound pos_mod_sign zero_less_numeral)
qed

lemma pulse_positions_range:
  assumes "i < 4"
  shows "0 \<le> pulse_positions positions ! i \<and> pulse_positions positions ! i < 40"
proof -
  obtain a b c d j where "pulse_positions positions = [5 * a, 5 * b + 1, 5 * c + 2, 5 * d + 3 + j]"
    "0 \<le> a" "a < 8" "0 \<le> b" "b < 8" "0 \<le> c" "c < 8" "0 \<le> d" "d < 8" "j = 0 \<or> j = 1"
    using pulse_positions_tracks by blast
  then show ?thesis using assms by (auto simp: less_Suc_eq numeral_eq_Suc)
qed

lemma pulse_positions_distinct: "distinct (pulse_positions positions)"
proof -
  obtain a b c d j where "pulse_positions positions = [5 * a, 5 * b + 1, 5 * c + 2, 5 * d + 3 + j]"
    "0 \<le> a" "a < 8" "0 \<le> b" "b < 8" "0 \<le> c" "c < 8" "0 \<le> d" "d < 8" "j = 0 \<or> j = 1"
    using pulse_positions_tracks by blast
  moreover have "5 * a \<noteq> 5 * b + 1" "5 * a \<noteq> 5 * c + 2" "5 * b + 1 \<noteq> 5 * c + 2"
    "5 * a \<noteq> 5 * d + 3 + j" "5 * b + 1 \<noteq> 5 * d + 3 + j" "5 * c + 2 \<noteq> 5 * d + 3 + j"
    using \<open>j = 0 \<or> j = 1\<close> by presburger+
  ultimately show ?thesis by (simp only: distinct.simps list.set insert_iff empty_iff) blast
qed

lemma pulse_positions_length: "length (pulse_positions positions) = 4"
  by (simp add: pulse_positions_def Let_def)

lemma four_steps: "for_up 0 4 f s =
    Option.bind (f 0 s) (\<lambda>s. Option.bind (f 1 s) (\<lambda>s. Option.bind (f 2 s) (f 3)))"
proof -
  have l: "run_loop (i # is) f = (\<lambda>s. Option.bind (f i s) (run_loop is f))" for i "is"
    by (rule ext) simp
  have "map int [0..<4] = [0, 1, 2, 3]" by (simp add: upt_rec)
  moreover have "run_loop [] f = Some" by (rule ext) simp
  ultimately show ?thesis by (simp only: for_up_def l bind_runit)
qed

lemma shr_shr: "SHR (shr a m) n = shr a (m + n)"
  by (simp add: SHR_def shr_def power_add div_mult2_eq' zdiv_zmult2_eq)

lemma pulse_loop:
  "for_up 0 4 (\<lambda>i (v, signs). do {
        p \<leftarrow> get (pulse_positions positions) i;
        v \<leftarrow> put v p (if signs mod 2 \<noteq> 0 then 8192 else -8192);
        Some (v, SHR signs 1) }) (replicate 40 0, signs) = Some (pulses signs positions, shr signs 4)"
proof -
  let ?p = "pulse_positions positions"
  let ?f = "\<lambda>i (v, signs). do {
        p \<leftarrow> get ?p i;
        v \<leftarrow> put v p (if signs mod 2 \<noteq> 0 then 8192 else -8192);
        Some (v, SHR signs 1) }"
  have f: "?f (int k) (v, shr signs k) = Some (v[nat (?p ! k) := pulse_sign signs k], shr signs (Suc k))"
    if "k < 4" "length v = 40" for k and v :: "int list"
  proof -
    have "get ?p (int k) = Some (?p ! k)" using that by (simp add: pulse_positions_length)
    moreover have "put v (?p ! k) x = Some (v[nat (?p ! k) := x])" for x
      using pulse_positions_range [OF that(1), of positions] that(2) by simp
    moreover have "SHR (shr signs k) 1 = shr signs (Suc k)" using shr_shr [of signs k 1] by simp
    ultimately show ?thesis by (simp add: pulse_sign_def)
  qed
  have 0: "signs = shr signs 0" by (simp add: shr_def)
  have l: "length (replicate 40 (0::int)) = 40" "\<And>v i x. length (v[i := x]) = length v" by simp_all
  have f0: "?f 0 (v, shr signs 0) = Some (v[nat (?p ! 0) := pulse_sign signs 0], shr signs 1)"
    and f1: "?f 1 (v, shr signs 1) = Some (v[nat (?p ! 1) := pulse_sign signs 1], shr signs 2)"
    and f2: "?f 2 (v, shr signs 2) = Some (v[nat (?p ! 2) := pulse_sign signs 2], shr signs 3)"
    and f3: "?f 3 (v, shr signs 3) = Some (v[nat (?p ! 3) := pulse_sign signs 3], shr signs 4)"
    if "length v = 40" for v :: "int list"
    using f [of 0 v] f [of 1 v] f [of 2 v] f [of 3 v] that by (simp_all add: eval_nat_numeral)
  have "for_up 0 4 ?f (replicate 40 0, shr signs 0) = Some (pulses signs positions, shr signs 4)"
    unfolding four_steps pulses_def Let_def
    by (simp only: f0 f1 f2 f3 l length_list_update length_replicate Option.bind.simps)
  then show ?thesis using 0 by metis
qed

lemma zero_loop: "length v = 40 \<Longrightarrow> for_up 0 40 (\<lambda>i v. put v i 0) v = Some (replicate 40 (0::int))"
  using for_up_fill [of v 40 "\<lambda>_. Some 0" "\<lambda>_. 0"] by (simp add: map_replicate_const)

text \<open>The correction for short delays (eq. 48), in place: a cell reads the corrected value one
  delay before.\<close>

lemma fixed_correction:
  assumes "length c = 40" "0 < T"
  shows "\<exists>v. for_range T 40 (\<lambda>i v. do {
        a \<leftarrow> get v i;
        b \<leftarrow> get v (i - T);
        put v i (ADD16 a (MULT16_16_P14 b g)) }) c = Some v \<and> length v = 40
    \<and> (\<forall>k<40. v ! k = (if int k < T then c ! k else ADD16 (c ! k) (MULT16_16_P14 (v ! (k - nat T)) g)))"
proof (cases "T \<le> 40")
  case False
  then show ?thesis using assms by (simp add: for_range_def)
next
  case True
  let ?P = "\<lambda>i v. length v = 40
    \<and> (\<forall>k<40. v ! k = (if int k < T \<or> i \<le> int k then c ! k
                        else ADD16 (c ! k) (MULT16_16_P14 (v ! (k - nat T)) g)))"
  have "\<exists>v. for_range T 40 (\<lambda>i v. do {
        a \<leftarrow> get v i;
        b \<leftarrow> get v (i - T);
        put v i (ADD16 a (MULT16_16_P14 b g)) }) c = Some v \<and> ?P 40 v"
  proof (rule for_range_rule)
    show "?P T c" using assms by auto
  next
    fix i v assume i: "T \<le> i" "i < 40" and P: "?P i v"
    define n where "n = nat i"
    have n: "i = int n" "n < 40" "nat T \<le> n" "T \<le> int n" using i assms by (auto simp: n_def)
    have e: "nat (int n - T) = n - nat T" using assms n by (simp add: nat_diff_distrib)
    have "n - nat T < n" using n assms by simp
    let ?w = "v[n := ADD16 (c ! n) (MULT16_16_P14 (v ! (n - nat T)) g)]"
    have "?P (i + 1) ?w"
    proof (intro conjI allI impI)
      fix k :: nat assume k: "k < 40"
      consider "k < n" | "k = n" | "n < k" by linarith
      then show "?w ! k = (if int k < T \<or> i + 1 \<le> int k then c ! k
          else ADD16 (c ! k) (MULT16_16_P14 (?w ! (k - nat T)) g))"
      proof cases
        case 1
        then have "k - nat T \<noteq> n" by simp
        then show ?thesis using P k 1 n by auto
      next
        case 2
        then show ?thesis using n P \<open>n - nat T < n\<close> by simp
      qed (use P k n in auto)
    qed (use P in simp)
    moreover have "(do {
        a \<leftarrow> get v i;
        b \<leftarrow> get v (i - T);
        put v i (ADD16 a (MULT16_16_P14 b g)) }) = Some ?w"
      using P n assms by (simp add: e)
    ultimately show "\<exists>t. (do {
        a \<leftarrow> get v i;
        b \<leftarrow> get v (i - T);
        put v i (ADD16 a (MULT16_16_P14 b g)) }) = Some t \<and> ?P (i + 1) t" by blast
  qed (use True in simp)
  then show ?thesis by auto
qed

definition fixed_vector :: "int \<Rightarrow> int \<Rightarrow> int list \<Rightarrow> int list \<Rightarrow> bool" where
  "fixed_vector T g c v \<longleftrightarrow> length v = 40
    \<and> (\<forall>k<40. v ! k = (if int k < T then c ! k else ADD16 (c ! k) (MULT16_16_P14 (v ! (k - nat T)) g)))"

lemma decodeFixedCodeVector_spec:
  assumes "length out = 40" "0 < T"
  shows "\<exists>v. decodeFixedCodeVector signs positions T g out = Some v
    \<and> fixed_vector T g (pulses signs positions) v"
proof -
  have "length (pulses signs positions) = 40" by (simp add: pulses_def Let_def)
  from fixed_correction [OF this assms(2)] show ?thesis
    unfolding decodeFixedCodeVector_def L_SUBFRAME_def zero_loop [OF assms(1)] fixed_vector_def
    by (simp only: Option.bind.simps pulse_loop split_conv of_nat_numeral)
qed

lemma four_updates:
  assumes "a \<noteq> b" "a \<noteq> c" "a \<noteq> e" "b \<noteq> c" "b \<noteq> e" "c \<noteq> e"
    "a < length xs" "b < length xs" "c < length xs" "e < length xs"
  shows "xs[a := w, b := x, c := y, e := z] ! a = w" "xs[a := w, b := x, c := y, e := z] ! b = x"
    "xs[a := w, b := x, c := y, e := z] ! c = y" "xs[a := w, b := x, c := y, e := z] ! e = z"
  using assms by simp_all



section \<open>Energy of the fixed code vector\<close>

text \<open>The correction gain is below 0.8, so the vector stays small: the energy sum of the gain
  prediction fits 31 bits, and it is positive because the pulses do not vanish.\<close>

lemma gain_product_bound:
  assumes "0 \<le> g" "g \<le> 13107" "\<bar>b\<bar> \<le> 32767"
  shows "5 * \<bar>MULT16_16_P14 b g\<bar> \<le> 4 * \<bar>b\<bar> + 2"
proof -
  have bg: "\<bar>b * g\<bar> \<le> \<bar>b\<bar> * 13107" using assms by (simp add: abs_mult mult_left_mono)
  then have bb: "\<bar>b * g\<bar> \<le> 429500000" using assms(3) by linarith
  have "MULT16_16 b g = b * g"
    using bb assms by (intro MULT16_16_exact abs_is_s32) auto
  moreover have "ADD32 8192 (b * g) = 8192 + b * g"
    using bb by (intro ADD32_exact abs_is_s32) auto
  ultimately have m: "MULT16_16_P14 b g = (8192 + b * g) div 16384"
    by (simp add: MULT16_16_P_def SHR_def shr_def)
  show ?thesis unfolding m using bg by linarith
qed

definition L1norm :: "int list \<Rightarrow> nat \<Rightarrow> int" where
  "L1norm v n = (\<Sum>k<n. \<bar>v ! k\<bar>)"

lemma L1norm_simps [simp]: "L1norm v 0 = 0" "L1norm v (Suc n) = L1norm v n + \<bar>v ! n\<bar>"
  by (simp_all add: L1norm_def)

lemma L1norm_mono: "m \<le> n \<Longrightarrow> L1norm v m \<le> L1norm v n"
  by (induction n) (auto simp: le_Suc_eq)

definition small_pulses :: "int list \<Rightarrow> bool" where
  "small_pulses c \<longleftrightarrow> length c = 40 \<and> (\<forall>k<40. \<bar>c ! k\<bar> \<le> 8192) \<and> L1norm c 40 \<le> 32768
    \<and> (\<exists>k<40. c ! k \<noteq> 0)"

lemma correction_s16:
  fixes m b c :: int
  assumes "5 * \<bar>m\<bar> \<le> 4 * \<bar>b\<bar> + 2" "\<bar>b\<bar> \<le> 14746" "\<bar>c\<bar> \<le> 8192"
  shows "s16 c = c" "s16 m = m" "s16 (c + m) = c + m"
  using assms by (intro s16_idI; linarith)+

lemma correction_bound: "5 * \<bar>m\<bar> \<le> 4 * \<bar>b\<bar> + 2 \<Longrightarrow> 5 * \<bar>c + m\<bar> \<le> 5 * \<bar>c\<bar> + 4 * \<bar>b\<bar> + 2"
  for m b c :: int
proof -
  have *: "5 * M \<le> 4 * B + 2 \<Longrightarrow> X \<le> C + M \<Longrightarrow> 5 * X \<le> 5 * C + 4 * B + 2" for X C M B :: int
    by linarith
  show "5 * \<bar>m\<bar> \<le> 4 * \<bar>b\<bar> + 2 \<Longrightarrow> 5 * \<bar>c + m\<bar> \<le> 5 * \<bar>c\<bar> + 4 * \<bar>b\<bar> + 2"
    by (rule * [OF _ abs_triangle_ineq])
qed

lemma fixed_vector_cells:
  assumes "fixed_vector T g c v" "k < 40"
  shows "int k < T \<Longrightarrow> v ! k = c ! k"
    "T \<le> int k \<Longrightarrow> v ! k = ADD16 (c ! k) (MULT16_16_P14 (v ! (k - nat T)) g)"
proof -
  have "v ! k = (if int k < T then c ! k else ADD16 (c ! k) (MULT16_16_P14 (v ! (k - nat T)) g))"
    using assms unfolding fixed_vector_def by blast
  then show "int k < T \<Longrightarrow> v ! k = c ! k"
    "T \<le> int k \<Longrightarrow> v ! k = ADD16 (c ! k) (MULT16_16_P14 (v ! (k - nat T)) g)"
    by (simp_all only: if_True if_False linorder_not_less [symmetric] simp_thms)
qed

lemma fixed_vector_step:
  assumes v: "fixed_vector T g c v" and c: "small_pulses c" and g: "0 \<le> g" "g \<le> 13107"
    and k: "k < 40" "T \<le> int k" "0 < T" and b: "\<bar>v ! (k - nat T)\<bar> \<le> 14746"
  shows "v ! k = c ! k + MULT16_16_P14 (v ! (k - nat T)) g"
    "5 * \<bar>v ! k\<bar> \<le> 5 * \<bar>c ! k\<bar> + 4 * \<bar>v ! (k - nat T)\<bar> + 2"
proof -
  let ?m = "MULT16_16_P14 (v ! (k - nat T)) g"
  have m: "5 * \<bar>?m\<bar> \<le> 4 * \<bar>v ! (k - nat T)\<bar> + 2" by (rule gain_product_bound) (use g b in auto)
  have ck: "\<bar>c ! k\<bar> \<le> 8192" using c k by (simp add: small_pulses_def)
  have s: "s16 (c ! k) = c ! k" "s16 ?m = ?m" "s16 (c ! k + ?m) = c ! k + ?m"
    using correction_s16 [OF m b ck] .
  show e: "v ! k = c ! k + ?m"
    using fixed_vector_cells(2) [OF v k(1,2)] by (simp only: ADD16_def s)
  show "5 * \<bar>v ! k\<bar> \<le> 5 * \<bar>c ! k\<bar> + 4 * \<bar>v ! (k - nat T)\<bar> + 2"
    unfolding e by (rule correction_bound [OF m])
qed

lemma fixed_vector_max:
  assumes v: "fixed_vector T g c v" and c: "small_pulses c" and g: "0 \<le> g" "g \<le> 13107" and T: "19 \<le> T"
    and k: "k < 40"
  shows "\<bar>v ! k\<bar> \<le> 19989" "int k < 2 * T \<Longrightarrow> \<bar>v ! k\<bar> \<le> 14746"
proof -
  have 1: "\<bar>v ! i\<bar> \<le> 8192" if "i < 40" "int i < T" for i
    using fixed_vector_cells(1) [OF v that] c that by (simp add: small_pulses_def)
  have 2: "\<bar>v ! i\<bar> \<le> 14746" if i: "i < 40" "int i < 2 * T" for i
  proof (cases "int i < T")
    case False
    then have "\<bar>v ! (i - nat T)\<bar> \<le> 8192" using 1 [of "i - nat T"] i T by auto
    moreover have "\<bar>c ! i\<bar> \<le> 8192" using c i by (simp add: small_pulses_def)
    ultimately show ?thesis using fixed_vector_step(2) [OF v c g i(1)] False T by fastforce
  qed (use 1 [OF i(1)] in simp)
  show "int k < 2 * T \<Longrightarrow> \<bar>v ! k\<bar> \<le> 14746" using 2 k by blast
  show "\<bar>v ! k\<bar> \<le> 19989"
  proof (cases "int k < 2 * T")
    case False
    then have "\<bar>v ! (k - nat T)\<bar> \<le> 14746" using 2 [of "k - nat T"] k T by auto
    moreover have "\<bar>c ! k\<bar> \<le> 8192" using c k by (simp add: small_pulses_def)
    ultimately show ?thesis using fixed_vector_step(2) [OF v c g k] False T by fastforce
  qed (use 2 [OF k] in simp)
qed

lemma fixed_vector_L1_step:
  assumes v: "fixed_vector T g c v" and c: "small_pulses c" and g: "0 \<le> g" "g \<le> 13107" and T: "19 \<le> T"
    and n: "n \<le> 40"
  shows "5 * L1norm v n \<le> 5 * L1norm c n + 4 * L1norm v (n - nat T) + 2 * int n"
  using n
proof (induction n)
  case (Suc n)
  show ?case
  proof (cases "int n < T")
    case True
    then have "v ! n = c ! n" "Suc n - nat T = 0" "n - nat T = 0"
      using fixed_vector_cells(1) [OF v] Suc.prems by auto
    then show ?thesis using Suc by simp
  next
    case False
    then have d: "Suc n - nat T = Suc (n - nat T)" by simp
    have "\<bar>v ! (n - nat T)\<bar> \<le> 14746"
      by (rule fixed_vector_max(2) [OF v c g T]) (use Suc.prems T False in auto)
    then have "5 * \<bar>v ! n\<bar> \<le> 5 * \<bar>c ! n\<bar> + 4 * \<bar>v ! (n - nat T)\<bar> + 2"
      using fixed_vector_step(2) [OF v c g, of n] Suc.prems T False by auto
    then show ?thesis using Suc by (simp add: d)
  qed
qed simp

lemma fixed_vector_L1:
  assumes v: "fixed_vector T g c v" and c: "small_pulses c" and g: "0 \<le> g" "g \<le> 13107" and T: "19 \<le> T"
  shows "L1norm v 40 \<le> 79976"
proof -
  have S: "L1norm c n \<le> 32768" if "n \<le> 40" for n
    using L1norm_mono [OF that, of c] c by (simp add: small_pulses_def)
  have "L1norm v 2 = L1norm c 2"
    using fixed_vector_cells(1) [OF v, of 0] fixed_vector_cells(1) [OF v, of 1] T
    by (simp add: numeral_2_eq_2)
  then have a: "L1norm v n \<le> 32768" if "n \<le> 2" for n using L1norm_mono [OF that, of v] S [of 2] by simp
  have "21 - nat T \<le> 2" using T by linarith
  then have "L1norm v 21 \<le> 58990"
    using fixed_vector_L1_step [OF v c g T, of 21] S [of 21] a [of "21 - nat T"] by simp
  then have b: "L1norm v (40 - nat T) \<le> 58990"
    using L1norm_mono [of "40 - nat T" 21 v] T by linarith
  then show ?thesis using fixed_vector_L1_step [OF v c g T, of 40] S [of 40] by simp
qed

definition energy :: "int list \<Rightarrow> nat \<Rightarrow> int" where
  "energy v n = (\<Sum>k<n. v ! k * v ! k)"

lemma energy_le:
  assumes "\<And>k. k < n \<Longrightarrow> \<bar>v ! k\<bar> \<le> M"
  shows "energy v n \<le> M * L1norm v n"
  using assms
proof (induction n)
  case (Suc n)
  have "v ! n * v ! n = \<bar>v ! n\<bar> * \<bar>v ! n\<bar>" by (simp add: abs_mult_self_eq)
  also have "\<dots> \<le> M * \<bar>v ! n\<bar>" using Suc.prems [of n] by (intro mult_right_mono) auto
  finally show ?case using Suc by (simp add: energy_def distrib_left)
qed (simp add: energy_def)

lemma energy_nonneg: "0 \<le> energy v n"
  by (simp add: energy_def sum_nonneg)

lemma energy_mono: "m \<le> n \<Longrightarrow> energy v m \<le> energy v n"
  unfolding energy_def by (rule sum_mono2) auto

lemma energy_loop:
  assumes "length v = 40" "\<And>k. k < 40 \<Longrightarrow> is_s16 (v ! k)" "energy v 40 \<le> 2147483647"
  shows "for_up 0 40 (\<lambda>i s. do {
        x \<leftarrow> get v i;
        Some (if x \<noteq> 0 then MAC16_16 s x x else s) }) 0 = Some (energy v 40)"
proof -
  let ?f = "\<lambda>i s. do { x \<leftarrow> get v i; Some (if x \<noteq> 0 then MAC16_16 s x x else s) }"
  have "\<exists>s. for_up 0 40 ?f 0 = Some s \<and> s = energy v 40"
  proof (rule for_up_rule [where P = "\<lambda>n s. s = energy v n"])
    show "0 = energy v 0" by (simp add: energy_def)
  next
    fix n s assume n: "n < (40::nat)" and s: "s = energy v n"
    have e: "energy v (Suc n) = energy v n + v ! n * v ! n" by (simp add: energy_def)
    have le: "energy v (Suc n) \<le> 2147483647" using energy_mono [of "Suc n" 40 v] n assms(3) by simp
    have "0 \<le> v ! n * v ! n" by simp
    then have "is_s32 (energy v n)" "is_s32 (energy v n + v ! n * v ! n)" "is_s32 (v ! n * v ! n)"
      using le e energy_nonneg [of v n] unfolding is_s32_def by linarith+
    then have "MAC16_16 s (v ! n) (v ! n) = energy v (Suc n)"
      using assms(2) [OF n] by (simp add: s e MAC16_16_def MULT16_16_no_overflow ADD32_exact)
    then show "\<exists>t. ?f (int n) s = Some t \<and> t = energy v (Suc n)"
      using n assms(1) by (cases "v ! n = 0") (simp_all add: s e)
  qed simp
  then show ?thesis by simp
qed

lemma fixed_vector_energy:
  assumes v: "fixed_vector T g c v" and c: "small_pulses c" and g: "0 \<le> g" "g \<le> 13107" and T: "19 \<le> T"
  shows "0 < energy v 40" "energy v 40 < 2147483648" "s16_arr 40 v"
proof -
  have "energy v 40 \<le> 19989 * L1norm v 40"
    by (rule energy_le) (rule fixed_vector_max(1) [OF v c g T])
  then show "energy v 40 < 2147483648" using fixed_vector_L1 [OF v c g T] by simp
  have len: "length v = 40" using v by (simp add: fixed_vector_def)
  have "is_s16 (v ! k)" if "k < 40" for k
    using fixed_vector_max(1) [OF v c g T that] unfolding is_s16_def by linarith
  then show "s16_arr 40 v" using len by (simp add: arr_def list_all_length)
  obtain k where k: "k < 40" "c ! k \<noteq> 0" using c by (auto simp: small_pulses_def)
  have "\<exists>i<40. v ! i \<noteq> 0"
  proof (rule ccontr)
    assume "\<not> ?thesis"
    then have z: "\<forall>i<40. v ! i = 0" by blast
    have "MULT16_16_P14 0 g = 0" by (simp add: MULT16_16_P_def MULT16_16_def ADD32_def SHR_def shr_def s32_idI)
    have "v ! k = c ! k"
    proof (cases "int k < T")
      case False
      have "v ! (k - nat T) = 0" using z k(1) by simp
      then show ?thesis
        using fixed_vector_step(1) [OF v c g k(1)] False T \<open>MULT16_16_P14 0 g = 0\<close> by simp
    qed (rule fixed_vector_cells(1) [OF v k(1)])
    then show False using z k by simp
  qed
  then obtain i where i: "i < 40" "v ! i \<noteq> 0" by blast
  have "0 < v ! i * v ! i" using i(2) by (simp add: zero_less_mult_iff linorder_neq_iff disj_commute)
  also have "\<dots> \<le> energy v 40" unfolding energy_def using i(1) by (intro member_le_sum) auto
  finally show "0 < energy v 40" .
qed

lemma L1norm_sum_list: "L1norm v (length v) = sum_list (map abs v)"
  by (simp add: L1norm_def sum_list_sum_nth atLeast0LessThan)

lemma L1_update: "i < length v \<Longrightarrow> sum_list (map abs (v[i := x])) \<le> sum_list (map abs v) + \<bar>x :: int\<bar>"
  by (simp add: map_update sum_list_update_one)

lemma pulse_sign_abs: "\<bar>pulse_sign s k\<bar> = 8192"
  by (simp add: pulse_sign_def)

lemma pulses_small: "small_pulses (pulses signs positions)"
proof -
  let ?c = "pulses signs positions"
  define a where "a k = nat (pulse_positions positions ! k)" for k
  have a: "a k < 40" if "k < 4" for k
    using pulse_positions_range [OF that, of positions] unfolding a_def by linarith
  have c: "?c = (replicate 40 0)[a 0 := pulse_sign signs 0, a 1 := pulse_sign signs 1,
      a 2 := pulse_sign signs 2, a 3 := pulse_sign signs 3]"
    by (simp add: pulses_def Let_def a_def)
  have l: "length ?c = 40" by (simp add: c)
  have "set ?c \<subseteq> insert 0 (range (pulse_sign signs))"
    unfolding c by (intro order_trans [OF set_update_subset_insert] insert_subsetI; simp)+
  then have "\<forall>x\<in>set ?c. \<bar>x\<bar> \<le> 8192" using pulse_sign_abs by fastforce
  then have m: "\<forall>k<40. \<bar>?c ! k\<bar> \<le> 8192" using l by (metis nth_mem)
  have z: "sum_list (map abs (replicate 40 (0::int))) = 0" by (simp add: sum_list_replicate)
  have "sum_list (map abs ?c) \<le> 0 + 8192 + 8192 + 8192 + 8192"
    unfolding c using a z
    by (intro order_trans [OF L1_update] add_mono) (simp_all add: pulse_sign_abs)
  then have "L1norm ?c 40 \<le> 32768" using L1norm_sum_list [of ?c] l by simp
  moreover have "?c ! a 3 \<noteq> 0" using a [of 3] pulse_sign_abs [of signs 3] by (auto simp: c)
  ultimately show ?thesis using l m a [of 3] by (auto simp: small_pulses_def)
qed



section \<open>The gains\<close>

lemma decodeFixedCodeVector_ok:
  assumes "length out = 40" "19 \<le> T" "0 \<le> g" "g \<le> 13107"
  shows "\<exists>v. decodeFixedCodeVector signs positions T g out = Some v
    \<and> s16_arr 40 v \<and> 0 < energy v 40 \<and> energy v 40 < 2147483648"
proof -
  obtain v where v: "decodeFixedCodeVector signs positions T g out = Some v"
    "fixed_vector T g (pulses signs positions) v"
    using decodeFixedCodeVector_spec [OF assms(1), of T signs positions g] assms(2) by auto
  then show ?thesis using fixed_vector_energy [OF v(2) pulses_small assms(3,4,2)] by blast
qed

lemma MACodeGainPrediction_ok:
  assumes "s16_arr 4 pe" "s16_arr 40 v" "0 < energy v 40" "energy v 40 < 2147483648"
  shows "\<exists>g. MACodeGainPrediction pe v = Some g"
proof -
  have e: "for_up 0 40 (\<lambda>i s. do { x \<leftarrow> get v i; Some (if x \<noteq> 0 then MAC16_16 s x x else s) }) 0
      = Some (energy v 40)"
    using assms by (intro energy_loop) (auto intro: arr_length s16_nth)
  obtain lg where lg: "g729Log2_Q0Q16 (energy v 40) = Some lg"
    using g729Log2_total [OF assms(3,4)] by blast
  have "\<exists>acc. for_up 0 4 (\<lambda>i acc. do {
        e \<leftarrow> get pe i; m \<leftarrow> get MAPredictionCoefficients i;
        Some (MAC16_16 acc e m) }) (SHL (MAC16_32_Q13 8145364 (-24660) lg) 8) = Some acc \<and> True"
    by (rule for_up_inv) (use assms(1) MAPredictionCoefficients_arr in auto)
  then show ?thesis
    unfolding MACodeGainPrediction_def L_SUBFRAME_def e by (auto simp: lg Let_def)
qed

lemma push_error_ok:
  assumes "s16_arr 4 e" "is_s16 v"
  shows "\<exists>r. push_error e v = Some r \<and> s16_arr 4 r"
  using assms by (auto simp: push_error_def arr_length intro!: arr_update s16_nth)

lemma computeGainPredictionError_ok:
  assumes "0 < gamma" "gamma < 2147483648" "s16_arr 4 pe"
  shows "\<exists>r. computeGainPredictionError gamma pe = Some r \<and> s16_arr 4 r"
  using g729Log2_total [OF assms(1,2)] push_error_ok [OF assms(3)]
  by (auto simp: computeGainPredictionError_def Let_def)

lemma GA_positive: "list_all (\<lambda>r. 758 \<le> r ! 1) GACodebook"
  by (simp add: GACodebook_def)

lemma decodeGains_ok:
  assumes "s16_arr 4 (previousGainPredictionError ctx)" "s16_arr 40 v" "0 < energy v 40"
    "energy v 40 < 2147483648" "erased = 0 \<Longrightarrow> 0 \<le> GA" "erased = 0 \<Longrightarrow> GA < 8"
    "erased = 0 \<Longrightarrow> 0 \<le> GB" "erased = 0 \<Longrightarrow> GB < 16"
  shows "\<exists>a c pe. decodeGains ctx GA GB v erased = Some (ctx\<lparr>adaptativeCodebookGain := a,
      fixedCodebookGain := c, previousGainPredictionError := pe\<rparr>)
    \<and> is_s16 a \<and> is_s16 c \<and> s16_arr 4 pe"
proof (cases "erased = 0")
  case False
  have "\<exists>e. for_up 0 4 (\<lambda>i e. do {
        v \<leftarrow> get (previousGainPredictionError ctx) i;
        Some (ADD32 e v) }) 0 = Some e \<and> True"
    by (rule for_up_inv) (use assms(1) in auto)
  then obtain e where e: "for_up 0 4 (\<lambda>i e. do {
        v \<leftarrow> get (previousGainPredictionError ctx) i;
        Some (ADD32 e v) }) 0 = Some e" by blast
  obtain pe where pe: "push_error (previousGainPredictionError ctx)
      (s16 (if PSHR e 2 < -10240 then -14336 else SUB32 (PSHR e 2) 4096)) = Some pe" "s16_arr 4 pe"
    using push_error_ok [OF assms(1) is_s16_s16] by blast
  show ?thesis
    unfolding decodeGains_def if_P [OF False] decodeGains_erased_def Let_def e Option.bind.simps pe(1)
    using pe(2) by (intro exI conjI) (rule refl | simp add: is_s16_def [of 14746])+
next
  case True
  obtain ga where ga: "get reverseIndexMappingGA GA = Some ga" "0 \<le> ga" "ga < 8"
    using arr_get [OF reverseIndexMappingGA_arr, of GA] assms(5,6) [OF True] by auto
  obtain gb where gb: "get reverseIndexMappingGB GB = Some gb" "0 \<le> gb" "gb < 16"
    using arr_get [OF reverseIndexMappingGB_arr, of GB] assms(7,8) [OF True] by auto
  have cells: "get2 GACodebook ga k = Some (GACodebook ! nat ga ! nat k)"
    "get2 GBCodebook gb k = Some (GBCodebook ! nat gb ! nat k)" if "0 \<le> k" "k < 2" for k
    using that ga gb GACodebook_arr GBCodebook_arr by auto
  let ?gamma = "ADD16 (GACodebook ! nat ga ! 1) (GBCodebook ! nat gb ! 1)"
  have "758 \<le> GACodebook ! nat ga ! 1"
    using GA_positive ga GACodebook_arr by (auto simp: list_all_length arr2_def)
  moreover have "GACodebook ! nat ga ! 1 \<le> 13581" "0 \<le> GBCodebook ! nat gb ! 1" "GBCodebook ! nat gb ! 1 \<le> 18973"
    using arr2_nth [OF GACodebook_arr, of "nat ga" 1] arr2_nth [OF GBCodebook_arr, of "nat gb" 1] ga gb
    by auto
  ultimately have gamma: "0 < ?gamma" "?gamma < 2147483648"
    by (simp_all add: ADD16_def s16_idI)
  obtain p where p: "MACodeGainPrediction (previousGainPredictionError ctx) v = Some p"
    using MACodeGainPrediction_ok [OF assms(1-4)] by blast
  obtain pe where pe: "computeGainPredictionError ?gamma (previousGainPredictionError ctx) = Some pe"
    "s16_arr 4 pe"
    using computeGainPredictionError_ok [OF gamma assms(1)] by blast
  have c: "get2 GACodebook ga 0 = Some (GACodebook ! nat ga ! 0)"
    "get2 GBCodebook gb 0 = Some (GBCodebook ! nat gb ! 0)"
    "get2 GACodebook ga 1 = Some (GACodebook ! nat ga ! 1)"
    "get2 GBCodebook gb 1 = Some (GBCodebook ! nat gb ! 1)"
    using cells [of 0] cells [of 1] by simp_all
  have "\<not> erased \<noteq> 0" using True by simp
  then show ?thesis
    unfolding decodeGains_def if_not_P [OF \<open>\<not> erased \<noteq> 0\<close>] ga(1) gb(1) Option.bind.simps c p Let_def pe(1)
    using pe(2) by (intro exI conjI) (rule refl | simp)+
qed

end
