(* ===== verification/G729_PitchSearch.thy ===== *)
theory G729_PitchSearch
  imports G729_Context G729_Utils G729_Excitation
begin

text \<open>
  The pitch search of the encoder: the open loop delay of a frame
  (\<open>findOpenLoopPitchDelay.c\<close>), the closed loop search of a subframe with its code word and
  code vector (\<open>adaptativeCodebookSearch.c\<close>) and the gain of the code vector
  (\<open>computeAdaptativeCodebookGain.c\<close>). A pointer into a buffer is the buffer and an index.
\<close>


section \<open>Open loop search\<close>

definition getCorrelation :: "int list \<Rightarrow> int \<Rightarrow> int \<Rightarrow> int option" where
  "getCorrelation x base index = for_up 0 (L_FRAME div 2) (\<lambda>k correlation. do {
     u \<leftarrow> get x (base + 2 * k);
     v \<leftarrow> get x (base + (2 * k - index));
     Some (MAC16_16 correlation u v) }) 0"

text \<open>\<open>for (i = a; i <= b; i += step)\<close>\<close>

definition stepped :: "int \<Rightarrow> int \<Rightarrow> int \<Rightarrow> int list" where
  "stepped a b step = map (\<lambda>k. a + step * k) [0..(b - a) div step]"

definition getCorrelationMax :: "int \<Rightarrow> int list \<Rightarrow> int \<Rightarrow> int \<Rightarrow> int \<Rightarrow> int \<Rightarrow> (int \<times> int) option" where
  "getCorrelationMax index x base rangeOpen rangeClose step =
     run_loop (stepped rangeOpen rangeClose step) (\<lambda>i (correlationMax, index). do {
       correlation \<leftarrow> getCorrelation x base i;
       Some (if correlation > correlationMax then (correlation, u16 i) else (correlationMax, index)) })
     (MININT32, index)"

definition weighted_energy :: "int list \<Rightarrow> int \<Rightarrow> int option" where
  "weighted_energy x base = for_range (- int MAXIMUM_INT_PITCH_DELAY) (int L_FRAME) (\<lambda>i acc. do {
     v \<leftarrow> get x (base + i);
     Some (MAC64 acc v v) }) 0"

text \<open>The signal used by the search, and the index of its frame.\<close>

definition scale_signal :: "int list \<Rightarrow> int \<Rightarrow> (int list \<times> int) option" where
  "scale_signal x base = do {
     autocorrelation \<leftarrow> weighted_energy x base;
     if autocorrelation > MAXINT32 then do {
       z \<leftarrow> countLeadingZeros (s32 (shr autocorrelation 31));
       let overflowScale = PSHR (31 - z) 1;
       y \<leftarrow> for_range (- int MAXIMUM_INT_PITCH_DELAY) (int L_FRAME) (\<lambda>i y. do {
          v \<leftarrow> get x (base + i);
          put y (int MAXIMUM_INT_PITCH_DELAY + i) (s16 (SHR v (nat overflowScale))) })
          (replicate (MAXIMUM_INT_PITCH_DELAY + L_FRAME) 0);
       Some (y, int MAXIMUM_INT_PITCH_DELAY) }
     else Some (x, base) }"

text \<open>The maximum of the third range: even delays first, then their neighbours.\<close>

definition third_range :: "int list \<Rightarrow> int \<Rightarrow> (int \<times> int) option" where
  "third_range x base = do {
     (max3, even) \<leftarrow> getCorrelationMax 0 x base 80 143 2;
     (max3, index3) \<leftarrow> (if even > 80 then do {
         c \<leftarrow> getCorrelation x base (u16 (even - 1));
         Some (if c > max3 then (c, u16 (even - 1)) else (max3, even)) }
       else Some (max3, even));
     c \<leftarrow> getCorrelation x base (u16 (index3 + 1));
     Some (if c > max3 then (c, u16 (even + 1)) else (max3, index3)) }"

definition normalised_correlation :: "int list \<Rightarrow> int \<Rightarrow> int \<Rightarrow> int \<Rightarrow> int option" where
  "normalised_correlation x base correlationMax index = do {
     e \<leftarrow> getCorrelation x (base - index) 0;
     r \<leftarrow> g729InvSqrt_Q0Q31 (if e = 0 then 1 else e);
     Some (MULT32_32_Q23 correlationMax r) }"

text \<open>Delays in a lower range are favoured when a higher one is close to a multiple of them.\<close>

definition favour_lower :: "int \<times> int \<Rightarrow> int \<times> int \<Rightarrow> int \<times> int \<Rightarrow> int" where
  "favour_lower = (\<lambda>(n1, i1) (n2, i2) (n3, i3). (
     let m = u16 (SHL i2 1);
         n2 = (if \<bar>m - i3\<bar> < 5 then ADD32 n2 (SHR n3 2) else n2);
         n2 = (if \<bar>m + i2 - i3\<bar> < 7 then ADD32 n2 (SHR n3 2) else n2);
         m = u16 (SHL i1 1);
         n1 = (if \<bar>m - i2\<bar> < 5 then MAC16_32_P15 n1 O2_IN_Q15 n2 else n1);
         n1 = (if \<bar>m + i1 - i2\<bar> < 7 then MAC16_32_P15 n1 O2_IN_Q15 n2 else n1);
         (n1, i1) = (if n1 < n2 then (n2, i2) else (n1, i1))
     in if n1 < n3 then i3 else i1))"

definition findOpenLoopPitchDelay :: "int list \<Rightarrow> int \<Rightarrow> int option" where
  "findOpenLoopPitchDelay weightedInputSignal base = do {
     (x, b) \<leftarrow> scale_signal weightedInputSignal base;
     (max1, i1) \<leftarrow> getCorrelationMax 0 x b 20 39 1;
     (max2, i2) \<leftarrow> getCorrelationMax 0 x b 40 79 1;
     (max3, i3) \<leftarrow> third_range x b;
     n1 \<leftarrow> normalised_correlation x b max1 i1;
     n2 \<leftarrow> normalised_correlation x b max2 i2;
     n3 \<leftarrow> normalised_correlation x b max3 i3;
     Some (favour_lower (n1, i1) (n2, i2) (n3, i3)) }"

section \<open>Closed loop search\<close>

definition generateAdaptativeCodebookVector :: "int list \<Rightarrow> int \<Rightarrow> int \<Rightarrow> int \<Rightarrow> int list option" where
  "generateAdaptativeCodebookVector exc base intPitchDelay fracPitchDelay = (
     let fracPitchDelay = s16 (- fracPitchDelay);
         (intPitchDelay, fracPitchDelay) =
           (if fracPitchDelay < 0 then (s16 (intPitchDelay + 1), 2) else (intPitchDelay, fracPitchDelay));
         delayed = base - intPitchDelay
     in for_up 0 L_SUBFRAME (\<lambda>n exc. do {
          acc \<leftarrow> for_up 0 10 (\<lambda>i acc. do {
            u \<leftarrow> get exc (delayed + n - i);
            b \<leftarrow> get b30 (fracPitchDelay + 3 * i);
            let acc = MAC16_16 acc u b;
            u' \<leftarrow> get exc (delayed + (n + 1) + i);
            b' \<leftarrow> get b30 (3 - fracPitchDelay + 3 * i);
            Some (MAC16_16 acc u' b') }) 0;
          put exc (base + n) (SATURATE (PSHR acc 15) MAXINT16) }) exc)"

text \<open>The correlation of the vector found so far with the backward filtered target.\<close>

definition vector_correlation :: "int list \<Rightarrow> int \<Rightarrow> int list \<Rightarrow> int option" where
  "vector_correlation exc base target = for_up 0 L_SUBFRAME (\<lambda>j correlation. do {
     e \<leftarrow> get exc (base + j);
     t \<leftarrow> get target j;
     Some (MAC16_32_Q12 correlation e t) }) 0"

definition best_int_delay :: "int list \<Rightarrow> int \<Rightarrow> int list \<Rightarrow> int \<Rightarrow> int \<Rightarrow> int \<Rightarrow> int option" where
  "best_int_delay exc base target delayMin delayMax intPitchDelay = do {
     (_, intPitchDelay) \<leftarrow> for_range delayMin (delayMax + 1) (\<lambda>i (correlationMax, delay). do {
        correlation \<leftarrow> vector_correlation exc (base - i) target;
        Some (if correlation > correlationMax then (correlation, s16 i) else (correlationMax, delay)) })
       (MININT32, intPitchDelay);
     Some intPitchDelay }"

text \<open>The fractional part: 0, then -1, then 1 when they correlate better.\<close>

definition best_fraction :: "int list \<Rightarrow> int \<Rightarrow> int list \<Rightarrow> int \<Rightarrow> (int list \<times> int) option" where
  "best_fraction exc base target intPitchDelay = do {
     correlationMax \<leftarrow> vector_correlation exc base target;
     backup \<leftarrow> copy_block (replicate L_SUBFRAME 0) 0 exc (nat base) L_SUBFRAME;
     exc \<leftarrow> generateAdaptativeCodebookVector exc base intPitchDelay (-1);
     correlation \<leftarrow> vector_correlation exc base target;
     (frac, correlationMax, backup) \<leftarrow> (if correlation > correlationMax then do {
          backup \<leftarrow> copy_block backup 0 exc (nat base) L_SUBFRAME;
          Some (-1, correlation, backup) }
        else Some (0, correlationMax, backup));
     exc \<leftarrow> generateAdaptativeCodebookVector exc base intPitchDelay 1;
     correlation \<leftarrow> vector_correlation exc base target;
     if correlation > correlationMax then Some (exc, 1)
     else do {
       exc \<leftarrow> copy_block exc (nat base) backup 0 L_SUBFRAME;
       Some (exc, frac) } }"

text \<open>The bounds of the second subframe's search and the code word of the delay.\<close>

definition second_subframe_range :: "int \<Rightarrow> int \<times> int" where
  "second_subframe_range intPitchDelay = (
     let delayMin = s16 (intPitchDelay - 5);
         delayMin = (if delayMin < 20 then 20 else delayMin);
         delayMax = s16 (delayMin + 9)
     in if delayMax > int MAXIMUM_INT_PITCH_DELAY
        then (int MAXIMUM_INT_PITCH_DELAY - 9, int MAXIMUM_INT_PITCH_DELAY)
        else (delayMin, delayMax))"

definition codeword_P1 :: "int \<Rightarrow> int \<Rightarrow> int" where
  "codeword_P1 intPitchDelay fracPitchDelay =
    (if intPitchDelay \<le> 85 then u16 (3 * intPitchDelay - 58 + fracPitchDelay)
     else u16 (intPitchDelay + 112))"

definition codeword_P2 :: "int \<Rightarrow> int \<Rightarrow> int \<Rightarrow> int" where
  "codeword_P2 intPitchDelay delayMin fracPitchDelay =
     u16 (3 * (intPitchDelay - delayMin) + fracPitchDelay + 2)"

text \<open>The result: excitation, bounds, integer and fractional delay, code word. The parameter
  \<open>intPitchDelay\<close> is the content of the caller's variable, which the search may leave alone.\<close>

definition adaptativeCodebookSearch :: "int list \<Rightarrow> int \<Rightarrow> int \<Rightarrow> int \<Rightarrow> int list \<Rightarrow> int list \<Rightarrow> int \<Rightarrow> int \<Rightarrow>
    (int list \<times> int \<times> int \<times> int \<times> int \<times> int) option" where
  "adaptativeCodebookSearch exc base delayMin delayMax impulseResponse targetSignal intPitchDelay subFrameIndex = do {
     target \<leftarrow> correlateVectors targetSignal impulseResponse (replicate L_SUBFRAME 0);
     intPitchDelay \<leftarrow> best_int_delay exc base target delayMin delayMax intPitchDelay;
     exc \<leftarrow> generateAdaptativeCodebookVector exc base intPitchDelay 0;
     (exc, frac) \<leftarrow> (if \<not> (subFrameIndex = 0 \<and> intPitchDelay \<ge> 85)
        then best_fraction exc base target intPitchDelay else Some (exc, 0));
     Some (if subFrameIndex = 0
       then (let (delayMin, delayMax) = second_subframe_range intPitchDelay
             in (exc, delayMin, delayMax, intPitchDelay, frac, codeword_P1 intPitchDelay frac))
       else (exc, delayMin, delayMax, intPitchDelay, frac, codeword_P2 intPitchDelay delayMin frac)) }"

section \<open>Gain of the adaptive code vector\<close>

definition computeAdaptativeCodebookGain :: "int list \<Rightarrow> int list \<Rightarrow> (int \<times> int \<times> int) option" where
  "computeAdaptativeCodebookGain targetSignal filtered = do {
     (xy, yy) \<leftarrow> for_up 0 L_SUBFRAME (\<lambda>i (xy, yy). do {
        t \<leftarrow> get targetSignal i;
        f \<leftarrow> get filtered i;
        Some (MAC64 xy t f, MAC64 yy f f) }) (0, 0);
     Some (if xy \<le> 0 then (0, xy, yy)
       else let gain = s32 (DIV64 (SHL64 xy 14) yy);
                gain = (if gain > ONE_POINT_2_IN_Q14 then ONE_POINT_2_IN_Q14 else gain)
            in (s16 gain, xy, yy)) }"


section \<open>All accesses are in bounds\<close>

lemma getCorrelation_ok:
  assumes "s16_arr n x" "143 \<le> base" "base + 80 \<le> int n" "0 \<le> index" "index \<le> 143"
  shows "\<exists>c. getCorrelation x base index = Some c \<and> is_s32 c"
  unfolding getCorrelation_def L_FRAME_def
  by (rule for_up_inv) (use assms in \<open>auto simp: is_s32_def [of 0]\<close>)

lemma getCorrelation_back_ok:
  assumes "s16_arr n x" "143 \<le> base" "base + 80 \<le> int n" "0 \<le> index" "index \<le> 143"
  shows "\<exists>c. getCorrelation x (base - index) 0 = Some c \<and> is_s32 c"
  unfolding getCorrelation_def L_FRAME_def
  by (rule for_up_inv) (use assms in \<open>auto simp: is_s32_def [of 0]\<close>)

lemma stepped_range: "i \<in> set (stepped a b s) \<Longrightarrow> 0 < s \<Longrightarrow> a \<le> i \<and> i \<le> b"
proof -
  assume "i \<in> set (stepped a b s)" "0 < s"
  then obtain k where k: "i = a + s * k" "0 \<le> k" "k \<le> (b - a) div s" by (auto simp: stepped_def)
  have "s * k \<le> s * ((b - a) div s)" using k \<open>0 < s\<close> by simp
  also have "\<dots> \<le> b - a" using pos_mod_sign [OF \<open>0 < s\<close>, of "b - a"] mult_div_mod_eq [of s "b - a"] by linarith
  finally show ?thesis using k \<open>0 < s\<close> by simp
qed

lemma stepped_2: "i \<in> set (stepped 80 143 2) \<Longrightarrow> i \<le> 142"
  using stepped_range [of i 80 143 2] by (auto simp: stepped_def)

lemma getCorrelationMax_ok:
  assumes "s16_arr n x" "143 \<le> base" "base + 80 \<le> int n" "0 \<le> a" "0 < s"
    and S: "\<And>i. i \<in> set (stepped a b s) \<Longrightarrow> i \<le> c" and "0 \<le> c" "c \<le> 143"
  shows "\<exists>m i. getCorrelationMax 0 x base a b s = Some (m, i) \<and> 0 \<le> i \<and> i \<le> c"
proof -
  have "\<exists>t. run_loop (stepped a b s) (\<lambda>i (correlationMax, index). do {
       correlation \<leftarrow> getCorrelation x base i;
       Some (if correlation > correlationMax then (correlation, u16 i) else (correlationMax, index)) })
     (MININT32, 0) = Some t \<and> (0 \<le> snd t \<and> snd t \<le> c)"
  proof (rule run_loop_inv)
    fix i and t :: "int \<times> int"
    assume i: "i \<in> set (stepped a b s)" and t: "0 \<le> snd t \<and> snd t \<le> c"
    have r: "0 \<le> i" "i \<le> c" using stepped_range [OF i assms(5)] S [OF i] assms(4) by auto
    obtain v where "getCorrelation x base i = Some v"
      using getCorrelation_ok [OF assms(1-3), of i] r assms(8) by auto
    moreover have "u16 i = i" using r assms(8) by (simp add: u16_def)
    ultimately show "\<exists>u. (case t of (correlationMax, index) \<Rightarrow> do {
       correlation \<leftarrow> getCorrelation x base i;
       Some (if correlation > correlationMax then (correlation, u16 i) else (correlationMax, index)) })
      = Some u \<and> 0 \<le> snd u \<and> snd u \<le> c" using r t by (cases t) auto
  qed (use assms(7) in simp)
  then show ?thesis by (auto simp: getCorrelationMax_def)
qed

lemma weighted_energy_ok:
  assumes "s16_arr n x" "143 \<le> base" "base + 80 \<le> int n"
  shows "\<exists>e. weighted_energy x base = Some e \<and> 0 \<le> e \<and> e \<le> 223 * 1073741824"
proof -
  have "\<exists>t. for_range (-143) 80 (\<lambda>i acc. do { v \<leftarrow> get x (base + i); Some (MAC64 acc v v) }) 0 = Some t
    \<and> (0 \<le> t \<and> t \<le> (80 + 143) * 1073741824)"
  proof (rule for_range_rule [where P = "\<lambda>i t. 0 \<le> t \<and> t \<le> (i + 143) * 1073741824"])
    fix i t assume i: "-143 \<le> i" "i < (80::int)" and t: "0 \<le> t \<and> t \<le> (i + 143) * 1073741824"
    let ?v = "x ! nat (base + i)"
    have v: "is_s16 ?v" using assms i by (auto intro!: arr_nth [OF assms(1)])
    have sq: "0 \<le> ?v * ?v" "?v * ?v \<le> 1073741824"
      using mult_bounds [OF is_s16_abs is_s16_abs, OF v v] by auto
    have "is_s16 y \<Longrightarrow> s64 y = y" for y by (simp add: s64_def is_s16_def)
    moreover have "(i + 143) * 1073741824 \<le> 223 * 1073741824" using i by simp
    ultimately have "MAC64 t ?v ?v = t + ?v * ?v" using v sq t by (simp add: MAC64_def s64_def)
    then show "\<exists>u. (do { v \<leftarrow> get x (base + i); Some (MAC64 t v v) }) = Some u
        \<and> (0 \<le> u \<and> u \<le> (i + 1 + 143) * 1073741824)"
      using assms i sq t by (auto simp: algebra_simps)
  qed simp_all
  then show ?thesis by (simp add: weighted_energy_def MAXIMUM_INT_PITCH_DELAY_def L_FRAME_def)
qed

lemma scale_signal_ok:
  assumes "s16_arr n x" "143 \<le> base" "base + 80 \<le> int n"
  shows "\<exists>y b m. scale_signal x base = Some (y, b) \<and> s16_arr m y \<and> 143 \<le> b \<and> b + 80 \<le> int m"
proof -
  obtain e where e: "weighted_energy x base = Some e" "0 \<le> e" "e \<le> 223 * 1073741824"
    using weighted_energy_ok [OF assms] by blast
  show ?thesis
  proof (cases "e > MAXINT32")
    case True
    have "1 \<le> shr e 31" "shr e 31 \<le> 223" using True e(3) by (simp_all add: shr_def MAXINT32_def)
    then have "s32 (shr e 31) = shr e 31" "0 < shr e 31" "shr e 31 < 2147483648" by (simp_all add: s32_idI)
    then obtain m where m: "countLeadingZeros (s32 (shr e 31)) = Some (int m)"
      using countLeadingZeros_spec [of "shr e 31"] by auto
    have "\<exists>y. for_range (-143) 80 (\<lambda>i y. do { v \<leftarrow> get x (base + i);
        put y (143 + i) (s16 (SHR v k)) }) (replicate 223 0) = Some y \<and> s16_arr 223 y" for k
      by (rule for_range_inv) (use assms in \<open>auto intro!: arr_update\<close>)
    then obtain y where "for_range (-143) 80 (\<lambda>i y. do { v \<leftarrow> get x (base + i);
        put y (143 + i) (s16 (SHR v (nat (PSHR (31 - int m) 1)))) }) (replicate 223 0) = Some y" "s16_arr 223 y"
      by blast
    with e m True show ?thesis
      by (auto simp: scale_signal_def MAXIMUM_INT_PITCH_DELAY_def L_FRAME_def Let_def intro!: exI [of _ 223])
  qed (use e assms in \<open>auto simp: scale_signal_def\<close>)
qed

lemma third_range_ok:
  assumes "s16_arr n x" "143 \<le> base" "base + 80 \<le> int n"
  shows "\<exists>m i. third_range x base = Some (m, i) \<and> 0 \<le> i \<and> i \<le> 143"
proof -
  obtain m e where m: "getCorrelationMax 0 x base 80 143 2 = Some (m, e)" "0 \<le> e" "e \<le> 142"
    using getCorrelationMax_ok [OF assms, of 80 2 143 142] stepped_2 by auto
  have u: "u16 (e + 1) = e + 1" "e > 80 \<Longrightarrow> u16 (e - 1) = e - 1" "e > 80 \<Longrightarrow> u16 (e - 1 + 1) = e"
    using m by (simp_all add: u16_def)
  have g: "\<exists>c. getCorrelation x base i = Some c" if "0 \<le> i" "i \<le> 143" for i
    using getCorrelation_ok [OF assms that] by blast
  obtain c0 c1 c2 where c: "e > 80 \<Longrightarrow> getCorrelation x base (e - 1) = Some c0"
    "getCorrelation x base e = Some c1" "getCorrelation x base (e + 1) = Some c2"
    using g [of "e - 1"] g [of e] g [of "e + 1"] m by fastforce
  show ?thesis using m u c by (auto simp: third_range_def)
qed

lemma g729InvSqrt_always: "\<exists>y. g729InvSqrt_Q0Q31 x = Some y"
  using g729Sqrt_total [of "u32 x"] by (auto simp: g729InvSqrt_Q0Q31_def u32_def)

lemma normalised_correlation_ok:
  assumes "s16_arr n x" "143 \<le> base" "base + 80 \<le> int n" "0 \<le> i" "i \<le> 143"
  shows "\<exists>r. normalised_correlation x base m i = Some r"
proof -
  obtain e where "getCorrelation x (base - i) 0 = Some e" using getCorrelation_back_ok [OF assms] by blast
  moreover obtain r where "g729InvSqrt_Q0Q31 (if e = 0 then 1 else e) = Some r" using g729InvSqrt_always by blast
  ultimately show ?thesis by (simp add: normalised_correlation_def)
qed

lemma favour_lower_cases: "favour_lower (n1, i1) (n2, i2) (n3, i3) \<in> {i1, i2, i3}"
  by (simp add: favour_lower_def Let_def)

lemma findOpenLoopPitchDelay_ok:
  assumes "s16_arr n x" "143 \<le> base" "base + 80 \<le> int n"
  shows "\<exists>d. findOpenLoopPitchDelay x base = Some d \<and> 0 \<le> d \<and> d \<le> 143"
proof -
  obtain y b m where y: "scale_signal x base = Some (y, b)" "s16_arr m y" "143 \<le> b" "b + 80 \<le> int m"
    using scale_signal_ok [OF assms] by blast
  obtain m1 i1 where 1: "getCorrelationMax 0 y b 20 39 1 = Some (m1, i1)" "0 \<le> i1" "i1 \<le> 143"
    using getCorrelationMax_ok [OF y(2-4), of 20 1 39 143] stepped_range [of _ 20 39 1] by force
  obtain m2 i2 where 2: "getCorrelationMax 0 y b 40 79 1 = Some (m2, i2)" "0 \<le> i2" "i2 \<le> 143"
    using getCorrelationMax_ok [OF y(2-4), of 40 1 79 143] stepped_range [of _ 40 79 1] by force
  obtain m3 i3 where 3: "third_range y b = Some (m3, i3)" "0 \<le> i3" "i3 \<le> 143"
    using third_range_ok [OF y(2-4)] by blast
  obtain n1 n2 n3 where n: "normalised_correlation y b m1 i1 = Some n1"
    "normalised_correlation y b m2 i2 = Some n2" "normalised_correlation y b m3 i3 = Some n3"
    using normalised_correlation_ok [OF y(2-4)] 1 2 3 by metis
  have "favour_lower (n1, i1) (n2, i2) (n3, i3) \<in> {i1, i2, i3}" by (rule favour_lower_cases)
  then have "0 \<le> favour_lower (n1, i1) (n2, i2) (n3, i3) \<and> favour_lower (n1, i1) (n2, i2) (n3, i3) \<le> 143"
    using 1 2 3 by auto
  then show ?thesis using y(1) 1 2 3 n by (simp add: findOpenLoopPitchDelay_def)
qed

section \<open>The closed loop search\<close>

lemma generate_eq:
  assumes "19 \<le> t" "t \<le> 144" "frac \<in> {-1, 0, 1}"
  shows "generateAdaptativeCodebookVector exc base t frac = computeAdaptativeCodebookVector exc base frac t"
proof -
  have "s16 (- frac) = - frac" "s16 (t + 1) = t + 1" using assms by (auto intro!: s16_idI)
  then show ?thesis using assms(3)
    by (auto simp: generateAdaptativeCodebookVector_def computeAdaptativeCodebookVector_def Let_def)
qed

lemma generate_ok:
  assumes "s16_arr 234 exc" "20 \<le> t" "t \<le> 143" "frac \<in> {-1, 0, 1}" "base = 154 \<or> base = 194"
  shows "\<exists>e. generateAdaptativeCodebookVector exc base t frac = Some e \<and> s16_arr 234 e"
proof -
  have "pitch_valid t frac" using assms by (auto simp: pitch_valid_def)
  from computeAdaptativeCodebookVector_spec [OF assms(1) this, of "nat base"]
  show ?thesis using assms by (auto simp: generate_eq adaptive_result_def)
qed

lemma vector_correlation_ok:
  assumes "s16_arr n exc" "0 \<le> base" "base + 40 \<le> int n" "s32_arr 40 target"
  shows "\<exists>c. vector_correlation exc base target = Some c"
proof -
  have "\<exists>c. vector_correlation exc base target = Some c \<and> True"
    unfolding vector_correlation_def L_SUBFRAME_def by (rule for_up_inv) (use assms in auto)
  then show ?thesis by blast
qed

lemma best_int_delay_ok:
  assumes "s16_arr 234 exc" "base = 154 \<or> base = 194" "s32_arr 40 target"
    and "20 \<le> lo" "hi \<le> 143" "20 \<le> junk" "junk \<le> 143"
  shows "\<exists>t. best_int_delay exc base target lo hi junk = Some t \<and> 20 \<le> t \<and> t \<le> 143 \<and> (t = junk \<or> lo \<le> t \<and> t \<le> hi)"
proof -
  have "\<exists>t. for_range lo (hi + 1) (\<lambda>i (correlationMax, delay). do {
        correlation \<leftarrow> vector_correlation exc (base - i) target;
        Some (if correlation > correlationMax then (correlation, s16 i) else (correlationMax, delay)) })
       (MININT32, junk) = Some t \<and> (20 \<le> snd t \<and> snd t \<le> 143 \<and> (snd t = junk \<or> lo \<le> snd t \<and> snd t \<le> hi))"
  proof (rule for_range_inv)
    fix i and t :: "int \<times> int"
    assume i: "lo \<le> i" "i < hi + 1"
      and t: "20 \<le> snd t \<and> snd t \<le> 143 \<and> (snd t = junk \<or> lo \<le> snd t \<and> snd t \<le> hi)"
    obtain c where "vector_correlation exc (base - i) target = Some c"
      using vector_correlation_ok [OF assms(1) _ _ assms(3), of "base - i"] assms i by auto
    moreover have "s16 i = i" using assms i by (intro s16_idI) auto
    ultimately show "\<exists>u. (case t of (correlationMax, delay) \<Rightarrow> do {
        correlation \<leftarrow> vector_correlation exc (base - i) target;
        Some (if correlation > correlationMax then (correlation, s16 i) else (correlationMax, delay)) })
      = Some u \<and> (20 \<le> snd u \<and> snd u \<le> 143 \<and> (snd u = junk \<or> lo \<le> snd u \<and> snd u \<le> hi))"
      using assms i t by (cases t) auto
  qed (use assms in simp)
  then show ?thesis by (auto simp: best_int_delay_def)
qed

lemma best_fraction_ok:
  assumes "s16_arr 234 exc" "base = 154 \<or> base = 194" "s32_arr 40 target" "20 \<le> t" "t \<le> 143"
  shows "\<exists>e f. best_fraction exc base target t = Some (e, f) \<and> s16_arr 234 e \<and> f \<in> {-1, 0, 1}"
proof -
  have b: "nat base + 40 \<le> 234" "0 \<le> base" "base + 40 \<le> int 234" using assms(2) by auto
  obtain c0 where c0: "vector_correlation exc base target = Some c0"
    using vector_correlation_ok [OF assms(1) b(2,3) assms(3)] by blast
  obtain b0 where b0: "copy_block (replicate 40 0) 0 exc (nat base) 40 = Some b0" "s16_arr 40 b0"
    using copy_block_ok [of is_s16 40 "replicate 40 0" 234 exc "nat base" 40 0] assms(1) b by auto
  obtain e1 where e1: "generateAdaptativeCodebookVector exc base t (-1) = Some e1" "s16_arr 234 e1"
    using generate_ok [OF assms(1,4,5) _ assms(2), of "-1"] by auto
  obtain c1 where c1: "vector_correlation e1 base target = Some c1"
    using vector_correlation_ok [OF e1(2) b(2,3) assms(3)] by blast
  obtain b1 where b1: "copy_block b0 0 e1 (nat base) 40 = Some b1" "s16_arr 40 b1"
    using copy_block_ok [OF b0(2) e1(2), of "nat base" 40 0] b by auto
  obtain e2 where e2: "generateAdaptativeCodebookVector e1 base t 1 = Some e2" "s16_arr 234 e2"
    using generate_ok [OF e1(2) assms(4,5) _ assms(2), of 1] by auto
  obtain c2 where c2: "vector_correlation e2 base target = Some c2"
    using vector_correlation_ok [OF e2(2) b(2,3) assms(3)] by blast
  obtain e3 e4 where e3: "copy_block e2 (nat base) b0 0 40 = Some e3" "s16_arr 234 e3"
    "copy_block e2 (nat base) b1 0 40 = Some e4" "s16_arr 234 e4"
    using copy_block_ok [OF e2(2) b0(2), of 0 40 "nat base"] copy_block_ok [OF e2(2) b1(2), of 0 40 "nat base"] b
    by auto
  show ?thesis using c0 b0 e1 c1 b1 e2 c2 e3 by (auto simp: best_fraction_def L_SUBFRAME_def)
qed

lemma correlateVectors_ok:
  assumes "s16_arr m x" "40 \<le> m" "s16_arr n y" "40 \<le> n"
  shows "\<exists>c. correlateVectors x y (replicate 40 0) = Some c \<and> s32_arr 40 c"
  unfolding correlateVectors_def L_SUBFRAME_def
proof (rule for_up_inv [where P = "s32_arr 40"])
  fix i c assume i: "int 0 \<le> i" "i < int 40" and c: "s32_arr 40 c"
  have z: "s32_arr 40 (c[nat i := 0])" using c by (auto intro!: arr_update simp: is_s32_def)
  have "\<exists>t. for_up (nat i) 40 (\<lambda>j c. do { ci \<leftarrow> get c i; xj \<leftarrow> get x j; yj \<leftarrow> get y (j - i);
      put c i (MAC16_16 ci xj yj) }) (c[nat i := 0]) = Some t \<and> s32_arr 40 t"
    by (rule for_up_inv) (use assms i z in \<open>auto intro!: arr_update\<close>)
  then show "\<exists>t. (do { c0 \<leftarrow> put c i 0; for_up (nat i) 40 (\<lambda>j c. do { ci \<leftarrow> get c i; xj \<leftarrow> get x j;
      yj \<leftarrow> get y (j - i); put c i (MAC16_16 ci xj yj) }) c0 }) = Some t \<and> s32_arr 40 t"
    using c i by simp
qed (simp add: is_s32_def)

lemma second_subframe_range_ok:
  assumes "20 \<le> t" "t \<le> 143"
  shows "\<exists>lo hi. second_subframe_range t = (lo, hi) \<and> lo = clamp 20 134 (t - 5) \<and> hi = lo + 9"
  using assms by (auto simp: second_subframe_range_def MAXIMUM_INT_PITCH_DELAY_def clamp_def s16_idI Let_def)

lemma adaptativeCodebookSearch_ok:
  assumes exc: "s16_arr 234 exc" and base: "base = 154 \<or> base = 194"
    and lo: "20 \<le> lo" "hi \<le> 143" and h: "s16_arr m h" "40 \<le> m" and x: "s16_arr n x" "40 \<le> n"
    and junk: "20 \<le> junk" "junk \<le> 143"
  shows "\<exists>e lo' hi' t f c. adaptativeCodebookSearch exc base lo hi h x junk sub = Some (e, lo', hi', t, f, c)
    \<and> s16_arr 234 e \<and> 20 \<le> lo' \<and> hi' \<le> 143 \<and> 20 \<le> t \<and> t \<le> 143 \<and> f \<in> {-1, 0, 1}
    \<and> (sub = 0 \<longrightarrow> c = codeword_P1 t f \<and> (85 \<le> t \<longrightarrow> f = 0) \<and> lo' = clamp 20 134 (t - 5) \<and> hi' = lo' + 9)
    \<and> (sub \<noteq> 0 \<longrightarrow> c = codeword_P2 t lo f \<and> lo' = lo \<and> hi' = hi \<and> (t = junk \<or> lo \<le> t \<and> t \<le> hi))"
proof -
  obtain g where g: "correlateVectors x h (replicate 40 0) = Some g" "s32_arr 40 g"
    using correlateVectors_ok [OF x h] by blast
  obtain t where t: "best_int_delay exc base g lo hi junk = Some t" "20 \<le> t" "t \<le> 143"
    "t = junk \<or> lo \<le> t \<and> t \<le> hi"
    using best_int_delay_ok [OF exc base g(2) lo junk] by blast
  obtain e where e: "generateAdaptativeCodebookVector exc base t 0 = Some e" "s16_arr 234 e"
    using generate_ok [OF exc t(2,3) _ base, of 0] by auto
  obtain e' f where f: "best_fraction e base g t = Some (e', f)" "s16_arr 234 e'" "f \<in> {-1, 0, 1}"
    using best_fraction_ok [OF e(2) base g(2) t(2,3)] by blast
  obtain lo' hi' where r: "second_subframe_range t = (lo', hi')" "lo' = clamp 20 134 (t - 5)" "hi' = lo' + 9"
    using second_subframe_range_ok [OF t(2,3)] by blast
  have b: "20 \<le> lo'" "hi' \<le> 143" using r clamp_range [of 20 134 "t - 5"] by auto
  have "adaptativeCodebookSearch exc base lo hi h x junk sub = (if sub = 0
      then if 85 \<le> t then Some (e, lo', hi', t, 0, codeword_P1 t 0) else Some (e', lo', hi', t, f, codeword_P1 t f)
      else Some (e', lo, hi, t, f, codeword_P2 t lo f))"
    using g t(1) e f r(1) by (simp add: adaptativeCodebookSearch_def L_SUBFRAME_def)
  then show ?thesis using e(2) f(2,3) r b lo t(2-4) by (cases "sub = 0"; cases "85 \<le> t") auto
qed

section \<open>The code words of the delays\<close>

lemma thirds: "f \<in> {-1, 0, 1} \<Longrightarrow> (3 * k + f + 1) div 3 = k \<and> (3 * k + f + 1) mod 3 = f + 1" for k f :: int
  by (elim insertE emptyE; simp)

lemma pitch_P1_codeword:
  assumes "20 \<le> t" "t \<le> 143" "f \<in> {-1, 0, 1}" "85 \<le> t \<longrightarrow> f = 0"
  shows "0 \<le> codeword_P1 t f" "codeword_P1 t f \<le> 255" "pitch_P1 (codeword_P1 t f) = (t, f)"
proof -
  have f: "-1 \<le> f" "f \<le> 1" using assms(3) by auto
  consider "t < 85" | "85 \<le> t" by linarith
  then have "0 \<le> codeword_P1 t f \<and> codeword_P1 t f \<le> 255 \<and> pitch_P1 (codeword_P1 t f) = (t, f)"
  proof cases
    case 1
    then have i: "0 \<le> 3 * t - 58 + f" "3 * t - 58 + f < 197" using assms(1) f by linarith+
    then have c: "codeword_P1 t f = 3 * t - 58 + f" using 1 by (simp add: codeword_P1_def u16_idI)
    have "3 * t - 58 + f + 2 = 3 * (t - 19) + f + 1" by simp
    with pitch_P1_low [OF i] thirds [OF assms(3), of "t - 19"] i show ?thesis unfolding c by simp
  next
    case 2
    then have "codeword_P1 t f = t + 112" "f = 0" using assms by (auto simp: codeword_P1_def u16_idI)
    then show ?thesis using 2 pitch_P1_high [of "t + 112"] assms(2) by simp
  qed
  then show "0 \<le> codeword_P1 t f" "codeword_P1 t f \<le> 255" "pitch_P1 (codeword_P1 t f) = (t, f)" by blast+
qed

lemma pitch_P2_codeword:
  assumes "20 \<le> t0" "t0 \<le> 143" "lo = clamp 20 134 (t0 - 5)" "lo \<le> t" "t \<le> lo + 9" "f \<in> {-1, 0, 1}"
  shows "0 \<le> codeword_P2 t lo f" "codeword_P2 t lo f \<le> 31" "pitch_P2 t0 (codeword_P2 t lo f) = (t, f)"
proof -
  have c: "codeword_P2 t lo f = 3 * (t - lo) + f + 2" using assms(4-6) by (auto simp: codeword_P2_def u16_idI)
  have i: "0 \<le> 3 * (t - lo) + f + 2" "3 * (t - lo) + f + 2 \<le> 31" using assms(4-6) by auto
  then show "0 \<le> codeword_P2 t lo f" "codeword_P2 t lo f \<le> 31" unfolding c .
  have e: "3 * (t - lo) + f + 2 + 2 = 3 * (t - lo + 1) + f + 1" by simp
  have "(3 * (t - lo) + f + 2 + 2) div 3 = t - lo + 1" "(3 * (t - lo) + f + 2 + 2) mod 3 = f + 1"
    unfolding e using thirds [OF assms(6)] by blast+
  then show "pitch_P2 t0 (codeword_P2 t lo f) = (t, f)"
    unfolding c using pitch_P2_eq [OF i, of t0] assms(1-3) by simp
qed

text \<open>(C8) The delays of the closed loop search reach the decoder: the code word of the first
  subframe decodes to the integer and fractional delay found, and that of the second, relative
  to the first delay, as well. The variable of the second delay, which the C code does not
  initialise and the search leaves alone when every correlation is the least 32 bit integer, is
  taken to hold a delay of the search range.\<close>

theorem pitch_delays_round_trip:
  assumes "s16_arr 234 exc" "s16_arr 234 exc2" "s16_arr 40 h" "s16_arr 40 x" "s16_arr 40 h2" "s16_arr 40 x2"
    and "20 \<le> lo" "hi \<le> 143" "20 \<le> junk" "junk \<le> 143"
  shows "\<exists>e lo' hi' t f c. adaptativeCodebookSearch exc 154 lo hi h x junk 0 = Some (e, lo', hi', t, f, c)
    \<and> pitch_P1 c = (t, f)
    \<and> (\<forall>junk2. lo' \<le> junk2 \<and> junk2 \<le> hi' \<longrightarrow>
         (\<exists>e2 t2 f2 c2. adaptativeCodebookSearch exc2 194 lo' hi' h2 x2 junk2 1 = Some (e2, lo', hi', t2, f2, c2)
            \<and> pitch_P2 t c2 = (t2, f2)))"
proof -
  obtain e lo' hi' t f c where s: "adaptativeCodebookSearch exc 154 lo hi h x junk 0 = Some (e, lo', hi', t, f, c)"
    "20 \<le> lo'" "hi' \<le> 143" "20 \<le> t" "t \<le> 143" "f \<in> {-1, 0, 1}" "c = codeword_P1 t f" "85 \<le> t \<longrightarrow> f = 0"
    "lo' = clamp 20 134 (t - 5)" "hi' = lo' + 9"
    using adaptativeCodebookSearch_ok [OF assms(1) _ assms(7,8,3) _ assms(4) _ assms(9,10), of 154 0] by auto
  have "\<exists>e2 t2 f2 c2. adaptativeCodebookSearch exc2 194 lo' hi' h2 x2 j 1 = Some (e2, lo', hi', t2, f2, c2)
      \<and> pitch_P2 t c2 = (t2, f2)" if j: "lo' \<le> j" "j \<le> hi'" for j
  proof -
    obtain e2 t2 f2 where "adaptativeCodebookSearch exc2 194 lo' hi' h2 x2 j 1
        = Some (e2, lo', hi', t2, f2, codeword_P2 t2 lo' f2)" "f2 \<in> {-1, 0, 1}" "t2 = j \<or> lo' \<le> t2 \<and> t2 \<le> hi'"
      using adaptativeCodebookSearch_ok [OF assms(2) _ s(2,3) assms(5) _ assms(6), of 194 j 1] j s(2,3) by auto
    then show ?thesis using pitch_P2_codeword(3) [OF s(4,5,9), of t2 f2] j s(10) by auto
  qed
  then show ?thesis using s(1,7) pitch_P1_codeword(3) [OF s(4-6,8)] by blast
qed

theorem pitch_delays_round_trip_witness:
  "\<exists>e lo' hi' t f c. adaptativeCodebookSearch (replicate 234 1) 154 40 46 (replicate 40 1) (replicate 40 1) 50 0
      = Some (e, lo', hi', t, f, c) \<and> pitch_P1 c = (t, f)"
  using pitch_delays_round_trip [of "replicate 234 1" "replicate 234 1" "replicate 40 1" "replicate 40 1"
    "replicate 40 1" "replicate 40 1" 40 46 50] by (simp add: is_s16_def) blast

section \<open>The gain\<close>

lemma MAC64_exact:
  assumes "is_s16 u" "is_s16 v" "\<bar>c\<bar> \<le> 4611686018427387904"
  shows "MAC64 c u v = c + u * v"
proof -
  have p: "\<bar>u * v\<bar> \<le> 1073741824" using mult_bounds [OF is_s16_abs is_s16_abs, OF assms(1,2)] by auto
  have "s64 u = u" "s64 v = v" using assms(1,2) by (auto simp: is_s16_def intro!: s64_idI)
  moreover have "s64 (c + u * v) = c + u * v" "s64 (u * v) = u * v" "s64 c = c"
    using p assms(3) by (auto intro!: s64_idI)
  ultimately show ?thesis by (simp add: MAC64_def)
qed

lemma abs_le_square: "\<bar>f\<bar> \<le> f * (f::int)"
proof (cases "f = 0")
  case False
  then have "1 * \<bar>f\<bar> \<le> \<bar>f\<bar> * \<bar>f\<bar>" by (intro mult_right_mono) auto
  then show ?thesis by simp
qed simp

text \<open>A correlation is at most 32768 times the energy: the quotient fits on 32 bits.\<close>

lemma gain_products_ok:
  assumes "s16_arr m x" "40 \<le> m" "s16_arr n f" "40 \<le> n"
  shows "\<exists>xy yy. for_up 0 40 (\<lambda>i (xy, yy). do { t \<leftarrow> get x i; f \<leftarrow> get f i;
      Some (MAC64 xy t f, MAC64 yy f f) }) (0, 0) = Some (xy, yy)
    \<and> \<bar>xy\<bar> \<le> 42949672960 \<and> 0 \<le> yy \<and> yy \<le> 42949672960 \<and> \<bar>xy\<bar> \<le> 32768 * yy"
proof -
  have "\<exists>t. for_up 0 40 (\<lambda>i (xy, yy). do { t \<leftarrow> get x i; f \<leftarrow> get f i;
      Some (MAC64 xy t f, MAC64 yy f f) }) (0, 0) = Some t
    \<and> (\<bar>fst t\<bar> \<le> int 40 * 1073741824 \<and> 0 \<le> snd t \<and> snd t \<le> int 40 * 1073741824
       \<and> \<bar>fst t\<bar> \<le> 32768 * snd t)"
  proof (rule for_up_rule)
    fix i and t :: "int \<times> int"
    assume i: "0 \<le> i" "i < (40::nat)"
      and t: "\<bar>fst t\<bar> \<le> int i * 1073741824 \<and> 0 \<le> snd t \<and> snd t \<le> int i * 1073741824
        \<and> \<bar>fst t\<bar> \<le> 32768 * snd t"
    obtain xy yy where ts: "t = (xy, yy)" by (cases t)
    let ?u = "x ! i" and ?v = "f ! i"
    have uv: "is_s16 ?u" "is_s16 ?v" using assms i by (auto intro!: arr_nth [OF assms(1)] arr_nth [OF assms(3)])
    have p: "\<bar>?u * ?v\<bar> \<le> 1073741824" "0 \<le> ?v * ?v" "?v * ?v \<le> 1073741824"
      using mult_bounds [OF is_s16_abs is_s16_abs, OF uv] mult_bounds [OF is_s16_abs is_s16_abs, OF uv(2) uv(2)]
      by auto
    have "\<bar>?u\<bar> * \<bar>?v\<bar> \<le> 32768 * (?v * ?v)"
      using abs_le_square [of ?v] is_s16_abs [OF uv(1)] by (intro mult_mono) auto
    then have r: "\<bar>?u * ?v\<bar> \<le> 32768 * (?v * ?v)" by (simp add: abs_mult)
    have "int i * 1073741824 \<le> 40 * 1073741824" using i by simp
    then have m: "MAC64 xy ?u ?v = xy + ?u * ?v" "MAC64 yy ?v ?v = yy + ?v * ?v"
      using uv p t by (auto intro!: MAC64_exact simp: ts)
    have "int (Suc i) * 1073741824 = int i * 1073741824 + 1073741824" by (simp add: algebra_simps)
    then have "\<bar>xy + ?u * ?v\<bar> \<le> int (Suc i) * 1073741824" "0 \<le> yy + ?v * ?v"
        "yy + ?v * ?v \<le> int (Suc i) * 1073741824" "\<bar>xy + ?u * ?v\<bar> \<le> 32768 * (yy + ?v * ?v)"
      using t p r by (simp_all only: ts fst_conv snd_conv distrib_left) linarith+
    then show "\<exists>u. (case t of (xy, yy) \<Rightarrow> do { t \<leftarrow> get x (int i); f \<leftarrow> get f (int i);
        Some (MAC64 xy t f, MAC64 yy f f) }) = Some u
      \<and> (\<bar>fst u\<bar> \<le> int (Suc i) * 1073741824 \<and> 0 \<le> snd u \<and> snd u \<le> int (Suc i) * 1073741824
        \<and> \<bar>fst u\<bar> \<le> 32768 * snd u)"
      using assms i m by (simp add: ts)
  qed simp_all
  then show ?thesis by auto
qed

lemma computeAdaptativeCodebookGain_ok:
  assumes "s16_arr m x" "40 \<le> m" "s16_arr n f" "40 \<le> n"
  shows "\<exists>g xy yy. computeAdaptativeCodebookGain x f = Some (g, xy, yy) \<and> 0 \<le> g \<and> g \<le> 19661
    \<and> \<bar>xy\<bar> \<le> 42949672960 \<and> 0 \<le> yy \<and> yy \<le> 42949672960"
proof -
  obtain xy yy where l: "for_up 0 40 (\<lambda>i (xy, yy). do { t \<leftarrow> get x i; f \<leftarrow> get f i;
      Some (MAC64 xy t f, MAC64 yy f f) }) (0, 0) = Some (xy, yy)"
    "\<bar>xy\<bar> \<le> 42949672960" "0 \<le> yy" "yy \<le> 42949672960" "\<bar>xy\<bar> \<le> 32768 * yy"
    using gain_products_ok [OF assms] by blast
  show ?thesis
  proof (cases "xy \<le> 0")
    case True
    with l show ?thesis by (simp add: computeAdaptativeCodebookGain_def L_SUBFRAME_def)
  next
    case False
    then have y: "0 < yy" using l by auto
    have q: "(xy * 16384) div yy \<le> (536870912 * yy) div yy" using l False y by (intro zdiv_mono1) auto
    moreover have "0 \<le> (xy * 16384) div yy" using False y by (simp add: pos_imp_zdiv_nonneg_iff)
    moreover from this q y have "s64 (xy * 16384 div yy) = xy * 16384 div yy" by (intro s64_idI) auto
    moreover have "SHL64 xy 14 = xy * 16384" "DIV64 (xy * 16384) yy = s64 (xy * 16384 div yy)"
      using l False y by (simp_all add: SHL64_def s64_idI DIV64_def signed_divide_int_def)
    ultimately have "0 \<le> DIV64 (SHL64 xy 14) yy" "DIV64 (SHL64 xy 14) yy \<le> 536870912"
      using y q by simp_all
    with l False show ?thesis
      by (auto simp: computeAdaptativeCodebookGain_def L_SUBFRAME_def s32_idI s16_idI ONE_POINT_2_IN_Q14_def Let_def)
  qed
qed

end
