(* ===== verification/G729_FixedSearch.thy ===== *)
theory G729_FixedSearch
  imports G729_PitchSearch
begin

text \<open>
  The search of the four pulses (\<open>fixedCodebookSearch.c\<close>): the correlation of the target with
  the impulse response, the matrix \<open>Phi\<close> of correlations of the impulse response, the search
  over the tracks and the parameters and vectors of the pulses found. \<open>Phi\<close> is an uninitialised
  local array of the C function, not all of whose entries are computed: its first content is
  the parameter \<open>Phi0\<close>.
\<close>

unbundle bit_operations_syntax

section \<open>Correlation matrix\<close>

definition computePhiDiagonal :: "int \<Rightarrow> int list \<Rightarrow> int list list \<Rightarrow> int \<Rightarrow> int list list option" where
  "computePhiDiagonal j impulseResponse Phi PhiScaling = do {
     (Phi, _) \<leftarrow> for_up 0 (nat (j + 1)) (\<lambda>k (Phi, acc). do {
        u \<leftarrow> get impulseResponse k;
        v \<leftarrow> get impulseResponse (int L_SUBFRAME - 1 - j + k);
        let acc = MAC16_16 acc u v;
        Phi \<leftarrow> put2 Phi (int L_SUBFRAME - 1 - k) (j - k)
          (if PhiScaling = 0 then acc else SHR acc (nat PhiScaling));
        Some (Phi, acc) }) (Phi, 0);
     Some Phi }"

text \<open>The diagonal, and the scaling that keeps sums of ten entries on 32 bits.\<close>

definition Phi_diagonal :: "int list \<Rightarrow> int list list \<Rightarrow> (int list list \<times> int) option" where
  "Phi_diagonal impulseResponse Phi = do {
     (Phi, _) \<leftarrow> for_up 0 L_SUBFRAME (\<lambda>i (Phi, acc). do {
        h \<leftarrow> get impulseResponse i;
        let acc = MAC16_16 acc h h;
        Phi \<leftarrow> put2 Phi (int L_SUBFRAME - 1 - i) (int L_SUBFRAME - 1 - i) (SHR acc 1);
        Some (Phi, acc) }) (Phi, 0);
     p \<leftarrow> get2 Phi 0 0;
     if p > 0x6666666 then do {
       z \<leftarrow> countLeadingZeros (s32 (s32 (p * 2) + 0x3333333));
       let PhiScaling = u16 (3 - z);
       Phi \<leftarrow> for_up 0 L_SUBFRAME (\<lambda>i Phi. do {
          v \<leftarrow> get2 Phi i i;
          put2 Phi i i (SHR v (nat PhiScaling)) }) Phi;
       Some (Phi, PhiScaling) }
     else Some (Phi, 0) }"

text \<open>The index \<open>5*i+j\<close> for i below 8 and j below 4.\<close>

definition used_diagonals :: "int list" where
  "used_diagonals = concat (map (\<lambda>i. map (\<lambda>j. 5 * i + j) [0..3]) [0..7])"

text \<open>Absolute values and the two arrays of signs.\<close>

definition correlation_signs :: "int list \<Rightarrow> (int list \<times> int list \<times> int list) option" where
  "correlation_signs cs = for_up 0 L_SUBFRAME (\<lambda>i (cs, sign, inverted). do {
     c \<leftarrow> get cs i;
     if c \<ge> 0 then do {
       sign \<leftarrow> put sign i 1; inverted \<leftarrow> put inverted i (-1); Some (cs, sign, inverted) }
     else do {
       sign \<leftarrow> put sign i (-1); inverted \<leftarrow> put inverted i 1; cs \<leftarrow> put cs i (s16 (- c));
       Some (cs, sign, inverted) } }) (cs, replicate L_SUBFRAME 0, replicate L_SUBFRAME 0)"

definition apply_signs :: "int list \<Rightarrow> int list \<Rightarrow> int list list \<Rightarrow> int list list option" where
  "apply_signs sign inverted Phi = for_up 0 L_SUBFRAME (\<lambda>i Phi. do {
     s \<leftarrow> get sign i;
     let signJ = (if s > 0 then sign else inverted);
     for_up 0 (nat (i + 1)) (\<lambda>j Phi. do {
        v \<leftarrow> get2 Phi i j;
        sj \<leftarrow> get signJ j;
        put2 Phi i j (s32 (v * sj)) }) Phi }) Phi"

definition mirror :: "int \<Rightarrow> int list list \<Rightarrow> int list list option" where
  "mirror startIndex Phi = for_up 0 (nat (startIndex + 1)) (\<lambda>k Phi. do {
     v \<leftarrow> get2 Phi (int L_SUBFRAME - 1 - k) (startIndex - k);
     put2 Phi (startIndex - k) (int L_SUBFRAME - 1 - k) v }) Phi"

definition computeImpulseResponseCorrelationMatrix :: "int list \<Rightarrow> int list \<Rightarrow> int list list \<Rightarrow>
    (int list \<times> int list \<times> int list list) option" where
  "computeImpulseResponseCorrelationMatrix impulseResponse correlationSignal Phi = do {
     (Phi, PhiScaling) \<leftarrow> Phi_diagonal impulseResponse Phi;
     Phi \<leftarrow> run_loop used_diagonals
        (\<lambda>d Phi. computePhiDiagonal d impulseResponse Phi PhiScaling) Phi;
     (cs, sign, inverted) \<leftarrow> correlation_signs correlationSignal;
     Phi \<leftarrow> apply_signs sign inverted Phi;
     Phi \<leftarrow> run_loop used_diagonals mirror Phi;
     Some (cs, sign, Phi) }"

section \<open>Search over the tracks\<close>

definition track :: "int \<Rightarrow> int list" where
  "track m = stepped m (int L_SUBFRAME - 1) 5"

definition best_M2 :: "int list \<Rightarrow> int \<Rightarrow> int \<Rightarrow> (int \<times> int) option" where
  "best_M2 cs m firstM2 = run_loop (track m) (\<lambda>j (correlationM2, currentM2). do {
     c \<leftarrow> get cs j;
     Some (if c > correlationM2 \<and> j \<noteq> firstM2 then (c, j) else (correlationM2, currentM2)) }) (-1, 0)"

text \<open>\<open>C^2 / E\<close> is compared by cross products. The state: best square, its energy, its
  correlation, m3, m2.\<close>

definition try_m3 :: "int list \<Rightarrow> int list list \<Rightarrow> int \<Rightarrow> int \<Rightarrow> int \<Rightarrow>
    int \<times> int \<times> int \<times> int \<times> int \<Rightarrow> (int \<times> int \<times> int \<times> int \<times> int) option" where
  "try_m3 cs Phi correlationM2 currentM2 j = (\<lambda>(sq, energy, corr, m3, m2). do {
     c \<leftarrow> get cs j;
     let correlationM2M3 = ADD16 correlationM2 c;
     energyM2 \<leftarrow> get2 Phi currentM2 currentM2;
     p1 \<leftarrow> get2 Phi currentM2 j;
     p2 \<leftarrow> get2 Phi j j;
     let energyM2M3 = ADD32 energyM2 (ADD32 p1 p2);
     let square = MULT16_16 correlationM2M3 correlationM2M3;
     Some (if MULT32_32 energy square > MULT32_32 energyM2M3 sq
       then (square, energyM2M3, correlationM2M3, j, currentM2)
       else (sq, energy, corr, m3, m2)) })"

definition search_m2_m3 :: "int list \<Rightarrow> int list list \<Rightarrow> int \<Rightarrow> int \<Rightarrow> int \<Rightarrow> int \<Rightarrow>
    (int \<times> int \<times> int \<times> int \<times> int) option" where
  "search_m2_m3 cs Phi s0 s1 m3 m2 = do {
     (st, _) \<leftarrow> for_up 0 2 (\<lambda>_ (st, firstM2). do {
        (correlationM2, currentM2) \<leftarrow> best_M2 cs s0 firstM2;
        st \<leftarrow> run_loop (track s1) (try_m3 cs Phi correlationM2 currentM2) st;
        Some (st, currentM2) }) ((-1, 1, 0, m3, m2), 0);
     Some st }"

text \<open>The state: best square, its energy, m0, m1.\<close>

definition try_m1 :: "int list \<Rightarrow> int list list \<Rightarrow> int \<Rightarrow> int \<Rightarrow> int \<Rightarrow> int \<Rightarrow> int \<Rightarrow> int \<Rightarrow>
    int \<times> int \<times> int \<times> int \<Rightarrow> (int \<times> int \<times> int \<times> int) option" where
  "try_m1 cs Phi m2 m3 i correlationM2M3M0 energyM2M3M0 j = (\<lambda>(sq, energy, m0, m1). do {
     c \<leftarrow> get cs j;
     let correlation = ADD16 correlationM2M3M0 c;
     p0 \<leftarrow> get2 Phi j i;
     p1 \<leftarrow> get2 Phi j j;
     p2 \<leftarrow> get2 Phi j m2;
     p3 \<leftarrow> get2 Phi j m3;
     let e = ADD32 energyM2M3M0 (ADD32 p0 (ADD32 p1 (ADD32 p2 p3)));
     let square = MULT16_16 correlation correlation;
     Some (if MULT32_32 energy square > MULT32_32 e sq then (square, e, i, j)
           else (sq, energy, m0, m1)) })"

definition search_m0_m1 :: "int list \<Rightarrow> int list list \<Rightarrow> int \<Rightarrow> int \<Rightarrow> int \<Rightarrow> int \<Rightarrow> int \<Rightarrow> int \<Rightarrow> int \<Rightarrow> int \<Rightarrow>
    (int \<times> int \<times> int \<times> int) option" where
  "search_m0_m1 cs Phi s2 s3 m2 m3 corrMax energyMax m0 m1 =
     run_loop (track s2) (\<lambda>i st. do {
       c \<leftarrow> get cs i;
       let correlationM2M3M0 = ADD16 corrMax c;
       p0 \<leftarrow> get2 Phi i i;
       p2 \<leftarrow> get2 Phi i m2;
       p3 \<leftarrow> get2 Phi i m3;
       let energyM2M3M0 = ADD32 energyMax (ADD32 p0 (ADD32 p2 p3));
       run_loop (track s3) (try_m1 cs Phi m2 m3 i correlationM2M3M0 energyM2M3M0) st })
     (-1, 1, m0, m1)"

text \<open>The variables that live over the four runs of the search.\<close>

record pulse_search =
  ps_pulses :: "int \<times> int \<times> int \<times> int"
  ps_squareMax :: int
  ps_energyMax :: int
  ps_jx :: int
  ps_m :: "int \<times> int \<times> int \<times> int"
  ps_switch :: "int list list"

definition search_run :: "int list \<Rightarrow> int list list \<Rightarrow> int \<Rightarrow> int \<Rightarrow> pulse_search \<Rightarrow> pulse_search option" where
  "search_run cs Phi m3Base mIndex st = do {
     let (m0, m1, m2, m3) = ps_m st;
     s0 \<leftarrow> get2 (ps_switch st) mIndex 0;
     s1 \<leftarrow> get2 (ps_switch st) mIndex 1;
     s2 \<leftarrow> get2 (ps_switch st) mIndex 2;
     s3 \<leftarrow> get2 (ps_switch st) mIndex 3;
     (_, energyM2M3Max, correlationM2M3Max, m3, m2) \<leftarrow> search_m2_m3 cs Phi s0 s1 m3 m2;
     (square, energy, m0, m1) \<leftarrow>
        search_m0_m1 cs Phi s2 s3 m2 m3 correlationM2M3Max energyM2M3Max m0 m1;
     let st = st\<lparr>ps_m := (m0, m1, m2, m3)\<rparr>;
     Some (if MULT32_32 (ps_energyMax st) square > MULT32_32 energy (ps_squareMax st)
       then st\<lparr>ps_squareMax := square, ps_energyMax := energy,
               ps_pulses := (if mIndex = 0 then (m0, m1, m2, m3) else (m3, m0, m1, m2)),
               ps_jx := m3Base - 3\<rparr>
       else st) }"

definition search_start :: pulse_search where
  "search_start = \<lparr>ps_pulses = (0, 0, 0, 0), ps_squareMax = -1, ps_energyMax = 1, ps_jx = 0,
     ps_m = (0, 0, 0, 0), ps_switch = [[2, 3, 0, 1], [3, 0, 1, 2]]\<rparr>"

definition search_pulses :: "int list \<Rightarrow> int list list \<Rightarrow> pulse_search option" where
  "search_pulses cs Phi = for_up 3 5 (\<lambda>m3Base st. do {
     st \<leftarrow> for_up 0 2 (search_run cs Phi m3Base) st;
     a \<leftarrow> get2 (ps_switch st) 0 1;
     sw \<leftarrow> put2 (ps_switch st) 0 1 (a + 1);
     b \<leftarrow> get2 sw 1 0;
     sw \<leftarrow> put2 sw 1 0 (b + 1);
     Some (st\<lparr>ps_switch := sw\<rparr>) }) search_start"

section \<open>Target and correlation\<close>

definition fixed_target :: "int list \<Rightarrow> int list \<Rightarrow> int \<Rightarrow> int list option" where
  "fixed_target targetSignal filtered gain = for_up 0 L_SUBFRAME (\<lambda>i out. do {
     t \<leftarrow> get targetSignal i;
     f \<leftarrow> get filtered i;
     put out i (s16 (MSU16_16_Q14 t f gain)) }) (replicate L_SUBFRAME 0)"

text \<open>\<open>x[i] += gain * x[i - T]\<close> from T on: pitch prefilter of the response and of the vector.\<close>

definition pitch_prefilter :: "int \<Rightarrow> int \<Rightarrow> int list \<Rightarrow> int list option" where
  "pitch_prefilter intPitchDelay gain = for_range intPitchDelay (int L_SUBFRAME) (\<lambda>i x. do {
     v \<leftarrow> get x i;
     d \<leftarrow> get x (i - intPitchDelay);
     put x i (s16 (MAC16_16_Q14 v d gain)) })"

definition correlation32 :: "int list \<Rightarrow> int list \<Rightarrow> (int list \<times> int) option" where
  "correlation32 target impulseResponse = for_up 0 L_SUBFRAME (\<lambda>n (c, m). do {
     acc \<leftarrow> for_up (nat n) L_SUBFRAME (\<lambda>i acc. do {
        t \<leftarrow> get target i;
        h \<leftarrow> get impulseResponse (i - n);
        Some (MAC16_16 acc t h) }) 0;
     c \<leftarrow> put c n acc;
     let a = (if acc \<ge> 0 then acc else s32 (- acc));
     Some (c, if a > m then a else m) }) (replicate L_SUBFRAME 0, 0)"

definition correlation13 :: "int list \<Rightarrow> int \<Rightarrow> int list option" where
  "correlation13 c32 maxi = do {
     z \<leftarrow> countLeadingZeros maxi;
     let norm = u16 z;
     for_up 0 L_SUBFRAME (\<lambda>i c. do {
        v \<leftarrow> get c32 i;
        put c i (s16 (if norm < 18 then SHR v (nat (18 - norm)) else v)) }) (replicate L_SUBFRAME 0) }"

section \<open>Parameters and vectors\<close>

definition code_of_pulses :: "int \<times> int \<times> int \<times> int \<Rightarrow> int \<Rightarrow> int" where
  "code_of_pulses = (\<lambda>(i0, i1, i2, i3) jx. u16
     (MULT16_16_Q15 (s16 i0) O2_IN_Q15 + MULT16_16_Q15 (s16 i1) O2_IN_Q15 * 2 ^ 3
      + MULT16_16_Q15 (s16 i2) O2_IN_Q15 * 2 ^ 6
      + (MULT16_16_Q15 (s16 i3) O2_IN_Q15 * 2 + jx) * 2 ^ 9))"

definition code_of_signs :: "int \<Rightarrow> int \<Rightarrow> int \<Rightarrow> int \<Rightarrow> int" where
  "code_of_signs s0 s1 s2 s3 =
     u16 (shr (s0 + 1) 1) OR u16 (shr (s1 + 1) 1 * 2) OR u16 (shr (s2 + 1) 1 * 2 ^ 2)
       OR u16 (shr (s3 + 1) 1 * 2 ^ 3)"

definition four_pulses :: "int list \<Rightarrow> int \<times> int \<times> int \<times> int \<Rightarrow> int list option" where
  "four_pulses sign = (\<lambda>(i0, i1, i2, i3).
     run_loop [i0, i1, i2, i3] (\<lambda>i v. do { s \<leftarrow> get sign i; put v i (s16 (SHL (s16 s) 13)) })
       (replicate L_SUBFRAME 0))"

text \<open>The first pulse overwrites the vector, the others are added.\<close>

definition first_pulse :: "int list \<Rightarrow> int \<Rightarrow> int \<Rightarrow> int list \<Rightarrow> int list option" where
  "first_pulse impulseResponse sign i0 v = do {
     v \<leftarrow> for_up 0 (nat i0) (\<lambda>i v. put v i 0) v;
     for_range i0 (int L_SUBFRAME) (\<lambda>i v. do {
       h \<leftarrow> get impulseResponse (i - i0);
       put v i (if sign > 0 then h else s16 (- h)) }) v }"

definition add_pulse :: "int list \<Rightarrow> int \<Rightarrow> int \<Rightarrow> int list \<Rightarrow> int list option" where
  "add_pulse impulseResponse sign p v = for_range p (int L_SUBFRAME) (\<lambda>i v. do {
     x \<leftarrow> get v i;
     h \<leftarrow> get impulseResponse (i - p);
     put v i (if sign > 0 then ADD16 x h else s16 (SUB16 x h)) }) v"

definition convolved_pulses :: "int list \<Rightarrow> int list \<Rightarrow> int \<times> int \<times> int \<times> int \<Rightarrow> int list \<Rightarrow> int list option" where
  "convolved_pulses impulseResponse sign = (\<lambda>(i0, i1, i2, i3) v. do {
     s0 \<leftarrow> get sign i0;
     v \<leftarrow> first_pulse impulseResponse s0 i0 v;
     s1 \<leftarrow> get sign i1;
     v \<leftarrow> add_pulse impulseResponse s1 i1 v;
     s2 \<leftarrow> get sign i2;
     v \<leftarrow> add_pulse impulseResponse s2 i2 v;
     s3 \<leftarrow> get sign i3;
     add_pulse impulseResponse s3 i3 v })"

text \<open>Outputs: impulse response (prefiltered in place), parameter, signs, code vector, convolved
  vector.\<close>

definition fixedCodebookSearch :: "int list list \<Rightarrow> int list \<Rightarrow> int list \<Rightarrow> int \<Rightarrow> int \<Rightarrow> int list \<Rightarrow> int \<Rightarrow>
    int list \<Rightarrow> (int list \<times> int \<times> int \<times> int list \<times> int list) option" where
  "fixedCodebookSearch Phi0 targetSignal impulseResponse intPitchDelay lastGain filtered gain convolved = do {
     target \<leftarrow> fixed_target targetSignal filtered gain;
     impulseResponse \<leftarrow> pitch_prefilter intPitchDelay lastGain impulseResponse;
     (c32, maxi) \<leftarrow> correlation32 target impulseResponse;
     cs \<leftarrow> correlation13 c32 maxi;
     (cs, sign, Phi) \<leftarrow> computeImpulseResponseCorrelationMatrix impulseResponse cs Phi0;
     st \<leftarrow> search_pulses cs Phi;
     v \<leftarrow> four_pulses sign (ps_pulses st);
     v \<leftarrow> pitch_prefilter intPitchDelay lastGain v;
     let (i0, i1, i2, i3) = ps_pulses st;
     s0 \<leftarrow> get sign i0; s1 \<leftarrow> get sign i1; s2 \<leftarrow> get sign i2; s3 \<leftarrow> get sign i3;
     convolved \<leftarrow> convolved_pulses impulseResponse sign (ps_pulses st) convolved;
     Some (impulseResponse, code_of_pulses (ps_pulses st) (ps_jx st), code_of_signs s0 s1 s2 s3,
           v, convolved) }"


section \<open>All accesses are in bounds\<close>

lemma is_s32_SHR [simp]: "is_s32 a \<Longrightarrow> is_s32 (SHR a n)"
  unfolding SHR_def by (rule shr_shrinks)

lemma computePhiDiagonal_ok:
  assumes "s16_arr 40 h" "arr2 is_s32 40 40 Phi" "0 \<le> d" "d \<le> 38"
  shows "\<exists>P. computePhiDiagonal d h Phi sc = Some P \<and> arr2 is_s32 40 40 P"
proof -
  have "\<exists>t. for_up 0 (nat (d + 1)) (\<lambda>k (Phi, acc). do {
        u \<leftarrow> get h k;
        v \<leftarrow> get h (39 - d + k);
        let acc = MAC16_16 acc u v;
        Phi \<leftarrow> put2 Phi (39 - k) (d - k) (if sc = 0 then acc else SHR acc (nat sc));
        Some (Phi, acc) }) (Phi, 0) = Some t \<and> arr2 is_s32 40 40 (fst t)"
    by (rule for_up_inv) (use assms in \<open>auto intro!: arr2_update simp: Let_def\<close>)
  then show ?thesis by (auto simp: computePhiDiagonal_def L_SUBFRAME_def)
qed

lemma SHR_1_bound: "is_s32 a \<Longrightarrow> SHR a 1 < 1073741824"
  unfolding SHR_def shr_def is_s32_def power_one_right by presburger

text \<open>The argument of the count of leading zeros may overflow: it is odd, so the loop ends.\<close>

lemma Phi_scaling_count:
  assumes "0x6666666 < p" "p < 1073741824"
  shows "\<exists>z. countLeadingZeros (s32 (s32 (p * 2) + 0x3333333)) = Some z"
proof -
  have d: "s32 (p * 2) = p * 2" using assms by (intro s32_idI) auto
  show ?thesis
  proof (cases "p * 2 + 0x3333333 < 2147483648")
    case True
    then have "s32 (s32 (p * 2) + 0x3333333) = p * 2 + 0x3333333" using assms d by (simp add: s32_idI)
    then show ?thesis using countLeadingZeros_spec [of "p * 2 + 0x3333333"] True assms by auto
  next
    case False
    define x where "x = p * 2 + 0x3333333 - 4294967296"
    have "s32 (y - 4294967296) = s32 y" for y
      using mod_mult_self1 [of "y + 2147483648" "-1" 4294967296] by (simp add: s32_def)
    from this [of "p * 2 + 0x3333333"] this [of "x * 2 + 4294967296"]
    have "s32 (s32 (p * 2) + 0x3333333) = s32 x" "s32 (x * 2) = s32 (x * 2 + 4294967296)"
      by (simp_all add: d x_def)
    moreover have "s32 x = x" "s32 (x * 2 + 4294967296) = x * 2 + 4294967296" "x < 0"
      using False assms by (auto simp: x_def intro!: s32_idI)
    ultimately have x: "s32 (s32 (p * 2) + 0x3333333) = x" "x < 0" "s32 (x * 2) = x * 2 + 4294967296" by simp_all
    have y: "0 < x * 2 + 4294967296" "x * 2 + 4294967296 < 2147483648"
    proof -
      have "p * 2 + 0x3333333 \<noteq> 2147483648" by presburger
      with False assms show "0 < x * 2 + 4294967296" "x * 2 + 4294967296 < 2147483648" by (simp_all add: x_def)
    qed
    define y where "y = x * 2 + 4294967296"
    from y have "0 < y" "y < 2147483648" by (simp_all only: y_def)
    then have "2 \<le> y" unfolding y_def by presburger
    with \<open>y < 2147483648\<close> obtain m where "clz_loop y 1 = Some (1 + int m)"
      using clz_loop_spec [of 1 y] by auto
    then have "clz_loop x 0 = Some (1 + int m)"
      using x by (simp add: clz_loop.simps [of x] u16_def y_def)
    then show ?thesis using x by (auto simp: countLeadingZeros_def)
  qed
qed

lemma Phi_diagonal_ok:
  assumes "s16_arr 40 h" "arr2 is_s32 40 40 Phi"
  shows "\<exists>P sc. Phi_diagonal h Phi = Some (P, sc) \<and> arr2 is_s32 40 40 P"
proof -
  have "\<exists>t. for_up 0 40 (\<lambda>i (Phi, acc). do {
        x \<leftarrow> get h i;
        let acc = MAC16_16 acc x x;
        Phi \<leftarrow> put2 Phi (39 - i) (39 - i) (SHR acc 1);
        Some (Phi, acc) }) (Phi, 0) = Some t
      \<and> (arr2 is_s32 40 40 (fst t) \<and> (40 = (40::nat) \<longrightarrow> fst t ! 0 ! 0 < 1073741824))"
  proof (rule for_up_rule [where P = "\<lambda>i t. arr2 is_s32 40 40 (fst t) \<and> (i = 40 \<longrightarrow> fst t ! 0 ! 0 < 1073741824)"])
    fix i and t :: "int list list \<times> int"
    assume i: "0 \<le> i" "i < (40::nat)" and t: "arr2 is_s32 40 40 (fst t) \<and> (i = 40 \<longrightarrow> fst t ! 0 ! 0 < 1073741824)"
    obtain P a where ts: "t = (P, a)" by (cases t)
    let ?v = "SHR (MAC16_16 a (h ! i) (h ! i)) 1"
    have v: "is_s32 ?v" "?v < 1073741824" using SHR_1_bound [of "MAC16_16 a (h ! i) (h ! i)"] by simp_all
    have P: "length P = 40" "39 - i < 40" "arr is_s32 40 (P ! (39 - i))" using t arr2_row [of is_s32 40 40 P "39 - i"]
      by (auto simp: ts arr2_def)
    define Q where "Q = P[39 - i := (P ! (39 - i))[39 - i := ?v]]"
    have Q: "arr2 is_s32 40 40 Q" unfolding Q_def using t v P(2) by (intro arr2_update) (auto simp: ts)
    have "Suc i = 40 \<Longrightarrow> Q ! 0 ! 0 < 1073741824" using v P by (auto simp: Q_def dest: arr_length)
    moreover have n: "nat (39 - int i) = 39 - i" by simp
    ultimately show "\<exists>u. (case t of (Phi, acc) \<Rightarrow> do {
        x \<leftarrow> get h (int i);
        let acc = MAC16_16 acc x x;
        Phi \<leftarrow> put2 Phi (39 - int i) (39 - int i) (SHR acc 1);
        Some (Phi, acc) }) = Some u \<and> (arr2 is_s32 40 40 (fst u) \<and> (Suc i = 40 \<longrightarrow> fst u ! 0 ! 0 < 1073741824))"
      using assms(1) i t Q by (auto simp: ts Let_def n Q_def)
  qed (use assms in auto)
  then obtain P a where P: "for_up 0 40 (\<lambda>i (Phi, acc). do {
        x \<leftarrow> get h i;
        let acc = MAC16_16 acc x x;
        Phi \<leftarrow> put2 Phi (39 - i) (39 - i) (SHR acc 1);
        Some (Phi, acc) }) (Phi, 0) = Some (P, a)" "arr2 is_s32 40 40 P" "P ! 0 ! 0 < 1073741824" by auto
  have "\<exists>Q. for_up 0 40 (\<lambda>i Phi. do { v \<leftarrow> get2 Phi i i; put2 Phi i i (SHR v (nat sc)) }) P = Some Q
      \<and> arr2 is_s32 40 40 Q" for sc
  proof (rule for_up_inv)
    fix i Q assume i: "int 0 \<le> i" "i < int 40" and Q: "arr2 is_s32 40 40 Q"
    have "is_s32 (SHR (Q ! nat i ! nat i) (nat sc))" using i by (intro is_s32_SHR arr2_nth [OF Q]) auto
    with i Q show "\<exists>R. (do { v \<leftarrow> get2 Q i i; put2 Q i i (SHR v (nat sc)) }) = Some R \<and> arr2 is_s32 40 40 R"
      by (simp add: arr2_update)
  qed (rule P(2))
  note scaled = this
  have g: "get2 P 0 0 = Some (P ! 0 ! 0)" using P(2) by simp
  show ?thesis
  proof (cases "P ! 0 ! 0 > 0x6666666")
    case True
    obtain z where z: "countLeadingZeros (s32 (s32 (P ! 0 ! 0 * 2) + 0x3333333)) = Some z"
      using Phi_scaling_count True P(3) by blast
    obtain Q where "for_up 0 40 (\<lambda>i Phi. do { v \<leftarrow> get2 Phi i i;
        put2 Phi i i (SHR v (nat (u16 (3 - z)))) }) P = Some Q" "arr2 is_s32 40 40 Q" using scaled by blast
    with z True P(1) g show ?thesis by (simp add: Phi_diagonal_def L_SUBFRAME_def)
  qed (use P g in \<open>simp add: Phi_diagonal_def L_SUBFRAME_def\<close>)
qed

lemma used_diagonals_range: "d \<in> set used_diagonals \<Longrightarrow> 0 \<le> d \<and> d \<le> 38"
  by (auto simp: used_diagonals_def)

definition sign_arr :: "int list \<Rightarrow> bool" where
  "sign_arr = arr (\<lambda>s. s \<in> {-1, 1}) 40"

lemma correlation_signs_ok:
  assumes "s16_arr 40 cs"
  shows "\<exists>c s v. correlation_signs cs = Some (c, s, v) \<and> s16_arr 40 c \<and> sign_arr s \<and> sign_arr v"
proof -
  let ?I = "\<lambda>i t. case t of (c, s, v) \<Rightarrow> s16_arr 40 c \<and> length s = 40 \<and> length v = 40
    \<and> (\<forall>k<i. s ! k \<in> {-1, 1} \<and> v ! k \<in> {-1, 1 :: int})"
  have "\<exists>t. correlation_signs cs = Some t \<and> ?I 40 t"
    unfolding correlation_signs_def L_SUBFRAME_def
  proof (rule for_up_rule [where P = ?I])
    fix i and t :: "int list \<times> int list \<times> int list"
    assume i: "0 \<le> i" "i < (40::nat)" and t: "?I i t"
    obtain c s v where ts: "t = (c, s, v)" by (metis prod_cases3)
    then show "\<exists>u. (case t of (cs, sign, inverted) \<Rightarrow> do {
     c \<leftarrow> get cs (int i);
     if c \<ge> 0 then do {
       sign \<leftarrow> put sign (int i) 1; inverted \<leftarrow> put inverted (int i) (-1); Some (cs, sign, inverted) }
     else do {
       sign \<leftarrow> put sign (int i) (-1); inverted \<leftarrow> put inverted (int i) 1; cs \<leftarrow> put cs (int i) (s16 (- c));
       Some (cs, sign, inverted) } }) = Some u \<and> ?I (Suc i) u"
      using t i by (auto simp: less_Suc_eq nth_list_update intro!: arr_update)
  qed (use assms in auto)
  then show ?thesis by (auto simp: sign_arr_def arr_def list_all_length)
qed

lemma apply_signs_ok:
  assumes "sign_arr s" "sign_arr v" "arr2 is_s32 40 40 Phi"
  shows "\<exists>P. apply_signs s v Phi = Some P \<and> arr2 is_s32 40 40 P"
  unfolding apply_signs_def L_SUBFRAME_def
proof (rule for_up_inv)
  fix i P assume i: "int 0 \<le> i" "i < int 40" and P: "arr2 is_s32 40 40 P"
  have "\<exists>Q. for_up 0 (nat (i + 1)) (\<lambda>j Phi. do { x \<leftarrow> get2 Phi i j; sj \<leftarrow> get w j; put2 Phi i j (s32 (x * sj)) }) P
      = Some Q \<and> arr2 is_s32 40 40 Q" if "sign_arr w" for w
    by (rule for_up_inv) (use P i that in \<open>auto intro!: arr2_update simp: sign_arr_def\<close>)
  with assms i show "\<exists>Q. (do { si \<leftarrow> get s i; let signJ = (if si > 0 then s else v);
      for_up 0 (nat (i + 1)) (\<lambda>j Phi. do { x \<leftarrow> get2 Phi i j; sj \<leftarrow> get signJ j; put2 Phi i j (s32 (x * sj)) }) P })
      = Some Q \<and> arr2 is_s32 40 40 Q" by (auto simp: sign_arr_def Let_def)
qed (use assms in auto)

lemma mirror_ok:
  assumes "arr2 is_s32 40 40 Phi" "0 \<le> d" "d \<le> 38"
  shows "\<exists>P. mirror d Phi = Some P \<and> arr2 is_s32 40 40 P"
  unfolding mirror_def L_SUBFRAME_def
  by (rule for_up_inv) (use assms in \<open>auto intro!: arr2_update intro: arr2_nth\<close>)

lemma correlation_matrix_ok:
  assumes "s16_arr 40 h" "s16_arr 40 cs" "arr2 is_s32 40 40 Phi"
  shows "\<exists>c s P. computeImpulseResponseCorrelationMatrix h cs Phi = Some (c, s, P)
    \<and> s16_arr 40 c \<and> sign_arr s \<and> arr2 is_s32 40 40 P"
proof -
  obtain P1 sc where 1: "Phi_diagonal h Phi = Some (P1, sc)" "arr2 is_s32 40 40 P1"
    using Phi_diagonal_ok [OF assms(1,3)] by blast
  have "\<exists>P. run_loop used_diagonals (\<lambda>d Phi. computePhiDiagonal d h Phi sc) P1 = Some P \<and> arr2 is_s32 40 40 P"
    by (rule run_loop_inv) (use 1(2) computePhiDiagonal_ok [OF assms(1)] used_diagonals_range in auto)
  then obtain P2 where 2: "run_loop used_diagonals (\<lambda>d Phi. computePhiDiagonal d h Phi sc) P1 = Some P2"
    "arr2 is_s32 40 40 P2" by blast
  obtain c s v where 3: "correlation_signs cs = Some (c, s, v)" "s16_arr 40 c" "sign_arr s" "sign_arr v"
    using correlation_signs_ok [OF assms(2)] by blast
  obtain P4 where 4: "apply_signs s v P2 = Some P4" "arr2 is_s32 40 40 P4"
    using apply_signs_ok [OF 3(3,4) 2(2)] by blast
  have "\<exists>P. run_loop used_diagonals mirror P4 = Some P \<and> arr2 is_s32 40 40 P"
    by (rule run_loop_inv) (use 4(2) mirror_ok used_diagonals_range in auto)
  then obtain P5 where 5: "run_loop used_diagonals mirror P4 = Some P5" "arr2 is_s32 40 40 P5" by blast
  show ?thesis using 1 2 3 4 5 by (simp add: computeImpulseResponseCorrelationMatrix_def)
qed

section \<open>The search stays on the tracks\<close>

lemma track_range: "j \<in> set (track m) \<Longrightarrow> 0 \<le> m \<Longrightarrow> 0 \<le> j \<and> j \<le> 39 \<and> j mod 5 = m mod 5"
  using stepped_range [of j m 39 5] by (auto simp: track_def L_SUBFRAME_def stepped_def)

definition position :: "int \<Rightarrow> bool" where
  "position j \<longleftrightarrow> 0 \<le> j \<and> j \<le> 39"

lemma position_0 [simp]: "position 0" by (simp add: position_def)

lemma track_position: "j \<in> set (track m) \<Longrightarrow> 0 \<le> m \<Longrightarrow> position j"
  using track_range by (auto simp: position_def)

lemma best_M2_ok:
  assumes "s16_arr 40 cs" "0 \<le> m"
  shows "\<exists>c j. best_M2 cs m f = Some (c, j) \<and> position j"
proof -
  have "\<exists>t. best_M2 cs m f = Some t \<and> position (snd t)"
    unfolding best_M2_def
  proof (rule run_loop_inv)
    fix j and t :: "int \<times> int"
    assume j: "j \<in> set (track m)" and t: "position (snd t)"
    have "position j" using track_position [OF j assms(2)] .
    with assms(1) t show "\<exists>u. (case t of (correlationM2, currentM2) \<Rightarrow> do {
        c \<leftarrow> get cs j;
        Some (if c > correlationM2 \<and> j \<noteq> f then (c, j) else (correlationM2, currentM2)) }) = Some u
        \<and> position (snd u)" by (cases t) (simp add: position_def)
  qed simp
  then show ?thesis by (auto simp: prod_eq_iff)
qed

lemma try_m3_ok:
  assumes "s16_arr 40 cs" "arr2 is_s32 40 40 Phi" "position cur" "position j"
    and "position m3" "position m2"
  shows "\<exists>sq' e' c' m3' m2'. try_m3 cs Phi c2 cur j (sq, e, c, m3, m2) = Some (sq', e', c', m3', m2')
    \<and> position m3' \<and> position m2'"
  using assms by (auto simp: try_m3_def Let_def position_def)

lemma search_m2_m3_ok:
  assumes "s16_arr 40 cs" "arr2 is_s32 40 40 Phi" "0 \<le> s0" "0 \<le> s1" "position m3" "position m2"
  shows "\<exists>sq e c m3' m2'. search_m2_m3 cs Phi s0 s1 m3 m2 = Some (sq, e, c, m3', m2')
    \<and> position m3' \<and> position m2'"
proof -
  let ?I = "\<lambda>(sq :: int, e :: int, c :: int, m3, m2). position m3 \<and> position m2"
  have "\<exists>t. for_up 0 2 (\<lambda>_ (st, firstM2). do {
        (correlationM2, currentM2) \<leftarrow> best_M2 cs s0 firstM2;
        st \<leftarrow> run_loop (track s1) (try_m3 cs Phi correlationM2 currentM2) st;
        Some (st, currentM2) }) ((-1, 1, 0, m3, m2), 0) = Some t \<and> ?I (fst t)"
  proof (rule for_up_inv)
    fix i and t :: "(int \<times> int \<times> int \<times> int \<times> int) \<times> int"
    assume t: "?I (fst t)"
    obtain st f where ts: "t = (st, f)" by (cases t)
    obtain c2 cur where b: "best_M2 cs s0 f = Some (c2, cur)" "position cur"
      using best_M2_ok [OF assms(1,3)] by blast
    have "\<exists>u. run_loop (track s1) (try_m3 cs Phi c2 cur) st = Some u \<and> ?I u"
    proof (rule run_loop_inv)
      fix j and s :: "int \<times> int \<times> int \<times> int \<times> int"
      assume j: "j \<in> set (track s1)" and s: "?I s"
      obtain sq e c a b where "s = (sq, e, c, a, b)" by (metis prod_cases5)
      then show "\<exists>u. try_m3 cs Phi c2 cur j s = Some u \<and> ?I u"
        using try_m3_ok [OF assms(1,2) b(2), of j a b c2 sq e c] j s assms(4) track_position by auto
    qed (use t ts in simp)
    then show "\<exists>u. (case t of (st, firstM2) \<Rightarrow> do {
        (correlationM2, currentM2) \<leftarrow> best_M2 cs s0 firstM2;
        st \<leftarrow> run_loop (track s1) (try_m3 cs Phi correlationM2 currentM2) st;
        Some (st, currentM2) }) = Some u \<and> ?I (fst u)" using b by (auto simp: ts)
  qed (use assms in simp)
  then show ?thesis by (auto simp: search_m2_m3_def)
qed

lemma try_m1_ok:
  assumes "s16_arr 40 cs" "arr2 is_s32 40 40 Phi" "position m2" "position m3" "position i" "position j"
    and "position m0" "position m1"
  shows "\<exists>sq' e' m0' m1'. try_m1 cs Phi m2 m3 i c3 e3 j (sq, e, m0, m1) = Some (sq', e', m0', m1')
    \<and> position m0' \<and> position m1'"
  using assms by (auto simp: try_m1_def Let_def position_def)

lemma search_m0_m1_ok:
  assumes "s16_arr 40 cs" "arr2 is_s32 40 40 Phi" "0 \<le> s2" "0 \<le> s3" "position m2" "position m3"
    and "position m0" "position m1"
  shows "\<exists>sq e m0' m1'. search_m0_m1 cs Phi s2 s3 m2 m3 cM eM m0 m1 = Some (sq, e, m0', m1')
    \<and> position m0' \<and> position m1'"
proof -
  let ?I = "\<lambda>(sq :: int, e :: int, m0, m1). position m0 \<and> position m1"
  have "\<exists>t. search_m0_m1 cs Phi s2 s3 m2 m3 cM eM m0 m1 = Some t \<and> ?I t"
    unfolding search_m0_m1_def
  proof (rule run_loop_inv)
    fix i and st :: "int \<times> int \<times> int \<times> int"
    assume i: "i \<in> set (track s2)" and st: "?I st"
    have pi: "position i" using i assms(3) track_position by blast
    have "\<exists>u. run_loop (track s3) (try_m1 cs Phi m2 m3 i c3 e3) st = Some u \<and> ?I u" for c3 e3
    proof (rule run_loop_inv)
      fix j and s :: "int \<times> int \<times> int \<times> int"
      assume j: "j \<in> set (track s3)" and s: "?I s"
      obtain sq e a b where "s = (sq, e, a, b)" by (metis prod_cases4)
      then show "\<exists>u. try_m1 cs Phi m2 m3 i c3 e3 j s = Some u \<and> ?I u"
        using try_m1_ok [OF assms(1,2,5,6) pi, of j a b] j s assms(4) track_position by auto
    qed (rule st)
    with assms(1,2,5,6) pi show "\<exists>u. (do {
       c \<leftarrow> get cs i;
       let correlationM2M3M0 = ADD16 cM c;
       p0 \<leftarrow> get2 Phi i i;
       p2 \<leftarrow> get2 Phi i m2;
       p3 \<leftarrow> get2 Phi i m3;
       let energyM2M3M0 = ADD32 eM (ADD32 p0 (ADD32 p2 p3));
       run_loop (track s3) (try_m1 cs Phi m2 m3 i correlationM2M3M0 energyM2M3M0) st }) = Some u \<and> ?I u"
      by (auto simp: position_def Let_def)
  qed (use assms in simp)
  then show ?thesis by auto
qed

definition positions4 :: "int \<times> int \<times> int \<times> int \<Rightarrow> bool" where
  "positions4 = (\<lambda>(a, b, c, d). position a \<and> position b \<and> position c \<and> position d)"

definition search_ok :: "pulse_search \<Rightarrow> bool" where
  "search_ok st \<longleftrightarrow> positions4 (ps_pulses st) \<and> positions4 (ps_m st) \<and> ps_jx st \<in> {0, 1}
     \<and> arr2 (\<lambda>x. 0 \<le> x) 2 4 (ps_switch st)"

lemma search_run_ok:
  assumes "s16_arr 40 cs" "arr2 is_s32 40 40 Phi" "search_ok st" "0 \<le> i" "i < 2" "b = 3 \<or> b = 4"
  shows "\<exists>t. search_run cs Phi b i st = Some t \<and> search_ok t \<and> ps_switch t = ps_switch st"
proof -
  obtain m0 m1 m2 m3 where m: "ps_m st = (m0, m1, m2, m3)" by (metis prod_cases4)
  have p: "position m0" "position m1" "position m2" "position m3"
    using assms(3) m by (auto simp: search_ok_def positions4_def)
  have sw: "arr2 (\<lambda>x. 0 \<le> x) 2 4 (ps_switch st)" using assms(3) by (simp add: search_ok_def)
  let ?s = "\<lambda>j. ps_switch st ! nat i ! j"
  have s: "0 \<le> ?s 0" "0 \<le> ?s (Suc 0)" "0 \<le> ?s 2" "0 \<le> ?s 3"
    using assms(4,5) by (auto intro!: arr2_nth [OF sw])
  obtain sq e c m3' m2' where 1: "search_m2_m3 cs Phi (?s 0) (?s (Suc 0)) m3 m2 = Some (sq, e, c, m3', m2')"
    "position m3'" "position m2'" using search_m2_m3_ok [OF assms(1,2) s(1,2) p(4,3)] by blast
  obtain sq2 e2 m0' m1' where 2: "search_m0_m1 cs Phi (?s 2) (?s 3) m2' m3' c e m0 m1 = Some (sq2, e2, m0', m1')"
    "position m0'" "position m1'" using search_m0_m1_ok [OF assms(1,2) s(3,4) 1(3,2) p(1,2)] by blast
  let ?st = "st\<lparr>ps_m := (m0', m1', m2', m3')\<rparr>"
  let ?new = "?st\<lparr>ps_squareMax := sq2, ps_energyMax := e2,
    ps_pulses := (if i = 0 then (m0', m1', m2', m3') else (m3', m0', m1', m2')), ps_jx := b - 3\<rparr>"
  have g: "get2 (ps_switch st) i 0 = Some (?s 0)" "get2 (ps_switch st) i 1 = Some (?s (Suc 0))"
    "get2 (ps_switch st) i 2 = Some (?s 2)" "get2 (ps_switch st) i 3 = Some (?s 3)"
    using get2_arr [OF sw assms(4)] assms(5) by simp_all
  have "search_run cs Phi b i st = Some ?new \<or> search_run cs Phi b i st = Some ?st"
    by (simp add: search_run_def m g 1 2 Let_def)
  moreover have "search_ok ?new" "search_ok ?st"
    using assms(3,6) 1 2 by (auto simp: search_ok_def positions4_def)
  ultimately show ?thesis by (elim disjE) (intro exI conjI, assumption, simp_all)+
qed

lemma search_pulses_ok:
  assumes "s16_arr 40 cs" "arr2 is_s32 40 40 Phi"
  shows "\<exists>st. search_pulses cs Phi = Some st \<and> search_ok st"
  unfolding search_pulses_def
proof (rule for_up_inv)
  fix b st assume b: "int 3 \<le> b" "b < int 5" and st: "search_ok st"
  have "\<exists>t. for_up 0 2 (search_run cs Phi b) st = Some t \<and> search_ok t"
  proof (rule for_up_inv)
    fix i s assume "int 0 \<le> i" "i < int 2" "search_ok s"
    then show "\<exists>t. search_run cs Phi b i s = Some t \<and> search_ok t"
      using search_run_ok [OF assms, of s i b] b by fastforce
  qed (rule st)
  then obtain t where t: "for_up 0 2 (search_run cs Phi b) st = Some t" "search_ok t" by blast
  have sw: "arr2 (\<lambda>x. 0 \<le> x) 2 4 (ps_switch t)" using t(2) by (simp add: search_ok_def)
  have n: "0 \<le> ps_switch t ! 0 ! Suc 0" "0 \<le> ps_switch t ! Suc 0 ! 0" by (auto intro!: arr2_nth [OF sw])
  define w where "w = (ps_switch t)[0 := (ps_switch t ! 0)[Suc 0 := ps_switch t ! 0 ! Suc 0 + 1]]"
  have w: "arr2 (\<lambda>x. 0 \<le> x) 2 4 w" unfolding w_def using sw n by (intro arr2_update) auto
  define w' where "w' = w[Suc 0 := (w ! Suc 0)[0 := w ! Suc 0 ! 0 + 1]]"
  have "0 \<le> w ! Suc 0 ! 0" by (auto intro!: arr2_nth [OF w])
  then have w': "arr2 (\<lambda>x. 0 \<le> x) 2 4 w'" unfolding w'_def using w by (intro arr2_update) auto
  have "put2 (ps_switch t) 0 1 (ps_switch t ! 0 ! Suc 0 + 1) = Some w" using sw by (simp add: w_def)
  moreover have "put2 w 1 0 (w ! Suc 0 ! 0 + 1) = Some w'" using w by (simp add: w'_def)
  ultimately show "\<exists>u. (do {
     st \<leftarrow> for_up 0 2 (search_run cs Phi b) st;
     a \<leftarrow> get2 (ps_switch st) 0 1;
     sw \<leftarrow> put2 (ps_switch st) 0 1 (a + 1);
     b \<leftarrow> get2 sw 1 0;
     sw \<leftarrow> put2 sw 1 0 (b + 1);
     Some (st\<lparr>ps_switch := sw\<rparr>) }) = Some u \<and> search_ok u"
    using t sw w w' by (simp add: search_ok_def)
qed (simp add: search_ok_def search_start_def positions4_def arr2_def arr_def)


section \<open>The whole search\<close>

lemma fixed_target_ok:
  assumes "s16_arr m x" "40 \<le> m" "s16_arr n f" "40 \<le> n"
  shows "\<exists>t. fixed_target x f g = Some t \<and> s16_arr 40 t"
  unfolding fixed_target_def L_SUBFRAME_def
  by (rule for_up_inv) (use assms in \<open>auto intro!: arr_update\<close>)

lemma pitch_prefilter_ok:
  assumes "s16_arr n x" "40 \<le> n" "0 \<le> t"
  shows "\<exists>y. pitch_prefilter t g x = Some y \<and> s16_arr n y"
  unfolding pitch_prefilter_def L_SUBFRAME_def
  by (rule for_range_inv) (use assms in \<open>auto intro!: arr_update\<close>)

lemma correlation32_ok:
  assumes "s16_arr m x" "40 \<le> m" "s16_arr n h" "40 \<le> n"
  shows "\<exists>c mx. correlation32 x h = Some (c, mx) \<and> s32_arr 40 c \<and> 0 \<le> mx \<and> mx < 2147483648"
proof -
  let ?I = "\<lambda>t. s32_arr 40 (fst t) \<and> 0 \<le> snd t \<and> snd t < 2147483648"
  have "\<exists>t. correlation32 x h = Some t \<and> ?I t"
    unfolding correlation32_def L_SUBFRAME_def
  proof (rule for_up_inv [where P = "?I"])
    fix i and t :: "int list \<times> int"
    assume i: "int 0 \<le> i" "i < int 40" and t: "?I t"
    have "\<exists>a. for_up (nat i) 40 (\<lambda>j acc. do { u \<leftarrow> get x j; v \<leftarrow> get h (j - i); Some (MAC16_16 acc u v) }) 0
        = Some a \<and> is_s32 a"
      by (rule for_up_inv) (use assms i in \<open>auto simp: is_s32_def [of 0]\<close>)
    then obtain a where a: "for_up (nat i) 40 (\<lambda>j acc. do { u \<leftarrow> get x j; v \<leftarrow> get h (j - i);
        Some (MAC16_16 acc u v) }) 0 = Some a" "is_s32 a" by blast
    have "(if a \<ge> 0 then a else s32 (- a)) < 2147483648" using a(2) s32_bounds [of "- a"] by (auto simp: is_s32_def)
    with a i t show "\<exists>u. (case t of (c, m) \<Rightarrow> do {
        acc \<leftarrow> for_up (nat i) 40 (\<lambda>j acc. do { u \<leftarrow> get x j; v \<leftarrow> get h (j - i); Some (MAC16_16 acc u v) }) 0;
        c \<leftarrow> put c i acc;
        let a = (if acc \<ge> 0 then acc else s32 (- acc));
        Some (c, if a > m then a else m) }) = Some u \<and> ?I u"
      by (cases t) (auto simp: Let_def intro!: arr_update)
  qed (simp add: is_s32_def)
  then show ?thesis by (auto simp: prod_eq_iff)
qed

lemma correlation13_ok:
  assumes "s32_arr 40 c" "0 \<le> mx" "mx < 2147483648"
  shows "\<exists>d. correlation13 c mx = Some d \<and> s16_arr 40 d"
proof -
  obtain z where z: "countLeadingZeros mx = Some z"
    using countLeadingZeros_spec [of mx] assms by (cases "mx = 0") (auto simp: countLeadingZeros_def)
  have "\<exists>d. for_up 0 40 (\<lambda>i d. do { v \<leftarrow> get c i;
      put d i (s16 (if n < 18 then SHR v (nat (18 - n)) else v)) }) (replicate 40 0) = Some d \<and> s16_arr 40 d" for n
    by (rule for_up_inv) (use assms in \<open>auto intro!: arr_update\<close>)
  then show ?thesis using z by (simp add: correlation13_def L_SUBFRAME_def Let_def)
qed

lemma sign_arr_get:
  assumes "sign_arr s" "position i"
  shows "get s i = Some (s ! nat i) \<and> s ! nat i \<in> {-1, 1}"
  using assms arr_nth [OF assms(1) [unfolded sign_arr_def], of "nat i"]
  by (auto simp: sign_arr_def position_def)

definition sign_pulse :: "int list \<Rightarrow> int \<Rightarrow> int" where
  "sign_pulse s i = s ! nat i * 8192"

lemma four_pulses_eq:
  assumes "sign_arr s" "positions4 (a, b, c, d)"
  shows "four_pulses s (a, b, c, d) = Some ((replicate 40 0)[nat a := sign_pulse s a,
    nat b := sign_pulse s b, nat c := sign_pulse s c, nat d := sign_pulse s d])"
proof -
  have p: "position a" "position b" "position c" "position d" using assms(2) by (simp_all add: positions4_def)
  have v: "s16 (SHL (s16 (s ! nat i)) 13) = sign_pulse s i" if "position i" for i
    using sign_arr_get [OF assms(1) that] by (auto simp: sign_pulse_def SHL_def s16_idI s32_idI)
  have q: "0 \<le> i \<and> i < 40" if "position i" for i using that by (auto simp: position_def)
  show ?thesis
    using p [THEN q] sign_arr_get [OF assms(1) p(1)] sign_arr_get [OF assms(1) p(2)]
      sign_arr_get [OF assms(1) p(3)] sign_arr_get [OF assms(1) p(4)]
    by (simp add: four_pulses_def L_SUBFRAME_def v [OF p(1)] v [OF p(2)] v [OF p(3)] v [OF p(4)])
qed

lemma four_updates_small:
  assumes "i < 40" "j < 40" "k < 40" "l < 40"
    and "\<bar>w\<bar> = 8192" "\<bar>x\<bar> = 8192" "\<bar>y\<bar> = 8192" "\<bar>z\<bar> = 8192"
  shows "small_pulses ((replicate 40 0)[i := w, j := x, k := y, l := z])" (is "small_pulses ?c")
proof -
  have l: "length ?c = 40" by simp
  have "set ?c \<subseteq> {0, w, x, y, z}"
    by (intro order_trans [OF set_update_subset_insert] insert_subsetI; simp)+
  then have "\<forall>t\<in>set ?c. \<bar>t\<bar> \<le> 8192" using assms by fastforce
  then have m: "\<forall>k<40. \<bar>?c ! k\<bar> \<le> 8192" using l by (metis nth_mem)
  have z: "sum_list (map abs (replicate 40 (0::int))) = 0" by (simp add: sum_list_replicate)
  have "sum_list (map abs ?c) \<le> 0 + 8192 + 8192 + 8192 + 8192"
    using assms z by (intro order_trans [OF L1_update] add_mono) simp_all
  then have "L1norm ?c 40 \<le> 32768" using L1norm_sum_list [of ?c] l by simp
  moreover have "?c ! l \<noteq> 0" using assms by auto
  ultimately show ?thesis using l m assms(4) by (auto simp: small_pulses_def)
qed

lemma four_pulses_ok:
  assumes "sign_arr s" "positions4 ps"
  shows "\<exists>v. four_pulses s ps = Some v \<and> small_pulses v"
proof -
  obtain a b c d where p: "ps = (a, b, c, d)" by (metis prod_cases4)
  have q: "position a" "position b" "position c" "position d" using assms(2) by (simp_all add: p positions4_def)
  have b: "nat i < 40" "\<bar>sign_pulse s i\<bar> = 8192" if "position i" for i
    using sign_arr_get [OF assms(1) that] that by (auto simp: sign_pulse_def position_def)
  show ?thesis using four_pulses_eq [of s a b c d] assms q [THEN b(1)] q [THEN b(2)] four_updates_small
    by (simp add: p)
qed

section \<open>The prefiltered vector has a positive energy\<close>

lemma pitch_prefilter_eq:
  assumes "length c = 40" "20 \<le> T"
  shows "pitch_prefilter T g c = Some (map (\<lambda>k. if int k < T then c ! k
    else s16 (MAC16_16_Q14 (c ! k) (c ! (k - nat T)) g)) [0..<40])"
proof (cases "T \<le> 40")
  case True
  let ?v = "\<lambda>k. s16 (MAC16_16_Q14 (c ! k) (c ! (k - nat T)) g)"
  let ?P = "\<lambda>i v. length v = 40 \<and> (\<forall>k<40. v ! k = (if int k < T \<or> i \<le> int k then c ! k else ?v k))"
  have "\<exists>v. pitch_prefilter T g c = Some v \<and> ?P 40 v"
    unfolding pitch_prefilter_def L_SUBFRAME_def of_nat_numeral
  proof (rule for_range_rule)
    show "?P T c" using assms by auto
  next
    fix i v assume i: "T \<le> i" "i < 40" and P: "?P i v"
    define n where "n = nat i"
    have n: "i = int n" "n < 40" "T \<le> int n" using i assms by (auto simp: n_def)
    have e: "nat (int n - T) = n - nat T" "n - nat T < 40" "int (n - nat T) < T" "0 \<le> int n - T" "int n - T < 40"
      using assms n by (auto simp: nat_diff_distrib)
    then have "v ! (n - nat T) = c ! (n - nat T)" "v ! n = c ! n" using P n by auto
    then have "(do { x \<leftarrow> get v i; d \<leftarrow> get v (i - T); put v i (s16 (MAC16_16_Q14 x d g)) }) = Some (v[n := ?v n])"
      using P n e by simp
    moreover have "?P (i + 1) (v[n := ?v n])" using P n by (auto simp: nth_list_update)
    ultimately show "\<exists>t. (do { x \<leftarrow> get v i; d \<leftarrow> get v (i - T); put v i (s16 (MAC16_16_Q14 x d g)) }) = Some t
        \<and> ?P (i + 1) t" by blast
  qed (use True in simp)
  then obtain v where v: "pitch_prefilter T g c = Some v" "?P 40 v" by blast
  have "v = map (\<lambda>k. if int k < T then c ! k else ?v k) [0..<40]"
    using v(2) by (intro nth_equalityI) auto
  with v(1) show ?thesis by simp
next
  case False
  then have "c = map (\<lambda>k. if int k < T then c ! k
    else s16 (MAC16_16_Q14 (c ! k) (c ! (k - nat T)) g)) [0..<40]"
    using assms by (intro nth_equalityI) auto
  moreover have "pitch_prefilter T g c = Some c"
    using False by (simp add: pitch_prefilter_def L_SUBFRAME_def for_range_def)
  ultimately show ?thesis by simp
qed

lemma prefilter_term:
  assumes "\<bar>c\<bar> \<le> 8192" "\<bar>d\<bar> \<le> 8192" "0 \<le> g" "g \<le> 19661"
  shows "\<exists>e. s16 (MAC16_16_Q14 c d g) = c + e \<and> 4 * \<bar>e\<bar> \<le> 5 * \<bar>d\<bar> + 4 \<and> (d = 0 \<longrightarrow> e = 0)"
proof -
  define e where "e = (d * g) div 16384"
  have "\<bar>d * g\<bar> \<le> \<bar>d\<bar> * 20480" unfolding abs_mult using assms by (intro mult_left_mono) auto
  then have dg: "- (\<bar>d\<bar> * 20480) \<le> d * g" "d * g \<le> \<bar>d\<bar> * 20480" by linarith+
  have e4: "4 * \<bar>e\<bar> \<le> 5 * \<bar>d\<bar> + 4" using dg unfolding e_def by linarith
  then have b: "\<bar>e\<bar> \<le> 10241" using assms(2) by linarith
  have "is_s32 (d * g)" using dg assms(2) unfolding is_s32_def by linarith
  moreover have "is_s16 d" "is_s16 g" using assms unfolding is_s16_def by linarith+
  ultimately have "MULT16_16_Q14 d g = e"
    by (simp add: MULT16_16_Q_def MULT16_16_no_overflow SHR_def shr_def e_def)
  moreover have "is_s32 c" "is_s32 e" "is_s32 (c + e)" "is_s16 (c + e)"
    using assms(1) b unfolding is_s32_def is_s16_def by linarith+
  ultimately have "s16 (MAC16_16_Q14 c d g) = c + e" by (simp add: MAC16_16_Q14_def ADD32_exact)
  then show ?thesis using e4 by (auto simp: e_def)
qed

lemma prefilter_energy:
  assumes c: "small_pulses c" and T: "20 \<le> T" and g: "0 \<le> g" "g \<le> 19661"
  shows "\<exists>v. pitch_prefilter T g c = Some v \<and> s16_arr 40 v \<and> 0 < energy v 40 \<and> energy v 40 < 2147483648"
proof -
  define v where "v = map (\<lambda>k. if int k < T then c ! k
    else s16 (MAC16_16_Q14 (c ! k) (c ! (k - nat T)) g)) [0..<40]"
  have len: "length c = 40" and ck: "\<And>k. k < 40 \<Longrightarrow> \<bar>c ! k\<bar> \<le> 8192" using c by (auto simp: small_pulses_def)
  have eq: "pitch_prefilter T g c = Some v" unfolding v_def by (rule pitch_prefilter_eq [OF len T])
  have v1: "v ! k = c ! k" if "k < 40" "int k < T" for k using that by (simp add: v_def)
  have v2: "\<exists>e. v ! k = c ! k + e \<and> 4 * \<bar>e\<bar> \<le> 5 * \<bar>c ! (k - nat T)\<bar> + 4 \<and> (c ! (k - nat T) = 0 \<longrightarrow> e = 0)"
    if "k < 40" "T \<le> int k" for k
  proof -
    have "v ! k = s16 (MAC16_16_Q14 (c ! k) (c ! (k - nat T)) g)" using that by (simp add: v_def)
    then show ?thesis using prefilter_term [OF ck ck g, of k "k - nat T"] that by auto
  qed
  have m: "\<bar>v ! k\<bar> \<le> 18433" if k: "k < 40" for k
  proof (cases "int k < T")
    case False
    then obtain e where "v ! k = c ! k + e" "4 * \<bar>e\<bar> \<le> 5 * \<bar>c ! (k - nat T)\<bar> + 4" using v2 [of k] k by auto
    moreover have "\<bar>c ! k\<bar> \<le> 8192" "\<bar>c ! (k - nat T)\<bar> \<le> 8192" using ck that by auto
    ultimately show ?thesis by linarith
  qed (use v1 ck [of k] that in force)
  have L: "4 * L1norm v n \<le> 4 * L1norm c n + 5 * L1norm c (n - nat T) + 4 * int (n - nat T)" if "n \<le> 40" for n
    using that
  proof (induction n)
    case (Suc n)
    show ?case
    proof (cases "int n < T")
      case True
      then have "n - nat T = 0" "Suc n - nat T = 0" by linarith+
      then show ?thesis using Suc v1 [of n] True by simp
    next
      case False
      then have d: "Suc n - nat T = Suc (n - nat T)" by simp
      obtain e where "v ! n = c ! n + e" "4 * \<bar>e\<bar> \<le> 5 * \<bar>c ! (n - nat T)\<bar> + 4" using v2 [of n] Suc.prems False by auto
      then have "4 * \<bar>v ! n\<bar> \<le> 4 * \<bar>c ! n\<bar> + 5 * \<bar>c ! (n - nat T)\<bar> + 4" by linarith
      then show ?thesis using Suc by (simp add: d)
    qed
  qed simp
  have "L1norm c 40 \<le> 32768" using c by (simp add: small_pulses_def)
  moreover have "L1norm c (40 - nat T) \<le> L1norm c 40" by (rule L1norm_mono) simp_all
  moreover have "int (40 - nat T) \<le> 20" using T by linarith
  ultimately have "L1norm v 40 \<le> 73748" using L [of 40] by linarith
  moreover have "energy v 40 \<le> 18433 * L1norm v 40" by (rule energy_le) (rule m)
  ultimately have less: "energy v 40 < 2147483648" by linarith
  have arr: "s16_arr 40 v" using m by (force simp: arr_def list_all_length v_def is_s16_def)
  obtain k where k: "k < 40" "c ! k \<noteq> 0" using c by (auto simp: small_pulses_def)
  have "\<exists>i<40. v ! i \<noteq> 0"
  proof (rule ccontr)
    assume "\<not> ?thesis"
    then have z: "\<And>i. i < 40 \<Longrightarrow> v ! i = 0" by blast
    have "v ! k = c ! k"
    proof (cases "int k < T")
      case False
      then have "c ! (k - nat T) = 0" using v1 [of "k - nat T"] z [of "k - nat T"] k(1) T by auto
      then show ?thesis using v2 [OF k(1)] False by auto
    qed (rule v1 [OF k(1)])
    then show False using z k by simp
  qed
  then obtain i where i: "i < 40" "v ! i \<noteq> 0" by blast
  have "0 < v ! i * v ! i" using i(2) by (simp add: zero_less_mult_iff linorder_neq_iff disj_commute)
  also have "\<dots> \<le> energy v 40" unfolding energy_def using i(1) by (intro member_le_sum) auto
  finally show ?thesis using eq arr less by blast
qed

lemma first_pulse_ok:
  assumes "s16_arr n h" "40 \<le> n" "position i" "s16_arr 40 v"
  shows "\<exists>w. first_pulse h s i v = Some w \<and> s16_arr 40 w"
proof -
  have "\<exists>u. for_up 0 (nat i) (\<lambda>i v. put v i 0) v = Some u \<and> s16_arr 40 u"
    by (rule for_up_inv) (use assms in \<open>auto intro!: arr_update simp: position_def\<close>)
  then obtain u where u: "for_up 0 (nat i) (\<lambda>i v. put v i 0) v = Some u" "s16_arr 40 u" by blast
  have "\<exists>w. for_range i 40 (\<lambda>j v. do { x \<leftarrow> get h (j - i); put v j (if s > 0 then x else s16 (- x)) }) u
      = Some w \<and> s16_arr 40 w"
  proof (rule for_range_inv)
    fix j w assume j: "i \<le> j" "j < 40" and w: "s16_arr 40 w"
    have "is_s16 (h ! nat (j - i))" using assms j by (intro arr_nth [OF assms(1)]) (auto simp: position_def)
    with j w assms show "\<exists>t. (do { x \<leftarrow> get h (j - i); put w j (if s > 0 then x else s16 (- x)) }) = Some t
        \<and> s16_arr 40 t" by (auto simp: position_def intro!: arr_update)
  qed (rule u(2))
  with u show ?thesis by (simp add: first_pulse_def L_SUBFRAME_def)
qed

lemma add_pulse_ok:
  assumes "s16_arr n h" "40 \<le> n" "position i" "s16_arr 40 v"
  shows "\<exists>w. add_pulse h s i v = Some w \<and> s16_arr 40 w"
  unfolding add_pulse_def L_SUBFRAME_def
  by (rule for_range_inv) (use assms in \<open>auto intro!: arr_update simp: position_def ADD16_def\<close>)

lemma convolved_pulses_ok:
  assumes "s16_arr n h" "40 \<le> n" "sign_arr s" "positions4 ps" "s16_arr 40 v"
  shows "\<exists>w. convolved_pulses h s ps v = Some w \<and> s16_arr 40 w"
proof -
  obtain a b c d where p: "ps = (a, b, c, d)" by (metis prod_cases4)
  have q: "position a" "position b" "position c" "position d" using assms(4) by (simp_all add: p positions4_def)
  have g: "position i \<Longrightarrow> get s i = Some (s ! nat i)" for i
    using assms(3) by (simp add: sign_arr_def position_def)
  obtain w1 where w1: "first_pulse h (s ! nat a) a v = Some w1" "s16_arr 40 w1"
    using first_pulse_ok [OF assms(1,2) q(1) assms(5)] by blast
  obtain w2 where w2: "add_pulse h (s ! nat b) b w1 = Some w2" "s16_arr 40 w2"
    using add_pulse_ok [OF assms(1,2) q(2) w1(2)] by blast
  obtain w3 where w3: "add_pulse h (s ! nat c) c w2 = Some w3" "s16_arr 40 w3"
    using add_pulse_ok [OF assms(1,2) q(3) w2(2)] by blast
  obtain w4 where w4: "add_pulse h (s ! nat d) d w3 = Some w4" "s16_arr 40 w4"
    using add_pulse_ok [OF assms(1,2) q(4) w3(2)] by blast
  show ?thesis using g q w1 w2 w3 w4 by (simp add: convolved_pulses_def p)
qed

text \<open>The four positions fit in 13 bits, with the last bit of the fourth.\<close>

lemma position_fifth: "position i \<Longrightarrow> MULT16_16_Q15 (s16 i) O2_IN_Q15 = i div 5"
proof -
  assume "position i"
  then have "i \<in> set [0..39]" by (simp add: position_def)
  moreover have "\<forall>i \<in> set [0..39]. MULT16_16_Q15 (s16 i) O2_IN_Q15 = i div 5" by code_simp
  ultimately show ?thesis by blast
qed

lemma code_of_pulses_eq:
  assumes "positions4 (i0, i1, i2, i3)" "jx \<in> {0, 1}"
  shows "code_of_pulses (i0, i1, i2, i3) jx
    = i0 div 5 + 8 * (i1 div 5) + 64 * (i2 div 5) + 512 * (2 * (i3 div 5) + jx)"
    and "0 \<le> code_of_pulses (i0, i1, i2, i3) jx" "code_of_pulses (i0, i1, i2, i3) jx < 8192"
proof -
  have p: "position i0" "position i1" "position i2" "position i3" using assms(1) by (simp_all add: positions4_def)
  have b: "0 \<le> i div 5 \<and> i div 5 \<le> 7" if "position i" for i using that by (auto simp: position_def)
  show "code_of_pulses (i0, i1, i2, i3) jx
    = i0 div 5 + 8 * (i1 div 5) + 64 * (i2 div 5) + 512 * (2 * (i3 div 5) + jx)"
    using b [OF p(1)] b [OF p(2)] b [OF p(3)] b [OF p(4)] assms(2)
    by (auto simp: code_of_pulses_def position_fifth p u16_idI)
  then show "0 \<le> code_of_pulses (i0, i1, i2, i3) jx" "code_of_pulses (i0, i1, i2, i3) jx < 8192"
    using b [OF p(1)] b [OF p(2)] b [OF p(3)] b [OF p(4)] assms(2) by auto
qed

definition sign_bit :: "int \<Rightarrow> int" where
  "sign_bit s = (if s > 0 then 1 else 0)"

lemma code_of_signs_eq:
  assumes "s0 \<in> {-1, 1}" "s1 \<in> {-1, 1}" "s2 \<in> {-1, 1}" "s3 \<in> {-1, 1}"
  shows "code_of_signs s0 s1 s2 s3 = sign_bit s0 + 2 * sign_bit s1 + 4 * sign_bit s2 + 8 * sign_bit s3"
  using assms by (auto simp: code_of_signs_def sign_bit_def shr_def u16_def)

lemma fixedCodebookSearch_ok:
  assumes P: "arr2 is_s32 40 40 Phi0" and x: "s16_arr m x" "40 \<le> m" and h: "s16_arr 40 h"
    and f: "s16_arr n f" "40 \<le> n" and t: "20 \<le> t" and lg: "0 \<le> lg" "lg \<le> 19661" and v: "s16_arr 40 cv"
  shows "\<exists>h' c s u w. fixedCodebookSearch Phi0 x h t lg f g cv = Some (h', c, s, u, w)
    \<and> 0 \<le> c \<and> c < 8192 \<and> 0 \<le> s \<and> s < 16 \<and> s16_arr 40 u \<and> 0 < energy u 40 \<and> energy u 40 < 2147483648 \<and> s16_arr 40 w"
proof -
  obtain tg where tg: "fixed_target x f g = Some tg" "s16_arr 40 tg" using fixed_target_ok [OF x f] by blast
  obtain h' where h': "pitch_prefilter t lg h = Some h'" "s16_arr 40 h'"
    using pitch_prefilter_ok [OF h, of t lg] t by auto
  obtain c mx where c: "correlation32 tg h' = Some (c, mx)" "s32_arr 40 c" "0 \<le> mx" "mx < 2147483648"
    using correlation32_ok [OF tg(2) _ h'(2)] by auto
  obtain d where d: "correlation13 c mx = Some d" "s16_arr 40 d" using correlation13_ok [OF c(2-4)] by blast
  obtain cs sg Q where cm: "computeImpulseResponseCorrelationMatrix h' d Phi0 = Some (cs, sg, Q)"
    "s16_arr 40 cs" "sign_arr sg" "arr2 is_s32 40 40 Q" using correlation_matrix_ok [OF h'(2) d(2) P] by blast
  obtain st where st: "search_pulses cs Q = Some st" "search_ok st" using search_pulses_ok [OF cm(2,4)] by blast
  obtain i0 i1 i2 i3 where ps: "ps_pulses st = (i0, i1, i2, i3)" by (metis prod_cases4)
  have p4: "positions4 (i0, i1, i2, i3)" and jx: "ps_jx st \<in> {0, 1}" using st(2) by (simp_all add: search_ok_def ps)
  obtain u where u: "four_pulses sg (i0, i1, i2, i3) = Some u" "small_pulses u" using four_pulses_ok [OF cm(3) p4] by blast
  obtain u' where u': "pitch_prefilter t lg u = Some u'" "s16_arr 40 u'" "0 < energy u' 40" "energy u' 40 < 2147483648"
    using prefilter_energy [OF u(2) t lg] by blast
  obtain w where w: "convolved_pulses h' sg (i0, i1, i2, i3) cv = Some w" "s16_arr 40 w"
    using convolved_pulses_ok [OF h'(2) _ cm(3) p4 v] by auto
  have g: "get sg i = Some (sg ! nat i) \<and> sg ! nat i \<in> {-1, 1}" if "position i" for i
    by (rule sign_arr_get [OF cm(3) that])
  have "position i0" "position i1" "position i2" "position i3" using p4 by (simp_all add: positions4_def)
  note gs = this [THEN g]
  have cs: "0 \<le> code_of_signs (sg ! nat i0) (sg ! nat i1) (sg ! nat i2) (sg ! nat i3)"
    "code_of_signs (sg ! nat i0) (sg ! nat i1) (sg ! nat i2) (sg ! nat i3) < 16"
    using gs by (simp_all add: code_of_signs_eq sign_bit_def)
  have gets: "get sg i0 = Some (sg ! nat i0)" "get sg i1 = Some (sg ! nat i1)" "get sg i2 = Some (sg ! nat i2)"
    "get sg i3 = Some (sg ! nat i3)" using gs by blast+
  have "fixedCodebookSearch Phi0 x h t lg f g cv = Some (h', code_of_pulses (i0, i1, i2, i3) (ps_jx st),
      code_of_signs (sg ! nat i0) (sg ! nat i1) (sg ! nat i2) (sg ! nat i3), u', w)"
    unfolding fixedCodebookSearch_def tg(1) h'(1) c(1) d(1) cm(1) st(1) ps u(1) u'(1) w(1) gets
      Option.bind.simps split_conv Let_def ..
  then show ?thesis using cs code_of_pulses_eq(2,3) [OF p4 jx] u'(2-4) w(2) by blast
qed


section \<open>The pulses reach the decoder\<close>

text \<open>A quadruple on the tracks, with the bit that tells the two tracks of the last pulse apart.\<close>

definition on_tracks :: "int \<times> int \<times> int \<times> int \<Rightarrow> int \<Rightarrow> bool" where
  "on_tracks = (\<lambda>(i0, i1, i2, i3) jx. i0 \<in> set (track 0) \<and> i1 \<in> set (track 1) \<and> i2 \<in> set (track 2)
     \<and> jx \<in> {0, 1} \<and> i3 \<in> set (track (3 + jx)))"

lemma on_tracks_positions: "on_tracks ps jx \<Longrightarrow> positions4 ps"
  by (cases ps) (auto simp: on_tracks_def positions4_def track_position)

lemma octal_digit: "0 \<le> a \<Longrightarrow> a < 8 \<Longrightarrow> (a + 8 * k) mod 8 = a \<and> SHR (a + 8 * k) 3 = k" for a k :: int
  by (simp add: SHR_def shr_def)

lemma digits:
  fixes a b c d j :: int
  assumes "0 \<le> a \<and> a < 8" "0 \<le> b \<and> b < 8" "0 \<le> c \<and> c < 8" "p = a + 8 * b + 64 * c + 512 * (2 * d + j)"
  shows "p mod 8 = a" "SHR p 3 mod 8 = b" "SHR (SHR p 3) 3 mod 8 = c" "SHR (SHR (SHR p 3) 3) 3 = 2 * d + j"
proof -
  have p: "p = a + 8 * (b + 8 * (c + 8 * (2 * d + j)))" using assms(4) by simp
  then show "p mod 8 = a" using octal_digit assms(1) by blast
  have 1: "SHR p 3 = b + 8 * (c + 8 * (2 * d + j))" using p octal_digit assms(1) by blast
  then show "SHR p 3 mod 8 = b" using octal_digit assms(2) by metis
  have 2: "SHR (SHR p 3) 3 = c + 8 * (2 * d + j)" using 1 octal_digit assms(2) by metis
  then show "SHR (SHR p 3) 3 mod 8 = c" using octal_digit assms(3) by metis
  show "SHR (SHR (SHR p 3) 3) 3 = 2 * d + j" using 2 octal_digit assms(3) by metis
qed

lemma pulse_positions_of_code:
  assumes "on_tracks (i0, i1, i2, i3) jx"
  shows "pulse_positions (code_of_pulses (i0, i1, i2, i3) jx) = [i0, i1, i2, i3]"
proof -
  have t: "i0 \<in> set (track 0)" "i1 \<in> set (track 1)" "i2 \<in> set (track 2)" "i3 \<in> set (track (3 + jx))"
    and j: "jx = 0 \<or> jx = 1" using assms by (auto simp: on_tracks_def)
  have m: "i0 mod 5 = 0" "i1 mod 5 = 1" "i2 mod 5 = 2" "i3 mod 5 = 3 + jx"
    and b: "0 \<le> i0" "i0 \<le> 39" "0 \<le> i1" "i1 \<le> 39" "0 \<le> i2" "i2 \<le> 39" "0 \<le> i3" "i3 \<le> 39"
    using track_range [OF t(1)] track_range [OF t(2)] track_range [OF t(3)] track_range [OF t(4)] j by auto
  have q: "0 \<le> i div 5 \<and> i div 5 < 8" if "0 \<le> i" "i \<le> 39" for i :: int using that by auto
  have p: "positions4 (i0, i1, i2, i3)" "jx \<in> {0, 1}" using on_tracks_positions assms j by blast+
  have c: "code_of_pulses (i0, i1, i2, i3) jx
      = i0 div 5 + 8 * (i1 div 5) + 64 * (i2 div 5) + 512 * (2 * (i3 div 5) + jx)"
    by (rule code_of_pulses_eq [OF p])
  note d = digits [OF q [OF b(1,2)] q [OF b(3,4)] q [OF b(5,6)] c]
  have "SHR (2 * (i3 div 5) + jx) 1 mod 8 = i3 div 5" "(2 * (i3 div 5) + jx) mod 2 = jx"
    using j q [OF b(7,8)] by (auto simp: SHR_def shr_def)
  moreover have "i div 5 * 5 = i - i mod 5" for i :: int by (simp add: minus_mod_eq_div_mult)
  ultimately show ?thesis by (simp add: pulse_positions_def Let_def d m)
qed

lemma pulse_sign_of_code:
  assumes "s0 \<in> {-1, 1}" "s1 \<in> {-1, 1}" "s2 \<in> {-1, 1}" "s3 \<in> {-1, 1}"
  shows "pulse_sign (code_of_signs s0 s1 s2 s3) 0 = s0 * 8192" "pulse_sign (code_of_signs s0 s1 s2 s3) 1 = s1 * 8192"
    "pulse_sign (code_of_signs s0 s1 s2 s3) 2 = s2 * 8192" "pulse_sign (code_of_signs s0 s1 s2 s3) 3 = s3 * 8192"
  using assms by (auto simp: code_of_signs_eq sign_bit_def pulse_sign_def shr_def)

lemma pulses_of_code:
  assumes "sign_arr s" "on_tracks (i0, i1, i2, i3) jx"
  shows "four_pulses s (i0, i1, i2, i3) = Some (pulses
    (code_of_signs (s ! nat i0) (s ! nat i1) (s ! nat i2) (s ! nat i3)) (code_of_pulses (i0, i1, i2, i3) jx))"
proof -
  have p: "positions4 (i0, i1, i2, i3)" by (rule on_tracks_positions [OF assms(2)])
  then have "position i0" "position i1" "position i2" "position i3" by (simp_all add: positions4_def)
  note g = this [THEN sign_arr_get [OF assms(1)], THEN conjunct2]
  show ?thesis
    unfolding four_pulses_eq [OF assms(1) p] pulses_def pulse_positions_of_code [OF assms(2)] Let_def
    using pulse_sign_of_code [OF g] by (simp add: sign_pulse_def)
qed



end
