(* ===== verification/G729_GainSearch.thy ===== *)
theory G729_GainSearch
  imports G729_FixedSearch
begin

text \<open>
  Quantisation of the two gains of a subframe (\<open>gainQuantization.c\<close>): the scalar products of
  the error criterion on 64 bits, scaled together to 32, the gains that minimise it, the
  preselection in the two codebooks and the search of the best pair of entries.
\<close>

definition initGainQuantization :: "int list \<Rightarrow> int list option" where
  "initGainQuantization prevError = for_up 0 4 (\<lambda>i e. put e i (-14336)) prevError"

section \<open>Scalar products\<close>

record gain_terms =
  gt_xy :: int
  gt_yy :: int
  gt_xz :: int
  gt_yz :: int
  gt_zz :: int

definition products64 :: "int list \<Rightarrow> int list \<Rightarrow> int list \<Rightarrow> (int \<times> int \<times> int) option" where
  "products64 targetSignal filtered convolved = for_up 0 L_SUBFRAME (\<lambda>i (xz, yz, zz). do {
     x \<leftarrow> get targetSignal i;
     y \<leftarrow> get filtered i;
     z \<leftarrow> get convolved i;
     Some (MAC64 xz x z, MAC64 yz y z, MAC64 zz z z) }) (0, 0, 0)"

text \<open>\<open>((x<0)?-x:x)\<close> on 64 bits.\<close>

definition abs64 :: "int \<Rightarrow> int" where
  "abs64 x = (if x < 0 then s64 (- x) else x)"

definition lower_norm :: "int \<Rightarrow> int \<Rightarrow> int option" where
  "lower_norm v minNormalization = do {
     z \<leftarrow> countLeadingZeros v;
     let n = u16 z;
     Some (if n < minNormalization then n else minNormalization) }"

definition scale_terms :: "int \<Rightarrow> int \<Rightarrow> int \<Rightarrow> int \<Rightarrow> int \<Rightarrow> gain_terms option" where
  "scale_terms xy64 yy64 xz64 yz64 zz64 = do {
     n \<leftarrow> lower_norm (s32 (SHR64 (abs64 xy64) 30)) 31;
     n \<leftarrow> lower_norm (s32 (SHR64 (abs64 xz64) 30)) n;
     n \<leftarrow> lower_norm (s32 (SHR64 (abs64 yz64) 30)) n;
     n \<leftarrow> lower_norm (s32 (SHR64 yy64 31)) n;
     n \<leftarrow> lower_norm (s32 (SHR64 zz64 31)) n;
     let shift = (if n < 31 then nat (31 - n) else 0);
     Some \<lparr>gt_xy = s32 (SHR64 xy64 shift), gt_yy = s32 (SHR64 yy64 shift),
           gt_xz = s32 (SHR64 xz64 shift), gt_yz = s32 (SHR64 yz64 shift),
           gt_zz = s32 (SHR64 zz64 shift)\<rparr> }"

section \<open>Best gains\<close>

text \<open>\<open>numerator / denominator\<close> in Qn, avoiding the overflow of the shifted numerator.\<close>

definition scaled_division :: "nat \<Rightarrow> int \<Rightarrow> int \<Rightarrow> int option" where
  "scaled_division n numerator denominator = do {
     let numeratorH = s32 (SHR64 numerator 32);
     let numeratorH = (if numeratorH > 0 then numeratorH else s32 (- numeratorH));
     z \<leftarrow> countLeadingZeros numeratorH;
     let norm = u16 z;
     Some (if norm \<ge> int n then s32 (DIV64 (SHL64 numerator n) denominator)
       else let shifted = SHR64 denominator (nat (int n - norm))
            in if shifted > 0 then s32 (DIV64 (SHL64 numerator (nat norm)) shifted)
               else SHL (s32 (DIV64 (SHL64 numerator (nat norm)) denominator)) (nat (int n - norm))) }"

text \<open>The adaptive gain in Q9 and the fixed gain in Q2.\<close>

definition best_gains :: "gain_terms \<Rightarrow> (int \<times> int) option" where
  "best_gains g = (
     let denominator = MAC64 (MULT32_32 (gt_yy g) (gt_zz g)) (s32 (- gt_yz g)) (gt_yz g);
         numeratorA = MAC64 (MULT32_32 (gt_zz g) (gt_xy g)) (s32 (- gt_xz g)) (gt_yz g);
         numeratorF = MAC64 (MULT32_32 (gt_yy g) (gt_xz g)) (s32 (- gt_xy g)) (gt_yz g)
     in if denominator = 0 then Some (s32 (SHR64 numeratorA 15), s32 (SHR64 numeratorF 10))
        else do {
          a \<leftarrow> scaled_division 9 numeratorA denominator;
          f \<leftarrow> scaled_division 14 numeratorF denominator;
          Some (a, f) })"

section \<open>Preselection and search\<close>

text \<open>\<open>while (index < limit && gain > threshold(index)) index++\<close>\<close>

function preselect :: "int \<Rightarrow> int \<Rightarrow> (int \<Rightarrow> int option) \<Rightarrow> int \<Rightarrow> int option" where
  "preselect limit gain threshold i =
    (if i < limit then do {
       t \<leftarrow> threshold i;
       if gain > t then preselect limit gain threshold (i + 1) else Some i }
     else Some i)"
  by pat_completeness auto
termination by (relation "measure (\<lambda>(limit, g, t, i). nat (limit - i))") auto

definition back_off :: "nat \<Rightarrow> int \<Rightarrow> int" where
  "back_off n i = (if i > int n then i - int n else if i > 0 then 0 else i)"

definition index_base_GA :: "int \<Rightarrow> int \<Rightarrow> int option" where
  "index_base_GA bestFixed predicted = do {
     i \<leftarrow> preselect 6 bestFixed (\<lambda>i. do { g \<leftarrow> get2 GACodebook i 1; Some (MULT16_16_Q14 g predicted) }) 0;
     Some (back_off 2 i) }"

definition index_base_GB :: "int \<Rightarrow> int option" where
  "index_base_GB bestAdaptative = do {
     i \<leftarrow> preselect 12 bestAdaptative (\<lambda>i. do { g \<leftarrow> get2 GBCodebook i 0; Some (SHR g 5) }) 0;
     Some (back_off 4 i) }"

text \<open>The pair of gains of two codebook entries: adaptive (Q14), correction factor (Q12).\<close>

definition codebook_gains :: "int \<Rightarrow> int \<Rightarrow> (int \<times> int) option" where
  "codebook_gains iA iB = do {
     a0 \<leftarrow> get2 GACodebook iA 0; b0 \<leftarrow> get2 GBCodebook iB 0;
     a1 \<leftarrow> get2 GACodebook iA 1; b1 \<leftarrow> get2 GBCodebook iB 1;
     Some (ADD16 a0 b0, ADD16 a1 b1) }"

definition gain_error :: "gain_terms \<Rightarrow> int \<Rightarrow> int \<Rightarrow> int" where
  "gain_error g gp gc = (
     let acc = MULT32_32 (MULT16_16 gp gp) (gt_yy g);
         acc = MAC64 acc (MULT16_16 gc gc) (gt_zz g);
         acc = MAC64 acc (s32 (gp * 2 ^ 14)) (gt_xy g);
         acc = MAC64 acc (s32 (gc * 2 ^ 14)) (gt_xz g)
     in MAC64 acc (MULT16_16 gp gc) (gt_yz g))"

text \<open>The search keeps the least error, the indexes and the two quantised gains.\<close>

record gain_choice =
  gc_distance :: int
  gc_GA :: int
  gc_GB :: int
  gc_pitch :: int
  gc_code :: int

definition try_gains :: "gain_terms \<Rightarrow> int \<Rightarrow> int \<Rightarrow> int \<Rightarrow> gain_choice \<Rightarrow> gain_choice option" where
  "try_gains g predicted iA iB st = do {
     (gp, gamma) \<leftarrow> codebook_gains iA iB;
     let gc = MULT16_16_Q14 gamma predicted;
     let acc = gain_error g gp gc;
     Some (if acc < gc_distance st
       then \<lparr>gc_distance = acc, gc_GA = iA, gc_GB = iB, gc_pitch = gp, gc_code = s16 (SHR gc 1)\<rparr>
       else st) }"

definition search_gains :: "gain_terms \<Rightarrow> int \<Rightarrow> int \<Rightarrow> int \<Rightarrow> gain_choice option" where
  "search_gains g predicted baseA baseB =
     for_up 0 4 (\<lambda>i st. for_up 0 8 (\<lambda>j st. try_gains g predicted (i + baseA) (j + baseB) st) st)
       \<lparr>gc_distance = MAXINT64, gc_GA = 0, gc_GB = 0, gc_pitch = 0, gc_code = 0\<rparr>"

text \<open>Results: prediction error history, quantised pitch and code gains, parameters GA and GB.\<close>

definition gainQuantization :: "int list \<Rightarrow> int list \<Rightarrow> int list \<Rightarrow> int list \<Rightarrow> int list \<Rightarrow> int \<Rightarrow> int \<Rightarrow>
    (int list \<times> int \<times> int \<times> int \<times> int) option" where
  "gainQuantization prevError targetSignal filtered convolved fixedCodebookVector xy64 yy64 = do {
     (xz64, yz64, zz64) \<leftarrow> products64 targetSignal filtered convolved;
     g \<leftarrow> scale_terms xy64 yy64 xz64 yz64 zz64;
     (bestAdaptative, bestFixed) \<leftarrow> best_gains g;
     p \<leftarrow> MACodeGainPrediction prevError fixedCodebookVector;
     let predicted = s16 (shr p 12);
     baseA \<leftarrow> index_base_GA bestFixed predicted;
     baseB \<leftarrow> index_base_GB bestAdaptative;
     let g = g\<lparr>gt_xy := s32 (- SHL (gt_xy g) 1), gt_xz := s32 (- SHL (gt_xz g) 1),
               gt_yz := SHL (gt_yz g) 1\<rparr>;
     st \<leftarrow> search_gains g predicted baseA baseB;
     a1 \<leftarrow> get2 GACodebook (gc_GA st) 1;
     b1 \<leftarrow> get2 GBCodebook (gc_GB st) 1;
     prevError \<leftarrow> computeGainPredictionError (ADD16 a1 b1) prevError;
     s1 \<leftarrow> get indexMappingGA (gc_GA st);
     s2 \<leftarrow> get indexMappingGB (gc_GB st);
     Some (prevError, gc_pitch st, gc_code st, s1, s2) }"


section \<open>All accesses are in bounds and the counts of leading zeros end\<close>

lemma products64_ok:
  assumes "s16_arr a x" "40 \<le> a" "s16_arr b y" "40 \<le> b" "s16_arr c z" "40 \<le> c"
  shows "\<exists>xz yz zz. products64 x y z = Some (xz, yz, zz)
    \<and> \<bar>xz\<bar> \<le> 42949672960 \<and> \<bar>yz\<bar> \<le> 42949672960 \<and> 0 \<le> zz \<and> zz \<le> 42949672960"
proof -
  let ?I = "\<lambda>i t. case t of (xz, yz, zz) \<Rightarrow> \<bar>xz\<bar> \<le> int i * 1073741824 \<and> \<bar>yz\<bar> \<le> int i * 1073741824
    \<and> 0 \<le> zz \<and> zz \<le> int i * 1073741824"
  have "\<exists>t. products64 x y z = Some t \<and> ?I 40 t"
    unfolding products64_def L_SUBFRAME_def
  proof (rule for_up_rule [where P = ?I])
    fix i and t :: "int \<times> int \<times> int"
    assume i: "0 \<le> i" "i < (40::nat)" and t: "?I i t"
    obtain xz yz zz where ts: "t = (xz, yz, zz)" by (metis prod_cases3)
    let ?u = "x ! i" and ?v = "y ! i" and ?w = "z ! i"
    have s: "is_s16 ?u" "is_s16 ?v" "is_s16 ?w"
      using assms i by (auto intro!: arr_nth [OF assms(1)] arr_nth [OF assms(3)] arr_nth [OF assms(5)])
    have p: "\<bar>?u * ?w\<bar> \<le> 1073741824" "\<bar>?v * ?w\<bar> \<le> 1073741824" "0 \<le> ?w * ?w" "?w * ?w \<le> 1073741824"
      using mult_bounds [OF is_s16_abs is_s16_abs, OF s(1,3)] mult_bounds [OF is_s16_abs is_s16_abs, OF s(2,3)]
        mult_bounds [OF is_s16_abs is_s16_abs, OF s(3,3)] by auto
    have "int i * 1073741824 \<le> 40 * 1073741824" using i by simp
    then have m: "MAC64 xz ?u ?w = xz + ?u * ?w" "MAC64 yz ?v ?w = yz + ?v * ?w" "MAC64 zz ?w ?w = zz + ?w * ?w"
      using s p t by (auto intro!: MAC64_exact simp: ts)
    have "int (Suc i) * 1073741824 = int i * 1073741824 + 1073741824" by (simp add: algebra_simps)
    then have "\<bar>xz + ?u * ?w\<bar> \<le> int (Suc i) * 1073741824" "\<bar>yz + ?v * ?w\<bar> \<le> int (Suc i) * 1073741824"
      "0 \<le> zz + ?w * ?w" "zz + ?w * ?w \<le> int (Suc i) * 1073741824"
      using t p by (simp_all only: ts split_conv) linarith+
    then show "\<exists>u. (case t of (xz, yz, zz) \<Rightarrow> do {
        x \<leftarrow> get x (int i); y \<leftarrow> get y (int i); z \<leftarrow> get z (int i);
        Some (MAC64 xz x z, MAC64 yz y z, MAC64 zz z z) }) = Some u \<and> ?I (Suc i) u"
      using assms i m by (simp add: ts)
  qed simp_all
  then show ?thesis by auto
qed

text \<open>A norm leaves the value, and anything with the same upper bits, on 31 bits.\<close>

lemma lower_norm_ok:
  assumes "0 \<le> v" "v < 2147483648" "0 \<le> m" "m \<le> 31"
  shows "\<exists>n. lower_norm v m = Some n \<and> 0 \<le> n \<and> n \<le> m \<and> (v + 1) * 2 ^ nat n \<le> 2147483648"
proof -
  obtain z where z: "countLeadingZeros v = Some (int z)" "z \<le> 31" "(v + 1) * 2 ^ z \<le> 2147483648"
  proof (cases "v = 0")
    case True
    then show ?thesis using that [of 31] by (simp add: countLeadingZeros_def)
  next
    case False
    then obtain k where k: "countLeadingZeros v = Some (int k)" "k \<le> 30" "v * 2 ^ k < 2147483648"
      using countLeadingZeros_spec [of v] assms by auto
    have e: "(2147483648::int) = 2 ^ (31 - k) * 2 ^ k" using k(2) by (simp flip: power_add)
    have "v * 2 ^ k < 2 ^ (31 - k) * 2 ^ k" using k(3) e by linarith
    then have "v < 2 ^ (31 - k)" by simp
    then have "(v + 1) * 2 ^ k \<le> 2 ^ (31 - k) * 2 ^ k" by (intro mult_right_mono) auto
    then show ?thesis using that [of k] k e by simp
  qed
  define n where "n = min (int z) m"
  have "u16 (int z) = int z" using z(2) by (simp add: u16_def)
  then have l: "lower_norm v m = Some n" using z(1) by (simp add: lower_norm_def n_def Let_def min_def)
  have "(2::int) ^ nat n \<le> 2 ^ z" by (rule power_increasing) (auto simp: n_def)
  then have "(v + 1) * 2 ^ nat n \<le> (v + 1) * 2 ^ z" using assms(1) by (intro mult_left_mono) auto
  then have "(v + 1) * 2 ^ nat n \<le> 2147483648" using z(3) by linarith
  moreover have "0 \<le> n" "n \<le> m" using assms by (auto simp: n_def)
  ultimately show ?thesis using l by blast
qed

lemma scaled_bound:
  assumes "0 \<le> n" "n \<le> N" "N \<le> 31" "(v + 1) * 2 ^ nat N \<le> 2147483648" "v = shr \<bar>x\<bar> k" "1 \<le> k"
  shows "\<bar>shr x (nat (31 - n))\<bar> \<le> 2 ^ k"
proof -
  have e: "(2147483648::int) = 2 ^ nat (31 - n) * 2 ^ nat n"
    using assms by (simp flip: power_add nat_add_distrib)
  have v: "0 \<le> v" using assms(5) by (simp add: shr_def pos_imp_zdiv_nonneg_iff)
  have "(v + 1) * 2 ^ nat n \<le> (v + 1) * 2 ^ nat N" using assms v by (intro mult_left_mono power_increasing) auto
  then have "(v + 1) * 2 ^ nat n \<le> 2 ^ nat (31 - n) * 2 ^ nat n" using e assms(4) by linarith
  then have v1: "v + 1 \<le> 2 ^ nat (31 - n)" by simp
  have "\<bar>x\<bar> = v * 2 ^ k + \<bar>x\<bar> mod 2 ^ k" unfolding assms(5) shr_def div_mult_mod_eq ..
  moreover have "\<bar>x\<bar> mod 2 ^ k < 2 ^ k" by (rule pos_mod_bound) simp
  ultimately have "\<bar>x\<bar> < (v + 1) * 2 ^ k" unfolding distrib_right by linarith
  also have "\<dots> \<le> 2 ^ nat (31 - n) * 2 ^ k" by (rule mult_right_mono [OF v1]) simp
  finally have "\<bar>x\<bar> < 2 ^ k * 2 ^ nat (31 - n)" by (simp add: mult.commute)
  then have x: "- (2 ^ k * 2 ^ nat (31 - n)) \<le> x" "x \<le> 2 ^ k * 2 ^ nat (31 - n)" by linarith+
  have "shr x (nat (31 - n)) \<le> (2 ^ k * 2 ^ nat (31 - n)) div 2 ^ nat (31 - n)"
    unfolding shr_def using x by (intro zdiv_mono1) auto
  moreover have "(- (2 ^ k :: int) * 2 ^ nat (31 - n)) div 2 ^ nat (31 - n) \<le> shr x (nat (31 - n))"
    unfolding shr_def using x by (intro zdiv_mono1) auto
  moreover have "(- (2 ^ k :: int) * 2 ^ nat (31 - n)) div 2 ^ nat (31 - n) = - (2 ^ k)"
    by (rule nonzero_mult_div_cancel_right) simp
  ultimately have "shr x (nat (31 - n)) \<le> 2 ^ k" "- (2 ^ k) \<le> shr x (nat (31 - n))" by simp_all
  then show ?thesis by linarith
qed


lemma scaled_less:
  assumes "0 \<le> n" "n \<le> N" "N \<le> 31" "(shr x 31 + 1) * 2 ^ nat N \<le> 2147483648" "0 \<le> x"
  shows "\<bar>shr x (nat (31 - n))\<bar> \<le> 2147483647"
proof -
  have e: "(2147483648::int) = 2 ^ nat (31 - n) * 2 ^ nat n"
    using assms by (simp flip: power_add nat_add_distrib)
  have v: "0 \<le> shr x 31" using assms(5) by (simp add: shr_def)
  have "(shr x 31 + 1) * 2 ^ nat n \<le> (shr x 31 + 1) * 2 ^ nat N"
    using assms v by (intro mult_left_mono power_increasing) auto
  then have "(shr x 31 + 1) * 2 ^ nat n \<le> 2 ^ nat (31 - n) * 2 ^ nat n" using e assms(4) by linarith
  then have v1: "shr x 31 + 1 \<le> 2 ^ nat (31 - n)" by simp
  have "x < (shr x 31 + 1) * 2147483648" by (simp add: shr_def)
  also have "\<dots> \<le> 2 ^ nat (31 - n) * 2147483648" by (rule mult_right_mono [OF v1]) simp
  finally have "shr x (nat (31 - n)) < 2147483648"
    unfolding shr_def by (intro int_div_less) (simp_all add: mult.commute)
  moreover have "0 \<le> shr x (nat (31 - n))" using assms(5) by (simp add: shr_def pos_imp_zdiv_nonneg_iff)
  ultimately show ?thesis by simp
qed

definition small_terms :: "gain_terms \<Rightarrow> bool" where
  "small_terms g \<longleftrightarrow> \<bar>gt_xy g\<bar> \<le> 1073741824 \<and> \<bar>gt_xz g\<bar> \<le> 1073741824 \<and> \<bar>gt_yz g\<bar> \<le> 1073741824
     \<and> \<bar>gt_yy g\<bar> \<le> 2147483647 \<and> \<bar>gt_zz g\<bar> \<le> 2147483647"

lemma scale_terms_ok:
  assumes "\<bar>xy\<bar> \<le> 42949672960" "0 \<le> yy" "yy \<le> 42949672960" "\<bar>xz\<bar> \<le> 42949672960"
    "\<bar>yz\<bar> \<le> 42949672960" "0 \<le> zz" "zz \<le> 42949672960"
  shows "\<exists>g. scale_terms xy yy xz yz zz = Some g \<and> small_terms g"
proof -
  have a: "abs64 v = \<bar>v\<bar>" if "\<bar>v\<bar> \<le> 42949672960" for v
    using that by (auto simp: abs64_def intro!: s64_idI)
  have q: "0 \<le> shr v k \<and> shr v k \<le> 40 \<and> s32 (shr v k) = shr v k" if "0 \<le> v" "v \<le> 42949672960" "30 \<le> k" for v and k :: nat
  proof -
    have "(2::int) ^ 30 \<le> 2 ^ k" using that(3) by (rule power_increasing) simp
    then have "v div 2 ^ k \<le> v div 2 ^ 30" using that(1) by (intro zdiv_mono2) auto
    also have "\<dots> \<le> 40" using that(2) by simp
    finally have "v div 2 ^ k \<le> 40" .
    moreover have "0 \<le> v div 2 ^ k" using that(1) by (simp add: pos_imp_zdiv_nonneg_iff)
    ultimately show ?thesis by (auto simp: shr_def intro!: s32_idI)
  qed
  let ?a = "shr \<bar>xy\<bar> 30" and ?b = "shr \<bar>xz\<bar> 30" and ?c = "shr \<bar>yz\<bar> 30" and ?d = "shr yy 31" and ?e = "shr zz 31"
  have A: "0 \<le> ?a \<and> ?a \<le> 40 \<and> s32 ?a = ?a" and B: "0 \<le> ?b \<and> ?b \<le> 40 \<and> s32 ?b = ?b"
    and C: "0 \<le> ?c \<and> ?c \<le> 40 \<and> s32 ?c = ?c" and D: "0 \<le> ?d \<and> ?d \<le> 40 \<and> s32 ?d = ?d"
    and E: "0 \<le> ?e \<and> ?e \<le> 40 \<and> s32 ?e = ?e"
    using q assms by auto
  obtain n1 where 1: "lower_norm ?a 31 = Some n1" "0 \<le> n1" "n1 \<le> 31" "(?a + 1) * 2 ^ nat n1 \<le> 2147483648"
    using lower_norm_ok [of ?a 31] A by auto
  obtain n2 where 2: "lower_norm ?b n1 = Some n2" "0 \<le> n2" "n2 \<le> n1" "(?b + 1) * 2 ^ nat n2 \<le> 2147483648"
    using lower_norm_ok [of ?b n1] B 1 by auto
  obtain n3 where 3: "lower_norm ?c n2 = Some n3" "0 \<le> n3" "n3 \<le> n2" "(?c + 1) * 2 ^ nat n3 \<le> 2147483648"
    using lower_norm_ok [of ?c n2] C 1 2 by auto
  obtain n4 where 4: "lower_norm ?d n3 = Some n4" "0 \<le> n4" "n4 \<le> n3" "(?d + 1) * 2 ^ nat n4 \<le> 2147483648"
    using lower_norm_ok [of ?d n3] D 1 2 3 by auto
  obtain n where 5: "lower_norm ?e n4 = Some n" "0 \<le> n" "n \<le> n4" "(?e + 1) * 2 ^ nat n \<le> 2147483648"
    using lower_norm_ok [of ?e n4] E 1 2 3 4 by auto
  have sh: "(if n < 31 then nat (31 - n) else 0) = nat (31 - n)" by simp
  have le: "n \<le> n1" "n \<le> n2" "n \<le> n3" "n \<le> n4" "n1 \<le> 31" "n2 \<le> 31" "n3 \<le> 31" "n4 \<le> 31" "n \<le> 31"
    using 1 2 3 4 5 by linarith+
  have b: "\<bar>shr xy (nat (31 - n))\<bar> \<le> 1073741824" "\<bar>shr xz (nat (31 - n))\<bar> \<le> 1073741824"
    "\<bar>shr yz (nat (31 - n))\<bar> \<le> 1073741824"
    using scaled_bound [OF 5(2) le(1,5) 1(4) refl] scaled_bound [OF 5(2) le(2,6) 2(4) refl]
      scaled_bound [OF 5(2) le(3,7) 3(4) refl] by simp_all
  have c: "\<bar>shr yy (nat (31 - n))\<bar> \<le> 2147483647" "\<bar>shr zz (nat (31 - n))\<bar> \<le> 2147483647"
    by (rule scaled_less [OF 5(2) le(4,8) 4(4) assms(2)], rule scaled_less [OF 5(2) _ le(9) 5(4) assms(6)]) simp
  have i: "s32 x = x" if "\<bar>x\<bar> \<le> 2147483647" for x using that by (auto intro!: s32_idI)
  have "scale_terms xy yy xz yz zz = Some \<lparr>gt_xy = shr xy (nat (31 - n)), gt_yy = shr yy (nat (31 - n)),
      gt_xz = shr xz (nat (31 - n)), gt_yz = shr yz (nat (31 - n)), gt_zz = shr zz (nat (31 - n))\<rparr>"
    unfolding scale_terms_def SHR64_def a [OF assms(1)] a [OF assms(4)] a [OF assms(5)]
      A [THEN conjunct2, THEN conjunct2] B [THEN conjunct2, THEN conjunct2] C [THEN conjunct2, THEN conjunct2]
      D [THEN conjunct2, THEN conjunct2] E [THEN conjunct2, THEN conjunct2] 1(1) 2(1) 3(1) 4(1) 5(1)
      Option.bind.simps sh Let_def
    using b c by (simp add: i)
  with b c show ?thesis by (simp add: small_terms_def)
qed

text \<open>The products of the closed form stay on 63 bits, so the quotients are always defined.\<close>

lemma small_products:
  assumes "\<bar>a\<bar> \<le> 2147483647" "\<bar>b\<bar> \<le> 1073741824" "\<bar>c\<bar> \<le> 1073741824" "\<bar>d\<bar> \<le> 1073741824"
  shows "\<bar>MAC64 (MULT32_32 a b) (s32 (- c)) d\<bar> \<le> 4611686018427387904"
proof -
  have p: "\<bar>a * b\<bar> \<le> 2147483647 * 1073741824" "\<bar>(- c) * d\<bar> \<le> 1073741824 * 1073741824"
    using mult_bounds [OF assms(1,2)] mult_bounds [of "- c" 1073741824 d 1073741824] assms by auto
  have "s32 (- c) = - c" using assms(3) by (intro s32_idI) auto
  moreover have "s64 d = d" "s64 (- c) = - c" "s64 ((- c) * d) = (- c) * d" "s64 (a * b) = a * b"
    "s64 (a * b + (- c) * d) = a * b + (- c) * d" "s64 a = a" "s64 b = b" "s32 a = a" "s32 b = b"
    using assms p by (auto intro!: s64_idI s32_idI)
  ultimately have "MAC64 (MULT32_32 a b) (s32 (- c)) d = a * b + (- c) * d"
    by (simp add: MAC64_def MULT32_32_def)
  then show ?thesis using p by linarith
qed

lemma scaled_division_ok:
  assumes "\<bar>num\<bar> \<le> 4611686018427387904"
  shows "\<exists>q. scaled_division n num den = Some q"
proof -
  have b: "- 1073741824 \<le> shr num 32" "shr num 32 \<le> 1073741824" using assms by (simp_all add: shr_def)
  define h where "h = (if shr num 32 > 0 then shr num 32 else - shr num 32)"
  have s: "s32 (shr num 32) = shr num 32" "s32 (- shr num 32) = - shr num 32"
    using b by (auto intro!: s32_idI)
  have "0 \<le> h" "h < 2147483648" using b by (auto simp: h_def)
  then obtain z where "countLeadingZeros h = Some z"
    using countLeadingZeros_spec [of h] by (cases "h = 0") (auto simp: countLeadingZeros_def)
  then show ?thesis
    unfolding scaled_division_def SHR64_def s Let_def h_def [symmetric] if_distrib [of Some, symmetric] by simp
qed

lemma best_gains_ok:
  assumes "small_terms g"
  shows "\<exists>a f. best_gains g = Some (a, f)"
proof -
  note s = assms [unfolded small_terms_def]
  have "\<bar>MAC64 (MULT32_32 (gt_zz g) (gt_xy g)) (s32 (- gt_xz g)) (gt_yz g)\<bar> \<le> 4611686018427387904"
    "\<bar>MAC64 (MULT32_32 (gt_yy g) (gt_xz g)) (s32 (- gt_xy g)) (gt_yz g)\<bar> \<le> 4611686018427387904"
    using s by (intro small_products; simp)+
  note q = this [THEN scaled_division_ok]
  define den where "den = MAC64 (MULT32_32 (gt_yy g) (gt_zz g)) (s32 (- gt_yz g)) (gt_yz g)"
  show ?thesis using q(1) [of 9 den] q(2) [of 14 den]
    unfolding best_gains_def Let_def den_def [symmetric] by auto
qed

section \<open>The preselected and chosen entries\<close>

declare preselect.simps [simp del]

lemma preselect_ok:
  assumes "\<And>i. 0 \<le> i \<Longrightarrow> i < limit \<Longrightarrow> \<exists>t. threshold i = Some t" "0 \<le> i" "i \<le> limit"
  shows "\<exists>j. preselect limit gain threshold i = Some j \<and> 0 \<le> j \<and> j \<le> limit"
  using assms
proof (induction limit gain threshold i rule: preselect.induct)
  case (1 limit gain threshold i)
  show ?case
  proof (cases "i < limit")
    case True
    then obtain t where "threshold i = Some t" using 1 by blast
    with 1 True show ?thesis by (cases "gain > t") (auto simp: preselect.simps [of limit gain threshold i])
  next
    case False
    then have "preselect limit gain threshold i = Some i" by (simp add: preselect.simps [of limit gain threshold i])
    then show ?thesis using 1 by simp
  qed
qed

lemma index_base_GA_ok: "\<exists>i. index_base_GA best pred = Some i \<and> 0 \<le> i \<and> i \<le> 4"
proof -
  have "\<exists>j. preselect 6 best (\<lambda>i. do { g \<leftarrow> get2 GACodebook i 1; Some (MULT16_16_Q14 g pred) }) 0 = Some j
      \<and> 0 \<le> j \<and> j \<le> 6"
    by (rule preselect_ok) (use GACodebook_arr in auto)
  then show ?thesis by (auto simp: index_base_GA_def back_off_def)
qed

lemma index_base_GB_ok: "\<exists>i. index_base_GB best = Some i \<and> 0 \<le> i \<and> i \<le> 8"
proof -
  have "\<exists>j. preselect 12 best (\<lambda>i. do { g \<leftarrow> get2 GBCodebook i 0; Some (SHR g 5) }) 0 = Some j
      \<and> 0 \<le> j \<and> j \<le> 12"
    by (rule preselect_ok) (use GBCodebook_arr in auto)
  then show ?thesis by (auto simp: index_base_GB_def back_off_def)
qed

definition choice_ok :: "gain_choice \<Rightarrow> bool" where
  "choice_ok st \<longleftrightarrow> 0 \<le> gc_GA st \<and> gc_GA st < 8 \<and> 0 \<le> gc_GB st \<and> gc_GB st < 16
     \<and> is_s16 (gc_pitch st) \<and> is_s16 (gc_code st)"

lemma s16_less: "s16 x < 2147483648"
  using s16_bounds(2) [of x] by simp

lemma codebook_gains_ok:
  assumes "0 \<le> a" "a < 8" "0 \<le> b" "b < 16"
  shows "\<exists>p c. codebook_gains a b = Some (p, c) \<and> is_s16 p \<and> 0 < c"
proof -
  have "758 \<le> GACodebook ! nat a ! 1"
    using GA_positive assms GACodebook_arr by (auto simp: list_all_length arr2_def)
  moreover have "GACodebook ! nat a ! 1 \<le> 13581" using arr2_nth [OF GACodebook_arr, of "nat a" 1] assms by auto
  moreover have "0 \<le> GBCodebook ! nat b ! 1" "GBCodebook ! nat b ! 1 \<le> 18973"
    using arr2_nth [OF GBCodebook_arr, of "nat b" 1] assms by auto
  ultimately have "0 < ADD16 (GACodebook ! nat a ! 1) (GBCodebook ! nat b ! 1)" by (simp add: ADD16_def s16_idI)
  then show ?thesis using assms GACodebook_arr GBCodebook_arr by (auto simp: codebook_gains_def ADD16_def)
qed

lemma search_gains_ok:
  assumes "0 \<le> a" "a \<le> 4" "0 \<le> b" "b \<le> 8"
  shows "\<exists>st. search_gains g pred a b = Some st \<and> choice_ok st"
  unfolding search_gains_def
proof (rule for_up_inv)
  fix i st assume i: "int 0 \<le> i" "i < int 4" and st: "choice_ok st"
  show "\<exists>t. for_up 0 8 (\<lambda>j st. try_gains g pred (i + a) (j + b) st) st = Some t \<and> choice_ok t"
  proof (rule for_up_inv [where P = choice_ok])
    fix j s assume j: "int 0 \<le> j" "j < int 8" and s: "choice_ok s"
    obtain p c where "codebook_gains (i + a) (j + b) = Some (p, c)" "is_s16 p"
      using codebook_gains_ok [of "i + a" "j + b"] i j assms by auto
    with i j s assms show "\<exists>t. try_gains g pred (i + a) (j + b) s = Some t \<and> choice_ok t"
      by (auto simp: try_gains_def choice_ok_def Let_def)
  qed (rule st)
qed (simp add: choice_ok_def)

lemma gainQuantization_ok:
  assumes "s16_arr 4 pe" "s16_arr a x" "40 \<le> a" "s16_arr b y" "40 \<le> b" "s16_arr c z" "40 \<le> c"
    and v: "s16_arr 40 v" "0 < energy v 40" "energy v 40 < 2147483648"
    and xy: "\<bar>xy\<bar> \<le> 42949672960" and yy: "0 \<le> yy" "yy \<le> 42949672960"
  shows "\<exists>pe' p f GA GB. gainQuantization pe x y z v xy yy = Some (pe', p, f, GA, GB)
    \<and> s16_arr 4 pe' \<and> is_s16 p \<and> is_s16 f \<and> 0 \<le> GA \<and> GA < 8 \<and> 0 \<le> GB \<and> GB < 16"
proof -
  obtain xz yz zz where 1: "products64 x y z = Some (xz, yz, zz)" "\<bar>xz\<bar> \<le> 42949672960" "\<bar>yz\<bar> \<le> 42949672960"
    "0 \<le> zz" "zz \<le> 42949672960" using products64_ok [OF assms(2-7)] by blast
  obtain g where 2: "scale_terms xy yy xz yz zz = Some g" "small_terms g"
    using scale_terms_ok [OF xy yy 1(2-5)] by blast
  obtain bp bf where 3: "best_gains g = Some (bp, bf)" using best_gains_ok [OF 2(2)] by blast
  obtain p where 4: "MACodeGainPrediction pe v = Some p" using MACodeGainPrediction_ok [OF assms(1) v] by blast
  let ?p = "s16 (shr p 12)"
  obtain ia where 5: "index_base_GA bf ?p = Some ia" "0 \<le> ia" "ia \<le> 4" using index_base_GA_ok by blast
  obtain ib where 6: "index_base_GB bp = Some ib" "0 \<le> ib" "ib \<le> 8" using index_base_GB_ok by blast
  define g' where "g' = g\<lparr>gt_xy := s32 (- SHL (gt_xy g) 1), gt_xz := s32 (- SHL (gt_xz g) 1), gt_yz := SHL (gt_yz g) 1\<rparr>"
  obtain st where 7: "search_gains g' ?p ia ib = Some st" "choice_ok st" using search_gains_ok 5 6 by blast
  have r: "0 \<le> gc_GA st" "gc_GA st < 8" "0 \<le> gc_GB st" "gc_GB st < 16" using 7(2) by (simp_all add: choice_ok_def)
  obtain p0 c0 where 8: "codebook_gains (gc_GA st) (gc_GB st) = Some (p0, c0)" "0 < c0" using codebook_gains_ok [OF r] by blast
  have c0: "c0 = ADD16 (GACodebook ! nat (gc_GA st) ! 1) (GBCodebook ! nat (gc_GB st) ! 1)" "c0 < 2147483648"
    using 8 r GACodebook_arr GBCodebook_arr by (auto simp: codebook_gains_def ADD16_def s16_less)
  obtain pe' where 9: "computeGainPredictionError c0 pe = Some pe'" "s16_arr 4 pe'"
    using computeGainPredictionError_ok [OF 8(2) c0(2) assms(1)] by blast
  have a: "get2 GACodebook (gc_GA st) 1 = Some (GACodebook ! nat (gc_GA st) ! 1)"
    "get2 GBCodebook (gc_GB st) 1 = Some (GBCodebook ! nat (gc_GB st) ! 1)"
    using r GACodebook_arr GBCodebook_arr by auto
  obtain ga gb where b: "get indexMappingGA (gc_GA st) = Some ga" "0 \<le> ga" "ga < 8"
    "get indexMappingGB (gc_GB st) = Some gb" "0 \<le> gb" "gb < 16"
    using arr_get [OF indexMappingGA_arr, of "gc_GA st"] arr_get [OF indexMappingGB_arr, of "gc_GB st"] r by auto
  have "gainQuantization pe x y z v xy yy = Some (pe', gc_pitch st, gc_code st, ga, gb)"
    unfolding gainQuantization_def 1(1) Option.bind.simps split_conv 2(1) 3 4 Let_def 5(1) 6(1)
      g'_def [symmetric] 7(1) a c0(1) [symmetric] 9(1) b(1,4) ..
  then show ?thesis using 9(2) 7(2) b by (auto simp: choice_ok_def)
qed

end
