(* ===== verification/G729_LSP.thy ===== *)
theory G729_LSP
  imports G729_Context
begin

text \<open>
  LSP decoding (\<open>decodeLSP.c\<close>, \<open>interpolateqLSP.c\<close>, \<open>qLSP2LP.c\<close> of bcg729): the quantised line
  spectral frequencies (LSF) as a weighted sum of the current and the last four code words,
  made stable by sorting and spacing, their cosines (LSP), the interpolation between two
  frames and the conversion to linear prediction coefficients.
\<close>

section \<open>Decoding the line spectral frequencies\<close>

definition previousLCodeWordInit :: "int list" where
  "previousLCodeWordInit = [2339, 4679, 7018, 9358, 11698, 14037, 16377, 18717, 21056, 23396]"

definition initDecodeLSP :: "decoderContext \<Rightarrow> decoderContext option" where
  "initDecodeLSP ctx = do {
     cw \<leftarrow> for_up 0 MA_MAX_K (\<lambda>i cw. for_up 0 NB_LSP_COEFF
            (\<lambda>j cw. do { v \<leftarrow> get previousLCodeWordInit j; put2 cw i j v }) cw)
          (previousLCodeWord ctx);
     lsf \<leftarrow> for_up 0 NB_LSP_COEFF (\<lambda>j l. do { v \<leftarrow> get previousLCodeWordInit j; put l j v })
           (lastqLSF ctx);
     Some (ctx\<lparr>previousLCodeWord := cw, lastValidL0 := 0, lastqLSF := lsf\<rparr>) }"

text \<open>The weighted sum for one coefficient, shifting the code word history by one row.\<close>

definition MA_step :: "int \<Rightarrow> int list list list \<Rightarrow> int list list \<Rightarrow> int \<Rightarrow>
    int list \<times> int list list \<Rightarrow> (int list \<times> int list list) option" where
  "MA_step L0 currentMAPredictor currentMAPredictorSum i = (\<lambda>(codebookqLSF, previousCW). do {
     w \<leftarrow> get2 currentMAPredictorSum L0 i;
     c \<leftarrow> get codebookqLSF i;
     (acc, previousCW) \<leftarrow> for_down 0 MA_MAX_K (\<lambda>j (acc, pcw). do {
        m \<leftarrow> get3 currentMAPredictor L0 j i;
        v \<leftarrow> get2 pcw j i;
        new \<leftarrow> (if j > 0 then get2 pcw (j - 1) i else Some c);
        pcw' \<leftarrow> put2 pcw j i new;
        Some (MAC16_16 acc m v, pcw') }) (MULT16_16 w c, previousCW);
     codebookqLSF \<leftarrow> put codebookqLSF i (s16 (PSHR acc 15));
     Some (codebookqLSF, previousCW) })"

definition qLSF_stability :: "int list \<Rightarrow> int list option" where
  "qLSF_stability q = do {
     q \<leftarrow> insertionSort q NB_LSP_COEFF;
     q0 \<leftarrow> get q 0;
     q \<leftarrow> (if q0 < qLSF_MIN then put q 0 qLSF_MIN else Some q);
     q \<leftarrow> for_up 0 (NB_LSP_COEFF - 1) (\<lambda>i q. do {
        a \<leftarrow> get q i;
        b \<leftarrow> get q (i + 1);
        if SUB16 b a < MIN_qLSF_DISTANCE then put q (i + 1) (s16 (a + MIN_qLSF_DISTANCE))
        else Some q }) q;
     q9 \<leftarrow> get q (int NB_LSP_COEFF - 1);
     if q9 > qLSF_MAX then put q (int NB_LSP_COEFF - 1) qLSF_MAX else Some q }"

definition computeqLSF :: "int list \<Rightarrow> int list list \<Rightarrow> int \<Rightarrow> int list list list \<Rightarrow>
    int list list \<Rightarrow> (int list \<times> int list list) option" where
  "computeqLSF codebookqLSF previousCW L0 currentMAPredictor currentMAPredictorSum = do {
     q \<leftarrow> rearrangeCoefficients codebookqLSF GAP1;
     q \<leftarrow> rearrangeCoefficients q GAP2;
     (q, cw) \<leftarrow> for_up 0 NB_LSP_COEFF (MA_step L0 currentMAPredictor currentMAPredictorSum)
                (q, previousCW);
     q \<leftarrow> qLSF_stability q;
     Some (q, cw) }"

text \<open>On a good frame the code words come from the codebooks.\<close>

definition codebook_LSF :: "int list \<Rightarrow> int list option" where
  "codebook_LSF L = do {
     l1 \<leftarrow> get L 1;
     l2 \<leftarrow> get L 2;
     l3 \<leftarrow> get L 3;
     c \<leftarrow> for_up 0 (NB_LSP_COEFF div 2) (\<lambda>i c. do {
        a \<leftarrow> get2 L1 l1 i; b \<leftarrow> get2 L2L3 l2 i; put c i (ADD16 a b) }) (replicate NB_LSP_COEFF 0);
     for_up (NB_LSP_COEFF div 2) NB_LSP_COEFF (\<lambda>i c. do {
        a \<leftarrow> get2 L1 l1 i; b \<leftarrow> get2 L2L3 l3 i; put c i (ADD16 a b) }) c }"

text \<open>On an erased frame they are computed back from the last good frequencies.\<close>

definition erased_code_word :: "int list \<Rightarrow> int \<Rightarrow> int \<Rightarrow> int list list \<Rightarrow> int list list option" where
  "erased_code_word lsf validL0 i cw = do {
     f \<leftarrow> get lsf i;
     acc \<leftarrow> for_up 0 MA_MAX_K (\<lambda>j acc. do {
        m \<leftarrow> get3 MAPredictor validL0 j i;
        v \<leftarrow> get2 cw j i;
        Some (MSU16_16 acc m v) }) (SHL f 15);
     w \<leftarrow> get2 invMAPredictorSum validL0 i;
     for_down 0 MA_MAX_K (\<lambda>j cw. do {
        new \<leftarrow> (if j > 0 then get2 cw (j - 1) i else Some (s16 (PSHR (MULT16_32_Q12 w acc) 15)));
        put2 cw j i new }) cw }"

definition decodeLSP ::
    "decoderContext \<Rightarrow> int list \<Rightarrow> int list \<Rightarrow> int \<Rightarrow> (decoderContext \<times> int list) option" where
  "decodeLSP ctx L qLSP frameErased = do {
     (ctx, currentqLSF) \<leftarrow>
       (if frameErased = 0 then do {
          c \<leftarrow> codebook_LSF L;
          l0 \<leftarrow> get L 0;
          (q, cw) \<leftarrow> computeqLSF c (previousLCodeWord ctx) (u8 l0) MAPredictor MAPredictorSum;
          lsf \<leftarrow> for_up 0 NB_LSP_COEFF (\<lambda>i l. do { v \<leftarrow> get q i; put l i v }) (lastqLSF ctx);
          Some (ctx\<lparr>previousLCodeWord := cw, lastqLSF := lsf, lastValidL0 := s16 l0\<rparr>, q) }
        else do {
          q \<leftarrow> for_up 0 NB_LSP_COEFF (\<lambda>i q. do { v \<leftarrow> get (lastqLSF ctx) i; put q i v })
                (replicate NB_LSP_COEFF 0);
          cw \<leftarrow> for_up 0 NB_LSP_COEFF (erased_code_word (lastqLSF ctx) (lastValidL0 ctx))
                 (previousLCodeWord ctx);
          Some (ctx\<lparr>previousLCodeWord := cw\<rparr>, q) });
     qLSP \<leftarrow> for_up 0 NB_LSP_COEFF (\<lambda>i p. do {
        v \<leftarrow> get currentqLSF i; put p i (g729Cos_Q13Q15 v) }) qLSP;
     Some (ctx, qLSP) }"

section \<open>Interpolation\<close>

definition interpolateqLSP :: "int list \<Rightarrow> int list \<Rightarrow> int list \<Rightarrow> int list option" where
  "interpolateqLSP previous current interpolated = for_up 0 NB_LSP_COEFF (\<lambda>i r. do {
     p \<leftarrow> get previous i;
     c \<leftarrow> get current i;
     put r i (s16 (PSHR (ADD32 p c) 1)) }) interpolated"

section \<open>Conversion to prediction coefficients\<close>

text \<open>\<open>computePolynomialCoefficients\<close> reads the even (or, from \<open>qLSP + 1\<close>, the odd) entries:
  the pointer argument is the array with an offset.\<close>

definition computePolynomialCoefficients :: "int list \<Rightarrow> int \<Rightarrow> int list \<Rightarrow> int list option" where
  "computePolynomialCoefficients qLSP off f = do {
     f \<leftarrow> put f 0 16777216;
     q0 \<leftarrow> get qLSP off;
     f \<leftarrow> put f 1 (MULT16_16 q0 (-1024));
     for_up 2 6 (\<lambda>i f. do {
       q \<leftarrow> get qLSP (off + (2 * i - 2));
       f2 \<leftarrow> get f (i - 2);
       f1 \<leftarrow> get f (i - 1);
       f \<leftarrow> put f i (SHL (SUB32 f2 (MULT16_32_P15 q f1)) 1);
       f \<leftarrow> for_down 2 (nat i) (\<lambda>j f. do {
          fj \<leftarrow> get f j;
          fj2 \<leftarrow> get f (j - 2);
          fj1 \<leftarrow> get f (j - 1);
          put f j (ADD32 fj (SUB32 fj2 (MULT16_32_P14 q fj1))) }) f;
       f1 \<leftarrow> get f 1;
       put f 1 (SUB32 f1 (SHL q 10)) }) f }"

text \<open>\<open>LP\<close> is the array that receives ten coefficients from cell \<open>base\<close> on.\<close>

definition qLSP2LP :: "int list \<Rightarrow> int list \<Rightarrow> int \<Rightarrow> int list option" where
  "qLSP2LP qLSP LP base = do {
     f1 \<leftarrow> computePolynomialCoefficients qLSP 0 (replicate 6 0);
     f2 \<leftarrow> computePolynomialCoefficients qLSP 1 (replicate 6 0);
     (f1, f2) \<leftarrow> for_down 1 6 (\<lambda>i (f1, f2). do {
        a \<leftarrow> get f1 i; a' \<leftarrow> get f1 (i - 1); f1 \<leftarrow> put f1 i (ADD32 a a');
        b \<leftarrow> get f2 i; b' \<leftarrow> get f2 (i - 1); f2 \<leftarrow> put f2 i (SUB32 b b');
        Some (f1, f2) }) (f1, f2);
     for_up 0 5 (\<lambda>i LP. do {
        a \<leftarrow> get f1 (i + 1);
        b \<leftarrow> get f2 (i + 1);
        LP \<leftarrow> put LP (base + i) (s16 (PSHR (ADD32 a b) 13));
        put LP (base + (9 - i)) (s16 (PSHR (SUB32 a b) 13)) }) LP }"

section \<open>All accesses are in bounds\<close>

lemma previousLCodeWordInit_arr: "s16_arr 10 previousLCodeWordInit"
  by (simp add: arr_def previousLCodeWordInit_def is_s16_def)

lemma initDecodeLSP_ok:
  assumes "arr2 is_s16 4 10 (previousLCodeWord ctx)" "s16_arr 10 (lastqLSF ctx)"
  shows "\<exists>c. initDecodeLSP ctx = Some c \<and> arr2 is_s16 4 10 (previousLCodeWord c)
    \<and> s16_arr 10 (lastqLSF c) \<and> lastValidL0 c = 0
    \<and> c = ctx\<lparr>previousLCodeWord := previousLCodeWord c, lastqLSF := lastqLSF c, lastValidL0 := 0\<rparr>"
proof -
  note i = previousLCodeWordInit_arr
  have "\<exists>cw. for_up 0 4 (\<lambda>i cw. for_up 0 10
        (\<lambda>j cw. do { v \<leftarrow> get previousLCodeWordInit j; put2 cw i j v }) cw)
      (previousLCodeWord ctx) = Some cw \<and> arr2 is_s16 4 10 cw"
    using i assms
    by (intro for_up_inv [where P = "arr2 is_s16 4 10"]) (auto simp: nat_less_iff intro!: arr2_update s16_nth)
  moreover have "\<exists>l. for_up 0 10 (\<lambda>j l. do { v \<leftarrow> get previousLCodeWordInit j; put l j v })
      (lastqLSF ctx) = Some l \<and> s16_arr 10 l"
    using i assms by (intro for_up_inv [where P = "s16_arr 10"]) (auto simp: nat_less_iff intro!: arr_update s16_nth)
  ultimately show ?thesis by (auto simp: initDecodeLSP_def sizes)
qed

lemma insertionSort_s16: "s16_arr 10 q \<Longrightarrow> \<exists>r. insertionSort q 10 = Some r \<and> s16_arr 10 r"
  using insertionSort_prefix [of 10 q] by (auto simp: arr_def list_all_iff)

lemma qLSF_stability_ok:
  assumes "s16_arr 10 q"
  shows "\<exists>r. qLSF_stability q = Some r \<and> s16_arr 10 r"
proof -
  obtain q1 where q1: "insertionSort q 10 = Some q1" "s16_arr 10 q1"
    using insertionSort_s16 [OF assms] by blast
  let ?q2 = "if q1 ! 0 < qLSF_MIN then q1[0 := qLSF_MIN] else q1"
  have q2: "s16_arr 10 ?q2"
    using q1 by (auto simp: qLSF_MIN_def is_s16_def intro!: arr_update)
  have "\<exists>q3. for_up 0 9 (\<lambda>i q. do {
        a \<leftarrow> get q i;
        b \<leftarrow> get q (i + 1);
        if SUB16 b a < MIN_qLSF_DISTANCE then put q (i + 1) (s16 (a + MIN_qLSF_DISTANCE))
        else Some q }) ?q2 = Some q3 \<and> s16_arr 10 q3"
    by (rule for_up_inv) (use q2 in \<open>auto intro!: arr_update\<close>)
  then obtain q3 where q3: "s16_arr 10 q3" "for_up 0 9 (\<lambda>i q. do {
        a \<leftarrow> get q i;
        b \<leftarrow> get q (i + 1);
        if SUB16 b a < MIN_qLSF_DISTANCE then put q (i + 1) (s16 (a + MIN_qLSF_DISTANCE))
        else Some q }) ?q2 = Some q3" by blast
  have "s16_arr 10 (q3[9 := qLSF_MAX])"
    using q3(1) by (intro arr_update) (simp_all add: qLSF_MAX_def is_s16_def)
  then show ?thesis using q1 q3
    by (cases "q1 ! 0 < qLSF_MIN") (auto simp: qLSF_stability_def sizes)
qed

lemma MA_step_ok:
  assumes "s16_arr 10 q" "arr2 is_s16 4 10 cw" "arr3 P 2 4 10 ma" "arr2 Q 2 10 sums"
    "0 \<le> l" "l < 2" "0 \<le> i" "i < 10"
  shows "\<exists>s. MA_step l ma sums i (q, cw) = Some s \<and> s16_arr 10 (fst s) \<and> arr2 is_s16 4 10 (snd s)"
proof -
  let ?f = "\<lambda>j (acc, pcw). do {
        m \<leftarrow> get3 ma l j i;
        v \<leftarrow> get2 pcw j i;
        new \<leftarrow> (if j > 0 then get2 pcw (j - 1) i else Some (q ! nat i));
        pcw' \<leftarrow> put2 pcw j i new;
        Some (MAC16_16 acc m v, pcw') }"
  have "\<exists>s. for_down 0 4 ?f (MULT16_16 (sums ! nat l ! nat i) (q ! nat i), cw) = Some s
      \<and> arr2 is_s16 4 10 (snd s)"
    by (rule for_down_inv)
      (use assms in \<open>auto simp: nat_less_iff split: prod.splits intro!: arr2_update s16_nth2 [of 4 10] s16_nth [of 10 q]\<close>)
  then obtain acc pcw where "for_down 0 4 ?f (MULT16_16 (sums ! nat l ! nat i) (q ! nat i), cw) = Some (acc, pcw)"
    "arr2 is_s16 4 10 pcw" by auto
  then show ?thesis using assms by (auto simp: MA_step_def MA_MAX_K_def intro!: arr_update)
qed

lemma computeqLSF_ok:
  assumes "s16_arr 10 q" "arr2 is_s16 4 10 cw" "arr3 P 2 4 10 ma" "arr2 Q 2 10 sums" "0 \<le> l" "l < 2"
  shows "\<exists>s. computeqLSF q cw l ma sums = Some s \<and> s16_arr 10 (fst s) \<and> arr2 is_s16 4 10 (snd s)"
proof -
  obtain q1 where q1: "rearrangeCoefficients q GAP1 = Some q1" "s16_arr 10 q1"
    using rearrangeCoefficients_s16 [OF assms(1)] by blast
  obtain q2 where q2: "rearrangeCoefficients q1 GAP2 = Some q2" "s16_arr 10 q2"
    using rearrangeCoefficients_s16 [OF q1(2)] by blast
  have "\<exists>s. for_up 0 10 (MA_step l ma sums) (q2, cw) = Some s \<and> s16_arr 10 (fst s) \<and> arr2 is_s16 4 10 (snd s)"
    by (rule for_up_inv) (use q2 assms MA_step_ok in auto)
  then obtain q3 cw' where s: "for_up 0 10 (MA_step l ma sums) (q2, cw) = Some (q3, cw')"
    "s16_arr 10 q3" "arr2 is_s16 4 10 cw'" by auto
  then obtain q4 where "qLSF_stability q3 = Some q4" "s16_arr 10 q4" using qLSF_stability_ok by blast
  then show ?thesis using q1 q2 s by (simp add: computeqLSF_def NB_LSP_COEFF_def)
qed

lemma codebook_LSF_ok:
  assumes "length L \<ge> 4" "0 \<le> L ! 1" "L ! 1 < 128" "0 \<le> L ! 2" "L ! 2 < 32" "0 \<le> L ! 3" "L ! 3 < 32"
  shows "codebook_LSF L = Some (map (\<lambda>i. ADD16 (L1 ! nat (L ! 1) ! i)
    (L2L3 ! nat (if i < 5 then L ! 2 else L ! 3) ! i)) [0..<10])"
proof -
  let ?v = "\<lambda>i. ADD16 (L1 ! nat (L ! 1) ! i) (L2L3 ! nat (if i < 5 then L ! 2 else L ! 3) ! i)"
  let ?P = "\<lambda>i c. length c = 10 \<and> (\<forall>k<i. c ! k = ?v k)"
  note t = L1_arr L2L3_arr
  have "\<exists>c. for_up 0 5 (\<lambda>i c. do {
        a \<leftarrow> get2 L1 (L ! 1) i; b \<leftarrow> get2 L2L3 (L ! 2) i; put c i (ADD16 a b) }) (replicate 10 0) = Some c
      \<and> ?P 5 c"
    by (rule for_up_rule [where P = ?P]) (use t assms in \<open>auto simp: less_Suc_eq\<close>)
  then obtain c where c: "for_up 0 5 (\<lambda>i c. do {
        a \<leftarrow> get2 L1 (L ! 1) i; b \<leftarrow> get2 L2L3 (L ! 2) i; put c i (ADD16 a b) }) (replicate 10 0) = Some c"
    "?P 5 c" by blast
  have "\<exists>d. for_up 5 10 (\<lambda>i c. do {
        a \<leftarrow> get2 L1 (L ! 1) i; b \<leftarrow> get2 L2L3 (L ! 3) i; put c i (ADD16 a b) }) c = Some d \<and> ?P 10 d"
    by (rule for_up_rule [where P = ?P]) (use t assms c(2) in \<open>auto simp: less_Suc_eq\<close>)
  then obtain d where d: "for_up 5 10 (\<lambda>i c. do {
        a \<leftarrow> get2 L1 (L ! 1) i; b \<leftarrow> get2 L2L3 (L ! 3) i; put c i (ADD16 a b) }) c = Some d" "?P 10 d"
    by blast
  have "d = map ?v [0..<10]" by (rule nth_equalityI) (use d in auto)
  then show ?thesis using assms c d by (simp add: codebook_LSF_def NB_LSP_COEFF_def)
qed

lemma erased_code_word_ok:
  assumes "s16_arr 10 lsf" "arr2 is_s16 4 10 cw" "0 \<le> l" "l < 2" "0 \<le> i" "i < 10"
  shows "\<exists>r. erased_code_word lsf l i cw = Some r \<and> arr2 is_s16 4 10 r"
proof -
  note t = MAPredictor_arr invMAPredictorSum_arr
  have "\<exists>acc. for_up 0 4 (\<lambda>j acc. do { m \<leftarrow> get3 MAPredictor l j i; v \<leftarrow> get2 cw j i;
      Some (MSU16_16 acc m v) }) (SHL (lsf ! nat i) 15) = Some acc \<and> True"
    by (rule for_up_inv) (use t assms in auto)
  then obtain acc where acc: "for_up 0 4 (\<lambda>j acc. do { m \<leftarrow> get3 MAPredictor l j i; v \<leftarrow> get2 cw j i;
      Some (MSU16_16 acc m v) }) (SHL (lsf ! nat i) 15) = Some acc" by blast
  have "\<exists>r. for_down 0 4 (\<lambda>j cw. do {
        new \<leftarrow> (if j > 0 then get2 cw (j - 1) i
          else Some (s16 (PSHR (MULT16_32_Q12 (invMAPredictorSum ! nat l ! nat i) acc) 15)));
        put2 cw j i new }) cw = Some r \<and> arr2 is_s16 4 10 r"
    by (rule for_down_inv) (use assms in \<open>auto simp: nat_less_iff intro!: arr2_update s16_nth2 [of 4 10]\<close>)
  then show ?thesis using assms acc t by (auto simp: erased_code_word_def sizes)
qed

definition L_ok :: "int list \<Rightarrow> bool" where
  "L_ok L \<longleftrightarrow> length L \<ge> 4 \<and> 0 \<le> L ! 0 \<and> L ! 0 < 2 \<and> 0 \<le> L ! 1 \<and> L ! 1 < 128 \<and> 0 \<le> L ! 2 \<and> L ! 2 < 32
    \<and> 0 \<le> L ! 3 \<and> L ! 3 < 32"

lemma cosines_ok:
  assumes "s16_arr 10 q" "length p = 10"
  shows "for_up 0 10 (\<lambda>i p. do { v \<leftarrow> get q i; put p i (g729Cos_Q13Q15 v) }) p
    = Some (map g729Cos_Q13Q15 q)"
proof -
  have "for_up 0 10 (\<lambda>i p. Option.bind (Option.bind (get q i) (\<lambda>v. Some (g729Cos_Q13Q15 v))) (put p i)) p
      = Some (map (\<lambda>i. g729Cos_Q13Q15 (q ! i)) [0..<10])"
    by (rule for_up_fill) (use assms in auto)
  moreover have "map (\<lambda>i. g729Cos_Q13Q15 (q ! i)) [0..<10] = map g729Cos_Q13Q15 q"
    using assms by (intro nth_equalityI) (simp_all add: arr_length)
  ultimately show ?thesis by simp
qed

lemma computeqLSF_good:
  assumes "L_ok L" "arr2 is_s16 4 10 (previousLCodeWord ctx)" "s16_arr 10 (lastqLSF ctx)" "s16_arr 10 qLSP"
    "computeqLSF (map (\<lambda>i. ADD16 (L1 ! nat (L ! 1) ! i)
      (L2L3 ! nat (if i < 5 then L ! 2 else L ! 3) ! i)) [0..<10])
      (previousLCodeWord ctx) (L ! 0) MAPredictor MAPredictorSum = Some (q, cw)" "s16_arr 10 q"
  shows "decodeLSP ctx L qLSP 0 =
    Some (ctx\<lparr>previousLCodeWord := cw, lastqLSF := q, lastValidL0 := L ! 0\<rparr>, map g729Cos_Q13Q15 q)"
proof -
  have l0: "u8 (L ! 0) = L ! 0" "s16 (L ! 0) = L ! 0" "get L 0 = Some (L ! 0)"
    using assms(1) by (auto simp: L_ok_def u8_def get_def intro!: s16_idI)
  have cb: "codebook_LSF L = Some (map (\<lambda>i. ADD16 (L1 ! nat (L ! 1) ! i)
      (L2L3 ! nat (if i < 5 then L ! 2 else L ! 3) ! i)) [0..<10])"
    using assms(1) by (intro codebook_LSF_ok) (simp_all add: L_ok_def)
  have cp: "for_up 0 10 (\<lambda>i l. Option.bind (get q i) (put l i)) (lastqLSF ctx) = Some q"
    using copy_loop [of 10 q "lastqLSF ctx"] assms by (simp add: arr_length)
  show ?thesis
    using assms(5) cosines_ok [OF assms(6) arr_length, OF assms(4)]
    by (simp add: decodeLSP_def cb l0 NB_LSP_COEFF_def cp)
qed

lemma decodeLSP_ok:
  assumes "arr2 is_s16 4 10 (previousLCodeWord ctx)" "s16_arr 10 (lastqLSF ctx)" "s16_arr 10 qLSP"
    "0 \<le> lastValidL0 ctx" "lastValidL0 ctx < 2" "e = 0 \<Longrightarrow> L_ok L"
  shows "\<exists>cw lsf l0 p. decodeLSP ctx L qLSP e =
      Some (ctx\<lparr>previousLCodeWord := cw, lastqLSF := lsf, lastValidL0 := l0\<rparr>, p)
    \<and> arr2 is_s16 4 10 cw \<and> s16_arr 10 lsf \<and> 0 \<le> l0 \<and> l0 < 2 \<and> s16_arr 10 p"
proof (cases "e = 0")
  case True
  let ?c = "map (\<lambda>i. ADD16 (L1 ! nat (L ! 1) ! i)
    (L2L3 ! nat (if i < 5 then L ! 2 else L ! 3) ! i)) [0..<10]"
  have "s16_arr 10 ?c" by (simp add: arr_def list_all_iff)
  then obtain q cw where q: "computeqLSF ?c (previousLCodeWord ctx) (L ! 0) MAPredictor MAPredictorSum
      = Some (q, cw)" "s16_arr 10 q" "arr2 is_s16 4 10 cw"
    using computeqLSF_ok [OF _ assms(1) MAPredictor_arr MAPredictorSum_arr] assms(6) [OF True]
    unfolding L_ok_def by fastforce
  show ?thesis
    using computeqLSF_good [OF assms(6) [OF True] assms(1,2,3) q(1,2)] q assms(6) [OF True] True
    by (fastforce simp: L_ok_def intro!: arr_map)
next
  case False
  obtain cw where cw: "for_up 0 10 (erased_code_word (lastqLSF ctx) (lastValidL0 ctx)) (previousLCodeWord ctx)
      = Some cw" "arr2 is_s16 4 10 cw"
    using for_up_inv [of "arr2 is_s16 4 10" "previousLCodeWord ctx" 0 10
        "erased_code_word (lastqLSF ctx) (lastValidL0 ctx)"] erased_code_word_ok assms by auto
  have cp: "for_up 0 10 (\<lambda>i l. Option.bind (get (lastqLSF ctx) i) (put l i)) (replicate 10 0)
      = Some (lastqLSF ctx)"
    using copy_loop [of 10 "lastqLSF ctx" "replicate 10 0"] assms by (simp add: arr_length)
  have "decodeLSP ctx L qLSP e = Some (ctx\<lparr>previousLCodeWord := cw\<rparr>, map g729Cos_Q13Q15 (lastqLSF ctx))"
    using False cw cosines_ok [OF assms(2) arr_length, OF assms(3)]
    by (simp add: decodeLSP_def NB_LSP_COEFF_def cp)
  moreover have "ctx\<lparr>previousLCodeWord := cw\<rparr>
      = ctx\<lparr>previousLCodeWord := cw, lastqLSF := lastqLSF ctx, lastValidL0 := lastValidL0 ctx\<rparr>" by simp
  moreover have "s16_arr 10 (map g729Cos_Q13Q15 (lastqLSF ctx))"
    using assms(2) by (rule arr_map) simp
  ultimately show ?thesis using cw(2) assms by metis
qed

lemma interpolateqLSP_ok:
  assumes "s16_arr 10 a" "s16_arr 10 b" "s16_arr 10 r"
  shows "\<exists>p. interpolateqLSP a b r = Some p \<and> s16_arr 10 p"
  unfolding interpolateqLSP_def NB_LSP_COEFF_def
  by (rule for_up_inv) (use assms in \<open>auto intro!: arr_update\<close>)

lemma computePolynomialCoefficients_ok:
  assumes "s16_arr 10 q" "off = 0 \<or> off = 1" "s32_arr 6 f"
  shows "\<exists>g. computePolynomialCoefficients q off f = Some g \<and> s32_arr 6 g"
proof -
  have inner: "\<exists>g. for_down 2 (nat i) (\<lambda>j f. do {
          fj \<leftarrow> get f j;
          fj2 \<leftarrow> get f (j - 2);
          fj1 \<leftarrow> get f (j - 1);
          put f j (ADD32 fj (SUB32 fj2 (MULT16_32_P14 c fj1))) }) f = Some g \<and> s32_arr 6 g"
    if "i < 6" "s32_arr 6 f" for i f c
    by (rule for_down_inv) (use that in \<open>auto intro!: arr_update split: if_splits\<close>)
  have outer: "\<exists>h. (do {
       c \<leftarrow> get q (off + (2 * i - 2));
       f2 \<leftarrow> get f (i - 2);
       f1 \<leftarrow> get f (i - 1);
       f \<leftarrow> put f i (SHL (SUB32 f2 (MULT16_32_P15 c f1)) 1);
       f \<leftarrow> for_down 2 (nat i) (\<lambda>j f. do {
          fj \<leftarrow> get f j;
          fj2 \<leftarrow> get f (j - 2);
          fj1 \<leftarrow> get f (j - 1);
          put f j (ADD32 fj (SUB32 fj2 (MULT16_32_P14 c fj1))) }) f;
       f1 \<leftarrow> get f 1;
       put f 1 (SUB32 f1 (SHL c 10)) }) = Some h \<and> s32_arr 6 h"
    if i: "2 \<le> i" "i < 6" and f: "s32_arr 6 f" for i f
  proof -
    have qi: "get q (off + (2 * i - 2)) = Some (q ! nat (off + (2 * i - 2)))"
      using assms i by auto
    obtain g where g: "for_down 2 (nat i) (\<lambda>j f. do {
          fj \<leftarrow> get f j;
          fj2 \<leftarrow> get f (j - 2);
          fj1 \<leftarrow> get f (j - 1);
          put f j (ADD32 fj (SUB32 fj2 (MULT16_32_P14 (q ! nat (off + (2 * i - 2))) fj1))) })
        (f[nat i := SHL (SUB32 (f ! nat (i - 2)) (MULT16_32_P15 (q ! nat (off + (2 * i - 2))) (f ! nat (i - 1)))) 1])
        = Some g" "s32_arr 6 g"
      using inner [OF i(2) arr_update [OF f s32_ops_range(8)]] by blast
    show ?thesis using qi i f g by (auto intro!: arr_update)
  qed
  have "s32_arr 6 (f[0 := 16777216, 1 := MULT16_16 (q ! nat off) (-1024)])"
    using assms by (auto intro!: arr_update simp: is_s32_def [of 16777216])
  then show ?thesis
    unfolding computePolynomialCoefficients_def
    using for_up_inv [OF _ outer, of _ 2 6] assms arr_update [OF assms(3), of 16777216 0]
    by (auto simp: is_s32_def [of 16777216])
qed

lemma qLSP2LP_ok:
  assumes "s16_arr 10 q" "s16_arr 20 LP" "b = 0 \<or> b = 10"
  shows "\<exists>r. qLSP2LP q LP b = Some r \<and> s16_arr 20 r"
proof -
  have z: "s32_arr 6 (replicate 6 0)" by (rule arr_replicate) (simp add: is_s32_def)
  obtain f1 f2 where f: "computePolynomialCoefficients q 0 (replicate 6 0) = Some f1" "s32_arr 6 f1"
    "computePolynomialCoefficients q 1 (replicate 6 0) = Some f2" "s32_arr 6 f2"
    using computePolynomialCoefficients_ok [OF assms(1) _ z] by blast
  let ?f = "\<lambda>i (f1, f2). do {
        a \<leftarrow> get f1 i; a' \<leftarrow> get f1 (i - 1); f1 \<leftarrow> put f1 i (ADD32 a a');
        b \<leftarrow> get f2 i; b' \<leftarrow> get f2 (i - 1); f2 \<leftarrow> put f2 i (SUB32 b b');
        Some (f1, f2) }"
  have "\<exists>s. for_down 1 6 ?f (f1, f2) = Some s \<and> s32_arr 6 (fst s) \<and> s32_arr 6 (snd s)"
    by (rule for_down_inv) (use f in \<open>auto intro!: arr_update\<close>)
  then obtain g1 g2 where g: "for_down 1 6 ?f (f1, f2) = Some (g1, g2)" "s32_arr 6 g1" "s32_arr 6 g2"
    by auto
  have "\<exists>r. for_up 0 5 (\<lambda>i LP. do {
        x \<leftarrow> get g1 (i + 1);
        y \<leftarrow> get g2 (i + 1);
        LP \<leftarrow> put LP (b + i) (s16 (PSHR (ADD32 x y) 13));
        put LP (b + (9 - i)) (s16 (PSHR (SUB32 x y) 13)) }) LP = Some r \<and> s16_arr 20 r"
    using assms(3) by (intro for_up_inv; elim disjE) (use assms(2) g(2,3) in \<open>auto intro!: arr_update\<close>)
  then show ?thesis using f g by (auto simp: qLSP2LP_def)
qed

end
