(* ===== verification/G729_LSPQuant.thy ===== *)
theory G729_LSPQuant
  imports G729_LSP
begin

text \<open>
  Quantisation of the line spectral frequencies in the encoder (\<open>LSPQuantization.c\<close>), for a
  speech frame and for a noise frame: weights, prediction of the frequencies by each of the two
  moving average predictors, search of the codebooks, choice of the predictor, and the
  quantised frequencies and their cosines. The two functions share the steps that the code
  repeats in both; the indexes a search leaves unset when no candidate is better are 0.
\<close>

definition previousqLSFInit :: "int list" where
  "previousqLSFInit = [2339, 4679, 7018, 9358, 11698, 14037, 16377, 18717, 21056, 23396]"

definition initLSPQuantization :: "int list list \<Rightarrow> int list list option" where
  "initLSPQuantization prev = for_up 0 MA_MAX_K (\<lambda>i prev. do {
     r \<leftarrow> get prev i;
     r \<leftarrow> copy_block r 0 previousqLSFInit 0 NB_LSP_COEFF;
     put prev i r }) prev"

definition L0_RANGE :: nat where "L0_RANGE = 2"
definition L1_RANGE :: nat where "L1_RANGE = 128"
definition L2_RANGE :: nat where "L2_RANGE = 32"
definition NOISE_L1_RANGE :: nat where "NOISE_L1_RANGE = 32"
definition NOISE_L2_RANGE :: nat where "NOISE_L2_RANGE = 16"

section \<open>Frequencies and weights\<close>

definition LSF_of_LSP :: "int list \<Rightarrow> int list option" where
  "LSF_of_LSP LSP = for_up 0 NB_LSP_COEFF (\<lambda>i LSF. do {
     v \<leftarrow> get LSP i;
     f \<leftarrow> g729Acos_Q15Q13 v;
     put LSF i f }) (replicate NB_LSP_COEFF 0)"

definition LSF_weight :: "int \<Rightarrow> int" where
  "LSF_weight threshold =
    (if threshold > 0 then ONE_IN_Q11
     else s16 (SATURATE (ADD32 (PSHR (MULT16_16 (MULT16_16_Q13 threshold threshold) 10) 2) ONE_IN_Q11)
       MAXINT16))"

definition LSF_weights :: "int list \<Rightarrow> int list option" where
  "LSF_weights LSF = do {
     f1 \<leftarrow> get LSF 1;
     t \<leftarrow> put (replicate NB_LSP_COEFF 0) 0 (s16 (SUB16 f1 OO4PIPLUS1_IN_Q13));
     t \<leftarrow> for_up 1 (NB_LSP_COEFF - 1) (\<lambda>i t. do {
        a \<leftarrow> get LSF (i + 1);
        b \<leftarrow> get LSF (i - 1);
        put t i (s16 (SUB16 (SUB16 a b) ONE_IN_Q13)) }) t;
     f8 \<leftarrow> get LSF (int NB_LSP_COEFF - 2);
     t \<leftarrow> put t (int NB_LSP_COEFF - 1) (s16 (SUB16 O92PIMINUS1_IN_Q13 f8));
     w \<leftarrow> for_up 0 NB_LSP_COEFF (\<lambda>i w. do { v \<leftarrow> get t i; put w i (LSF_weight v) })
            (replicate NB_LSP_COEFF 0);
     w4 \<leftarrow> get w 4;
     w \<leftarrow> put w 4 (s16 (MULT16_16_Q14 w4 ONE_POINT_2_IN_Q14));
     w5 \<leftarrow> get w 5;
     put w 5 (s16 (MULT16_16_Q14 w5 ONE_POINT_2_IN_Q14)) }"

section \<open>One predictor\<close>

definition target_vector :: "int list \<Rightarrow> int list list \<Rightarrow> int list list list \<Rightarrow> int list list \<Rightarrow> int \<Rightarrow> int list option" where
  "target_vector LSF prev predictor invSum L0 = for_up 0 NB_LSP_COEFF (\<lambda>i out. do {
     f \<leftarrow> get LSF i;
     acc \<leftarrow> for_up 0 MA_MAX_K (\<lambda>j acc. do {
        p \<leftarrow> get2 prev j i;
        m \<leftarrow> get3 predictor L0 j i;
        Some (MSU16_16 acc p m) }) (SHL f 15);
     w \<leftarrow> get2 invSum L0 i;
     put out i (s16 (MULT16_16_Q12 (s16 (PSHR acc 15)) w)) }) (replicate NB_LSP_COEFF 0)"

text \<open>The entry of a codebook with the least error, \<open>candidate i\<close> being the error of entry i.\<close>

definition least_error :: "nat \<Rightarrow> (int \<Rightarrow> int option) \<Rightarrow> int option" where
  "least_error n candidate = do {
     (_, best) \<leftarrow> for_up 0 n (\<lambda>i (meanSquareDiff, best). do {
        acc \<leftarrow> candidate i;
        Some (if acc < meanSquareDiff then (acc, i) else (meanSquareDiff, best)) }) (MAXINT32, 0);
     Some best }"

definition L1_error :: "int list \<Rightarrow> int \<Rightarrow> int option" where
  "L1_error target row = for_up 0 NB_LSP_COEFF (\<lambda>j acc. do {
     t \<leftarrow> get target j;
     c \<leftarrow> get2 L1 row j;
     let diff = s16 (SATURATE (SUB32 t c) MAXINT16);
     Some (MAC16_16 acc diff diff) }) 0"

text \<open>The weighted error of the coefficients from a to b with a row of L1 and one of L2L3.\<close>

definition L2_error :: "int list \<Rightarrow> int list \<Rightarrow> int list list \<Rightarrow> int \<Rightarrow> int \<Rightarrow> int \<Rightarrow> nat \<Rightarrow> nat \<Rightarrow> int \<Rightarrow> int option" where
  "L2_error target weights MAsum L0 row1 row2 a b = for_up a b (\<lambda>j acc. do {
     t \<leftarrow> get target j;
     c1 \<leftarrow> get2 L1 row1 j;
     c2 \<leftarrow> get2 L2L3 row2 j;
     m \<leftarrow> get2 MAsum L0 j;
     let diff = s16 (SATURATE (MULT16_16_Q15 (SUB32 (SUB32 t c1) c2) m) MAXINT16);
     w \<leftarrow> get weights j;
     Some (MAC16_16 acc diff (MULT16_16_Q11 diff w)) })"

text \<open>The spacing written out in the search: the second assignment reads the first's result.\<close>

definition space_pair :: "int \<Rightarrow> int \<Rightarrow> int list \<Rightarrow> int list option" where
  "space_pair GAP i q = do {
     p \<leftarrow> get q (i - 1);
     c \<leftarrow> get q i;
     if p > SUB16 c GAP then do {
       let p' = s16 (PSHR (SUB16 (ADD16 c p) GAP) 1);
       q \<leftarrow> put q (i - 1) p';
       put q i (s16 (PSHR (ADD16 (ADD16 c p') GAP) 1)) }
     else Some q }"

definition space_vector :: "int list \<Rightarrow> int list option" where
  "space_vector q = do {
     q \<leftarrow> for_up 1 (NB_LSP_COEFF div 2) (space_pair GAP1) q;
     q \<leftarrow> for_up (NB_LSP_COEFF div 2 + 1) NB_LSP_COEFF (space_pair GAP1) q;
     for_up 1 NB_LSP_COEFF (space_pair GAP2) q }"

definition weighted_error :: "int list \<Rightarrow> int list \<Rightarrow> int list list \<Rightarrow> int \<Rightarrow> int list \<Rightarrow> int option" where
  "weighted_error target weights MAsum L0 q = for_up 0 NB_LSP_COEFF (\<lambda>i acc. do {
     t \<leftarrow> get target i;
     v \<leftarrow> get q i;
     m \<leftarrow> get2 MAsum L0 i;
     let diff = s16 (SATURATE (MULT16_16_Q15 (SUB32 t v) m) MAXINT16);
     w \<leftarrow> get weights i;
     Some (MAC16_16 acc diff (MULT16_16_Q11 diff w)) }) 0"

text \<open>The sum of a row of L1 and, for the low and high halves, two rows of L2L3.\<close>

definition sum_rows :: "int \<Rightarrow> int \<Rightarrow> int \<Rightarrow> int \<Rightarrow> int list option" where
  "sum_rows rowLow rowHigh row2 row3 = do {
     q \<leftarrow> for_up 0 (NB_LSP_COEFF div 2) (\<lambda>i q. do {
        a \<leftarrow> get2 L1 rowLow i; b \<leftarrow> get2 L2L3 row2 i; put q i (ADD16 a b) }) (replicate NB_LSP_COEFF 0);
     for_up (NB_LSP_COEFF div 2) NB_LSP_COEFF (\<lambda>i q. do {
        a \<leftarrow> get2 L1 rowHigh i; b \<leftarrow> get2 L2L3 row3 i; put q i (ADD16 a b) }) q }"

text \<open>Speech frame: indexes L1, L2, L3 for one predictor and their weighted error.\<close>

definition quantise_speech :: "int list \<Rightarrow> int list \<Rightarrow> int list list \<Rightarrow> int \<Rightarrow> (int \<times> int \<times> int \<times> int) option" where
  "quantise_speech LSF weights prev L0 = do {
     target \<leftarrow> target_vector LSF prev MAPredictor invMAPredictorSum L0;
     l1 \<leftarrow> least_error L1_RANGE (L1_error target);
     l2 \<leftarrow> least_error L2_RANGE (\<lambda>i.
        L2_error target weights MAPredictorSum L0 l1 i 0 (NB_LSP_COEFF div 2) 0);
     l3 \<leftarrow> least_error L2_RANGE (\<lambda>i.
        L2_error target weights MAPredictorSum L0 l1 i (NB_LSP_COEFF div 2) NB_LSP_COEFF 0);
     q \<leftarrow> sum_rows l1 l1 l2 l3;
     q \<leftarrow> space_vector q;
     e \<leftarrow> weighted_error target weights MAPredictorSum L0 q;
     Some (e, l1, l2, l3) }"

text \<open>Noise frame: subsets of the codebooks, L2 and L3 searched together. The high half of the
  vector measured is read from row \<open>l1\<close> of L1 itself, not of the subset.\<close>

definition noise_L2_error :: "int list \<Rightarrow> int list \<Rightarrow> int \<Rightarrow> int \<Rightarrow> int \<Rightarrow> int option" where
  "noise_L2_error target weights L0 l1 i = do {
     r1 \<leftarrow> get L1SubsetIndex l1;
     r2 \<leftarrow> get L2SubsetIndex i;
     acc \<leftarrow> L2_error target weights noiseMAPredictorSum L0 r1 r2 0 (NB_LSP_COEFF div 2) 0;
     r3 \<leftarrow> get L3SubsetIndex i;
     L2_error target weights noiseMAPredictorSum L0 r1 r3 (NB_LSP_COEFF div 2) NB_LSP_COEFF acc }"

definition quantise_noise :: "int list \<Rightarrow> int list \<Rightarrow> int list list \<Rightarrow> int \<Rightarrow> (int \<times> int \<times> int) option" where
  "quantise_noise LSF weights prev L0 = do {
     target \<leftarrow> target_vector LSF prev noiseMAPredictor invNoiseMAPredictorSum L0;
     l1 \<leftarrow> least_error NOISE_L1_RANGE (\<lambda>i. do { r \<leftarrow> get L1SubsetIndex i; L1_error target r });
     l2 \<leftarrow> least_error NOISE_L2_RANGE (noise_L2_error target weights L0 l1);
     r1 \<leftarrow> get L1SubsetIndex l1;
     r2 \<leftarrow> get L2SubsetIndex l2;
     r3 \<leftarrow> get L3SubsetIndex l2;
     q \<leftarrow> sum_rows r1 l1 r2 r3;
     q \<leftarrow> space_vector q;
     e \<leftarrow> weighted_error target weights noiseMAPredictorSum L0 q;
     Some (e, l1, l2) }"

section \<open>The quantised frequencies\<close>

definition MA_filter :: "int list list list \<Rightarrow> int list list \<Rightarrow> int \<Rightarrow> int list list \<Rightarrow> int list \<Rightarrow> int list option" where
  "MA_filter predictor MAsum L0 prev q = for_up 0 NB_LSP_COEFF (\<lambda>i qLSF. do {
     w \<leftarrow> get2 MAsum L0 i;
     c \<leftarrow> get q i;
     acc \<leftarrow> for_up 0 MA_MAX_K (\<lambda>j acc. do {
        m \<leftarrow> get3 predictor L0 j i;
        v \<leftarrow> get2 prev j i;
        Some (MAC16_16 acc m v) }) (MULT16_16 w c);
     put qLSF i (s16 (PSHR acc 15)) }) (replicate NB_LSP_COEFF 0)"

definition push_qLSF :: "int list list \<Rightarrow> int list \<Rightarrow> int list list option" where
  "push_qLSF prev q = do {
     prev \<leftarrow> for_down 1 MA_MAX_K (\<lambda>i prev. do {
        src \<leftarrow> get prev (i - 1);
        dst \<leftarrow> get prev i;
        r \<leftarrow> copy_block dst 0 src 0 NB_LSP_COEFF;
        put prev i r }) prev;
     dst \<leftarrow> get prev 0;
     r \<leftarrow> copy_block dst 0 q 0 NB_LSP_COEFF;
     put prev 0 r }"

text \<open>The stability check of the encoder tests the second frequency against the lower limit.\<close>

definition encoder_stability :: "int list \<Rightarrow> int list option" where
  "encoder_stability q = do {
     q \<leftarrow> insertionSort q NB_LSP_COEFF;
     q1 \<leftarrow> get q 1;
     q \<leftarrow> (if q1 < qLSF_MIN then put q 1 qLSF_MIN else Some q);
     q \<leftarrow> for_up 0 (NB_LSP_COEFF - 1) (\<lambda>i q. do {
        a \<leftarrow> get q i;
        b \<leftarrow> get q (i + 1);
        if SUB16 b a < MIN_qLSF_DISTANCE then put q (i + 1) (s16 (a + MIN_qLSF_DISTANCE))
        else Some q }) q;
     q9 \<leftarrow> get q (int NB_LSP_COEFF - 1);
     if q9 > qLSF_MAX then put q (int NB_LSP_COEFF - 1) qLSF_MAX else Some q }"

text \<open>From the rows chosen to the cosines: new history of code words, quantised LSP.\<close>

definition quantised_LSP :: "int list list list \<Rightarrow> int list list \<Rightarrow> int \<Rightarrow> int list list \<Rightarrow> int list \<Rightarrow> int list \<Rightarrow>
    (int list list \<times> int list) option" where
  "quantised_LSP predictor MAsum L0 prev q qLSP = do {
     q \<leftarrow> rearrangeCoefficients q GAP1;
     q \<leftarrow> rearrangeCoefficients q GAP2;
     qLSF \<leftarrow> MA_filter predictor MAsum L0 prev q;
     prev \<leftarrow> push_qLSF prev q;
     qLSF \<leftarrow> encoder_stability qLSF;
     qLSP \<leftarrow> for_up 0 NB_LSP_COEFF (\<lambda>i p. do { v \<leftarrow> get qLSF i; put p i (g729Cos_Q13Q15 v) }) qLSP;
     Some (prev, qLSP) }"

definition LSPQuantization :: "int list list \<Rightarrow> int list \<Rightarrow> int list \<Rightarrow>
    (int list list \<times> int list \<times> int list) option" where
  "LSPQuantization prev LSP qLSP = do {
     LSF \<leftarrow> LSF_of_LSP LSP;
     weights \<leftarrow> LSF_weights LSF;
     (e0, a1, a2, a3) \<leftarrow> quantise_speech LSF weights prev 0;
     (e1, b1, b2, b3) \<leftarrow> quantise_speech LSF weights prev 1;
     let parameters = (if e0 < e1 then [0, u16 a1, u16 a2, u16 a3] else [1, u16 b1, u16 b2, u16 b3]);
     q \<leftarrow> sum_rows (parameters ! 1) (parameters ! 1) (parameters ! 2) (parameters ! 3);
     (prev, qLSP) \<leftarrow> quantised_LSP MAPredictor MAPredictorSum (parameters ! 0) prev q qLSP;
     Some (prev, qLSP, parameters) }"

definition noiseLSPQuantization :: "int list list \<Rightarrow> int list \<Rightarrow> int list \<Rightarrow>
    (int list list \<times> int list \<times> int list) option" where
  "noiseLSPQuantization prev LSP qLSP = do {
     LSF \<leftarrow> LSF_of_LSP LSP;
     weights \<leftarrow> LSF_weights LSF;
     (e0, a1, a2) \<leftarrow> quantise_noise LSF weights prev 0;
     (e1, b1, b2) \<leftarrow> quantise_noise LSF weights prev 1;
     let parameters = (if e0 < e1 then [0, u8 a1, u8 a2] else [1, u8 b1, u8 b2]);
     r1 \<leftarrow> get L1SubsetIndex (parameters ! 1);
     r2 \<leftarrow> get L2SubsetIndex (parameters ! 2);
     r3 \<leftarrow> get L3SubsetIndex (parameters ! 2);
     q \<leftarrow> sum_rows r1 r1 r2 r3;
     (prev, qLSP) \<leftarrow> quantised_LSP noiseMAPredictor noiseMAPredictorSum (parameters ! 0) prev q qLSP;
     Some (prev, qLSP, parameters) }"


section \<open>All accesses are in bounds\<close>

lemma LSF_of_LSP_ok:
  assumes "s16_arr 10 p"
  shows "\<exists>f. LSF_of_LSP p = Some f \<and> s16_arr 10 f"
  unfolding LSF_of_LSP_def NB_LSP_COEFF_def
proof (rule for_up_inv)
  fix i f assume i: "int 0 \<le> i" "i < int 10" and f: "s16_arr 10 f"
  obtain a where "g729Acos_Q15Q13 (p ! nat i) = Some a" "is_s16 a"
    using g729Asin_total [of "p ! nat i"] by (auto simp: g729Acos_Q15Q13_def)
  with i f assms show "\<exists>t. (do { v \<leftarrow> get p i; a \<leftarrow> g729Acos_Q15Q13 v; put f i a }) = Some t \<and> s16_arr 10 t"
    by (auto intro!: arr_update)
qed simp

lemma LSF_weight_s16 [simp]: "is_s16 (LSF_weight t)"
  by (simp add: LSF_weight_def ONE_IN_Q11_def is_s16_def [of 2048])

lemma LSF_weights_ok:
  assumes "s16_arr 10 f"
  shows "\<exists>w. LSF_weights f = Some w \<and> s16_arr 10 w"
proof -
  define t0 where "t0 = (replicate 10 0)[0 := s16 (SUB16 (f ! 1) OO4PIPLUS1_IN_Q13)]"
  have t0: "s16_arr 10 t0" unfolding t0_def by (intro arr_update) simp_all
  have "\<exists>t. for_up 1 9 (\<lambda>i t. do { a \<leftarrow> get f (i + 1); b \<leftarrow> get f (i - 1);
      put t i (s16 (SUB16 (SUB16 a b) ONE_IN_Q13)) }) t0 = Some t \<and> s16_arr 10 t"
    by (rule for_up_inv) (use assms t0 in \<open>auto intro!: arr_update\<close>)
  then obtain t where t: "for_up 1 9 (\<lambda>i t. do { a \<leftarrow> get f (i + 1); b \<leftarrow> get f (i - 1);
      put t i (s16 (SUB16 (SUB16 a b) ONE_IN_Q13)) }) t0 = Some t" "s16_arr 10 t" by blast
  define t9 where "t9 = t[9 := s16 (SUB16 O92PIMINUS1_IN_Q13 (f ! 8))]"
  have t9: "s16_arr 10 t9" unfolding t9_def using t(2) by (intro arr_update) simp_all
  have "\<exists>w. for_up 0 10 (\<lambda>i w. do { v \<leftarrow> get t9 i; put w i (LSF_weight v) }) (replicate 10 0) = Some w \<and> s16_arr 10 w"
    by (rule for_up_inv) (use t9 in \<open>auto intro!: arr_update\<close>)
  then obtain w where w: "for_up 0 10 (\<lambda>i w. do { v \<leftarrow> get t9 i; put w i (LSF_weight v) }) (replicate 10 0) = Some w"
    "s16_arr 10 w" by blast
  have "put (replicate 10 0) 0 (s16 (SUB16 (f ! 1) OO4PIPLUS1_IN_Q13)) = Some t0" by (simp add: t0_def)
  moreover have "put t 9 (s16 (SUB16 O92PIMINUS1_IN_Q13 (f ! 8))) = Some t9" using t(2) by (simp add: t9_def)
  moreover have "get f 1 = Some (f ! 1)" "get f 8 = Some (f ! 8)" using assms by simp_all
  ultimately show ?thesis using t(1) w
    by (auto simp: LSF_weights_def NB_LSP_COEFF_def intro!: arr_update)
qed

lemma target_vector_ok:
  assumes "s16_arr 10 f" "arr2 is_s16 4 10 prev" "arr3 P 2 4 10 ma" "arr2 Q 2 10 iv" "0 \<le> l" "l < 2"
  shows "\<exists>t. target_vector f prev ma iv l = Some t \<and> s16_arr 10 t"
  unfolding target_vector_def NB_LSP_COEFF_def MA_MAX_K_def
proof (rule for_up_inv)
  fix i t assume i: "int 0 \<le> i" "i < int 10" and t: "s16_arr 10 t"
  have "\<exists>a. for_up 0 4 (\<lambda>j acc. do { p \<leftarrow> get2 prev j i; m \<leftarrow> get3 ma l j i; Some (MSU16_16 acc p m) })
      (SHL (f ! nat i) 15) = Some a \<and> True"
    by (rule for_up_inv) (use assms i in auto)
  with assms i t show "\<exists>u. (do { x \<leftarrow> get f i;
      acc \<leftarrow> for_up 0 4 (\<lambda>j acc. do { p \<leftarrow> get2 prev j i; m \<leftarrow> get3 ma l j i; Some (MSU16_16 acc p m) }) (SHL x 15);
      w \<leftarrow> get2 iv l i; put t i (s16 (MULT16_16_Q12 (s16 (PSHR acc 15)) w)) }) = Some u \<and> s16_arr 10 u"
    by (auto intro!: arr_update)
qed simp

lemma least_error_ok:
  assumes "\<And>i. 0 \<le> i \<Longrightarrow> i < int n \<Longrightarrow> \<exists>e. candidate i = Some e" "0 < n"
  shows "\<exists>b. least_error n candidate = Some b \<and> 0 \<le> b \<and> b < int n"
proof -
  have "\<exists>t. for_up 0 n (\<lambda>i (meanSquareDiff, best). do { acc \<leftarrow> candidate i;
        Some (if acc < meanSquareDiff then (acc, i) else (meanSquareDiff, best)) }) (MAXINT32, 0) = Some t
      \<and> (0 \<le> snd t \<and> snd t < int n)"
  proof (rule for_up_inv)
    fix i and t :: "int \<times> int"
    assume i: "int 0 \<le> i" "i < int n" and t: "0 \<le> snd t \<and> snd t < int n"
    obtain e where "candidate i = Some e" using assms(1) [of i] i by auto
    with i t show "\<exists>u. (case t of (meanSquareDiff, best) \<Rightarrow> do { acc \<leftarrow> candidate i;
        Some (if acc < meanSquareDiff then (acc, i) else (meanSquareDiff, best)) }) = Some u
        \<and> (0 \<le> snd u \<and> snd u < int n)" by (cases t) auto
  qed (use assms(2) in simp)
  then show ?thesis by (auto simp: least_error_def)
qed

lemma L1_error_ok:
  assumes "s16_arr 10 t" "0 \<le> r" "r < 128"
  shows "\<exists>e. L1_error t r = Some e"
proof -
  have "\<exists>e. L1_error t r = Some e \<and> True"
    unfolding L1_error_def NB_LSP_COEFF_def by (rule for_up_inv) (use assms L1_arr in \<open>auto simp: Let_def\<close>)
  then show ?thesis by blast
qed

lemma L2_error_ok:
  assumes "s16_arr 10 t" "s16_arr 10 w" "arr2 Q 2 10 sums" "0 \<le> l" "l < 2"
    "0 \<le> r1" "r1 < 128" "0 \<le> r2" "r2 < 32" "b \<le> 10"
  shows "\<exists>e. L2_error t w sums l r1 r2 a b acc = Some e"
proof -
  have "\<exists>e. L2_error t w sums l r1 r2 a b acc = Some e \<and> True"
    unfolding L2_error_def by (rule for_up_inv) (use assms L1_arr L2L3_arr in \<open>auto simp: Let_def\<close>)
  then show ?thesis by blast
qed

lemma space_pair_ok:
  assumes "s16_arr 10 q" "1 \<le> i" "i < 10"
  shows "\<exists>r. space_pair g i q = Some r \<and> s16_arr 10 r"
  using assms by (auto simp: space_pair_def Let_def intro!: arr_update)

lemma space_vector_ok:
  assumes "s16_arr 10 q"
  shows "\<exists>r. space_vector q = Some r \<and> s16_arr 10 r"
proof -
  have s: "\<exists>r. for_up a b (space_pair g) q = Some r \<and> s16_arr 10 r" if "1 \<le> a" "b \<le> 10" "s16_arr 10 q" for a b g q
    by (rule for_up_inv) (use that space_pair_ok in auto)
  obtain q1 where 1: "for_up 1 5 (space_pair GAP1) q = Some q1" "s16_arr 10 q1" using s [of 1 5 q GAP1] assms by auto
  obtain q2 where 2: "for_up 6 10 (space_pair GAP1) q1 = Some q2" "s16_arr 10 q2" using s [of 6 10 q1 GAP1] 1 by auto
  obtain q3 where 3: "for_up 1 10 (space_pair GAP2) q2 = Some q3" "s16_arr 10 q3" using s [of 1 10 q2 GAP2] 2 by auto
  show ?thesis using 1 2 3 by (simp add: space_vector_def NB_LSP_COEFF_def)
qed

lemma weighted_error_ok:
  assumes "s16_arr 10 t" "s16_arr 10 w" "arr2 Q 2 10 sums" "0 \<le> l" "l < 2" "s16_arr 10 q"
  shows "\<exists>e. weighted_error t w sums l q = Some e"
proof -
  have "\<exists>e. weighted_error t w sums l q = Some e \<and> True"
    unfolding weighted_error_def NB_LSP_COEFF_def by (rule for_up_inv) (use assms in \<open>auto simp: Let_def\<close>)
  then show ?thesis by blast
qed

lemma sum_rows_ok:
  assumes "0 \<le> r1" "r1 < 128" "0 \<le> r1'" "r1' < 128" "0 \<le> r2" "r2 < 32" "0 \<le> r3" "r3 < 32"
  shows "\<exists>q. sum_rows r1 r1' r2 r3 = Some q \<and> s16_arr 10 q"
proof -
  have s: "\<exists>q. for_up a b (\<lambda>i q. do { x \<leftarrow> get2 L1 r i; y \<leftarrow> get2 L2L3 s i; put q i (ADD16 x y) }) p = Some q \<and> s16_arr 10 q"
    if "b \<le> 10" "s16_arr 10 p" "0 \<le> r" "r < 128" "0 \<le> s" "s < 32" for a b p r s
    by (rule for_up_inv) (use that L1_arr L2L3_arr in \<open>auto intro!: arr_update simp: ADD16_def\<close>)
  obtain q1 where 1: "for_up 0 5 (\<lambda>i q. do { x \<leftarrow> get2 L1 r1 i; y \<leftarrow> get2 L2L3 r2 i; put q i (ADD16 x y) }) (replicate 10 0)
      = Some q1" "s16_arr 10 q1" using s [of 5 "replicate 10 0" r1 r2 0] assms by auto
  obtain q2 where 2: "for_up 5 10 (\<lambda>i q. do { x \<leftarrow> get2 L1 r1' i; y \<leftarrow> get2 L2L3 r3 i; put q i (ADD16 x y) }) q1
      = Some q2" "s16_arr 10 q2" using s [of 10 q1 r1' r3 5] assms 1 by auto
  show ?thesis using 1 2 by (simp add: sum_rows_def NB_LSP_COEFF_def)
qed

lemma quantise_speech_ok:
  assumes "s16_arr 10 f" "s16_arr 10 w" "arr2 is_s16 4 10 prev" "l = 0 \<or> l = 1"
  shows "\<exists>e a b c. quantise_speech f w prev l = Some (e, a, b, c)
    \<and> 0 \<le> a \<and> a < 128 \<and> 0 \<le> b \<and> b < 32 \<and> 0 \<le> c \<and> c < 32"
proof -
  have l: "0 \<le> l" "l < 2" using assms(4) by auto
  obtain t where t: "target_vector f prev MAPredictor invMAPredictorSum l = Some t" "s16_arr 10 t"
    using target_vector_ok [OF assms(1,3) MAPredictor_arr invMAPredictorSum_arr l] by blast
  obtain a where a: "least_error 128 (L1_error t) = Some a" "0 \<le> a" "a < 128"
    using least_error_ok [of 128 "L1_error t"] L1_error_ok [OF t(2)] by auto
  have e: "\<exists>e. L2_error t w MAPredictorSum l a i x y acc = Some e" if "0 \<le> i" "i < int 32" "y \<le> 10" for i x y acc
    using L2_error_ok [OF t(2) assms(2) MAPredictorSum_arr l a(2,3)] that by simp
  obtain b where b: "least_error 32 (\<lambda>i. L2_error t w MAPredictorSum l a i 0 5 0) = Some b" "0 \<le> b" "b < 32"
    using least_error_ok [of 32 "\<lambda>i. L2_error t w MAPredictorSum l a i 0 5 0"] e by auto
  obtain c where c: "least_error 32 (\<lambda>i. L2_error t w MAPredictorSum l a i 5 10 0) = Some c" "0 \<le> c" "c < 32"
    using least_error_ok [of 32 "\<lambda>i. L2_error t w MAPredictorSum l a i 5 10 0"] e by auto
  obtain q where q: "sum_rows a a b c = Some q" "s16_arr 10 q" using sum_rows_ok a b c by blast
  obtain q' where q': "space_vector q = Some q'" "s16_arr 10 q'" using space_vector_ok q by blast
  obtain m where m: "weighted_error t w MAPredictorSum l q' = Some m"
    using weighted_error_ok [OF t(2) assms(2) MAPredictorSum_arr l q'(2)] by blast
  have "quantise_speech f w prev l = Some (m, a, b, c)"
    using t(1) a(1) b(1) c(1) q(1) q'(1) m
    by (simp add: quantise_speech_def NB_LSP_COEFF_def L1_RANGE_def L2_RANGE_def)
  then show ?thesis using a b c by blast
qed

lemma MA_filter_ok:
  assumes "arr3 P 2 4 10 ma" "arr2 Q 2 10 sums" "0 \<le> l" "l < 2" "arr2 is_s16 4 10 prev" "s16_arr 10 q"
  shows "\<exists>f. MA_filter ma sums l prev q = Some f \<and> s16_arr 10 f"
  unfolding MA_filter_def NB_LSP_COEFF_def MA_MAX_K_def
proof (rule for_up_inv)
  fix i f assume i: "int 0 \<le> i" "i < int 10" and f: "s16_arr 10 f"
  have "\<exists>a. for_up 0 4 (\<lambda>j acc. do { m \<leftarrow> get3 ma l j i; v \<leftarrow> get2 prev j i; Some (MAC16_16 acc m v) }) x = Some a \<and> True" for x
    by (rule for_up_inv) (use assms i in auto)
  then obtain a where a: "for_up 0 4 (\<lambda>j acc. do { m \<leftarrow> get3 ma l j i; v \<leftarrow> get2 prev j i; Some (MAC16_16 acc m v) })
      (MULT16_16 (sums ! nat l ! nat i) (q ! nat i)) = Some a" by blast
  with assms i f show "\<exists>t. (do { w \<leftarrow> get2 sums l i; c \<leftarrow> get q i;
      acc \<leftarrow> for_up 0 4 (\<lambda>j acc. do { m \<leftarrow> get3 ma l j i; v \<leftarrow> get2 prev j i; Some (MAC16_16 acc m v) }) (MULT16_16 w c);
      put f i (s16 (PSHR acc 15)) }) = Some t \<and> s16_arr 10 t" by (auto intro!: arr_update)
qed simp

lemma arr2_put_row:
  "arr2 P m n xss \<Longrightarrow> 0 \<le> i \<Longrightarrow> i < int m \<Longrightarrow> arr P n r \<Longrightarrow> \<exists>y. put xss i r = Some y \<and> arr2 P m n y"
  by (auto simp: arr2_def list_all_length nth_list_update)

lemma copy_row:
  assumes "arr2 is_s16 4 10 prev" "s16_arr 10 q" "0 \<le> i" "i < 4"
  shows "\<exists>p. (do { dst \<leftarrow> get prev i; r \<leftarrow> copy_block dst 0 q 0 10; put prev i r }) = Some p \<and> arr2 is_s16 4 10 p"
proof -
  obtain d where d: "get prev i = Some d" "s16_arr 10 d" using arr2_get [OF assms(1), of i] assms by auto
  obtain r where r: "copy_block d 0 q 0 10 = Some r" "s16_arr 10 r" using copy_block_ok [OF d(2) assms(2), of 0 10 0] by auto
  show ?thesis using d r arr2_put_row [OF assms(1,3) _ r(2)] assms(4) by simp
qed

lemma push_qLSF_ok:
  assumes "arr2 is_s16 4 10 prev" "s16_arr 10 q"
  shows "\<exists>p. push_qLSF prev q = Some p \<and> arr2 is_s16 4 10 p"
proof -
  have "\<exists>p. for_down 1 4 (\<lambda>i prev. do { src \<leftarrow> get prev (i - 1); dst \<leftarrow> get prev i;
      r \<leftarrow> copy_block dst 0 src 0 10; put prev i r }) prev = Some p \<and> arr2 is_s16 4 10 p"
  proof (rule for_down_inv)
    fix i p assume i: "int 1 \<le> i" "i < int 4" and p: "arr2 is_s16 4 10 p"
    obtain s where "get p (i - 1) = Some s" "s16_arr 10 s" using arr2_get [OF p, of "i - 1"] i by auto
    then show "\<exists>t. (do { src \<leftarrow> get p (i - 1); dst \<leftarrow> get p i; r \<leftarrow> copy_block dst 0 src 0 10; put p i r }) = Some t
        \<and> arr2 is_s16 4 10 t" using copy_row [OF p, of s i] i by simp
  qed (rule assms(1))
  then obtain p where p: "for_down 1 4 (\<lambda>i prev. do { src \<leftarrow> get prev (i - 1); dst \<leftarrow> get prev i;
      r \<leftarrow> copy_block dst 0 src 0 10; put prev i r }) prev = Some p" "arr2 is_s16 4 10 p" by blast
  show ?thesis using p(1) copy_row [OF p(2) assms(2), of 0] by (simp add: push_qLSF_def MA_MAX_K_def NB_LSP_COEFF_def)
qed

lemma encoder_stability_ok:
  assumes "s16_arr 10 q"
  shows "\<exists>r. encoder_stability q = Some r \<and> s16_arr 10 r"
proof -
  obtain q1 where q1: "insertionSort q 10 = Some q1" "s16_arr 10 q1" using insertionSort_s16 assms by blast
  define q2 where "q2 = (if q1 ! 1 < qLSF_MIN then q1[1 := qLSF_MIN] else q1)"
  have q2: "s16_arr 10 q2" using q1(2) by (auto simp: q2_def qLSF_MIN_def is_s16_def [of 40] intro!: arr_update)
  have "\<exists>r. for_up 0 9 (\<lambda>i q. do { a \<leftarrow> get q i; b \<leftarrow> get q (i + 1);
        if SUB16 b a < MIN_qLSF_DISTANCE then put q (i + 1) (s16 (a + MIN_qLSF_DISTANCE)) else Some q }) q2 = Some r
      \<and> s16_arr 10 r"
    by (rule for_up_inv) (use q2 in \<open>auto intro!: arr_update\<close>)
  then obtain q3 where q3: "for_up 0 9 (\<lambda>i q. do { a \<leftarrow> get q i; b \<leftarrow> get q (i + 1);
        if SUB16 b a < MIN_qLSF_DISTANCE then put q (i + 1) (s16 (a + MIN_qLSF_DISTANCE)) else Some q }) q2 = Some q3"
      "s16_arr 10 q3" by blast
  have "(if q1 ! 1 < qLSF_MIN then put q1 1 qLSF_MIN else Some q1) = Some q2" "get q1 1 = Some (q1 ! 1)"
    using q1(2) by (simp_all add: q2_def)
  with q1 q3 show ?thesis
    by (auto simp: encoder_stability_def NB_LSP_COEFF_def qLSF_MAX_def is_s16_def [of 25681] intro!: arr_update)
qed

lemma quantised_LSP_ok:
  assumes "arr3 P 2 4 10 ma" "arr2 Q 2 10 sums" "0 \<le> l" "l < 2" "arr2 is_s16 4 10 prev" "s16_arr 10 q" "s16_arr 10 p"
  shows "\<exists>prev' p'. quantised_LSP ma sums l prev q p = Some (prev', p') \<and> arr2 is_s16 4 10 prev' \<and> s16_arr 10 p'"
proof -
  obtain q1 where 1: "rearrangeCoefficients q GAP1 = Some q1" "s16_arr 10 q1"
    using rearrangeCoefficients_s16 assms(6) by blast
  obtain q2 where 2: "rearrangeCoefficients q1 GAP2 = Some q2" "s16_arr 10 q2"
    using rearrangeCoefficients_s16 1(2) by blast
  obtain f where 3: "MA_filter ma sums l prev q2 = Some f" "s16_arr 10 f" using MA_filter_ok [OF assms(1-5) 2(2)] by blast
  obtain pr where 4: "push_qLSF prev q2 = Some pr" "arr2 is_s16 4 10 pr" using push_qLSF_ok [OF assms(5) 2(2)] by blast
  obtain g where 5: "encoder_stability f = Some g" "s16_arr 10 g" using encoder_stability_ok 3(2) by blast
  have "for_up 0 10 (\<lambda>i p. do { v \<leftarrow> get g i; put p i (g729Cos_Q13Q15 v) }) p = Some (map g729Cos_Q13Q15 g)"
    by (rule cosines_ok [OF 5(2) arr_length [OF assms(7)]])
  moreover have "s16_arr 10 (map g729Cos_Q13Q15 g)" using arr_map [OF 5(2)] by simp
  ultimately show ?thesis using 1 2 3 4 5 by (simp add: quantised_LSP_def NB_LSP_COEFF_def)
qed

text \<open>The first four parameters of a speech frame.\<close>

definition LSP_parameters :: "int list \<Rightarrow> bool" where
  "LSP_parameters L \<longleftrightarrow> length L = 4 \<and> L ! 0 \<in> {0, 1} \<and> 0 \<le> L ! 1 \<and> L ! 1 < 128
     \<and> 0 \<le> L ! 2 \<and> L ! 2 < 32 \<and> 0 \<le> L ! 3 \<and> L ! 3 < 32"

lemma LSPQuantization_ok:
  assumes "arr2 is_s16 4 10 prev" "s16_arr 10 p" "s16_arr 10 qp"
  shows "\<exists>prev' qp' L. LSPQuantization prev p qp = Some (prev', qp', L)
    \<and> arr2 is_s16 4 10 prev' \<and> s16_arr 10 qp' \<and> LSP_parameters L"
proof -
  obtain f where f: "LSF_of_LSP p = Some f" "s16_arr 10 f" using LSF_of_LSP_ok assms(2) by blast
  obtain w where w: "LSF_weights f = Some w" "s16_arr 10 w" using LSF_weights_ok f(2) by blast
  obtain e0 a1 a2 a3 where a: "quantise_speech f w prev 0 = Some (e0, a1, a2, a3)"
    "0 \<le> a1 \<and> a1 < 128 \<and> 0 \<le> a2 \<and> a2 < 32 \<and> 0 \<le> a3 \<and> a3 < 32"
    using quantise_speech_ok [OF f(2) w(2) assms(1), of 0] by auto
  obtain e1 b1 b2 b3 where b: "quantise_speech f w prev 1 = Some (e1, b1, b2, b3)"
    "0 \<le> b1 \<and> b1 < 128 \<and> 0 \<le> b2 \<and> b2 < 32 \<and> 0 \<le> b3 \<and> b3 < 32"
    using quantise_speech_ok [OF f(2) w(2) assms(1), of 1] by auto
  define L where "L = (if e0 < e1 then [0, u16 a1, u16 a2, u16 a3] else [1, u16 b1, u16 b2, u16 b3])"
  have L: "LSP_parameters L" using a(2) b(2) by (auto simp: L_def LSP_parameters_def u16_idI)
  then have r: "0 \<le> L ! 1" "L ! 1 < 128" "0 \<le> L ! 2" "L ! 2 < 32" "0 \<le> L ! 3" "L ! 3 < 32" "0 \<le> L ! 0" "L ! 0 < 2"
    by (auto simp: LSP_parameters_def)
  obtain q where q: "sum_rows (L ! 1) (L ! 1) (L ! 2) (L ! 3) = Some q" "s16_arr 10 q" using sum_rows_ok r by blast
  obtain pr qq where z: "quantised_LSP MAPredictor MAPredictorSum (L ! 0) prev q qp = Some (pr, qq)"
    "arr2 is_s16 4 10 pr" "s16_arr 10 qq"
    using quantised_LSP_ok [OF MAPredictor_arr MAPredictorSum_arr r(7,8) assms(1) q(2) assms(3)] by blast
  have "LSPQuantization prev p qp = Some (pr, qq, L)"
    unfolding LSPQuantization_def f(1) w(1) a(1) b(1) Option.bind.simps split_conv L_def [symmetric] Let_def q(1) z(1) ..
  with L z show ?thesis by blast
qed

end
