(* ===== verification/G729_VAD.thy ===== *)
theory G729_VAD
  imports G729_Context G729_Utils
begin

text \<open>
  Voice activity detection (\<open>vad.c\<close>, G.729 Annex B): energies and zero crossings of a frame,
  the running averages of the background noise, the fourteen conditions of the initial decision
  and the smoothing of the decision. The context is a record with the fields of
  \<open>bcg729VADChannelContextStruct\<close>.
\<close>

definition Ni :: int where "Ni = 32"
definition N0 :: nat where "N0 = 128"
definition VOICE :: int where "VOICE = 1"
definition NOISE :: int where "NOISE = 0"

record VADContext =
  initEfSum :: int
  initZCSum :: int
  initLSFSum :: "int list"
  nbValidInitFrame :: int
  meanZC :: int
  meanEf :: int
  meanEl :: int
  meanLSF :: "int list"
  frameCount :: int
  updateCount :: int
  EfBuffer :: "int list"
  SVDm1 :: int
  SVDm2 :: int
  Count_inert :: int
  secondStageVADSmoothingFlag :: int
  smoothingCounter :: int
  previousFrameEf :: int
  noiseContinuityCounter :: int

definition initBcg729VADChannel :: VADContext where
  "initBcg729VADChannel = \<lparr>initEfSum = 0, initZCSum = 0, initLSFSum = replicate NB_LSP_COEFF 0,
     nbValidInitFrame = 0, meanZC = 0, meanEf = 0, meanEl = 0, meanLSF = replicate NB_LSP_COEFF 0,
     frameCount = 0, updateCount = 0, EfBuffer = replicate N0 MAXINT16, SVDm1 = VOICE, SVDm2 = VOICE,
     Count_inert = 0, secondStageVADSmoothingFlag = 1, smoothingCounter = 0, previousFrameEf = 0,
     noiseContinuityCounter = 0\<rparr>"

section \<open>Initial decision\<close>

definition multiBoundaryInitialVoiceActivityDecision :: "int \<Rightarrow> int \<Rightarrow> int \<Rightarrow> int \<Rightarrow> int" where
  "multiBoundaryInitialVoiceActivityDecision deltaS deltaEf deltaEl deltaZC = (
     let deltaEf32 = MULT16_16 10 deltaEf;
         deltaEl32 = MULT16_16 10 deltaEl;
         deltaS = MULT16_32 830 deltaS
     in if deltaS > ADD32 (MULT16_32_Q12 deltaZC 58720) 228170 then VOICE
        else if deltaS > ADD32 (MULT16_32_Q12 deltaZC (-152520)) 311141 then VOICE
        else if deltaEf32 < ADD32 (MULT16_32_Q15 deltaZC (-51200)) (-10240) then VOICE
        else if deltaEf32 < ADD32 (MULT16_32_Q15 deltaZC 40960) (-12288) then VOICE
        else if deltaEf32 < -9626 then VOICE
        else if deltaEf32 < ADD32 (MULT16_32_Q12 275 deltaS) (-24986) then VOICE
        else if deltaS > 241592 then VOICE
        else if deltaEf32 < ADD32 (MULT16_32_Q15 deltaZC 51200) (-14336) then VOICE
        else if deltaEf32 < ADD32 (MULT16_32_Q15 deltaZC (-59578)) (-9868) then VOICE
        else if deltaEf32 < -10854 then VOICE
        else if deltaEl32 < ADD32 (MULT16_32_Q13 875 deltaS) (-31744) then VOICE
        else if deltaEl32 > ADD32 (MULT16_32_Q15 30427 deltaEl32) 2341 then VOICE
        else if deltaEl32 < ADD32 (MULT16_32_Q14 (-24576) deltaEl32) (-18432) then VOICE
        else if deltaEl32 < ADD32 (MULT16_32_Q15 23406 deltaEl32) (-4389) then VOICE
        else NOISE)"

section \<open>Parameters of the frame\<close>

text \<open>A tenth of the energy in Q11, from the logarithm of an autocorrelation and its scale.\<close>

definition log_energy :: "int \<Rightarrow> int \<Rightarrow> int option" where
  "log_energy r scale = do {
     l \<leftarrow> g729Log2_Q0Q16 r;
     let acc = SUB32 l (s32 (scale * 2 ^ 16));
     let acc = shr (SUB32 acc LOG2_240_Q16) 1;
     let acc = MULT16_32_Q15 INV_LOG2_10_Q15 acc;
     Some (s16 (PSHR acc 4)) }"

definition low_band_energy :: "int list \<Rightarrow> int \<Rightarrow> int option" where
  "low_band_energy ac scale = do {
     f0 \<leftarrow> get lowBandFilter 0;
     r0 \<leftarrow> get ac 0;
     acc \<leftarrow> for_up 1 (NB_LSP_COEFF + 3) (\<lambda>i acc. do {
        f \<leftarrow> get lowBandFilter i;
        r \<leftarrow> get ac i;
        Some (MAC16_32_Q14 acc f r) }) (MULT16_32_Q15 f0 r0);
     log_energy (if acc \<le> 0 then 1 else acc) scale }"

definition zero_crossing :: "int list \<Rightarrow> int \<Rightarrow> int option" where
  "zero_crossing signal base = for_up 0 L_FRAME (\<lambda>i ZC. do {
     p \<leftarrow> get signal (base + (i - 1));
     c \<leftarrow> get signal (base + i);
     Some (if MULT16_16 p c < 0 then ADD16 ZC 410 else ZC) }) 0"

definition spectral_distortion :: "int list \<Rightarrow> int list \<Rightarrow> int option" where
  "spectral_distortion LSF mean = for_up 0 NB_LSP_COEFF (\<lambda>i acc. do {
     f \<leftarrow> get LSF i;
     m \<leftarrow> get mean i;
     let d = s16 (SUB16 f m);
     Some (MAC16_16_Q13 acc d d) }) 0"

section \<open>Initialisation period\<close>

definition end_of_init :: "VADContext \<Rightarrow> VADContext option" where
  "end_of_init ctx =
    (if frameCount ctx = Ni then
       if nbValidInitFrame ctx > 0 then do {
         let meanEn = s16 (DIV32 (initEfSum ctx) (nbValidInitFrame ctx));
         lsf \<leftarrow> for_up 0 NB_LSP_COEFF (\<lambda>i l. do {
            s \<leftarrow> get (initLSFSum ctx) i;
            put l i (s16 (DIV32 s (nbValidInitFrame ctx))) }) (meanLSF ctx);
         Some (ctx\<lparr>meanZC := s16 (DIV32 (initZCSum ctx) (nbValidInitFrame ctx)), meanLSF := lsf,
                   meanEf := s16 (SUB16 meanEn 2048), meanEl := s16 (SUB16 meanEn 2458)\<rparr>) }
       else Some (ctx\<lparr>frameCount := 0\<rparr>)
     else Some ctx)"

text \<open>The end of every call: the history of decisions and of the energy.\<close>

definition vad_update :: "VADContext \<Rightarrow> int \<Rightarrow> int \<Rightarrow> VADContext" where
  "vad_update ctx Ef Ivd = ctx\<lparr>frameCount := u32 (frameCount ctx + 1), previousFrameEf := Ef,
     SVDm2 := SVDm1 ctx, SVDm1 := Ivd\<rparr>"

definition init_frame :: "VADContext \<Rightarrow> int \<Rightarrow> int \<Rightarrow> int list \<Rightarrow> (VADContext \<times> int) option" where
  "init_frame ctx Ef ZC LSF =
    (if Ef < 3072 then Some (vad_update ctx Ef NOISE, NOISE)
     else do {
       sums \<leftarrow> for_up 0 NB_LSP_COEFF (\<lambda>i s. do {
          v \<leftarrow> get s i;
          f \<leftarrow> get LSF i;
          put s i (ADD32 v f) }) (initLSFSum ctx);
       let ctx = ctx\<lparr>nbValidInitFrame := u8 (nbValidInitFrame ctx + 1),
                     initEfSum := ADD32 (initEfSum ctx) Ef, initZCSum := ADD32 (initZCSum ctx) ZC,
                     initLSFSum := sums\<rparr>;
       Some (vad_update ctx Ef VOICE, VOICE) })"

section \<open>Smoothing\<close>

definition hysteresis :: "VADContext \<Rightarrow> int \<Rightarrow> VADContext \<times> int" where
  "hysteresis ctx Ivd = (
     let ctx = (if Ivd = VOICE then ctx\<lparr>Count_inert := 0\<rparr> else ctx)
     in if Ivd = NOISE \<and> Count_inert ctx < 6
        then (ctx\<lparr>Count_inert := u32 (Count_inert ctx + 1)\<rparr>, VOICE) else (ctx, Ivd))"

definition second_stage :: "VADContext \<Rightarrow> int \<Rightarrow> int \<Rightarrow> VADContext \<times> int" where
  "second_stage ctx Ef Ivd =
    (if secondStageVADSmoothingFlag ctx = 1 \<and> Ivd = NOISE \<and> SVDm1 ctx = VOICE \<and> SVDm2 ctx = VOICE
        \<and> ABS (SUB16 Ef (previousFrameEf ctx)) \<le> 614
     then (let ctx = ctx\<lparr>smoothingCounter := u32 (smoothingCounter ctx + 1)\<rparr>
           in (if smoothingCounter ctx \<le> 4 then ctx\<lparr>secondStageVADSmoothingFlag := 1\<rparr>
               else ctx\<lparr>secondStageVADSmoothingFlag := 0, smoothingCounter := 0\<rparr>, VOICE))
     else (ctx\<lparr>secondStageVADSmoothingFlag := 1\<rparr>, Ivd))"

definition third_stage :: "VADContext \<Rightarrow> int \<Rightarrow> int \<Rightarrow> VADContext \<times> int" where
  "third_stage ctx Ef Ivd = (
     let ctx = (if Ivd = NOISE then ctx\<lparr>noiseContinuityCounter := s32 (noiseContinuityCounter ctx + 1)\<rparr>
                else ctx);
         (ctx, Ivd) = (if Ivd = VOICE \<and> noiseContinuityCounter ctx > 10
                          \<and> SUB16 Ef (previousFrameEf ctx) \<le> 614
                       then (ctx\<lparr>noiseContinuityCounter := 0, Count_inert := 6\<rparr>, NOISE)
                       else (ctx, Ivd))
     in (if Ivd = VOICE then ctx\<lparr>noiseContinuityCounter := 0\<rparr> else ctx, Ivd))"

definition smooth_decision :: "VADContext \<Rightarrow> int \<Rightarrow> int \<Rightarrow> int \<Rightarrow> VADContext \<times> int" where
  "smooth_decision ctx Ef deltaEf Ivd = (
     let (ctx, Ivd) = hysteresis ctx Ivd;
         Ivd = (if Ivd = NOISE \<and> SVDm1 ctx \<noteq> 0 \<and> deltaEf > 410 \<and> Ef > 3072 then VOICE else Ivd);
         (ctx, Ivd) = second_stage ctx Ef Ivd
     in third_stage ctx Ef Ivd)"

section \<open>Running averages\<close>

text \<open>Weights of the old average and complements for energy, zero crossing, frequencies.\<close>

definition betas :: "int \<Rightarrow> int \<times> int \<times> int \<times> int \<times> int \<times> int" where
  "betas updates =
    (if updates < 20 then (24576, 8192, 26214, 6554, 19661, 13107)
     else if updates < 30 then (31130, 1638, 30147, 2621, 21299, 11469)
     else if updates < 40 then (31785, 983, 30802, 1966, 22938, 9830)
     else if updates < 50 then (32440, 328, 31457, 1311, 24756, 8192)
     else if updates < 60 then (32604, 164, 32440, 328, 24576, 8192)
     else (32702, 66, 32604, 164, 24576, 8192))"

definition average :: "int \<Rightarrow> int \<Rightarrow> int \<Rightarrow> int \<Rightarrow> int" where
  "average mean beta x complement = ADD16 (MULT16_16_Q15 mean beta) (MULT16_16_Q15 x complement)"

definition update_averages :: "VADContext \<Rightarrow> int \<Rightarrow> int \<Rightarrow> int \<Rightarrow> int \<Rightarrow> int list \<Rightarrow> VADContext option" where
  "update_averages ctx reflectionCoefficient Ef El ZC LSF =
    (if SUB16 Ef 614 < meanEf ctx \<and> reflectionCoefficient < 1610612736 then do {
       let updates = u32 (updateCount ctx + 1);
       let (betaE, betaEc, betaZC, betaZCc, betaLSF, betaLSFc) = betas updates;
       lsf \<leftarrow> for_up 0 NB_LSP_COEFF (\<lambda>i m. do {
          v \<leftarrow> get m i;
          f \<leftarrow> get LSF i;
          put m i (average v betaLSF f betaLSFc) }) (meanLSF ctx);
       Some (ctx\<lparr>updateCount := updates, meanEf := average (meanEf ctx) betaE Ef betaEc,
                 meanEl := average (meanEl ctx) betaE El betaEc,
                 meanZC := average (meanZC ctx) betaZC ZC betaZCc, meanLSF := lsf\<rparr>) }
     else Some ctx)"

definition follow_minimum :: "VADContext \<Rightarrow> int \<Rightarrow> int \<Rightarrow> VADContext" where
  "follow_minimum ctx Emin deltaS =
    (if frameCount ctx > int N0 \<and> ((meanEf ctx < Emin \<and> deltaS < 819) \<or> meanEf ctx > ADD16 Emin 2048)
     then ctx\<lparr>meanEf := Emin, updateCount := 0\<rparr> else ctx)"

section \<open>A frame\<close>

definition decide_frame :: "VADContext \<Rightarrow> int \<Rightarrow> int \<Rightarrow> int \<Rightarrow> int \<Rightarrow> int list \<Rightarrow> (VADContext \<times> int) option" where
  "decide_frame ctx reflectionCoefficient Ef El ZC LSF = do {
     Emin \<leftarrow> getMinInArray (EfBuffer ctx) N0;
     deltaS \<leftarrow> spectral_distortion LSF (meanLSF ctx);
     let deltaEf = s16 (SUB16 (meanEf ctx) Ef);
     let deltaEl = s16 (SUB16 (meanEl ctx) El);
     let deltaZC = s16 (SUB16 (meanZC ctx) ZC);
     let Ivd = (if Ef < 3072 then NOISE
                else multiBoundaryInitialVoiceActivityDecision deltaS deltaEf deltaEl deltaZC);
     let (ctx, Ivd) = smooth_decision ctx Ef deltaEf Ivd;
     ctx \<leftarrow> update_averages ctx reflectionCoefficient Ef El ZC LSF;
     Some (vad_update (follow_minimum ctx Emin deltaS) Ef Ivd, Ivd) }"

definition bcg729_vad :: "VADContext \<Rightarrow> int \<Rightarrow> int list \<Rightarrow> int list \<Rightarrow> int \<Rightarrow> int list \<Rightarrow> int \<Rightarrow>
    (VADContext \<times> int) option" where
  "bcg729_vad ctx reflectionCoefficient LSF ac scale signal base = do {
     r0 \<leftarrow> get ac 0;
     Ef \<leftarrow> log_energy (s32 (r0 + 1)) scale;
     buf \<leftarrow> put (EfBuffer ctx) (frameCount ctx mod int N0) Ef;
     El \<leftarrow> low_band_energy ac scale;
     ZC \<leftarrow> zero_crossing signal base;
     ctx \<leftarrow> end_of_init (ctx\<lparr>EfBuffer := buf\<rparr>);
     if frameCount ctx < Ni then init_frame ctx Ef ZC LSF
     else decide_frame ctx reflectionCoefficient Ef El ZC LSF }"

end
