(* ===== verification/G729_LP2LSP.thy ===== *)
theory G729_LP2LSP
  imports G729_Context
begin

text \<open>
  From prediction coefficients to line spectral pairs (\<open>LP2LSPConversion.c\<close>, bcg729): the
  roots of two polynomials, found by the sign changes of their Chebyshev sums over 50 steps.
  The pointer \<open>polynomialCoefficients\<close>, which alternates between the two arrays, is a flag.
\<close>


definition cosW0pi :: "int list" where
  "cosW0pi = [32760, 32703, 32509, 32187, 31738, 31164,
    30466, 29649, 28714, 27666, 26509, 25248,
    23886, 22431, 20887, 19260, 17557, 15786,
    13951, 12062, 10125, 8149, 6140, 4106,
    2057, 0, -2057, -4106, -6140, -8149,
    -10125, -12062, -13951, -15786, -17557, -19260,
    -20887, -22431, -23886, -25248, -26509, -27666,
    -28714, -29649, -30466, -31164, -31738, -32187,
    -32509, -32703, -32760]"

definition NB_COMPUTED_VALUES_CHEBYSHEV_POLYNOMIAL :: nat where
  "NB_COMPUTED_VALUES_CHEBYSHEV_POLYNOMIAL = 51"

definition ChebyshevPolynomial :: "int \<Rightarrow> int list \<Rightarrow> int option" where
  "ChebyshevPolynomial x f = do {
     f1 \<leftarrow> get f 1;
     (bk1, bk2) \<leftarrow> for_down 1 4 (\<lambda>k (bk1, bk2). do {
        fk \<leftarrow> get f (5 - k);
        Some (SUB32 (ADD32 (SHL (MULT16_32_Q15 x bk1) 1) fk) bk2, bk1) })
       (ADD32 (SHL x 1) f1, ONE_IN_Q15);
     f5 \<leftarrow> get f 5;
     Some (SUB32 (ADD32 (MULT16_32_Q15 x bk1) (SHR f5 1)) bk2) }"

text \<open>The coefficients of the two polynomials.\<close>

definition lsp_polynomials :: "int list \<Rightarrow> (int list \<times> int list) option" where
  "lsp_polynomials LP = do {
     f1 \<leftarrow> put (replicate 6 0) 0 ONE_IN_Q12;
     f2 \<leftarrow> put (replicate 6 0) 0 ONE_IN_Q12;
     (f1, f2) \<leftarrow> for_up 0 5 (\<lambda>i (f1, f2). do {
        a \<leftarrow> get LP i;
        b \<leftarrow> get LP (9 - i);
        x \<leftarrow> get f1 i;
        f1 \<leftarrow> put f1 (i + 1) (ADD32 a (SUB32 b x));
        y \<leftarrow> get f2 i;
        f2 \<leftarrow> put f2 (i + 1) (ADD32 y (SUB32 a b));
        Some (f1, f2) }) (f1, f2);
     for_up 1 6 (\<lambda>i (f1, f2). do {
        x \<leftarrow> get f1 i; f1 \<leftarrow> put f1 i (SHL x 3);
        y \<leftarrow> get f2 i; f2 \<leftarrow> put f2 i (SHL y 3);
        Some (f1, f2) }) (f1, f2) }"

text \<open>The test for a change of sign looks at bit 28 of the two values.\<close>

definition sign_change :: "int \<Rightarrow> int \<Rightarrow> bool" where
  "sign_change a b \<longleftrightarrow> (a XOR b) AND 0x10000000 \<noteq> 0"

text \<open>Halving the interval twice: \<open>(xLow, xHigh, previousCx, Cx)\<close>.\<close>

definition bisect_root :: "int list \<Rightarrow> int \<times> int \<times> int \<times> int \<Rightarrow> (int \<times> int \<times> int \<times> int) option" where
  "bisect_root f s = for_up 0 2 (\<lambda>j (xLow, xHigh, previousCx, Cx). do {
     let xMean = s16 (SHR (ADD32 xLow xHigh) 1);
     middleCx \<leftarrow> ChebyshevPolynomial xMean f;
     Some (if sign_change previousCx middleCx then (xLow, xMean, previousCx, middleCx)
           else (xMean, xHigh, middleCx, Cx)) }) s"

definition interpolate_root :: "int \<times> int \<times> int \<times> int \<Rightarrow> int" where
  "interpolate_root = (\<lambda>(xLow, xHigh, previousCx, Cx).
     s16 (SUB32 xLow (MULT16_32_Q15 (SUB32 xHigh xLow)
       (DIV32 (SHL previousCx 14) (SHR (SUB32 Cx previousCx) 1)))))"

text \<open>One step of the search: \<open>(LSPCoefficients, numberOfRootFound, previousCx, useF1)\<close>, and
  whether the loop is left because all roots are found.\<close>

definition root_step :: "int list \<Rightarrow> int list \<Rightarrow> int \<Rightarrow> int list \<times> int \<times> int \<times> bool \<Rightarrow>
    ((int list \<times> int \<times> int \<times> bool) \<times> bool) option" where
  "root_step f1 f2 i = (\<lambda>(lsp, numberOfRootFound, previousCx, useF1). do {
     x \<leftarrow> get cosW0pi i;
     Cx \<leftarrow> ChebyshevPolynomial x (if useF1 then f1 else f2);
     if sign_change previousCx Cx
     then do {
       xLow \<leftarrow> get cosW0pi (i - 1);
       r \<leftarrow> bisect_root (if useF1 then f1 else f2) (xLow, x, previousCx, Cx);
       let useF1 = (\<not> useF1);
       let xMean = interpolate_root r;
       previousCx \<leftarrow> ChebyshevPolynomial xMean (if useF1 then f1 else f2);
       lsp \<leftarrow> put lsp numberOfRootFound xMean;
       let numberOfRootFound = u8 (numberOfRootFound + 1);
       Some ((lsp, numberOfRootFound, previousCx, useF1), numberOfRootFound = int NB_LSP_COEFF) }
     else Some ((lsp, numberOfRootFound, previousCx, useF1), False) })"

definition LP2LSPConversion :: "int list \<Rightarrow> int list \<Rightarrow> (int list \<times> bool) option" where
  "LP2LSPConversion LP lsp = do {
     (f1, f2) \<leftarrow> lsp_polynomials LP;
     x \<leftarrow> get cosW0pi 0;
     previousCx \<leftarrow> ChebyshevPolynomial x f1;
     (lsp, numberOfRootFound, _) \<leftarrow>
       run_break (map int [1..<NB_COMPUTED_VALUES_CHEBYSHEV_POLYNOMIAL]) (root_step f1 f2)
         (lsp, 0, previousCx, True);
     Some (lsp, numberOfRootFound = int NB_LSP_COEFF) }"

section \<open>The search stays in its arrays\<close>

lemma cosW0pi_arr [table_simps]: "s16_arr 51 cosW0pi"
  by (simp add: arr_def cosW0pi_def is_s16_def)

lemma ChebyshevPolynomial_ok:
  assumes "s32_arr 6 f"
  shows "\<exists>v. ChebyshevPolynomial x f = Some v \<and> is_s32 v"
proof -
  have "\<exists>s. for_down 1 4 (\<lambda>k (bk1, bk2). do { fk \<leftarrow> get f (5 - k);
        Some (SUB32 (ADD32 (SHL (MULT16_32_Q15 x bk1) 1) fk) bk2, bk1) })
      (ADD32 (SHL x 1) (f ! 1), ONE_IN_Q15) = Some s \<and> True"
    by (rule for_down_inv) (use assms in auto)
  then show ?thesis using assms by (auto simp: ChebyshevPolynomial_def)
qed

lemma lsp_polynomials_ok:
  assumes "arr P 10 LP"
  shows "\<exists>f1 f2. lsp_polynomials LP = Some (f1, f2) \<and> s32_arr 6 f1 \<and> s32_arr 6 f2"
proof -
  let ?i = "(replicate 6 0)[0 := ONE_IN_Q12]"
  have i: "s32_arr 6 ?i" by (intro arr_update arr_replicate) (simp_all add: is_s32_def ONE_IN_Q12_def)
  have "\<exists>s. for_up 0 5 (\<lambda>i (f1, f2). do {
        a \<leftarrow> get LP i;
        b \<leftarrow> get LP (9 - i);
        x \<leftarrow> get f1 i;
        f1 \<leftarrow> put f1 (i + 1) (ADD32 a (SUB32 b x));
        y \<leftarrow> get f2 i;
        f2 \<leftarrow> put f2 (i + 1) (ADD32 y (SUB32 a b));
        Some (f1, f2) }) (?i, ?i) = Some s \<and> s32_arr 6 (fst s) \<and> s32_arr 6 (snd s)"
    by (rule for_up_inv) (use assms i in \<open>auto intro!: arr_update\<close>)
  then obtain f1 f2 where f: "for_up 0 5 (\<lambda>i (f1, f2). do {
        a \<leftarrow> get LP i;
        b \<leftarrow> get LP (9 - i);
        x \<leftarrow> get f1 i;
        f1 \<leftarrow> put f1 (i + 1) (ADD32 a (SUB32 b x));
        y \<leftarrow> get f2 i;
        f2 \<leftarrow> put f2 (i + 1) (ADD32 y (SUB32 a b));
        Some (f1, f2) }) (?i, ?i) = Some (f1, f2)" "s32_arr 6 f1" "s32_arr 6 f2" by auto
  have "\<exists>s. for_up 1 6 (\<lambda>i (f1, f2). do {
        x \<leftarrow> get f1 i; f1 \<leftarrow> put f1 i (SHL x 3);
        y \<leftarrow> get f2 i; f2 \<leftarrow> put f2 i (SHL y 3);
        Some (f1, f2) }) (f1, f2) = Some s \<and> s32_arr 6 (fst s) \<and> s32_arr 6 (snd s)"
    by (rule for_up_inv) (use f in \<open>auto intro!: arr_update\<close>)
  then show ?thesis using f by (auto simp: lsp_polynomials_def)
qed

lemma bisect_root_ok:
  assumes "s32_arr 6 f"
  shows "\<exists>r. bisect_root f s = Some r"
proof -
  have "\<exists>r. bisect_root f s = Some r \<and> True" unfolding bisect_root_def
  proof (rule for_up_inv)
    fix i and s :: "int \<times> int \<times> int \<times> int"
    obtain a b c d where s: "s = (a, b, c, d)" by (cases s)
    obtain v where "ChebyshevPolynomial (s16 (SHR (ADD32 a b) 1)) f = Some v"
      using ChebyshevPolynomial_ok [OF assms] by blast
    then show "\<exists>t. (case s of (xLow, xHigh, previousCx, Cx) \<Rightarrow> do {
        let xMean = s16 (SHR (ADD32 xLow xHigh) 1);
        middleCx \<leftarrow> ChebyshevPolynomial xMean f;
        Some (if sign_change previousCx middleCx then (xLow, xMean, previousCx, middleCx)
           else (xMean, xHigh, middleCx, Cx)) }) = Some t \<and> True"
      by (simp add: s Let_def)
  qed simp
  then show ?thesis by simp
qed

text \<open>While the loop goes on fewer than ten roots are stored, so the next one fits.\<close>

lemma LP2LSPConversion_ok:
  assumes "arr P 10 LP" "s16_arr 10 lsp"
  shows "\<exists>r b. LP2LSPConversion LP lsp = Some (r, b) \<and> s16_arr 10 r"
proof -
  obtain f1 f2 where f: "lsp_polynomials LP = Some (f1, f2)" "s32_arr 6 f1" "s32_arr 6 f2"
    using lsp_polynomials_ok [OF assms(1)] by blast
  obtain c0 where c0: "ChebyshevPolynomial (cosW0pi ! 0) f1 = Some c0"
    using ChebyshevPolynomial_ok [OF f(2)] by blast
  let ?P = "\<lambda>s. case s of (l, n, c, u) \<Rightarrow> s16_arr 10 l \<and> 0 \<le> n \<and> n < (10::int)"
  let ?Q = "\<lambda>s. case s of (l, n, c, u) \<Rightarrow> s16_arr 10 l"
  have "\<exists>t. run_break (map int [1..<51]) (root_step f1 f2) (lsp, 0, c0, True) = Some t \<and> ?Q t"
  proof (rule run_break_inv [where P = ?P])
    fix i :: int and s :: "int list \<times> int \<times> int \<times> bool"
    assume i: "i \<in> set (map int [1..<51])" and P: "?P s"
    obtain l n c u where s: "s = (l, n, c, u)" by (cases s)
    let ?f = "\<lambda>u. if u then f1 else f2"
    have fu: "s32_arr 6 (?f u)" for u using f by simp
    obtain v where v: "ChebyshevPolynomial (cosW0pi ! nat i) (?f u) = Some v"
      using ChebyshevPolynomial_ok [OF fu] by blast
    obtain r where r: "bisect_root (?f u) (cosW0pi ! nat (i - 1), cosW0pi ! nat i, c, v) = Some r"
      using bisect_root_ok [OF fu] by blast
    obtain w where w: "ChebyshevPolynomial (interpolate_root r) (?f (\<not> u)) = Some w"
      using ChebyshevPolynomial_ok [OF fu] by blast
    have x: "is_s16 (interpolate_root r)" by (simp add: interpolate_root_def split: prod.splits)
    have g: "get cosW0pi i = Some (cosW0pi ! nat i)" "get cosW0pi (i - 1) = Some (cosW0pi ! nat (i - 1))"
      using i cosW0pi_arr by auto
    have n: "s16_arr 10 l" "0 \<le> n" "n < 10" using P by (simp_all add: s)
    then have p: "put l n (interpolate_root r) = Some (l[nat n := interpolate_root r])"
      "s16_arr 10 (l[nat n := interpolate_root r])" using x by (auto intro!: arr_update)
    have n1: "u8 (n + 1) = n + 1" using n by (simp add: u8_def)
    show "\<exists>t b. root_step f1 f2 i s = Some (t, b) \<and> (if b then ?Q t else ?P t)"
    proof (cases "sign_change c v")
      case True
      then have "root_step f1 f2 i s = Some ((l[nat n := interpolate_root r], n + 1, w, \<not> u), n + 1 = 10)"
        using v r w by (simp add: root_step_def s g p n1 NB_LSP_COEFF_def)
      then show ?thesis using n p(2) by auto
    next
      case False
      then have "root_step f1 f2 i s = Some ((l, n, c, u), False)" using v by (simp add: root_step_def s g)
      then show ?thesis using n by auto
    qed
  next
    fix s :: "int list \<times> int \<times> int \<times> bool" assume "?P s"
    then show "?Q s" by (cases s) simp
  qed (use assms in simp)
  then obtain l n c u where "run_break (map int [1..<51]) (root_step f1 f2) (lsp, 0, c0, True) = Some (l, n, c, u)"
    "s16_arr 10 l" by (auto split: prod.splits)
  then show ?thesis
    using f c0 cosW0pi_arr
    by (simp add: LP2LSPConversion_def NB_COMPUTED_VALUES_CHEBYSHEV_POLYNOMIAL_def)
qed

end
