(* ===== verification/G729_CNG.thy ===== *)
theory G729_CNG
  imports G729_LSP G729_Excitation G729_LP2LSP
begin

text \<open>
  Comfort noise (\<open>cng.c\<close>, bcg729): the excitation made from pseudo random numbers at a target
  gain, and the decoding of noise frames (SID frames), in the format of G.729 annex B or of
  RFC 3389. \<open>bitStream\<close> is an option: \<open>None\<close> is the NULL pointer of an untransmitted frame.
\<close>

definition GAUSSIAN_EXCITATION_COEFF_FACTOR :: int where "GAUSSIAN_EXCITATION_COEFF_FACTOR = 25905"
definition COEFF_K :: int where "COEFF_K = 24576"

definition SIDqLSPInitialValues :: "int list" where
  "SIDqLSPInitialValues = [31441, 27566, 21458, 13612, 4663, -4663, -13612, -21458, -27566, -31441]"

definition initBcg729CNGChannel :: CNGContext where
  "initBcg729CNGChannel = \<lparr>receivedSIDGain = 0, smoothedSIDGain = 0,
     cng_qLSP = SIDqLSPInitialValues, lastFrameEnergy = 0\<rparr>"

section \<open>Random excitation\<close>

record noise_draw =
  nd_frac :: int
  nd_int :: int
  nd_pos :: "int list"
  nd_sign :: "int list"
  nd_Ga :: int

text \<open>Pitch delay, four signed pulses and the adaptive gain, from three random numbers.\<close>

definition draw_noise :: "int \<Rightarrow> int \<times> noise_draw" where
  "draw_noise seed = (
     let seed = pseudoRandom seed; r = seed;
         frac = s16 (r mod 4) - 1;
         frac = (if frac = 2 then 0 else frac);
         r = shr r 2;
         T = s16 (r mod 64 + 40);
         r = shr r 6;
         p0 = s16 (r mod 8 * 5);
         r = shr r 3;
         g0 = s16 (r mod 2);
         r = shr r 1;
         p1 = s16 (r mod 8 * 5 + 1);
         r = shr r 3;
         g1 = s16 (r mod 2);
         seed = pseudoRandom seed; r = seed;
         p2 = s16 (r mod 8 * 5 + 2);
         r = shr r 3;
         g2 = s16 (r mod 2);
         r = shr r 1;
         p3 = s16 (r mod 2 + 3);
         r = shr r 1;
         p3 = s16 (p3 + r mod 8 * 5);
         r = shr r 3;
         g3 = s16 (r mod 2);
         seed = pseudoRandom seed;
         Ga = s16 (seed mod 8192 * 2)
     in (seed, \<lparr>nd_frac = frac, nd_int = T, nd_pos = [p0, p1, p2, p3],
                nd_sign = [g0, g1, g2, g3], nd_Ga = Ga\<rparr>))"

text \<open>Forty sums of twelve random numbers, and their energy: \<open>(seed, Eg, gaussian)\<close>.\<close>

definition gaussian_noise :: "int \<Rightarrow> (int \<times> int \<times> int list) option" where
  "gaussian_noise seed = for_up 0 L_SUBFRAME (\<lambda>i (seed, Eg, g). do {
     (seed, tmp) \<leftarrow> for_up 0 12 (\<lambda>j (seed, tmp).
        let seed = pseudoRandom seed in Some (seed, ADD32 tmp (s16 seed))) (seed, 0);
     let v = s16 (SHR tmp 7);
     g \<leftarrow> put g i v;
     Some (seed, MAC16_16 Eg v v, g) }) (seed, 0, replicate L_SUBFRAME 0)"

definition scale_noise :: "int \<Rightarrow> int list \<Rightarrow> int list option" where
  "scale_noise Gg g = for_up 0 L_SUBFRAME (\<lambda>i g. do {
     v \<leftarrow> get g i;
     put g i (if v < 0 then s16 (- SATURATE (PSHR (MULT16_32_Q15 (- v) Gg) 2) MAXINT16)
              else s16 (PSHR (MULT16_32_Q15 v Gg) 2)) }) g"

text \<open>The signed sum of the excitation at the four pulses, added to \<open>Ei\<close>.\<close>

definition pulse_sum :: "noise_draw \<Rightarrow> int list \<Rightarrow> int \<Rightarrow> int \<Rightarrow> int option" where
  "pulse_sum d exc base Ei = for_up 0 4 (\<lambda>i Ei. do {
     g \<leftarrow> get (nd_sign d) i;
     p \<leftarrow> get (nd_pos d) i;
     e \<leftarrow> get exc (base + p);
     Some (if g = 0 then SUB32 Ei e else ADD32 Ei e) }) Ei"

text \<open>\<open>while (delta >= 0x80000000) { delta >>= 1; deltaScaleFactor++; }\<close>\<close>

function delta_loop :: "int \<Rightarrow> int \<Rightarrow> int \<times> int" where
  "delta_loop delta scale =
    (if delta \<ge> 0x80000000 then delta_loop (shr delta 1) (u8 (scale + 1)) else (delta, scale))"
  by pat_completeness auto
termination
  by (relation "measure (\<lambda>(d, s). nat d)") (auto simp: shr_def)

declare delta_loop.simps [simp del]

text \<open>The root of smaller absolute value of the equation for the gain of the pulses.\<close>

definition fixed_gain :: "int \<Rightarrow> int \<Rightarrow> int option" where
  "fixed_gain delta Ei = (
     let (delta, scale) = delta_loop delta 0;
         (delta, scale) = (if scale mod 2 = 1 then (shr delta 1, u8 (scale + 1)) else (delta, scale))
     in do {
       delta \<leftarrow> g729Sqrt_Q0Q7 (u32 (s32 delta));
       let Ei = VSHR32 Ei (scale sdiv 2 - 7);
       let Gf = SUB32 delta Ei;
       let x2 = s32 (- ADD32 delta Ei);
       let Gf = (if ABS x2 < ABS Gf then x2 else Gf);
       Some (VSHR32 Gf (2 + 7 - scale sdiv 2)) })"

definition comfort_noise_subframe :: "int \<Rightarrow> int \<Rightarrow> int \<times> int list \<Rightarrow> (int \<times> int list) option" where
  "comfort_noise_subframe targetGain base = (\<lambda>(seed, exc). do {
     let (seed, d) = draw_noise seed;
     (seed, Eg, gauss) \<leftarrow> gaussian_noise seed;
     inv \<leftarrow> g729InvSqrt_Q0Q31 Eg;
     let Gg = MULT16_32_Q15 targetGain (MULT16_32_Q15 GAUSSIAN_EXCITATION_COEFF_FACTOR inv);
     gauss \<leftarrow> scale_noise Gg gauss;
     exc \<leftarrow> computeAdaptativeCodebookVector exc base (nd_frac d) (nd_int d);
     exc \<leftarrow> for_up 0 L_SUBFRAME (\<lambda>i exc. do {
        e \<leftarrow> get exc (base + i);
        put exc (base + i) (s16 (SATURATE (MULT16_16_P15 e (nd_Ga d)) MAXINT16)) }) exc;
     exc \<leftarrow> for_up 0 L_SUBFRAME (\<lambda>i exc. do {
        e \<leftarrow> get exc (base + i);
        v \<leftarrow> get gauss i;
        put exc (base + i) (s16 (SATURATE (ADD32 e v) MAXINT16)) }) exc;
     Ea \<leftarrow> for_up 0 L_SUBFRAME (\<lambda>i Ea. do {
        e \<leftarrow> get exc (base + i);
        Some (MAC16_16 Ea e e) }) 0;
     Ei \<leftarrow> pulse_sum d exc base 0;
     let K = MULT16_32 targetGain (SHR (MULT16_16 (int L_SUBFRAME) targetGain) 3);
     let delta = ADD64 (MULT32_32 Ei Ei) (SHR (SUB64 K (s64 (Ea * 8))) 1);
     (exc, Ei, delta) \<leftarrow>
       (if delta < 0 then do {
          exc \<leftarrow> for_up 0 L_SUBFRAME (\<lambda>i exc. do {
             v \<leftarrow> get gauss i;
             put exc (base + i) v }) exc;
          Ei \<leftarrow> pulse_sum d exc base Ei;
          Some (exc, Ei, ADD64 (MULT32_32 Ei Ei) (MULT16_32_P15 COEFF_K K)) }
        else Some (exc, Ei, delta));
     Gf \<leftarrow> fixed_gain delta Ei;
     exc \<leftarrow> for_up 0 4 (\<lambda>i exc. do {
        g \<leftarrow> get (nd_sign d) i;
        p \<leftarrow> get (nd_pos d) i;
        e \<leftarrow> get exc (base + p);
        put exc (base + p) (s16 (if g = 0 then SUB32 e Gf else ADD32 e Gf)) }) exc;
     Some (seed, exc) })"

text \<open>The two subframes; the current frame starts at cell \<open>L_PAST_EXCITATION\<close>.\<close>

definition computeComfortNoiseExcitationVector ::
    "int \<Rightarrow> int \<Rightarrow> int list \<Rightarrow> (int \<times> int list) option" where
  "computeComfortNoiseExcitationVector targetGain seed exc =
     run_loop [0, int L_SUBFRAME]
       (\<lambda>subframeIndex. comfort_noise_subframe targetGain (int L_PAST_EXCITATION + subframeIndex))
       (seed, exc)"

section \<open>Decoding a noise frame\<close>

definition rfc3389_gain :: "int \<Rightarrow> int option" where
  "rfc3389_gain level = do {
     let lg = ADD32 (- level) 90;
     let lg = (if lg > 66 then 66 else lg);
     let meanE = g729Exp2_Q11Q16 (s16 (MULT16_16 lg 680));
     minGain \<leftarrow> get SIDGainCodebook 0;
     if meanE > 0 then do {
       rt \<leftarrow> g729Sqrt_Q0Q7 (u32 meanE);
       let gain = s16 (SHR rt 12);
       Some (if gain < minGain then minGain else gain) }
     else Some minGain }"

text \<open>Reflection coefficients of the payload and the prediction coefficients they define.\<close>

definition reflection_of_byte :: "int \<Rightarrow> int" where
  "reflection_of_byte b = s16 (MULT16_16 (ADD16 b 127) 258)"

definition rfc3389_reflection :: "int list \<Rightarrow> nat \<Rightarrow> int list option" where
  "rfc3389_reflection bitStream order = do {
     k \<leftarrow> for_up 0 order (\<lambda>i k. do {
        b \<leftarrow> get bitStream (i + 1);
        put k i (reflection_of_byte b) }) (replicate NB_LSP_COEFF 0);
     for_up order NB_LSP_COEFF (\<lambda>i k. put k i 0) k }"

definition levinson_step :: "int list \<Rightarrow> int \<Rightarrow> int list \<times> int list \<Rightarrow> (int list \<times> int list) option" where
  "levinson_step k i = (\<lambda>(LP, prev). do {
     prev \<leftarrow> for_up 1 (nat i) (\<lambda>j prev. do { v \<leftarrow> get LP j; put prev j v }) prev;
     ki \<leftarrow> get k (i - 1);
     LP \<leftarrow> put LP i (s32 (- SHL ki 16));
     LP \<leftarrow> for_up 1 (nat i) (\<lambda>j LP. do {
        a \<leftarrow> get LP j;
        b \<leftarrow> get LP i;
        p \<leftarrow> get prev (i - j);
        put LP j (MAC32_32_Q31 a b p) }) LP;
     v \<leftarrow> get LP i;
     LP \<leftarrow> put LP i (SHR v 4);
     Some (LP, prev) })"

definition rfc3389_LP :: "int list \<Rightarrow> int list option" where
  "rfc3389_LP k = do {
     LP \<leftarrow> put (replicate (NB_LSP_COEFF + 1) 0) 0 ONE_IN_Q27;
     k0 \<leftarrow> get k 0;
     LP \<leftarrow> put LP 1 (s32 (- SHL k0 12));
     (LP, _) \<leftarrow> for_up 2 (NB_LSP_COEFF + 1) (levinson_step k) (LP, replicate (NB_LSP_COEFF + 1) 0);
     for_up 0 NB_LSP_COEFF (\<lambda>i q. do {
        v \<leftarrow> get LP (i + 1);
        put q i (s16 (SATURATE (PSHR v 15) MAXINT16)) }) (replicate NB_LSP_COEFF 0) }"

definition decode_rfc3389 ::
    "CNGContext \<Rightarrow> int list \<Rightarrow> int \<Rightarrow> int list \<Rightarrow> CNGContext option" where
  "decode_rfc3389 cng bitStream bitStreamLength prevqLSP = do {
     let order = u8 (bitStreamLength - 1);
     let order = (if order > int NB_LSP_COEFF then int NB_LSP_COEFF else order);
     level \<leftarrow> get bitStream 0;
     gain \<leftarrow> rfc3389_gain level;
     k \<leftarrow> rfc3389_reflection bitStream (nat order);
     LP \<leftarrow> rfc3389_LP k;
     (q, found) \<leftarrow> LP2LSPConversion LP (cng_qLSP cng);
     q \<leftarrow> (if found then Some q else copy_block q 0 prevqLSP 0 NB_LSP_COEFF);
     Some (cng\<lparr>receivedSIDGain := gain, cng_qLSP := q\<rparr>) }"

text \<open>The code word of a 15 bit noise frame, from subsets of the speech codebooks.\<close>

definition sid_code_word :: "int \<Rightarrow> int \<Rightarrow> int list option" where
  "sid_code_word L1Index L2Index = do {
     q \<leftarrow> for_up 0 (NB_LSP_COEFF div 2) (\<lambda>i q. do {
        r1 \<leftarrow> get L1SubsetIndex L1Index; a \<leftarrow> get2 L1 r1 i;
        r2 \<leftarrow> get L2SubsetIndex L2Index; b \<leftarrow> get2 L2L3 r2 i;
        put q i (ADD16 a b) }) (replicate NB_LSP_COEFF 0);
     for_up (NB_LSP_COEFF div 2) NB_LSP_COEFF (\<lambda>i q. do {
        r1 \<leftarrow> get L1SubsetIndex L1Index; a \<leftarrow> get2 L1 r1 i;
        r3 \<leftarrow> get L3SubsetIndex L2Index; b \<leftarrow> get2 L2L3 r3 i;
        put q i (ADD16 a b) }) q }"

definition decode_g729_sid ::
    "CNGContext \<Rightarrow> int list \<Rightarrow> int list list \<Rightarrow> (CNGContext \<times> int list list) option" where
  "decode_g729_sid cng bitStream prevCW = do {
     b0 \<leftarrow> get bitStream 0;
     b1 \<leftarrow> get bitStream 1;
     let L0 = shr b0 7 mod 2;
     let L1Index = shr b0 2 mod 32;
     let L2Index = b0 mod 4 * 4 + shr b1 6 mod 4;
     gain \<leftarrow> get SIDGainCodebook (shr b1 1 mod 32);
     q \<leftarrow> sid_code_word L1Index L2Index;
     (q, cw) \<leftarrow> computeqLSF q prevCW L0 noiseMAPredictor noiseMAPredictorSum;
     p \<leftarrow> for_up 0 NB_LSP_COEFF (\<lambda>i p. do {
        v \<leftarrow> get q i; put p i (g729Cos_Q13Q15 v) }) (cng_qLSP cng);
     Some (cng\<lparr>receivedSIDGain := gain, cng_qLSP := p\<rparr>, cw) }"

definition smooth_gain :: "CNGContext \<Rightarrow> int \<Rightarrow> CNGContext" where
  "smooth_gain cng previousActive =
    (if previousActive \<noteq> 0 then cng\<lparr>smoothedSIDGain := receivedSIDGain cng\<rparr>
     else let s = s16 (SUB16 (smoothedSIDGain cng) (shr (smoothedSIDGain cng) 3))
          in cng\<lparr>smoothedSIDGain := ADD16 s (shr (receivedSIDGain cng) 3)\<rparr>)"

text \<open>The fields of the decoder context that the call passes by pointer, and the LP array.\<close>

definition decodeSIDframe ::
    "decoderContext \<Rightarrow> int list option \<Rightarrow> int \<Rightarrow> int list \<Rightarrow> int \<Rightarrow> (decoderContext \<times> int list) option" where
  "decodeSIDframe ctx bitStream bitStreamLength LP rfc3389PayloadFlag = do {
     (cng, cw) \<leftarrow>
       (case bitStream of
          None \<Rightarrow> Some (CNGChannelContext ctx, previousLCodeWord ctx)
        | Some bs \<Rightarrow>
            if rfc3389PayloadFlag \<noteq> 0
            then do { cng \<leftarrow> decode_rfc3389 (CNGChannelContext ctx) bs bitStreamLength (previousqLSP ctx);
                      Some (cng, previousLCodeWord ctx) }
            else decode_g729_sid (CNGChannelContext ctx) bs (previousLCodeWord ctx));
     interpolated \<leftarrow> interpolateqLSP (previousqLSP ctx) (cng_qLSP cng) (replicate NB_LSP_COEFF 0);
     pq \<leftarrow> for_up 0 NB_LSP_COEFF (\<lambda>i p. do { v \<leftarrow> get (cng_qLSP cng) i; put p i v }) (previousqLSP ctx);
     LP \<leftarrow> qLSP2LP interpolated LP 0;
     LP \<leftarrow> qLSP2LP (cng_qLSP cng) LP (int NB_LSP_COEFF);
     let cng = smooth_gain cng (previousFrameIsActiveFlag ctx);
     (seed, exc) \<leftarrow> computeComfortNoiseExcitationVector (smoothedSIDGain cng)
        (CNGpseudoRandomSeed ctx) (excitationVector ctx);
     Some (ctx\<lparr>CNGChannelContext := cng, previousLCodeWord := cw, previousqLSP := pq,
       CNGpseudoRandomSeed := seed, excitationVector := exc\<rparr>, LP) }"

section \<open>All accesses are in bounds, all loops end\<close>

lemma is_u16_pseudoRandom [simp]: "is_u16 (pseudoRandom x)"
  by (rule pseudoRandom_range)

definition draw_ok :: "noise_draw \<Rightarrow> bool" where
  "draw_ok d \<longleftrightarrow> -1 \<le> nd_frac d \<and> nd_frac d \<le> 1 \<and> 40 \<le> nd_int d \<and> nd_int d \<le> 103
     \<and> arr (\<lambda>p. 0 \<le> p \<and> p < 40) 4 (nd_pos d) \<and> arr (\<lambda>g. g = 0 \<or> g = 1) 4 (nd_sign d)
     \<and> 0 \<le> nd_Ga d \<and> nd_Ga d < 16384"

lemma s16_small: "0 \<le> a \<Longrightarrow> a < 32768 \<Longrightarrow> s16 a = a"
  by (rule s16_idI) auto

lemma mod_bits: "0 \<le> x mod 2 \<and> x mod 2 \<le> 1" "0 \<le> x mod 4 \<and> x mod 4 \<le> 3"
  "0 \<le> x mod 8 \<and> x mod 8 \<le> 7" "0 \<le> x mod 64 \<and> x mod 64 \<le> 63" "0 \<le> x mod 8192 \<and> x mod 8192 \<le> 8191"
  for x :: int
  using pos_mod_bound [of 2 x] pos_mod_bound [of 4 x] pos_mod_bound [of 8 x] pos_mod_bound [of 64 x]
    pos_mod_bound [of 8192 x] by auto

lemma draw_fields:
  "s16 (x mod 2) = x mod 2" "s16 (x mod 4) = x mod 4" "s16 (x mod 64 + 40) = x mod 64 + 40"
  "s16 (x mod 8 * 5) = x mod 8 * 5" "s16 (x mod 8 * 5 + 1) = x mod 8 * 5 + 1"
  "s16 (x mod 8 * 5 + 2) = x mod 8 * 5 + 2" "s16 (x mod 2 + 3) = x mod 2 + 3"
  "s16 (x mod 2 + 3 + y mod 8 * 5) = x mod 2 + 3 + y mod 8 * 5" "s16 (x mod 8192 * 2) = x mod 8192 * 2"
  using mod_bits [of x] mod_bits [of y] by (intro s16_small; linarith)+

lemma draw_noise_ok:
  assumes "draw_noise seed = (seed', d)"
  shows "is_u16 seed' \<and> draw_ok d"
proof -
  define r where "r = pseudoRandom seed"
  define q where "q = pseudoRandom r"
  note m = mod_bits
  have d: "seed' = pseudoRandom q" "nd_frac d = (if r mod 4 - 1 = 2 then 0 else r mod 4 - 1)"
    "nd_int d = shr r 2 mod 64 + 40"
    "nd_pos d = [shr (shr r 2) 6 mod 8 * 5, shr (shr (shr (shr r 2) 6) 3) 1 mod 8 * 5 + 1,
       q mod 8 * 5 + 2, shr (shr q 3) 1 mod 2 + 3 + shr (shr (shr q 3) 1) 1 mod 8 * 5]"
    "nd_sign d = [shr (shr (shr r 2) 6) 3 mod 2, shr (shr (shr (shr (shr r 2) 6) 3) 1) 3 mod 2,
       shr q 3 mod 2, shr (shr (shr (shr q 3) 1) 1) 3 mod 2]"
    "nd_Ga d = pseudoRandom q mod 8192 * 2"
    using assms by (auto simp: draw_noise_def Let_def r_def q_def draw_fields)
  have b: "x mod 2 = 0 \<or> x mod 2 = 1" for x :: int using m(1) [of x] by linarith
  have p: "0 \<le> x mod 8 * 5 \<and> x mod 8 * 5 < 40" "0 \<le> x mod 8 * 5 + 1 \<and> x mod 8 * 5 + 1 < 40"
    "0 \<le> x mod 8 * 5 + 2 \<and> x mod 8 * 5 + 2 < 40"
    "0 \<le> y mod 2 + 3 + x mod 8 * 5 \<and> y mod 2 + 3 + x mod 8 * 5 < 40" for x y :: int
    using m(3) [of x] m(1) [of y] by linarith+
  have a: "arr P 4 [w, x, y, z] \<longleftrightarrow> P w \<and> P x \<and> P y \<and> P z" for P w x y z by (simp add: arr_def)
  have f: "-1 \<le> nd_frac d \<and> nd_frac d \<le> 1" unfolding d using m(2) [of r] by auto
  have t: "40 \<le> nd_int d \<and> nd_int d \<le> 103" unfolding d using m(4) [of "shr r 2"] by auto
  have g: "0 \<le> nd_Ga d \<and> nd_Ga d < 16384" unfolding d using m(5) [of "pseudoRandom q"] by auto
  have ps: "arr (\<lambda>p. 0 \<le> p \<and> p < 40) 4 (nd_pos d)" unfolding d a by (intro conjI p [THEN conjunct1] p [THEN conjunct2])
  have sg: "arr (\<lambda>g. g = 0 \<or> g = 1) 4 (nd_sign d)" unfolding d a by (intro conjI b)
  show ?thesis using f t g ps sg d(1) by (simp add: draw_ok_def)
qed

lemma gaussian_noise_ok:
  assumes "is_u16 seed"
  shows "\<exists>seed' Eg g. gaussian_noise seed = Some (seed', Eg, g) \<and> is_u16 seed' \<and> s16_arr 40 g"
proof -
  have "\<exists>s. gaussian_noise seed = Some s \<and> is_u16 (fst s) \<and> s16_arr 40 (snd (snd s))"
    unfolding gaussian_noise_def L_SUBFRAME_def
  proof (rule for_up_inv)
    fix i and s :: "int \<times> int \<times> int list"
    assume i: "int 0 \<le> i" "i < int 40" and s: "is_u16 (fst s) \<and> s16_arr 40 (snd (snd s))"
    obtain a b g where g: "s = (a, b, g)" by (cases s)
    have "\<exists>t. for_up 0 12 (\<lambda>j (seed, tmp). let seed = pseudoRandom seed in Some (seed, ADD32 tmp (s16 seed)))
        (a, 0) = Some t \<and> is_u16 (fst t)"
      by (rule for_up_inv) (use s in \<open>auto simp: g Let_def\<close>)
    then show "\<exists>t. (case s of (seed, Eg, g) \<Rightarrow> do {
         (seed, tmp) \<leftarrow> for_up 0 12 (\<lambda>j (seed, tmp).
            let seed = pseudoRandom seed in Some (seed, ADD32 tmp (s16 seed))) (seed, 0);
         let v = s16 (SHR tmp 7);
         g \<leftarrow> put g i v;
         Some (seed, MAC16_16 Eg v v, g) }) = Some t \<and> is_u16 (fst t) \<and> s16_arr 40 (snd (snd t))"
      using i s by (auto simp: g Let_def intro!: arr_update)
  qed (use assms in simp)
  then show ?thesis by auto
qed

lemma scale_noise_ok: "s16_arr 40 g \<Longrightarrow> \<exists>r. scale_noise Gg g = Some r \<and> s16_arr 40 r"
  unfolding scale_noise_def L_SUBFRAME_def
  by (rule for_up_inv) (auto intro!: arr_update)

lemma draw_get:
  assumes "draw_ok d" "0 \<le> i" "i < 4"
  shows "\<exists>g. get (nd_sign d) i = Some g" "\<exists>p. get (nd_pos d) i = Some p \<and> 0 \<le> p \<and> p < 40"
  using assms arr_get [of "\<lambda>g. g = 0 \<or> g = 1" 4 "nd_sign d" i]
    arr_get [of "\<lambda>p. 0 \<le> p \<and> p < 40" 4 "nd_pos d" i]
  by (auto simp: draw_ok_def)

lemma pulse_sum_ok:
  assumes "draw_ok d" "s16_arr 234 e" "0 \<le> base" "base \<le> 194"
  shows "\<exists>r. pulse_sum d e base x = Some r"
proof -
  have "\<exists>r. pulse_sum d e base x = Some r \<and> True"
    unfolding pulse_sum_def
    by (rule for_up_inv) (use draw_get [OF assms(1)] assms(2-4) in \<open>fastforce+\<close>)
  then show ?thesis by simp
qed

lemma fixed_gain_ok: "\<exists>r. fixed_gain delta Ei = Some r"
proof -
  have "\<forall>y. \<exists>r. g729Sqrt_Q0Q7 (u32 y) = Some r" by (intro allI g729Sqrt_total) (simp_all add: u32_def)
  then obtain rt where rt: "\<And>y. g729Sqrt_Q0Q7 (u32 y) = Some (rt y)" by metis
  show ?thesis by (simp add: fixed_gain_def Let_def rt split: prod.splits)
qed

lemma map_cells_ok:
  assumes "s16_arr 234 e" "0 \<le> base" "base \<le> 194" "\<And>i. 0 \<le> i \<Longrightarrow> i < 40 \<Longrightarrow> \<exists>w. h i = Some w"
    "\<And>x w. is_s16 (f x w)"
  shows "\<exists>r. for_up 0 40 (\<lambda>i exc. do { x \<leftarrow> get exc (base + i); w \<leftarrow> h i; put exc (base + i) (f x w) }) e
    = Some r \<and> s16_arr 234 r"
proof (rule for_up_inv)
  fix i s assume i: "int 0 \<le> i" "i < int 40" "s16_arr 234 s"
  then obtain w where "h i = Some w" using assms(4) by auto
  then show "\<exists>t. (do { x \<leftarrow> get s (base + i); w \<leftarrow> h i; put s (base + i) (f x w) }) = Some t \<and> s16_arr 234 t"
    using i assms by (auto intro!: arr_update)
qed (rule assms(1))

lemma comfort_noise_pulses_ok:
  assumes "draw_ok d" "s16_arr 234 e" "0 \<le> base" "base \<le> 194"
  shows "\<exists>r. for_up 0 4 (\<lambda>i exc. do {
        g \<leftarrow> get (nd_sign d) i;
        p \<leftarrow> get (nd_pos d) i;
        e \<leftarrow> get exc (base + p);
        put exc (base + p) (s16 (if g = 0 then SUB32 e Gf else ADD32 e Gf)) }) e = Some r \<and> s16_arr 234 r"
proof (rule for_up_inv)
  fix i s assume i: "int 0 \<le> i" "i < int 4" "s16_arr 234 s"
  obtain g p where "get (nd_sign d) i = Some g" "get (nd_pos d) i = Some p" "0 \<le> p" "p < 40"
    using draw_get [OF assms(1), of i] i by auto
  then show "\<exists>t. (do {
        g \<leftarrow> get (nd_sign d) i;
        p \<leftarrow> get (nd_pos d) i;
        e \<leftarrow> get s (base + p);
        put s (base + p) (s16 (if g = 0 then SUB32 e Gf else ADD32 e Gf)) }) = Some t \<and> s16_arr 234 t"
    using i assms by (auto intro!: arr_update)
qed (rule assms(2))

lemma comfort_noise_subframe_ok:
  assumes "s16_arr 234 exc" "154 \<le> base" "base \<le> 194"
  shows "\<exists>seed' e. comfort_noise_subframe gain base (seed, exc) = Some (seed', e)
    \<and> is_u16 seed' \<and> s16_arr 234 e"
proof -
  have base: "0 \<le> base" using assms(2) by simp
  obtain seed1 d where d: "draw_noise seed = (seed1, d)" "draw_ok d" "is_u16 seed1"
    using draw_noise_ok by (metis surj_pair)
  obtain seed2 Eg g where g: "gaussian_noise seed1 = Some (seed2, Eg, g)" "s16_arr 40 g" "is_u16 seed2"
    using gaussian_noise_ok [OF d(3)] by blast
  obtain inv where inv: "g729InvSqrt_Q0Q31 Eg = Some inv"
  proof -
    have "\<exists>rt. g729Sqrt_Q0Q7 (u32 Eg) = Some rt" by (rule g729Sqrt_total) (simp_all add: u32_def)
    then have "\<exists>i. g729InvSqrt_Q0Q31 Eg = Some i" by (auto simp: g729InvSqrt_Q0Q31_def)
    then show thesis using that by blast
  qed
  define Gg where "Gg = MULT16_32_Q15 gain (MULT16_32_Q15 GAUSSIAN_EXCITATION_COEFF_FACTOR inv)"
  obtain n where n: "scale_noise Gg g = Some n" "s16_arr 40 n" using scale_noise_ok [OF g(2)] by blast
  obtain b where b: "base = int b" "154 \<le> b" "b \<le> 194"
    using assms(2,3) by (metis int_nat_eq nat_le_iff base of_nat_le_iff of_nat_numeral)
  have v: "pitch_valid (nd_int d) (nd_frac d)" using d(2) by (simp add: draw_ok_def pitch_valid_def)
  obtain e1 where e1: "computeAdaptativeCodebookVector exc base (nd_frac d) (nd_int d) = Some e1"
    "s16_arr 234 e1"
    using computeAdaptativeCodebookVector_spec [OF assms(1) v b(2,3)] unfolding b(1) adaptive_result_def by blast
  obtain e2 where e2: "for_up 0 40 (\<lambda>i exc. do { e \<leftarrow> get exc (base + i);
        put exc (base + i) (s16 (SATURATE (MULT16_16_P15 e (nd_Ga d)) MAXINT16)) }) e1 = Some e2" "s16_arr 234 e2"
    using map_cells_ok [OF e1(2) base assms(3), of Some "\<lambda>e w. s16 (SATURATE (MULT16_16_P15 e (nd_Ga d)) MAXINT16)"]
    by auto
  obtain e3 where e3: "for_up 0 40 (\<lambda>i exc. do { e \<leftarrow> get exc (base + i); v \<leftarrow> get n i;
        put exc (base + i) (s16 (SATURATE (ADD32 e v) MAXINT16)) }) e2 = Some e3" "s16_arr 234 e3"
    using map_cells_ok [OF e2(2) base assms(3), of "get n" "\<lambda>e v. s16 (SATURATE (ADD32 e v) MAXINT16)"] n(2)
    by auto
  have "\<exists>Ea. for_up 0 40 (\<lambda>i Ea. do { e \<leftarrow> get e3 (base + i); Some (MAC16_16 Ea e e) }) 0 = Some Ea \<and> True"
    by (rule for_up_inv) (use e3(2) base assms(3) in auto)
  then obtain Ea where Ea: "for_up 0 40 (\<lambda>i Ea. do { e \<leftarrow> get e3 (base + i); Some (MAC16_16 Ea e e) }) 0 = Some Ea"
    by blast
  obtain Ei where Ei: "pulse_sum d e3 base 0 = Some Ei" using pulse_sum_ok [OF d(2) e3(2) base assms(3)] by blast
  obtain e4 where e4: "for_up 0 40 (\<lambda>i exc. do { v \<leftarrow> get n i; put exc (base + i) v }) e3 = Some e4" "s16_arr 234 e4"
  proof -
    have "\<exists>r. for_up 0 40 (\<lambda>i exc. do { v \<leftarrow> get n i; put exc (base + i) v }) e3 = Some r \<and> s16_arr 234 r"
      by (rule for_up_inv) (use n(2) e3(2) base assms(3) in \<open>auto intro!: arr_update s16_nth\<close>)
    then show thesis using that by blast
  qed
  obtain Ei' where Ei': "pulse_sum d e4 base Ei = Some Ei'" using pulse_sum_ok [OF d(2) e4(2) base assms(3)] by blast
  define K where "K = MULT16_32 gain (SHR (MULT16_16 (int 40) gain) 3)"
  define delta where "delta = ADD64 (MULT32_32 Ei Ei) (SHR (SUB64 K (s64 (Ea * 8))) 1)"
  define delta' where "delta' = ADD64 (MULT32_32 Ei' Ei') (MULT16_32_P15 COEFF_K K)"
  obtain e5 Ef D where e5: "(if delta < 0 then do {
          exc \<leftarrow> for_up 0 40 (\<lambda>i exc. do { v \<leftarrow> get n i; put exc (base + i) v }) e3;
          Ei \<leftarrow> pulse_sum d exc base Ei;
          Some (exc, Ei, ADD64 (MULT32_32 Ei Ei) (MULT16_32_P15 COEFF_K K)) }
        else Some (e3, Ei, delta)) = Some (e5, Ef, D)" "s16_arr 234 e5"
    using e4 Ei' e3(2) by (cases "delta < 0") auto
  obtain Gf where Gf: "fixed_gain D Ef = Some Gf" using fixed_gain_ok by blast
  obtain e6 where e6: "for_up 0 4 (\<lambda>i exc. do {
        g \<leftarrow> get (nd_sign d) i;
        p \<leftarrow> get (nd_pos d) i;
        e \<leftarrow> get exc (base + p);
        put exc (base + p) (s16 (if g = 0 then SUB32 e Gf else ADD32 e Gf)) }) e5 = Some e6" "s16_arr 234 e6"
    using comfort_noise_pulses_ok [OF d(2) e5(2) base assms(3)] by blast
  have "comfort_noise_subframe gain base (seed, exc) = Some (seed2, e6)"
    unfolding comfort_noise_subframe_def L_SUBFRAME_def prod.case d(1) Let_def g(1) inv Option.bind.simps
      Gg_def [symmetric] n(1) e1(1) e2(1) e3(1) Ea Ei K_def [symmetric] delta_def [symmetric] e5(1) Gf e6(1) ..
  then show ?thesis using e6(2) g(3) by blast
qed

lemma computeComfortNoise_ok:
  assumes "s16_arr 234 exc"
  shows "\<exists>seed' e. computeComfortNoiseExcitationVector gain seed exc = Some (seed', e)
    \<and> is_u16 seed' \<and> s16_arr 234 e"
proof -
  obtain s1 e1 where 1: "comfort_noise_subframe gain 154 (seed, exc) = Some (s1, e1)" "s16_arr 234 e1"
    using comfort_noise_subframe_ok [OF assms, of 154 gain seed] by auto
  obtain s2 e2 where 2: "comfort_noise_subframe gain 194 (s1, e1) = Some (s2, e2)" "is_u16 s2" "s16_arr 234 e2"
    using comfort_noise_subframe_ok [OF 1(2), of 194 gain s1] by auto
  show ?thesis using 1(1) 2 by (simp add: computeComfortNoiseExcitationVector_def sizes)
qed

section \<open>Noise frames are decoded safely\<close>

lemma rfc3389_gain_ok: "\<exists>g. rfc3389_gain level = Some g \<and> is_s16 g"
proof -
  have "\<forall>y. \<exists>r. g729Sqrt_Q0Q7 (u32 y) = Some r" by (intro allI g729Sqrt_total) (simp_all add: u32_def)
  then obtain rt where rt: "\<And>y. g729Sqrt_Q0Q7 (u32 y) = Some (rt y)" by metis
  have "is_s16 (SIDGainCodebook ! 0)" by (simp add: SIDGainCodebook_def is_s16_def)
  then show ?thesis using SIDGainCodebook_arr by (simp add: rfc3389_gain_def Let_def rt)
qed

lemma rfc3389_reflection_ok:
  assumes "order \<le> 10" "order + 1 \<le> length bs"
  shows "\<exists>k. rfc3389_reflection bs order = Some k \<and> s16_arr 10 k"
proof -
  have "\<exists>k. for_up 0 order (\<lambda>i k. do { b \<leftarrow> get bs (i + 1); put k i (reflection_of_byte b) })
      (replicate 10 0) = Some k \<and> s16_arr 10 k"
    by (rule for_up_inv) (use assms in \<open>auto simp: reflection_of_byte_def intro!: arr_update\<close>)
  then obtain k where k: "for_up 0 order (\<lambda>i k. do { b \<leftarrow> get bs (i + 1); put k i (reflection_of_byte b) })
      (replicate 10 0) = Some k" "s16_arr 10 k" by blast
  have "\<exists>r. for_up order 10 (\<lambda>i k. put k i 0) k = Some r \<and> s16_arr 10 r"
    by (rule for_up_inv) (use k in \<open>auto intro!: arr_update\<close>)
  then show ?thesis using k(1) by (simp add: rfc3389_reflection_def NB_LSP_COEFF_def)
qed

lemma is_s32_MAC32_32_Q31 [simp, range_simps]: "is_s32 (MAC32_32_Q31 c a b)"
  by (simp add: MAC32_32_Q31_def)

lemma levinson_step_ok:
  assumes "arr P 10 k" "s32_arr 11 LP" "s32_arr 11 prev" "2 \<le> i" "i < 11"
  shows "\<exists>s. levinson_step k i (LP, prev) = Some s \<and> s32_arr 11 (fst s) \<and> s32_arr 11 (snd s)"
proof -
  have "\<exists>p. for_up 1 (nat i) (\<lambda>j prev. do { v \<leftarrow> get LP j; put prev j v }) prev = Some p \<and> s32_arr 11 p"
    by (rule for_up_inv) (use assms in \<open>auto intro!: arr_update arr_nth [of is_s32 11 LP]\<close>)
  then obtain p where p: "for_up 1 (nat i) (\<lambda>j prev. do { v \<leftarrow> get LP j; put prev j v }) prev = Some p"
    "s32_arr 11 p" by blast
  let ?LP = "LP[nat i := s32 (- SHL (k ! nat (i - 1)) 16)]"
  have l: "s32_arr 11 ?LP" using assms by (auto intro!: arr_update)
  have "\<exists>q. for_up 1 (nat i) (\<lambda>j LP. do { a \<leftarrow> get LP j; b \<leftarrow> get LP i; p \<leftarrow> get p (i - j);
        put LP j (MAC32_32_Q31 a b p) }) ?LP = Some q \<and> s32_arr 11 q"
    by (rule for_up_inv) (use l p(2) assms(4,5) in \<open>auto intro!: arr_update\<close>)
  then obtain q where q: "for_up 1 (nat i) (\<lambda>j LP. do { a \<leftarrow> get LP j; b \<leftarrow> get LP i; p \<leftarrow> get p (i - j);
        put LP j (MAC32_32_Q31 a b p) }) ?LP = Some q" "s32_arr 11 q" by blast
  have "is_s32 (SHR (q ! nat i) 4)"
    unfolding SHR_def by (rule shr_shrinks) (use q(2) assms in \<open>auto intro!: arr_nth [of is_s32 11 q]\<close>)
  then show ?thesis using assms p q
    by (auto simp: levinson_step_def intro!: arr_update)
qed

lemma rfc3389_LP_ok:
  assumes "arr P 10 k"
  shows "\<exists>r. rfc3389_LP k = Some r \<and> s16_arr 10 r"
proof -
  have i: "s32_arr 11 ((replicate 11 0)[0 := ONE_IN_Q27, 1 := s32 (- SHL (k ! 0) 12)])" "s32_arr 11 (replicate 11 0)"
    by (auto intro!: arr_update arr_replicate simp: is_s32_def [of 0] is_s32_def [of 134217728] ONE_IN_Q27_def)
  have "\<exists>s. for_up 2 11 (levinson_step k) ((replicate 11 0)[0 := ONE_IN_Q27, 1 := s32 (- SHL (k ! 0) 12)],
      replicate 11 0) = Some s \<and> s32_arr 11 (fst s) \<and> s32_arr 11 (snd s)"
    by (rule for_up_inv) (use i levinson_step_ok [OF assms] in auto)
  then obtain LP p where LP: "for_up 2 11 (levinson_step k)
      ((replicate 11 0)[0 := ONE_IN_Q27, 1 := s32 (- SHL (k ! 0) 12)], replicate 11 0) = Some (LP, p)"
    "s32_arr 11 LP" by auto
  have "\<exists>r. for_up 0 10 (\<lambda>i q. do { v \<leftarrow> get LP (i + 1); put q i (s16 (SATURATE (PSHR v 15) MAXINT16)) })
      (replicate 10 0) = Some r \<and> s16_arr 10 r"
    by (rule for_up_inv) (use LP in \<open>auto intro!: arr_update\<close>)
  then show ?thesis using LP(1) assms by (simp add: rfc3389_LP_def NB_LSP_COEFF_def)
qed

definition cng_ok :: "CNGContext \<Rightarrow> bool" where
  "cng_ok c \<longleftrightarrow> is_s16 (receivedSIDGain c) \<and> is_s16 (smoothedSIDGain c) \<and> s16_arr 10 (cng_qLSP c)"

lemma decode_rfc3389_ok:
  assumes "cng_ok c" "s16_arr 10 prev" "0 < n" "n < 256" "int (length bs) = n"
  shows "\<exists>r. decode_rfc3389 c bs n prev = Some r \<and> cng_ok r"
proof -
  define order where "order = (if u8 (n - 1) > 10 then 10 else u8 (n - 1))"
  have u: "u8 (n - 1) = n - 1" using assms by (simp add: u8_def)
  have o: "0 \<le> order" "nat order \<le> 10" "nat order + 1 \<le> length bs"
    unfolding order_def u using assms(3-5) by (auto simp: nat_diff_distrib)
  obtain gain where gain: "rfc3389_gain (bs ! 0) = Some gain" "is_s16 gain" using rfc3389_gain_ok by blast
  obtain k where k: "rfc3389_reflection bs (nat order) = Some k" "s16_arr 10 k"
    using rfc3389_reflection_ok [OF o(2,3)] by blast
  obtain LP where LP: "rfc3389_LP k = Some LP" "s16_arr 10 LP" using rfc3389_LP_ok [OF k(2)] by blast
  obtain q found where q: "LP2LSPConversion LP (cng_qLSP c) = Some (q, found)" "s16_arr 10 q"
    using LP2LSPConversion_ok [OF LP(2)] assms(1) unfolding cng_ok_def by blast
  obtain p where p: "copy_block q 0 prev 0 10 = Some p" "s16_arr 10 p"
    using copy_block_ok [OF q(2) assms(2), of 0 10 0] by auto
  have b0: "get bs 0 = Some (bs ! 0)" using assms by (intro get_in [where i = 0, simplified]) auto
  have "decode_rfc3389 c bs n prev = Some (c\<lparr>receivedSIDGain := gain, cng_qLSP := if found then q else p\<rparr>)"
    unfolding decode_rfc3389_def Let_def NB_LSP_COEFF_def of_nat_numeral order_def [symmetric] b0
    using gain(1) k(1) LP(1) q(1) p(1) by simp
  then show ?thesis using assms(1) gain q p by (auto simp: cng_ok_def)
qed

lemma sid_code_word_ok:
  assumes "0 \<le> a" "a < 32" "0 \<le> b" "b < 16"
  shows "\<exists>q. sid_code_word a b = Some q \<and> s16_arr 10 q"
proof -
  note t = L1_arr L2L3_arr L1SubsetIndex_arr L2SubsetIndex_arr L3SubsetIndex_arr
  obtain r1 r2 r3 where r: "get L1SubsetIndex a = Some r1" "0 \<le> r1" "r1 < 128"
    "get L2SubsetIndex b = Some r2" "0 \<le> r2" "r2 < 32" "get L3SubsetIndex b = Some r3" "0 \<le> r3" "r3 < 32"
    using arr_get [OF t(3), of a] arr_get [OF t(4), of b] arr_get [OF t(5), of b] assms by auto
  have "\<exists>q. for_up 0 5 (\<lambda>i q. do { x \<leftarrow> get2 L1 r1 i; y \<leftarrow> get2 L2L3 r2 i; put q i (ADD16 x y) })
      (replicate 10 0) = Some q \<and> s16_arr 10 q"
    by (rule for_up_inv) (use t r in \<open>auto intro!: arr_update\<close>)
  then obtain q where q: "for_up 0 5 (\<lambda>i q. do { x \<leftarrow> get2 L1 r1 i; y \<leftarrow> get2 L2L3 r2 i; put q i (ADD16 x y) })
      (replicate 10 0) = Some q" "s16_arr 10 q" by blast
  have "\<exists>p. for_up 5 10 (\<lambda>i q. do { x \<leftarrow> get2 L1 r1 i; y \<leftarrow> get2 L2L3 r3 i; put q i (ADD16 x y) }) q = Some p
      \<and> s16_arr 10 p"
    by (rule for_up_inv) (use t r q(2) in \<open>auto intro!: arr_update\<close>)
  then show ?thesis using q(1) r by (simp add: sid_code_word_def NB_LSP_COEFF_def)
qed

lemma decode_g729_sid_ok:
  assumes "cng_ok c" "arr2 is_s16 4 10 cw" "2 \<le> length bs"
  shows "\<exists>r cw'. decode_g729_sid c bs cw = Some (r, cw') \<and> cng_ok r \<and> arr2 is_s16 4 10 cw'"
proof -
  define l0 where "l0 = shr (bs ! 0) 7 mod 2"
  define l1 where "l1 = shr (bs ! 0) 2 mod 32"
  define l2 where "l2 = bs ! 0 mod 4 * 4 + shr (bs ! 1) 6 mod 4"
  have l0: "0 \<le> l0" "l0 < 2" and l1: "0 \<le> l1" "l1 < 32" by (simp_all add: l0_def l1_def)
  have l2: "0 \<le> l2" "l2 < 16"
    using mod_bits(2) [of "bs ! 0"] mod_bits(2) [of "shr (bs ! 1) 6"] by (simp_all add: l2_def)
  obtain gain where g: "get SIDGainCodebook (shr (bs ! 1) 1 mod 32) = Some gain" "is_s16 gain"
    using arr_get [OF SIDGainCodebook_arr, of "shr (bs ! 1) 1 mod 32"] by (auto simp: is_s16_def)
  obtain q where q: "sid_code_word l1 l2 = Some q" "s16_arr 10 q" using sid_code_word_ok [OF l1 l2] by blast
  obtain p cw' where p: "computeqLSF q cw l0 noiseMAPredictor noiseMAPredictorSum = Some (p, cw')"
    "s16_arr 10 p" "arr2 is_s16 4 10 cw'"
    using computeqLSF_ok [OF q(2) assms(2) noiseMAPredictor_arr noiseMAPredictorSum_arr l0] by auto
  have b: "get bs 0 = Some (bs ! 0)" "get bs 1 = Some (bs ! 1)" using assms(3) by (auto simp: get_def)
  have cq: "length (cng_qLSP c) = 10" using assms(1) by (auto simp: cng_ok_def dest: arr_length)
  have "decode_g729_sid c bs cw = Some (c\<lparr>receivedSIDGain := gain, cng_qLSP := map g729Cos_Q13Q15 p\<rparr>, cw')"
    unfolding decode_g729_sid_def b Option.bind.simps Let_def l0_def [symmetric] l1_def [symmetric]
      l2_def [symmetric] g(1) q(1) p(1) prod.case NB_LSP_COEFF_def cosines_ok [OF p(2) cq] ..
  then show ?thesis using assms(1) g(2) p by (auto simp: cng_ok_def intro!: arr_map [OF p(2)])
qed

definition sid_payload_ok :: "int list option \<Rightarrow> int \<Rightarrow> int \<Rightarrow> bool" where
  "sid_payload_ok bs n rfc \<longleftrightarrow> (case bs of None \<Rightarrow> True
     | Some b \<Rightarrow> int (length b) = n \<and> n < 256 \<and> (if rfc \<noteq> 0 then 0 < n else 2 \<le> n))"

lemma decodeSIDframe_ok:
  assumes "cng_ok (CNGChannelContext ctx)" "arr2 is_s16 4 10 (previousLCodeWord ctx)"
    "s16_arr 10 (previousqLSP ctx)" "s16_arr 234 (excitationVector ctx)" "s16_arr 20 LP" "sid_payload_ok bs n rfc"
  shows "\<exists>c cw pq seed e LP'. decodeSIDframe ctx bs n LP rfc = Some (ctx\<lparr>CNGChannelContext := c,
       previousLCodeWord := cw, previousqLSP := pq, CNGpseudoRandomSeed := seed, excitationVector := e\<rparr>, LP')
     \<and> cng_ok c \<and> arr2 is_s16 4 10 cw \<and> s16_arr 10 pq \<and> is_u16 seed \<and> s16_arr 234 e \<and> s16_arr 20 LP'"
proof -
  let ?d = "case bs of None \<Rightarrow> Some (CNGChannelContext ctx, previousLCodeWord ctx)
        | Some bs \<Rightarrow> if rfc \<noteq> 0
            then do { cng \<leftarrow> decode_rfc3389 (CNGChannelContext ctx) bs n (previousqLSP ctx);
                      Some (cng, previousLCodeWord ctx) }
            else decode_g729_sid (CNGChannelContext ctx) bs (previousLCodeWord ctx)"
  have "\<exists>c cw. ?d = Some (c, cw) \<and> cng_ok c \<and> arr2 is_s16 4 10 cw"
  proof (cases bs)
    case None
    then show ?thesis using assms(1,2) by simp
  next
    case (Some b)
    then have b: "int (length b) = n" "n < 256" "if rfc \<noteq> 0 then 0 < n else 2 \<le> n"
      using assms(6) by (simp_all add: sid_payload_ok_def)
    show ?thesis
    proof (cases "rfc = 0")
      case True
      then show ?thesis using Some b decode_g729_sid_ok [OF assms(1,2), of b] by auto
    next
      case False
      then show ?thesis using Some b decode_rfc3389_ok [OF assms(1,3), of n b] assms(2) by auto
    qed
  qed
  then obtain c cw where c: "?d = Some (c, cw)" "cng_ok c" "arr2 is_s16 4 10 cw" by blast
  have q: "s16_arr 10 (cng_qLSP c)" using c(2) by (simp add: cng_ok_def)
  obtain i where i: "interpolateqLSP (previousqLSP ctx) (cng_qLSP c) (replicate 10 0) = Some i" "s16_arr 10 i"
    using interpolateqLSP_ok [OF assms(3) q, of "replicate 10 0"] by auto
  have cp: "for_up 0 10 (\<lambda>i p. do { v \<leftarrow> get (cng_qLSP c) i; put p i v }) (previousqLSP ctx) = Some (cng_qLSP c)"
    using copy_loop [of 10 "cng_qLSP c" "previousqLSP ctx"] q assms(3) by (simp add: arr_length)
  obtain L1 where L1: "qLSP2LP i LP 0 = Some L1" "s16_arr 20 L1" using qLSP2LP_ok [OF i(2) assms(5)] by auto
  obtain L2 where L2: "qLSP2LP (cng_qLSP c) L1 10 = Some L2" "s16_arr 20 L2" using qLSP2LP_ok [OF q L1(2)] by auto
  let ?s = "smooth_gain c (previousFrameIsActiveFlag ctx)"
  obtain seed e where e: "computeComfortNoiseExcitationVector (smoothedSIDGain ?s) (CNGpseudoRandomSeed ctx)
     (excitationVector ctx) = Some (seed, e)" "is_u16 seed" "s16_arr 234 e"
    using computeComfortNoise_ok [OF assms(4)] by blast
  have s: "cng_ok ?s" using c(2) by (simp add: smooth_gain_def cng_ok_def Let_def)
  have "decodeSIDframe ctx bs n LP rfc = Some (ctx\<lparr>CNGChannelContext := ?s,
       previousLCodeWord := cw, previousqLSP := cng_qLSP c, CNGpseudoRandomSeed := seed, excitationVector := e\<rparr>, L2)"
    unfolding decodeSIDframe_def c(1) Option.bind.simps prod.case NB_LSP_COEFF_def i(1) cp L1(1)
      of_nat_numeral L2(1) Let_def e(1) ..
  then show ?thesis using s c(3) q e(2,3) L2(2) by blast
qed

section \<open>Payloads of RFC 3389\<close>

text \<open>(C25) The gain of an RFC 3389 payload: the 16 bit argument of \<open>g729Exp2_Q11Q16\<close> wraps
  for noise levels of -41 dBov and louder, so the 42 loudest levels are all decoded as the
  minimum gain 2, while level 42 gives 1448.\<close>

theorem loud_noise_muted:
  "map rfc3389_gain [0..41] = replicate 42 (Some 2) \<and> rfc3389_gain 42 = Some 1448"
proof -
  have "[0..41] = [0,1,2,3,4,5,6,7,8,9,10,11,12,13,14,15,16,17,18,19,20,21,22,23,24,25,26,27,28,29,
      30,31,32,33,34,35,36,37,38,39,40,41::int]" by (simp add: upto.simps)
  moreover have "map rfc3389_gain [0,1,2,3,4,5,6,7,8,9,10,11,12,13,14,15,16,17,18,19,20,21,22,23,24,25,26,27,28,29,
      30,31,32,33,34,35,36,37,38,39,40,41] = replicate 42 (Some 2)" by code_simp
  moreover have "rfc3389_gain 42 = Some 1448" by code_simp
  ultimately show ?thesis by simp
qed

text \<open>A reflection coefficient: every byte from 1 to 254 is decoded as 258 (b - 127) - 4, but
  byte 0, the most negative coefficient of the format, as the largest positive one.\<close>

theorem reflection_decoding:
  assumes "0 \<le> b" "b \<le> 254"
  shows "reflection_of_byte b = (if b = 0 then 32766 else 258 * (b - 127) - 4)"
proof -
  have e: "reflection_of_byte b = s16 ((b + 127) * 258)"
    using assms by (simp add: reflection_of_byte_def ADD16_def MULT16_16_def s16_idI s32_idI)
  show ?thesis
  proof (cases "b = 0")
    case False
    then have "s16 ((b + 127) * 258) = s16 (258 * (b - 127) - 4)"
      using s16_cong_65536 [of "258 * (b - 127) - 4" 1] by (simp add: algebra_simps)
    with False assms show ?thesis by (simp add: e s16_idI)
  qed (use e in \<open>simp add: s16_def\<close>)
qed

theorem reflection_decoding_witness: "reflection_of_byte 254 = 258 * (254 - 127) - 4"
  using reflection_decoding [of 254] by simp

text \<open>(C24) A payload declared empty: the filter order is computed modulo 256 before it is
  clamped, so ten coefficients are read from a payload that has none of them.\<close>

theorem empty_payload_overruns:
  assumes "length payload \<le> 10"
  shows "decode_rfc3389 cng payload 0 prev = None"
proof (cases "payload = []")
  case True
  then show ?thesis by (simp add: decode_rfc3389_def get_def)
next
  case False
  have "for_up 0 10 (\<lambda>i k. do { b \<leftarrow> get payload (i + 1); put k i (reflection_of_byte b) }) k = None" for k
    by (rule for_up_fails [of 0 "length payload - 1"]) (use assms False in \<open>auto simp: get_def of_nat_diff\<close>)
  then have "rfc3389_reflection payload 10 = None" by (simp add: rfc3389_reflection_def)
  then show ?thesis
    by (simp add: decode_rfc3389_def u8_def NB_LSP_COEFF_def split: Option.bind_split)
qed

theorem empty_payload_overruns_witness:
  "decode_rfc3389 initBcg729CNGChannel [40] 0 (replicate 10 0) = None"
  by (rule empty_payload_overruns) simp

end
