(* ===== verification/G729_DTX.thy ===== *)
theory G729_DTX
  imports G729_CNG G729_EncLP G729_LSPQuant
begin

text \<open>
  Discontinuous transmission (\<open>dtx.c\<close>, G.729 Annex B): the history of autocorrelations, the
  residual energy and its quantisation, the comparison of prediction filters, the decision
  whether a noise frame is transmitted and its two bytes. The context is a record with the
  fields of \<open>bcg729DTXChannelContextStruct\<close>; the residual energy's scale is kept in an unsigned
  byte, as declared there.
\<close>

unbundle bit_operations_syntax

definition THRESHOLD1_IN_Q20 :: int where "THRESHOLD1_IN_Q20 = 1260661"
definition THRESHOLD3_IN_Q20 :: int where "THRESHOLD3_IN_Q20 = 1176553"


record DTXContext =
  dtx_ac :: "int list list"
  dtx_scales :: "int list"
  previousVADflag :: int
  previousResidualEnergy :: int
  previousResidualEnergyScale :: int
  previousDecodedLogEnergy :: int
  count_fr :: int
  SIDLPCoefficientAutocorrelation :: "int list"
  currentSIDGain :: int
  dtx_smoothedSIDGain :: int
  dtx_seed :: int
  dtx_qLSP :: "int list"
  dtx_reflection :: "int list"
  dtx_decodedLogEnergy :: int

definition initBcg729DTXChannel :: DTXContext where
  "initBcg729DTXChannel = \<lparr>
     dtx_ac = replicate 7 (ONE_IN_Q30 # replicate NB_LSP_COEFF 0), dtx_scales = replicate 7 30,
     previousVADflag = 1, previousResidualEnergy = 0, previousResidualEnergyScale = 0,
     previousDecodedLogEnergy = 0, count_fr = 0,
     SIDLPCoefficientAutocorrelation = replicate (NB_LSP_COEFF + 1) 0, currentSIDGain = 0,
     dtx_smoothedSIDGain = 0, dtx_seed = CNG_DTX_RANDOM_SEED_INIT,
     dtx_qLSP = replicate NB_LSP_COEFF 0, dtx_reflection = replicate NB_LSP_COEFF 0,
     dtx_decodedLogEnergy = 0\<rparr>"

text \<open>\<open>updateDTXContext\<close>: seven rows of eleven values, shifted by one.\<close>

definition updateDTXContext :: "DTXContext \<Rightarrow> int list \<Rightarrow> int \<Rightarrow> DTXContext option" where
  "updateDTXContext ctx ac scale = do {
     (rows, scales) \<leftarrow> for_down 1 7 (\<lambda>i (rows, scales). do {
        src \<leftarrow> get rows (i - 1);
        dst \<leftarrow> get rows i;
        r \<leftarrow> copy_block dst 0 src 0 (NB_LSP_COEFF + 1);
        rows \<leftarrow> put rows i r;
        s \<leftarrow> get scales (i - 1);
        scales \<leftarrow> put scales i s;
        Some (rows, scales) }) (dtx_ac ctx, dtx_scales ctx);
     dst \<leftarrow> get rows 0;
     r \<leftarrow> copy_block dst 0 ac 0 (NB_LSP_COEFF + 1);
     rows \<leftarrow> put rows 0 r;
     scales \<leftarrow> put scales 0 scale;
     Some (ctx\<lparr>dtx_ac := rows, dtx_scales := scales\<rparr>) }"

section \<open>Sum of autocorrelations\<close>

definition lowest_scale :: "int list \<Rightarrow> nat \<Rightarrow> int option" where
  "lowest_scale scales n = do {
     s0 \<leftarrow> get scales 0;
     for_up 1 n (\<lambda>i m. do { s \<leftarrow> get scales i; Some (if s < m then s else m) }) s0 }"

text \<open>Entry i of the sum on 64 bits of the rows rescaled to the lowest scale.\<close>

definition summed_entry :: "int list list \<Rightarrow> int list \<Rightarrow> nat \<Rightarrow> int \<Rightarrow> int \<Rightarrow> int option" where
  "summed_entry rows scales n minScale i = do {
     v0 \<leftarrow> get2 rows 0 i;
     s0 \<leftarrow> get scales 0;
     for_up 1 n (\<lambda>j sum. do {
       v \<leftarrow> get2 rows j i;
       s \<leftarrow> get scales j;
       Some (ADD64 sum (shr v (nat (s8 (s - minScale))))) }) (shr v0 (nat (s8 (s0 - minScale)))) }"

definition abs_max :: "int \<Rightarrow> int \<Rightarrow> int" where
  "abs_max v m = (let a = (if v > 0 then v else s64 (- v)) in if a > m then a else m)"

definition sumAutocorrelationCoefficients :: "int list list \<Rightarrow> int list \<Rightarrow> nat \<Rightarrow> (int list \<times> int) option" where
  "sumAutocorrelationCoefficients rows scales n = do {
     minScale \<leftarrow> lowest_scale scales n;
     (sums, maxi) \<leftarrow> for_up 0 (NB_LSP_COEFF + 1) (\<lambda>i (sums, m). do {
        v \<leftarrow> summed_entry rows scales n minScale i;
        sums \<leftarrow> put sums i v;
        Some (sums, abs_max v m) }) (replicate (NB_LSP_COEFF + 1) 0, 0);
     let shift = s8 (snd (normalise32 maxi 0));
     result \<leftarrow> for_up 0 (NB_LSP_COEFF + 1) (\<lambda>i out. do {
        v \<leftarrow> get sums i;
        put out i (s32 (SHR64 v (nat shift))) }) (replicate (NB_LSP_COEFF + 1) 0);
     Some (result, s8 (minScale - shift)) }"

section \<open>Residual energy\<close>

text \<open>The 5 bit index and the decoded energy in dB.\<close>

definition quantise_log_energy :: "int \<Rightarrow> int \<times> int" where
  "quantise_log_energy acc =
    (if acc < -26214 then (0, -12)
     else if acc < 45875 then (
       let acc = acc + 19661;
           acc = (if acc < 0 then 0 else MULT16_32_Q13 20480 acc);
           steps = u8 (SHR acc 15)
       in (u8 (1 + steps), s8 (-2 + 4 * steps)))
     else if acc < 216268 then (
       let acc = acc - 49152;
           acc = (if acc < 0 then 0 else MULT16_32_Q12 20480 acc);
           steps = u8 (SHR acc 15)
       in (u8 (6 + steps), s8 (16 + 2 * steps)))
     else (31, 66))"

definition residualEnergyQuantization :: "int \<Rightarrow> int \<Rightarrow> (int \<times> int) option" where
  "residualEnergyQuantization residualEnergy scale = do {
     l \<leftarrow> g729Log2_Q0Q16 residualEnergy;
     let acc = SUB32 l (ADD32 479849 (s32 (scale * 2 ^ 16)));
     let acc = shr acc 1;
     Some (quantise_log_energy (MULT16_32_Q15 INV_LOG2_10_Q15 acc)) }"

section \<open>Comparison of filters\<close>

definition computeLPCoefficientAutocorrelation :: "int list \<Rightarrow> int list \<Rightarrow> int list option" where
  "computeLPCoefficientAutocorrelation LP out = do {
     r0 \<leftarrow> for_up 0 NB_LSP_COEFF (\<lambda>k acc. do {
        v \<leftarrow> get LP k; Some (MAC16_16_Q4 acc v v) }) 1048576;
     out \<leftarrow> put out 0 r0;
     for_up 1 (NB_LSP_COEFF + 1) (\<lambda>j out. do {
        v \<leftarrow> get LP (j - 1);
        r \<leftarrow> for_up 0 (nat (10 - j)) (\<lambda>k acc. do {
           a \<leftarrow> get LP k;
           b \<leftarrow> get LP (k + j);
           Some (MAC16_16_Q3 acc a b) }) (SHL v 9);
        put out j r }) out }"

definition compareLPCFilters :: "int list \<Rightarrow> int list \<Rightarrow> int \<Rightarrow> int \<Rightarrow> bool option" where
  "compareLPCFilters LPac ac residualEnergy threshold = do {
     acc \<leftarrow> for_up 0 (NB_LSP_COEFF + 1) (\<lambda>i acc. do {
        a \<leftarrow> get LPac i;
        r \<leftarrow> get ac i;
        Some (MAC64 acc a r) }) 0;
     Some (acc \<ge> MULT32_32 residualEnergy threshold) }"

section \<open>Is the frame transmitted?\<close>

text \<open>Mean energy of this and the last frame, at the lower of the two scales.\<close>

definition mean_energy :: "DTXContext \<Rightarrow> int \<Rightarrow> int \<Rightarrow> int \<times> int" where
  "mean_energy ctx residualEnergy scale =
    (if scale < previousResidualEnergyScale ctx
     then (ADD32 (SHR residualEnergy 1)
             (VSHR32 (previousResidualEnergy ctx) (previousResidualEnergyScale ctx - scale + 1)), scale)
     else (ADD32 (VSHR32 residualEnergy (scale - previousResidualEnergyScale ctx + 1))
             (SHR (previousResidualEnergy ctx) 1), s8 (previousResidualEnergyScale ctx)))"

text \<open>Result: context, transmitted or not, quantised and decoded energy.\<close>

definition frame_type :: "DTXContext \<Rightarrow> int list \<Rightarrow> int \<Rightarrow> int \<Rightarrow> (DTXContext \<times> bool \<times> int \<times> int) option" where
  "frame_type ctx summed scale residualEnergy =
    (if previousVADflag ctx = 1 then do {
       (q, d) \<leftarrow> residualEnergyQuantization residualEnergy scale;
       Some (ctx, True, q, d) }
     else do {
       let (meanEnergy, meanScale) = mean_energy ctx residualEnergy scale;
       (q, d) \<leftarrow> residualEnergyQuantization meanEnergy meanScale;
       differs \<leftarrow> compareLPCFilters (SIDLPCoefficientAutocorrelation ctx) summed residualEnergy THRESHOLD1_IN_Q20;
       let change = (differs \<or> ABS (previousDecodedLogEnergy ctx - d) > 2);
       let n = u8 (count_fr ctx + 1);
       Some (if n < 3 then (ctx\<lparr>count_fr := n\<rparr>, False, q, d)
             else (ctx\<lparr>count_fr := 3\<rparr>, change, q, d)) })"

section \<open>Parameters of a transmitted noise frame\<close>

text \<open>The line spectral pairs of a filter, or the last quantised ones when it has none.\<close>

definition LSP_or_previous :: "int list \<Rightarrow> int list \<Rightarrow> int list option" where
  "LSP_or_previous LP previous = do {
     (lsp, found) \<leftarrow> LP2LSPConversion LP (replicate NB_LSP_COEFF 0);
     if found then Some lsp else copy_block lsp 0 previous 0 NB_LSP_COEFF }"

text \<open>Result: context, new LSP, history of code words, the three parameters.\<close>

definition SID_parameters :: "DTXContext \<Rightarrow> int list \<Rightarrow> int \<Rightarrow> int list \<Rightarrow> int list \<Rightarrow> int \<Rightarrow> int \<Rightarrow>
    int list \<Rightarrow> int list list \<Rightarrow> (DTXContext \<times> int list \<times> int list list \<times> int list) option" where
  "SID_parameters ctx summed residualEnergy LP reflection quantised decoded prevqLSP prevqLSF = do {
     (pastAc, _) \<leftarrow> sumAutocorrelationCoefficients (drop 1 (dtx_ac ctx)) (drop 1 (dtx_scales ctx)) 6;
     (pastLP, pastReflection, _) \<leftarrow> autoCorrelation2LP pastAc (replicate NB_LSP_COEFF 0) (replicate NB_LSP_COEFF 0);
     lpac \<leftarrow> computeLPCoefficientAutocorrelation pastLP (SIDLPCoefficientAutocorrelation ctx);
     differs \<leftarrow> compareLPCFilters lpac summed residualEnergy THRESHOLD3_IN_Q20;
     (lpac, LSP, refl) \<leftarrow> (if \<not> differs then do {
          LSP \<leftarrow> LSP_or_previous pastLP prevqLSP;
          refl \<leftarrow> copy_block (dtx_reflection ctx) 0 pastReflection 0 NB_LSP_COEFF;
          Some (lpac, LSP, refl) }
        else do {
          lpac \<leftarrow> computeLPCoefficientAutocorrelation LP lpac;
          LSP \<leftarrow> LSP_or_previous LP prevqLSP;
          refl \<leftarrow> copy_block (dtx_reflection ctx) 0 reflection 0 NB_LSP_COEFF;
          Some (lpac, LSP, refl) });
     (prevqLSF, qLSP, parameters) \<leftarrow> noiseLSPQuantization prevqLSF LSP (dtx_qLSP ctx);
     gain \<leftarrow> get SIDGainCodebook quantised;
     Some (ctx\<lparr>count_fr := 0, SIDLPCoefficientAutocorrelation := lpac, dtx_decodedLogEnergy := decoded,
               dtx_reflection := refl, dtx_qLSP := qLSP, previousDecodedLogEnergy := decoded,
               currentSIDGain := gain\<rparr>, LSP, prevqLSF, parameters) }"

definition SID_bytes :: "int list \<Rightarrow> int \<Rightarrow> int \<times> int" where
  "SID_bytes parameters quantised = (
     u8 (((parameters ! 0) AND 0x01) * 2 ^ 7 OR ((parameters ! 1) AND 0x1F) * 2 ^ 2
         OR shr (parameters ! 2) 2 mod 3),
     u8 (((parameters ! 2) AND 0x03) * 2 ^ 6 OR (quantised AND 0x1F) * 2))"

section \<open>A frame\<close>

definition smooth_SID_gain :: "DTXContext \<Rightarrow> DTXContext" where
  "smooth_SID_gain ctx =
    (if previousVADflag ctx = 1 then ctx\<lparr>dtx_smoothedSIDGain := currentSIDGain ctx\<rparr>
     else let g = s16 (SUB16 (dtx_smoothedSIDGain ctx) (shr (dtx_smoothedSIDGain ctx) 3))
          in ctx\<lparr>dtx_smoothedSIDGain := ADD16 g (shr (currentSIDGain ctx) 3)\<rparr>)"

text \<open>What \<open>encodeSIDFrame\<close> changes: its context, the LSP of the previous frame, the quantised
  ones, the history of code words, the excitation, the prediction coefficients, the stream
  and its length.\<close>

record sid_state =
  sid_dtx :: DTXContext
  sid_LSP :: "int list"
  sid_qLSP :: "int list"
  sid_qLSF :: "int list list"
  sid_excitation :: "int list"
  sid_LP :: "int list"
  sid_stream :: "int list"
  sid_length :: int

text \<open>The part after the decision on transmission.\<close>

definition noise_excitation :: "sid_state \<Rightarrow> sid_state option" where
  "noise_excitation st = do {
     let ctx = smooth_SID_gain (sid_dtx st);
     (seed, exc) \<leftarrow> computeComfortNoiseExcitationVector (dtx_smoothedSIDGain ctx) (dtx_seed ctx)
        (sid_excitation st);
     interpolated \<leftarrow> interpolateqLSP (sid_qLSP st) (dtx_qLSP ctx) (replicate NB_LSP_COEFF 0);
     q \<leftarrow> for_up 0 NB_LSP_COEFF (\<lambda>i q. do { v \<leftarrow> get (dtx_qLSP ctx) i; put q i v }) (sid_qLSP st);
     LP \<leftarrow> qLSP2LP interpolated (sid_LP st) 0;
     LP \<leftarrow> qLSP2LP (dtx_qLSP ctx) LP (int NB_LSP_COEFF);
     Some (st\<lparr>sid_dtx := ctx\<lparr>dtx_seed := seed\<rparr>, sid_excitation := exc, sid_qLSP := q, sid_LP := LP\<rparr>) }"

definition encode_noise_frame :: "sid_state \<Rightarrow> sid_state option" where
  "encode_noise_frame st = do {
     let ctx = sid_dtx st;
     (summed, scale) \<leftarrow> sumAutocorrelationCoefficients (dtx_ac ctx) (dtx_scales ctx) 2;
     (LP, reflection, residualEnergy) \<leftarrow> autoCorrelation2LP summed (replicate NB_LSP_COEFF 0)
        (replicate NB_LSP_COEFF 0);
     (ctx, transmitted, quantised, decoded) \<leftarrow> frame_type ctx summed scale residualEnergy;
     (ctx, LSP, qLSF, parameters) \<leftarrow> (if transmitted
        then SID_parameters ctx summed residualEnergy LP reflection quantised decoded (sid_qLSP st) (sid_qLSF st)
        else Some (ctx, sid_LSP st, sid_qLSF st, [0, 0, 0]));
     let ctx = ctx\<lparr>previousResidualEnergy := residualEnergy, previousResidualEnergyScale := u8 scale\<rparr>;
     st \<leftarrow> noise_excitation (st\<lparr>sid_dtx := ctx, sid_LSP := LSP, sid_qLSF := qLSF\<rparr>);
     st \<leftarrow> (if transmitted then do {
          let (b0, b1) = SID_bytes parameters quantised;
          s \<leftarrow> put (sid_stream st) 0 b0;
          s \<leftarrow> put s 1 b1;
          Some (st\<lparr>sid_stream := s, sid_length := 2\<rparr>) }
        else Some (st\<lparr>sid_length := 0\<rparr>));
     Some (st\<lparr>sid_dtx := (sid_dtx st)\<lparr>previousVADflag := 0\<rparr>\<rparr>) }"

definition encodeSIDFrame :: "int \<Rightarrow> sid_state \<Rightarrow> sid_state option" where
  "encodeSIDFrame VADflag st =
    (if VADflag = 1
     then Some (st\<lparr>sid_dtx := (sid_dtx st)\<lparr>dtx_seed := CNG_DTX_RANDOM_SEED_INIT, previousVADflag := 1\<rparr>\<rparr>)
     else encode_noise_frame st)"

end
