(* ===== verification/Field_Codec.thy ===== *)
theory Field_Codec
  imports Main
begin

text \<open>
  The contract of a fixed format packet: a packer from a structure of fields to bytes and an
  unpacker back. It is met by the G.729 speech frame (\<open>utils.c\<close>) and by the BroadVoice16
  frame (\<open>bitpack.c\<close>); the facts both need are proved here once. \<open>trunc\<close> cuts every field
  to its width; every bit of the packet belongs to a field.
\<close>

locale field_codec =
  fixes pack :: "'s \<Rightarrow> 'b list option"
    and unpack :: "'b list \<Rightarrow> 's option"
    and trunc :: "'s \<Rightarrow> 's"
    and shape :: "'s \<Rightarrow> bool"
    and bytes :: nat
  assumes pack_total: "shape s \<Longrightarrow> \<exists>bs. pack s = Some bs \<and> length bs = bytes"
    and unpack_total: "length bs = bytes \<Longrightarrow> \<exists>s. unpack bs = Some s \<and> shape s"
    and unpack_pack: "shape s \<Longrightarrow> pack s = Some bs \<Longrightarrow> unpack bs = Some (trunc s)"
    and pack_unpack: "length bs = bytes \<Longrightarrow> unpack bs = Some s \<Longrightarrow> pack s = Some bs"
begin

text \<open>Every packet comes from a structure, and two packets that read the same are the same.\<close>

lemma unpack_inj:
  assumes "length bs = bytes" "length cs = bytes" "unpack bs = unpack cs"
  shows "bs = cs"
proof -
  obtain s where "unpack bs = Some s" using unpack_total assms(1) by blast
  with assms have "pack s = Some bs" "pack s = Some cs" by (auto intro: pack_unpack)
  then show ?thesis by simp
qed

text \<open>Only the bits of the field widths are sent.\<close>

lemma pack_trunc:
  assumes "shape s"
  shows "pack (trunc s) = pack s"
proof -
  obtain bs where bs: "pack s = Some bs" "length bs = bytes" using pack_total assms by blast
  then have "unpack bs = Some (trunc s)" using assms unpack_pack by blast
  with bs show ?thesis using pack_unpack by simp
qed

lemma unpack_trunc:
  assumes "length bs = bytes" "unpack bs = Some s"
  shows "trunc s = s"
proof -
  have p: "pack s = Some bs" using assms by (rule pack_unpack)
  have "shape s" using assms unpack_total by fastforce
  with p have "unpack bs = Some (trunc s)" by (intro unpack_pack)
  with assms show ?thesis by simp
qed

lemma pack_eq_iff:
  assumes "shape s" "shape t"
  shows "pack s = pack t \<longleftrightarrow> trunc s = trunc t"
proof
  assume eq: "pack s = pack t"
  obtain bs where "pack s = Some bs" using pack_total assms(1) by blast
  with eq assms show "trunc s = trunc t"
    using unpack_pack [of s bs] unpack_pack [of t bs] by simp
next
  assume "trunc s = trunc t"
  then show "pack s = pack t" using pack_trunc assms by metis
qed

text \<open>Packing then unpacking a structure whose fields fit is the identity.\<close>

lemma roundtrip: "shape s \<Longrightarrow> trunc s = s \<Longrightarrow> Option.bind (pack s) unpack = Some s"
  using pack_total unpack_pack by fastforce

lemma roundtrip_bytes: "length bs = bytes \<Longrightarrow> Option.bind (unpack bs) pack = Some bs"
  using unpack_total pack_unpack by fastforce

end

end
