(* ===== verification/G729_Bitstream.thy ===== *)
theory G729_Bitstream
  imports Prelude Field_Codec
begin

text \<open>
  The bit stream functions of \<open>utils.c\<close> (bcg729): the 15 parameters of a speech frame to and
  from 80 bits, the 4 parameters of a SID frame to 15 bits, the parity bit of the first
  pitch index and the pseudo random generator. Parameters are \<open>uint16_t\<close>, the stream is
  \<open>uint8_t\<close>; both are words, computed as \<open>int\<close> after C's promotion (32 bit words) and stored
  back with a cast.
\<close>

section \<open>Frames and parameters\<close>

type_synonym param = "16 word"
type_synonym byte = "8 word"

definition int_of_param :: "param \<Rightarrow> 32 word" where
  "int_of_param p = ucast p"

definition int_of_byte :: "byte \<Rightarrow> 32 word" where
  "int_of_byte b = ucast b"

definition to_byte :: "32 word \<Rightarrow> byte" where
  "to_byte w = ucast w"

definition to_param :: "32 word \<Rightarrow> param" where
  "to_param w = ucast w"

lemmas cast_defs = int_of_param_def int_of_byte_def to_byte_def to_param_def

text \<open>
  \<open>parametersArray2BitStream\<close> reads parameters 0 to 14 and writes bytes 0 to 9.
\<close>

definition stream_of_params :: "(nat \<Rightarrow> 32 word) \<Rightarrow> byte list" where
  "stream_of_params p = map to_byte
    [push_bit 7 (p 0 AND 0x1) OR (p 1 AND 0x7f),
     push_bit 3 (p 2 AND 0x1f) OR (drop_bit 2 (p 3) AND 0x7),
     push_bit 6 (p 3 AND 0x3) OR (drop_bit 2 (p 4) AND 0x3f),
     push_bit 6 (p 4 AND 0x3) OR push_bit 5 (p 5 AND 0x1) OR (drop_bit 8 (p 6) AND 0x1f),
     p 6 AND 0xff,
     push_bit 4 (p 7 AND 0xf) OR push_bit 1 (p 8 AND 0x7) OR (drop_bit 3 (p 9) AND 0x1),
     push_bit 5 (p 9 AND 0x7) OR (p 10 AND 0x1f),
     drop_bit 5 (p 11) AND 0xff,
     push_bit 3 (p 11 AND 0x1f) OR (drop_bit 1 (p 12) AND 0x7),
     push_bit 7 (p 12 AND 0x1) OR push_bit 4 (p 13 AND 0x7) OR (p 14 AND 0xf)]"

definition parametersArray2BitStream :: "param list \<Rightarrow> byte list option" where
  "parametersArray2BitStream ps =
    (if 15 \<le> length ps then Some (stream_of_params (\<lambda>i. int_of_param (ps ! i))) else None)"

definition params_of_stream :: "(nat \<Rightarrow> 32 word) \<Rightarrow> param list" where
  "params_of_stream b = map to_param
    [drop_bit 7 (b 0) AND 0x1,
     b 0 AND 0x7f,
     drop_bit 3 (b 1) AND 0x1f,
     push_bit 2 (b 1 AND 0x7) OR (drop_bit 6 (b 2) AND 0x3),
     push_bit 2 (b 2 AND 0x3f) OR (drop_bit 6 (b 3) AND 0x3),
     drop_bit 5 (b 3) AND 0x1,
     push_bit 8 (b 3 AND 0x1f) OR b 4,
     drop_bit 4 (b 5) AND 0xf,
     drop_bit 1 (b 5) AND 0x7,
     push_bit 3 (b 5 AND 0x1) OR (drop_bit 5 (b 6) AND 0x7),
     b 6 AND 0x1f,
     push_bit 5 (b 7) OR (drop_bit 3 (b 8) AND 0x1f),
     push_bit 1 (b 8 AND 0x7) OR (drop_bit 7 (b 9) AND 0x1),
     drop_bit 4 (b 9) AND 0x7,
     b 9 AND 0xf]"

definition parametersBitStream2Array :: "byte list \<Rightarrow> param list option" where
  "parametersBitStream2Array bs =
    (if 10 \<le> length bs then Some (params_of_stream (\<lambda>i. int_of_byte (bs ! i))) else None)"

text \<open>The SID frame: L0, L1, L2 and the gain index on 15 bits; the last bit of byte 1 is 0.\<close>

definition CNGparametersArray2BitStream :: "param list \<Rightarrow> byte list option" where
  "CNGparametersArray2BitStream ps =
    (if 4 \<le> length ps then
      let p = (\<lambda>i. int_of_param (ps ! i)) in
      Some (map to_byte
        [push_bit 7 (p 0 AND 0x1) OR push_bit 2 (p 1 AND 0x1f) OR (drop_bit 2 (p 2) AND 0x3),
         push_bit 6 (p 2 AND 0x03) OR push_bit 1 (p 3 AND 0x1f)])
     else None)"

section \<open>Round trips\<close>

text \<open>The width in bits of each parameter, as the source's table lists them.\<close>

definition param_widths :: "nat list" where
  "param_widths = [1, 7, 5, 5, 8, 1, 13, 4, 3, 4, 5, 13, 4, 3, 4]"

definition trunc_params :: "param list \<Rightarrow> param list" where
  "trunc_params ps = map2 take_bit param_widths ps"

lemma list15: "length ps = 15 \<Longrightarrow>
  ps = [ps!0, ps!1, ps!2, ps!3, ps!4, ps!5, ps!6, ps!7, ps!8, ps!9, ps!10, ps!11, ps!12, ps!13, ps!14]"
  by (rule nth_equalityI) (auto simp: less_Suc_eq numeral_eq_Suc)

lemma list10: "length bs = 10 \<Longrightarrow>
  bs = [bs!0, bs!1, bs!2, bs!3, bs!4, bs!5, bs!6, bs!7, bs!8, bs!9]"
  by (rule nth_equalityI) (auto simp: less_Suc_eq numeral_eq_Suc)

lemma word16_eqI: "list_all (\<lambda>n. bit a n = bit b n) [0..<16] \<Longrightarrow> a = b" for a b :: "16 word"
  by (rule bit_word_eqI) (auto simp: list_all_iff)

lemma word8_eqI: "list_all (\<lambda>n. bit a n = bit b n) [0..<8] \<Longrightarrow> a = b" for a b :: "8 word"
  by (rule bit_word_eqI) (auto simp: list_all_iff)

lemma upt_8: "[0..<8] = [0, 1, 2, 3, 4, 5, 6, 7]"
  and upt_10: "[0..<10] = [0, 1, 2, 3, 4, 5, 6, 7, 8, 9]"
  and upt_15: "[0..<15] = [0, 1, 2, 3, 4, 5, 6, 7, 8, 9, 10, 11, 12, 13, 14]"
  and upt_16: "[0..<16] = [0, 1, 2, 3, 4, 5, 6, 7, 8, 9, 10, 11, 12, 13, 14, 15]"
  by (simp_all add: upt_rec)

lemma bit_double: "bit (w * 2) n \<longleftrightarrow> 0 < n \<and> n < 32 \<and> bit w (n - 1)" for w :: "32 word"
proof -
  have "w * 2 = push_bit 1 w" by (simp add: push_bit_eq_mult)
  then show ?thesis by (simp only: bit_simps) auto
qed

lemma byte_high_bits: "8 \<le> n \<Longrightarrow> \<not> bit (b :: byte) n"
  using bit_imp_le_length [of b n] by auto

lemma suc_numerals: "Suc (Suc 0) = 2" "Suc (Suc (Suc 0)) = 3"
  by simp_all

lemmas word_field_simps = bit_simps bit_0 bit_double byte_high_bits suc_numerals

lemma params_of_stream_of_params:
  fixes p :: "nat \<Rightarrow> param"
  shows "params_of_stream (\<lambda>i. int_of_byte (stream_of_params (\<lambda>i. int_of_param (p i)) ! i))
    = map (\<lambda>i. take_bit (param_widths ! i) (p i)) [0..<15]"
  unfolding params_of_stream_def stream_of_params_def cast_defs
  by (simp add: upt_15 param_widths_def)
    (intro conjI; rule word16_eqI; simp add: upt_16 word_field_simps)

lemma stream_of_params_of_stream:
  fixes b :: "nat \<Rightarrow> byte"
  shows "stream_of_params (\<lambda>i. int_of_param (params_of_stream (\<lambda>i. int_of_byte (b i)) ! i))
    = map b [0..<10]"
  unfolding params_of_stream_def stream_of_params_def cast_defs
  by (simp add: upt_10)
    (intro conjI; rule word8_eqI; simp add: upt_8 word_field_simps)

lemma list_of_nth: "length xs = n \<Longrightarrow> map ((!) xs) [0..<n] = xs"
  by (metis map_nth)

lemma length_stream: "length (stream_of_params p) = 10"
  by (simp add: stream_of_params_def)

lemma length_params: "length (params_of_stream b) = 15"
  by (simp add: params_of_stream_def)

lemma trunc_params_nth: "length ps = 15 \<Longrightarrow>
    trunc_params ps = map (\<lambda>i. take_bit (param_widths ! i) (ps ! i)) [0..<15]"
  by (rule nth_equalityI) (auto simp: trunc_params_def param_widths_def)

interpretation g729: field_codec parametersArray2BitStream parametersBitStream2Array
  trunc_params "\<lambda>ps. length ps = 15" 10
proof
  fix ps :: "param list" assume len: "length ps = 15"
  then show "\<exists>bs. parametersArray2BitStream ps = Some bs \<and> length bs = 10"
    by (simp add: parametersArray2BitStream_def length_stream)
  fix bs assume "parametersArray2BitStream ps = Some bs"
  with len have "bs = stream_of_params (\<lambda>i. int_of_param (ps ! i))"
    by (simp add: parametersArray2BitStream_def)
  then show "parametersBitStream2Array bs = Some (trunc_params ps)"
    using len by (simp add: parametersBitStream2Array_def length_stream
        params_of_stream_of_params trunc_params_nth)
next
  fix bs :: "byte list" assume len: "length bs = 10"
  then show "\<exists>ps. parametersBitStream2Array bs = Some ps \<and> length ps = 15"
    by (simp add: parametersBitStream2Array_def length_params)
  fix ps assume "parametersBitStream2Array bs = Some ps"
  with len have "ps = params_of_stream (\<lambda>i. int_of_byte (bs ! i))"
    by (simp add: parametersBitStream2Array_def)
  then show "parametersArray2BitStream ps = Some bs"
    using len by (simp add: parametersArray2BitStream_def length_params
        stream_of_params_of_stream list_of_nth)
qed

text \<open>The value ranges of the decoded parameters, as the decoder indexes tables with them.\<close>

lemma params_bound:
  assumes "parametersBitStream2Array bs = Some ps" "length bs = 10" "i < 15"
  shows "uint (ps ! i) < 2 ^ (param_widths ! i)"
proof -
  have "ps = trunc_params ps" using g729.unpack_trunc assms by simp
  moreover have "length ps = 15" using assms g729.unpack_total by fastforce
  ultimately have "ps ! i = take_bit (param_widths ! i) (ps ! i)"
    using assms(3) by (metis (no_types, lifting) trunc_params_nth length_map length_upt
        nth_map nth_upt add_0 minus_nat.diff_0)
  then have "uint (ps ! i) = take_bit (param_widths ! i) (uint (ps ! i))"
    by (metis unsigned_take_bit_eq)
  then show ?thesis by (metis take_bit_int_less_exp)
qed

section \<open>The parity bit of the pitch index\<close>

text \<open>\<open>parity ^= index & 1; index >>= 1\<close>, n times.\<close>

fun parity_loop :: "nat \<Rightarrow> param \<Rightarrow> param \<Rightarrow> param" where
  "parity_loop 0 parity index = parity"
| "parity_loop (Suc n) parity index =
    parity_loop n (parity XOR (index AND 1)) (drop_bit 1 index)"

definition computeParity :: "param \<Rightarrow> param" where
  "computeParity adaptativeCodebookIndex = parity_loop 6 1 (drop_bit 2 adaptativeCodebookIndex)"

text \<open>The check of the decoder: P1's parity against the received bit P0.\<close>

definition parityErrorFlag :: "param \<Rightarrow> param \<Rightarrow> param" where
  "parityErrorFlag p1 p0 = computeParity p1 XOR p0"

definition parity_bits :: "param \<Rightarrow> nat" where
  "parity_bits p = card {k. 2 \<le> k \<and> k < 8 \<and> bit p k}"

lemma parity_loop_card:
  "parity_loop n v w = v XOR of_bool (odd (card {k. k < n \<and> bit w k}))"
proof (induction n arbitrary: v w)
  case 0
  then show ?case by simp
next
  case (Suc n)
  have "{k. k < Suc n \<and> bit w k} =
      (if odd w then {0} else {}) \<union> Suc ` {k. k < n \<and> bit (drop_bit 1 w) k}"
    by (auto simp: bit_drop_bit_eq bit_0 less_Suc_eq_0_disj image_iff split: if_splits)
  then have "card {k. k < Suc n \<and> bit w k} =
      of_bool (odd w) + card {k. k < n \<and> bit (drop_bit 1 w) k}"
    by (simp add: card_insert_if card_image)
  moreover have "w AND 1 = of_bool (odd w)" by (simp add: and_one_eq mod_2_eq_odd)
  ultimately show ?case
    by (auto simp: Suc.IH xor.assoc)
qed

lemma computeParity_spec: "computeParity p = of_bool (even (parity_bits p))"
proof -
  have "{k. 2 \<le> k \<and> k < 8 \<and> bit p k} = (\<lambda>k. k + 2) ` {k. k < 6 \<and> bit (drop_bit 2 p) k}"
    by (auto simp: bit_drop_bit_eq image_iff le_iff_add add.commute)
  then have "parity_bits p = card {k. k < 6 \<and> bit (drop_bit 2 p) k}"
    by (simp only: parity_bits_def) (rule card_image, simp add: inj_on_def)
  then show ?thesis by (simp add: computeParity_def parity_loop_card)
qed

text \<open>The loop is linear, so the effect of a transmission error is its own parity.\<close>

lemma parity_loop_xor:
  "parity_loop n (v XOR v') (w XOR w') = parity_loop n v w XOR parity_loop n v' w'"
proof (induction n arbitrary: v v' w w')
  case (Suc n)
  have "(v XOR v') XOR ((w XOR w') AND 1) = (v XOR (w AND 1)) XOR (v' XOR (w' AND 1))"
    by (rule bit_word_eqI) (auto simp: bit_simps)
  moreover have "drop_bit 1 (w XOR w') = drop_bit 1 w XOR drop_bit 1 w'"
    by (rule bit_word_eqI) (auto simp: bit_simps)
  ultimately show ?case by (simp add: Suc.IH)
qed simp

lemma parity_xor: "computeParity (p XOR e) = computeParity p XOR of_bool (odd (parity_bits e))"
proof -
  have "drop_bit 2 (p XOR e) = drop_bit 2 p XOR drop_bit 2 e"
    by (rule bit_word_eqI) (auto simp: bit_simps)
  then have "computeParity (p XOR e) = parity_loop 6 (1 XOR 0) (drop_bit 2 p XOR drop_bit 2 e)"
    by (simp add: computeParity_def)
  also have "\<dots> = computeParity p XOR parity_loop 6 0 (drop_bit 2 e)"
    by (simp only: parity_loop_xor computeParity_def)
  also have "parity_loop 6 0 (drop_bit 2 e) = computeParity e XOR 1"
    using parity_loop_xor [of 6 1 1 "drop_bit 2 e" 0]
    by (simp add: computeParity_def parity_loop_card)
  finally show ?thesis by (auto simp: computeParity_spec)
qed

section \<open>Properties\<close>

text \<open>
  (C13) Sending a speech frame and reading it back gives every one of the 15 parameters, cut
  to the number of bits the format has for it: \<open>parametersBitStream2Array\<close> is the reverse
  operation of \<open>parametersArray2BitStream\<close>, whatever the upper bits of the parameters hold.
\<close>

theorem g729_params_roundtrip:
  assumes "length ps = 15"
  shows "Option.bind (parametersArray2BitStream ps) parametersBitStream2Array
    = Some (map2 take_bit param_widths ps)"
proof -
  obtain bs where "parametersArray2BitStream ps = Some bs"
    using g729.pack_total [OF assms] by blast
  with g729.unpack_pack [OF assms this] show ?thesis by (simp add: trunc_params_def)
qed

lemma g729_params_roundtrip_witness:
  "Option.bind (parametersArray2BitStream [1, 200, 3, 4, 5, 6, 7, 8, 9, 10, 11, 12, 13, 14, 15])
     parametersBitStream2Array = Some [1, 72, 3, 4, 5, 0, 7, 8, 1, 10, 11, 12, 13, 6, 15]"
  by (subst g729_params_roundtrip) (simp_all add: param_widths_def take_bit_eq_mod)

text \<open>
  (C14) Every 80 bit frame is the image of exactly its own parameters: reading any frame of 10
  bytes and sending the parameters again gives the same 10 bytes, and two frames with the
  same parameters are equal. No bit of the stream is ignored.
\<close>

theorem g729_stream_roundtrip:
  assumes "length bs = 10"
  shows "Option.bind (parametersBitStream2Array bs) parametersArray2BitStream = Some bs
    \<and> (\<forall>cs. length cs = 10 \<and> parametersBitStream2Array cs = parametersBitStream2Array bs
         \<longrightarrow> cs = bs)"
  using g729.roundtrip_bytes [OF assms] g729.unpack_inj assms by blast

lemma g729_stream_roundtrip_witness:
  "Option.bind (parametersBitStream2Array [255, 1, 2, 3, 4, 5, 6, 7, 8, 9]) parametersArray2BitStream
    = Some [255, 1, 2, 3, 4, 5, 6, 7, 8, 9]"
  using g729_stream_roundtrip [of "[255, 1, 2, 3, 4, 5, 6, 7, 8, 9]"] by simp

text \<open>
  (C19) The parity check of the first pitch index: if the encoder sends index \<open>p\<close> with its
  parity bit and the index arrives with the bits of \<open>e\<close> flipped, the decoder's error flag is
  1 exactly when an odd number of the six most significant of its eight bits was flipped.
\<close>

theorem parity_detects:
  "parityErrorFlag (p XOR e) (computeParity p) = of_bool (odd (parity_bits e))"
  unfolding parityErrorFlag_def parity_xor by (rule bit_word_eqI) (auto simp: bit_simps)

end
