(* ===== verification/G729_Encoder.thy ===== *)
theory G729_Encoder
  imports G729_EncLP G729_PitchSearch G729_FixedSearch G729_GainSearch G729_LSPQuant G729_VAD G729_DTX
    G729_Bitstream
begin

text \<open>
  The encoder channel (\<open>encoder.c\<close>): its context, its initialisation and the encoding of a frame
  of 80 samples into a stream, with and without voice activity detection, and the RFC 3389
  payload of the last noise frame. The two pointers into the signal buffer are the offsets
  \<open>LAST_FRAME\<close> and \<open>CURRENT_FRAME\<close>; the detector's and the transmitter's contexts are
  optional fields. Two uninitialised locals are parameters: \<open>junkDelay\<close>, the content of
  \<open>intPitchDelay\<close> in each subframe, and \<open>Phi0\<close> of the fixed codebook search.
\<close>

section \<open>Channel context\<close>

record encoderContext =
  signalBuffer :: "int list"
  previousLSPCoefficients :: "int list"
  previousqLSPCoefficients :: "int list"
  weightedInputSignal :: "int list"
  e_excitationVector :: "int list"
  e_targetSignal :: "int list"
  lastQuantizedAdaptativeCodebookGain :: int
  e_preProcessing :: "int \<times> int \<times> int \<times> int"
  previousqLSF :: "int list list"
  e_previousGainPredictionError :: "int list"
  VADChannelContext :: "VADContext option"
  DTXChannelContext :: "DTXContext option"

definition previousLSPInitialValues :: "int list" where
  "previousLSPInitialValues = [30000, 26000, 21000, 15000, 8000, 0, -8000, -15000, -21000, -26000]"

definition LAST_FRAME :: nat where "LAST_FRAME = L_LP_ANALYSIS_WINDOW - L_FRAME"
definition CURRENT_FRAME :: nat where "CURRENT_FRAME = L_LP_ANALYSIS_WINDOW - L_SUBFRAME - L_FRAME"

definition initBcg729EncoderChannel :: "int \<Rightarrow> encoderContext option" where
  "initBcg729EncoderChannel enableVAD = do {
     qLSF \<leftarrow> initLSPQuantization (replicate MA_MAX_K (replicate NB_LSP_COEFF 0));
     errors \<leftarrow> initGainQuantization (replicate 4 0);
     Some \<lparr>signalBuffer = replicate L_LP_ANALYSIS_WINDOW 0,
       previousLSPCoefficients = previousLSPInitialValues,
       previousqLSPCoefficients = previousLSPInitialValues,
       weightedInputSignal = replicate (MAXIMUM_INT_PITCH_DELAY + L_FRAME) 0,
       e_excitationVector = replicate (L_PAST_EXCITATION + L_FRAME) 0,
       e_targetSignal = replicate (NB_LSP_COEFF + L_SUBFRAME) 0,
       lastQuantizedAdaptativeCodebookGain = O2_IN_Q14,
       e_preProcessing = initPreProcessing,
       previousqLSF = qLSF, e_previousGainPredictionError = errors,
       VADChannelContext = (if enableVAD = 1 then Some initBcg729VADChannel else None),
       DTXChannelContext = (if enableVAD = 1 then Some initBcg729DTXChannel else None)\<rparr> }"

section \<open>Steps shared by speech and noise frames\<close>

definition GAMMA_E :: "int list" where
  "GAMMA_E = [24756, 18432, 13824, 10368, 7776, 5832, 4374, 3280, 2460, 1845]"

definition weight_qLP :: "int list \<Rightarrow> int list option" where
  "weight_qLP qLP = for_up 0 (2 * NB_LSP_COEFF) (\<lambda>i w. do {
     c \<leftarrow> get qLP i;
     g \<leftarrow> get GAMMA_E (i mod int NB_LSP_COEFF);
     put w i (s16 (MULT16_16_P15 c g)) }) (replicate (2 * NB_LSP_COEFF) 0)"

text \<open>Pre-processing of the new frame into the end of the signal buffer.\<close>

definition input_frame :: "encoderContext \<Rightarrow> int list \<Rightarrow> encoderContext option" where
  "input_frame ctx frame = do {
     (st, out) \<leftarrow> preProcessing (e_preProcessing ctx) frame (drop LAST_FRAME (signalBuffer ctx));
     Some (ctx\<lparr>e_preProcessing := st, signalBuffer := take LAST_FRAME (signalBuffer ctx) @ out\<rparr>) }"

text \<open>The buffers shifted left by a frame (\<open>memmove\<close>).\<close>

definition shift_encoder_buffers :: "encoderContext \<Rightarrow> encoderContext option" where
  "shift_encoder_buffers ctx = do {
     s \<leftarrow> copy_block (signalBuffer ctx) 0 (signalBuffer ctx) L_FRAME (L_LP_ANALYSIS_WINDOW - L_FRAME);
     w \<leftarrow> copy_block (weightedInputSignal ctx) 0 (weightedInputSignal ctx) L_FRAME MAXIMUM_INT_PITCH_DELAY;
     e \<leftarrow> copy_block (e_excitationVector ctx) 0 (e_excitationVector ctx) L_FRAME L_PAST_EXCITATION;
     Some (ctx\<lparr>signalBuffer := s, weightedInputSignal := w, e_excitationVector := e\<rparr>) }"

section \<open>Noise frame\<close>

definition noise_target :: "int list \<Rightarrow> int list \<Rightarrow> int \<Rightarrow> int list \<Rightarrow> int list \<Rightarrow> int list option" where
  "noise_target residual exc subframeIndex LP target = do {
     target \<leftarrow> for_up 0 L_SUBFRAME (\<lambda>i t. do {
        r \<leftarrow> get residual (subframeIndex + i);
        e \<leftarrow> get exc (int L_PAST_EXCITATION + subframeIndex + i);
        put t (int NB_LSP_COEFF + i) (s16 (SUB16 r e)) }) target;
     synthesisFilter (drop NB_LSP_COEFF target) LP target (int NB_LSP_COEFF) }"

definition finish_noise_frame :: "encoderContext \<Rightarrow> int list \<Rightarrow> encoderContext option" where
  "finish_noise_frame ctx qLP = do {
     weighted \<leftarrow> weight_qLP qLP;
     (w, residual) \<leftarrow> computeWeightedSpeech (signalBuffer ctx) (int CURRENT_FRAME) qLP weighted
        (weightedInputSignal ctx) (int MAXIMUM_INT_PITCH_DELAY) (replicate L_FRAME 0) 0;
     t \<leftarrow> noise_target residual (e_excitationVector ctx) 0 weighted (e_targetSignal ctx);
     t \<leftarrow> noise_target residual (e_excitationVector ctx) (int L_SUBFRAME) (drop NB_LSP_COEFF weighted) t;
     shift_encoder_buffers (ctx\<lparr>weightedInputSignal := w, e_targetSignal := t\<rparr>) }"

section \<open>Speech frame\<close>

text \<open>Closed loop search bounds around the open loop delay.\<close>

definition first_subframe_range :: "int \<Rightarrow> int \<times> int" where
  "first_subframe_range openLoop = (
     let delayMin = s16 (openLoop - 3);
         delayMin = (if delayMin < 20 then 20 else delayMin);
         delayMax = s16 (delayMin + 6)
     in if delayMax > int MAXIMUM_INT_PITCH_DELAY
        then (int MAXIMUM_INT_PITCH_DELAY - 6, int MAXIMUM_INT_PITCH_DELAY)
        else (delayMin, delayMax))"

definition bound_last_gain :: "int \<Rightarrow> int" where
  "bound_last_gain g = (
     let g = (if g > ONE_POINT_2_IN_Q14 then ONE_POINT_2_IN_Q14 else g)
     in if g < O2_IN_Q14 then O2_IN_Q14 else g)"

text \<open>Excitation and target memory from the quantised gains.\<close>

definition encoder_excitation :: "int list \<Rightarrow> int \<Rightarrow> int \<Rightarrow> int \<Rightarrow> int list \<Rightarrow> int list option" where
  "encoder_excitation exc base pitchGain codeGain v = for_up 0 L_SUBFRAME (\<lambda>i exc. do {
     e \<leftarrow> get exc (base + i);
     c \<leftarrow> get v i;
     put exc (base + i) (s16 (SATURATE (PSHR (ADD32 (MULT16_16 e pitchGain) (MULT16_16 c codeGain)) 14)
       MAXINT16)) }) exc"

definition target_memory :: "int list \<Rightarrow> int list \<Rightarrow> int list \<Rightarrow> int \<Rightarrow> int \<Rightarrow> int list option" where
  "target_memory target filtered convolved pitchGain codeGain = do {
     let pitchGain = s16 (PSHR pitchGain 1);
     for_up 0 NB_LSP_COEFF (\<lambda>i t. do {
       f \<leftarrow> get filtered (int L_SUBFRAME + i);
       c \<leftarrow> get convolved (int (L_SUBFRAME - NB_LSP_COEFF) + i);
       x \<leftarrow> get t (int L_SUBFRAME + i);
       let acc = MAC16_16 (MULT16_16 pitchGain f) codeGain c;
       put t i (s16 (SATURATE (SUB32 x (PSHR acc 13)) MAXINT16)) }) target }"

text \<open>The variables of the subframe loop.\<close>

record subframe_state =
  sf_ctx :: encoderContext
  sf_parameters :: "int list"
  sf_index :: int
  sf_LP :: nat
  sf_min :: int
  sf_max :: int

definition unit_impulse :: "int list" where
  "unit_impulse = ONE_IN_Q12 # replicate (L_SUBFRAME - 1) 0"

text \<open>The parity bit is stored after the first delay only.\<close>

definition store_delay :: "int \<Rightarrow> int \<Rightarrow> int list \<Rightarrow> int \<Rightarrow> (int list \<times> int) option" where
  "store_delay subframeIndex code parameters i = do {
     parameters \<leftarrow> put parameters i code;
     if subframeIndex = 0 then do {
       parameters \<leftarrow> put parameters (i + 1) (uint (computeParity (word_of_int code)));
       Some (parameters, i + 2) }
     else Some (parameters, i + 1) }"

text \<open>Impulse response and target, delay search, filtered code vector with its gain.\<close>

record subframe_search =
  ss_exc :: "int list"
  ss_target :: "int list"
  ss_impulse :: "int list"
  ss_filtered :: "int list"
  ss_gain :: int
  ss_xy :: int
  ss_yy :: int
  ss_delay :: int
  ss_min :: int
  ss_max :: int
  ss_code :: int

definition search_delay :: "(int \<Rightarrow> int) \<Rightarrow> int list \<Rightarrow> int \<Rightarrow> subframe_state \<Rightarrow> subframe_search option" where
  "search_delay junkDelay weighted subframeIndex st = do {
     let base = int L_PAST_EXCITATION + subframeIndex;
     let LP = drop (sf_LP st) weighted;
     impulse \<leftarrow> synthesisFilter unit_impulse LP (replicate (NB_LSP_COEFF + L_SUBFRAME) 0) (int NB_LSP_COEFF);
     let exc = e_excitationVector (sf_ctx st);
     target \<leftarrow> synthesisFilter (drop (nat base) exc) LP (e_targetSignal (sf_ctx st)) (int NB_LSP_COEFF);
     (exc, delayMin, delayMax, delay, frac, code) \<leftarrow> adaptativeCodebookSearch exc base (sf_min st) (sf_max st)
        (drop NB_LSP_COEFF impulse) (drop NB_LSP_COEFF target) (junkDelay subframeIndex) subframeIndex;
     filtered \<leftarrow> synthesisFilter (drop (nat base) exc) LP (replicate (NB_LSP_COEFF + L_SUBFRAME) 0)
        (int NB_LSP_COEFF);
     (gain, xy, yy) \<leftarrow> computeAdaptativeCodebookGain (drop NB_LSP_COEFF target) (drop NB_LSP_COEFF filtered);
     Some \<lparr>ss_exc = exc, ss_target = target, ss_impulse = impulse, ss_filtered = filtered,
       ss_gain = gain, ss_xy = xy, ss_yy = yy, ss_delay = delay, ss_min = delayMin, ss_max = delayMax,
       ss_code = code\<rparr> }"

definition encode_subframe :: "(int \<Rightarrow> int) \<Rightarrow> int list list \<Rightarrow> int list \<Rightarrow> int \<Rightarrow> subframe_state \<Rightarrow> subframe_state option" where
  "encode_subframe junkDelay Phi0 weighted subframeIndex st = do {
     let ctx = sf_ctx st;
     s \<leftarrow> search_delay junkDelay weighted subframeIndex st;
     (parameters, i) \<leftarrow> store_delay subframeIndex (ss_code s) (sf_parameters st) (sf_index st);
     let target = drop NB_LSP_COEFF (ss_target s);
     let filtered = drop NB_LSP_COEFF (ss_filtered s);
     (_, code, signs, v, convolved) \<leftarrow> fixedCodebookSearch Phi0 target (drop NB_LSP_COEFF (ss_impulse s))
        (ss_delay s) (lastQuantizedAdaptativeCodebookGain ctx) filtered (ss_gain s)
        (replicate L_SUBFRAME 0);
     parameters \<leftarrow> put parameters i code;
     parameters \<leftarrow> put parameters (i + 1) signs;
     (errors, pitchGain, codeGain, GA, GB) \<leftarrow> gainQuantization (e_previousGainPredictionError ctx)
        target filtered convolved v (ss_xy s) (ss_yy s);
     parameters \<leftarrow> put parameters (i + 2) GA;
     parameters \<leftarrow> put parameters (i + 3) GB;
     exc \<leftarrow> encoder_excitation (ss_exc s) (int L_PAST_EXCITATION + subframeIndex) pitchGain codeGain v;
     t \<leftarrow> target_memory (ss_target s) (ss_filtered s) convolved pitchGain codeGain;
     Some \<lparr>sf_ctx = ctx\<lparr>lastQuantizedAdaptativeCodebookGain := bound_last_gain pitchGain,
             e_previousGainPredictionError := errors, e_excitationVector := exc, e_targetSignal := t\<rparr>,
           sf_parameters = parameters, sf_index = i + 4, sf_LP = sf_LP st + NB_LSP_COEFF,
           sf_min = ss_min s, sf_max = ss_max s\<rparr> }"

definition encode_speech_frame :: "(int \<Rightarrow> int) \<Rightarrow> int list list \<Rightarrow> encoderContext \<Rightarrow> int list \<Rightarrow>
    (encoderContext \<times> byte list) option" where
  "encode_speech_frame junkDelay Phi0 ctx LSP = do {
     (qLSF, qLSP, L) \<leftarrow> LSPQuantization (previousqLSF ctx) LSP (replicate NB_LSP_COEFF 0);
     parameters \<leftarrow> copy_block (replicate NB_PARAMETERS 0) 0 L 0 4;
     interpolated \<leftarrow> interpolateqLSP (previousqLSPCoefficients ctx) qLSP (replicate NB_LSP_COEFF 0);
     pq \<leftarrow> for_up 0 NB_LSP_COEFF (\<lambda>i p. do { v \<leftarrow> get qLSP i; put p i v }) (previousqLSPCoefficients ctx);
     qLP \<leftarrow> qLSP2LP interpolated (replicate (2 * NB_LSP_COEFF) 0) 0;
     qLP \<leftarrow> qLSP2LP qLSP qLP (int NB_LSP_COEFF);
     weighted \<leftarrow> weight_qLP qLP;
     (w, exc) \<leftarrow> computeWeightedSpeech (signalBuffer ctx) (int CURRENT_FRAME) qLP weighted
        (weightedInputSignal ctx) (int MAXIMUM_INT_PITCH_DELAY)
        (e_excitationVector ctx) (int L_PAST_EXCITATION);
     openLoop \<leftarrow> findOpenLoopPitchDelay w (int MAXIMUM_INT_PITCH_DELAY);
     let (delayMin, delayMax) = first_subframe_range openLoop;
     let ctx = ctx\<lparr>previousqLSF := qLSF, previousqLSPCoefficients := pq, weightedInputSignal := w,
                   e_excitationVector := exc\<rparr>;
     st \<leftarrow> run_loop [0, int L_SUBFRAME] (encode_subframe junkDelay Phi0 weighted)
        \<lparr>sf_ctx = ctx, sf_parameters = parameters, sf_index = 4, sf_LP = 0,
         sf_min = delayMin, sf_max = delayMax\<rparr>;
     ctx \<leftarrow> shift_encoder_buffers (sf_ctx st);
     lsp \<leftarrow> copy_block (previousLSPCoefficients ctx) 0 LSP 0 NB_LSP_COEFF;
     pq \<leftarrow> copy_block (previousqLSPCoefficients ctx) 0 qLSP 0 NB_LSP_COEFF;
     stream \<leftarrow> parametersArray2BitStream (map word_of_int (sf_parameters st));
     Some (ctx\<lparr>previousLSPCoefficients := lsp, previousqLSPCoefficients := pq\<rparr>, stream) }"

section \<open>A frame\<close>

text \<open>With detection: \<open>Inl\<close> when the frame was encoded as noise, \<open>Inr\<close> when it is speech.\<close>

definition noise_or_speech :: "encoderContext \<Rightarrow> VADContext \<Rightarrow> DTXContext \<Rightarrow> int list \<Rightarrow> int list \<Rightarrow> int list \<Rightarrow>
    int list \<Rightarrow> int \<Rightarrow> int list \<Rightarrow> (encoderContext \<times> int list \<times> int + encoderContext) option" where
  "noise_or_speech ctx vad dtx LSP reflection ac noLag scale stream = do {
     dtx \<leftarrow> updateDTXContext dtx noLag scale;
     LSF \<leftarrow> LSF_of_LSP LSP;
     k1 \<leftarrow> get reflection 1;
     (vad, VADflag) \<leftarrow> bcg729_vad vad k1 LSF ac scale (signalBuffer ctx) (int CURRENT_FRAME);
     st \<leftarrow> encodeSIDFrame VADflag \<lparr>sid_dtx = dtx, sid_LSP = previousLSPCoefficients ctx,
        sid_qLSP = previousqLSPCoefficients ctx, sid_qLSF = previousqLSF ctx,
        sid_excitation = e_excitationVector ctx, sid_LP = replicate (2 * NB_LSP_COEFF) 0,
        sid_stream = stream, sid_length = 0\<rparr>;
     let ctx = ctx\<lparr>VADChannelContext := Some vad, DTXChannelContext := Some (sid_dtx st),
        previousLSPCoefficients := sid_LSP st, previousqLSPCoefficients := sid_qLSP st,
        previousqLSF := sid_qLSF st, e_excitationVector := sid_excitation st\<rparr>;
     if VADflag = 0 then do {
       ctx \<leftarrow> finish_noise_frame ctx (sid_LP st);
       Some (Inl (ctx, sid_stream st, sid_length st)) }
     else Some (Inr ctx) }"

text \<open>The stream is the caller's array, of which a noise frame writes the first two bytes or
  none; the length tells how many count.\<close>

definition bcg729Encoder :: "(int \<Rightarrow> int) \<Rightarrow> int list list \<Rightarrow> encoderContext \<Rightarrow> int list \<Rightarrow> byte list \<Rightarrow>
    (encoderContext \<times> byte list \<times> int) option" where
  "bcg729Encoder junkDelay Phi0 ctx frame bitStream = do {
     ctx \<leftarrow> input_frame ctx frame;
     (LP, reflection, ac, noLag, scale) \<leftarrow> computeLP (signalBuffer ctx) (replicate NB_LSP_COEFF 0)
        (replicate NB_LSP_COEFF 0) (replicate (NB_LSP_COEFF + 3) 0) (replicate (NB_LSP_COEFF + 3) 0)
        (if VADChannelContext ctx \<noteq> None then NB_LSP_COEFF + 3 else NB_LSP_COEFF + 1);
     (LSP, found) \<leftarrow> LP2LSPConversion LP (replicate NB_LSP_COEFF 0);
     LSP \<leftarrow> (if found then Some LSP
        else copy_block LSP 0 (previousLSPCoefficients ctx) 0 NB_LSP_COEFF);
     result \<leftarrow> (case VADChannelContext ctx of
         None \<Rightarrow> Some (Inr ctx)
       | Some vad \<Rightarrow> do {
           dtx \<leftarrow> DTXChannelContext ctx;
           noise_or_speech ctx vad dtx LSP reflection ac noLag scale (map uint bitStream) });
     case result of
       Inl (ctx, stream, len) \<Rightarrow> Some (ctx, map word_of_int stream, len)
     | Inr ctx \<Rightarrow> do {
         (ctx, stream) \<leftarrow> encode_speech_frame junkDelay Phi0 ctx LSP;
         out \<leftarrow> copy_block bitStream 0 stream 0 10;
         Some (ctx, out, 10) } }"

section \<open>RFC 3389 payload\<close>

definition bcg729GetRFC3389Payload :: "encoderContext \<Rightarrow> int list \<Rightarrow> int list option" where
  "bcg729GetRFC3389Payload ctx payload = do {
     dtx \<leftarrow> DTXChannelContext ctx;
     payload \<leftarrow> put payload 0 (u8 (- (dtx_decodedLogEnergy dtx - 90)));
     for_up 0 NB_LSP_COEFF (\<lambda>i p. do {
       k \<leftarrow> get (dtx_reflection dtx) i;
       put p (i + 1) (u8 (ADD16 (s16 (SHR (MULT16_32_Q15 127 (s32 (- k))) 16)) 127)) }) payload }"


section \<open>Invariant of the channel\<close>

text \<open>The sizes and integer types of the context, and the bounds of the last pitch gain.\<close>

definition enc_ok :: "encoderContext \<Rightarrow> bool" where
  "enc_ok c \<longleftrightarrow> s16_arr 240 (signalBuffer c) \<and> s16_arr 10 (previousLSPCoefficients c)
     \<and> s16_arr 10 (previousqLSPCoefficients c) \<and> s16_arr 223 (weightedInputSignal c)
     \<and> s16_arr 234 (e_excitationVector c) \<and> s16_arr 50 (e_targetSignal c)
     \<and> 3277 \<le> lastQuantizedAdaptativeCodebookGain c \<and> lastQuantizedAdaptativeCodebookGain c \<le> 19661
     \<and> arr2 is_s16 4 10 (previousqLSF c) \<and> s16_arr 4 (e_previousGainPredictionError c)
     \<and> VADChannelContext c = None"

lemma initLSPQuantization_ok:
  assumes "arr2 is_s16 4 10 p"
  shows "\<exists>q. initLSPQuantization p = Some q \<and> arr2 is_s16 4 10 q"
  unfolding initLSPQuantization_def MA_MAX_K_def NB_LSP_COEFF_def
proof (rule for_up_inv)
  fix i q assume "int 0 \<le> i" "i < int 4" "arr2 is_s16 4 10 q"
  then show "\<exists>t. (do { r \<leftarrow> get q i; r \<leftarrow> copy_block r 0 previousqLSFInit 0 10; put q i r }) = Some t
      \<and> arr2 is_s16 4 10 t"
    using copy_row [of q previousqLSFInit i] by (simp add: previousqLSFInit_def arr_def is_s16_def)
qed (rule assms)

lemma init_encoder_ok: "\<exists>c. initBcg729EncoderChannel 0 = Some c \<and> enc_ok c"
proof -
  obtain q where q: "initLSPQuantization (replicate 4 (replicate 10 0)) = Some q" "arr2 is_s16 4 10 q"
    using initLSPQuantization_ok [of "replicate 4 (replicate 10 0)"] by (auto simp: arr2_def list_all_length)
  have "\<exists>e. initGainQuantization (replicate 4 0) = Some e \<and> s16_arr 4 e"
    unfolding initGainQuantization_def
    by (rule for_up_inv) (auto intro!: arr_update simp: is_s16_def [of "-14336"])
  then obtain e where e: "initGainQuantization (replicate 4 0) = Some e" "s16_arr 4 e" by blast
  have p: "s16_arr 10 previousLSPInitialValues" by (simp add: arr_def previousLSPInitialValues_def is_s16_def)
  show ?thesis using q e p
    by (simp add: initBcg729EncoderChannel_def enc_ok_def MA_MAX_K_def NB_LSP_COEFF_def L_LP_ANALYSIS_WINDOW_def
        MAXIMUM_INT_PITCH_DELAY_def L_FRAME_def L_PAST_EXCITATION_def L_SUBFRAME_def O2_IN_Q14_def)
qed

section \<open>All accesses are in bounds\<close>

lemma filter_list_outputs:
  "(\<And>st s. P (snd (f st s))) \<Longrightarrow> list_all P (snd (filter_list f st xs))"
  by (induction xs arbitrary: st) (auto split: prod.splits simp: Let_def, (metis snd_conv)+)

lemma input_frame_ok:
  assumes "enc_ok ctx" "s16_arr 80 frame"
  shows "\<exists>c. input_frame ctx frame = Some c \<and> enc_ok c"
proof -
  have s: "s16_arr 240 (signalBuffer ctx)" using assms(1) by (simp add: enc_ok_def)
  obtain st out where o: "filter_list preProcessing_step (e_preProcessing ctx) frame = (st, out)" by (metis surj_pair)
  have "list_all is_s16 out"
    using filter_list_outputs [of is_s16 preProcessing_step "e_preProcessing ctx" frame] o
    by (auto simp: preProcessing_step_def Let_def split: prod.splits)
  moreover have "length out = 80" using filter_list_length [of preProcessing_step "e_preProcessing ctx" frame] o assms(2)
    by (simp add: arr_length)
  ultimately have out: "s16_arr 80 out" by (simp add: arr_def)
  have "length (drop 160 (signalBuffer ctx)) = 80" using s by (simp add: arr_length)
  then have "preProcessing (e_preProcessing ctx) frame (drop 160 (signalBuffer ctx)) = Some (st, out)"
    using preProcessing_loop [of frame "drop 160 (signalBuffer ctx)"] assms(2) o by (simp add: arr_length)
  moreover have "s16_arr (160 + 80) (take 160 (signalBuffer ctx) @ out)"
    by (intro arr_append arr_take [OF s] out) simp
  ultimately show ?thesis using assms(1)
    by (simp add: input_frame_def LAST_FRAME_def L_LP_ANALYSIS_WINDOW_def L_FRAME_def enc_ok_def)
qed

lemma weight_qLP_ok:
  assumes "s16_arr 20 q"
  shows "\<exists>w. weight_qLP q = Some w \<and> s16_arr 20 w"
proof -
  have g: "s16_arr 10 GAMMA_E" by (simp add: arr_def GAMMA_E_def is_s16_def)
  have m: "0 \<le> i mod 10" "i mod 10 < int 10" for i :: int by simp_all
  show ?thesis unfolding weight_qLP_def NB_LSP_COEFF_def
    by (rule for_up_inv) (use assms g m in \<open>auto intro!: arr_update\<close>)
qed

lemma shift_encoder_buffers_ok:
  assumes "enc_ok ctx"
  shows "\<exists>c. shift_encoder_buffers ctx = Some c \<and> enc_ok c"
proof -
  have a: "s16_arr 240 (signalBuffer ctx)" "s16_arr 223 (weightedInputSignal ctx)" "s16_arr 234 (e_excitationVector ctx)"
    using assms by (simp_all add: enc_ok_def)
  obtain s where s: "copy_block (signalBuffer ctx) 0 (signalBuffer ctx) 80 160 = Some s" "s16_arr 240 s"
    using copy_block_ok [OF a(1) a(1), of 80 160 0] by auto
  obtain w where w: "copy_block (weightedInputSignal ctx) 0 (weightedInputSignal ctx) 80 143 = Some w" "s16_arr 223 w"
    using copy_block_ok [OF a(2) a(2), of 80 143 0] by auto
  obtain e where e: "copy_block (e_excitationVector ctx) 0 (e_excitationVector ctx) 80 154 = Some e" "s16_arr 234 e"
    using copy_block_ok [OF a(3) a(3), of 80 154 0] by auto
  show ?thesis using assms s w e
    by (simp add: shift_encoder_buffers_def L_FRAME_def L_LP_ANALYSIS_WINDOW_def MAXIMUM_INT_PITCH_DELAY_def
        L_PAST_EXCITATION_def enc_ok_def)
qed

lemma first_subframe_range_ok:
  assumes "0 \<le> t" "t \<le> 143"
  shows "\<exists>lo hi. first_subframe_range t = (lo, hi) \<and> 20 \<le> lo \<and> hi \<le> 143"
  using assms by (auto simp: first_subframe_range_def MAXIMUM_INT_PITCH_DELAY_def s16_idI Let_def)

lemma bound_last_gain_range: "3277 \<le> bound_last_gain g \<and> bound_last_gain g \<le> 19661"
  by (simp add: bound_last_gain_def ONE_POINT_2_IN_Q14_def O2_IN_Q14_def Let_def)

lemma encoder_excitation_ok:
  assumes "s16_arr 234 e" "base = 154 \<or> base = 194" "s16_arr 40 v"
  shows "\<exists>r. encoder_excitation e base p c v = Some r \<and> s16_arr 234 r"
  unfolding encoder_excitation_def L_SUBFRAME_def
  by (rule for_up_inv) (use assms in \<open>auto intro!: arr_update\<close>)

lemma target_memory_ok:
  assumes "s16_arr 50 t" "s16_arr 50 f" "s16_arr 40 c"
  shows "\<exists>r. target_memory t f c p g = Some r \<and> s16_arr 50 r"
proof -
  have "\<exists>r. for_up 0 10 (\<lambda>i t. do {
       f \<leftarrow> get f (40 + i); c \<leftarrow> get c (30 + i); x \<leftarrow> get t (40 + i);
       let acc = MAC16_16 (MULT16_16 p' f) g c;
       put t i (s16 (SATURATE (SUB32 x (PSHR acc 13)) MAXINT16)) }) t = Some r \<and> s16_arr 50 r" for p'
    by (rule for_up_inv) (use assms in \<open>auto intro!: arr_update simp: Let_def\<close>)
  then show ?thesis by (simp add: target_memory_def L_SUBFRAME_def NB_LSP_COEFF_def Let_def)
qed

section \<open>A subframe\<close>

lemma unit_impulse_arr: "s16_arr 40 unit_impulse"
  by (auto simp: unit_impulse_def L_SUBFRAME_def arr_def list_all_iff is_s16_def ONE_IN_Q12_def)

lemma search_delay_ok:
  assumes ok: "enc_ok (sf_ctx st)" and w: "s16_arr 20 w" and s: "s = 0 \<and> sf_LP st = 0 \<or> s = 40 \<and> sf_LP st = 10"
    and r: "20 \<le> sf_min st" "sf_max st \<le> 143" and junk: "20 \<le> junk s" "junk s \<le> 143"
  shows "\<exists>r. search_delay junk w s st = Some r \<and> s16_arr 234 (ss_exc r) \<and> s16_arr 50 (ss_target r)
    \<and> s16_arr 50 (ss_impulse r) \<and> s16_arr 50 (ss_filtered r) \<and> \<bar>ss_xy r\<bar> \<le> 42949672960
    \<and> 0 \<le> ss_yy r \<and> ss_yy r \<le> 42949672960 \<and> 20 \<le> ss_delay r \<and> ss_delay r \<le> 143
    \<and> 20 \<le> ss_min r \<and> ss_max r \<le> 143 \<and> (s = 0 \<longrightarrow> 0 \<le> ss_code r \<and> ss_code r \<le> 255)"
proof -
  define LP where "LP = drop (sf_LP st) w"
  have LP: "s16_arr (20 - sf_LP st) LP" "10 \<le> 20 - sf_LP st" using arr_drop [OF w] s by (auto simp: LP_def)
  define base where "base = 154 + s"
  have base: "base = 154 \<or> base = 194" using s by (auto simp: base_def)
  have exc: "s16_arr 234 (e_excitationVector (sf_ctx st))" and tg: "s16_arr 50 (e_targetSignal (sf_ctx st))"
    using ok by (simp_all add: enc_ok_def)
  have z: "s16_arr 50 (replicate 50 0)" by simp
  have d: "s16_arr (234 - nat base) (drop (nat base) e)" "40 \<le> 234 - nat base" if "s16_arr 234 e" for e
    using arr_drop [OF that] base by auto
  obtain im where im: "synthesisFilter unit_impulse LP (replicate 50 0) 10 = Some im" "s16_arr 50 im"
    using synthesisFilter_ok [OF unit_impulse_arr _ LP z, of 10] by auto
  obtain t where t: "synthesisFilter (drop (nat base) (e_excitationVector (sf_ctx st))) LP (e_targetSignal (sf_ctx st)) 10
      = Some t" "s16_arr 50 t"
    using synthesisFilter_ok [OF d [OF exc] LP tg, of 10] by auto
  have dr: "s16_arr 40 (drop 10 x)" if "s16_arr 50 x" for x using arr_drop [OF that, of 10] by simp
  obtain e lo hi td f c where a: "adaptativeCodebookSearch (e_excitationVector (sf_ctx st)) base (sf_min st) (sf_max st)
      (drop 10 im) (drop 10 t) (junk s) s = Some (e, lo, hi, td, f, c)" "s16_arr 234 e" "20 \<le> lo" "hi \<le> 143"
      "20 \<le> td" "td \<le> 143" "f \<in> {-1, 0, 1}" "s = 0 \<longrightarrow> c = codeword_P1 td f \<and> (85 \<le> td \<longrightarrow> f = 0)"
    using adaptativeCodebookSearch_ok [OF exc base r dr [OF im(2)] order_refl dr [OF t(2)] order_refl junk, of s] by blast
  have c: "s = 0 \<longrightarrow> 0 \<le> c \<and> c \<le> 255" using a(5-8) pitch_P1_codeword(1,2) by blast
  obtain fl where fl: "synthesisFilter (drop (nat base) e) LP (replicate 50 0) 10 = Some fl" "s16_arr 50 fl"
    using synthesisFilter_ok [OF d [OF a(2)] LP z, of 10] by auto
  obtain g xy yy where g: "computeAdaptativeCodebookGain (drop 10 t) (drop 10 fl) = Some (g, xy, yy)"
    "\<bar>xy\<bar> \<le> 42949672960" "0 \<le> yy" "yy \<le> 42949672960"
    using computeAdaptativeCodebookGain_ok [OF dr [OF t(2)] _ dr [OF fl(2)]] by auto
  have sz: "NB_LSP_COEFF + L_SUBFRAME = 50" "int NB_LSP_COEFF = 10" "NB_LSP_COEFF = 10" "int L_PAST_EXCITATION = 154"
    by (simp_all add: NB_LSP_COEFF_def L_SUBFRAME_def L_PAST_EXCITATION_def)
  have "search_delay junk w s st = Some \<lparr>ss_exc = e, ss_target = t, ss_impulse = im, ss_filtered = fl,
       ss_gain = g, ss_xy = xy, ss_yy = yy, ss_delay = td, ss_min = lo, ss_max = hi, ss_code = c\<rparr>"
    unfolding search_delay_def Let_def sz LP_def [symmetric] base_def [symmetric]
    by (simp add: im(1) t(1) a(1) fl(1) g(1) L_SUBFRAME_def)
  then show ?thesis using a im t fl g c by auto
qed

text \<open>The parameters of a subframe start at cell 4 or 10; those before it stay.\<close>

definition subframe_ok :: "int \<Rightarrow> nat \<Rightarrow> subframe_state \<Rightarrow> bool" where
  "subframe_ok i lp st \<longleftrightarrow> enc_ok (sf_ctx st) \<and> length (sf_parameters st) = 15 \<and> sf_index st = i \<and> sf_LP st = lp
     \<and> 20 \<le> sf_min st \<and> sf_max st \<le> 143"

definition parity_ok :: "int list \<Rightarrow> bool" where
  "parity_ok ps \<longleftrightarrow> 0 \<le> ps ! 4 \<and> ps ! 4 \<le> 255 \<and> ps ! 5 = uint (computeParity (word_of_int (ps ! 4)))"

lemma encode_subframe_ok:
  assumes st: "subframe_ok i lp st" and s: "s = 0 \<and> i = 4 \<and> lp = 0 \<or> s = 40 \<and> i = 10 \<and> lp = 10"
    and P: "arr2 is_s32 40 40 Phi0" and w: "s16_arr 20 w" and junk: "20 \<le> junk s" "junk s \<le> 143"
  shows "\<exists>t. encode_subframe junk Phi0 w s st = Some t \<and> subframe_ok (i + (if s = 0 then 6 else 5)) (lp + 10) t
    \<and> (s = 0 \<longrightarrow> parity_ok (sf_parameters t))
    \<and> (s \<noteq> 0 \<longrightarrow> (\<forall>k<10. sf_parameters t ! k = sf_parameters st ! k))"
proof -
  let ?ctx = "sf_ctx st"
  have ok: "enc_ok ?ctx" and ps: "length (sf_parameters st) = 15" and ix: "sf_index st = i" "sf_LP st = lp"
    and r: "20 \<le> sf_min st" "sf_max st \<le> 143" using st by (simp_all add: subframe_ok_def)
  have s': "s = 0 \<and> sf_LP st = 0 \<or> s = 40 \<and> sf_LP st = 10" using s ix by auto
  obtain q where q: "search_delay junk w s st = Some q" "s16_arr 234 (ss_exc q)" "s16_arr 50 (ss_target q)"
    "s16_arr 50 (ss_impulse q)" "s16_arr 50 (ss_filtered q)" "\<bar>ss_xy q\<bar> \<le> 42949672960" "0 \<le> ss_yy q"
    "ss_yy q \<le> 42949672960" "20 \<le> ss_delay q" "ss_delay q \<le> 143" "20 \<le> ss_min q" "ss_max q \<le> 143"
    "s = 0 \<longrightarrow> 0 \<le> ss_code q \<and> ss_code q \<le> 255"
    using search_delay_ok [of st w s junk, OF ok w s' r junk] by blast
  have dr: "s16_arr 40 (drop 10 x)" if "s16_arr 50 x" for x using arr_drop [OF that, of 10] by simp
  have lg: "0 \<le> lastQuantizedAdaptativeCodebookGain ?ctx" "lastQuantizedAdaptativeCodebookGain ?ctx \<le> 19661"
    and pe: "s16_arr 4 (e_previousGainPredictionError ?ctx)" using ok by (simp_all add: enc_ok_def)
  obtain h' c sg u cv where f: "fixedCodebookSearch Phi0 (drop 10 (ss_target q)) (drop 10 (ss_impulse q)) (ss_delay q)
      (lastQuantizedAdaptativeCodebookGain ?ctx) (drop 10 (ss_filtered q)) (ss_gain q) (replicate 40 0)
      = Some (h', c, sg, u, cv)" "s16_arr 40 u" "0 < energy u 40" "energy u 40 < 2147483648" "s16_arr 40 cv"
    using fixedCodebookSearch_ok [OF P dr [OF q(3)] _ dr [OF q(4)] dr [OF q(5)] _ q(9) lg, of "replicate 40 0" "ss_gain q"]
    by auto
  obtain pe' p g GA GB where gq: "gainQuantization (e_previousGainPredictionError ?ctx) (drop 10 (ss_target q))
      (drop 10 (ss_filtered q)) cv u (ss_xy q) (ss_yy q) = Some (pe', p, g, GA, GB)" "s16_arr 4 pe'"
    using gainQuantization_ok [OF pe dr [OF q(3)] _ dr [OF q(5)] _ f(5) _ f(2-4) q(6-8)] by auto
  obtain e where e: "encoder_excitation (ss_exc q) (154 + s) p g u = Some e" "s16_arr 234 e"
    using encoder_excitation_ok [OF q(2) _ f(2), of "154 + s"] s by auto
  obtain t where t: "target_memory (ss_target q) (ss_filtered q) cv p g = Some t" "s16_arr 50 t"
    using target_memory_ok [OF q(3,5) f(5)] by blast
  define ps1 where "ps1 = (if s = 0 then (sf_parameters st)[nat i := ss_code q, nat (i + 1) :=
      uint (computeParity (word_of_int (ss_code q)))] else (sf_parameters st)[nat i := ss_code q])"
  define j where "j = (if s = 0 then i + 2 else i + 1)"
  have sd: "store_delay s (ss_code q) (sf_parameters st) i = Some (ps1, j)"
    using s ps by (auto simp: store_delay_def ps1_def j_def)
  define ps2 where "ps2 = ps1[nat j := c, nat (j + 1) := sg, nat (j + 2) := GA, nat (j + 3) := GB]"
  have l1: "length ps1 = 15" using ps by (simp add: ps1_def)
  have pu: "put ps1 j c = Some (ps1[nat j := c])"
    "put (ps1[nat j := c]) (j + 1) sg = Some (ps1[nat j := c, nat (j + 1) := sg])"
    "put (ps1[nat j := c, nat (j + 1) := sg]) (j + 2) GA = Some (ps1[nat j := c, nat (j + 1) := sg, nat (j + 2) := GA])"
    "put (ps1[nat j := c, nat (j + 1) := sg, nat (j + 2) := GA]) (j + 3) GB = Some ps2"
    using s l1 by (auto simp: j_def ps2_def)
  define T where "T = \<lparr>sf_ctx = ?ctx\<lparr>lastQuantizedAdaptativeCodebookGain := bound_last_gain p,
             e_previousGainPredictionError := pe', e_excitationVector := e, e_targetSignal := t\<rparr>,
           sf_parameters = ps2, sf_index = j + 4, sf_LP = lp + 10, sf_min = ss_min q, sf_max = ss_max q\<rparr>"
  have sz: "NB_LSP_COEFF = 10" "L_SUBFRAME = 40" "int L_PAST_EXCITATION = 154"
    by (simp_all add: NB_LSP_COEFF_def L_SUBFRAME_def L_PAST_EXCITATION_def)
  have run: "encode_subframe junk Phi0 w s st = Some T"
    unfolding encode_subframe_def Let_def sz ix q(1) Option.bind.simps sd split_conv f(1) pu gq(1) e(1) t(1) T_def ..
  have "enc_ok (sf_ctx T)" using ok gq(2) e(2) t(2) bound_last_gain_range [of p] by (simp add: enc_ok_def T_def)
  then have "subframe_ok (i + (if s = 0 then 6 else 5)) (lp + 10) T"
    using q(11,12) l1 s by (auto simp: subframe_ok_def T_def ps2_def j_def)
  moreover have "s = 0 \<longrightarrow> parity_ok (sf_parameters T)"
    using s l1 ps q(13) by (auto simp: parity_ok_def T_def ps2_def ps1_def j_def)
  moreover have "s \<noteq> 0 \<longrightarrow> (\<forall>k<10. sf_parameters T ! k = sf_parameters st ! k)"
    using s l1 ps by (auto simp: T_def ps2_def ps1_def j_def)
  ultimately show ?thesis using run by blast
qed

section \<open>A frame\<close>

lemma parameters_of_array:
  assumes "length ps = 15"
  shows "\<exists>bs. parametersArray2BitStream ps = Some bs \<and> length bs = 10
    \<and> parametersBitStream2Array bs = Some (map2 take_bit param_widths ps)"
proof -
  obtain bs where "parametersArray2BitStream ps = Some bs" "length bs = 10" using g729.pack_total [OF assms] by blast
  with g729.unpack_pack [OF assms this(1)] show ?thesis by (auto simp: trunc_params_def)
qed

lemma stored_parity:
  assumes "length ps = 15" "parity_ok ps"
  shows "parityErrorFlag (map2 take_bit param_widths (map word_of_int ps) ! 4)
    (map2 take_bit param_widths (map word_of_int ps) ! 5) = 0"
proof -
  let ?w = "word_of_int (ps ! 4) :: param"
  have "take_bit 8 ?w = word_of_int (take_bit 8 (ps ! 4))" by (simp add: take_bit_word_eq_self unsigned_of_int take_bit_of_int)
  also have "take_bit 8 (ps ! 4) = ps ! 4" using assms(2) by (simp add: parity_ok_def take_bit_int_eq_self)
  finally have p1: "take_bit 8 ?w = ?w" .
  have "take_bit 1 (computeParity ?w) = computeParity ?w" by (simp add: computeParity_spec)
  moreover have "word_of_int (ps ! 5) = computeParity ?w" using assms(2) by (simp add: parity_ok_def)
  ultimately show ?thesis using assms(1) p1
    by (simp add: param_widths_def parityErrorFlag_def nth_Cons_numeral)
qed

lemma encode_speech_frame_ok:
  assumes ok: "enc_ok ctx" and L: "s16_arr 10 LSP" and P: "arr2 is_s32 40 40 Phi0"
    and junk: "20 \<le> junk 0" "junk 0 \<le> 143" "20 \<le> junk 40" "junk 40 \<le> 143"
  shows "\<exists>c bs ps. encode_speech_frame junk Phi0 ctx LSP = Some (c, bs) \<and> enc_ok c \<and> length bs = 10
    \<and> parametersBitStream2Array bs = Some ps \<and> parityErrorFlag (ps ! 4) (ps ! 5) = 0"
proof -
  have a: "arr2 is_s16 4 10 (previousqLSF ctx)" "s16_arr 10 (previousqLSPCoefficients ctx)"
    "s16_arr 240 (signalBuffer ctx)" "s16_arr 223 (weightedInputSignal ctx)" "s16_arr 234 (e_excitationVector ctx)"
    "s16_arr 10 (previousLSPCoefficients ctx)"
    using ok by (simp_all add: enc_ok_def)
  have z: "s16_arr n (replicate n 0)" for n by simp
  obtain qf qp LL where 1: "LSPQuantization (previousqLSF ctx) LSP (replicate 10 0) = Some (qf, qp, LL)"
    "arr2 is_s16 4 10 qf" "s16_arr 10 qp" "LSP_parameters LL" using LSPQuantization_ok [OF a(1) L z] by blast
  have lL: "length LL = 4" using 1(4) by (simp add: LSP_parameters_def)
  define ps0 where "ps0 = take 4 LL @ drop 4 (replicate 15 0)"
  have 2: "copy_block (replicate 15 0) 0 LL 0 4 = Some ps0" "length ps0 = 15"
    using lL by (simp_all add: copy_block_def ps0_def)
  obtain ip where 3: "interpolateqLSP (previousqLSPCoefficients ctx) qp (replicate 10 0) = Some ip" "s16_arr 10 ip"
    using interpolateqLSP_ok [OF a(2) 1(3) z] by blast
  have "\<exists>q. for_up 0 10 (\<lambda>i p. do { v \<leftarrow> get qp i; put p i v }) (previousqLSPCoefficients ctx) = Some q \<and> s16_arr 10 q"
    by (rule for_up_inv) (use a(2) 1(3) in \<open>auto intro!: arr_update intro: arr_nth\<close>)
  then obtain pq where 4: "for_up 0 10 (\<lambda>i p. do { v \<leftarrow> get qp i; put p i v }) (previousqLSPCoefficients ctx) = Some pq"
    "s16_arr 10 pq" by blast
  obtain l1 where 5: "qLSP2LP ip (replicate 20 0) 0 = Some l1" "s16_arr 20 l1" using qLSP2LP_ok [OF 3(2) z, of 0] by auto
  obtain l2 where 6: "qLSP2LP qp l1 10 = Some l2" "s16_arr 20 l2" using qLSP2LP_ok [OF 1(3) 5(2), of 10] by auto
  obtain w where 7: "weight_qLP l2 = Some w" "s16_arr 20 w" using weight_qLP_ok 6(2) by blast
  obtain wi ex where 8: "computeWeightedSpeech (signalBuffer ctx) 120 l2 w (weightedInputSignal ctx) 143
      (e_excitationVector ctx) 154 = Some (wi, ex)" "s16_arr 223 wi" "s16_arr 234 ex"
    using computeWeightedSpeech_ok [OF a(3) _ _ 6(2) 7(2) a(4) _ _ a(5), of 120 143 154] by auto
  obtain op where 9: "findOpenLoopPitchDelay wi 143 = Some op" "0 \<le> op" "op \<le> 143"
    using findOpenLoopPitchDelay_ok [OF 8(2), of 143] by auto
  obtain lo hi where 10: "first_subframe_range op = (lo, hi)" "20 \<le> lo" "hi \<le> 143"
    using first_subframe_range_ok [OF 9(2,3)] by blast
  define c1 where "c1 = ctx\<lparr>previousqLSF := qf, previousqLSPCoefficients := pq, weightedInputSignal := wi,
                   e_excitationVector := ex\<rparr>"
  have c1: "enc_ok c1" using ok 1(2) 4(2) 8(2,3) by (simp add: enc_ok_def c1_def)
  define s0 where "s0 = \<lparr>sf_ctx = c1, sf_parameters = ps0, sf_index = 4, sf_LP = 0, sf_min = lo, sf_max = hi\<rparr>"
  have "subframe_ok 4 0 s0" using c1 2(2) 10 by (simp add: subframe_ok_def s0_def)
  then obtain s1 where 11: "encode_subframe junk Phi0 w 0 s0 = Some s1" "subframe_ok 10 10 s1" "parity_ok (sf_parameters s1)"
    using encode_subframe_ok [of 4 0 s0 0 Phi0 w junk] P 7(2) junk by auto
  obtain s2 where 12: "encode_subframe junk Phi0 w 40 s1 = Some s2" "subframe_ok 15 20 s2"
    "\<forall>k<10. sf_parameters s2 ! k = sf_parameters s1 ! k"
    using encode_subframe_ok [of 10 10 s1 40 Phi0 w junk] P 7(2) junk 11(2) by auto
  have par: "parity_ok (sf_parameters s2)" "length (sf_parameters s2) = 15"
    using 11(3) 12(2,3) by (simp_all add: parity_ok_def subframe_ok_def)
  obtain c2 where 13: "shift_encoder_buffers (sf_ctx s2) = Some c2" "enc_ok c2"
    using shift_encoder_buffers_ok 12(2) by (auto simp: subframe_ok_def)
  have b: "s16_arr 10 (previousLSPCoefficients c2)" "s16_arr 10 (previousqLSPCoefficients c2)"
    using 13(2) by (simp_all add: enc_ok_def)
  obtain lsp where 14: "copy_block (previousLSPCoefficients c2) 0 LSP 0 10 = Some lsp" "s16_arr 10 lsp"
    using copy_block_ok [OF b(1) L, of 0 10 0] by auto
  obtain pq2 where 15: "copy_block (previousqLSPCoefficients c2) 0 qp 0 10 = Some pq2" "s16_arr 10 pq2"
    using copy_block_ok [OF b(2) 1(3), of 0 10 0] by auto
  let ?ps = "map word_of_int (sf_parameters s2) :: param list"
  obtain bs where 16: "parametersArray2BitStream ?ps = Some bs" "length bs = 10"
    "parametersBitStream2Array bs = Some (map2 take_bit param_widths ?ps)"
    using parameters_of_array [of ?ps] par(2) by auto
  have sz: "NB_LSP_COEFF = 10" "L_SUBFRAME = 40" "int L_PAST_EXCITATION = 154" "NB_PARAMETERS = 15"
    "int CURRENT_FRAME = 120" "int MAXIMUM_INT_PITCH_DELAY = 143" "2 * NB_LSP_COEFF = 20" "int NB_LSP_COEFF = 10"
    by (simp_all add: NB_LSP_COEFF_def L_SUBFRAME_def L_PAST_EXCITATION_def NB_PARAMETERS_def CURRENT_FRAME_def
        L_LP_ANALYSIS_WINDOW_def L_FRAME_def MAXIMUM_INT_PITCH_DELAY_def)
  have rl: "run_loop [0, 40] (encode_subframe junk Phi0 w) s0 = Some s2" using 11(1) 12(1) by simp
  have "encode_speech_frame junk Phi0 ctx LSP
      = Some (c2\<lparr>previousLSPCoefficients := lsp, previousqLSPCoefficients := pq2\<rparr>, bs)"
    unfolding encode_speech_frame_def sz 1(1) Option.bind.simps split_conv 2(1) 3(1) 4(1)
    by (simp add: sz 5(1) 6(1) 7(1) 8(1) 9(1) 10(1) c1_def [symmetric] s0_def [symmetric] rl 13(1) 14(1) 15(1) 16(1)
        del: run_loop.simps)
  moreover have "enc_ok (c2\<lparr>previousLSPCoefficients := lsp, previousqLSPCoefficients := pq2\<rparr>)"
    using 13(2) 14(2) 15(2) by (simp add: enc_ok_def)
  moreover have "parityErrorFlag (map2 take_bit param_widths ?ps ! 4) (map2 take_bit param_widths ?ps ! 5) = 0"
    by (rule stored_parity [OF par(2,1)])
  ultimately show ?thesis using 16 by blast
qed




end
