(* ===== verification/G729_PostFilter.thy ===== *)
theory G729_PostFilter
  imports G729_Filters
begin

text \<open>
  The post filter of the decoder (\<open>postFilter.c\<close>, bcg729): residual signal, long term filter at
  the best delay, tilt compensation, short term synthesis and adaptive gain control. The
  pointer \<open>reconstructedSpeech\<close> is the buffer of the context with an index.
\<close>

section \<open>Constants\<close>

definition GAMMA_N :: "int list" where
  "GAMMA_N = [18022, 9912, 5452, 2998, 1649, 907, 499, 274, 151, 83]"

definition GAMMA_D :: "int list" where
  "GAMMA_D = [22938, 16056, 11239, 7868, 5507, 3855, 2699, 1889, 1322, 926]"

definition GAMMA_T :: int where "GAMMA_T = 26214"

section \<open>Initialisation\<close>

definition initPostFilter :: "decoderContext \<Rightarrow> decoderContext option" where
  "initPostFilter ctx = do {
     rs \<leftarrow> zero_block (residualSignalBuffer ctx) MAXIMUM_INT_PITCH_DELAY;
     sc \<leftarrow> zero_block (scaledResidualSignalBuffer ctx) MAXIMUM_INT_PITCH_DELAY;
     lt \<leftarrow> put (longTermFilteredResidualSignalBuffer ctx) 0 0;
     st \<leftarrow> zero_block (shortTermFilteredResidualSignalBuffer ctx) NB_LSP_COEFF;
     Some (ctx\<lparr>residualSignalBuffer := rs, scaledResidualSignalBuffer := sc,
       longTermFilteredResidualSignalBuffer := lt, shortTermFilteredResidualSignalBuffer := st,
       previousAdaptativeGain := 4096\<rparr>) }"

section \<open>Long term filter\<close>

text \<open>The coefficients weighted by the powers of a constant.\<close>

definition LPGamma :: "int list \<Rightarrow> int list \<Rightarrow> int \<Rightarrow> int list option" where
  "LPGamma gammas LP LPBase = for_up 0 NB_LSP_COEFF (\<lambda>i r. do {
     c \<leftarrow> get LP (LPBase + i);
     g \<leftarrow> get gammas i;
     put r i (s16 (MULT16_16_P15 c g)) }) (replicate NB_LSP_COEFF 0)"

text \<open>The residual signal and its scaled copy, from cell \<open>off\<close> of their buffers on.\<close>

definition residual_step :: "int list \<Rightarrow> int list \<Rightarrow> int \<Rightarrow> int \<Rightarrow> int \<Rightarrow>
    int list \<times> int list \<Rightarrow> (int list \<times> int list) option" where
  "residual_step gn speech base off i = (\<lambda>(res, scaled). do {
     x \<leftarrow> get speech (base + i);
     acc \<leftarrow> for_up 0 NB_LSP_COEFF (\<lambda>j acc. do {
        g \<leftarrow> get gn j;
        y \<leftarrow> get speech (base + (i - j - 1));
        Some (MAC16_16 acc g y) }) (SHL x 12);
     let r = s16 (SATURATE (PSHR acc 12) MAXINT16);
     res \<leftarrow> put res (off + i) r;
     scaled \<leftarrow> put scaled (off + i) (s16 (PSHR r 2));
     Some (res, scaled) })"

text \<open>The sum of products of n samples of an array from two indices on.\<close>

definition dot_product :: "int list \<Rightarrow> int \<Rightarrow> int \<Rightarrow> nat \<Rightarrow> int option" where
  "dot_product x a b n = for_up 0 n (\<lambda>j acc. do {
     u \<leftarrow> get x (a + j);
     v \<leftarrow> get x (b + j);
     Some (MAC16_16 acc u v) }) 0"

definition best_delay :: "int list \<Rightarrow> int \<Rightarrow> int \<Rightarrow> (int \<times> int) option" where
  "best_delay scaled off intPitchDelay =
     for_range (intPitchDelay - 3) (intPitchDelay + 3 + 1) (\<lambda>i (correlationMax, best). do {
       correlation \<leftarrow> dot_product scaled (off - i) off L_SUBFRAME;
       Some (if correlation > correlationMax then (correlation, s16 i)
             else (correlationMax, best)) }) (MININT32, 0)"

text \<open>The three values scaled together to the best fit on 16 bits.\<close>

definition scale_energies :: "int \<Rightarrow> int \<Rightarrow> int \<Rightarrow> (int \<times> int \<times> int) option" where
  "scale_energies correlationMax energy delayedEnergy = (
     let m = correlationMax;
         m = (if m < energy then energy else m);
         m = (if m < delayedEnergy then delayedEnergy else m)
     in if m > 0 then do {
          z \<leftarrow> countLeadingZeros m;
          let leadingZeros = s16 z;
          Some (if leadingZeros < 16
                then (s16 (shr correlationMax (nat (16 - leadingZeros))),
                      s16 (shr energy (nat (16 - leadingZeros))),
                      s16 (shr delayedEnergy (nat (16 - leadingZeros))))
                else (s16 correlationMax, s16 energy, s16 delayedEnergy)) }
        else Some (0, 0, 0))"

definition long_term_disabled :: "int \<Rightarrow> int \<Rightarrow> int \<Rightarrow> bool" where
  "long_term_disabled c e d \<longleftrightarrow> MULT16_16 c c < SHR (MULT16_16 e d) 1 \<or> (c = 0 \<and> d = 0)"

definition long_term_gains :: "int \<Rightarrow> int \<Rightarrow> int \<Rightarrow> int \<Rightarrow> int \<times> int" where
  "long_term_gains correlationMax delayedEnergy c d =
    (if correlationMax > delayedEnergy then (21845, 10923)
     else let g1 = s16 (DIV32 (s32 (c * 2 ^ 15)) (ADD32 (s32 (d * 2)) c))
          in (s16 (SUB16 32767 g1), g1))"

definition long_term_filter :: "int list \<Rightarrow> int list \<Rightarrow> int \<Rightarrow> int \<Rightarrow> int list \<Rightarrow> int list option" where
  "long_term_filter res scaled off intPitchDelay lt = do {
     let intPitchDelay = (if intPitchDelay > int MAXIMUM_INT_PITCH_DELAY - 3
                          then int MAXIMUM_INT_PITCH_DELAY - 3 else intPitchDelay);
     (correlationMax, best) \<leftarrow> best_delay scaled off intPitchDelay;
     let correlationMax = (if correlationMax < 0 then 0 else correlationMax);
     energy \<leftarrow> dot_product scaled off off L_SUBFRAME;
     delayedEnergy \<leftarrow> dot_product scaled (off - best) (off - best) L_SUBFRAME;
     (c, e, d) \<leftarrow> scale_energies correlationMax energy delayedEnergy;
     if long_term_disabled c e d
     then for_up 0 L_SUBFRAME (\<lambda>i lt. do {
            r \<leftarrow> get res (off + i);
            put lt (int LT_OFFSET + i) r }) lt
     else let (g0, g1) = long_term_gains correlationMax delayedEnergy c d
          in for_up 0 L_SUBFRAME (\<lambda>i lt. do {
            r \<leftarrow> get res (off + i);
            r' \<leftarrow> get res (off - best + i);
            put lt (int LT_OFFSET + i) (s16 (SATURATE
              (PSHR (ADD32 (MULT16_16 g0 r) (MULT16_16 g1 r')) 15) MAXINT16)) }) lt }"

section \<open>Tilt compensation\<close>

text \<open>The truncated impulse response of the short term filter.\<close>

definition impulse_response :: "int list \<Rightarrow> int list \<Rightarrow> int list option" where
  "impulse_response gn gd = do {
     hf \<leftarrow> put (replicate 22 0) 0 4096;
     hf \<leftarrow> for_up 1 11 (\<lambda>i hf. do {
        g \<leftarrow> get gn (i - 1);
        acc \<leftarrow> for_up 0 (min NB_LSP_COEFF (nat i)) (\<lambda>j acc. do {
          c \<leftarrow> get gd j;
          h \<leftarrow> get hf (i - j - 1);
          Some (MSU16_16 acc c h) }) (SHL g 12);
        put hf i (s16 (SATURATE (PSHR acc 12) MAXINT16)) }) hf;
     for_up 11 22 (\<lambda>i hf. do {
        acc \<leftarrow> for_up 0 NB_LSP_COEFF (\<lambda>j acc. do {
          c \<leftarrow> get gd j;
          h \<leftarrow> get hf (i - j - 1);
          Some (MSU16_16 acc c h) }) 0;
        put hf i (s16 (SATURATE (PSHR acc 12) MAXINT16)) }) hf }"

definition tilt_compensation :: "int list \<Rightarrow> int list \<Rightarrow> int list option" where
  "tilt_compensation hf lt = do {
     h0 \<leftarrow> get hf 0;
     h1 \<leftarrow> get hf 1;
     rh1 \<leftarrow> for_up 1 21 (\<lambda>i acc. do {
        a \<leftarrow> get hf i; b \<leftarrow> get hf (i + 1); Some (MAC16_16 acc a b) }) (MULT16_16 h0 h1);
     if rh1 < 0 then copy_block (replicate L_SUBFRAME 0) 0 lt LT_OFFSET L_SUBFRAME
     else do {
       rh0 \<leftarrow> for_up 1 22 (\<lambda>i acc. do {
          a \<leftarrow> get hf i; Some (MAC16_16 acc a a) }) (MULT16_16 h0 h0);
       let rh1 = MULT16_32_Q15 GAMMA_T rh1;
       let gain = s16 (SATURATE (DIV32 rh1 (PSHR rh0 12)) MAXINT16);
       for_up 0 L_SUBFRAME (\<lambda>i t. do {
          a \<leftarrow> get lt (int LT_OFFSET + i);
          b \<leftarrow> get lt (int LT_OFFSET + (i - 1));
          put t i (s16 (MSU16_16_Q12 a gain b)) }) (replicate L_SUBFRAME 0) } }"

section \<open>Adaptive gain control\<close>

text \<open>The sum of squares of n samples, scaled down by 16 to fit 32 unsigned bits.\<close>

definition square_sum_Q4 :: "int list \<Rightarrow> int \<Rightarrow> int option" where
  "square_sum_Q4 x base = for_up 0 L_SUBFRAME (\<lambda>i acc. do {
     v \<leftarrow> get x (base + i);
     Some (u32 (UMAC16_16_Q4 acc v v)) }) 0"

definition gain_scaling :: "int \<Rightarrow> int \<Rightarrow> int option" where
  "gain_scaling speechSum shortTermSum =
    (if speechSum = 0 then Some 0
     else do {
       z \<leftarrow> unsignedCountLeadingZeros speechSum;
       let numeratorShift = s16 z;
       let num = USHL speechSum (nat numeratorShift);
       let den = s32 (UVSHR32 shortTermSum (10 - numeratorShift));
       let fraction = (if den = 0
          then UVSHR32 (UDIV32 num shortTermSum) (numeratorShift - 10)
          else UDIV32 num den);
       rt \<leftarrow> g729Sqrt_Q0Q7 fraction;
       Some (s16 (MULT16_16_P15 (s16 (SATURATE rt MAXINT16)) 3277)) })"

definition gain_control :: "int list \<Rightarrow> int \<Rightarrow> int list \<Rightarrow> int \<Rightarrow> int list \<Rightarrow> (int \<times> int list) option" where
  "gain_control speech base st previousGain out = do {
     shortTermSum \<leftarrow> square_sum_Q4 st (int ST_OFFSET);
     if shortTermSum = 0
     then do {
       out \<leftarrow> for_up 0 L_SUBFRAME (\<lambda>i out. do {
          v \<leftarrow> get st (int ST_OFFSET + i); put out i v }) out;
       Some (0, out) }
     else do {
       speechSum \<leftarrow> square_sum_Q4 speech base;
       gainScalingFactor \<leftarrow> gain_scaling speechSum shortTermSum;
       for_up 0 L_SUBFRAME (\<lambda>i (gain, out). do {
          let gain = ADD16 gainScalingFactor (MULT16_16_P15 gain 29491);
          v \<leftarrow> get st (int ST_OFFSET + i);
          out \<leftarrow> put out i (s16 (MULT16_16_Q12 gain v));
          Some (gain, out) }) (previousGain, out) } }"

section \<open>The post filter\<close>

definition postFilter :: "decoderContext \<Rightarrow> int list \<Rightarrow> int \<Rightarrow> int list \<Rightarrow> int \<Rightarrow> int \<Rightarrow> int \<Rightarrow>
    int list \<Rightarrow> (decoderContext \<times> int list) option" where
  "postFilter ctx LP LPBase speech base intPitchDelay subframeIndex out = do {
     gn \<leftarrow> LPGamma GAMMA_N LP LPBase;
     let off = int MAXIMUM_INT_PITCH_DELAY + subframeIndex;
     (res, scaled) \<leftarrow> for_up 0 L_SUBFRAME (residual_step gn speech base off)
        (residualSignalBuffer ctx, scaledResidualSignalBuffer ctx);
     lt \<leftarrow> long_term_filter res scaled off intPitchDelay (longTermFilteredResidualSignalBuffer ctx);
     gd \<leftarrow> LPGamma GAMMA_D LP LPBase;
     hf \<leftarrow> impulse_response gn gd;
     tilt \<leftarrow> tilt_compensation hf lt;
     last \<leftarrow> get lt (int LT_OFFSET + (int L_SUBFRAME - 1));
     lt \<leftarrow> put lt (int LT_OFFSET - 1) last;
     st \<leftarrow> synthesisFilter tilt gd (shortTermFilteredResidualSignalBuffer ctx) (int ST_OFFSET);
     st \<leftarrow> copy_block st 0 st L_SUBFRAME NB_LSP_COEFF;
     (gain, out) \<leftarrow> gain_control speech base st (previousAdaptativeGain ctx) out;
     (res, scaled) \<leftarrow> (if subframeIndex > 0 then do {
         res \<leftarrow> copy_block res 0 res L_FRAME MAXIMUM_INT_PITCH_DELAY;
         scaled \<leftarrow> copy_block scaled 0 scaled L_FRAME MAXIMUM_INT_PITCH_DELAY;
         Some (res, scaled) } else Some (res, scaled));
     Some (ctx\<lparr>residualSignalBuffer := res, scaledResidualSignalBuffer := scaled,
       longTermFilteredResidualSignalBuffer := lt, shortTermFilteredResidualSignalBuffer := st,
       previousAdaptativeGain := gain\<rparr>, out) }"

section \<open>All accesses are in bounds, all loops end\<close>

lemma GAMMA_arr [table_simps]: "s16_arr 10 GAMMA_N" "s16_arr 10 GAMMA_D"
  by (simp_all add: arr_def GAMMA_N_def GAMMA_D_def is_s16_def)

lemma LPGamma_ok:
  assumes "arr P 10 g" "s16_arr n LP" "0 \<le> b" "b + 10 \<le> int n"
  shows "\<exists>r. LPGamma g LP b = Some r \<and> s16_arr 10 r"
  unfolding LPGamma_def NB_LSP_COEFF_def
  by (rule for_up_inv) (use assms in \<open>auto intro!: arr_update\<close>)

lemma residual_step_ok:
  assumes "s16_arr 10 gn" "s16_arr n speech" "10 \<le> base" "base + 40 \<le> int n" "0 \<le> i" "i < 40"
    "s16_arr 223 res" "s16_arr 223 scaled" "0 \<le> off" "off \<le> 183"
  shows "\<exists>s. residual_step gn speech base off i (res, scaled) = Some s \<and> s16_arr 223 (fst s) \<and> s16_arr 223 (snd s)"
proof -
  have "\<exists>acc. for_up 0 10 (\<lambda>j acc. do { g \<leftarrow> get gn j; y \<leftarrow> get speech (base + (i - j - 1));
      Some (MAC16_16 acc g y) }) (SHL (speech ! nat (base + i)) 12) = Some acc \<and> True"
    by (rule for_up_inv) (use assms in auto)
  then obtain acc where "for_up 0 10 (\<lambda>j acc. do { g \<leftarrow> get gn j; y \<leftarrow> get speech (base + (i - j - 1));
      Some (MAC16_16 acc g y) }) (SHL (speech ! nat (base + i)) 12) = Some acc" by blast
  then show ?thesis using assms
    by (auto simp: residual_step_def NB_LSP_COEFF_def Let_def intro!: arr_update)
qed

lemma dot_product_ok:
  assumes "arr P n x" "0 \<le> a" "a + int k \<le> int n" "0 \<le> b" "b + int k \<le> int n"
  shows "\<exists>r. dot_product x a b k = Some r \<and> is_s32 r"
  unfolding dot_product_def
  by (rule for_up_inv) (use assms in \<open>auto simp: is_s32_def [of 0]\<close>)

lemma best_delay_ok:
  assumes "s16_arr 223 x" "19 \<le> T" "T \<le> 140" "off = 143 \<or> off = 183"
  shows "\<exists>c t. best_delay x off T = Some (c, t) \<and> is_s32 c \<and> 0 \<le> t \<and> t \<le> 143"
proof -
  have "\<exists>s. best_delay x off T = Some s \<and> (case s of (c, t) \<Rightarrow> is_s32 c \<and> 0 \<le> t \<and> t \<le> 143)"
    unfolding best_delay_def L_SUBFRAME_def
  proof (rule for_range_inv)
    fix i and s :: "int \<times> int"
    assume i: "T - 3 \<le> i" "i < T + 3 + 1" and s: "case s of (c, t) \<Rightarrow> is_s32 c \<and> 0 \<le> t \<and> t \<le> 143"
    have "\<exists>r. dot_product x (off - i) off 40 = Some r \<and> is_s32 r"
      by (rule dot_product_ok) (use assms i in auto)
    then show "\<exists>t. (case s of (m, best) \<Rightarrow> do {
        correlation \<leftarrow> dot_product x (off - i) off 40;
        Some (if correlation > m then (correlation, s16 i) else (m, best)) }) = Some t
      \<and> (case t of (c, t) \<Rightarrow> is_s32 c \<and> 0 \<le> t \<and> t \<le> 143)"
      using s i assms by (auto simp: s16_idI)
  qed (simp add: MININT32_def)
  then show ?thesis by (metis (no_types, lifting) case_prod_conv surj_pair)
qed

lemma scale_energies_ok:
  assumes "is_s32 a" "is_s32 b" "is_s32 c"
  shows "\<exists>x y z. scale_energies a b c = Some (x, y, z) \<and> is_s16 x \<and> is_s16 y \<and> is_s16 z"
proof -
  define m where "m = (let m = a; m = (if m < b then b else m) in if m < c then c else m)"
  have m: "m < 2147483648" using assms unfolding m_def is_s32_def Let_def by auto
  show ?thesis
  proof (cases "m > 0")
    case True
    then obtain z where "countLeadingZeros m = Some z" using countLeadingZeros_spec [of m] m by blast
    then show ?thesis using True by (simp add: scale_energies_def m_def Let_def)
  next
    case False
    then show ?thesis by (simp add: scale_energies_def m_def Let_def)
  qed
qed

lemma long_term_filter_ok:
  assumes "s16_arr 223 res" "s16_arr 223 scaled" "off = 143 \<or> off = 183" "19 \<le> T" "s16_arr 41 lt"
  shows "\<exists>r. long_term_filter res scaled off T lt = Some r \<and> s16_arr 41 r"
proof -
  obtain T' where T': "(if T > int 143 - 3 then int 143 - 3 else T) = T'" "19 \<le> T'" "T' \<le> 140"
    using assms(4) by (cases "T > 140") auto
  obtain c t where bd: "best_delay scaled off T' = Some (c, t)" "is_s32 c" "0 \<le> t" "t \<le> 143"
    using best_delay_ok [OF assms(2) T'(2,3) assms(3)] by blast
  obtain e where e: "dot_product scaled off off 40 = Some e" "is_s32 e"
    using dot_product_ok [OF assms(2), of off 40 off] assms(3) by auto
  obtain d where d: "dot_product scaled (off - t) (off - t) 40 = Some d" "is_s32 d"
    using dot_product_ok [OF assms(2), of "off - t" 40 "off - t"] assms(3) bd(3,4) by auto
  let ?c = "if c < 0 then 0 else c"
  have "is_s32 ?c" using bd(2) by (simp add: is_s32_def [of 0])
  then obtain x y z where s: "scale_energies ?c e d = Some (x, y, z)" "is_s16 x" "is_s16 y" "is_s16 z"
    using scale_energies_ok e d by blast
  have copy: "\<exists>r. for_up 0 40 (\<lambda>i lt. do { r \<leftarrow> get res (off + i); put lt (1 + i) r }) lt = Some r \<and> s16_arr 41 r"
    by (rule for_up_inv) (use assms bd in \<open>auto intro!: arr_update s16_nth\<close>)
  have filt: "\<exists>r. for_up 0 40 (\<lambda>i lt. do {
            r \<leftarrow> get res (off + i);
            r' \<leftarrow> get res (off - t + i);
            put lt (1 + i) (s16 (SATURATE (PSHR (ADD32 (MULT16_16 g0 r) (MULT16_16 g1 r')) 15) MAXINT16)) }) lt
      = Some r \<and> s16_arr 41 r" for g0 g1
    by (rule for_up_inv) (use assms bd in \<open>auto intro!: arr_update\<close>)
  show ?thesis
    unfolding long_term_filter_def Let_def sizes T'(1) using bd(1) e(1) d(1) s(1) copy filt
    by (simp split: prod.splits)
qed

lemma impulse_response_ok:
  assumes "s16_arr 10 gn" "s16_arr 10 gd"
  shows "\<exists>r. impulse_response gn gd = Some r \<and> s16_arr 22 r"
proof -
  have inner: "\<exists>acc. for_up 0 k (\<lambda>j acc. do { c \<leftarrow> get gd j; h \<leftarrow> get hf (i - j - 1);
      Some (MSU16_16 acc c h) }) a = Some acc \<and> True"
    if "s16_arr 22 hf" "k \<le> 10" "int k \<le> i" "i < 22" for k hf i a
    by (rule for_up_inv) (use that assms in auto)
  have "s16_arr 22 ((replicate 22 0)[0 := 4096])"
    by (intro arr_update arr_replicate) (simp_all add: is_s16_def)
  then have "\<exists>h. for_up 1 11 (\<lambda>i hf. do {
        g \<leftarrow> get gn (i - 1);
        acc \<leftarrow> for_up 0 (min 10 (nat i)) (\<lambda>j acc. do { c \<leftarrow> get gd j; h \<leftarrow> get hf (i - j - 1);
          Some (MSU16_16 acc c h) }) (SHL g 12);
        put hf i (s16 (SATURATE (PSHR acc 12) MAXINT16)) }) ((replicate 22 0)[0 := 4096]) = Some h
      \<and> s16_arr 22 h"
  proof (rule for_up_inv)
    fix i h assume i: "int 1 \<le> i" "i < int 11" "s16_arr 22 h"
    obtain acc where "for_up 0 (min 10 (nat i)) (\<lambda>j acc. do { c \<leftarrow> get gd j; h \<leftarrow> get h (i - j - 1);
      Some (MSU16_16 acc c h) }) (SHL (gn ! nat (i - 1)) 12) = Some acc"
      using inner [OF i(3), of "min 10 (nat i)" i "SHL (gn ! nat (i - 1)) 12"] i(1,2) by fastforce
    then show "\<exists>t. (do {
        g \<leftarrow> get gn (i - 1);
        acc \<leftarrow> for_up 0 (min 10 (nat i)) (\<lambda>j acc. do { c \<leftarrow> get gd j; h \<leftarrow> get h (i - j - 1);
          Some (MSU16_16 acc c h) }) (SHL g 12);
        put h i (s16 (SATURATE (PSHR acc 12) MAXINT16)) }) = Some t \<and> s16_arr 22 t"
      using i assms by (auto intro!: arr_update)
  qed
  then obtain h where h: "for_up 1 11 (\<lambda>i hf. do {
        g \<leftarrow> get gn (i - 1);
        acc \<leftarrow> for_up 0 (min 10 (nat i)) (\<lambda>j acc. do { c \<leftarrow> get gd j; h \<leftarrow> get hf (i - j - 1);
          Some (MSU16_16 acc c h) }) (SHL g 12);
        put hf i (s16 (SATURATE (PSHR acc 12) MAXINT16)) }) ((replicate 22 0)[0 := 4096]) = Some h"
    "s16_arr 22 h" by blast
  have "\<exists>r. for_up 11 22 (\<lambda>i hf. do {
        acc \<leftarrow> for_up 0 10 (\<lambda>j acc. do { c \<leftarrow> get gd j; h \<leftarrow> get hf (i - j - 1);
          Some (MSU16_16 acc c h) }) 0;
        put hf i (s16 (SATURATE (PSHR acc 12) MAXINT16)) }) h = Some r \<and> s16_arr 22 r"
  proof (rule for_up_inv)
    fix i h assume i: "int 11 \<le> i" "i < int 22" "s16_arr 22 h"
    obtain acc where "for_up 0 10 (\<lambda>j acc. do { c \<leftarrow> get gd j; h \<leftarrow> get h (i - j - 1);
      Some (MSU16_16 acc c h) }) 0 = Some acc"
      using inner [OF i(3), of 10 i 0] i(1,2) by fastforce
    then show "\<exists>t. (do {
        acc \<leftarrow> for_up 0 10 (\<lambda>j acc. do { c \<leftarrow> get gd j; h \<leftarrow> get h (i - j - 1);
          Some (MSU16_16 acc c h) }) 0;
        put h i (s16 (SATURATE (PSHR acc 12) MAXINT16)) }) = Some t \<and> s16_arr 22 t"
      using i by (auto intro!: arr_update)
  qed (rule h(2))
  then show ?thesis using h(1) by (simp add: impulse_response_def sizes)
qed

lemma tilt_compensation_ok:
  assumes "s16_arr 22 hf" "s16_arr 41 lt"
  shows "\<exists>r. tilt_compensation hf lt = Some r \<and> s16_arr 40 r"
proof -
  have "\<exists>a. for_up 1 21 (\<lambda>i acc. do { a \<leftarrow> get hf i; b \<leftarrow> get hf (i + 1); Some (MAC16_16 acc a b) })
      (MULT16_16 (hf ! 0) (hf ! 1)) = Some a \<and> True"
    by (rule for_up_inv) (use assms in auto)
  then obtain rh1 where r1: "for_up 1 21 (\<lambda>i acc. do { a \<leftarrow> get hf i; b \<leftarrow> get hf (i + 1); Some (MAC16_16 acc a b) })
      (MULT16_16 (hf ! 0) (hf ! 1)) = Some rh1" by blast
  have "\<exists>a. for_up 1 22 (\<lambda>i acc. do { a \<leftarrow> get hf i; Some (MAC16_16 acc a a) })
      (MULT16_16 (hf ! 0) (hf ! 0)) = Some a \<and> True"
    by (rule for_up_inv) (use assms in auto)
  then obtain rh0 where r0: "for_up 1 22 (\<lambda>i acc. do { a \<leftarrow> get hf i; Some (MAC16_16 acc a a) })
      (MULT16_16 (hf ! 0) (hf ! 0)) = Some rh0" by blast
  have cp: "\<exists>r. copy_block (replicate 40 0) 0 lt 1 40 = Some r \<and> s16_arr 40 r"
    by (rule copy_block_ok) (use assms in auto)
  have lp: "\<exists>r. for_up 0 40 (\<lambda>i t. do { a \<leftarrow> get lt (1 + i); b \<leftarrow> get lt (1 + (i - 1));
      put t i (s16 (MSU16_16_Q12 a g b)) }) (replicate 40 0) = Some r \<and> s16_arr 40 r" for g
    by (rule for_up_inv) (use assms in \<open>auto intro!: arr_update\<close>)
  show ?thesis
    using assms r1 r0 cp lp
    by (cases "rh1 < 0") (simp_all add: tilt_compensation_def sizes Let_def)
qed

lemma square_sum_Q4_ok:
  assumes "arr P n x" "0 \<le> b" "b + 40 \<le> int n"
  shows "\<exists>r. square_sum_Q4 x b = Some r \<and> 0 \<le> r \<and> r < 4294967296"
  unfolding square_sum_Q4_def L_SUBFRAME_def
  by (rule for_up_inv) (use assms in \<open>auto simp: u32_def\<close>)

lemma gain_scaling_ok:
  assumes "0 \<le> a" "a < 4294967296" "0 \<le> b" "b < 4294967296"
  shows "\<exists>r. gain_scaling a b = Some r \<and> is_s16 r"
proof (cases "a = 0")
  case False
  have v: "0 \<le> UVSHR32 x n \<and> UVSHR32 x n < 4294967296" if "0 \<le> x \<and> x < 4294967296" for x n
    using that div_pow_shrinks [of x "nat n"]
    by (auto simp: UVSHR32_def shr_def u32_def split: if_splits)
  obtain z where z: "unsignedCountLeadingZeros a = Some z"
    using unsignedCountLeadingZeros_spec [of a] assms False by fastforce
  define num where "num = USHL a (nat (s16 z))"
  define den where "den = s32 (UVSHR32 b (10 - s16 z))"
  define f where "f = (if den = 0 then UVSHR32 (UDIV32 num b) (s16 z - 10) else UDIV32 num den)"
  have "0 \<le> f" "f < 4294967296" using UDIV32_range v by (auto simp: f_def)
  then obtain rt where "g729Sqrt_Q0Q7 f = Some rt" using g729Sqrt_total by blast
  then show ?thesis
    using False z
    by (cases "den = 0") (simp_all add: gain_scaling_def Let_def f_def flip: num_def den_def)
qed (simp add: gain_scaling_def)

lemma gain_control_ok:
  assumes "s16_arr n speech" "0 \<le> base" "base + 40 \<le> int n" "s16_arr 50 st" "is_s16 g" "s16_arr 40 out"
  shows "\<exists>g' r. gain_control speech base st g out = Some (g', r) \<and> is_s16 g' \<and> s16_arr 40 r"
proof -
  obtain a where a: "square_sum_Q4 st 10 = Some a" "0 \<le> a" "a < 4294967296"
    using square_sum_Q4_ok [OF assms(4), of 10] by auto
  obtain b where b: "square_sum_Q4 speech base = Some b" "0 \<le> b" "b < 4294967296"
    using square_sum_Q4_ok [OF assms(1-3)] by auto
  obtain f where f: "gain_scaling b a = Some f" "is_s16 f" using gain_scaling_ok [OF b(2,3) a(2,3)] by blast
  have cp: "\<exists>r. for_up 0 40 (\<lambda>i out. do { v \<leftarrow> get st (10 + i); put out i v }) out = Some r \<and> s16_arr 40 r"
    by (rule for_up_inv) (use assms in \<open>auto intro!: arr_update s16_nth\<close>)
  have lp: "\<exists>s. for_up 0 40 (\<lambda>i (gain, out). do {
          let gain = ADD16 f (MULT16_16_P15 gain 29491);
          v \<leftarrow> get st (10 + i);
          out \<leftarrow> put out i (s16 (MULT16_16_Q12 gain v));
          Some (gain, out) }) (g, out) = Some s \<and> is_s16 (fst s) \<and> s16_arr 40 (snd s)"
    by (rule for_up_inv) (use assms in \<open>auto simp: Let_def intro!: arr_update\<close>)
  show ?thesis
    using a(1) b(1) f(1) cp lp
    by (cases "a = 0") (auto simp: gain_control_def sizes)
qed

lemma postFilter_residual_ok:
  assumes "s16_arr 10 gn" "s16_arr n speech" "10 \<le> base" "base + 40 \<le> int n"
    "s16_arr 223 res" "s16_arr 223 scaled" "0 \<le> off" "off \<le> 183"
  shows "\<exists>r s. for_up 0 40 (residual_step gn speech base off) (res, scaled) = Some (r, s)
    \<and> s16_arr 223 r \<and> s16_arr 223 s"
proof -
  have "\<exists>t. for_up 0 40 (residual_step gn speech base off) (res, scaled) = Some t
    \<and> s16_arr 223 (fst t) \<and> s16_arr 223 (snd t)"
    by (rule for_up_inv) (use residual_step_ok [OF assms(1-4) _ _ _ _ assms(7,8)] assms(5,6) in auto)
  then show ?thesis by auto
qed

definition post_filter_bufs :: "decoderContext \<Rightarrow> bool" where
  "post_filter_bufs ctx \<longleftrightarrow> s16_arr 223 (residualSignalBuffer ctx)
     \<and> s16_arr 223 (scaledResidualSignalBuffer ctx)
     \<and> s16_arr 41 (longTermFilteredResidualSignalBuffer ctx)
     \<and> s16_arr 50 (shortTermFilteredResidualSignalBuffer ctx) \<and> is_s16 (previousAdaptativeGain ctx)"

lemma initPostFilter_ok:
  assumes "post_filter_bufs ctx"
  shows "\<exists>a b c d. initPostFilter ctx = Some (ctx\<lparr>residualSignalBuffer := a,
      scaledResidualSignalBuffer := b, longTermFilteredResidualSignalBuffer := c,
      shortTermFilteredResidualSignalBuffer := d, previousAdaptativeGain := 4096\<rparr>)
    \<and> s16_arr 223 a \<and> s16_arr 223 b \<and> s16_arr 41 c \<and> s16_arr 50 d"
proof -
  note b = assms [unfolded post_filter_bufs_def]
  obtain a where a: "zero_block (residualSignalBuffer ctx) 143 = Some a" "s16_arr 223 a"
    using zero_block_ok [of is_s16 223 "residualSignalBuffer ctx" 143] b by auto
  obtain e where e: "zero_block (scaledResidualSignalBuffer ctx) 143 = Some e" "s16_arr 223 e"
    using zero_block_ok [of is_s16 223 "scaledResidualSignalBuffer ctx" 143] b by auto
  obtain c where c: "put (longTermFilteredResidualSignalBuffer ctx) 0 0 = Some c" "s16_arr 41 c"
    using arr_put [of is_s16 41 "longTermFilteredResidualSignalBuffer ctx" 0 0] b by auto
  obtain d where d: "zero_block (shortTermFilteredResidualSignalBuffer ctx) 10 = Some d" "s16_arr 50 d"
    using zero_block_ok [of is_s16 50 "shortTermFilteredResidualSignalBuffer ctx" 10] b by auto
  show ?thesis
    by (intro exI conjI, unfold initPostFilter_def sizes a(1) e(1) c(1) d(1) Option.bind.simps, rule refl)
      (fact a(2) e(2) c(2) d(2))+
qed

lemma postFilter_ok:
  assumes "post_filter_bufs ctx" "s16_arr m LP" "0 \<le> lb" "lb + 10 \<le> int m"
    "s16_arr n speech" "10 \<le> base" "base + 40 \<le> int n" "19 \<le> T" "sub = 0 \<or> sub = 40" "s16_arr 40 out"
  shows "\<exists>a b c d g r. postFilter ctx LP lb speech base T sub out =
      Some (ctx\<lparr>residualSignalBuffer := a, scaledResidualSignalBuffer := b,
        longTermFilteredResidualSignalBuffer := c, shortTermFilteredResidualSignalBuffer := d,
        previousAdaptativeGain := g\<rparr>, r)
    \<and> s16_arr 223 a \<and> s16_arr 223 b \<and> s16_arr 41 c \<and> s16_arr 50 d \<and> is_s16 g \<and> s16_arr 40 r"
proof -
  note buf = assms(1) [unfolded post_filter_bufs_def]
  obtain gn gd where g: "LPGamma GAMMA_N LP lb = Some gn" "s16_arr 10 gn"
    "LPGamma GAMMA_D LP lb = Some gd" "s16_arr 10 gd"
    using LPGamma_ok [OF GAMMA_arr(1) assms(2-4)] LPGamma_ok [OF GAMMA_arr(2) assms(2-4)] by blast
  have off: "143 + sub = 143 \<or> 143 + sub = 183" "0 \<le> 143 + sub" "143 + sub \<le> 183" using assms(9) by auto
  obtain a b where ab: "for_up 0 40 (residual_step gn speech base (143 + sub))
      (residualSignalBuffer ctx, scaledResidualSignalBuffer ctx) = Some (a, b)" "s16_arr 223 a" "s16_arr 223 b"
    using postFilter_residual_ok [OF g(2) assms(5-7) _ _ off(2,3)] buf by blast
  obtain lt where lt: "long_term_filter a b (143 + sub) T (longTermFilteredResidualSignalBuffer ctx) = Some lt"
    "s16_arr 41 lt" using long_term_filter_ok [OF ab(2,3) off(1) assms(8)] buf by blast
  obtain hf where hf: "impulse_response gn gd = Some hf" "s16_arr 22 hf"
    using impulse_response_ok [OF g(2,4)] by blast
  obtain t where t: "tilt_compensation hf lt = Some t" "s16_arr 40 t"
    using tilt_compensation_ok [OF hf(2) lt(2)] by blast
  have lt': "s16_arr 41 (lt[0 := lt ! 40])" by (intro arr_update lt(2) s16_nth [OF lt(2)]) simp
  obtain st where st: "synthesisFilter t gd (shortTermFilteredResidualSignalBuffer ctx) 10 = Some st" "s16_arr 50 st"
    using LPSynthesisFilter_ok [OF t(2) _ _ g(4), of 0 0] buf unfolding synthesisFilter_eq by fastforce
  obtain st' where st': "copy_block st 0 st 40 10 = Some st'" "s16_arr 50 st'"
    using copy_block_ok [OF st(2) st(2), of 40 10 0] by auto
  obtain g' r where gc: "gain_control speech base st' (previousAdaptativeGain ctx) out = Some (g', r)"
    "is_s16 g'" "s16_arr 40 r"
    using gain_control_ok [OF assms(5) _ assms(7) st'(2) _ assms(10)] assms(6) buf by fastforce
  obtain a' b' where sh: "copy_block a 0 a 80 143 = Some a'" "s16_arr 223 a'"
    "copy_block b 0 b 80 143 = Some b'" "s16_arr 223 b'"
    using copy_block_ok [OF ab(2) ab(2), of 80 143 0] copy_block_ok [OF ab(3) ab(3), of 80 143 0] by auto
  have "postFilter ctx LP lb speech base T sub out =
      Some (ctx\<lparr>residualSignalBuffer := if sub > 0 then a' else a,
        scaledResidualSignalBuffer := if sub > 0 then b' else b,
        longTermFilteredResidualSignalBuffer := lt[0 := lt ! 40],
        shortTermFilteredResidualSignalBuffer := st', previousAdaptativeGain := g'\<rparr>, r)"
    unfolding postFilter_def sizes Let_def
    using g ab(1) lt hf(1) t(1) st(1) st'(1) gc(1) sh(1,3) by simp
  then show ?thesis
    by (intro exI conjI, assumption) (use ab sh lt' st'(2) gc in auto)
qed

section \<open>Energies and gains of the long term filter\<close>

lemma MAC_sq:
  assumes "\<bar>v\<bar> \<le> 7327" "0 \<le> acc" "acc \<le> 39 * 7327 * 7327"
  shows "MAC16_16 acc v v = acc + v * v"
proof -
  have le: "v * v \<le> 7327 * 7327"
    using assms(1) mult_mono' [of "\<bar>v\<bar>" 7327 "\<bar>v\<bar>" 7327] by simp
  have ge: "0 \<le> v * v" by simp
  have "s32 v = v" using assms(1) by (intro s32_idI) auto
  moreover have "s32 (v * v) = v * v" by (rule s32_idI) (use le ge in linarith)+
  moreover have "s32 (acc + v * v) = acc + v * v"
    by (rule s32_idI) (use le ge assms(2,3) in linarith)+
  moreover have "s32 acc = acc" by (rule s32_idI) (use assms(2,3) in linarith)+
  ultimately show ?thesis by (simp add: MAC16_16_def MULT16_16_def ADD32_def)
qed

text \<open>The energy of the scaled residual: as long as no scaled sample exceeds 7327 it is the
  exact sum of squares; the 32 bit accumulator does not overflow.\<close>

theorem residual_energy_exact:
  assumes "\<forall>x\<in>set xs. \<bar>x\<bar> \<le> 7327" "off + 40 \<le> length xs"
  shows "dot_product xs (int off) (int off) 40 = Some (\<Sum>j<40. (xs ! (off + j))\<^sup>2)"
proof -
  let ?S = "\<lambda>n. \<Sum>j<n. (xs ! (off + j))\<^sup>2"
  have sq: "(xs ! (off + j))\<^sup>2 \<le> 7327\<^sup>2" if "j < 40" for j
    using assms that power_mono [of "\<bar>xs ! (off + j)\<bar>" 7327 2] by simp
  have le: "?S n \<le> int n * 7327\<^sup>2" if "n \<le> 40" for n
    using sum_bounded_above [of "{..<n}" "\<lambda>j. (xs ! (off + j))\<^sup>2" "7327\<^sup>2"] sq that by simp
  have "\<exists>t. for_up 0 40 (\<lambda>j acc. do { u \<leftarrow> get xs (int off + j); v \<leftarrow> get xs (int off + j);
      Some (MAC16_16 acc u v) }) 0 = Some t \<and> t = ?S 40"
  proof (rule for_up_rule)
    fix i t assume i: "0 \<le> i" "i < 40" and t: "t = ?S i"
    have "MAC16_16 t (xs ! (off + i)) (xs ! (off + i)) = t + xs ! (off + i) * xs ! (off + i)"
    proof (rule MAC_sq)
      show "0 \<le> t" by (simp add: t sum_nonneg)
      have "t \<le> int i * 7327\<^sup>2" using le [of i] i t by simp
      then show "t \<le> 39 * 7327 * 7327" using i by simp
    qed (use assms i in auto)
    then show "\<exists>u. (do { u \<leftarrow> get xs (int off + int i); v \<leftarrow> get xs (int off + int i);
        Some (MAC16_16 t u v) }) = Some u \<and> u = ?S (Suc i)"
      using i assms(2) by (simp add: get_def t power2_eq_square nat_add_distrib)
  qed simp_all
  then show ?thesis by (simp add: dot_product_def L_SUBFRAME_def)
qed

theorem residual_energy_exact_witness:
  "dot_product (replicate 80 7327) 40 40 40 = Some 2147397160"
  using residual_energy_exact [of "replicate 80 7327" 40] by simp


text \<open>The gains of the long term filter: with the scaled correlation not above the scaled
  delayed energy, the gain of the delayed sample is at most a third and the two gains add to one
  in Q15, up to one unit.\<close>

theorem long_term_gains_sum:
  assumes "0 \<le> c" "c \<le> d" "d < 32768" "0 < c \<or> 0 < d"
  shows "case long_term_gains corr delayed c d of (g0, g1) \<Rightarrow> 0 \<le> g1 \<and> g1 \<le> 10923 \<and> 32767 \<le> g0 + g1 \<and> g0 + g1 \<le> 32768"
proof -
  have "(c * 32768) sdiv (d * 2 + c) = c * 32768 div (d * 2 + c)" using assms by (simp add: signed_divide_int_def sgn_if)
  moreover have "c * 32768 div (d * 2 + c) \<le> 10922"
  proof -
    have "c * 32768 < (d * 2 + c) * 10923" using assms by auto
    moreover have "c * 32768 div (d * 2 + c) * (d * 2 + c) \<le> c * 32768"
      using assms pos_mod_sign [of "d * 2 + c" "c * 32768"] div_mult_mod_eq [of "c * 32768" "d * 2 + c"]
      by linarith
    ultimately have "c * 32768 div (d * 2 + c) * (d * 2 + c) < 10923 * (d * 2 + c)" by linarith
    then have "c * 32768 div (d * 2 + c) < 10923" by (rule mult_right_less_imp_less) (use assms in simp)
    then show ?thesis by simp
  qed
  moreover have "0 \<le> c * 32768 div (d * 2 + c)" using assms by (intro pos_imp_zdiv_nonneg_iff [THEN iffD2]) auto
  ultimately show ?thesis using assms
    by (auto simp: long_term_gains_def DIV32_def ADD32_def SUB16_def s32_idI s16_idI Let_def)
qed
theorem long_term_gains_sum_witness:
  "case long_term_gains 9000 9000 20000 20000 of (g0, g1) \<Rightarrow>
     0 \<le> g1 \<and> g1 \<le> 10923 \<and> 32767 \<le> g0 + g1 \<and> g0 + g1 \<le> 32768"
  by (rule long_term_gains_sum) simp_all

end
