(* ===== verification/G729_Decoder.thy ===== *)
theory G729_Decoder
  imports G729_Bitstream G729_PostFilter G729_CNG
begin

text \<open>
  A decoder channel of bcg729 (\<open>decoder.c\<close>): initialisation, and the decoding of a frame with
  all its paths (speech frame, noise frame, erased frame). \<open>bitStream\<close> is an option, \<open>None\<close>
  for NULL. The local array \<open>parameters\<close> is not initialised when a noise frame is passed;
  its content then is the argument \<open>junk\<close>, and the theorems hold for every \<open>junk\<close>. The other
  local arrays are written before they are read. Then the sequence of frames of a call as a
  step relation, with the invariant of the channel.
\<close>

section \<open>Initialisation\<close>

definition previousqLSPInitialValues :: "int list" where
  "previousqLSPInitialValues = [30000, 26000, 21000, 15000, 8000, 0, -8000, -15000, -21000, -26000]"

text \<open>The context after \<open>memset\<close> to zero, with the comfort noise context.\<close>

definition zeroContext :: decoderContext where
  "zeroContext = \<lparr>previousqLSP = replicate NB_LSP_COEFF 0,
     excitationVector = replicate (L_PAST_EXCITATION + L_FRAME) 0,
     boundedAdaptativeCodebookGain = 0, adaptativeCodebookGain = 0, fixedCodebookGain = 0,
     reconstructedSpeech = replicate (NB_LSP_COEFF + L_FRAME) 0,
     pseudoRandomSeed = 0, CNGpseudoRandomSeed = 0, lastqLSF = replicate NB_LSP_COEFF 0,
     previousLCodeWord = replicate MA_MAX_K (replicate NB_LSP_COEFF 0), lastValidL0 = 0,
     previousIntPitchDelay = 0, previousGainPredictionError = replicate 4 0,
     residualSignalBuffer = replicate (MAXIMUM_INT_PITCH_DELAY + L_FRAME) 0,
     scaledResidualSignalBuffer = replicate (MAXIMUM_INT_PITCH_DELAY + L_FRAME) 0,
     longTermFilteredResidualSignalBuffer = replicate (1 + L_SUBFRAME) 0,
     shortTermFilteredResidualSignalBuffer = replicate (NB_LSP_COEFF + L_SUBFRAME) 0,
     previousAdaptativeGain = 0, inputX0 = 0, inputX1 = 0, outputY2 = 0, outputY1 = 0,
     CNGChannelContext = initBcg729CNGChannel, previousFrameIsActiveFlag = 0\<rparr>"

definition initBcg729DecoderChannel :: "decoderContext option" where
  "initBcg729DecoderChannel = do {
     let ctx = zeroContext;
     lsp \<leftarrow> copy_block (previousqLSP ctx) 0 previousqLSPInitialValues 0 NB_LSP_COEFF;
     exc \<leftarrow> zero_block (excitationVector ctx) L_PAST_EXCITATION;
     speech \<leftarrow> zero_block (reconstructedSpeech ctx) NB_LSP_COEFF;
     let ctx = ctx\<lparr>previousqLSP := lsp, excitationVector := exc,
       boundedAdaptativeCodebookGain := BOUNDED_PITCH_GAIN_MIN, pseudoRandomSeed := 21845,
       CNGpseudoRandomSeed := CNG_DTX_RANDOM_SEED_INIT, adaptativeCodebookGain := 0,
       fixedCodebookGain := 0, reconstructedSpeech := speech, previousFrameIsActiveFlag := 1\<rparr>;
     ctx \<leftarrow> initDecodeLSP ctx;
     let ctx = initDecodeGains (initDecodeAdaptativeCodeVector ctx);
     ctx \<leftarrow> initPostFilter ctx;
     Some (initPostProcessing ctx) }"

section \<open>From the excitation to the output samples\<close>

definition synthesize :: "int list \<Rightarrow> int \<Rightarrow> int \<Rightarrow> int \<Rightarrow> decoderContext \<Rightarrow> int list \<Rightarrow>
    (decoderContext \<times> int list) option" where
  "synthesize LP LPCoefficientsIndex intPitchDelay subframeIndex ctx signal = do {
     let base = int NB_LSP_COEFF + subframeIndex;
     speech \<leftarrow> LPSynthesisFilter (excitationVector ctx) (int L_PAST_EXCITATION + subframeIndex)
                LP LPCoefficientsIndex (reconstructedSpeech ctx) base;
     let ctx = ctx\<lparr>reconstructedSpeech := speech\<rparr>;
     (ctx, pf) \<leftarrow> postFilter ctx LP LPCoefficientsIndex speech base intPitchDelay subframeIndex
                  (replicate L_SUBFRAME 0);
     (ctx, pf) \<leftarrow> postProcessing ctx pf;
     signal \<leftarrow> for_up 0 L_SUBFRAME (\<lambda>i signal. do {
        v \<leftarrow> get pf i;
        put signal (subframeIndex + i) v }) signal;
     Some (ctx, signal) }"

text \<open>The end of a frame: the buffers move by one frame.\<close>

definition shift_buffers :: "decoderContext \<Rightarrow> decoderContext option" where
  "shift_buffers ctx = do {
     exc \<leftarrow> copy_block (excitationVector ctx) 0 (excitationVector ctx) L_FRAME L_PAST_EXCITATION;
     speech \<leftarrow> copy_block (reconstructedSpeech ctx) 0 (reconstructedSpeech ctx) L_FRAME NB_LSP_COEFF;
     Some (ctx\<lparr>excitationVector := exc, reconstructedSpeech := speech\<rparr>) }"

section \<open>Noise frames\<close>

definition decode_noise_frame :: "decoderContext \<Rightarrow> int list option \<Rightarrow> int \<Rightarrow> int \<Rightarrow> int list \<Rightarrow>
    (decoderContext \<times> int list) option" where
  "decode_noise_frame ctx bitStream bitStreamLength rfc3389PayloadFlag signal = do {
     (ctx, LP) \<leftarrow> decodeSIDframe ctx bitStream bitStreamLength (replicate (2 * NB_LSP_COEFF) 0)
                   rfc3389PayloadFlag;
     let ctx = ctx\<lparr>previousFrameIsActiveFlag := 0\<rparr>;
     (ctx, signal, _) \<leftarrow> run_loop [0, int L_SUBFRAME] (\<lambda>subframeIndex (ctx, signal, LPCoefficientsIndex). do {
        (ctx, signal) \<leftarrow> synthesize LP LPCoefficientsIndex (s16 (previousIntPitchDelay ctx))
           subframeIndex ctx signal;
        Some (ctx, signal, LPCoefficientsIndex + int NB_LSP_COEFF) }) (ctx, signal, 0);
     ctx \<leftarrow> shift_buffers (ctx\<lparr>boundedAdaptativeCodebookGain := BOUNDED_PITCH_GAIN_MIN\<rparr>);
     Some (ctx, signal) }"

section \<open>Speech frames\<close>

text \<open>On an erased frame the code vector parameters are random.\<close>

definition random_code :: "decoderContext \<Rightarrow> int list \<Rightarrow> int \<Rightarrow> int \<Rightarrow> (decoderContext \<times> int list) option" where
  "random_code ctx parameters parametersIndex frameErasureFlag =
    (if frameErasureFlag \<noteq> 0 then do {
       let s1 = pseudoRandom (pseudoRandomSeed ctx);
       parameters \<leftarrow> put parameters parametersIndex (s1 mod 8192);
       let s2 = pseudoRandom s1;
       parameters \<leftarrow> put parameters (parametersIndex + 1) (s2 mod 16);
       Some (ctx\<lparr>pseudoRandomSeed := s2\<rparr>, parameters) }
     else Some (ctx, parameters))"

definition bound_gain :: "decoderContext \<Rightarrow> decoderContext" where
  "bound_gain ctx = (
     let g = adaptativeCodebookGain ctx;
         g = (if g > BOUNDED_PITCH_GAIN_MAX then BOUNDED_PITCH_GAIN_MAX else g);
         g = (if g < BOUNDED_PITCH_GAIN_MIN then BOUNDED_PITCH_GAIN_MIN else g)
     in ctx\<lparr>boundedAdaptativeCodebookGain := g\<rparr>)"

definition mix_excitation :: "decoderContext \<Rightarrow> int list \<Rightarrow> int \<Rightarrow> decoderContext option" where
  "mix_excitation ctx fixedCodebookVector base = do {
     exc \<leftarrow> for_up 0 L_SUBFRAME (\<lambda>i exc. do {
        e \<leftarrow> get exc (base + i);
        v \<leftarrow> get fixedCodebookVector i;
        put exc (base + i) (s16 (SATURATE (PSHR
          (ADD32 (MULT16_16 e (adaptativeCodebookGain ctx)) (MULT16_16 v (fixedCodebookGain ctx)))
          14) MAXINT16)) }) (excitationVector ctx);
     Some (ctx\<lparr>excitationVector := exc\<rparr>) }"

text \<open>The variables of the subframe loop: context, parameters, their index, pitch delay.\<close>

definition speech_excitation :: "int \<Rightarrow> int \<Rightarrow> int \<Rightarrow> decoderContext \<times> int list \<times> int \<times> int \<Rightarrow>
    (decoderContext \<times> int list \<times> int \<times> int) option" where
  "speech_excitation parityError frameErasureFlag subframeIndex =
   (\<lambda>(ctx, parameters, parametersIndex, intPitchDelay). do {
     let base = int L_PAST_EXCITATION + subframeIndex;
     p \<leftarrow> get parameters parametersIndex;
     (ctx, intPitchDelay) \<leftarrow> decodeAdaptativeCodeVector ctx subframeIndex p parityError
        frameErasureFlag intPitchDelay base;
     let parametersIndex = (if subframeIndex = 0 then parametersIndex + 2 else parametersIndex + 1);
     (ctx, parameters) \<leftarrow> random_code ctx parameters parametersIndex frameErasureFlag;
     signs \<leftarrow> get parameters (parametersIndex + 1);
     positions \<leftarrow> get parameters parametersIndex;
     fixedCodebookVector \<leftarrow> decodeFixedCodeVector signs positions intPitchDelay
        (boundedAdaptativeCodebookGain ctx) (replicate L_SUBFRAME 0);
     let parametersIndex = parametersIndex + 2;
     GA \<leftarrow> get parameters parametersIndex;
     GB \<leftarrow> get parameters (parametersIndex + 1);
     ctx \<leftarrow> decodeGains ctx GA GB fixedCodebookVector frameErasureFlag;
     let parametersIndex = parametersIndex + 2;
     ctx \<leftarrow> mix_excitation (bound_gain ctx) fixedCodebookVector base;
     Some (ctx, parameters, parametersIndex, intPitchDelay) })"

definition speech_subframe :: "int list \<Rightarrow> int \<Rightarrow> int \<Rightarrow> int \<Rightarrow>
    decoderContext \<times> int list \<times> int \<times> int \<times> int list \<times> int \<Rightarrow>
    (decoderContext \<times> int list \<times> int \<times> int \<times> int list \<times> int) option" where
  "speech_subframe LP parityError frameErasureFlag subframeIndex =
   (\<lambda>(ctx, parameters, parametersIndex, intPitchDelay, signal, LPCoefficientsIndex). do {
     (ctx, parameters, parametersIndex, intPitchDelay) \<leftarrow>
        speech_excitation parityError frameErasureFlag subframeIndex
          (ctx, parameters, parametersIndex, intPitchDelay);
     (ctx, signal) \<leftarrow> synthesize LP LPCoefficientsIndex intPitchDelay subframeIndex ctx signal;
     Some (ctx, parameters, parametersIndex, intPitchDelay, signal,
           LPCoefficientsIndex + int NB_LSP_COEFF) })"

definition decode_speech_frame :: "decoderContext \<Rightarrow> int list \<Rightarrow> int \<Rightarrow> int \<Rightarrow> int list \<Rightarrow>
    (decoderContext \<times> int list) option" where
  "decode_speech_frame ctx parameters parityError frameErasureFlag signal = do {
     let ctx = ctx\<lparr>previousFrameIsActiveFlag := 1, CNGpseudoRandomSeed := CNG_DTX_RANDOM_SEED_INIT\<rparr>;
     (ctx, qLSP) \<leftarrow> decodeLSP ctx parameters (replicate NB_LSP_COEFF 0) frameErasureFlag;
     interpolated \<leftarrow> interpolateqLSP (previousqLSP ctx) qLSP (replicate NB_LSP_COEFF 0);
     pq \<leftarrow> for_up 0 NB_LSP_COEFF (\<lambda>i p. do { v \<leftarrow> get qLSP i; put p i v }) (previousqLSP ctx);
     let ctx = ctx\<lparr>previousqLSP := pq\<rparr>;
     LP \<leftarrow> qLSP2LP interpolated (replicate (2 * NB_LSP_COEFF) 0) 0;
     LP \<leftarrow> qLSP2LP qLSP LP (int NB_LSP_COEFF);
     (ctx, _, _, _, signal, _) \<leftarrow> run_loop [0, int L_SUBFRAME]
       (speech_subframe LP parityError frameErasureFlag)
       (ctx, parameters, 4, 0, signal, 0);
     ctx \<leftarrow> shift_buffers ctx;
     Some (ctx, signal) }"

section \<open>A frame\<close>

definition bcg729Decoder :: "param list \<Rightarrow> decoderContext \<Rightarrow> byte list option \<Rightarrow> int \<Rightarrow> int \<Rightarrow> int \<Rightarrow> int \<Rightarrow>
    int list \<Rightarrow> (decoderContext \<times> int list) option" where
  "bcg729Decoder junk ctx bitStream bitStreamLength frameErasureFlag SIDFrameFlag rfc3389PayloadFlag signal = do {
     parameters \<leftarrow> (case bitStream of
         None \<Rightarrow> Some (replicate NB_PARAMETERS 0)
       | Some bs \<Rightarrow> if SIDFrameFlag = 0 then parametersBitStream2Array bs else Some junk);
     let SIDFrameFlag = (if frameErasureFlag \<noteq> 0
         then (if previousFrameIsActiveFlag ctx \<noteq> 0 then 0 else 1) else SIDFrameFlag);
     if SIDFrameFlag = 1
     then decode_noise_frame ctx (map_option (map uint) bitStream) bitStreamLength
            rfc3389PayloadFlag signal
     else do {
       p4 \<leftarrow> get parameters 4;
       p5 \<leftarrow> get parameters 5;
       decode_speech_frame ctx (map uint parameters) (u8 (uint (parityErrorFlag p4 p5)))
         frameErasureFlag signal } }"

section \<open>The invariant of a channel\<close>

definition ctx_ok :: "decoderContext \<Rightarrow> bool" where
  "ctx_ok c \<longleftrightarrow> s16_arr 10 (previousqLSP c) \<and> s16_arr 234 (excitationVector c)
     \<and> 3277 \<le> boundedAdaptativeCodebookGain c \<and> boundedAdaptativeCodebookGain c \<le> 13107
     \<and> is_s16 (adaptativeCodebookGain c) \<and> is_s16 (fixedCodebookGain c)
     \<and> s16_arr 90 (reconstructedSpeech c) \<and> is_u16 (pseudoRandomSeed c) \<and> is_u16 (CNGpseudoRandomSeed c)
     \<and> s16_arr 10 (lastqLSF c) \<and> arr2 is_s16 4 10 (previousLCodeWord c)
     \<and> 0 \<le> lastValidL0 c \<and> lastValidL0 c < 2
     \<and> 19 \<le> previousIntPitchDelay c \<and> previousIntPitchDelay c \<le> 144
     \<and> s16_arr 4 (previousGainPredictionError c)
     \<and> post_filter_bufs c \<and> filter_state 268435456 (post_state c)
     \<and> cng_ok (CNGChannelContext c) \<and> (previousFrameIsActiveFlag c = 0 \<or> previousFrameIsActiveFlag c = 1)"

lemmas ctx_defs = ctx_ok_def post_filter_bufs_def post_state_def

lemma zero_arrs [simp]:
  "s16_arr n (replicate n 0)" "s32_arr n (replicate n 0)"
  by (rule arr_replicate, simp add: is_s16_def is_s32_def)+

lemma previousqLSPInitialValues_arr: "s16_arr 10 previousqLSPInitialValues"
  by (simp add: arr_def previousqLSPInitialValues_def is_s16_def)

lemma cng_ok_init: "cng_ok initBcg729CNGChannel"
  by (simp add: cng_ok_def initBcg729CNGChannel_def SIDqLSPInitialValues_def arr_def is_s16_def)

lemma initBcg729DecoderChannel_ok: "\<exists>c. initBcg729DecoderChannel = Some c \<and> ctx_ok c"
proof -
  note z = zeroContext_def [unfolded sizes]
  obtain lsp where lsp: "copy_block (previousqLSP zeroContext) 0 previousqLSPInitialValues 0 10 = Some lsp"
    "s16_arr 10 lsp"
    using copy_block_ok [of is_s16 10 "previousqLSP zeroContext" 10 previousqLSPInitialValues 0 10 0]
      previousqLSPInitialValues_arr by (auto simp: z)
  obtain e where e: "zero_block (excitationVector zeroContext) 154 = Some e" "s16_arr 234 e"
    using zero_block_ok [of is_s16 234 "excitationVector zeroContext" 154] by (auto simp: z)
  obtain s where s: "zero_block (reconstructedSpeech zeroContext) 10 = Some s" "s16_arr 90 s"
    using zero_block_ok [of is_s16 90 "reconstructedSpeech zeroContext" 10] by (auto simp: z)
  define c1 where "c1 = zeroContext\<lparr>previousqLSP := lsp, excitationVector := e,
       boundedAdaptativeCodebookGain := BOUNDED_PITCH_GAIN_MIN, pseudoRandomSeed := 21845,
       CNGpseudoRandomSeed := CNG_DTX_RANDOM_SEED_INIT, adaptativeCodebookGain := 0,
       fixedCodebookGain := 0, reconstructedSpeech := s, previousFrameIsActiveFlag := 1\<rparr>"
  have c1: "arr2 is_s16 4 10 (previousLCodeWord c1)" "s16_arr 10 (lastqLSF c1)"
    by (simp_all add: c1_def z arr2_def list_all_iff)
  obtain cw l where c2: "initDecodeLSP c1 = Some (c1\<lparr>previousLCodeWord := cw, lastqLSF := l, lastValidL0 := 0\<rparr>)"
    "arr2 is_s16 4 10 cw" "s16_arr 10 l"
    using initDecodeLSP_ok [OF c1] by metis
  define c3 where "c3 = initDecodeGains (initDecodeAdaptativeCodeVector
     (c1\<lparr>previousLCodeWord := cw, lastqLSF := l, lastValidL0 := 0\<rparr>))"
  have bufs: "post_filter_bufs c3"
    by (simp add: post_filter_bufs_def c3_def c1_def z initDecodeGains_def initDecodeAdaptativeCodeVector_def)
  obtain a b c d where c4: "initPostFilter c3 = Some (c3\<lparr>residualSignalBuffer := a,
      scaledResidualSignalBuffer := b, longTermFilteredResidualSignalBuffer := c,
      shortTermFilteredResidualSignalBuffer := d, previousAdaptativeGain := 4096\<rparr>)"
    "s16_arr 223 a" "s16_arr 223 b" "s16_arr 41 c" "s16_arr 50 d"
    using initPostFilter_ok [OF bufs] by blast
  let ?c = "initPostProcessing (c3\<lparr>residualSignalBuffer := a,
      scaledResidualSignalBuffer := b, longTermFilteredResidualSignalBuffer := c,
      shortTermFilteredResidualSignalBuffer := d, previousAdaptativeGain := 4096\<rparr>)"
  have "initBcg729DecoderChannel = Some ?c"
    unfolding initBcg729DecoderChannel_def sizes Let_def lsp(1) e(1) s(1) Option.bind.simps
      c1_def [symmetric] c2(1) c3_def [symmetric] c4(1) ..
  moreover have "s16_arr 4 [-14336, -14336, -14336, -14336]" by (simp add: arr_def is_s16_def)
  then have "ctx_ok ?c"
    using lsp(2) e(2) s(2) c2(2,3) c4(2-5) cng_ok_init
    by (simp add: ctx_defs filter_state_def initPostProcessing_def c3_def initDecodeGains_def
        initDecodeAdaptativeCodeVector_def c1_def z BOUNDED_PITCH_GAIN_MIN_def is_u16_def
        CNG_DTX_RANDOM_SEED_INIT_def is_s16_def)
  ultimately show ?thesis by blast
qed

section \<open>Every frame is decoded safely\<close>

lemma synthesize_ok:
  assumes "ctx_ok ctx" "s16_arr 20 LP" "idx = 0 \<or> idx = 10" "19 \<le> T" "sub = 0 \<or> sub = 40" "s16_arr 80 signal"
  shows "\<exists>c s. synthesize LP idx T sub ctx signal = Some (c, s) \<and> ctx_ok c \<and> s16_arr 80 s"
proof -
  note ok = assms(1) [unfolded ctx_defs]
  obtain sp where sp: "LPSynthesisFilter (excitationVector ctx) (154 + sub) LP idx (reconstructedSpeech ctx) (10 + sub)
      = Some sp" "s16_arr 90 sp"
    using LPSynthesisFilter_ok [of 234 "excitationVector ctx" "154 + sub" 20 LP idx 90 "reconstructedSpeech ctx" "10 + sub"]
      assms(2,3,5) ok by auto
  let ?c1 = "ctx\<lparr>reconstructedSpeech := sp\<rparr>"
  have b: "post_filter_bufs ?c1" "0 \<le> idx" "idx + 10 \<le> int 20" "10 \<le> 10 + sub" "10 + sub + 40 \<le> int 90"
    using ok assms(3,5) by (auto simp: post_filter_bufs_def)
  obtain a b c d g pf where pf: "postFilter ?c1 LP idx sp (10 + sub) T sub (replicate 40 0) =
      Some (?c1\<lparr>residualSignalBuffer := a, scaledResidualSignalBuffer := b,
        longTermFilteredResidualSignalBuffer := c, shortTermFilteredResidualSignalBuffer := d,
        previousAdaptativeGain := g\<rparr>, pf)"
    "s16_arr 223 a" "s16_arr 223 b" "s16_arr 41 c" "s16_arr 50 d" "is_s16 g" "s16_arr 40 pf"
    using postFilter_ok [OF b(1) assms(2) b(2,3) sp(2) b(4,5) assms(4,5) zero_arrs(1)] by blast
  let ?c2 = "?c1\<lparr>residualSignalBuffer := a, scaledResidualSignalBuffer := b,
        longTermFilteredResidualSignalBuffer := c, shortTermFilteredResidualSignalBuffer := d,
        previousAdaptativeGain := g\<rparr>"
  have "filter_state 268435456 (post_state ?c2)" using ok by (simp add: post_state_def)
  then obtain x0 x1 y2 y1 out where pp: "postProcessing ?c2 pf
      = Some (?c2\<lparr>inputX0 := x0, inputX1 := x1, outputY2 := y2, outputY1 := y1\<rparr>, out)"
    "filter_state 268435456 (x0, x1, y2, y1)" "s16_arr 40 out"
    using postProcessing_exact [OF _ pf(7)] by blast
  have "\<exists>s. for_up 0 40 (\<lambda>i signal. do { v \<leftarrow> get out i; put signal (sub + i) v }) signal = Some s \<and> s16_arr 80 s"
    by (rule for_up_inv) (use assms(5,6) pp(3) in \<open>auto intro!: arr_update s16_nth\<close>)
  then obtain s where s: "for_up 0 40 (\<lambda>i signal. do { v \<leftarrow> get out i; put signal (sub + i) v }) signal = Some s"
    "s16_arr 80 s" by blast
  have "synthesize LP idx T sub ctx signal
      = Some (?c2\<lparr>inputX0 := x0, inputX1 := x1, outputY2 := y2, outputY1 := y1\<rparr>, s)"
    unfolding synthesize_def sizes Let_def of_nat_numeral sp(1) Option.bind.simps pf(1) prod.case pp(1) s(1) ..
  moreover have "ctx_ok (?c2\<lparr>inputX0 := x0, inputX1 := x1, outputY2 := y2, outputY1 := y1\<rparr>)"
    using ok sp(2) pf(2-6) pp(2) by (simp add: ctx_defs)
  ultimately show ?thesis using s(2) by blast
qed

lemma shift_buffers_ok:
  assumes "ctx_ok ctx"
  shows "\<exists>c. shift_buffers ctx = Some c \<and> ctx_ok c"
proof -
  note ok = assms [unfolded ctx_defs]
  obtain e where e: "copy_block (excitationVector ctx) 0 (excitationVector ctx) 80 154 = Some e" "s16_arr 234 e"
    using copy_block_ok [of is_s16 234 "excitationVector ctx" 234 "excitationVector ctx" 80 154 0] ok by auto
  obtain s where s: "copy_block (reconstructedSpeech ctx) 0 (reconstructedSpeech ctx) 80 10 = Some s" "s16_arr 90 s"
    using copy_block_ok [of is_s16 90 "reconstructedSpeech ctx" 90 "reconstructedSpeech ctx" 80 10 0] ok by auto
  have "shift_buffers ctx = Some (ctx\<lparr>excitationVector := e, reconstructedSpeech := s\<rparr>)"
    unfolding shift_buffers_def sizes e(1) s(1) Option.bind.simps ..
  then show ?thesis using ok e(2) s(2) by (simp add: ctx_defs)
qed

lemma decode_noise_frame_ok:
  assumes "ctx_ok ctx" "sid_payload_ok bs n rfc" "s16_arr 80 signal"
  shows "\<exists>c s. decode_noise_frame ctx bs n rfc signal = Some (c, s) \<and> ctx_ok c \<and> s16_arr 80 s"
proof -
  note ok = assms(1) [unfolded ctx_defs]
  obtain cn cw pq seed e LP where d: "decodeSIDframe ctx bs n (replicate 20 0) rfc = Some (ctx\<lparr>CNGChannelContext := cn,
       previousLCodeWord := cw, previousqLSP := pq, CNGpseudoRandomSeed := seed, excitationVector := e\<rparr>, LP)"
    "cng_ok cn" "arr2 is_s16 4 10 cw" "s16_arr 10 pq" "is_u16 seed" "s16_arr 234 e" "s16_arr 20 LP"
    using decodeSIDframe_ok [of ctx "replicate 20 0" bs n rfc] ok assms(2) by (metis zero_arrs(1))
  define c1 where "c1 = ctx\<lparr>CNGChannelContext := cn, previousLCodeWord := cw, previousqLSP := pq,
     CNGpseudoRandomSeed := seed, excitationVector := e, previousFrameIsActiveFlag := 0\<rparr>"
  have p1: "previousIntPitchDelay c1 = previousIntPitchDelay ctx" by (simp add: c1_def)
  have c1: "ctx_ok c1" unfolding c1_def using ok d by (simp add: ctx_defs)
  have T: "19 \<le> s16 (previousIntPitchDelay c)" if "ctx_ok c" for c
    using that by (simp add: ctx_ok_def s16_idI)
  obtain c2 s2 where 2: "synthesize LP 0 (s16 (previousIntPitchDelay c1)) 0 c1 signal = Some (c2, s2)"
    "ctx_ok c2" "s16_arr 80 s2"
    using synthesize_ok [OF c1 d(7) _ T [OF c1] _ assms(3), of 0 0] by auto
  obtain c3 s3 where 3: "synthesize LP 10 (s16 (previousIntPitchDelay c2)) 40 c2 s2 = Some (c3, s3)"
    "ctx_ok c3" "s16_arr 80 s3"
    using synthesize_ok [OF 2(2) d(7) _ T [OF 2(2)] _ 2(3), of 10 40] by auto
  have "ctx_ok (c3\<lparr>boundedAdaptativeCodebookGain := BOUNDED_PITCH_GAIN_MIN\<rparr>)"
    using 3(2) by (simp add: ctx_defs BOUNDED_PITCH_GAIN_MIN_def)
  then obtain c4 where 4: "shift_buffers (c3\<lparr>boundedAdaptativeCodebookGain := BOUNDED_PITCH_GAIN_MIN\<rparr>) = Some c4"
    "ctx_ok c4" using shift_buffers_ok by blast
  have dd: "decodeSIDframe ctx bs n (replicate (2 * 10) 0) rfc = Some (ctx\<lparr>CNGChannelContext := cn,
       previousLCodeWord := cw, previousqLSP := pq, CNGpseudoRandomSeed := seed, excitationVector := e\<rparr>, LP)"
    using d(1) by simp
  have "decode_noise_frame ctx bs n rfc signal = Some (c4, s3)"
    unfolding decode_noise_frame_def sizes dd Let_def
    using 2(1) [unfolded p1] 3(1) 4(1) by (simp add: c1_def [symmetric])
  then show ?thesis using 4(2) 3(3) by blast
qed

definition good_parameters :: "int list \<Rightarrow> bool" where
  "good_parameters ps \<longleftrightarrow> length ps = 15 \<and> (\<forall>i<15. 0 \<le> ps ! i \<and> ps ! i < 2 ^ (param_widths ! i))"

lemma good_parameters_of_stream:
  assumes "parametersBitStream2Array bs = Some ps" "length bs = 10"
  shows "good_parameters (map uint ps)"
proof -
  have "length ps = 15" using g729.unpack_total [OF assms(2)] assms(1) by simp
  then show ?thesis using params_bound [OF assms] by (simp add: good_parameters_def)
qed

lemma random_code_ok:
  assumes "ctx_ok ctx" "length ps = 15" "0 \<le> i" "i < 14"
  shows "\<exists>c q. random_code ctx ps i erased = Some (c, q) \<and> ctx_ok c \<and> length q = 15
    \<and> (erased = 0 \<longrightarrow> q = ps)"
proof (cases "erased = 0")
  case True
  then show ?thesis using assms by (simp add: random_code_def)
next
  case False
  define s where "s = pseudoRandom (pseudoRandomSeed ctx)"
  have "random_code ctx ps i erased = Some (ctx\<lparr>pseudoRandomSeed := pseudoRandom s\<rparr>,
      ps[nat i := s mod 8192, nat (i + 1) := pseudoRandom s mod 16])"
    using False assms by (simp add: random_code_def s_def Let_def)
  moreover have "ctx_ok (ctx\<lparr>pseudoRandomSeed := pseudoRandom s\<rparr>)"
    using assms(1) by (simp add: ctx_defs)
  ultimately show ?thesis using assms(2) False by simp
qed

lemma bound_gain_ok: "ctx_ok ctx \<Longrightarrow> ctx_ok (bound_gain ctx)"
  by (simp add: ctx_defs bound_gain_def Let_def BOUNDED_PITCH_GAIN_MAX_def BOUNDED_PITCH_GAIN_MIN_def)

lemma mix_excitation_ok:
  assumes "ctx_ok ctx" "s16_arr 40 v" "0 \<le> base" "base \<le> 194"
  shows "\<exists>c. mix_excitation ctx v base = Some c \<and> ctx_ok c"
proof -
  have e: "s16_arr 234 (excitationVector ctx)" using assms(1) by (simp add: ctx_ok_def)
  have "\<exists>r. for_up 0 40 (\<lambda>i exc. do {
        e \<leftarrow> get exc (base + i);
        v \<leftarrow> get v i;
        put exc (base + i) (s16 (SATURATE (PSHR
          (ADD32 (MULT16_16 e (adaptativeCodebookGain ctx)) (MULT16_16 v (fixedCodebookGain ctx)))
          14) MAXINT16)) }) (excitationVector ctx) = Some r \<and> s16_arr 234 r"
    by (rule map_cells_ok [OF e assms(3,4)]) (use assms(2) in auto)
  then obtain r where r: "for_up 0 40 (\<lambda>i exc. do {
        e \<leftarrow> get exc (base + i);
        v \<leftarrow> get v i;
        put exc (base + i) (s16 (SATURATE (PSHR
          (ADD32 (MULT16_16 e (adaptativeCodebookGain ctx)) (MULT16_16 v (fixedCodebookGain ctx)))
          14) MAXINT16)) }) (excitationVector ctx) = Some r" "s16_arr 234 r" by blast
  have "mix_excitation ctx v base = Some (ctx\<lparr>excitationVector := r\<rparr>)"
    unfolding mix_excitation_def L_SUBFRAME_def r(1) Option.bind.simps ..
  then show ?thesis using assms(1) r(2) by (simp add: ctx_defs)
qed

text \<open>The index of the first parameter of a subframe, and the range of its pitch parameter.\<close>

lemma speech_excitation_ok:
  assumes "ctx_ok ctx" "length ps = 15" "erased = 0 \<Longrightarrow> good_parameters ps"
    "sub = 0 \<and> pidx = 4 \<and> n = 10 \<or> sub = 40 \<and> pidx = 10 \<and> n = 15" "sub \<noteq> 0 \<Longrightarrow> 19 \<le> T \<and> T \<le> 144"
  shows "\<exists>c q T'. speech_excitation parity erased sub (ctx, ps, pidx, T)
      = Some (c, q, n, T')
    \<and> ctx_ok c \<and> length q = 15 \<and> (erased = 0 \<longrightarrow> q = ps) \<and> 19 \<le> T' \<and> T' \<le> 144"
proof -
  note ok = assms(1) [unfolded ctx_defs]
  define k where "k = (if sub = 0 then pidx + 2 else pidx + 1)"
  have k: "0 \<le> k" "k + 3 < 15" "n = k + 2 + 2" using assms(4) by (auto simp: k_def)
  have k4: "k < 14" using k(2) by simp
  have p: "get ps pidx = Some (ps ! nat pidx)" using assms(2,4) by auto
  have b: "154 \<le> 154 + sub" "154 + sub \<le> 194" "0 \<le> 154 + sub" using assms(4) by auto
  have w: "0 \<le> ps ! i \<and> ps ! i < 2 ^ (param_widths ! i)" if "i < 15" "erased = 0" for i
    using assms(3) [OF that(2)] that(1) by (simp add: good_parameters_def)
  have p0: "erased = 0 \<Longrightarrow> 0 \<le> ps ! nat pidx" "erased = 0 \<Longrightarrow> ps ! nat pidx \<le> (if sub = 0 then 255 else 31)"
    using w [of "nat pidx"] assms(4) by (auto simp: param_widths_def)
  obtain e d T' where a: "decodeAdaptativeCodeVector ctx sub (ps ! nat pidx) parity erased T (154 + sub)
      = Some (ctx\<lparr>previousIntPitchDelay := d, excitationVector := e\<rparr>, T')"
    "s16_arr 234 e" "19 \<le> d" "d \<le> 144" "19 \<le> T'" "T' \<le> 144"
    using decodeAdaptativeCodeVector_ok [OF _ _ _ p0 assms(5) b(1,2)] ok by blast
  define c1 where "c1 = ctx\<lparr>previousIntPitchDelay := d, excitationVector := e\<rparr>"
  have c1: "ctx_ok c1" unfolding c1_def using ok a(2-4) by (simp add: ctx_defs)
  obtain c2 q where r: "random_code c1 ps k erased = Some (c2, q)" "ctx_ok c2" "length q = 15"
    "erased = 0 \<Longrightarrow> q = ps"
    using random_code_ok [OF c1 assms(2) k(1) k4] by blast
  have gq: "get q (k + 1) = Some (q ! nat (k + 1))" "get q k = Some (q ! nat k)"
    "get q (k + 2) = Some (q ! nat (k + 2))" "get q (k + 2 + 1) = Some (q ! nat (k + 2 + 1))"
    using k r(3) by auto
  note ok2 = r(2) [unfolded ctx_defs]
  obtain v where v: "decodeFixedCodeVector (q ! nat (k + 1)) (q ! nat k) T'
      (boundedAdaptativeCodebookGain c2) (replicate 40 0) = Some v"
    "s16_arr 40 v" "0 < energy v 40" "energy v 40 < 2147483648"
    using decodeFixedCodeVector_ok [of "replicate 40 0" T' "boundedAdaptativeCodebookGain c2"] a(5) ok2 by fastforce
  have GA: "erased = 0 \<Longrightarrow> 0 \<le> q ! nat (k + 2)" "erased = 0 \<Longrightarrow> q ! nat (k + 2) < 8"
    "erased = 0 \<Longrightarrow> 0 \<le> q ! nat (k + 2 + 1)" "erased = 0 \<Longrightarrow> q ! nat (k + 2 + 1) < 16"
    using w [of "nat (k + 2)"] w [of "nat (k + 2 + 1)"] r(4) assms(4) by (auto simp: k_def param_widths_def)
  obtain ga gc pe where g: "decodeGains c2 (q ! nat (k + 2)) (q ! nat (k + 2 + 1)) v erased
      = Some (c2\<lparr>adaptativeCodebookGain := ga, fixedCodebookGain := gc, previousGainPredictionError := pe\<rparr>)"
    "is_s16 ga" "is_s16 gc" "s16_arr 4 pe"
    using decodeGains_ok [OF _ v(2-4) GA] ok2 by blast
  define c3 where "c3 = c2\<lparr>adaptativeCodebookGain := ga, fixedCodebookGain := gc, previousGainPredictionError := pe\<rparr>"
  have "ctx_ok c3" unfolding c3_def using ok2 g(2-4) by (simp add: ctx_defs)
  then obtain c4 where m: "mix_excitation (bound_gain c3) v (154 + sub) = Some c4" "ctx_ok c4"
    using mix_excitation_ok [OF bound_gain_ok v(2) b(3,2)] by blast
  have "speech_excitation parity erased sub (ctx, ps, pidx, T) = Some (c4, q, k + 2 + 2, T')"
    unfolding speech_excitation_def prod.case sizes of_nat_numeral Let_def p Option.bind.simps a(1)
      c1_def [symmetric] k_def [symmetric] r(1) gq v(1) g(1) c3_def [symmetric] m(1) ..
  then show ?thesis using m(2) r(3,4) a(5,6) k(3) by auto
qed

lemma decode_speech_frame_ok:
  assumes "ctx_ok ctx" "length ps = 15" "erased = 0 \<Longrightarrow> good_parameters ps" "s16_arr 80 signal"
  shows "\<exists>c s. decode_speech_frame ctx ps parity erased signal = Some (c, s) \<and> ctx_ok c \<and> s16_arr 80 s"
proof -
  note ok = assms(1) [unfolded ctx_defs]
  define c0 where "c0 = ctx\<lparr>previousFrameIsActiveFlag := 1, CNGpseudoRandomSeed := CNG_DTX_RANDOM_SEED_INIT\<rparr>"
  have c0: "ctx_ok c0" unfolding c0_def using ok by (simp add: ctx_defs is_u16_def CNG_DTX_RANDOM_SEED_INIT_def)
  note ok0 = c0 [unfolded ctx_defs]
  have L: "L_ok ps" if "erased = 0"
  proof -
    have "0 \<le> ps ! i \<and> ps ! i < 2 ^ (param_widths ! i)" if "i < 15" for i
      using assms(3) [OF \<open>erased = 0\<close>] that by (simp add: good_parameters_def)
    from this [of 0] this [of 1] this [of 2] this [of 3] show ?thesis
      using assms(2) by (simp add: L_ok_def param_widths_def)
  qed
  obtain cw lsf l0 q where d: "decodeLSP c0 ps (replicate 10 0) erased =
      Some (c0\<lparr>previousLCodeWord := cw, lastqLSF := lsf, lastValidL0 := l0\<rparr>, q)"
    "arr2 is_s16 4 10 cw" "s16_arr 10 lsf" "0 \<le> l0" "l0 < 2" "s16_arr 10 q"
    using decodeLSP_ok [OF _ _ zero_arrs(1) _ _ L] ok0 by blast
  define c1 where "c1 = c0\<lparr>previousLCodeWord := cw, lastqLSF := lsf, lastValidL0 := l0\<rparr>"
  have c1: "ctx_ok c1" unfolding c1_def using ok0 d by (simp add: ctx_defs)
  have pq: "s16_arr 10 (previousqLSP c1)" using c1 by (simp add: ctx_ok_def)
  obtain i where i: "interpolateqLSP (previousqLSP c1) q (replicate 10 0) = Some i" "s16_arr 10 i"
    using interpolateqLSP_ok [OF pq d(6) zero_arrs(1)] by blast
  have cp: "for_up 0 10 (\<lambda>i p. do { v \<leftarrow> get q i; put p i v }) (previousqLSP c1) = Some q"
    using copy_loop [of 10 q "previousqLSP c1"] d(6) pq by (simp add: arr_length)
  define c2 where "c2 = c1\<lparr>previousqLSP := q\<rparr>"
  have c2: "ctx_ok c2" unfolding c2_def using c1 d(6) by (simp add: ctx_defs)
  obtain L1 where L1: "qLSP2LP i (replicate 20 0) 0 = Some L1" "s16_arr 20 L1"
    using qLSP2LP_ok [OF i(2) zero_arrs(1)] by auto
  obtain LP where LP: "qLSP2LP q L1 10 = Some LP" "s16_arr 20 LP" using qLSP2LP_ok [OF d(6) L1(2)] by auto
  obtain c3 q3 T3 where e1: "speech_excitation parity erased 0 (c2, ps, 4, 0) = Some (c3, q3, 10, T3)"
    "ctx_ok c3" "length q3 = 15" "erased = 0 \<longrightarrow> q3 = ps" "19 \<le> T3" "T3 \<le> 144"
    using speech_excitation_ok [OF c2 assms(2,3) disjI1, where sub = 0 and T = 0] by blast
  obtain c4 s4 where s1: "synthesize LP 0 T3 0 c3 signal = Some (c4, s4)" "ctx_ok c4" "s16_arr 80 s4"
    using synthesize_ok [OF e1(2) LP(2) _ e1(5) _ assms(4), of 0 0] by auto
  have gp: "erased = 0 \<Longrightarrow> good_parameters q3" using e1(4) assms(3) by simp
  obtain c5 q5 T5 where e2: "speech_excitation parity erased 40 (c4, q3, 10, T3) = Some (c5, q5, 15, T5)"
    "ctx_ok c5" "19 \<le> T5"
    using speech_excitation_ok [OF s1(2) e1(3) gp disjI2, where sub = 40 and T = T3] e1(5,6) by blast
  obtain c6 s6 where s2: "synthesize LP 10 T5 40 c5 s4 = Some (c6, s6)" "ctx_ok c6" "s16_arr 80 s6"
    using synthesize_ok [OF e2(2) LP(2) _ e2(3) _ s1(3), of 10 40] by auto
  obtain c7 where sh: "shift_buffers c6 = Some c7" "ctx_ok c7" using shift_buffers_ok [OF s2(2)] by blast
  have LP20: "qLSP2LP i (replicate (2 * 10) 0) 0 = Some L1" using L1(1) by simp
  have "decode_speech_frame ctx ps parity erased signal = Some (c7, s6)"
    unfolding decode_speech_frame_def sizes c0_def [symmetric] Let_def d(1) Option.bind.simps prod.case
      c1_def [symmetric] i(1) cp c2_def [symmetric] LP20 of_nat_numeral LP(1)
      run_loop.simps speech_subframe_def e1(1) s1(1) add_0 e2(1) s2(1) sh(1) ..
  then show ?thesis using sh(2) s2(3) by blast
qed

section \<open>Frames and channels\<close>

text \<open>The arguments of a call that do not depend on the channel. A call is valid when the flag
  is 0 or 1, the length is that of the stream, a speech frame has 10 bytes and a stream that
  may be read as a noise frame holds at least the bytes of its format.\<close>

record frame =
  fr_stream :: "byte list option"
  fr_len :: int
  fr_erased :: int
  fr_sid :: int
  fr_rfc3389 :: int

definition decode_frame :: "param list \<Rightarrow> decoderContext \<Rightarrow> frame \<Rightarrow> int list \<Rightarrow>
    (decoderContext \<times> int list) option" where
  "decode_frame junk ctx f signal = bcg729Decoder junk ctx (fr_stream f) (fr_len f) (fr_erased f)
     (fr_sid f) (fr_rfc3389 f) signal"

definition valid_frame :: "frame \<Rightarrow> bool" where
  "valid_frame f \<longleftrightarrow> (fr_sid f = 0 \<or> fr_sid f = 1)
     \<and> sid_payload_ok (map_option (map uint) (fr_stream f)) (fr_len f) (fr_rfc3389 f)
     \<and> (fr_sid f = 0 \<longrightarrow> fr_stream f = None \<or> fr_len f = 10)"

lemma decode_frame_safe:
  assumes "ctx_ok ctx" "valid_frame f" "length junk = 15" "s16_arr 80 signal"
  shows "\<exists>c s. decode_frame junk ctx f signal = Some (c, s) \<and> ctx_ok c \<and> s16_arr 80 s"
proof -
  define bs where "bs = fr_stream f"
  define sid where "sid = (if fr_erased f \<noteq> 0 then (if previousFrameIsActiveFlag ctx \<noteq> 0 then 0 else 1) else fr_sid f)"
  have sid: "fr_sid f = 0 \<or> fr_sid f = 1" and pay: "sid_payload_ok (map_option (map uint) bs) (fr_len f) (fr_rfc3389 f)"
    using assms(2) by (auto simp: valid_frame_def bs_def)
  have ten: "length b = 10" if "bs = Some b" "fr_sid f = 0" for b
    using assms(2) that by (auto simp: valid_frame_def bs_def sid_payload_ok_def)
  obtain ps where ps: "(case bs of None \<Rightarrow> Some (replicate 15 0)
       | Some b \<Rightarrow> if fr_sid f = 0 then parametersBitStream2Array b else Some junk) = Some ps"
    "length ps = 15" "fr_sid f = 0 \<or> bs = None \<Longrightarrow> good_parameters (map uint ps)"
  proof (cases bs)
    case None
    have "good_parameters (map uint (replicate 15 (0 :: param)))"
      by (simp add: good_parameters_def)
    then show thesis using that [of "replicate 15 0"] None by simp
  next
    case (Some b)
    show thesis
    proof (cases "fr_sid f = 0")
      case True
      obtain q where q: "parametersBitStream2Array b = Some q" "length q = 15"
        using g729.unpack_total [OF ten [OF Some True]] by blast
      show thesis using that [OF _ q(2)] good_parameters_of_stream [OF q(1) ten [OF Some True]] Some True q(1) by simp
    next
      case False
      then show thesis using that [of junk] Some assms(3) by simp
    qed
  qed
  have eq: "decode_frame junk ctx f signal = (if sid = 1
      then decode_noise_frame ctx (map_option (map uint) bs) (fr_len f) (fr_rfc3389 f) signal
      else decode_speech_frame ctx (map uint ps) (u8 (uint (parityErrorFlag (ps ! 4) (ps ! 5)))) (fr_erased f) signal)"
    unfolding decode_frame_def bcg729Decoder_def NB_PARAMETERS_def bs_def [symmetric] ps(1) Option.bind.simps
      Let_def sid_def [symmetric] using ps(2) by simp
  show ?thesis
  proof (cases "sid = 1")
    case True
    then show ?thesis using decode_noise_frame_ok [OF assms(1) pay assms(4)] eq by simp
  next
    case False
    have "good_parameters (map uint ps)" if "fr_erased f = 0"
      using that False sid ps(3) by (auto simp: sid_def)
    then show ?thesis
      using decode_speech_frame_ok [OF assms(1) _ _ assms(4), of "map uint ps"] ps(2) eq False by simp
  qed
qed

text \<open>The states a channel reaches: from the initial one, by decoding valid frames.\<close>

inductive channel_step :: "decoderContext \<Rightarrow> decoderContext \<Rightarrow> bool" where
  decode: "valid_frame f \<Longrightarrow> length junk = 15 \<Longrightarrow> s16_arr 80 signal \<Longrightarrow>
    decode_frame junk c f signal = Some (c', s) \<Longrightarrow> channel_step c c'"

inductive channel :: "decoderContext \<Rightarrow> bool" where
  init: "initBcg729DecoderChannel = Some c \<Longrightarrow> channel c"
| step: "channel c \<Longrightarrow> channel_step c c' \<Longrightarrow> channel c'"

inductive_cases channel_stepE: "channel_step c c'"

lemma channel_step_ok: "channel_step c c' \<Longrightarrow> ctx_ok c \<Longrightarrow> ctx_ok c'"
  by (erule channel_stepE) (use decode_frame_safe in fastforce)

lemma channel_ok: "channel c \<Longrightarrow> ctx_ok c"
proof (induction rule: channel.induct)
  case (init c)
  then show ?case using initBcg729DecoderChannel_ok by (metis option.inject)
next
  case (step c c')
  then show ?case using channel_step_ok by blast
qed

section \<open>Uninitialised parameters have no effect\<close>

text \<open>On an erased frame nothing but the length of the parameter array matters.\<close>

definition erased_excitation :: "int \<Rightarrow> int \<Rightarrow> decoderContext \<Rightarrow> int \<Rightarrow> (decoderContext \<times> int) option" where
  "erased_excitation erased sub ctx T = do {
     let base = int L_PAST_EXCITATION + sub;
     (ctx, T) \<leftarrow> decodeAdaptativeCodeVector ctx sub 0 0 erased T base;
     let s1 = pseudoRandom (pseudoRandomSeed ctx);
     let s2 = pseudoRandom s1;
     let ctx = ctx\<lparr>pseudoRandomSeed := s2\<rparr>;
     v \<leftarrow> decodeFixedCodeVector (s2 mod 16) (s1 mod 8192) T
        (boundedAdaptativeCodebookGain ctx) (replicate L_SUBFRAME 0);
     ctx \<leftarrow> decodeGains ctx 0 0 v erased;
     ctx \<leftarrow> mix_excitation (bound_gain ctx) v base;
     Some (ctx, T) }"

lemma erased_pitch:
  assumes "erased \<noteq> 0"
  shows "decodeAdaptativeCodeVector ctx sub p parity erased T base
    = decodeAdaptativeCodeVector ctx sub 0 0 erased T base"
proof -
  have "parity OR erased \<noteq> 0" "0 OR erased \<noteq> 0" using assms by (auto simp: or_eq_0_iff)
  then show ?thesis using assms by (simp add: decodeAdaptativeCodeVector_def decodePitchDelay_def)
qed

lemma erased_gains: "erased \<noteq> 0 \<Longrightarrow> decodeGains ctx GA GB v erased = decodeGains ctx 0 0 v erased"
  by (simp add: decodeGains_def)

lemma speech_excitation_erased:
  assumes "erased \<noteq> 0" "length ps = 15" "length qs = 15" "0 \<le> i" "i \<le> 10" "n = (if sub = 0 then i + 6 else i + 5)" "n \<le> 15"
    "speech_excitation parity erased sub (ctx, ps, i, T) = Some (c, ps', m, T')"
  shows "length ps' = 15 \<and> m = n
    \<and> (\<exists>qs'. speech_excitation parity' erased sub (ctx, qs, i, T) = Some (c, qs', m, T') \<and> length qs' = 15)"
proof -
  have main: "\<exists>xs'. length xs' = 15 \<and> speech_excitation par erased sub (ctx, xs, i, T)
      = Option.bind (erased_excitation erased sub ctx T) (\<lambda>(c, T'). Some (c, xs', n, T'))
      \<or> speech_excitation par erased sub (ctx, xs, i, T) = None \<and> erased_excitation erased sub ctx T = None"
    if x: "length xs = 15" for xs :: "int list" and par
  proof -
    define k where "k = (if sub = 0 then i + 2 else i + 1)"
    have k: "0 \<le> k" "k + 3 < 15" "n = k + 2 + 2" using assms(4-7) by (auto simp: k_def split: if_splits)
    have p: "get xs i = Some (xs ! nat i)" using x assms(4,5) by simp
    show ?thesis
    proof (cases "decodeAdaptativeCodeVector ctx sub 0 0 erased T (154 + sub)")
      case None
      then have "speech_excitation par erased sub (ctx, xs, i, T) = None"
        unfolding speech_excitation_def prod.case sizes of_nat_numeral Let_def p Option.bind.simps
          erased_pitch [OF assms(1), of ctx sub "xs ! nat i" par] by simp
      moreover have "erased_excitation erased sub ctx T = None"
        unfolding erased_excitation_def sizes of_nat_numeral Let_def None by simp
      ultimately show ?thesis by blast
    next
      case (Some ct)
      obtain c1 t where ct: "ct = (c1, t)" by fastforce
      define s1 where "s1 = pseudoRandom (pseudoRandomSeed c1)"
      define s2 where "s2 = pseudoRandom s1"
      define xs' where "xs' = xs[nat k := s1 mod 8192, nat (k + 1) := s2 mod 16]"
      have x': "length xs' = 15" by (simp add: xs'_def x)
      have r: "random_code c1 xs k erased = Some (c1\<lparr>pseudoRandomSeed := s2\<rparr>, xs')"
        unfolding random_code_def if_P [OF assms(1)] s1_def [symmetric] Let_def s2_def [symmetric]
        using x k by (simp add: xs'_def)
      have ne: "nat (k + 1) \<noteq> nat k" using k by simp
      have g: "get xs' (k + 1) = Some (s2 mod 16)" "get xs' k = Some (s1 mod 8192)"
        "get xs' (k + 2) = Some (xs' ! nat (k + 2))" "get xs' (k + 2 + 1) = Some (xs' ! nat (k + 2 + 1))"
        using x k ne by (simp_all add: xs'_def)
      have "speech_excitation par erased sub (ctx, xs, i, T)
          = Option.bind (erased_excitation erased sub ctx T) (\<lambda>(c, T'). Some (c, xs', n, T'))"
        unfolding speech_excitation_def erased_excitation_def prod.case sizes of_nat_numeral Let_def p
          Option.bind.simps erased_pitch [OF assms(1), of ctx sub "xs ! nat i" par] Some ct
          k_def [symmetric] r g erased_gains [OF assms(1), of _ "xs' ! nat (k + 2)"]
          s1_def [symmetric] s2_def [symmetric] k(3)
        by (simp add: Option.bind_assoc)
      then show ?thesis using x' by blast
    qed
  qed
  from main [OF assms(2), of parity] assms(8) obtain ps'' where
    "length ps'' = 15" "Option.bind (erased_excitation erased sub ctx T) (\<lambda>(c, T'). Some (c, ps'', n, T')) = Some (c, ps', m, T')"
    by auto
  then have e: "erased_excitation erased sub ctx T = Some (c, T')" "length ps' = 15" "m = n"
    by (auto elim!: bind_SomeE split: prod.splits)
  with main [OF assms(3), of parity'] show ?thesis by auto
qed

lemma decodeLSP_erased: "e \<noteq> 0 \<Longrightarrow> decodeLSP ctx L q e = decodeLSP ctx L' q e"
  by (simp add: decodeLSP_def)

lemma speech_subframe_erased:
  assumes "erased \<noteq> 0" "length ps = 15" "length qs = 15" "0 \<le> i" "i \<le> 10"
    "n = (if sub = 0 then i + 6 else i + 5)" "n \<le> 15"
    "speech_subframe LP parity erased sub (ctx, ps, i, T, signal, l) = Some r"
  shows "\<exists>c ps' T' s l' qs'. r = (c, ps', n, T', s, l') \<and> length ps' = 15
    \<and> speech_subframe LP parity' erased sub (ctx, qs, i, T, signal, l) = Some (c, qs', n, T', s, l')
    \<and> length qs' = 15"
proof -
  obtain c1 ps' m T' where 1: "speech_excitation parity erased sub (ctx, ps, i, T) = Some (c1, ps', m, T')"
    and 2: "Option.bind (synthesize LP l T' sub c1 signal)
      (\<lambda>(c, s). Some (c, ps', m, T', s, l + int NB_LSP_COEFF)) = Some r"
    using assms(8) unfolding speech_subframe_def prod.case by (rule bind_SomeE4)
  obtain qs' where q: "length ps' = 15" "m = n" "length qs' = 15"
    "speech_excitation parity' erased sub (ctx, qs, i, T) = Some (c1, qs', m, T')"
    using speech_excitation_erased [OF assms(1-7) 1] by blast
  obtain c s where 3: "synthesize LP l T' sub c1 signal = Some (c, s)"
    and r: "Some (c, ps', m, T', s, l + int NB_LSP_COEFF) = Some r"
    using 2 by (rule bind_SomeE2)
  have "r = (c, ps', n, T', s, l + int NB_LSP_COEFF)" using r q(2) by simp
  moreover have "speech_subframe LP parity' erased sub (ctx, qs, i, T, signal, l)
      = Some (c, qs', n, T', s, l + int NB_LSP_COEFF)"
    using q(4) 3 by (simp add: speech_subframe_def q(2))
  ultimately show ?thesis using q(1,3) by blast
qed

lemma speech_loop_erased:
  assumes "erased \<noteq> 0" "length ps = 15" "length qs = 15"
    "run_loop [0, 40] (speech_subframe LP parity erased) (ctx, ps, 4, T, signal, l) = Some (c, ps', n, T', s, l')"
  shows "\<exists>qs'. run_loop [0, 40] (speech_subframe LP parity' erased) (ctx, qs, 4, T, signal, l)
    = Some (c, qs', n, T', s, l')"
proof -
  obtain r where 1: "speech_subframe LP parity erased 0 (ctx, ps, 4, T, signal, l) = Some r"
    and 2: "run_loop [40] (speech_subframe LP parity erased) r = Some (c, ps', n, T', s, l')"
    using assms(4) unfolding run_loop.simps(2) [of 0 "[40]"] by (rule bind_SomeE)
  obtain c1 p1 T1 s1 l1 q1 where r: "r = (c1, p1, 10, T1, s1, l1)" "length p1 = 15" "length q1 = 15"
    "speech_subframe LP parity' erased 0 (ctx, qs, 4, T, signal, l) = Some (c1, q1, 10, T1, s1, l1)"
    using speech_subframe_erased [OF assms(1-3) _ _ _ _ 1, of 10 parity'] by fastforce
  have "speech_subframe LP parity erased 40 (c1, p1, 10, T1, s1, l1) = Some (c, ps', n, T', s, l')"
    using 2 by (cases "speech_subframe LP parity erased 40 (c1, p1, 10, T1, s1, l1)") (simp_all add: r(1))
  then obtain q2 where "speech_subframe LP parity' erased 40 (c1, q1, 10, T1, s1, l1) = Some (c, q2, n, T', s, l')"
    using speech_subframe_erased [OF assms(1) r(2,3), of 10 15 40 LP parity c1 T1 s1 l1 _ parity'] by fastforce
  then show ?thesis using r(4) by simp
qed

lemma decode_speech_frame_erased:
  assumes "erased \<noteq> 0" "length ps = 15" "length qs = 15"
    "decode_speech_frame ctx ps parity erased signal = Some r"
  shows "decode_speech_frame ctx qs parity' erased signal = Some r"
proof -
  define c0 where "c0 = ctx\<lparr>previousFrameIsActiveFlag := 1, CNGpseudoRandomSeed := CNG_DTX_RANDOM_SEED_INIT\<rparr>"
  define tail where "tail c xs par LP = Option.bind (run_loop [0, 40] (speech_subframe LP par erased)
       (c, xs, 4, 0, signal, 0))
     (\<lambda>(ctx, _, _, _, signal, _). Option.bind (shift_buffers ctx) (\<lambda>ctx. Some (ctx, signal)))"
    for c :: decoderContext and xs :: "int list" and par and LP
  have tail: "tail c qs parity' LP = Some r" if t: "tail c ps parity LP = Some r" for c LP
  proof (cases "run_loop [0, 40] (speech_subframe LP parity erased) (c, ps, 4, 0, signal, 0)")
    case None
    then show ?thesis using t unfolding tail_def by simp
  next
    case (Some x)
    obtain c' ps' n T' s l' where x: "x = (c', ps', n, T', s, l')" by (cases x)
    obtain qs' where "run_loop [0, 40] (speech_subframe LP parity' erased) (c, qs, 4, 0, signal, 0)
        = Some (c', qs', n, T', s, l')"
      using speech_loop_erased [OF assms(1-3)] Some x by blast
    then show ?thesis using t unfolding tail_def Some x by (simp only: Option.bind.simps prod.case)
  qed
  have body: "decode_speech_frame ctx xs par erased signal = do {
     (ctx, qLSP) \<leftarrow> decodeLSP c0 [] (replicate NB_LSP_COEFF 0) erased;
     interpolated \<leftarrow> interpolateqLSP (previousqLSP ctx) qLSP (replicate NB_LSP_COEFF 0);
     pq \<leftarrow> for_up 0 NB_LSP_COEFF (\<lambda>i p. do { v \<leftarrow> get qLSP i; put p i v }) (previousqLSP ctx);
     LP \<leftarrow> qLSP2LP interpolated (replicate (2 * NB_LSP_COEFF) 0) 0;
     LP \<leftarrow> qLSP2LP qLSP LP (int NB_LSP_COEFF);
     tail (ctx\<lparr>previousqLSP := pq\<rparr>) xs par LP }" for xs par
    unfolding decode_speech_frame_def c0_def Let_def tail_def L_SUBFRAME_def of_nat_numeral
      decodeLSP_erased [OF assms(1), of _ xs _ "[]"] ..
  show ?thesis
    using assms(4) tail unfolding body by (auto simp: bind_eq_Some_conv split: prod.splits)
qed

lemma decode_frame_junk:
  assumes "fr_sid f = 0 \<or> fr_sid f = 1" "length junk = 15" "length junk' = 15"
    "decode_frame junk ctx f signal = Some r"
  shows "decode_frame junk' ctx f signal = Some r"
proof (cases "(\<exists>bs. fr_stream f = Some bs) \<and> fr_sid f = 1 \<and> fr_erased f \<noteq> 0 \<and> previousFrameIsActiveFlag ctx \<noteq> 0")
  case False
  then have "decode_frame junk' ctx f signal = decode_frame junk ctx f signal"
    using assms(1-3) by (auto simp: decode_frame_def bcg729Decoder_def Let_def get_def split: option.splits if_splits)
  then show ?thesis using assms(4) by simp
next
  case True
  have e: "decode_frame j ctx f signal = decode_speech_frame ctx (map uint j)
      (u8 (uint (parityErrorFlag (j ! 4) (j ! 5)))) (fr_erased f) signal" if "length j = 15" for j
    using True that by (auto simp: decode_frame_def bcg729Decoder_def Let_def)
  show ?thesis
    unfolding e [OF assms(3)]
    by (rule decode_speech_frame_erased [OF _ _ _ assms(4) [unfolded e [OF assms(2)]]])
      (use True assms(2,3) in auto)
qed

section \<open>Properties\<close>



text \<open>(C6) The state of a channel: in every state it reaches, the pitch delay is between 19 and
  144, the gain that sharpens the code vector between 0.2 and 0.8, the buffers have their sizes
  and hold 16 bit values, the stored outputs of the output filter fit 28 bits, the predictor
  switch is 0 or 1.\<close>

theorem channel_invariant:
  assumes "channel c"
  shows "19 \<le> previousIntPitchDelay c \<and> previousIntPitchDelay c \<le> 144
    \<and> 3277 \<le> boundedAdaptativeCodebookGain c \<and> boundedAdaptativeCodebookGain c \<le> 13107
    \<and> s16_arr 234 (excitationVector c) \<and> s16_arr 90 (reconstructedSpeech c)
    \<and> filter_state 268435456 (post_state c) \<and> (lastValidL0 c = 0 \<or> lastValidL0 c = 1)"
  using channel_ok [OF assms] by (auto simp: ctx_ok_def)

theorem channel_invariant_witness:
  "\<exists>c. initBcg729DecoderChannel = Some c \<and> 19 \<le> previousIntPitchDelay c"
proof -
  obtain c where c: "initBcg729DecoderChannel = Some c" using initBcg729DecoderChannel_ok by blast
  with channel_invariant [OF channel.init [OF c]] show ?thesis by blast
qed

text \<open>(C12) The array of parameters that \<open>bcg729Decoder\<close> leaves uninitialised when it is handed a
  stream with the noise flag never influences the result: for any two contents of it, every
  valid frame is decoded to the same samples and the same state.\<close>

theorem decoder_ignores_junk:
  assumes "channel c" "valid_frame f" "length junk = 15" "length junk' = 15" "s16_arr 80 signal"
  shows "decode_frame junk c f signal = decode_frame junk' c f signal"
proof -
  obtain r where r: "decode_frame junk c f signal = Some r"
    using decode_frame_safe [OF channel_ok assms(2,3,5)] assms(1) by blast
  have "fr_sid f = 0 \<or> fr_sid f = 1" using assms(2) by (simp add: valid_frame_def)
  from decode_frame_junk [OF this assms(3,4) r] r show ?thesis by simp
qed

theorem decoder_ignores_junk_witness:
  "\<exists>c. initBcg729DecoderChannel = Some c
    \<and> decode_frame (replicate 15 7) c \<lparr>fr_stream = Some [1, 2], fr_len = 2, fr_erased = 1, fr_sid = 1, fr_rfc3389 = 0\<rparr>
        (replicate 80 0)
      = decode_frame (replicate 15 9) c \<lparr>fr_stream = Some [1, 2], fr_len = 2, fr_erased = 1, fr_sid = 1, fr_rfc3389 = 0\<rparr>
        (replicate 80 0)"
proof -
  obtain c where c: "initBcg729DecoderChannel = Some c" using initBcg729DecoderChannel_ok by blast
  have "valid_frame \<lparr>fr_stream = Some [1, 2], fr_len = 2, fr_erased = 1, fr_sid = 1, fr_rfc3389 = 0\<rparr>"
    by (simp add: valid_frame_def sid_payload_ok_def)
  from decoder_ignores_junk [OF channel.init [OF c] this] show ?thesis
    using c by (metis length_replicate zero_arrs(1))
qed

end
