(* ===== verification/G729_Sync.thy ===== *)
theory G729_Sync
  imports G729_Encoder G729_Decoder
begin

text \<open>
  The two ends of a G.729 channel together: the decoder, given the parameters that the encoder
  chose, keeps the same history of code words, rebuilds the same adaptive code vector and the same
  pitch gain, and keeps the same history of gain prediction errors.
\<close>

section \<open>Adaptive code vector\<close>

text \<open>(C11) The encoder and the decoder have each an implementation of the adaptive code vector,
  with opposite conventions for the fractional delay: for every delay that the search can find they
  compute the same vector, on every excitation.\<close>

theorem adaptive_vector_shared:
  assumes "20 \<le> t" "t \<le> 143" "frac \<in> {-1, 0, 1}"
  shows "generateAdaptativeCodebookVector exc base t frac = computeAdaptativeCodebookVector exc base frac t"
  using generate_eq assms by simp

theorem adaptive_vector_shared_witness:
  "generateAdaptativeCodebookVector (replicate 234 7) 154 60 1 = computeAdaptativeCodebookVector (replicate 234 7) 154 1 60"
  by (rule adaptive_vector_shared) simp_all


section \<open>Prediction of the line spectral frequencies\<close>

lemma ADD32_swap: "ADD32 (ADD32 a b) c = ADD32 (ADD32 a c) b"
proof -
  obtain j k where "s32 (s32 a + s32 b) = s32 a + s32 b + 4294967296 * j"
    "s32 (s32 a + s32 c) = s32 a + s32 c + 4294967296 * k"
    using s32_eq by metis
  moreover have "s32 (x + 4294967296 * m) = s32 x" for x m
    using mod_mult_self1 [of "x + 2147483648" m 4294967296] by (simp add: s32_def algebra_simps)
  ultimately show ?thesis
    unfolding ADD32_def by (smt (verit, best) s32_id is_s32_s32 add.commute add.left_commute)
qed

text \<open>The sum of a prediction, with the four terms in either order.\<close>

definition MA_terms :: "int \<Rightarrow> int list \<Rightarrow> int list \<Rightarrow> int" where
  "MA_terms x m v = MAC16_16 (MAC16_16 (MAC16_16 (MAC16_16 x (m ! 0) (v ! 0)) (m ! 1) (v ! 1)) (m ! 2) (v ! 2)) (m ! 3) (v ! 3)"

lemma MA_terms_rev:
  "MAC16_16 (MAC16_16 (MAC16_16 (MAC16_16 x d d') c c') b b') a a'
    = MAC16_16 (MAC16_16 (MAC16_16 (MAC16_16 x a a') b b') c c') d d'"
  unfolding MAC16_16_def by (metis ADD32_swap)

lemma rows4:
  assumes "arr2 P 4 10 cw"
  obtains a b c d where "cw = [a, b, c, d]" "length a = 10" "length b = 10" "length c = 10" "length d = 10"
proof -
  obtain a b c d where "cw = [a, b, c, d]" using assms by (auto simp: arr2_def length_Suc_conv numeral_eq_Suc)
  with that assms show ?thesis by (auto simp: arr2_def arr_def)
qed

definition predicted_LSF :: "int list list list \<Rightarrow> int list list \<Rightarrow> int \<Rightarrow> int list list \<Rightarrow> int list \<Rightarrow> nat \<Rightarrow> int" where
  "predicted_LSF ma sums l cw q k = s16 (PSHR (MA_terms (MULT16_16 (sums ! nat l ! k) (q ! k))
     (map (\<lambda>j. ma ! nat l ! j ! k) [0..<4]) (map (\<lambda>j. cw ! j ! k) [0..<4])) 15)"

lemma four_up: "map int [0..<4] = [0, 1, 2, 3]" by (simp add: upt_rec)

lemma four_down: "map int (rev [0..<4]) = [3, 2, 1, 0]" by (simp add: upt_rec)

lemma MA_step_eq:
  assumes ma: "arr3 P 2 4 10 ma" and sums: "arr2 Q 2 10 sums" and l: "0 \<le> l" "l < 2"
    and q: "length q = 10" and cw: "cw = [a, b, c, d]" "length a = 10" "length b = 10" "length c = 10" "length d = 10"
    and i: "i < 10"
  shows "MA_step l ma sums (int i) (q, cw) = Some (q[i := predicted_LSF ma sums l cw q i],
    [a[i := q ! i], b[i := a ! i], c[i := b ! i], d[i := c ! i]])"
proof -
  have m: "get3 ma l j (int i) = Some (ma ! nat l ! nat j ! i)" if "0 \<le> j" "j < 4" for j
    using get3_arr [OF ma, of l j "int i"] l that i by simp
  have s: "get2 sums l (int i) = Some (sums ! nat l ! i)" using get2_arr [OF sums, of l "int i"] l i by simp
  have t: "[0..<4] = [0, 1, 2, 3::nat]" by (simp add: upt_rec)
  show ?thesis
    unfolding MA_step_def for_down_def MA_MAX_K_def four_down
    using i q cw(2-5)
    by (simp add: m s [unfolded get2_def] cw(1) get2_def put2_def predicted_LSF_def MA_terms_def t MA_terms_rev)
qed

lemma MA_steps_eq:
  assumes ma: "arr3 P 2 4 10 ma" and sums: "arr2 Q 2 10 sums" and l: "0 \<le> l" "l < 2"
    and q: "length q = 10" and cw: "cw = [a, b, c, d]" "length a = 10" "length b = 10" "length c = 10" "length d = 10"
  shows "for_up 0 10 (MA_step l ma sums) (q, cw) = Some (map (predicted_LSF ma sums l cw q) [0..<10], [q, a, b, c])"
proof -
  let ?R = "\<lambda>i x y z. length z = 10 \<and> (\<forall>k<10. z ! k = (if k < i then x ! k else y ! k))"
  let ?I = "\<lambda>i (p, w). length p = 10 \<and> (\<forall>k<10. p ! k = (if k < i then predicted_LSF ma sums l cw q k else q ! k))
    \<and> (\<exists>A B C D. w = [A, B, C, D] \<and> ?R i q a A \<and> ?R i a b B \<and> ?R i b c C \<and> ?R i c d D)"
  have "\<exists>t. for_up 0 10 (MA_step l ma sums) (q, cw) = Some t \<and> ?I 10 t"
  proof (rule for_up_rule [where P = ?I])
    fix i t assume i: "0 \<le> i" "i < (10::nat)" and t: "?I i t"
    obtain p A B C D where ts: "t = (p, [A, B, C, D])" and p: "length p = 10"
      "\<forall>k<10. p ! k = (if k < i then predicted_LSF ma sums l cw q k else q ! k)"
      and r: "?R i q a A" "?R i a b B" "?R i b c C" "?R i c d D" using t by auto
    have "MA_step l ma sums (int i) t = Some (p[i := predicted_LSF ma sums l [A, B, C, D] p i],
        [A[i := p ! i], B[i := A ! i], C[i := B ! i], D[i := C ! i]])"
      unfolding ts by (rule MA_step_eq [OF ma sums l p(1) refl]) (use r i in auto)
    moreover have "predicted_LSF ma sums l [A, B, C, D] p i = predicted_LSF ma sums l cw q i"
      using r p i by (simp add: predicted_LSF_def cw(1) upt_rec)
    ultimately show "\<exists>u. MA_step l ma sums (int i) t = Some u \<and> ?I (Suc i) u"
      using p r i by (auto simp: less_Suc_eq nth_list_update)
  qed (use q cw in auto)
  then obtain p A B C D where "for_up 0 10 (MA_step l ma sums) (q, cw) = Some (p, [A, B, C, D])" "length p = 10"
    "\<forall>k<10. p ! k = predicted_LSF ma sums l cw q k" "length A = 10" "\<forall>k<10. A ! k = q ! k"
    "length B = 10" "\<forall>k<10. B ! k = a ! k" "length C = 10" "\<forall>k<10. C ! k = b ! k"
    "length D = 10" "\<forall>k<10. D ! k = c ! k" by auto
  moreover from this have "p = map (predicted_LSF ma sums l cw q) [0..<10]" "A = q" "B = a" "C = b" "D = c"
    using q cw by (auto intro!: nth_equalityI)
  ultimately show ?thesis by simp
qed

lemma MA_filter_eq:
  assumes ma: "arr3 P 2 4 10 ma" and sums: "arr2 Q 2 10 sums" and l: "0 \<le> l" "l < 2"
    and q: "length q = 10" and cw: "arr2 R 4 10 cw"
  shows "MA_filter ma sums l cw q = Some (map (predicted_LSF ma sums l cw q) [0..<10])"
proof -
  let ?P = "\<lambda>i p. length p = 10 \<and> (\<forall>k<i. p ! k = predicted_LSF ma sums l cw q k)"
  have "\<exists>p. MA_filter ma sums l cw q = Some p \<and> ?P 10 p"
    unfolding MA_filter_def NB_LSP_COEFF_def MA_MAX_K_def
  proof (rule for_up_rule [where P = ?P])
    fix i p assume i: "0 \<le> i" "i < (10::nat)" and p: "?P i p"
    have m: "get3 ma l j (int i) = Some (ma ! nat l ! nat j ! i)" "get2 cw j (int i) = Some (cw ! nat j ! i)"
      if "0 \<le> j" "j < 4" for j
      using get3_arr [OF ma, of l j "int i"] get2_arr [OF cw, of j "int i"] l that i by auto
    have s: "get2 sums l (int i) = Some (sums ! nat l ! i)" using get2_arr [OF sums, of l "int i"] l i by simp
    have t: "[0..<4] = [0, 1, 2, 3::nat]" by (simp add: upt_rec)
    show "\<exists>r. (do { w \<leftarrow> get2 sums l (int i); c \<leftarrow> get q (int i);
        acc \<leftarrow> for_up 0 4 (\<lambda>j acc. do { m \<leftarrow> get3 ma l j (int i); v \<leftarrow> get2 cw j (int i); Some (MAC16_16 acc m v) })
          (MULT16_16 w c);
        put p (int i) (s16 (PSHR acc 15)) }) = Some r \<and> ?P (Suc i) r"
      using i p q by (auto simp: for_up_def four_up m s predicted_LSF_def MA_terms_def t less_Suc_eq)
  qed auto
  then obtain p where "MA_filter ma sums l cw q = Some p" "?P 10 p" by blast
  moreover from this have "p = map (predicted_LSF ma sums l cw q) [0..<10]" by (auto intro!: nth_equalityI)
  ultimately show ?thesis by simp
qed

lemma push_qLSF_eq:
  assumes "length q = 10" "length a = 10" "length b = 10" "length c = 10" "length d = 10"
  shows "push_qLSF [a, b, c, d] q = Some [q, a, b, c]"
proof -
  have m: "rev (map int [1..<4]) = [3, 2, 1]" by (simp add: upt_rec)
  show ?thesis unfolding push_qLSF_def for_down_def MA_MAX_K_def NB_LSP_COEFF_def m using assms
    by (simp add: copy_block_def get_def put_def)
qed

text \<open>The two stability checks differ in the frequency that they compare with the lower limit.\<close>

lemma stability_agrees:
  assumes "length q = 10" "\<forall>x\<in>set q. qLSF_MIN \<le> x"
  shows "encoder_stability q = qLSF_stability q"
proof -
  have s: "insertionSort q 10 = Some (sort q)" using insertionSort_prefix [of 10 q] assms(1) by simp
  have "qLSF_MIN \<le> sort q ! k" if "k < 10" for k
    using assms that nth_mem [of k "sort q"] by simp
  from this [of 0] this [of 1] show ?thesis
    unfolding encoder_stability_def qLSF_stability_def NB_LSP_COEFF_def s using assms(1) by (simp add: not_less)
qed

text \<open>(C7) The decoder tracks the encoder: when both hold the same history of code words, the
  rows chosen for a frame lead the decoder's \<open>computeqLSF\<close> to the encoder's new history, whatever the
  overflows of the sums (which the two add in opposite orders), so the histories of the two ends
  stay equal over any sequence of frames. The quantised frequencies, and the cosines, are equal too when
  the predicted frequencies are not below the lower limit of the stability check.\<close>

theorem LSF_history_synchronised:
  assumes "arr2 is_s16 4 10 cw" "s16_arr 10 q" "s16_arr 10 p" "0 \<le> l" "l < 2"
    and "quantised_LSP MAPredictor MAPredictorSum l cw q p = Some (cw', lsp)"
  shows "\<exists>lsf. computeqLSF q cw l MAPredictor MAPredictorSum = Some (lsf, cw')
    \<and> ((\<exists>r. cw' ! 0 = r \<and> (\<forall>k<10. qLSF_MIN \<le> predicted_LSF MAPredictor MAPredictorSum l cw r k))
        \<longrightarrow> lsp = map g729Cos_Q13Q15 lsf)"
proof -
  obtain q1 where 1: "rearrangeCoefficients q GAP1 = Some q1" "s16_arr 10 q1"
    using rearrangeCoefficients_s16 assms(2) by blast
  obtain r where 2: "rearrangeCoefficients q1 GAP2 = Some r" "s16_arr 10 r"
    using rearrangeCoefficients_s16 1(2) by blast
  have lr: "length r = 10" using 2(2) by (rule arr_length)
  obtain a b c d where cw: "cw = [a, b, c, d]" "length a = 10" "length b = 10" "length c = 10" "length d = 10"
    using rows4 [OF assms(1)] by blast
  let ?f = "map (predicted_LSF MAPredictor MAPredictorSum l cw r) [0..<10]"
  have f: "s16_arr 10 ?f" by (simp add: arr_def list_all_length predicted_LSF_def)
  have mf: "MA_filter MAPredictor MAPredictorSum l cw r = Some ?f"
    by (rule MA_filter_eq [OF MAPredictor_arr MAPredictorSum_arr assms(4,5) lr assms(1)])
  have pq: "push_qLSF cw r = Some [r, a, b, c]" unfolding cw(1) by (rule push_qLSF_eq [OF lr cw(2-5)])
  have ms: "for_up 0 10 (MA_step l MAPredictor MAPredictorSum) (r, cw) = Some (?f, [r, a, b, c])"
    by (rule MA_steps_eq [OF MAPredictor_arr MAPredictorSum_arr assms(4,5) lr cw])
  obtain e where e: "encoder_stability ?f = Some e" "s16_arr 10 e" using encoder_stability_ok [OF f] by blast
  obtain lsf where s: "qLSF_stability ?f = Some lsf" "s16_arr 10 lsf" using qLSF_stability_ok [OF f] by blast
  have cw': "cw' = [r, a, b, c]" and lsp: "lsp = map g729Cos_Q13Q15 e"
    using assms(6) 1(1) 2(1) mf pq e(1) cosines_ok [OF e(2) arr_length [OF assms(3)]]
    by (simp_all add: quantised_LSP_def NB_LSP_COEFF_def)
  have "computeqLSF q cw l MAPredictor MAPredictorSum = Some (lsf, cw')"
    using 1(1) 2(1) ms s(1) by (simp add: computeqLSF_def NB_LSP_COEFF_def cw')
  moreover have "e = lsf" if "\<forall>k<10. qLSF_MIN \<le> predicted_LSF MAPredictor MAPredictorSum l cw r k"
    using stability_agrees [of ?f] that e(1) s(1) by auto
  ultimately show ?thesis using lsp by (auto simp: cw')
qed

theorem LSF_history_synchronised_witness:
  "\<exists>cw' lsp lsf. quantised_LSP MAPredictor MAPredictorSum 0 (replicate 4 previousqLSFInit) (replicate 10 5000) (replicate 10 0)
      = Some (cw', lsp)
    \<and> computeqLSF (replicate 10 5000) (replicate 4 previousqLSFInit) 0 MAPredictor MAPredictorSum = Some (lsf, cw')"
proof -
  have a: "arr2 is_s16 4 10 (replicate 4 previousqLSFInit)"
    by (simp add: arr2_def list_all_length arr_def previousqLSFInit_def is_s16_def less_Suc_eq numeral_eq_Suc)
  have b: "s16_arr 10 (replicate 10 5000)" "s16_arr 10 (replicate 10 0)" by (simp_all add: is_s16_def)
  obtain cw' lsp where "quantised_LSP MAPredictor MAPredictorSum 0 (replicate 4 previousqLSFInit) (replicate 10 5000)
      (replicate 10 0) = Some (cw', lsp)"
    using quantised_LSP_ok [OF MAPredictor_arr MAPredictorSum_arr _ _ a b, of 0] by auto
  with LSF_history_synchronised [OF a b _ _ this] show ?thesis by auto
qed

section \<open>Gains\<close>

lemma index_mapping_inverse:
  assumes "0 \<le> a" "a < 8" "0 \<le> b" "b < 16"
  shows "Option.bind (get indexMappingGA a) (get reverseIndexMappingGA) = Some a"
    "Option.bind (get indexMappingGB b) (get reverseIndexMappingGB) = Some b"
proof -
  have "\<forall>a\<in>set [0..7]. Option.bind (get indexMappingGA a) (get reverseIndexMappingGA) = Some a" by code_simp
  then show "Option.bind (get indexMappingGA a) (get reverseIndexMappingGA) = Some a" using assms by simp
  have "\<forall>b\<in>set [0..15]. Option.bind (get indexMappingGB b) (get reverseIndexMappingGB) = Some b" by code_simp
  then show "Option.bind (get indexMappingGB b) (get reverseIndexMappingGB) = Some b" using assms by simp
qed

text \<open>The pitch gain kept by the search is that of the entries kept, unless none was.\<close>

definition choice_gains :: "gain_choice \<Rightarrow> bool" where
  "choice_gains st \<longleftrightarrow> gc_distance st = MAXINT64
     \<or> (\<exists>gamma. codebook_gains (gc_GA st) (gc_GB st) = Some (gc_pitch st, gamma))"

lemma search_gains_choice:
  assumes "0 \<le> a" "a \<le> 4" "0 \<le> b" "b \<le> 8"
  shows "\<exists>st. search_gains g pred a b = Some st \<and> choice_ok st \<and> choice_gains st"
  unfolding search_gains_def
proof (rule for_up_inv)
  fix i st assume i: "int 0 \<le> i" "i < int 4" and st: "choice_ok st \<and> choice_gains st"
  show "\<exists>t. for_up 0 8 (\<lambda>j st. try_gains g pred (i + a) (j + b) st) st = Some t \<and> (choice_ok t \<and> choice_gains t)"
  proof (rule for_up_inv [where P = "\<lambda>t. choice_ok t \<and> choice_gains t"])
    fix j s assume j: "int 0 \<le> j" "j < int 8" and s: "choice_ok s \<and> choice_gains s"
    obtain p c where "codebook_gains (i + a) (j + b) = Some (p, c)" "is_s16 p"
      using codebook_gains_ok [of "i + a" "j + b"] i j assms by auto
    with i j s assms show "\<exists>t. try_gains g pred (i + a) (j + b) s = Some t \<and> (choice_ok t \<and> choice_gains t)"
      by (auto simp: try_gains_def choice_ok_def choice_gains_def Let_def)
  qed (rule st)
qed (simp add: choice_ok_def choice_gains_def)

text \<open>(C10) The gains reach the decoder: for the entries kept by the encoder's search, the indexes sent
  after the mapping lead \<open>decodeGains\<close> (with the same history of prediction errors and the same fixed
  code vector) to the quantised pitch gain of the encoder and to the same new history.\<close>

theorem gains_round_trip:
  assumes "0 \<le> a" "a \<le> 4" "0 \<le> b" "b \<le> 8" "s16_arr 4 (previousGainPredictionError ctx)"
    and "s16_arr 40 v" "0 < energy v 40" "energy v 40 < 2147483648"
  shows "\<exists>st GA GB a1 b1 ctx'. search_gains g pred a b = Some st
    \<and> get indexMappingGA (gc_GA st) = Some GA \<and> get indexMappingGB (gc_GB st) = Some GB
    \<and> decodeGains ctx GA GB v 0 = Some ctx'
    \<and> get2 GACodebook (gc_GA st) 1 = Some a1 \<and> get2 GBCodebook (gc_GB st) 1 = Some b1
    \<and> computeGainPredictionError (ADD16 a1 b1) (previousGainPredictionError ctx)
        = Some (previousGainPredictionError ctx')
    \<and> (gc_distance st \<noteq> MAXINT64 \<longrightarrow> adaptativeCodebookGain ctx' = gc_pitch st)"
proof -
  obtain st where st: "search_gains g pred a b = Some st" "choice_ok st" "choice_gains st"
    using search_gains_choice [OF assms(1-4)] by blast
  have r: "0 \<le> gc_GA st" "gc_GA st < 8" "0 \<le> gc_GB st" "gc_GB st < 16" using st(2) by (simp_all add: choice_ok_def)
  obtain GA GB where m: "get indexMappingGA (gc_GA st) = Some GA" "get reverseIndexMappingGA GA = Some (gc_GA st)"
    "get indexMappingGB (gc_GB st) = Some GB" "get reverseIndexMappingGB GB = Some (gc_GB st)"
    using index_mapping_inverse(1) [OF r, unfolded bind_eq_Some_conv] index_mapping_inverse(2) [OF r, unfolded bind_eq_Some_conv]
    by blast
  let ?ga = "\<lambda>k. GACodebook ! nat (gc_GA st) ! k" and ?gb = "\<lambda>k. GBCodebook ! nat (gc_GB st) ! k"
  have c: "get2 GACodebook (gc_GA st) 0 = Some (?ga 0)" "get2 GACodebook (gc_GA st) 1 = Some (?ga 1)"
    "get2 GBCodebook (gc_GB st) 0 = Some (?gb 0)" "get2 GBCodebook (gc_GB st) 1 = Some (?gb 1)"
    using r GACodebook_arr GBCodebook_arr by auto
  obtain pr where pr: "MACodeGainPrediction (previousGainPredictionError ctx) v = Some pr"
    using MACodeGainPrediction_ok [OF assms(5-8)] by blast
  obtain gp gamma where cg: "codebook_gains (gc_GA st) (gc_GB st) = Some (gp, gamma)" "0 < gamma"
    using codebook_gains_ok [OF r] by blast
  then have gp: "gp = ADD16 (?ga 0) (?gb 0)" "gamma = ADD16 (?ga 1) (?gb 1)" by (simp_all add: codebook_gains_def c)
  have "gamma < 2147483648" using s16_less by (simp add: gp(2) ADD16_def)
  then obtain pe where pe: "computeGainPredictionError (ADD16 (?ga 1) (?gb 1)) (previousGainPredictionError ctx) = Some pe"
    using computeGainPredictionError_ok [OF cg(2) _ assms(5)] gp(2) by blast
  define ctx' where "ctx' = ctx\<lparr>adaptativeCodebookGain := gp,
      fixedCodebookGain := s16 (PSHR (MULT16_32_Q12 (ADD16 (?ga 1) (?gb 1)) pr) 15), previousGainPredictionError := pe\<rparr>"
  have d: "decodeGains ctx GA GB v 0 = Some ctx'"
    unfolding decodeGains_def m(2,4) Option.bind.simps c pr Let_def pe ctx'_def gp(1) by simp
  have "gc_distance st \<noteq> MAXINT64 \<longrightarrow> gp = gc_pitch st" using st(3) cg by (auto simp: choice_gains_def)
  moreover have "adaptativeCodebookGain ctx' = gp" "previousGainPredictionError ctx' = pe" by (simp_all add: ctx'_def)
  ultimately show ?thesis using st(1) m(1,3) d c(2,4) pe by metis
qed

theorem gains_round_trip_witness:
  "\<exists>st. search_gains \<lparr>gt_xy = -20, gt_yy = 10, gt_xz = -6, gt_yz = 2, gt_zz = 5\<rparr> 300 2 4 = Some st"
  using gains_round_trip [of 2 4 "zeroContext\<lparr>previousGainPredictionError := [0, 0, 0, 0]\<rparr>" "replicate 40 1" _ 300]
  by (auto simp: arr_def is_s16_def energy_def list_all_iff)

section \<open>The bound of the pitch sharpening gain\<close>

text \<open>(C22) Encoder and decoder sharpen the fixed code vector with the pitch gain of the previous
  subframe, each with its own bounds: 0.2 to 1.2 in the encoder, 0.2 to 0.8 in the decoder. The two
  use the same value exactly when the gain was at most 0.8 (13107 in Q14); above, the fixed vectors
  of the two ends differ for every delay shorter than a subframe.\<close>

theorem sharpening_gain_agreement:
  "bound_last_gain g = boundedAdaptativeCodebookGain (bound_gain (ctx\<lparr>adaptativeCodebookGain := g\<rparr>))
    \<longleftrightarrow> g \<le> 13107"
  by (simp add: bound_last_gain_def bound_gain_def Let_def O2_IN_Q14_def ONE_POINT_2_IN_Q14_def
      BOUNDED_PITCH_GAIN_MIN_def BOUNDED_PITCH_GAIN_MAX_def)

end
