(* ===== verification/BV_Basop.thy ===== *)
theory BV_Basop
  imports Prelude
begin

text \<open>
  The ITU-T basic operators of \<open>itug191lib/basop32.c\<close> and the double precision operators of
  \<open>itug729ilib/oper_32b.c\<close>, on which the BroadVoice16 codec computes. Every operator is
  translated as it is written and then shown to be its mathematical definition: the exact result,
  limited to the range of the result type.

  \<^item> A name that clashes gets a suffix: \<open>shr_16\<close> is the operator \<open>shr\<close>.
  \<^item> The globals \<open>Overflow\<close> and \<open>Carry\<close> are written by most operators and read by \<open>L_add_c\<close>,
    \<open>L_sub_c\<close> and \<open>L_sat\<close> only, none of which the codec calls. The value of an operator does not
    depend on them; those three, and \<open>L_macNs\<close> and \<open>L_msuNs\<close> that call them, are state
    transformers on the two flags.
  \<^item> \<open>div_s\<close> aborts and \<open>div_l\<close> exits on arguments outside of their domain: the result is \<open>None\<close>.
  \<^item> The instrumentation under \<open>WMOPS\<close> is not compiled.
\<close>

section \<open>Range limits\<close>

definition MAX_32 :: int where "MAX_32 = 2147483647"
definition MIN_32 :: int where "MIN_32 = - 2147483648"
definition MAX_16 :: int where "MAX_16 = 32767"
definition MIN_16 :: int where "MIN_16 = - 32768"

lemmas limits_def = MAX_32_def MIN_32_def MAX_16_def MIN_16_def

section \<open>16 bit operators\<close>

definition extract_h :: "int \<Rightarrow> int" where
  "extract_h L_var1 = s16 (shr L_var1 16)"

definition extract_l :: "int \<Rightarrow> int" where
  "extract_l L_var1 = s16 L_var1"

definition saturate :: "int \<Rightarrow> int" where
  "saturate L_var1 = (if L_var1 > 0x7fff then MAX_16
     else if L_var1 < - 32768 then MIN_16 else extract_l L_var1)"

definition add :: "int \<Rightarrow> int \<Rightarrow> int" where
  "add var1 var2 = (let L_sum = s32 (var1 + var2) in saturate L_sum)"

definition sub :: "int \<Rightarrow> int \<Rightarrow> int" where
  "sub var1 var2 = (let L_diff = s32 (var1 - var2) in saturate L_diff)"

definition abs_s :: "int \<Rightarrow> int" where
  "abs_s var1 = (if var1 = MIN_16 then MAX_16 else if var1 < 0 then s16 (- var1) else var1)"

text \<open>The two shifts call each other for a negative amount.\<close>

function shl :: "int \<Rightarrow> int \<Rightarrow> int" and shr_16 :: "int \<Rightarrow> int \<Rightarrow> int" where
  "shl var1 var2 = (if var2 < 0
     then let var2 = (if var2 < - 16 then - 16 else var2);
              var2 = s16 (- var2)
          in shr_16 var1 var2
     else let result = s32 (var1 * s32 (2 ^ nat var2))
          in if (var2 > 15 \<and> var1 \<noteq> 0) \<or> result \<noteq> s16 result
             then (if var1 > 0 then MAX_16 else MIN_16)
             else extract_l result)"
| "shr_16 var1 var2 = (if var2 < 0
     then let var2 = (if var2 < - 16 then - 16 else var2);
              var2 = s16 (- var2)
          in shl var1 var2
     else if var2 \<ge> 15 then (if var1 < 0 then - 1 else 0)
     else if var1 < 0 then s16 (NOT (shr (NOT var1) (nat var2)))
     else s16 (shr var1 (nat var2)))"
  by pat_completeness auto
termination
  by (relation "measure (\<lambda>x. case x of Inl (_, n) \<Rightarrow> if n < 0 then 1 else 0 | Inr (_, n) \<Rightarrow> if n < 0 then 1 else 0)")
    (auto simp: s16_idI not_less)

declare shl.simps [simp del] shr_16.simps [simp del]

definition mult :: "int \<Rightarrow> int \<Rightarrow> int" where
  "mult var1 var2 = (
     let L_product = s32 (var1 * var2);
         L_product = shr (L_product AND - 32768) 15;
         L_product = (if L_product AND 0x00010000 \<noteq> 0 then L_product OR - 65536 else L_product)
     in saturate L_product)"

definition negate :: "int \<Rightarrow> int" where
  "negate var1 = (if var1 = MIN_16 then MAX_16 else s16 (- var1))"

definition mult_r :: "int \<Rightarrow> int \<Rightarrow> int" where
  "mult_r var1 var2 = (
     let L_product_arr = s32 (var1 * var2);
         L_product_arr = s32 (L_product_arr + 0x00004000);
         L_product_arr = L_product_arr AND - 32768;
         L_product_arr = shr L_product_arr 15;
         L_product_arr = (if L_product_arr AND 0x00010000 \<noteq> 0 then L_product_arr OR - 65536
                          else L_product_arr)
     in saturate L_product_arr)"

definition shr_r :: "int \<Rightarrow> int \<Rightarrow> int" where
  "shr_r var1 var2 = (if var2 > 15 then 0
     else let var_out = shr_16 var1 var2
          in if var2 > 0 \<and> var1 AND s16 (2 ^ nat (var2 - 1)) \<noteq> 0 then s16 (var_out + 1) else var_out)"

definition i_mult :: "int \<Rightarrow> int \<Rightarrow> int" where
  "i_mult a b = saturate (s32 (a * b))"

section \<open>32 bit operators\<close>

definition L_mult :: "int \<Rightarrow> int \<Rightarrow> int" where
  "L_mult var1 var2 = (let L_var_out = s32 (var1 * var2)
     in if L_var_out \<noteq> 0x40000000 then s32 (L_var_out * 2) else MAX_32)"

definition L_add :: "int \<Rightarrow> int \<Rightarrow> int" where
  "L_add L_var1 L_var2 = (let L_var_out = s32 (L_var1 + L_var2)
     in if (L_var1 XOR L_var2) AND MIN_32 = 0 \<and> (L_var_out XOR L_var1) AND MIN_32 \<noteq> 0
        then (if L_var1 < 0 then MIN_32 else MAX_32) else L_var_out)"

definition L_sub :: "int \<Rightarrow> int \<Rightarrow> int" where
  "L_sub L_var1 L_var2 = (let L_var_out = s32 (L_var1 - L_var2)
     in if (L_var1 XOR L_var2) AND MIN_32 \<noteq> 0 \<and> (L_var_out XOR L_var1) AND MIN_32 \<noteq> 0
        then (if L_var1 < 0 then MIN_32 else MAX_32) else L_var_out)"

definition intround :: "int \<Rightarrow> int" where
  "intround L_var1 = (let L_rounded = L_add L_var1 0x00008000 in extract_h L_rounded)"

definition L_mac :: "int \<Rightarrow> int \<Rightarrow> int \<Rightarrow> int" where
  "L_mac L_var3 var1 var2 = (let L_product = L_mult var1 var2 in L_add L_var3 L_product)"

definition L_msu :: "int \<Rightarrow> int \<Rightarrow> int \<Rightarrow> int" where
  "L_msu L_var3 var1 var2 = (let L_product = L_mult var1 var2 in L_sub L_var3 L_product)"

definition L_negate :: "int \<Rightarrow> int" where
  "L_negate L_var1 = (if L_var1 = MIN_32 then MAX_32 else s32 (- L_var1))"

text \<open>The shift to the left doubles in a loop that it leaves when the result saturates.\<close>

fun L_shl_loop :: "nat \<Rightarrow> int \<Rightarrow> int \<Rightarrow> int" where
  "L_shl_loop 0 L_var1 L_var_out = L_var_out"
| "L_shl_loop (Suc var2) L_var1 L_var_out = (if L_var1 > 0x3fffffff then MAX_32
     else if L_var1 < - 1073741824 then MIN_32
     else let L_var1 = s32 (L_var1 * 2) in L_shl_loop var2 L_var1 L_var1)"

function L_shl :: "int \<Rightarrow> int \<Rightarrow> int" and L_shr :: "int \<Rightarrow> int \<Rightarrow> int" where
  "L_shl L_var1 var2 = (if var2 \<le> 0
     then let var2 = (if var2 < - 32 then - 32 else var2);
              var2 = s16 (- var2)
          in L_shr L_var1 var2
     else L_shl_loop (nat var2) L_var1 0)"
| "L_shr L_var1 var2 = (if var2 < 0
     then let var2 = (if var2 < - 32 then - 32 else var2);
              var2 = s16 (- var2)
          in L_shl L_var1 var2
     else if var2 \<ge> 31 then (if L_var1 < 0 then - 1 else 0)
     else if L_var1 < 0 then NOT (shr (NOT L_var1) (nat var2))
     else shr L_var1 (nat var2))"
  by pat_completeness auto
termination
  by (relation "measure (\<lambda>x. case x of Inl (_, n) \<Rightarrow> if n \<le> 0 then 1 else 0 | Inr (_, n) \<Rightarrow> if n < 0 then 2 else 0)")
    (auto simp: s16_idI not_less)

declare L_shl.simps [simp del] L_shr.simps [simp del]

definition mac_r :: "int \<Rightarrow> int \<Rightarrow> int \<Rightarrow> int" where
  "mac_r L_var3 var1 var2 = (let L_var3 = L_mac L_var3 var1 var2;
     L_var3 = L_add L_var3 0x00008000 in extract_h L_var3)"

definition msu_r :: "int \<Rightarrow> int \<Rightarrow> int \<Rightarrow> int" where
  "msu_r L_var3 var1 var2 = (let L_var3 = L_msu L_var3 var1 var2;
     L_var3 = L_add L_var3 0x00008000 in extract_h L_var3)"

definition L_deposit_h :: "int \<Rightarrow> int" where
  "L_deposit_h var1 = s32 (var1 * 2 ^ 16)"

definition L_deposit_l :: "int \<Rightarrow> int" where
  "L_deposit_l var1 = s32 var1"

definition L_shr_r :: "int \<Rightarrow> int \<Rightarrow> int" where
  "L_shr_r L_var1 var2 = (if var2 > 31 then 0
     else let L_var_out = L_shr L_var1 var2
          in if var2 > 0 \<and> L_var1 AND s32 (2 ^ nat (var2 - 1)) \<noteq> 0 then s32 (L_var_out + 1)
             else L_var_out)"

definition L_abs :: "int \<Rightarrow> int" where
  "L_abs L_var1 = (if L_var1 = MIN_32 then MAX_32 else if L_var1 < 0 then s32 (- L_var1) else L_var1)"

definition L_mult0 :: "int \<Rightarrow> int \<Rightarrow> int" where
  "L_mult0 var1 var2 = s32 (var1 * var2)"

definition L_mac0 :: "int \<Rightarrow> int \<Rightarrow> int \<Rightarrow> int" where
  "L_mac0 L_var3 var1 var2 = (let L_product = L_mult0 var1 var2 in L_add L_var3 L_product)"

definition L_msu0 :: "int \<Rightarrow> int \<Rightarrow> int \<Rightarrow> int" where
  "L_msu0 L_var3 var1 var2 = (let L_product = L_mult0 var1 var2 in L_sub L_var3 L_product)"

definition L_mls :: "int \<Rightarrow> int \<Rightarrow> int" where
  "L_mls Lv v = (
     let Temp = Lv AND 0x0000ffff;
         Temp = s32 (Temp * v);
         Temp = L_shr Temp 15
     in L_mac Temp v (extract_h Lv))"

section \<open>Operators with carry\<close>

record arith_flags =
  Overflow :: bool
  Carry :: bool

definition L_add_c :: "int \<Rightarrow> int \<Rightarrow> arith_flags \<Rightarrow> int \<times> arith_flags" where
  "L_add_c L_var1 L_var2 fl = (
     let L_var_out = s32 (L_var1 + L_var2 + (if Carry fl then 1 else 0));
         L_test = s32 (L_var1 + L_var2);
         (fl, carry_int) =
           (if L_var1 > 0 \<and> L_var2 > 0 \<and> L_test < 0 then (fl\<lparr>Overflow := True\<rparr>, False)
            else if L_var1 < 0 \<and> L_var2 < 0
              then if L_test \<ge> 0 then (fl\<lparr>Overflow := True\<rparr>, True) else (fl\<lparr>Overflow := False\<rparr>, True)
            else if L_var1 XOR L_var2 < 0 \<and> L_test \<ge> 0 then (fl\<lparr>Overflow := False\<rparr>, True)
            else (fl\<lparr>Overflow := False\<rparr>, False));
         fl = (if Carry fl
               then if L_test = MAX_32 then fl\<lparr>Overflow := True, Carry := carry_int\<rparr>
                    else if L_test = - 1 then fl\<lparr>Carry := True\<rparr>
                    else fl\<lparr>Carry := carry_int\<rparr>
               else fl\<lparr>Carry := carry_int\<rparr>)
     in (L_var_out, fl))"

definition L_sub_c :: "int \<Rightarrow> int \<Rightarrow> arith_flags \<Rightarrow> int \<times> arith_flags" where
  "L_sub_c L_var1 L_var2 fl = (
     if Carry fl
     then let fl = fl\<lparr>Carry := False\<rparr>
          in if L_var2 \<noteq> MIN_32 then L_add_c L_var1 (s32 (- L_var2)) fl
             else (s32 (L_var1 - L_var2), if L_var1 > 0 then fl\<lparr>Overflow := True, Carry := False\<rparr> else fl)
     else
       let L_var_out = s32 (s32 (L_var1 - L_var2) - 1);
           L_test = s32 (L_var1 - L_var2);
           (fl, carry_int) =
             (if L_test < 0 \<and> L_var1 > 0 \<and> L_var2 < 0 then (fl\<lparr>Overflow := True\<rparr>, False)
              else if L_test > 0 \<and> L_var1 < 0 \<and> L_var2 > 0 then (fl\<lparr>Overflow := True\<rparr>, True)
              else if L_test > 0 \<and> L_var1 XOR L_var2 > 0 then (fl\<lparr>Overflow := False\<rparr>, True)
              else (fl, False));
           fl = (if L_test = MIN_32 then fl\<lparr>Overflow := True, Carry := carry_int\<rparr>
                 else fl\<lparr>Carry := carry_int\<rparr>)
       in (L_var_out, fl))"

text \<open>The product sets \<open>Overflow\<close> when it saturates.\<close>

definition mult_flags :: "int \<Rightarrow> int \<Rightarrow> arith_flags \<Rightarrow> arith_flags" where
  "mult_flags var1 var2 fl = (if s32 (var1 * var2) = 0x40000000 then fl\<lparr>Overflow := True\<rparr> else fl)"

definition L_macNs :: "int \<Rightarrow> int \<Rightarrow> int \<Rightarrow> arith_flags \<Rightarrow> int \<times> arith_flags" where
  "L_macNs L_var3 var1 var2 fl = L_add_c L_var3 (L_mult var1 var2) (mult_flags var1 var2 fl)"

definition L_msuNs :: "int \<Rightarrow> int \<Rightarrow> int \<Rightarrow> arith_flags \<Rightarrow> int \<times> arith_flags" where
  "L_msuNs L_var3 var1 var2 fl = L_sub_c L_var3 (L_mult var1 var2) (mult_flags var1 var2 fl)"

definition L_sat :: "int \<Rightarrow> arith_flags \<Rightarrow> int \<times> arith_flags" where
  "L_sat L_var1 fl = (if Overflow fl
     then (if Carry fl then MIN_32 else MAX_32, fl\<lparr>Carry := False, Overflow := False\<rparr>)
     else (L_var1, fl))"

section \<open>Normalisation and division\<close>

text \<open>
  The loops of \<open>norm_s\<close> and \<open>norm_l\<close> end for a positive number only; \<open>None\<close> is an endless loop.
  The functions call them with positive numbers (\<open>norm_s_loop_ends\<close>, \<open>norm_l_loop_ends\<close>), so
  their results are always defined.
\<close>

partial_function (option) norm_s_loop :: "int \<Rightarrow> int \<Rightarrow> int option" where
  "norm_s_loop var1 var_out =
     (if var1 < 0x4000 then norm_s_loop (s16 (var1 * 2)) (s16 (var_out + 1)) else Some var_out)"

declare norm_s_loop.simps [code]

definition norm_s :: "int \<Rightarrow> int" where
  "norm_s var1 = (if var1 = 0 then 0 else if var1 = - 1 then 15
     else let var1 = (if var1 < 0 then NOT var1 else var1) in the (norm_s_loop var1 0))"

partial_function (option) norm_l_loop :: "int \<Rightarrow> int \<Rightarrow> int option" where
  "norm_l_loop L_var1 var_out =
     (if L_var1 < 0x40000000 then norm_l_loop (s32 (L_var1 * 2)) (s16 (var_out + 1)) else Some var_out)"

declare norm_l_loop.simps [code]

definition norm_l :: "int \<Rightarrow> int" where
  "norm_l L_var1 = (if L_var1 = 0 then 0 else if L_var1 = - 1 then 31
     else let L_var1 = (if L_var1 < 0 then NOT L_var1 else L_var1) in the (norm_l_loop L_var1 0))"

definition div_s_step :: "int \<Rightarrow> int \<times> int \<Rightarrow> int \<times> int" where
  "div_s_step L_denom = (\<lambda>(var_out, L_num).
     let var_out = s16 (var_out * 2);
         L_num = s32 (L_num * 2)
     in if L_num \<ge> L_denom then (add var_out 1, L_sub L_num L_denom) else (var_out, L_num))"

definition div_s :: "int \<Rightarrow> int \<Rightarrow> int option" where
  "div_s var1 var2 = (
     if var1 > var2 \<or> var1 < 0 \<or> var2 < 0 then None
     else if var2 = 0 then None
     else if var1 = 0 then Some 0
     else if var1 = var2 then Some MAX_16
     else Some (fst ((div_s_step (L_deposit_l var2) ^^ 15) (0, L_deposit_l var1))))"

definition div_l_step :: "int \<Rightarrow> int \<times> int \<Rightarrow> int \<times> int" where
  "div_l_step L_den = (\<lambda>(var_out, L_num).
     let var_out = shl var_out 1;
         L_num = L_shl L_num 1
     in if L_num \<ge> L_den then (add var_out 1, L_sub L_num L_den) else (var_out, L_num))"

definition div_l :: "int \<Rightarrow> int \<Rightarrow> int option" where
  "div_l L_num den = (
     if den = 0 then None
     else if L_num < 0 \<or> den < 0 then None
     else let L_den = L_deposit_h den
          in if L_num \<ge> L_den then Some MAX_16
             else let L_num = L_shr L_num 1; L_den = L_shr L_den 1
                  in Some (fst ((div_l_step L_den ^^ 15) (0, L_num))))"

section \<open>Double precision operators\<close>

definition L_Extract :: "int \<Rightarrow> int \<times> int" where
  "L_Extract L_32 = (let hi = extract_h L_32;
     lo = extract_l (L_msu (L_shr L_32 1) hi 16384) in (hi, lo))"

definition L_Comp :: "int \<Rightarrow> int \<Rightarrow> int" where
  "L_Comp hi lo = (let L_32 = L_deposit_h hi in L_mac L_32 lo 1)"

definition Mpy_32 :: "int \<Rightarrow> int \<Rightarrow> int \<Rightarrow> int \<Rightarrow> int" where
  "Mpy_32 hi1 lo1 hi2 lo2 = (
     let L_32 = L_mult hi1 hi2;
         L_32 = L_mac L_32 (mult hi1 lo2) 1
     in L_mac L_32 (mult lo1 hi2) 1)"

definition Mpy_32_16 :: "int \<Rightarrow> int \<Rightarrow> int \<Rightarrow> int" where
  "Mpy_32_16 hi lo n = (let L_32 = L_mult hi n in L_mac L_32 (mult lo n) 1)"

definition Div_32 :: "int \<Rightarrow> int \<Rightarrow> int \<Rightarrow> int option" where
  "Div_32 L_num denom_hi denom_lo = do {
     approx \<leftarrow> div_s 0x3fff denom_hi;
     let L_32 = Mpy_32_16 denom_hi denom_lo approx;
     let L_32 = L_sub 0x7fffffff L_32;
     let (hi, lo) = L_Extract L_32;
     let L_32 = Mpy_32_16 hi lo approx;
     let (hi, lo) = L_Extract L_32;
     let (n_hi, n_lo) = L_Extract L_num;
     let L_32 = Mpy_32 n_hi n_lo hi lo;
     Some (L_shl L_32 2) }"

section \<open>Bit masks\<close>

lemma and_minus_power: "x AND - (2 ^ n) = push_bit n (drop_bit n x)" for x :: int
  by (rule bit_eqI) (auto simp only: bit_and_iff bit_minus_exp_iff bit_push_bit_iff bit_drop_bit_eq
      o_apply possible_bit_int le_add_diff_inverse)

lemma and_mask_15: "x AND - 32768 = x div 32768 * 32768" for x :: int
  using and_minus_power [of x 15] by (simp add: push_bit_eq_mult drop_bit_eq_div)

lemma shr_mask_15: "shr (x div 32768 * 32768) 15 = x div 32768"
  by (simp add: shr_def)

lemma sign_word: "is_s32 a \<Longrightarrow> drop_bit 31 a = (if 0 \<le> a then 0 else - 1)"
  using shr_bounds [of 0 31 a 0] shr_bounds [of "- 1" 31 a "- 1"]
  by (auto simp: drop_bit_eq_div is_s32_def shr_def)

lemma xor_MIN_32:
  assumes "is_s32 a" "is_s32 b"
  shows "(a XOR b) AND MIN_32 = 0 \<longleftrightarrow> (0 \<le> a \<longleftrightarrow> 0 \<le> b)"
proof -
  have "(a XOR b) AND MIN_32 = push_bit 31 (drop_bit 31 a XOR drop_bit 31 b)"
    using and_minus_power [of "a XOR b" 31] by (simp add: MIN_32_def drop_bit_xor)
  then show ?thesis by (simp add: sign_word assms mask_eq_exp_minus_1 not_int_def)
qed

lemma bit_16: "x AND 0x00010000 \<noteq> 0 \<longleftrightarrow> odd (x div 65536)" for x :: int
  using and_exp_eq_0_iff_not_bit [of x 16] by (simp add: bit_iff_odd)

lemma or_high:
  fixes x :: int
  assumes "- 65536 \<le> x" "x < 0"
  shows "x OR - 65536 = x"
proof -
  have n: "NOT (- 65536) = (65535 :: int)" by (simp add: not_int_def)
  have "x OR - 65536 = NOT (NOT (x OR - 65536))" by simp
  also have "\<dots> = NOT (NOT x AND 65535)" by (simp only: bit.de_Morgan_disj n)
  also have "NOT x AND 65535 = NOT x mod 65536"
    using take_bit_eq_mask [of 16 "NOT x"] by (simp add: take_bit_eq_mod mask_eq_exp_minus_1)
  also have "NOT x mod 65536 = NOT x" using assms by (simp add: not_int_def)
  finally show ?thesis by simp
qed

section \<open>The operators are their exact results, limited to the result type\<close>

text \<open>The limits of the two result types.\<close>

abbreviation sat16 :: "int \<Rightarrow> int" where "sat16 \<equiv> clamp (- 32768) 32767"
abbreviation sat32 :: "int \<Rightarrow> int" where "sat32 \<equiv> clamp (- 2147483648) 2147483647"

lemma saturate_eq: "saturate x = sat16 x"
  by (simp add: saturate_def clamp_def extract_l_def limits_def s16_idI)

lemma is_s16_sat16 [simp]: "is_s16 (sat16 x)"
  by (simp add: clamp_def is_s16_def)

lemma is_s32_sat32 [simp]: "is_s32 (sat32 x)"
  by (simp add: clamp_def is_s32_def)

lemma s32_add16: "is_s16 a \<Longrightarrow> is_s16 b \<Longrightarrow> s32 (a + b) = a + b"
  by (rule s32_idI) (auto simp: is_s16_def)

lemma s32_sub16: "is_s16 a \<Longrightarrow> is_s16 b \<Longrightarrow> s32 (a - b) = a - b"
  by (rule s32_idI) (auto simp: is_s16_def)

lemma s16_mult_bounds: "is_s16 a \<Longrightarrow> is_s16 b \<Longrightarrow> - 1073709056 \<le> a * b \<and> a * b \<le> 1073741824"
proof -
  assume a: "is_s16 a" "is_s16 b"
  have "- (32768 * 32767) \<le> a * b"
  proof (cases "0 \<le> a")
    case True
    have "a * (- 32768) \<le> a * b" using a True by (intro mult_left_mono) (auto simp: is_s16_def)
    moreover have "32767 * (- 32768) \<le> a * (- 32768)" using a by (simp add: is_s16_def)
    ultimately show ?thesis by simp
  next
    case False
    have "a * 32767 \<le> a * b" using a False by (intro mult_left_mono_neg) (auto simp: is_s16_def)
    moreover have "- 32768 * 32767 \<le> a * 32767" using a by (simp add: is_s16_def)
    ultimately show ?thesis by simp
  qed
  moreover have "a * b \<le> 32768 * 32768"
    using mult_abs_le [OF is_s16_abs [OF a(1)] is_s16_abs [OF a(2)]] by linarith
  ultimately show ?thesis by simp
qed

lemma s32_mult16: "is_s16 a \<Longrightarrow> is_s16 b \<Longrightarrow> s32 (a * b) = a * b"
  using s16_mult_bounds by (intro s32_idI) force+

lemma add_eq: "is_s16 a \<Longrightarrow> is_s16 b \<Longrightarrow> add a b = sat16 (a + b)"
  by (simp add: add_def s32_add16 saturate_eq)

lemma sub_eq: "is_s16 a \<Longrightarrow> is_s16 b \<Longrightarrow> sub a b = sat16 (a - b)"
  by (simp add: sub_def s32_sub16 saturate_eq)

lemma abs_s_eq: "is_s16 a \<Longrightarrow> abs_s a = sat16 \<bar>a\<bar>"
  by (simp add: abs_s_def clamp_def limits_def is_s16_def s16_idI)

lemma negate_eq: "is_s16 a \<Longrightarrow> negate a = sat16 (- a)"
  by (auto simp: negate_def clamp_def limits_def is_s16_def s16_idI)

lemma i_mult_eq: "is_s16 a \<Longrightarrow> is_s16 b \<Longrightarrow> i_mult a b = sat16 (a * b)"
  by (simp add: i_mult_def s32_mult16 saturate_eq)

lemma sign_extend: "- 65536 \<le> x \<Longrightarrow> x \<le> 65535 \<Longrightarrow>
    (if x AND 0x00010000 \<noteq> 0 then x OR - 65536 else x) = x" for x :: int
proof (cases "x < 0")
  case False
  assume "x \<le> 65535"
  then have "x div 65536 = 0" using False by simp
  then show ?thesis by (simp only: bit_16) simp
qed (simp add: or_high)

lemma div_bounds: "- 1073709056 \<le> x \<Longrightarrow> x \<le> 1073758208 \<Longrightarrow> - 32767 \<le> x div 32768 \<and> x div 32768 \<le> 32768" for x :: int
  using zdiv_mono1 [of "- 1073709056" x 32768] zdiv_mono1 [of x 1073758208 32768] by simp

lemma mult_eq:
  assumes "is_s16 a" "is_s16 b"
  shows "mult a b = sat16 (a * b div 32768)"
proof -
  have d: "- 32767 \<le> a * b div 32768 \<and> a * b div 32768 \<le> 32768"
    using s16_mult_bounds [OF assms] by (intro div_bounds) auto
  then have "(if (a * b div 32768) AND 0x00010000 \<noteq> 0 then (a * b div 32768) OR - 65536 else a * b div 32768) = a * b div 32768"
    by (intro sign_extend) auto
  then show ?thesis by (simp only: mult_def s32_mult16 [OF assms] and_mask_15 Let_def shr_mask_15 saturate_eq)
qed

lemma mult_r_eq:
  assumes "is_s16 a" "is_s16 b"
  shows "mult_r a b = sat16 ((a * b + 16384) div 32768)"
proof -
  let ?p = "(a * b + 16384) div 32768"
  have b: "- 1073709056 \<le> a * b \<and> a * b \<le> 1073741824" using assms by (rule s16_mult_bounds)
  then have d: "- 32767 \<le> ?p \<and> ?p \<le> 32768" by (intro div_bounds) auto
  have "(if ?p AND 0x00010000 \<noteq> 0 then ?p OR - 65536 else ?p) = ?p"
    by (intro sign_extend) (use d in auto)
  moreover have "s32 (a * b + 0x00004000) = a * b + 16384" by (rule s32_idI) (use b in auto)
  ultimately show ?thesis
    by (simp only: mult_r_def s32_mult16 [OF assms] and_mask_15 Let_def shr_mask_15 saturate_eq)
qed

lemma L_mult_eq: "is_s16 a \<Longrightarrow> is_s16 b \<Longrightarrow> L_mult a b = sat32 (2 * (a * b))"
  using s16_mult_bounds [of a b]
  by (auto simp: L_mult_def s32_mult16 clamp_def limits_def s32_idI Let_def)

text \<open>One wrap-around of a 32 bit sum.\<close>

lemma s32_wrap:
  assumes "- 4294967296 \<le> x" "x \<le> 4294967295"
  obtains "- 2147483648 \<le> x" "x \<le> 2147483647" "s32 x = x"
    | "x < - 2147483648" "s32 x = x + 4294967296"
    | "2147483647 < x" "s32 x = x - 4294967296"
proof -
  have "s32 x = s32 (x + 4294967296)" "s32 x = s32 (x - 4294967296)"
    using mod_add_self2 [of "x + 2147483648" 4294967296] mod_add_self2 [of "x - 2147483648" 4294967296]
    by (simp_all add: s32_def add.commute add.left_commute)
  then show ?thesis using that assms s32_idI [of x] s32_idI [of "x + 4294967296"] s32_idI [of "x - 4294967296"]
    by linarith
qed

lemma L_add_eq:
  assumes "is_s32 a" "is_s32 b"
  shows "L_add a b = sat32 (a + b)"
proof -
  have r: "- 4294967296 \<le> a + b" "a + b \<le> 4294967295" using assms by (auto simp: is_s32_def)
  show ?thesis
    unfolding L_add_def Let_def xor_MIN_32 [OF assms] xor_MIN_32 [OF is_s32_s32 assms(1)]
    using assms by (cases rule: s32_wrap [OF r]) (auto simp: clamp_def limits_def is_s32_def split: if_splits)
qed

lemma L_sub_eq:
  assumes "is_s32 a" "is_s32 b"
  shows "L_sub a b = sat32 (a - b)"
proof -
  have r: "- 4294967296 \<le> a - b" "a - b \<le> 4294967295" using assms by (auto simp: is_s32_def)
  show ?thesis
    unfolding L_sub_def Let_def xor_MIN_32 [OF assms] xor_MIN_32 [OF is_s32_s32 assms(1)]
    using assms by (cases rule: s32_wrap [OF r]) (auto simp: clamp_def limits_def is_s32_def split: if_splits)
qed

section \<open>Result types\<close>

lemma saturate_s16 [simp]: "is_s16 (saturate x)"
  by (simp add: saturate_eq)

lemma s16_ops [simp]: "is_s16 (add a b)" "is_s16 (sub a b)" "is_s16 (mult a b)" "is_s16 (mult_r a b)"
  "is_s16 (extract_h x)" "is_s16 (extract_l x)" "is_s16 (intround x)" "is_s16 (i_mult a b)"
  "is_s16 (negate a)" "is_s16 (mac_r x a b)" "is_s16 (msu_r x a b)"
  by (simp_all add: add_def sub_def mult_def mult_r_def extract_h_def extract_l_def intround_def i_mult_def
      negate_def mac_r_def msu_r_def limits_def Let_def is_s16_def [of 32767])

lemma s32_ops [simp]: "is_s32 (L_add x y)" "is_s32 (L_sub x y)" "is_s32 (L_mult a b)" "is_s32 (L_mac x a b)"
  "is_s32 (L_msu x a b)" "is_s32 (L_mult0 a b)" "is_s32 (L_mac0 x a b)" "is_s32 (L_msu0 x a b)"
  "is_s32 (L_deposit_h a)" "is_s32 (L_deposit_l a)" "is_s32 (L_negate x)" "is_s32 (L_mls x a)"
  "is_s32 (Mpy_32 a b c d)" "is_s32 (Mpy_32_16 a b c)" "is_s32 (L_Comp a b)"
  by (simp_all add: L_add_def L_sub_def L_mult_def L_mac_def L_msu_def L_mult0_def L_mac0_def L_msu0_def
      L_deposit_h_def L_deposit_l_def L_negate_def L_mls_def Mpy_32_def Mpy_32_16_def L_Comp_def
      limits_def Let_def is_s32_def [of "- 2147483648"] is_s32_def [of 2147483647])

section \<open>Shifts\<close>

lemma not_shr_not: "NOT (shr (NOT a) k) = shr a k"
  by (simp add: shr_def flip: drop_bit_eq_div) (simp add: bit_eq_iff bit_simps)

lemma shr_large:
  assumes "- (2 ^ m) \<le> a" "a < 2 ^ m" "m \<le> n"
  shows "shr a n = (if a < 0 then - 1 else 0)"
proof -
  have "(2 :: int) ^ m \<le> 2 ^ n" using assms(3) by (intro power_increasing) auto
  then have "- (2 ^ n) \<le> a" "a < 2 ^ n" using assms by linarith+
  then show ?thesis using shr_bounds [of 0 n a 0] shr_bounds [of "- 1" n a "- 1"] by (auto simp: not_less)
qed

lemma shr_16_right:
  assumes "0 \<le> n" "is_s16 a"
  shows "shr_16 a n = shr a (nat n)"
  using assms shr_large [of 15 a "nat n"] shr_s16 [OF assms(2)]
  by (subst shr_16.simps) (auto simp: not_shr_not is_s16_def)

lemma power_sat:
  fixes a :: int
  assumes "a \<noteq> 0" "m \<le> n"
  shows "0 < a \<Longrightarrow> 2 ^ m \<le> a * 2 ^ n" "a < 0 \<Longrightarrow> a * 2 ^ n \<le> - (2 ^ m)"
proof -
  have p: "(2 :: int) ^ m \<le> 2 ^ n" using assms(2) by (intro power_increasing) auto
  show "0 < a \<Longrightarrow> 2 ^ m \<le> a * 2 ^ n"
    using p mult_right_mono [of 1 a "2 ^ n"] by (intro order_trans [OF p]) simp
  show "a < 0 \<Longrightarrow> a * 2 ^ n \<le> - (2 ^ m)"
  proof -
    assume "a < 0"
    then have "a * 2 ^ n \<le> - 1 * 2 ^ n" by (intro mult_right_mono) simp_all
    also have "\<dots> \<le> - (2 ^ m)" using p by (simp only: mult_minus1 neg_le_iff_le)
    finally show ?thesis .
  qed
qed

lemma s16_eq_iff: "s16 x = x \<longleftrightarrow> is_s16 x"
  using is_s16_s16 [of x] s16_id by metis

lemma s32_0 [simp]: "s32 0 = 0"
  by (simp add: s32_def)

lemma is_s32_0 [simp]: "is_s32 0"
  by (simp add: is_s32_def)

lemma shl_left:
  assumes "0 \<le> n" "is_s16 a"
  shows "shl a n = sat16 (a * 2 ^ nat n)"
proof (cases "15 < n")
  case True
  then have n: "16 \<le> nat n" by simp
  show ?thesis
  proof (cases "a = 0")
    case True
    then show ?thesis using assms by (subst shl.simps) (simp add: clamp_def extract_l_def Let_def)
  next
    case False
    then have "0 < a \<Longrightarrow> 65536 \<le> a * 2 ^ nat n" "a < 0 \<Longrightarrow> a * 2 ^ nat n \<le> - 65536"
      using power_sat [OF _ n, of a] by simp_all
    then show ?thesis using False \<open>15 < n\<close> by (subst shl.simps) (auto simp: clamp_def limits_def)
  qed
next
  case False
  then have "(2 :: int) ^ nat n \<le> 2 ^ 15" using assms by (intro power_increasing) auto
  then have p: "(2 :: int) ^ nat n \<le> 32768" by simp
  have "- (32768 * 32768) \<le> a * 2 ^ nat n" "a * 2 ^ nat n \<le> 32768 * 32768"
    using mult_bounds [of a 32768 "2 ^ nat n" 32768] is_s16_abs [OF assms(2)] p by auto
  moreover have "s32 (2 ^ nat n) = 2 ^ nat n" by (rule s32_idI, rule order_trans [of _ 0]) (use p in auto)
  ultimately have "s32 (a * s32 (2 ^ nat n)) = a * 2 ^ nat n" by (simp add: s32_idI)
  then have r: "shl a n = (if a * 2 ^ nat n \<noteq> s16 (a * 2 ^ nat n) then if 0 < a then MAX_16 else MIN_16
      else s16 (a * 2 ^ nat n))"
    using False assms by (subst shl.simps) (simp add: extract_l_def)
  define y where "y = a * 2 ^ nat n"
  have "0 < a \<longleftrightarrow> 0 < y" by (simp add: y_def zero_less_mult_iff)
  then show ?thesis
    using s16_eq_iff [of y] unfolding r y_def [symmetric] by (auto simp: clamp_def limits_def is_s16_def)
qed

lemma L_shr_right:
  assumes "0 \<le> n" "is_s32 a"
  shows "L_shr a n = shr a (nat n)"
  using assms shr_large [of 31 a "nat n"]
  by (subst L_shr.simps) (auto simp: not_shr_not is_s32_def)

lemma L_shl_loop_eq: "is_s32 a \<Longrightarrow> (n = 0 \<longrightarrow> b = a) \<Longrightarrow> L_shl_loop n a b = sat32 (a * 2 ^ n)"
proof (induction n arbitrary: a b)
  case 0
  then show ?case by (simp add: clamp_def is_s32_def)
next
  case (Suc n)
  define y where "y = a * 2 ^ Suc n"
  have p: "a > 0 \<Longrightarrow> a * 2 \<le> y" "a < 0 \<Longrightarrow> y \<le> a * 2"
    using mult_left_mono [of 1 "2 ^ n" "a * 2"] mult_left_mono_neg [of 1 "2 ^ n" "a * 2"] by (simp_all add: y_def)
  show ?case
  proof (cases "- 1073741824 \<le> a \<and> a \<le> 1073741823")
    case True
    then have "s32 (a * 2) = a * 2" by (intro s32_idI) auto
    moreover have "L_shl_loop n (a * 2) (a * 2) = sat32 (a * 2 * 2 ^ n)"
      by (rule Suc.IH) (use True in \<open>auto simp: is_s32_def\<close>)
    ultimately show ?thesis using True by (simp add: mult.assoc)
  next
    case False
    then show ?thesis unfolding y_def [symmetric] using p by (auto simp: clamp_def limits_def)
  qed
qed

lemma L_shl_left:
  assumes "0 \<le> n" "is_s32 a"
  shows "L_shl a n = sat32 (a * 2 ^ nat n)"
proof (cases "n = 0")
  case True
  then show ?thesis using assms L_shr_right [of 0 a]
    by (subst L_shl.simps) (simp add: clamp_def is_s32_def shr_def s16_idI)
next
  case False
  then show ?thesis using assms by (subst L_shl.simps) (simp add: L_shl_loop_eq)
qed

lemma shl_right: "n < 0 \<Longrightarrow> - 16 \<le> n \<Longrightarrow> shl a n = shr_16 a (- n)"
  by (subst shl.simps) (simp add: s16_idI)

lemma shr_16_left: "n < 0 \<Longrightarrow> - 16 \<le> n \<Longrightarrow> shr_16 a n = shl a (- n)"
  by (subst shr_16.simps) (simp add: s16_idI)

lemma L_shl_right: "n < 0 \<Longrightarrow> - 32 \<le> n \<Longrightarrow> L_shl a n = L_shr a (- n)"
  by (subst L_shl.simps) (simp add: s16_idI)

lemma L_shr_left: "n < 0 \<Longrightarrow> - 32 \<le> n \<Longrightarrow> L_shr a n = L_shl a (- n)"
  by (subst L_shr.simps) (simp add: s16_idI)

text \<open>Amounts beyond the width of the operand act like the width.\<close>

lemma shl_beyond: "n < - 16 \<Longrightarrow> shl a n = shl a (- 16)" "n < - 16 \<Longrightarrow> shr_16 a n = shr_16 a (- 16)"
  by (subst (1 2) shl.simps, simp) (subst (1 2) shr_16.simps, simp)

lemma L_shl_beyond: "n < - 32 \<Longrightarrow> L_shl a n = L_shl a (- 32)" "n < - 32 \<Longrightarrow> L_shr a n = L_shr a (- 32)"
  by (subst (1 2) L_shl.simps, simp) (subst (1 2) L_shr.simps, simp)

lemma shift_types_16 [simp]:
  assumes "is_s16 a"
  shows "is_s16 (shl a n)" "is_s16 (shr_16 a n)"
proof -
  have l: "is_s16 (shl a k)" "is_s16 (shr_16 a k)" if "0 \<le> k" for k
    using that assms by (simp_all add: shl_left shr_16_right shr_s16)
  have r: "is_s16 (shl a k)" "is_s16 (shr_16 a k)" if "- 16 \<le> k" for k
    by (cases "0 \<le> k"; use that l [of k] l [of "- k"] shl_right [of k a] shr_16_left [of k a] in force)+
  show "is_s16 (shl a n)" "is_s16 (shr_16 a n)"
    by (cases "- 16 \<le> n"; use r [of n] r [of "- 16"] shl_beyond [of n a] in force)+
qed

lemma shift_types_32 [simp]:
  assumes "is_s32 a"
  shows "is_s32 (L_shl a n)" "is_s32 (L_shr a n)"
proof -
  have l: "is_s32 (L_shl a k)" "is_s32 (L_shr a k)" if "0 \<le> k" for k
    using that assms by (simp_all add: L_shl_left L_shr_right shr_shrinks)
  have r: "is_s32 (L_shl a k)" "is_s32 (L_shr a k)" if "- 32 \<le> k" for k
    by (cases "0 \<le> k"; use that l [of k] l [of "- k"] L_shl_right [of k a] L_shr_left [of k a] in force)+
  show "is_s32 (L_shl a n)" "is_s32 (L_shr a n)"
    by (cases "- 32 \<le> n"; use r [of n] r [of "- 32"] L_shl_beyond [of n a] in force)+
qed

section \<open>Products and sums\<close>

lemma sat_nonneg [simp]: "0 \<le> sat16 x \<longleftrightarrow> 0 \<le> x" "0 \<le> sat32 x \<longleftrightarrow> 0 \<le> x"
  by (auto simp: clamp_def)

lemma L_mult0_eq: "is_s16 a \<Longrightarrow> is_s16 b \<Longrightarrow> L_mult0 a b = a * b"
  by (simp add: L_mult0_def s32_mult16)

lemma is_s32_mult16: "is_s16 a \<Longrightarrow> is_s16 b \<Longrightarrow> is_s32 (a * b)"
  using s16_mult_bounds [of a b] by (simp add: is_s32_def)

lemma L_mac0_eq: "is_s32 x \<Longrightarrow> is_s16 a \<Longrightarrow> is_s16 b \<Longrightarrow> L_mac0 x a b = sat32 (x + a * b)"
  by (simp add: L_mac0_def L_mult0_eq L_add_eq is_s32_mult16)

lemma L_msu0_eq: "is_s32 x \<Longrightarrow> is_s16 a \<Longrightarrow> is_s16 b \<Longrightarrow> L_msu0 x a b = sat32 (x - a * b)"
  by (simp add: L_msu0_def L_mult0_eq L_sub_eq is_s32_mult16)

lemma L_mac_eq: "is_s32 x \<Longrightarrow> is_s16 a \<Longrightarrow> is_s16 b \<Longrightarrow> L_mac x a b = sat32 (x + sat32 (2 * (a * b)))"
  by (simp add: L_mac_def L_mult_eq L_add_eq)

lemma L_msu_eq: "is_s32 x \<Longrightarrow> is_s16 a \<Longrightarrow> is_s16 b \<Longrightarrow> L_msu x a b = sat32 (x - sat32 (2 * (a * b)))"
  by (simp add: L_msu_def L_mult_eq L_sub_eq)

lemma L_deposit_h_eq: "is_s16 a \<Longrightarrow> L_deposit_h a = a * 65536"
  by (simp add: L_deposit_h_def is_s16_def s32_idI)

lemma L_deposit_l_eq: "is_s16 a \<Longrightarrow> L_deposit_l a = a"
  by (simp add: L_deposit_l_def is_s16_is_s32)

lemma extract_h_eq: "is_s32 x \<Longrightarrow> extract_h x = x div 65536"
  using shr_bounds [of "- 32768" 16 x 32767] by (simp add: extract_h_def is_s32_def shr_def s16_idI)

lemma intround_eq: "is_s32 x \<Longrightarrow> intround x = sat32 (x + 32768) div 65536"
  using is_s32_sat32 [of "x + 32768"] by (simp add: intround_def L_add_eq is_s32_def extract_h_eq)

lemma L_negate_eq: "is_s32 x \<Longrightarrow> L_negate x = sat32 (- x)"
  by (auto simp: L_negate_def clamp_def limits_def is_s32_def s32_idI)

lemma L_abs_eq: "is_s32 x \<Longrightarrow> L_abs x = sat32 \<bar>x\<bar>"
  by (auto simp: L_abs_def clamp_def limits_def is_s32_def s32_idI)

lemma L_abs_type [simp]: "is_s32 x \<Longrightarrow> is_s32 (L_abs x)"
  by (simp add: L_abs_eq)

lemma abs_s_type [simp]: "is_s16 x \<Longrightarrow> is_s16 (abs_s x)"
  by (simp add: abs_s_eq)

section \<open>Normalisation\<close>

lemma norm_l_loop_ends:
  "0 < x \<Longrightarrow> x < 2147483648 \<Longrightarrow> 1073741824 \<le> x * 2 ^ m \<Longrightarrow> 0 \<le> k \<Longrightarrow> k + int m \<le> 32767 \<Longrightarrow>
    \<exists>n\<le>m. norm_l_loop x k = Some (k + int n) \<and> 1073741824 \<le> x * 2 ^ n \<and> x * 2 ^ n < 2147483648"
proof (induction m arbitrary: x k)
  case 0
  then show ?case by (subst norm_l_loop.simps) simp
next
  case (Suc m)
  show ?case
  proof (cases "x < 1073741824")
    case True
    then have r: "norm_l_loop x k = norm_l_loop (2 * x) (k + 1)"
      using Suc.prems by (subst norm_l_loop.simps) (simp add: s32_idI s16_idI mult.commute)
    have "\<exists>n\<le>m. norm_l_loop (2 * x) (k + 1) = Some (k + 1 + int n) \<and> 1073741824 \<le> 2 * x * 2 ^ n \<and> 2 * x * 2 ^ n < 2147483648"
      by (rule Suc.IH) (use True Suc.prems in \<open>auto simp: mult.commute mult.left_commute\<close>)
    then obtain n where "n \<le> m" "norm_l_loop (2 * x) (k + 1) = Some (k + 1 + int n)"
      "1073741824 \<le> x * 2 ^ Suc n" "x * 2 ^ Suc n < 2147483648" by (auto simp: mult.commute mult.left_commute)
    then show ?thesis unfolding r by (intro exI [of _ "Suc n"]) auto
  next
    case False
    then show ?thesis using Suc.prems by (subst norm_l_loop.simps) (intro exI [of _ 0], simp)
  qed
qed

lemma norm_s_loop_ends:
  "0 < x \<Longrightarrow> x < 32768 \<Longrightarrow> 16384 \<le> x * 2 ^ m \<Longrightarrow> 0 \<le> k \<Longrightarrow> k + int m \<le> 32767 \<Longrightarrow>
    \<exists>n\<le>m. norm_s_loop x k = Some (k + int n) \<and> 16384 \<le> x * 2 ^ n \<and> x * 2 ^ n < 32768"
proof (induction m arbitrary: x k)
  case 0
  then show ?case by (subst norm_s_loop.simps) simp
next
  case (Suc m)
  show ?case
  proof (cases "x < 16384")
    case True
    then have r: "norm_s_loop x k = norm_s_loop (2 * x) (k + 1)"
      using Suc.prems by (subst norm_s_loop.simps) (simp add: s16_idI mult.commute)
    have "\<exists>n\<le>m. norm_s_loop (2 * x) (k + 1) = Some (k + 1 + int n) \<and> 16384 \<le> 2 * x * 2 ^ n \<and> 2 * x * 2 ^ n < 32768"
      by (rule Suc.IH) (use True Suc.prems in \<open>auto simp: mult.commute mult.left_commute\<close>)
    then obtain n where "n \<le> m" "norm_s_loop (2 * x) (k + 1) = Some (k + 1 + int n)"
      "16384 \<le> x * 2 ^ Suc n" "x * 2 ^ Suc n < 32768" by (auto simp: mult.commute mult.left_commute)
    then show ?thesis unfolding r by (intro exI [of _ "Suc n"]) auto
  next
    case False
    then show ?thesis using Suc.prems by (subst norm_s_loop.simps) (intro exI [of _ 0], simp)
  qed
qed

lemma norm_l_pos:
  assumes "0 < x" "is_s32 x"
  shows "0 \<le> norm_l x" "norm_l x \<le> 30" "1073741824 \<le> x * 2 ^ nat (norm_l x)" "x * 2 ^ nat (norm_l x) \<le> 2147483647"
proof -
  have "\<exists>n\<le>30. norm_l_loop x 0 = Some (0 + int n) \<and> 1073741824 \<le> x * 2 ^ n \<and> x * 2 ^ n < 2147483648"
    by (rule norm_l_loop_ends) (use assms in \<open>auto simp: is_s32_def\<close>)
  then obtain n where "n \<le> 30" "norm_l x = int n" "1073741824 \<le> x * 2 ^ n" "x * 2 ^ n < 2147483648"
    using assms by (auto simp: norm_l_def Let_def)
  then show "0 \<le> norm_l x" "norm_l x \<le> 30" "1073741824 \<le> x * 2 ^ nat (norm_l x)" "x * 2 ^ nat (norm_l x) \<le> 2147483647"
    by simp_all
qed

lemma norm_s_pos:
  assumes "0 < x" "is_s16 x"
  shows "0 \<le> norm_s x" "norm_s x \<le> 14" "16384 \<le> x * 2 ^ nat (norm_s x)" "x * 2 ^ nat (norm_s x) \<le> 32767"
proof -
  have "\<exists>n\<le>14. norm_s_loop x 0 = Some (0 + int n) \<and> 16384 \<le> x * 2 ^ n \<and> x * 2 ^ n < 32768"
    by (rule norm_s_loop_ends) (use assms in \<open>auto simp: is_s16_def\<close>)
  then obtain n where "n \<le> 14" "norm_s x = int n" "16384 \<le> x * 2 ^ n" "x * 2 ^ n < 32768"
    using assms by (auto simp: norm_s_def Let_def)
  then show "0 \<le> norm_s x" "norm_s x \<le> 14" "16384 \<le> x * 2 ^ nat (norm_s x)" "x * 2 ^ nat (norm_s x) \<le> 32767"
    by simp_all
qed

lemma norm_l_neg:
  assumes "x < 0" "is_s32 x"
  shows "0 \<le> norm_l x" "norm_l x \<le> 31" "- 2147483648 \<le> x * 2 ^ nat (norm_l x)" "x * 2 ^ nat (norm_l x) < - 1073741824"
proof -
  have "0 \<le> norm_l x \<and> norm_l x \<le> 31 \<and> - 2147483648 \<le> x * 2 ^ nat (norm_l x) \<and> x * 2 ^ nat (norm_l x) < - 1073741824"
  proof (cases "x = - 1")
    case True
    then show ?thesis by (simp add: norm_l_def)
  next
    case False
    define y where "y = NOT x"
    have y: "0 < y" "is_s32 y" "x = - y - 1" using False assms by (auto simp: y_def not_int_def is_s32_def)
    have "NOT x = y" "y \<noteq> - 1" using y(1) by (simp_all add: y_def)
    then have n: "norm_l x = norm_l y" using False assms(1) y(1) by (simp add: norm_l_def)
    define p where "p = (2 :: int) ^ nat (norm_l y)"
    define q where "q = (2 :: int) ^ (31 - nat (norm_l y))"
    have b: "0 \<le> norm_l y" "norm_l y \<le> 30" "1073741824 \<le> y * p" "y * p < 2147483648"
      using norm_l_pos [OF y(1,2)] by (simp_all add: p_def)
    have pq: "q * p = 2 ^ 31"
      unfolding p_def q_def by (subst power_add [symmetric]) (use b(1,2) in simp)
    have "0 < p" by (simp add: p_def)
    then have "y < q" using b(4) pq mult_less_cancel_right_pos [of p y q] by simp
    then have "(y + 1) * p \<le> q * p" using \<open>0 < p\<close> by (intro mult_right_mono) auto
    moreover have "(y + 1) * p = y * p + p" "x * p = - (y * p) - p" by (simp_all add: y(3) algebra_simps)
    ultimately show ?thesis using b pq \<open>0 < p\<close> unfolding n p_def [symmetric] by simp
  qed
  then show "0 \<le> norm_l x" "norm_l x \<le> 31" "- 2147483648 \<le> x * 2 ^ nat (norm_l x)" "x * 2 ^ nat (norm_l x) < - 1073741824"
    by simp_all
qed

lemma norm_l_0 [simp]: "norm_l 0 = 0"
  by (simp add: norm_l_def)

text \<open>Shifting by \<open>norm_l\<close> is exact.\<close>

lemma norm_l_range: "is_s32 x \<Longrightarrow> 0 \<le> norm_l x" "is_s32 x \<Longrightarrow> norm_l x \<le> 31"
  using norm_l_pos [of x] norm_l_neg [of x] by (cases "x = 0"; cases "0 < x"; simp)+

lemma L_shl_norm: "is_s32 x \<Longrightarrow> L_shl x (norm_l x) = x * 2 ^ nat (norm_l x)"
  using norm_l_pos [of x] norm_l_neg [of x] norm_l_range [of x]
  by (cases "x = 0"; cases "0 < x"; simp add: L_shl_left clamp_def)


section \<open>Fractional division\<close>

lemma double_div_mod:
  fixes n d :: int
  assumes "0 < d"
  shows "2 * n div d = (if d \<le> 2 * (n mod d) then 2 * (n div d) + 1 else 2 * (n div d))"
    "2 * n mod d = (if d \<le> 2 * (n mod d) then 2 * (n mod d) - d else 2 * (n mod d))"
proof -
  have r: "0 \<le> n mod d" "n mod d < d" using assms by simp_all
  have "d * (n div d) + n mod d = n" by (rule mult_div_mod_eq)
  then have n: "2 * n = d * (2 * (n div d)) + 2 * (n mod d)" by (simp only: distrib_left mult.left_commute [of 2 d] flip: distrib_left)
  show "2 * n div d = (if d \<le> 2 * (n mod d) then 2 * (n div d) + 1 else 2 * (n div d))"
    by (rule int_div_pos_eq [of _ _ _ "if d \<le> 2 * (n mod d) then 2 * (n mod d) - d else 2 * (n mod d)"])
      (use r n in \<open>auto simp: algebra_simps\<close>)
  show "2 * n mod d = (if d \<le> 2 * (n mod d) then 2 * (n mod d) - d else 2 * (n mod d))"
    by (rule int_mod_pos_eq [of _ _ "if d \<le> 2 * (n mod d) then 2 * (n div d) + 1 else 2 * (n div d)"])
      (use r n in \<open>auto simp: algebra_simps\<close>)
qed

lemma div_pow_less:
  fixes a d :: int
  assumes "0 \<le> a" "a < d"
  shows "0 \<le> a * 2 ^ i div d" "a * 2 ^ i div d < 2 ^ i"
proof -
  show "0 \<le> a * 2 ^ i div d" using assms by (intro pos_imp_zdiv_nonneg_iff [THEN iffD2]) auto
  have "a * 2 ^ i < 2 ^ i * d" using assms by (simp add: mult.commute)
  then show "a * 2 ^ i div d < 2 ^ i" using assms by (intro int_div_less) auto
qed

lemma div_step_range:
  fixes q :: int
  assumes "i < 15" "q < 2 ^ i"
  shows "q < 16384"
proof -
  have "(2 :: int) ^ i \<le> 2 ^ 14" using assms(1) by (intro power_increasing) auto
  then show ?thesis using assms(2) by simp
qed

lemma div_s_step_eq:
  assumes "0 \<le> q" "q < 16384" "0 \<le> r" "r < d" "d \<le> 32767"
  shows "div_s_step d (q, r) = (if d \<le> 2 * r then (2 * q + 1, 2 * r - d) else (2 * q, 2 * r))"
proof -
  have "s16 (q * 2) = 2 * q" "s32 (r * 2) = 2 * r" using assms by (simp_all add: s16_idI s32_idI)
  then show ?thesis using assms
    by (simp add: div_s_step_def add_eq L_sub_eq is_s16_def is_s32_def clamp_id Let_def)
qed

lemma div_l_step_eq:
  assumes "0 \<le> q" "q < 16384" "0 \<le> r" "r < d" "d \<le> 1073741823"
  shows "div_l_step d (q, r) = (if d \<le> 2 * r then (2 * q + 1, 2 * r - d) else (2 * q, 2 * r))"
proof -
  have "shl q 1 = 2 * q" "L_shl r 1 = 2 * r" using assms by (simp_all add: shl_left L_shl_left is_s16_def is_s32_def clamp_id)
  then show ?thesis using assms
    by (simp add: div_l_step_def add_eq L_sub_eq is_s16_def is_s32_def clamp_id Let_def)
qed

lemma div_s_loop:
  assumes "0 \<le> a" "a < d" "d \<le> 32767" "i \<le> 15"
  shows "(div_s_step d ^^ i) (0, a) = (a * 2 ^ i div d, a * 2 ^ i mod d)"
  using assms(4)
proof (induction i)
  case 0
  then show ?case using assms by simp
next
  case (Suc i)
  let ?q = "a * 2 ^ i div d" and ?r = "a * 2 ^ i mod d"
  have q: "0 \<le> ?q" "?q < 16384" using div_pow_less [OF assms(1,2), of i] div_step_range [of i ?q] Suc.prems by auto
  have r: "0 \<le> ?r" "?r < d" using assms by simp_all
  have "div_s_step d (?q, ?r) = (2 * (a * 2 ^ i) div d, 2 * (a * 2 ^ i) mod d)"
    using div_s_step_eq [OF q r assms(3)] double_div_mod [of d "a * 2 ^ i"] assms by simp
  then show ?case using Suc by (simp add: mult.left_commute)
qed

lemma div_s_eq:
  assumes "0 \<le> a" "a \<le> d" "0 < d" "d \<le> 32767"
  shows "div_s a d = Some (min 32767 (a * 32768 div d))"
proof (cases "a = d")
  case True
  then show ?thesis using assms by (simp add: div_s_def limits_def)
next
  case False
  have t: "is_s16 a" "is_s16 d" using assms by (simp_all add: is_s16_def)
  have "a * 2 ^ 15 div d < 2 ^ 15" using div_pow_less [of a d 15] False assms by simp
  then show ?thesis using False assms div_s_loop [of a d 15]
    by (simp add: div_s_def L_deposit_l_eq t)
qed

lemma div_s_ok:
  assumes "0 \<le> a" "a \<le> d" "0 < d" "d \<le> 32767"
  shows "\<exists>q. div_s a d = Some q \<and> 0 \<le> q \<and> q \<le> 32767"
  using div_s_eq [OF assms] assms by (auto simp: pos_imp_zdiv_nonneg_iff)

lemma div_l_loop:
  assumes "0 \<le> a" "a < d" "d \<le> 1073741823" "i \<le> 15"
  shows "(div_l_step d ^^ i) (0, a) = (a * 2 ^ i div d, a * 2 ^ i mod d)"
  using assms(4)
proof (induction i)
  case 0
  then show ?case using assms by simp
next
  case (Suc i)
  let ?q = "a * 2 ^ i div d" and ?r = "a * 2 ^ i mod d"
  have q: "0 \<le> ?q" "?q < 16384" using div_pow_less [OF assms(1,2), of i] div_step_range [of i ?q] Suc.prems by auto
  have r: "0 \<le> ?r" "?r < d" using assms by simp_all
  have "div_l_step d (?q, ?r) = (2 * (a * 2 ^ i) div d, 2 * (a * 2 ^ i) mod d)"
    using div_l_step_eq [OF q r assms(3)] double_div_mod [of d "a * 2 ^ i"] assms by simp
  then show ?case using Suc by (simp add: mult.left_commute)
qed

lemma div_l_eq:
  assumes "0 \<le> x" "x \<le> 2147483647" "0 < d" "d \<le> 32767"
  shows "div_l x d = Some (if d * 65536 \<le> x then 32767 else x div (2 * d))"
proof (cases "d * 65536 \<le> x")
  case True
  then show ?thesis using assms by (simp add: div_l_def L_deposit_h_eq is_s16_def limits_def)
next
  case False
  let ?n = "x div 2" and ?d = "d * 32768"
  have s: "L_shr x 1 = ?n" "L_shr (d * 65536) 1 = ?d" using assms by (simp_all add: L_shr_right shr_def is_s32_def)
  have "(div_l_step ?d ^^ 15) (0, ?n) = (?n * 2 ^ 15 div ?d, ?n * 2 ^ 15 mod ?d)"
    by (rule div_l_loop) (use False assms in auto)
  moreover have "?n * 2 ^ 15 div ?d = x div (2 * d)" using assms by (simp add: zdiv_zmult2_eq [of d x 2])
  ultimately show ?thesis using False assms
    by (simp add: div_l_def L_deposit_h_eq is_s16_def s)
qed

section \<open>Double precision\<close>

lemma L_Extract_eq:
  assumes "is_s32 x"
  shows "L_Extract x = (x div 65536, x mod 65536 div 2)"
proof -
  have h: "extract_h x = x div 65536" using assms by (rule extract_h_eq)
  have r: "- 32768 \<le> x div 65536" "x div 65536 \<le> 32767"
    using assms shr_bounds [of "- 32768" 16 x 32767] by (simp_all add: is_s32_def shr_def)
  have "x div 2 = (x mod 65536 + x div 65536 * 32768 * 2) div 2" by simp
  also have "\<dots> = x mod 65536 div 2 + x div 65536 * 32768" by (subst div_mult_self1) simp_all
  finally have m: "x div 2 = x mod 65536 div 2 + x div 65536 * 32768" .
  have l: "0 \<le> x mod 65536 div 2" "x mod 65536 div 2 \<le> 32767" using pos_mod_bound [of 65536 x] by auto
  obtain u v where uv: "x div 65536 = u" "x mod 65536 div 2 = v" by blast
  have "L_shr x 1 = v + u * 32768" "is_s32 (v + u * 32768)"
    using m shr_shrinks [OF assms, of 1] by (simp_all add: L_shr_right assms shr_def uv)
  then have "L_msu (L_shr x 1) u 16384 = v"
    using r l unfolding uv by (simp add: L_msu_eq is_s16_def clamp_id)
  then show ?thesis using l unfolding uv by (simp add: L_Extract_def h uv extract_l_def s16_idI)
qed

lemma L_Extract_parts:
  assumes "is_s32 x" "L_Extract x = (hi, lo)"
  shows "is_s16 hi" "0 \<le> lo" "is_s16 lo" "0 \<le> hi \<longleftrightarrow> 0 \<le> x"
proof -
  have e: "hi = x div 65536" "lo = x mod 65536 div 2" using assms(2) L_Extract_eq [OF assms(1)] by simp_all
  show "is_s16 hi" using assms(1) shr_bounds [of "- 32768" 16 x 32767] by (simp add: e is_s32_def is_s16_def shr_def)
  show "0 \<le> lo" "is_s16 lo" using pos_mod_bound [of 65536 x] by (auto simp: e is_s16_def)
  show "0 \<le> hi \<longleftrightarrow> 0 \<le> x" by (simp add: e pos_imp_zdiv_nonneg_iff)
qed

lemma Mpy_32_16_nonneg:
  assumes "0 \<le> hi" "0 \<le> lo" "0 \<le> n" "is_s16 hi" "is_s16 lo" "is_s16 n"
  shows "0 \<le> Mpy_32_16 hi lo n"
proof -
  have "0 \<le> L_mult hi n" using assms by (simp add: L_mult_eq)
  moreover have "0 \<le> mult lo n" using assms by (simp add: mult_eq pos_imp_zdiv_nonneg_iff)
  ultimately show ?thesis
    by (simp add: Mpy_32_16_def Let_def L_mac_eq is_s16_def [of 1])
qed


section \<open>Properties\<close>

text \<open>(C39) The arithmetic of the codec saturates and never wraps: on 16 bit operands the sum, the
  difference, the fractional products and the 32 bit product, and on 32 bit operands the sum and the
  difference, are the exact result limited to the range of the result type.\<close>

theorem operators_saturate:
  assumes "is_s16 a" "is_s16 b" "is_s32 x" "is_s32 y"
  shows "add a b = sat16 (a + b) \<and> sub a b = sat16 (a - b) \<and> mult a b = sat16 (a * b div 32768)
    \<and> mult_r a b = sat16 ((a * b + 16384) div 32768) \<and> L_mult a b = sat32 (2 * (a * b))
    \<and> L_add x y = sat32 (x + y) \<and> L_sub x y = sat32 (x - y)
    \<and> L_mac0 x a b = sat32 (x + a * b) \<and> L_mac x a b = sat32 (x + sat32 (2 * (a * b)))"
  using assms by (simp add: add_eq sub_eq mult_eq mult_r_eq L_mult_eq L_add_eq L_sub_eq L_mac0_eq L_mac_eq)

theorem operators_saturate_witness:
  "mult (- 32768) (- 32768) = 32767 \<and> L_add 2147483647 1 = 2147483647"
  using operators_saturate [of "- 32768" "- 32768" 2147483647 1]
  by (simp add: is_s16_def is_s32_def clamp_def)

text \<open>(C40) The fractional division \<open>div_s\<close> returns exactly for a denominator that is positive and
  not below a numerator that is not negative, and then the quotient rounded down in Q15 (limited to
  32767, which is the result for equal arguments); in all other cases it aborts the program.\<close>

theorem div_s_domain:
  assumes "is_s16 a" "is_s16 d"
  shows "div_s a d = (if 0 \<le> a \<and> a \<le> d \<and> 0 < d then Some (min 32767 (a * 32768 div d)) else None)"
  using assms div_s_eq [of a d] by (auto simp: is_s16_def div_s_def)

theorem div_s_domain_witness: "div_s 1 3 = Some 10922 \<and> div_s 3 1 = None"
  using div_s_domain [of 1 3] div_s_domain [of 3 1] by (simp add: is_s16_def)

text \<open>\<open>norm_l\<close> returns for every 32 bit number: its loop, which would run for ever on zero or
  on a negative number, is only entered with positive ones. The result is the number of places the
  number can be shifted up without overflow, which \<open>L_shl\<close> then does exactly.\<close>

theorem norm_l_returns:
  assumes "is_s32 x" "x \<noteq> 0"
  shows "(x = - 1 \<or> norm_l_loop (if x < 0 then NOT x else x) 0 = Some (norm_l x))
    \<and> 0 \<le> norm_l x \<and> norm_l x \<le> 31 \<and> L_shl x (norm_l x) = x * 2 ^ nat (norm_l x)
    \<and> (if x < 0 then L_shl x (norm_l x) < - 1073741824 else 1073741824 \<le> L_shl x (norm_l x))"
proof -
  have "x = - 1 \<or> norm_l_loop (if x < 0 then NOT x else x) 0 = Some (norm_l x)"
  proof (cases "x = - 1")
    case False
    note n = this
    define y where "y = (if x < 0 then NOT x else x)"
    have "0 < y" "y < 2147483648" using n assms by (auto simp: y_def is_s32_def not_int_def)
    then have "\<exists>n\<le>30. norm_l_loop y 0 = Some (0 + int n) \<and> 1073741824 \<le> y * 2 ^ n \<and> y * 2 ^ n < 2147483648"
      by (intro norm_l_loop_ends) auto
    then show ?thesis using n assms unfolding y_def [symmetric] norm_l_def Let_def by auto
  qed simp
  moreover have "0 \<le> norm_l x \<and> norm_l x \<le> 31 \<and> L_shl x (norm_l x) = x * 2 ^ nat (norm_l x)
      \<and> (if x < 0 then L_shl x (norm_l x) < - 1073741824 else 1073741824 \<le> L_shl x (norm_l x))"
    using norm_l_pos [of x] norm_l_neg [of x] norm_l_range [of x] L_shl_norm [of x] assms by auto
  ultimately show ?thesis by blast
qed

theorem norm_l_returns_witness: "L_shl (- 5) (norm_l (- 5)) < - 1073741824"
  using norm_l_returns [of "- 5"] by (simp add: is_s32_def)

text \<open>The double precision format of the codec: \<open>L_Extract\<close> splits a 32 bit number into a high
  and a low half from which \<open>L_Comp\<close> rebuilds it, up to its lowest bit.\<close>

theorem L_Comp_L_Extract:
  assumes "is_s32 x"
  shows "(case L_Extract x of (hi, lo) \<Rightarrow> L_Comp hi lo) = x - x mod 2"
proof -
  obtain u v where uv: "x div 65536 = u" "x mod 65536 div 2 = v" by blast
  have r: "is_s16 u" "is_s16 v" "0 \<le> v"
    using L_Extract_parts [OF assms L_Extract_eq [OF assms]] unfolding uv by simp_all
  have "x mod 65536 = 2 * v + x mod 2"
    using mult_div_mod_eq [of 2 "x mod 65536"] mod_mod_cancel [of 2 65536 x] uv by simp
  then have e: "u * 65536 + 2 * v = x - x mod 2" using div_mult_mod_eq [of x 65536] uv by linarith
  have m: "0 \<le> x mod 2" "x mod 2 \<le> 1" using pos_mod_bound [of 2 x] by simp_all
  have "is_s32 (x - x mod 2)" using r m assms unfolding e [symmetric] by (auto simp: is_s32_def is_s16_def)
  then show ?thesis using r e
    by (simp add: L_Extract_eq [OF assms] uv L_Comp_def L_deposit_h_eq L_mac_eq is_s16_def is_s32_def clamp_id)
qed

theorem L_Comp_L_Extract_witness: "(case L_Extract 123457 of (hi, lo) \<Rightarrow> L_Comp hi lo) = 123456"
  using L_Comp_L_Extract [of 123457] by (simp add: is_s32_def)

end
