(* ===== verification/BV_Math.thy ===== *)
theory BV_Math
  imports BV_Basop BV_Tables
begin

text \<open>
  The elementary functions of \<open>bvcommon/mathutil.c\<close>: powers of two, logarithm, square root and
  inverse square root, by interpolation in 65 entry tables. \<open>None\<close> is a table access out of its bounds or
  a division \<open>div_s\<close> outside of its domain; the lemmas show that neither happens.
\<close>

section \<open>Definitions\<close>

definition Pow2 :: "int \<Rightarrow> int \<Rightarrow> int option" where
  "Pow2 int_comp frac_comp = do {
     let idx_frac = shr_16 frac_comp 9;
     let sub_frac = s16 (frac_comp AND 0x01FF);
     let sub_frac = shl sub_frac 6;
     frac \<leftarrow> get tabpow idx_frac;
     let a0 = L_deposit_h frac;
     next_tab \<leftarrow> get tabpow (idx_frac + 1);
     let sub_tab = sub next_tab frac;
     let a0 = L_mac a0 sub_frac sub_tab;
     Some (L_shr_r a0 (sub 30 int_comp)) }"

definition Log2 :: "int \<Rightarrow> (int \<times> int) option" where
  "Log2 x = (if x \<le> 0 then Some (0, 0)
     else do {
       let exp = norm_l x;
       let a0 = L_shl x exp;
       let a0 = L_shr (L_sub a0 0x40000000) 8;
       let idx_man = extract_h a0;
       let sub_man = extract_l (L_shr (a0 AND 0xFFFF) 1);
       t \<leftarrow> get tablog idx_man;
       let a0 = L_deposit_h t;
       t1 \<leftarrow> get tablog (idx_man + 1);
       let sub_tab = sub t1 t;
       let a0 = L_mac a0 sub_man sub_tab;
       Some (sub 30 exp, intround a0) })"

text \<open>The interpolation of the two square roots: index and fraction of a normalised number.\<close>

definition sqrt_table :: "int \<Rightarrow> int option" where
  "sqrt_table xb = do {
     let idx = shr_16 xb 9;
     t \<leftarrow> get tabsqrt idx;
     let a0 = L_deposit_h t;
     let sub_frac = shl (s16 (xb AND 0x01FF)) 6;
     t1 \<leftarrow> get tabsqrt (idx + 1);
     let sub_tab = sub t1 t;
     Some (L_mac a0 sub_frac sub_tab) }"

definition sqrts :: "int \<Rightarrow> int option" where
  "sqrts x = (if x \<le> 0 then Some 0
     else do {
       let exp = norm_s x;
       let xb = shl x exp;
       a0 \<leftarrow> sqrt_table xb;
       let a0 = (if exp AND 0x0001 \<noteq> 0
                 then let exp = shr_16 (add exp 1) 1;
                          a0 = L_shr a0 exp;
                          y = intround a0
                      in L_mac a0 13573 y
                 else let exp = shr_16 exp 1 in L_shr a0 exp);
       Some (intround a0) })"

definition sqrt_i :: "int \<Rightarrow> int \<Rightarrow> (int \<times> int) option" where
  "sqrt_i x_man x_exp = (if x_man \<le> 0 then Some (0, 0)
     else do {
       let exp = norm_s x_man;
       let x_manb = shl x_man exp;
       let x_expb = add x_exp exp;
       let x_expb = sub x_expb 15;
       a0 \<leftarrow> sqrt_table x_manb;
       let exp = norm_l a0;
       let y = intround (L_shl a0 exp);
       let exp = add 15 exp;
       if x_expb AND 0x0001 \<noteq> 0
       then if y < 0x5A82
            then do {
              let exp = add exp (shr_16 (add x_expb 1) 1);
              y_man \<leftarrow> div_s 0x2D41 y;
              Some (y_man, sub 29 exp) }
            else do {
              let exp = add exp (shr_16 (sub x_expb 1) 1);
              y_man \<leftarrow> div_s 0x5A82 y;
              Some (y_man, sub 29 exp) }
       else do {
         let exp = add exp (shr_16 x_expb 1);
         y_man \<leftarrow> div_s 0x4000 y;
         Some (y_man, sub 29 exp) } })"

section \<open>They are defined on all arguments\<close>

lemma low_bits_9: "x AND 0x01FF = x mod 512" for x :: int
  using take_bit_eq_mask [of 9 x] by (simp add: take_bit_eq_mod mask_eq_exp_minus_1)

lemma low_bits_16: "x AND 0xFFFF = x mod 65536" for x :: int
  using take_bit_eq_mask [of 16 x] by (simp add: take_bit_eq_mod mask_eq_exp_minus_1)

lemma low_bits_s16 [simp]: "is_s16 (x mod 512)"
  using pos_mod_bound [of 512 x] pos_mod_sign [of 512 x] unfolding is_s16_def by linarith

lemma L_shr_r_type [simp]: "is_s32 x \<Longrightarrow> is_s32 (L_shr_r x n)"
  by (simp add: L_shr_r_def Let_def)

lemma shr_r_type [simp]: "is_s16 x \<Longrightarrow> is_s16 (shr_r x n)"
  by (simp add: shr_r_def Let_def)

text \<open>A number below 2^15 has an index below 64 in the tables.\<close>

lemma index_9:
  assumes "0 \<le> x" "x \<le> 32767"
  shows "shr_16 x 9 = x div 512" "0 \<le> x div 512" "x div 512 < 64"
proof -
  show "shr_16 x 9 = x div 512" using assms by (simp add: shr_16_right is_s16_def shr_def)
  show "0 \<le> x div 512" "x div 512 < 64" using assms by (auto intro: int_div_less)
qed

lemma Pow2_ok:
  assumes "0 \<le> frac_comp" "frac_comp \<le> 32767"
  shows "\<exists>y. Pow2 int_comp frac_comp = Some y \<and> is_s32 y"
  using index_9 [OF assms] by (simp add: Pow2_def Let_def)

lemma Log2_ok:
  assumes "is_s32 x"
  shows "\<exists>i f. Log2 x = Some (i, f) \<and> is_s16 i \<and> is_s16 f"
proof (cases "x \<le> 0")
  case True
  then show ?thesis by (simp add: Log2_def)
next
  case False
  define y where "y = L_shl x (norm_l x)"
  have y: "1073741824 \<le> y" "y \<le> 2147483647"
    using norm_l_pos [of x] False assms by (simp_all add: y_def L_shl_norm)
  define m where "m = y - 1073741824"
  have m: "0 \<le> m" "m < 1073741824" using y by (simp_all add: m_def)
  then have s: "L_sub y 1073741824 = m" using y by (simp add: L_sub_eq is_s32_def m_def clamp_id)
  have d: "0 \<le> m div 256" "m div 256 < 4194304" using m by (auto intro: int_div_less)
  have i: "extract_h (L_shr m 8) = m div 256 div 65536"
    using m d by (simp add: L_shr_right shr_def is_s32_def extract_h_eq)
  have "0 \<le> m div 256 div 65536" "m div 256 div 65536 < 64" using d by (auto intro: int_div_less)
  then show ?thesis using False
    by (simp add: Log2_def y_def [symmetric] s i Let_def)
qed

text \<open>The interpolated root of a number of at least 1/2 is at least \<open>sqrt (1/2)\<close>.\<close>

lemma tabsqrt_high: "\<forall>t\<in>set (drop 32 tabsqrt). 23170 \<le> t"
  by code_simp

lemma tabsqrt_steps: "\<forall>i<64. tabsqrt ! i \<le> tabsqrt ! Suc i"
  unfolding tabsqrt_def by (simp add: numeral_nat less_Suc_eq)

lemma sqrt_table_ok:
  assumes "0 \<le> xb" "xb \<le> 32767"
  shows "\<exists>a. sqrt_table xb = Some a \<and> is_s32 a \<and> (16384 \<le> xb \<longrightarrow> 1518469120 \<le> a)"
proof -
  note i = index_9 [OF assms]
  define k where "k = nat (xb div 512)"
  have k: "k < 64" "get tabsqrt (xb div 512) = Some (tabsqrt ! k)" "get tabsqrt (xb div 512 + 1) = Some (tabsqrt ! Suc k)"
    using i by (simp_all add: k_def nat_add_distrib)
  have t: "is_s16 (tabsqrt ! k)" "is_s16 (tabsqrt ! Suc k)" using k(1) arr_nth [OF tabsqrt_arr] by simp_all
  have le: "tabsqrt ! k \<le> tabsqrt ! Suc k" using tabsqrt_steps k(1) by blast
  let ?f = "shl (s16 (xb AND 0x01FF)) 6" and ?d = "sub (tabsqrt ! Suc k) (tabsqrt ! k)"
  have f: "0 \<le> ?f" "is_s16 ?f" by (simp_all add: low_bits_9 shl_left)
  have d: "0 \<le> ?d" using le by (simp add: sub_eq t)
  have a: "L_mac (L_deposit_h (tabsqrt ! k)) ?f ?d
      = sat32 (tabsqrt ! k * 65536 + sat32 (2 * (?f * ?d)))"
    using f(2) by (simp add: L_mac_eq) (simp add: L_deposit_h_eq t)
  have "1518469120 \<le> L_mac (L_deposit_h (tabsqrt ! k)) ?f ?d" if h: "16384 \<le> xb"
  proof -
    have "32 \<le> xb div 512" using zdiv_mono1 [OF h, of 512] by simp
    then have "32 \<le> k" by (simp add: k_def)
    then have "tabsqrt ! k = drop 32 tabsqrt ! (k - 32)" "k - 32 < length (drop 32 tabsqrt)"
      using k(1) by (simp_all add: arr_length [OF tabsqrt_arr])
    then have "tabsqrt ! k \<in> set (drop 32 tabsqrt)" using nth_mem by metis
    then have "23170 \<le> tabsqrt ! k" using tabsqrt_high by blast
    moreover have "0 \<le> sat32 (2 * (?f * ?d))" using f d by simp
    ultimately show ?thesis unfolding a by (simp add: clamp_def)
  qed
  then show ?thesis using k i by (simp add: sqrt_table_def Let_def)
qed

lemma sqrts_ok: "is_s16 x \<Longrightarrow> \<exists>y. sqrts x = Some y \<and> is_s16 y"
proof (cases "x \<le> 0")
  case True
  then show ?thesis by (simp add: sqrts_def)
next
  case False
  assume x: "is_s16 x"
  have "shl x (norm_s x) = x * 2 ^ nat (norm_s x)"
    using norm_s_pos [of x] False x by (simp add: shl_left clamp_id)
  then obtain a where "sqrt_table (shl x (norm_s x)) = Some a"
    using norm_s_pos [of x] False x sqrt_table_ok [of "shl x (norm_s x)"] by auto
  then show ?thesis using False by (simp add: sqrts_def Let_def)
qed

lemma sqrt_i_ok:
  assumes "is_s16 x_man"
  shows "\<exists>m e. sqrt_i x_man x_exp = Some (m, e) \<and> is_s16 m \<and> is_s16 e"
proof (cases "x_man \<le> 0")
  case True
  then show ?thesis by (simp add: sqrt_i_def)
next
  case False
  let ?x = "shl x_man (norm_s x_man)"
  have "?x = x_man * 2 ^ nat (norm_s x_man)"
    using norm_s_pos [of x_man] False assms by (simp add: shl_left clamp_id)
  then have "16384 \<le> ?x" "?x \<le> 32767" using norm_s_pos [of x_man] False assms by simp_all
  then obtain a where a: "sqrt_table ?x = Some a" "is_s32 a" "1518469120 \<le> a"
    using sqrt_table_ok [of ?x] by auto
  have p: "(1 :: int) \<le> 2 ^ nat (norm_l a)" by simp
  have s: "L_shl a (norm_l a) = a * 2 ^ nat (norm_l a)" using a by (simp add: L_shl_norm)
  have "a * 1 \<le> a * 2 ^ nat (norm_l a)" using a(3) p by (intro mult_left_mono) auto
  then have b: "1518469120 \<le> L_shl a (norm_l a)" using a(3) unfolding s by linarith
  define y where "y = intround (L_shl a (norm_l a))"
  have "y = sat32 (L_shl a (norm_l a) + 32768) div 65536" using a by (simp add: y_def intround_eq)
  moreover have "1518469120 div 65536 \<le> sat32 (L_shl a (norm_l a) + 32768) div 65536"
    using b by (intro zdiv_mono1) (auto simp: clamp_def)
  ultimately have "23170 \<le> y" by simp
  moreover have "y \<le> 32767" using s16_ops(7) by (simp add: y_def is_s16_def)
  ultimately have d: "\<exists>q. div_s 0x2D41 y = Some q \<and> is_s16 q" "\<exists>q. div_s 0x4000 y = Some q \<and> is_s16 q"
    "\<not> y < 0x5A82 \<longrightarrow> (\<exists>q. div_s 0x5A82 y = Some q \<and> is_s16 q)"
    using div_s_ok [of 11585 y] div_s_ok [of 16384 y] div_s_ok [of 23170 y] by (auto simp: is_s16_def)
  then show ?thesis using False a(1) by (auto simp: sqrt_i_def y_def [symmetric] Let_def)
qed

end
