(* ===== verification/BV_Common.thy ===== *)
theory BV_Common
  imports "HOL-Library.Multiset" BV_Math
begin

text \<open>
  The routines of \<open>bvcommon\<close> that the encoder and the decoder of BroadVoice16 share: copies
  (\<open>utility.c\<close>), filters (\<open>allzero.c\<close>, \<open>allpole.c\<close>), decoding of code vectors and pitch taps
  (\<open>vqdecode.c\<close>, \<open>ptdec.c\<close>), ordering and spacing of the line spectral frequencies
  (\<open>stblzlsp.c\<close>) and their conversion to predictor coefficients (\<open>lsp2a.c\<close>).

  A pointer into an array is the array with an offset. Local arrays, which the C code leaves
  uninitialised, start as zeros: every cell is written before it is read.
\<close>

section \<open>Sizes (\<open>bvcommon.h\<close>, \<open>allpole.c\<close>)\<close>

definition LPCO :: nat where "LPCO = 8"
definition Ngrd :: nat where "Ngrd = 60"
definition LSPMIN :: int where "LSPMIN = 49"
definition LSPMAX :: int where "LSPMAX = 32694"
definition DLSPMIN :: int where "DLSPMIN = 410"
definition STBLDIM :: nat where "STBLDIM = 3"
definition BUFFERSIZE :: nat where "BUFFERSIZE = LPCO + 160"

section \<open>Copies (\<open>utility.c\<close>)\<close>

definition W16copy :: "int list \<Rightarrow> nat \<Rightarrow> int list \<Rightarrow> nat \<Rightarrow> nat \<Rightarrow> int list option" where
  "W16copy y yo x xo n = for_up 0 n (\<lambda>i y. do {
     v \<leftarrow> get x (int xo + i);
     put y (int yo + i) v }) y"

definition W16zero :: "int list \<Rightarrow> nat \<Rightarrow> int list option" where
  "W16zero x n = for_up 0 n (\<lambda>i x. put x i 0) x"

text \<open>Copies of 8 and 32 bit cells are the same loop.\<close>

definition UW8copy :: "int list \<Rightarrow> nat \<Rightarrow> int list \<Rightarrow> nat \<Rightarrow> nat \<Rightarrow> int list option" where
  "UW8copy y yo x xo n = for_up 0 n (\<lambda>i y. do {
     v \<leftarrow> get x (int xo + i);
     put y (int yo + i) v }) y"

definition W32copy :: "int list \<Rightarrow> nat \<Rightarrow> int list \<Rightarrow> nat \<Rightarrow> nat \<Rightarrow> int list option" where
  "W32copy y yo x xo n = for_up 0 n (\<lambda>i y. do {
     v \<leftarrow> get x (int xo + i);
     put y (int yo + i) v }) y"

section \<open>Code vectors (\<open>vqdecode.c\<close>, \<open>ptdec.c\<close>)\<close>

definition vqdec :: "int list \<Rightarrow> int \<Rightarrow> int list \<Rightarrow> nat \<Rightarrow> int list option" where
  "vqdec xq idx cb vdim = do {
     let j = s16 (idx * int vdim);
     for_up 0 vdim (\<lambda>k xq. do {
       v \<leftarrow> get cb (j + k);
       put xq k v }) xq }"

definition pp3dec :: "int \<Rightarrow> int list \<Rightarrow> int list option" where
  "pp3dec idx b = for_up 0 3 (\<lambda>i b. do {
     v \<leftarrow> get pp9cb (idx * 9 + i);
     put b i v }) b"

section \<open>Filters (\<open>allzero.c\<close>, \<open>allpole.c\<close>)\<close>

definition azfilter :: "int list \<Rightarrow> nat \<Rightarrow> int list \<Rightarrow> nat \<Rightarrow> int list \<Rightarrow> nat \<Rightarrow> nat \<Rightarrow> int list option" where
  "azfilter a m x xo y yo lg = for_up 0 lg (\<lambda>n y. do {
     c0 \<leftarrow> get a 0;
     v0 \<leftarrow> get x (int xo + n);
     a0 \<leftarrow> for_up 1 (m + 1) (\<lambda>i a0. do {
        c \<leftarrow> get a i;
        v \<leftarrow> get x (int xo + n - i);
        Some (L_mac0 a0 c v) }) (L_mult0 c0 v0);
     put y (int yo + n) (intround (L_shl a0 4)) }) y"

text \<open>The result: output array and filter memory.\<close>

definition apfilter :: "int list \<Rightarrow> nat \<Rightarrow> int list \<Rightarrow> nat \<Rightarrow> int list \<Rightarrow> nat \<Rightarrow> nat \<Rightarrow> int list \<Rightarrow> int \<Rightarrow>
    (int list \<times> int list) option" where
  "apfilter a m x xo y yo lg mem update = do {
     buf \<leftarrow> W16copy (replicate BUFFERSIZE 0) 0 mem 0 m;
     buf \<leftarrow> for_up 0 lg (\<lambda>n buf. do {
        v \<leftarrow> get x (int xo + n);
        a0 \<leftarrow> for_up 0 m (\<lambda>k a0. do {
           c \<leftarrow> get a (int m - k);
           w \<leftarrow> get buf (n + k);
           Some (L_msu0 a0 c w) }) (L_mult0 4096 v);
        put buf (n + int m) (intround (L_shl a0 4)) }) buf;
     y \<leftarrow> W16copy y yo buf m lg;
     mem \<leftarrow> (if update \<noteq> 0 then W16copy mem 0 buf lg m else Some mem);
     Some (y, mem) }"

section \<open>Ordering and spacing (\<open>stblzlsp.c\<close>)\<close>

definition order_pass :: "nat \<Rightarrow> int list \<Rightarrow> (int list \<times> int) option" where
  "order_pass order lsp = for_up 0 (order - 1) (\<lambda>i (lsp, k). do {
     u \<leftarrow> get lsp i;
     v \<leftarrow> get lsp (i + 1);
     if u > v then do {
       lsp \<leftarrow> put lsp (i + 1) u;
       lsp \<leftarrow> put lsp i v;
       Some (lsp, 1) }
     else Some (lsp, k) }) (lsp, 0)"

partial_function (option) order_loop :: "nat \<Rightarrow> int list \<Rightarrow> int list option" where
  "order_loop order lsp = Option.bind (order_pass order lsp) (\<lambda>(lsp, k).
     if k > 0 then order_loop order lsp else Some lsp)"

declare order_loop.simps [code]

definition space_step :: "int \<Rightarrow> int list \<times> int \<Rightarrow> (int list \<times> int) option" where
  "space_step i = (\<lambda>(lsp, maxtmp). do {
     u \<leftarrow> get lsp i;
     v \<leftarrow> get lsp (i + 1);
     let mintmp = add u DLSPMIN;
     let maxtmp = add maxtmp DLSPMIN;
     lsp \<leftarrow> (if v < mintmp then put lsp (i + 1) mintmp
             else if v > maxtmp then put lsp (i + 1) maxtmp
             else Some lsp);
     Some (lsp, maxtmp) })"

definition stblz_lsp :: "int list \<Rightarrow> nat \<Rightarrow> int list option" where
  "stblz_lsp lsp order = do {
     lsp \<leftarrow> order_loop order lsp;
     let maxtmp = sub LSPMAX (s16 ((int order - 1) * DLSPMIN));
     u \<leftarrow> get lsp 0;
     lsp \<leftarrow> (if u < LSPMIN then put lsp 0 LSPMIN
             else if u > maxtmp then put lsp 0 maxtmp
             else Some lsp);
     (lsp, maxtmp) \<leftarrow> for_up 0 (order - 1) space_step (lsp, maxtmp);
     Some lsp }"

definition stblchck :: "int list \<Rightarrow> nat \<Rightarrow> int option" where
  "stblchck x vdim = do {
     x0 \<leftarrow> get x 0;
     if x0 < 0 then Some 0
     else for_up 1 vdim (\<lambda>k stbl. do {
       u \<leftarrow> get x k;
       v \<leftarrow> get x (k - 1);
       Some (if u < v then 0 else stbl) }) 1 }"

section \<open>Frequencies to predictor coefficients (\<open>lsp2a.c\<close>)\<close>

text \<open>The cosine of a frequency, interpolated in the table, and the update of the polynomial.\<close>

definition lsp_cosine :: "int \<Rightarrow> int option" where
  "lsp_cosine l = do {
     let index = shr_16 l 9;
     let offset = s16 (l AND 0x01ff);
     t1 \<leftarrow> get costable (index + 1);
     t \<leftarrow> get costable index;
     let a0 = L_mult (sub t1 t) offset;
     Some (add t (intround (L_shl a0 6))) }"

definition polynomial_step :: "int \<Rightarrow> int \<Rightarrow> int list \<Rightarrow> int list option" where
  "polynomial_step c i f = do {
     f1 \<leftarrow> get f (i - 1);
     let (hi, lo) = L_Extract f1;
     fi \<leftarrow> get f i;
     f2 \<leftarrow> get f (i - 2);
     f \<leftarrow> put f i (L_add fi f2);
     let a0 = Mpy_32_16 hi lo c;
     fi \<leftarrow> get f i;
     put f i (L_sub fi (L_shl a0 1)) }"

definition get_pq_polynomials :: "int list \<Rightarrow> int list \<Rightarrow> int \<Rightarrow> int list option" where
  "get_pq_polynomials f lsp off = do {
     f \<leftarrow> put f 0 (L_mult 2048 2048);
     f \<leftarrow> for_up 1 (LPCO + 1) (\<lambda>i f. put f i 0) f;
     for_up 1 (LPCO div 2 + 1) (\<lambda>n f. do {
       l \<leftarrow> get lsp (off + 2 * n - 2);
       c \<leftarrow> lsp_cosine l;
       f \<leftarrow> for_down 2 (nat (2 * n) + 1) (polynomial_step c) f;
       f1 \<leftarrow> get f 1;
       put f 1 (L_msu f1 c 256) }) f }"

definition lsp2a :: "int list \<Rightarrow> int list \<Rightarrow> int list option" where
  "lsp2a lsp a = do {
     p \<leftarrow> get_pq_polynomials (replicate (LPCO + 1) 0) lsp 0;
     q \<leftarrow> get_pq_polynomials (replicate (LPCO + 1) 0) lsp 1;
     a \<leftarrow> put a 0 4096;
     p1 \<leftarrow> get p 1;
     q1 \<leftarrow> get q 1;
     let a0 = L_add p1 q1;
     a \<leftarrow> put a 1 (intround (L_shl a0 4));
     for_up 1 LPCO (\<lambda>i a. do {
       pi \<leftarrow> get p i; pn \<leftarrow> get p (i + 1); qn \<leftarrow> get q (i + 1); qi \<leftarrow> get q i;
       let a0 = L_add pi pn;
       let a0 = L_add a0 qn;
       let a0 = L_sub a0 qi;
       put a (i + 1) (intround (L_shl a0 4)) }) a }"

section \<open>Copies\<close>

lemma W16copy_nth:
  assumes "xo + n \<le> length x" "yo + n \<le> length y"
  shows "\<exists>t. W16copy y yo x xo n = Some t \<and> length t = length y \<and>
    (\<forall>k<length y. t ! k = (if yo \<le> k \<and> k < yo + n then x ! (xo + (k - yo)) else y ! k))"
  unfolding W16copy_def
proof (rule for_up_rule [where P = "\<lambda>i t. length t = length y \<and>
    (\<forall>k<length y. t ! k = (if yo \<le> k \<and> k < yo + i then x ! (xo + (k - yo)) else y ! k))"])
  fix i t assume i: "i < n" and t: "length t = length y \<and>
    (\<forall>k<length y. t ! k = (if yo \<le> k \<and> k < yo + i then x ! (xo + (k - yo)) else y ! k))"
  have "nat (int yo + int i) = yo + i" "nat (int xo + int i) = xo + i" by simp_all
  then show "\<exists>t'. (do { v \<leftarrow> get x (int xo + int i); put t (int yo + int i) v }) = Some t' \<and>
      length t' = length y \<and> (\<forall>k<length y. t' ! k = (if yo \<le> k \<and> k < yo + Suc i then x ! (xo + (k - yo)) else y ! k))"
    using i t assms by (auto simp: nth_list_update)
qed simp_all

lemma W16copy_eq:
  assumes "xo + n \<le> length x" "yo + n \<le> length y"
  shows "W16copy y yo x xo n = Some (take yo y @ take n (drop xo x) @ drop (yo + n) y)"
proof -
  obtain t where t: "W16copy y yo x xo n = Some t" "length t = length y"
    "\<forall>k<length y. t ! k = (if yo \<le> k \<and> k < yo + n then x ! (xo + (k - yo)) else y ! k)"
    using W16copy_nth [OF assms] by blast
  have "t = take yo y @ take n (drop xo x) @ drop (yo + n) y"
  proof (rule nth_equalityI)
    fix k assume "k < length t"
    moreover have "length (take n (drop xo x)) = n" "length (take yo y) = yo" using assms by simp_all
    ultimately show "t ! k = (take yo y @ take n (drop xo x) @ drop (yo + n) y) ! k"
      using assms t(2) by (cases "k < yo"; cases "k < yo + n") (auto simp: t(3) nth_append simp del: length_take)
  qed (use assms t(2) in simp)
  then show ?thesis using t(1) by simp
qed

lemma W16copy_ok:
  assumes "arr P m y" "arr P k x" "xo + n \<le> k" "yo + n \<le> m"
  shows "\<exists>r. W16copy y yo x xo n = Some r \<and> arr P m r"
proof -
  have "W16copy y yo x xo n = copy_block y yo x xo n"
    using W16copy_eq [of xo n x yo y] assms by (simp add: copy_block_def arr_length)
  then show ?thesis using copy_block_ok [OF assms(1,2,3)] assms(4) by simp
qed

lemma W16zero_eq:
  assumes "n \<le> length x"
  shows "W16zero x n = Some (replicate n 0 @ drop n x)"
proof -
  have "\<exists>t. W16zero x n = Some t \<and> (length t = length x \<and> (\<forall>k<length x. t ! k = (if k < n then 0 else x ! k)))"
    unfolding W16zero_def
    by (rule for_up_rule [where P = "\<lambda>i t. length t = length x \<and> (\<forall>k<length x. t ! k = (if k < i then 0 else x ! k))"])
      (use assms in \<open>auto simp: nth_list_update less_Suc_eq\<close>)
  then obtain t where t: "W16zero x n = Some t" "length t = length x" "\<forall>k<length x. t ! k = (if k < n then 0 else x ! k)"
    by blast
  have "t = replicate n 0 @ drop n x"
    using assms t(2) by (intro nth_equalityI) (auto simp: t(3) nth_append)
  then show ?thesis using t(1) by simp
qed

section \<open>Code vectors and filters\<close>

lemma vqdec_ok:
  assumes "arr P m cb" "arr P vdim xq" "0 \<le> idx" "(idx + 1) * int vdim \<le> int m" "m \<le> 32768"
  shows "\<exists>r. vqdec xq idx cb vdim = Some r \<and> arr P vdim r"
proof -
  have j: "0 \<le> idx * int vdim" "idx * int vdim + int vdim \<le> int m" using assms by (simp_all add: distrib_right)
  then have s: "vdim = 0 \<or> s16 (idx * int vdim) = idx * int vdim" using assms(5) by (auto intro: s16_idI)
  show ?thesis unfolding vqdec_def Let_def
  proof (rule for_up_inv [where P = "arr P vdim"])
    fix i t assume "int 0 \<le> i" "i < int vdim" "arr P vdim t"
    then show "\<exists>t'. (do { v \<leftarrow> get cb (s16 (idx * int vdim) + i); put t i v }) = Some t' \<and> arr P vdim t'"
      using s j assms(1) by (auto intro!: arr_update intro: arr_nth [OF assms(1)])
  qed (rule assms(2))
qed

lemma pp3dec_ok:
  assumes "s16_arr 3 b" "0 \<le> idx" "idx \<le> 31"
  shows "\<exists>r. pp3dec idx b = Some r \<and> s16_arr 3 r"
  unfolding pp3dec_def
proof (rule for_up_inv [where P = "s16_arr 3"])
  fix i t assume "int 0 \<le> i" "i < int 3" "s16_arr 3 t"
  then show "\<exists>t'. (do { v \<leftarrow> get pp9cb (idx * 9 + i); put t i v }) = Some t' \<and> s16_arr 3 t'"
    using assms by (auto intro!: arr_update arr_nth [OF pp9cb_arr])
qed (rule assms(1))

lemma azfilter_ok:
  assumes "s16_arr na a" "s16_arr nx x" "s16_arr ny y" "m < na" "m \<le> xo" "xo + lg \<le> nx" "yo + lg \<le> ny"
  shows "\<exists>r. azfilter a m x xo y yo lg = Some r \<and> s16_arr ny r"
  unfolding azfilter_def
proof (rule for_up_inv [where P = "s16_arr ny"])
  fix n t assume n: "int 0 \<le> n" "n < int lg" and t: "s16_arr ny t"
  have "\<exists>s. for_up 1 (m + 1) (\<lambda>i a0. do { c \<leftarrow> get a i; v \<leftarrow> get x (int xo + n - i); Some (L_mac0 a0 c v) })
      (L_mult0 (a ! 0) (x ! nat (int xo + n))) = Some s \<and> is_s32 s"
    by (rule for_up_inv [where P = is_s32]) (use n assms in auto)
  then obtain s where s: "for_up 1 (m + 1) (\<lambda>i a0. do { c \<leftarrow> get a i; v \<leftarrow> get x (int xo + n - i); Some (L_mac0 a0 c v) })
      (L_mult0 (a ! 0) (x ! nat (int xo + n))) = Some s" "is_s32 s" by blast
  show "\<exists>t'. (do { c0 \<leftarrow> get a 0; v0 \<leftarrow> get x (int xo + n);
      a0 \<leftarrow> for_up 1 (m + 1) (\<lambda>i a0. do { c \<leftarrow> get a i; v \<leftarrow> get x (int xo + n - i); Some (L_mac0 a0 c v) }) (L_mult0 c0 v0);
      put t (int yo + n) (intround (L_shl a0 4)) }) = Some t' \<and> s16_arr ny t'"
    using n t s assms by (auto intro!: arr_update)
qed (rule assms(3))

lemma apfilter_ok:
  assumes "s16_arr na a" "s16_arr nx x" "s16_arr ny y" "s16_arr nm mem" "m < na" "m = nm" "m \<le> 8" "lg \<le> 160"
    and "xo + lg \<le> nx" "yo + lg \<le> ny"
  shows "\<exists>r mem'. apfilter a m x xo y yo lg mem update = Some (r, mem') \<and> s16_arr ny r \<and> s16_arr nm mem'"
proof -
  obtain b0 where b0: "W16copy (replicate BUFFERSIZE 0) 0 mem 0 m = Some b0" "s16_arr 168 b0"
    using W16copy_ok [of is_s16 168 "replicate 168 0" nm mem 0 m 0] assms
    by (auto simp: BUFFERSIZE_def LPCO_def)
  have "\<exists>t. for_up 0 lg (\<lambda>n buf. do { v \<leftarrow> get x (int xo + n);
        a0 \<leftarrow> for_up 0 m (\<lambda>k a0. do { c \<leftarrow> get a (int m - k); w \<leftarrow> get buf (n + k); Some (L_msu0 a0 c w) }) (L_mult0 4096 v);
        put buf (n + int m) (intround (L_shl a0 4)) }) b0 = Some t \<and> s16_arr 168 t"
  proof (rule for_up_inv [where P = "s16_arr 168"])
    fix n t assume n: "int 0 \<le> n" "n < int lg" and t: "s16_arr 168 t"
    have "\<exists>s. for_up 0 m (\<lambda>k a0. do { c \<leftarrow> get a (int m - k); w \<leftarrow> get t (n + k); Some (L_msu0 a0 c w) })
        (L_mult0 4096 (x ! nat (int xo + n))) = Some s \<and> is_s32 s"
      by (rule for_up_inv [where P = is_s32]) (use n t assms in auto)
    then obtain s where "for_up 0 m (\<lambda>k a0. do { c \<leftarrow> get a (int m - k); w \<leftarrow> get t (n + k); Some (L_msu0 a0 c w) })
        (L_mult0 4096 (x ! nat (int xo + n))) = Some s" "is_s32 s" by blast
    then show "\<exists>t'. (do { v \<leftarrow> get x (int xo + n);
        a0 \<leftarrow> for_up 0 m (\<lambda>k a0. do { c \<leftarrow> get a (int m - k); w \<leftarrow> get t (n + k); Some (L_msu0 a0 c w) }) (L_mult0 4096 v);
        put t (n + int m) (intround (L_shl a0 4)) }) = Some t' \<and> s16_arr 168 t'"
      using n t assms by (auto intro!: arr_update)
  qed (rule b0(2))
  then obtain b where b: "for_up 0 lg (\<lambda>n buf. do { v \<leftarrow> get x (int xo + n);
        a0 \<leftarrow> for_up 0 m (\<lambda>k a0. do { c \<leftarrow> get a (int m - k); w \<leftarrow> get buf (n + k); Some (L_msu0 a0 c w) }) (L_mult0 4096 v);
        put buf (n + int m) (intround (L_shl a0 4)) }) b0 = Some b" "s16_arr 168 b" by blast
  obtain r where r: "W16copy y yo b m lg = Some r" "s16_arr ny r"
    using W16copy_ok [OF assms(3) b(2), of m lg yo] assms by auto
  obtain mem' where "W16copy mem 0 b lg m = Some mem'" "s16_arr nm mem'"
    using W16copy_ok [OF assms(4) b(2), of lg m 0] assms by auto
  then show ?thesis using b0 b r assms(4) by (auto simp: apfilter_def)
qed


section \<open>Ordering\<close>

text \<open>A swap of two neighbours in the wrong order increases the sum of the elements weighted by their
  positions; since that sum is bounded, the passes of \<open>stblz_lsp\<close> end.\<close>

definition weighted_sum :: "int list \<Rightarrow> int" where
  "weighted_sum xs = (\<Sum>j<length xs. int j * xs ! j)"

lemma weighted_sum_swap:
  assumes "Suc i < length xs"
  shows "weighted_sum (xs[Suc i := xs ! i, i := xs ! Suc i]) = weighted_sum xs + (xs ! i - xs ! Suc i)"
proof -
  let ?ys = "xs[Suc i := xs ! i, i := xs ! Suc i]"
  have "weighted_sum ?ys - weighted_sum xs = (\<Sum>j<length xs. int j * ?ys ! j - int j * xs ! j)"
    by (simp add: weighted_sum_def sum_subtractf)
  also have "\<dots> = (\<Sum>j<length xs. (if j = i then int i * (xs ! Suc i - xs ! i) else 0)
      + (if j = Suc i then int (Suc i) * (xs ! i - xs ! Suc i) else 0))"
    using assms by (intro sum.cong) (auto simp: nth_list_update algebra_simps)
  also have "\<dots> = xs ! i - xs ! Suc i"
    using assms by (simp add: sum.distrib algebra_simps)
  finally show ?thesis by simp
qed

lemma weighted_sum_bound:
  assumes "s16_arr n xs"
  shows "weighted_sum xs \<le> int (n * n) * 32767"
proof -
  have "weighted_sum xs \<le> (\<Sum>j<n. int n * 32767)"
    unfolding weighted_sum_def arr_length [OF assms]
  proof (rule sum_mono)
    fix j assume "j \<in> {..<n}"
    then have j: "j < n" by simp
    then have "xs ! j \<le> 32767" using arr_nth [OF assms] by (simp add: is_s16_def)
    then have "int j * xs ! j \<le> int j * 32767" by (intro mult_left_mono) auto
    also have "\<dots> \<le> int n * 32767" using j by simp
    finally show "int j * xs ! j \<le> int n * 32767" .
  qed
  then show ?thesis by simp
qed

lemma order_pass_ok:
  assumes "s16_arr n lsp"
  shows "\<exists>r k. order_pass n lsp = Some (r, k) \<and> s16_arr n r \<and> mset r = mset lsp
    \<and> (k > 0 \<longrightarrow> weighted_sum lsp < weighted_sum r) \<and> (\<not> k > 0 \<longrightarrow> r = lsp \<and> sorted r)"
proof -
  let ?P = "\<lambda>i (r, k :: int). s16_arr n r \<and> mset r = mset lsp
    \<and> (k > 0 \<longrightarrow> weighted_sum lsp < weighted_sum r) \<and> (\<not> k > 0 \<longrightarrow> r = lsp \<and> (\<forall>j<i. r ! j \<le> r ! Suc j))"
  have "\<exists>t. order_pass n lsp = Some t \<and> ?P (n - 1) t"
    unfolding order_pass_def
  proof (rule for_up_rule [where P = ?P])
    fix i and t :: "int list \<times> int"
    assume i: "i < n - 1" and P: "?P i t"
    obtain r k where t: "t = (r, k)" by (cases t)
    have r: "s16_arr n r" "mset r = mset lsp" using P by (simp_all add: t)
    have l: "length r = n" "Suc i < n" using i r(1) by (auto simp: arr_length)
    show "\<exists>t'. (case t of (lsp, k) \<Rightarrow> do { u \<leftarrow> get lsp (int i); v \<leftarrow> get lsp (int i + 1);
        if u > v then do { lsp \<leftarrow> put lsp (int i + 1) u; lsp \<leftarrow> put lsp (int i) v; Some (lsp, 1) }
        else Some (lsp, k) }) = Some t' \<and> ?P (Suc i) t'"
    proof (cases "r ! i > r ! Suc i")
      case True
      let ?r = "r[Suc i := r ! i, i := r ! Suc i]"
      have "mset ?r = mset r" using l by (intro mset_swap) auto
      moreover have "weighted_sum r < weighted_sum ?r" using weighted_sum_swap [of i r] l True by simp
      moreover have "weighted_sum lsp \<le> weighted_sum r" using P by (cases "k > 0") (auto simp: t)
      moreover have "s16_arr n ?r" using r(1) l by (auto intro!: arr_update arr_nth [OF r(1)])
      ultimately show ?thesis using True l r by (auto simp: t nat_add_distrib)
    next
      case False
      then show ?thesis using P l by (auto simp: t nat_add_distrib less_Suc_eq)
    qed
  qed (use assms in auto)
  then obtain r k where rk: "order_pass n lsp = Some (r, k)" "?P (n - 1) (r, k)" by auto
  have "sorted r" if "\<forall>j<n - 1. r ! j \<le> r ! Suc j"
    using that rk(2) by (auto simp: sorted_iff_nth_Suc arr_length)
  then show ?thesis using rk by auto
qed

lemma order_loop_ends:
  assumes "s16_arr n lsp"
  shows "\<exists>r. order_loop n lsp = Some r \<and> s16_arr n r \<and> mset r = mset lsp \<and> sorted r"
  using assms
proof (induction "nat (int (n * n) * 32767 - weighted_sum lsp)" arbitrary: lsp rule: less_induct)
  case less
  obtain r k where r: "order_pass n lsp = Some (r, k)" "s16_arr n r" "mset r = mset lsp"
    "k > 0 \<longrightarrow> weighted_sum lsp < weighted_sum r" "\<not> k > 0 \<longrightarrow> r = lsp \<and> sorted r"
    using order_pass_ok [OF less.prems] by blast
  show ?case
  proof (cases "k > 0")
    case True
    then have "\<exists>q. order_loop n r = Some q \<and> s16_arr n q \<and> mset q = mset r \<and> sorted q"
      using r weighted_sum_bound [OF r(2)] by (intro less.hyps) auto
    then show ?thesis using True r by (subst order_loop.simps) simp
  next
    case False
    then show ?thesis using r less.prems by (subst order_loop.simps) auto
  qed
qed

section \<open>Spacing\<close>

text \<open>The frequencies with the least distance between neighbours and from the limits.\<close>

definition spaced :: "int list \<Rightarrow> bool" where
  "spaced lsp \<longleftrightarrow> length lsp = 8 \<and> LSPMIN \<le> lsp ! 0 \<and> lsp ! 7 \<le> LSPMAX \<and>
    (\<forall>i<7. lsp ! i + DLSPMIN \<le> lsp ! Suc i)"

lemma stblz_lsp_ok:
  assumes "s16_arr 8 lsp"
  shows "\<exists>r. stblz_lsp lsp 8 = Some r \<and> s16_arr 8 r \<and> spaced r"
proof -
  obtain q where q: "order_loop 8 lsp = Some q" "s16_arr 8 q" using order_loop_ends [OF assms] by blast
  have mx: "sub LSPMAX (s16 ((int 8 - 1) * DLSPMIN)) = 29824"
    by (simp add: LSPMAX_def DLSPMIN_def s16_idI sub_eq is_s16_def clamp_id)
  let ?q = "if q ! 0 < LSPMIN then q[0 := LSPMIN] else if q ! 0 > 29824 then q[0 := 29824] else q"
  have q0: "s16_arr 8 ?q" "49 \<le> ?q ! 0" "?q ! 0 \<le> 29824"
    using q(2) by (auto simp: LSPMIN_def is_s16_def arr_length intro!: arr_update)
  let ?P = "\<lambda>i (r, m). s16_arr 8 r \<and> m = 29824 + int i * 410 \<and> 49 \<le> r ! 0 \<and> r ! i \<le> m \<and> 0 \<le> r ! i \<and>
    (\<forall>j<i. r ! j + 410 \<le> r ! Suc j)"
  have "\<exists>t. for_up 0 (8 - 1) space_step (?q, 29824) = Some t \<and> ?P (8 - 1) t"
  proof (rule for_up_rule [where P = ?P])
    fix i :: nat and t :: "int list \<times> int"
    assume i: "i < 8 - 1" and P: "?P i t"
    obtain r m where t: "t = (r, m)" by (cases t)
    have r: "s16_arr 8 r" "length r = 8" and m: "m = 29824 + int i * 410" and b: "r ! i \<le> m" "0 \<le> r ! i"
      using P by (auto simp: t arr_length)
    have lo: "add (r ! i) DLSPMIN = r ! i + 410"
      using b m i r(1) arr_nth [OF r(1), of i] by (simp add: add_eq is_s16_def DLSPMIN_def clamp_id)
    have hi: "add m DLSPMIN = 29824 + int (Suc i) * 410"
      using m i by (simp add: add_eq is_s16_def DLSPMIN_def clamp_id)
    let ?v = "if r ! Suc i < r ! i + 410 then r ! i + 410
      else if r ! Suc i > 29824 + int (Suc i) * 410 then 29824 + int (Suc i) * 410 else r ! Suc i"
    have v: "r ! i + 410 \<le> ?v" "?v \<le> 29824 + int (Suc i) * 410" "is_s16 ?v"
      using b m i by (auto simp: is_s16_def)
    have "space_step (int i) t = Some (r[Suc i := ?v], 29824 + int (Suc i) * 410)"
      using i r(2) by (simp add: space_step_def t lo hi nat_add_distrib Let_def list_update_id)
    moreover have "?P (Suc i) (r[Suc i := ?v], 29824 + int (Suc i) * 410)"
      using P v i r b(2) by (auto simp: t nth_list_update less_Suc_eq intro!: arr_update)
    ultimately show "\<exists>t'. space_step (int i) t = Some t' \<and> ?P (Suc i) t'" by blast
  qed (use q0 in auto)
  then obtain r m where r: "for_up 0 (8 - 1) space_step (?q, 29824) = Some (r, m)" "?P 7 (r, m)" by auto
  have "stblz_lsp lsp 8 = Some r"
    using q r(1) mx by (auto simp: stblz_lsp_def arr_length)
  moreover have "spaced r" using r(2) by (auto simp: spaced_def arr_length LSPMIN_def LSPMAX_def DLSPMIN_def)
  ultimately show ?thesis using r(2) by auto
qed

lemma order_pass_sorted:
  assumes "length lsp = n" "sorted lsp"
  shows "order_pass n lsp = Some (lsp, 0)"
proof -
  have "\<exists>t. order_pass n lsp = Some t \<and> t = (lsp, 0)"
    unfolding order_pass_def
  proof (rule for_up_inv [where P = "\<lambda>t. t = (lsp, 0)"])
    fix i and t :: "int list \<times> int"
    assume i: "int 0 \<le> i" "i < int (n - 1)" and t: "t = (lsp, 0)"
    then have "lsp ! nat i \<le> lsp ! Suc (nat i)" using assms by (auto simp: sorted_iff_nth_Suc)
    then show "\<exists>t'. (case t of (lsp, k) \<Rightarrow> do { u \<leftarrow> get lsp i; v \<leftarrow> get lsp (i + 1);
        if u > v then do { lsp \<leftarrow> put lsp (i + 1) u; lsp \<leftarrow> put lsp i v; Some (lsp, 1) }
        else Some (lsp, k) }) = Some t' \<and> t' = (lsp, 0)"
      using i assms by (simp add: t nat_add_distrib)
  qed simp
  then show ?thesis by simp
qed

lemma spaced_bounds:
  assumes "spaced lsp" "i < 8"
  shows "49 + 410 * int i \<le> lsp ! i" "lsp ! i \<le> 29824 + 410 * int i"
proof -
  have s: "lsp ! i + 410 \<le> lsp ! Suc i" if "i < 7" for i using assms(1) that by (simp add: spaced_def DLSPMIN_def)
  have "\<forall>i<8. 49 + 410 * int i \<le> lsp ! i \<and> lsp ! i \<le> 29824 + 410 * int i"
    using s [of 0] s [of 1] s [of 2] s [of 3] s [of 4] s [of 5] s [of 6] assms(1)
    by (auto simp: spaced_def LSPMIN_def LSPMAX_def numeral_nat less_Suc_eq)
  then show "49 + 410 * int i \<le> lsp ! i" "lsp ! i \<le> 29824 + 410 * int i" using assms(2) by blast+
qed

lemma stblz_lsp_spaced:
  assumes "spaced lsp"
  shows "stblz_lsp lsp 8 = Some lsp"
proof -
  have l: "length lsp = 8" using assms by (simp add: spaced_def)
  have "sorted lsp" using assms by (auto simp: spaced_def sorted_iff_nth_Suc DLSPMIN_def less_Suc_eq)
  then have o: "order_loop 8 lsp = Some lsp" using order_pass_sorted [OF l] by (subst order_loop.simps) simp
  have mx: "sub LSPMAX (s16 ((int 8 - 1) * DLSPMIN)) = 29824"
    by (simp add: LSPMAX_def DLSPMIN_def s16_idI sub_eq is_s16_def clamp_id)
  let ?P = "\<lambda>i t. t = (lsp, 29824 + int i * 410)"
  have "\<exists>t. for_up 0 (8 - 1) space_step (lsp, 29824) = Some t \<and> ?P (8 - 1) t"
  proof (rule for_up_rule [where P = ?P])
    fix i :: nat and t :: "int list \<times> int"
    assume i: "i < 8 - 1" and P: "?P i t"
    have b: "49 + 410 * int i \<le> lsp ! i" "lsp ! i \<le> 29824 + 410 * int i"
      "lsp ! Suc i \<le> 29824 + 410 * int (Suc i)" "lsp ! i + 410 \<le> lsp ! Suc i"
      using spaced_bounds [OF assms, of i] spaced_bounds [OF assms, of "Suc i"] i assms by (auto simp: spaced_def DLSPMIN_def)
    have "add (lsp ! i) DLSPMIN = lsp ! i + 410" "add (29824 + int i * 410) DLSPMIN = 29824 + int (Suc i) * 410"
      using b i by (simp_all add: add_eq is_s16_def DLSPMIN_def clamp_id)
    then show "\<exists>t'. space_step (int i) t = Some t' \<and> ?P (Suc i) t'"
      using P b i l by (simp add: space_step_def nat_add_distrib Let_def)
  qed simp_all
  then show ?thesis using o mx spaced_bounds [OF assms, of 0] l
    by (auto simp: stblz_lsp_def LSPMIN_def)
qed

lemma stblchck_ok: "arr P n x \<Longrightarrow> 0 < m \<Longrightarrow> m \<le> n \<Longrightarrow> \<exists>b. stblchck x m = Some b \<and> (b = 0 \<or> b = 1)"
proof -
  assume a: "arr P n x" "0 < m" "m \<le> n"
  have "\<exists>b. for_up 1 m (\<lambda>k stbl. do { u \<leftarrow> get x k; v \<leftarrow> get x (k - 1); Some (if u < v then 0 else stbl) }) 1 = Some b
      \<and> (b = 0 \<or> b = (1 :: int))"
    by (rule for_up_inv [where P = "\<lambda>b. b = 0 \<or> b = 1"]) (use a in auto)
  then show ?thesis using a by (auto simp: stblchck_def)
qed

section \<open>Predictor coefficients\<close>

lemma lsp_cosine_ok:
  assumes "0 \<le> l" "l \<le> 32767"
  shows "\<exists>c. lsp_cosine l = Some c \<and> is_s16 c"
  using index_9 [OF assms] by (simp add: lsp_cosine_def Let_def)

lemma polynomial_step_ok:
  assumes "s32_arr 9 f" "2 \<le> i" "i \<le> 8"
  shows "\<exists>r. polynomial_step c i f = Some r \<and> s32_arr 9 r"
proof -
  obtain hi lo where "L_Extract (f ! nat (i - 1)) = (hi, lo)" by (cases "L_Extract (f ! nat (i - 1))")
  then show ?thesis using assms by (auto simp: polynomial_step_def Let_def intro!: arr_update)
qed

lemma get_pq_polynomials_ok:
  assumes "s32_arr 9 f" "length lsp = 8" "\<forall>v\<in>set lsp. 0 \<le> v \<and> v \<le> 32767" "off \<in> {0, 1}"
  shows "\<exists>r. get_pq_polynomials f lsp off = Some r \<and> s32_arr 9 r"
proof -
  have f0: "s32_arr 9 (f[0 := L_mult 2048 2048])" using assms(1) by (intro arr_update) simp_all
  have "\<exists>t. for_up 1 (LPCO + 1) (\<lambda>i f. put f i 0) (f[0 := L_mult 2048 2048]) = Some t \<and> s32_arr 9 t"
    by (rule for_up_inv [where P = "s32_arr 9"]) (use f0 in \<open>auto simp: LPCO_def intro!: arr_update\<close>)
  then obtain f1 where f1: "for_up 1 (LPCO + 1) (\<lambda>i f. put f i 0) (f[0 := L_mult 2048 2048]) = Some f1" "s32_arr 9 f1"
    by blast
  have "\<exists>r. for_up 1 (LPCO div 2 + 1) (\<lambda>n f. do { l \<leftarrow> get lsp (off + 2 * n - 2); c \<leftarrow> lsp_cosine l;
      f \<leftarrow> for_down 2 (nat (2 * n) + 1) (polynomial_step c) f; f1 \<leftarrow> get f 1; put f 1 (L_msu f1 c 256) }) f1 = Some r \<and> s32_arr 9 r"
  proof (rule for_up_inv [where P = "s32_arr 9"])
    fix n t assume n: "int 1 \<le> n" "n < int (LPCO div 2 + 1)" and t: "s32_arr 9 t"
    have i: "0 \<le> off + 2 * n - 2" "off + 2 * n - 2 < 8" using n assms(4) by (auto simp: LPCO_def)
    then have "lsp ! nat (off + 2 * n - 2) \<in> set lsp" using assms(2) by (intro nth_mem) auto
    then obtain c where c: "get lsp (off + 2 * n - 2) = Some (lsp ! nat (off + 2 * n - 2))"
      "lsp_cosine (lsp ! nat (off + 2 * n - 2)) = Some c" using i assms(2,3) lsp_cosine_ok by fastforce
    obtain u where "for_down 2 (nat (2 * n) + 1) (polynomial_step c) t = Some u" "s32_arr 9 u"
      using for_down_inv [where P = "s32_arr 9" and a = 2 and b = "nat (2 * n) + 1" and f = "polynomial_step c" and s = t]
        t polynomial_step_ok n by (auto simp: LPCO_def)
    then show "\<exists>r. (do { l \<leftarrow> get lsp (off + 2 * n - 2); c \<leftarrow> lsp_cosine l;
      f \<leftarrow> for_down 2 (nat (2 * n) + 1) (polynomial_step c) t; f1 \<leftarrow> get f 1; put f 1 (L_msu f1 c 256) }) = Some r \<and> s32_arr 9 r"
      using c by (auto intro!: arr_update)
  qed (rule f1(2))
  then show ?thesis using f1(1) assms(1) by (simp add: get_pq_polynomials_def)
qed

lemma lsp2a_ok:
  assumes "length lsp = 8" "\<forall>v\<in>set lsp. 0 \<le> v \<and> v \<le> 32767" "s16_arr 9 a"
  shows "\<exists>r. lsp2a lsp a = Some r \<and> s16_arr 9 r"
proof -
  have z: "s32_arr 9 (replicate (LPCO + 1) 0)" by (simp add: LPCO_def)
  obtain p where p: "get_pq_polynomials (replicate (LPCO + 1) 0) lsp 0 = Some p" "s32_arr 9 p"
    using get_pq_polynomials_ok [OF z assms(1,2)] by blast
  obtain q where q: "get_pq_polynomials (replicate (LPCO + 1) 0) lsp 1 = Some q" "s32_arr 9 q"
    using get_pq_polynomials_ok [OF z assms(1,2)] by blast
  let ?a = "a[0 := 4096, 1 := intround (L_shl (L_add (p ! 1) (q ! 1)) 4)]"
  have a: "s16_arr 9 ?a" using assms(3) by (auto intro!: arr_update simp: is_s16_def [of 4096])
  have "\<exists>r. for_up 1 LPCO (\<lambda>i a. do { pi \<leftarrow> get p i; pn \<leftarrow> get p (i + 1); qn \<leftarrow> get q (i + 1); qi \<leftarrow> get q i;
       let a0 = L_add pi pn; let a0 = L_add a0 qn; let a0 = L_sub a0 qi;
       put a (i + 1) (intround (L_shl a0 4)) }) ?a = Some r \<and> s16_arr 9 r"
    by (rule for_up_inv [where P = "s16_arr 9"]) (use a p(2) q(2) in \<open>auto simp: LPCO_def Let_def intro!: arr_update\<close>)
  then show ?thesis using p q assms(3) by (simp add: lsp2a_def Let_def)
qed

lemma spaced_range: "spaced lsp \<Longrightarrow> \<forall>v\<in>set lsp. 0 \<le> v \<and> v \<le> 32767"
  using spaced_bounds [of lsp] by (fastforce simp: in_set_conv_nth spaced_def)

section \<open>Properties\<close>

text \<open>(C38) The line spectral frequencies are made fit for a stable synthesis filter: whatever eight
  values come in, the passes of \<open>stblz_lsp\<close> end and it returns frequencies that lie between the limits
  49 and 32694 and have distances of at least 410, and it leaves such frequencies as they are. All
  table accesses of the conversion to predictor coefficients are then in bounds.\<close>

theorem stblz_lsp_spaces:
  assumes "s16_arr 8 lsp"
  shows "\<exists>r a. stblz_lsp lsp 8 = Some r \<and> 49 \<le> r ! 0 \<and> r ! 7 \<le> 32694
    \<and> (\<forall>i<7. r ! i + 410 \<le> r ! Suc i) \<and> stblz_lsp r 8 = Some r \<and> lsp2a r (replicate 9 0) = Some a"
proof -
  obtain r where r: "stblz_lsp lsp 8 = Some r" "spaced r" using stblz_lsp_ok [OF assms] by blast
  then obtain a where "lsp2a r (replicate 9 0) = Some a"
    using lsp2a_ok [of r "replicate 9 0"] spaced_range by (auto simp: spaced_def)
  moreover have "stblz_lsp r 8 = Some r" using r(2) by (rule stblz_lsp_spaced)
  ultimately show ?thesis using r by (auto simp: spaced_def LSPMIN_def LSPMAX_def DLSPMIN_def)
qed

theorem stblz_lsp_spaces_witness: "\<exists>r. stblz_lsp [9, 8, 7, 6, 5, 4, 32000, 3] 8 = Some r \<and> r ! 0 + 410 \<le> r ! Suc 0"
  using stblz_lsp_spaces [of "[9, 8, 7, 6, 5, 4, 32000, 3]"] by (fastforce simp: arr_def is_s16_def)

end
