(* ===== verification/BV_Params.thy ===== *)
theory BV_Params
  imports BV_Common
begin

text \<open>
  The parameters of a BroadVoice16 frame (\<open>bv16\<close>): decoding of the line spectral frequencies
  (\<open>lspdec.c\<close>) and of the gain (\<open>gaindec.c\<close>), each with its variant for a lost frame, and the
  tracking of the signal level (\<open>levelest.c\<close>), which encoder and decoder share. Pointers that walk
  through the predictor memories are written as the indexes they have.
\<close>

section \<open>Constants (\<open>bv16cnst.h\<close>)\<close>

definition FRSZ :: nat where "FRSZ = 40"
definition MAXPP :: int where "MAXPP = 137"
definition MINPP :: int where "MINPP = 10"
definition VDIM :: nat where "VDIM = 4"
definition CBSZ :: nat where "CBSZ = 16"
definition LGPORDER :: nat where "LGPORDER = 8"
definition GPO :: nat where "GPO = 8"
definition LSPPORDER :: nat where "LSPPORDER = 8"
definition LSPECBSZ2 :: int where "LSPECBSZ2 = 64"
definition TMinlg :: int where "TMinlg = 1"
definition estl_alpha :: int where "estl_alpha = 32760"
definition estl_alpha1 :: int where "estl_alpha1 = 32640"
definition estl_beta :: int where "estl_beta = 32704"
definition estl_beta1 :: int where "estl_beta1 = 64"
definition estl_a :: int where "estl_a = 32640"
definition estl_a1 :: int where "estl_a1 = 128"
definition estl_TH :: int where "estl_TH = 6554"
definition Nfdm :: int where "Nfdm = 100"
definition LGLB :: int where "LGLB = - 24"
definition LGCLB :: int where "LGCLB = - 8"
definition NGB :: int where "NGB = 18"
definition NGCB :: int where "NGCB = 12"

lemmas bv16_const = LPCO_def FRSZ_def MAXPP_def MINPP_def VDIM_def CBSZ_def LGPORDER_def GPO_def
  LSPPORDER_def LSPECBSZ2_def NGB_def NGCB_def Nfdm_def

section \<open>Line spectral frequencies (\<open>lspdec.c\<close>)\<close>

text \<open>The estimate from the memory of the moving average predictor, and the update of the memory,
  which holds eight past values of each frequency.\<close>

definition lsp_estimate :: "int list \<Rightarrow> int list option" where
  "lsp_estimate lsppm = for_up 0 LPCO (\<lambda>i elsp. do {
     a0 \<leftarrow> for_up 0 LSPPORDER (\<lambda>k a0. do {
       c \<leftarrow> get lspp (i * int LSPPORDER + k);
       v \<leftarrow> get lsppm (i * int LSPPORDER + k);
       Some (L_mac a0 c v) }) 0;
     put elsp i (intround (L_shl a0 1)) }) (replicate LPCO 0)"

definition lsp_memory_update :: "(int \<Rightarrow> int option) \<Rightarrow> int list \<Rightarrow> int list option" where
  "lsp_memory_update new lsppm = for_down 0 LPCO (\<lambda>i lsppm. do {
     lsppm \<leftarrow> for_down 2 (LSPPORDER + 1) (\<lambda>k lsppm. do {
       v \<leftarrow> get lsppm (i * int LSPPORDER + k - 2);
       put lsppm (i * int LSPPORDER + k - 1) v }) lsppm;
     v \<leftarrow> new i;
     put lsppm (i * int LSPPORDER) v }) lsppm"

text \<open>The two stages of the code vector; the second one carries a sign.\<close>

definition lsp_code_vector :: "int \<Rightarrow> int \<Rightarrow> int list option" where
  "lsp_code_vector idx1 idx2 = do {
     lspeq1 \<leftarrow> vqdec (replicate LPCO 0) idx1 lspecb1 LPCO;
     let (sign, idx) = (if idx2 \<ge> LSPECBSZ2 then (- 1, sub (s16 (2 * LSPECBSZ2 - 1)) idx2)
                        else (1 :: int, idx2));
     lspeq2 \<leftarrow> vqdec (replicate LPCO 0) idx lspecb2 LPCO;
     for_up 0 LPCO (\<lambda>i lspe. do {
       u \<leftarrow> get lspeq1 i;
       v \<leftarrow> get lspeq2 i;
       put lspe i (shr_16 (if sign = 1 then add u v else sub u v) 2) }) (replicate LPCO 0) }"

text \<open>The sum of code vector, estimate and mean.\<close>

definition lsp_sum :: "int list \<Rightarrow> int list \<Rightarrow> int \<Rightarrow> int option" where
  "lsp_sum lspe elsp i = do {
     e \<leftarrow> get lspe i; p \<leftarrow> get elsp i; m \<leftarrow> get lspmean i;
     Some (add (add e p) m) }"

definition lspdec :: "int list \<Rightarrow> int list \<Rightarrow> int list \<Rightarrow> int list \<Rightarrow> (int list \<times> int list) option" where
  "lspdec lspq lspidx lsppm lspq_last = do {
     elsp \<leftarrow> lsp_estimate lsppm;
     idx1 \<leftarrow> get lspidx 0;
     idx2 \<leftarrow> get lspidx 1;
     lspe \<leftarrow> lsp_code_vector idx1 idx2;
     lspq \<leftarrow> for_up 0 STBLDIM (\<lambda>i lspq. do { v \<leftarrow> lsp_sum lspe elsp i; put lspq i v }) lspq;
     stbl \<leftarrow> stblchck lspq STBLDIM;
     (lspq, lspe) \<leftarrow> (if stbl = 0
       then for_up 0 LPCO (\<lambda>i (lspq, lspe). do {
              l \<leftarrow> get lspq_last i;
              lspq \<leftarrow> put lspq i l;
              p \<leftarrow> get elsp i; m \<leftarrow> get lspmean i;
              lspe \<leftarrow> put lspe i (sub (sub l p) m);
              Some (lspq, lspe) }) (lspq, lspe)
       else do {
         lspq \<leftarrow> for_up STBLDIM LPCO (\<lambda>i lspq. do { v \<leftarrow> lsp_sum lspe elsp i; put lspq i v }) lspq;
         Some (lspq, lspe) });
     lsppm \<leftarrow> lsp_memory_update (get lspe) lsppm;
     lspq \<leftarrow> stblz_lsp lspq LPCO;
     Some (lspq, lsppm) }"

definition lspdecplc :: "int list \<Rightarrow> int list \<Rightarrow> int list option" where
  "lspdecplc lspq lsppm = do {
     elsp \<leftarrow> lsp_estimate lsppm;
     lsp_memory_update (\<lambda>i. do {
       q \<leftarrow> get lspq i; m \<leftarrow> get lspmean i; p \<leftarrow> get elsp i;
       Some (sub (sub q m) p) }) lsppm }"

section \<open>Gain (\<open>gaindec.c\<close>)\<close>

text \<open>The prediction from the memory, and its shift by a new value.\<close>

definition log_gain_prediction :: "int list \<Rightarrow> int \<Rightarrow> int option" where
  "log_gain_prediction lgpm elg = for_up 0 LGPORDER (\<lambda>i elg. do {
     c \<leftarrow> get lgp i; v \<leftarrow> get lgpm i;
     Some (L_mac0 elg c v) }) elg"

definition gain_memory_shift :: "int list \<Rightarrow> int list option" where
  "gain_memory_shift lgpm = for_down 1 LGPORDER (\<lambda>k lgpm. do {
     v \<leftarrow> get lgpm (k - 1);
     put lgpm k v }) lgpm"

text \<open>The cell of the table of largest gain changes for the recent gains.\<close>

definition gain_limit_index :: "int list \<Rightarrow> int \<Rightarrow> int option" where
  "gain_limit_index prevlg level = do {
     p0 \<leftarrow> get prevlg 0;
     p1 \<leftarrow> get prevlg 1;
     let i = shr_16 (sub (shr_16 (extract_h (L_sub p0 level)) 9) LGLB) 1;
     let i = (if i \<ge> NGB then NGB - 1 else if i < 0 then 0 else i);
     let n = shr_16 (sub (shr_16 (extract_h (L_sub p0 p1)) 9) LGCLB) 1;
     let n = (if n \<ge> NGCB then NGCB - 1 else if n < 0 then 0 else n);
     Some (s16 (i * NGCB + n)) }"

text \<open>The linear gain of a logarithmic one.\<close>

definition linear_gain :: "int \<Rightarrow> int option" where
  "linear_gain lgq = do {
     let elg = L_shr lgq 10;
     let (lg_exp, lg_frac) = L_Extract elg;
     let lg_exp = add lg_exp 18;
     Pow2 lg_exp lg_frac }"

text \<open>The result: linear gain, \<open>lgq\<close>, \<open>lgpm\<close>, \<open>prevlg\<close>, \<open>nggalgc\<close> and \<open>lg_el\<close>.\<close>

definition gaindec :: "int \<Rightarrow> int list \<Rightarrow> int list \<Rightarrow> int \<Rightarrow> int \<Rightarrow>
    (int \<times> int \<times> int list \<times> int list \<times> int \<times> int) option" where
  "gaindec gidx lgpm prevlg level nggalgc = do {
     elg \<leftarrow> log_gain_prediction lgpm (L_shr (L_deposit_h lgmean) 1);
     let elg = L_shr elg 1;
     c \<leftarrow> get lgpecb gidx;
     let lgq = L_add (L_shr (L_deposit_h c) 2) elg;
     i \<leftarrow> gain_limit_index prevlg level;
     lgpm \<leftarrow> gain_memory_shift lgpm;
     p0 \<leftarrow> get prevlg 0;
     let lgc = extract_h (L_sub lgq p0);
     lim \<leftarrow> get lgclimit i;
     (lgq, lgpm, nggalgc, lg_el) \<leftarrow> (if lgc > lim \<and> gidx > 0
       then do {
         lgpm \<leftarrow> put lgpm 0 (extract_h (L_shl (L_sub p0 elg) 2));
         Some (p0, lgpm, 0, L_add (L_deposit_h lim) p0) }
       else do {
         lgpm \<leftarrow> put lgpm 0 c;
         let nggalgc = add nggalgc 1;
         let nggalgc = (if nggalgc > Nfdm then Nfdm + 1 else nggalgc);
         Some (lgq, lgpm, nggalgc, lgq) });
     prevlg \<leftarrow> put prevlg 1 p0;
     prevlg \<leftarrow> put prevlg 0 lgq;
     g \<leftarrow> linear_gain lgq;
     Some (g, lgq, lgpm, prevlg, nggalgc, lg_el) }"

definition gainplc :: "int \<Rightarrow> int list \<Rightarrow> int list \<Rightarrow> (int list \<times> int list) option" where
  "gainplc E lgeqm lgqm = do {
     lg \<leftarrow> (if E > TMinlg * int FRSZ
       then do {
         (exponent, fraction) \<leftarrow> Log2 E;
         let lg = L_add (L_shl (L_deposit_h exponent) 9) (L_shr (L_deposit_h fraction) 6);
         Some (L_sub lg 178574274) }
       else Some 0);
     let mrlg = L_shr (L_deposit_h lgmean) 2;
     let mrlg = L_sub lg mrlg;
     elg \<leftarrow> log_gain_prediction lgeqm 0;
     let elg = L_shr elg 1;
     let lge = intround (L_shl (L_sub mrlg elg) 2);
     lgeqm \<leftarrow> gain_memory_shift lgeqm;
     lgeqm \<leftarrow> put lgeqm 0 lge;
     q0 \<leftarrow> get lgqm 0;
     lgqm \<leftarrow> put lgqm 1 q0;
     lgqm \<leftarrow> put lgqm 0 lg;
     Some (lgeqm, lgqm) }"

section \<open>Level (\<open>levelest.c\<close>)\<close>

text \<open>\<open>c * x\<close> for a 32 bit number and a Q15 factor.\<close>

definition scale_32 :: "int \<Rightarrow> int \<Rightarrow> int" where
  "scale_32 x c = (let (s, t) = L_Extract x in Mpy_32_16 s t c)"

record level_state =
  lv_level :: int
  lv_lmax :: int
  lv_lmin :: int
  lv_lmean :: int
  lv_x1 :: int
  lv_alpha_min :: int

definition estlevel :: "int \<Rightarrow> level_state \<Rightarrow> int \<Rightarrow> int \<Rightarrow> int \<times> level_state" where
  "estlevel lg st ngfae nggalgc = (
     let estl_alpha_min = (if nggalgc = 0 then estl_alpha1
           else if nggalgc = Nfdm + 1 then estl_alpha else lv_alpha_min st);
         lmean = lv_lmean st;
         lmax = (if lg > lv_lmax st then lg
                 else L_add (scale_32 (L_sub (lv_lmax st) lmean) estl_alpha) lmean);
         (lmin, estl_alpha_min) =
           (if lg < lv_lmin st \<and> ngfae = int LGPORDER + 1 \<and> nggalgc > int LGPORDER
            then (lg, estl_alpha)
            else (L_add (scale_32 (L_sub (lv_lmin st) lmean) estl_alpha_min) lmean, estl_alpha_min));
         a0 = L_shr (L_add lmax lmin) 1;
         a0 = scale_32 a0 estl_beta1;
         lmean = L_add a0 (scale_32 lmean estl_beta);
         a0 = L_sub lmax lmean;
         lth = L_add lmean (scale_32 a0 estl_TH);
         (x1, level) = (if lg > lth
            then let x1 = L_add (scale_32 (lv_x1 st) estl_a) (scale_32 lg estl_a1);
                     level = L_add (scale_32 (lv_level st) estl_a) (scale_32 x1 estl_a1)
                 in (x1, level)
            else (lv_x1 st, lv_level st))
     in (lth, \<lparr>lv_level = level, lv_lmax = lmax, lv_lmin = lmin, lv_lmean = lmean, lv_x1 = x1,
               lv_alpha_min = estl_alpha_min\<rparr>))"

section \<open>Frequencies: no access out of bounds\<close>

lemma s32_nth: "s32_arr n xs \<Longrightarrow> i < n \<Longrightarrow> is_s32 (xs ! i)"
  by (rule arr_nth)

lemma lsp_estimate_ok:
  assumes "s16_arr 64 lsppm"
  shows "\<exists>e. lsp_estimate lsppm = Some e \<and> s16_arr 8 e"
  unfolding lsp_estimate_def
proof (rule for_up_inv [where P = "s16_arr 8"])
  fix i t assume i: "int 0 \<le> i" "i < int LPCO" and t: "s16_arr 8 t"
  have "\<exists>a. for_up 0 LSPPORDER (\<lambda>k a0. do { c \<leftarrow> get lspp (i * int LSPPORDER + k);
      v \<leftarrow> get lsppm (i * int LSPPORDER + k); Some (L_mac a0 c v) }) 0 = Some a \<and> is_s32 a"
    by (rule for_up_inv [where P = is_s32]) (use i assms in \<open>auto simp: bv16_const\<close>)
  then show "\<exists>t'. (do { a0 \<leftarrow> for_up 0 LSPPORDER (\<lambda>k a0. do { c \<leftarrow> get lspp (i * int LSPPORDER + k);
      v \<leftarrow> get lsppm (i * int LSPPORDER + k); Some (L_mac a0 c v) }) 0;
      put t i (intround (L_shl a0 1)) }) = Some t' \<and> s16_arr 8 t'"
    using i t by (auto simp: bv16_const intro!: arr_update)
qed (simp add: bv16_const)

lemma lsp_memory_update_ok:
  assumes "s16_arr 64 lsppm" "\<And>i. 0 \<le> i \<Longrightarrow> i < 8 \<Longrightarrow> \<exists>v. new i = Some v \<and> is_s16 v"
  shows "\<exists>r. lsp_memory_update new lsppm = Some r \<and> s16_arr 64 r"
  unfolding lsp_memory_update_def
proof (rule for_down_inv [where P = "s16_arr 64"])
  fix i t assume i: "int 0 \<le> i" "i < int LPCO" and t: "s16_arr 64 t"
  have "\<exists>u. for_down 2 (LSPPORDER + 1) (\<lambda>k lsppm. do { v \<leftarrow> get lsppm (i * int LSPPORDER + k - 2);
       put lsppm (i * int LSPPORDER + k - 1) v }) t = Some u \<and> s16_arr 64 u"
    by (rule for_down_inv [where P = "s16_arr 64"]) (use i t in \<open>auto simp: bv16_const intro!: arr_update s16_nth\<close>)
  moreover obtain v where "new i = Some v" "is_s16 v" using assms(2) i by (auto simp: bv16_const)
  ultimately show "\<exists>t'. (do { lsppm \<leftarrow> for_down 2 (LSPPORDER + 1) (\<lambda>k lsppm. do { v \<leftarrow> get lsppm (i * int LSPPORDER + k - 2);
       put lsppm (i * int LSPPORDER + k - 1) v }) t; v \<leftarrow> new i; put lsppm (i * int LSPPORDER) v }) = Some t' \<and> s16_arr 64 t'"
    using i by (auto simp: bv16_const intro!: arr_update)
qed (rule assms(1))

lemma lsp_code_vector_ok:
  assumes "0 \<le> idx1" "idx1 < 128" "0 \<le> idx2" "idx2 < 128"
  shows "\<exists>e. lsp_code_vector idx1 idx2 = Some e \<and> s16_arr 8 e"
proof -
  define sg :: int where "sg = (if idx2 \<ge> LSPECBSZ2 then - 1 else 1)"
  define idx where "idx = (if idx2 \<ge> LSPECBSZ2 then sub (s16 (2 * LSPECBSZ2 - 1)) idx2 else idx2)"
  have idx: "0 \<le> idx" "idx < 64"
    using assms by (auto simp: idx_def LSPECBSZ2_def s16_idI sub_eq is_s16_def clamp_id)
  have l: "(if idx2 \<ge> LSPECBSZ2 then (- 1, sub (s16 (2 * LSPECBSZ2 - 1)) idx2) else (1 :: int, idx2)) = (sg, idx)"
    by (simp add: sg_def idx_def)
  obtain e1 where e1: "vqdec (replicate LPCO 0) idx1 lspecb1 LPCO = Some e1" "s16_arr 8 e1"
    using vqdec_ok [of is_s16 1024 lspecb1 8 "replicate 8 0" idx1] assms by (auto simp: LPCO_def)
  obtain e2 where e2: "vqdec (replicate LPCO 0) idx lspecb2 LPCO = Some e2" "s16_arr 8 e2"
    using vqdec_ok [of is_s16 512 lspecb2 8 "replicate 8 0" idx] idx by (auto simp: LPCO_def)
  have "\<exists>t. for_up 0 LPCO (\<lambda>i lspe. do { u \<leftarrow> get e1 i; v \<leftarrow> get e2 i;
      put lspe i (shr_16 (if sg = 1 then add u v else sub u v) 2) }) (replicate LPCO 0) = Some t \<and> s16_arr 8 t"
    by (rule for_up_inv [where P = "s16_arr 8"]) (use e1 e2 in \<open>auto simp: LPCO_def intro!: arr_update\<close>)
  then show ?thesis unfolding lsp_code_vector_def l using e1 e2 by simp
qed

lemma lsp_sum_ok:
  assumes "s16_arr 8 lspe" "s16_arr 8 elsp" "0 \<le> i" "i < 8"
  shows "\<exists>v. lsp_sum lspe elsp i = Some v \<and> is_s16 v"
  using assms by (simp add: lsp_sum_def)

lemma lsp_sum_loop:
  assumes "s16_arr 8 lspe" "s16_arr 8 elsp" "s16_arr 8 lspq" "b \<le> 8"
  shows "\<exists>r. for_up a b (\<lambda>i lspq. do { v \<leftarrow> lsp_sum lspe elsp i; put lspq i v }) lspq = Some r \<and> s16_arr 8 r"
proof (rule for_up_inv [where P = "s16_arr 8"])
  fix i t assume "int a \<le> i" "i < int b" "s16_arr 8 t"
  moreover from this obtain v where "lsp_sum lspe elsp i = Some v" "is_s16 v"
    using lsp_sum_ok [OF assms(1,2), of i] assms(4) by auto
  ultimately show "\<exists>t'. (do { v \<leftarrow> lsp_sum lspe elsp i; put t i v }) = Some t' \<and> s16_arr 8 t'"
    using assms(4) by (auto intro!: arr_update)
qed (rule assms(3))

lemma lspdec_ok:
  assumes "s16_arr 8 lspq" "s16_arr 64 lsppm" "s16_arr 8 lspq_last"
    and "length lspidx = 2" "0 \<le> lspidx ! 0" "lspidx ! 0 < 128" "0 \<le> lspidx ! 1" "lspidx ! 1 < 128"
  shows "\<exists>q m. lspdec lspq lspidx lsppm lspq_last = Some (q, m) \<and> s16_arr 8 q \<and> spaced q \<and> s16_arr 64 m"
proof -
  obtain e where e: "lsp_estimate lsppm = Some e" "s16_arr 8 e" using lsp_estimate_ok [OF assms(2)] by blast
  obtain c where c: "lsp_code_vector (lspidx ! 0) (lspidx ! 1) = Some c" "s16_arr 8 c"
    using lsp_code_vector_ok assms(5-8) by blast
  obtain q where q: "for_up 0 STBLDIM (\<lambda>i lspq. do { v \<leftarrow> lsp_sum c e i; put lspq i v }) lspq = Some q" "s16_arr 8 q"
    using lsp_sum_loop [OF c(2) e(2) assms(1), of STBLDIM 0] by (auto simp: STBLDIM_def)
  obtain s where s: "stblchck q STBLDIM = Some s" using stblchck_ok [OF q(2), of STBLDIM] by (auto simp: STBLDIM_def)
  have "\<exists>r. for_up 0 LPCO (\<lambda>i (lspq, lspe). do { l \<leftarrow> get lspq_last i; lspq \<leftarrow> put lspq i l;
      p \<leftarrow> get e i; m \<leftarrow> get lspmean i; lspe \<leftarrow> put lspe i (sub (sub l p) m); Some (lspq, lspe) }) (q, c) = Some r
      \<and> s16_arr 8 (fst r) \<and> s16_arr 8 (snd r)"
    by (rule for_up_inv [where P = "\<lambda>r. s16_arr 8 (fst r) \<and> s16_arr 8 (snd r)"])
      (use q c e assms in \<open>auto simp: LPCO_def split_beta intro!: arr_update s16_nth\<close>)
  moreover obtain q' where "for_up STBLDIM LPCO (\<lambda>i lspq. do { v \<leftarrow> lsp_sum c e i; put lspq i v }) q = Some q'" "s16_arr 8 q'"
    using lsp_sum_loop [OF c(2) e(2) q(2), of LPCO STBLDIM] by (auto simp: LPCO_def)
  ultimately obtain q2 c2 where b: "(if s = 0
       then for_up 0 LPCO (\<lambda>i (lspq, lspe). do { l \<leftarrow> get lspq_last i; lspq \<leftarrow> put lspq i l;
              p \<leftarrow> get e i; m \<leftarrow> get lspmean i; lspe \<leftarrow> put lspe i (sub (sub l p) m); Some (lspq, lspe) }) (q, c)
       else do { lspq \<leftarrow> for_up STBLDIM LPCO (\<lambda>i lspq. do { v \<leftarrow> lsp_sum c e i; put lspq i v }) q; Some (lspq, c) })
      = Some (q2, c2)" "s16_arr 8 q2" "s16_arr 8 c2"
    using c(2) by (cases "s = 0") auto
  obtain m where m: "lsp_memory_update (get c2) lsppm = Some m" "s16_arr 64 m"
    using lsp_memory_update_ok [OF assms(2), of "get c2"] arr_get [OF b(3)] by auto
  obtain r where r: "stblz_lsp q2 LPCO = Some r" "s16_arr 8 r" "spaced r"
    using stblz_lsp_ok [OF b(2)] by (auto simp: LPCO_def)
  show ?thesis unfolding lspdec_def using e c q s b m r assms(4) by simp
qed

lemma lspdecplc_ok:
  assumes "s16_arr 8 lspq" "s16_arr 64 lsppm"
  shows "\<exists>m. lspdecplc lspq lsppm = Some m \<and> s16_arr 64 m"
proof -
  obtain e where e: "lsp_estimate lsppm = Some e" "s16_arr 8 e" using lsp_estimate_ok [OF assms(2)] by blast
  show ?thesis unfolding lspdecplc_def e(1) bind.bind_lunit
    by (rule lsp_memory_update_ok [OF assms(2)]) (use assms(1) e(2) in simp)
qed

section \<open>Gain: no access out of bounds\<close>

lemma log_gain_prediction_ok:
  assumes "s16_arr 8 lgpm" "is_s32 elg"
  shows "\<exists>e. log_gain_prediction lgpm elg = Some e \<and> is_s32 e"
  unfolding log_gain_prediction_def
  by (rule for_up_inv [where P = is_s32]) (use assms in \<open>auto simp: bv16_const\<close>)

lemma gain_memory_shift_ok:
  assumes "s16_arr 8 lgpm"
  shows "\<exists>m. gain_memory_shift lgpm = Some m \<and> s16_arr 8 m"
  unfolding gain_memory_shift_def
  by (rule for_down_inv [where P = "s16_arr 8"]) (use assms in \<open>auto simp: bv16_const intro!: arr_update s16_nth\<close>)

lemma gain_limit_index_ok:
  assumes "s32_arr 2 prevlg"
  shows "\<exists>i. gain_limit_index prevlg level = Some i \<and> 0 \<le> i \<and> i < 216"
proof -
  define u where "u = shr_16 (sub (shr_16 (extract_h (L_sub (prevlg ! 0) level)) 9) LGLB) 1"
  define v where "v = shr_16 (sub (shr_16 (extract_h (L_sub (prevlg ! 0) (prevlg ! 1))) 9) LGCLB) 1"
  define i where "i = (if u \<ge> NGB then NGB - 1 else if u < 0 then 0 else u)"
  define n where "n = (if v \<ge> NGCB then NGCB - 1 else if v < 0 then 0 else v)"
  have "0 \<le> i" "i \<le> 17" "0 \<le> n" "n \<le> 11" by (auto simp: i_def n_def NGB_def NGCB_def)
  then have "0 \<le> i * NGCB + n" "i * NGCB + n < 216" by (simp_all add: NGCB_def)
  moreover have "gain_limit_index prevlg level = Some (s16 (i * NGCB + n))"
    using assms by (simp add: gain_limit_index_def u_def v_def i_def n_def Let_def)
  ultimately show ?thesis by (simp add: s16_idI)
qed

lemma linear_gain_ok:
  assumes "is_s32 lgq"
  shows "\<exists>g. linear_gain lgq = Some g \<and> is_s32 g"
proof -
  obtain hi lo where h: "L_Extract (L_shr lgq 10) = (hi, lo)" by (cases "L_Extract (L_shr lgq 10)")
  have "is_s32 (L_shr lgq 10)" using assms by simp
  note p = L_Extract_parts [OF this h]
  have "lo \<le> 32767" using p(3) by (simp add: is_s16_def)
  then show ?thesis using Pow2_ok [of lo] p by (simp add: linear_gain_def h)
qed

lemma gaindec_ok:
  assumes "0 \<le> gidx" "gidx < 16" "s16_arr 8 lgpm" "s32_arr 2 prevlg" "is_s16 nggalgc"
  shows "\<exists>g lgq m p n el. gaindec gidx lgpm prevlg level nggalgc = Some (g, lgq, m, p, n, el) \<and>
    is_s32 g \<and> is_s32 lgq \<and> s16_arr 8 m \<and> s32_arr 2 p \<and> is_s16 n \<and> is_s32 el"
proof -
  obtain e where e: "log_gain_prediction lgpm (L_shr (L_deposit_h lgmean) 1) = Some e" "is_s32 e"
    using log_gain_prediction_ok [OF assms(3)] by force
  obtain i where i: "gain_limit_index prevlg level = Some i" "0 \<le> i" "i < 216"
    using gain_limit_index_ok [OF assms(4)] by blast
  obtain m where m: "gain_memory_shift lgpm = Some m" "s16_arr 8 m" using gain_memory_shift_ok [OF assms(3)] by blast
  let ?lgq = "L_add (L_shr (L_deposit_h (lgpecb ! nat gidx)) 2) (L_shr e 1)"
  have p0: "is_s32 (prevlg ! 0)" using assms(4) by (auto intro: s16_nth s32_nth)
  have c: "is_s16 (lgpecb ! nat gidx)" using assms(1,2) by (intro arr_nth [OF lgpecb_arr]) auto
  obtain g1 where g1: "linear_gain (prevlg ! 0) = Some g1" "is_s32 g1" using linear_gain_ok [OF p0] by blast
  obtain g2 where g2: "linear_gain ?lgq = Some g2" "is_s32 g2" using linear_gain_ok [of ?lgq] by auto
  show ?thesis
    using assms p0 c m(2) i(2,3) g1 g2 put_arr [OF m(2), of 0] put_arr [OF assms(4)]
    by (auto simp: gaindec_def e m i Let_def is_s16_def [of 101] Nfdm_def intro!: arr_update)
qed

lemma gainplc_ok:
  assumes "is_s32 E" "s16_arr 8 lgeqm" "s32_arr 2 lgqm"
  shows "\<exists>m q. gainplc E lgeqm lgqm = Some (m, q) \<and> s16_arr 8 m \<and> s32_arr 2 q"
proof -
  obtain e where e: "log_gain_prediction lgeqm 0 = Some e" "is_s32 e" using log_gain_prediction_ok [OF assms(2)] by force
  obtain m where m: "gain_memory_shift lgeqm = Some m" "s16_arr 8 m" using gain_memory_shift_ok [OF assms(2)] by blast
  obtain x f where x: "Log2 E = Some (x, f)" using Log2_ok [OF assms(1)] by blast
  have "is_s32 (lgqm ! 0)" using assms(3) by (auto intro: s16_nth s32_nth)
  then show ?thesis using assms m by (auto simp: gainplc_def e x Let_def intro!: arr_update)
qed

section \<open>Level\<close>

definition level_ok :: "level_state \<Rightarrow> bool" where
  "level_ok st \<longleftrightarrow> is_s32 (lv_level st) \<and> is_s32 (lv_lmax st) \<and> is_s32 (lv_lmin st) \<and> is_s32 (lv_lmean st) \<and>
     is_s32 (lv_x1 st) \<and> is_s16 (lv_alpha_min st)"

lemma estlevel_ok:
  assumes "level_ok st" "is_s32 lg"
  shows "level_ok (snd (estlevel lg st ngfae nggalgc)) \<and> is_s32 (fst (estlevel lg st ngfae nggalgc))"
  using assms by (auto simp: estlevel_def level_ok_def Let_def estl_alpha_def estl_alpha1_def is_s16_def)

end
