(* ===== verification/BV_Synthesis.thy ===== *)
theory BV_Synthesis
  imports BV_Params
begin

text \<open>
  From parameters to samples in the BroadVoice16 decoder: the excitation with long-term and
  short-term synthesis (\<open>excdec.c\<close>) and the adaptive post filter (\<open>postfilt.c\<close>). An array that
  the C code passes as a pointer into its middle is the array with the offset of the pointer;
  \<open>ps\<close> of the post filter is such a pair, since it points into one of two arrays.
\<close>

section \<open>Constants (\<open>bv16cnst.h\<close>)\<close>

definition LTMOFF :: nat where "LTMOFF = 138"
definition XQOFF :: nat where "XQOFF = 138"
definition LXQ :: nat where "LXQ = 178"
definition DPPQNS :: int where "DPPQNS = 4"
definition NINT :: nat where "NINT = 20"
definition ATHLD1 :: int where "ATHLD1 = 18022"
definition ATHLD2 :: int where "ATHLD2 = 26214"
definition ScLTPF :: int where "ScLTPF = 9830"

lemmas syn_const = bv16_const LTMOFF_def XQOFF_def LXQ_def DPPQNS_def NINT_def

section \<open>Excitation (\<open>excdec.c\<close>)\<close>

definition excitation_vector :: "int list \<Rightarrow> int \<Rightarrow> int list option" where
  "excitation_vector cb vid = (if vid < int CBSZ
     then for_up 0 VDIM (\<lambda>n uq. do {
            v \<leftarrow> get cb (vid * int VDIM + n);
            put uq n v }) (replicate VDIM 0)
     else let vid = s16 (vid - int CBSZ)
          in for_up 0 VDIM (\<lambda>n uq. do {
            v \<leftarrow> get cb (vid * int VDIM + n);
            put uq n (negate v) }) (replicate VDIM 0))"

text \<open>The prediction of the three pitch taps around the lag, and of the short-term filter.\<close>

definition pitch_prediction :: "int list \<Rightarrow> int \<Rightarrow> int list \<Rightarrow> int option" where
  "pitch_prediction ltsym k b = do {
     v0 \<leftarrow> get ltsym (k + 1); b0 \<leftarrow> get b 0;
     v1 \<leftarrow> get ltsym k; b1 \<leftarrow> get b 1;
     v2 \<leftarrow> get ltsym (k - 1); b2 \<leftarrow> get b 2;
     Some (L_mac (L_mac (L_mult v0 b0) v1 b1) v2 b2) }"

definition short_term_prediction :: "int list \<Rightarrow> int \<Rightarrow> int list \<Rightarrow> int option" where
  "short_term_prediction buf1 n aq = for_down 1 (LPCO + 1) (\<lambda>i a1. do {
     v \<leftarrow> get buf1 (n + int LPCO - i);
     c \<leftarrow> get aq i;
     Some (L_msu a1 v c) }) 0"

text \<open>One sample; the state is the long-term memory, the short-term buffer and the energy.\<close>

definition synthesis_step :: "int list \<Rightarrow> int list \<Rightarrow> int \<Rightarrow> int \<Rightarrow> int list \<Rightarrow> int \<Rightarrow> int \<Rightarrow>
    int list \<times> int list \<times> int \<Rightarrow> (int list \<times> int list \<times> int) option" where
  "synthesis_step aq b pp gain_exp uq m n = (\<lambda>(ltsym, buf1, E). do {
     u \<leftarrow> get uq (n - m);
     let a0 = L_shr (L_deposit_h u) gain_exp;
     let tt = intround a0;
     let E = L_mac0 E tt tt;
     a1 \<leftarrow> pitch_prediction ltsym (int LTMOFF + n - pp) b;
     let a0 = L_add a0 a1;
     ltsym \<leftarrow> put ltsym (int LTMOFF + n) (intround a0);
     a1 \<leftarrow> short_term_prediction buf1 n aq;
     let a1 = L_shl a1 3;
     let a1 = L_add a0 a1;
     buf1 \<leftarrow> put buf1 (n + int LPCO) (intround a1);
     Some (ltsym, buf1, E) })"

text \<open>The result: \<open>xq\<close>, \<open>ltsym\<close>, \<open>stsym\<close> and the energy \<open>E\<close>.\<close>

definition excdec_w_synth :: "int list \<Rightarrow> int list \<Rightarrow> int list \<Rightarrow> int list \<Rightarrow> int list \<Rightarrow> int list \<Rightarrow> int \<Rightarrow>
    int list \<Rightarrow> int \<Rightarrow> (int list \<times> int list \<times> int list \<times> int) option" where
  "excdec_w_synth xq ltsym stsym idx b cb pp aq gain_exp = do {
     buf1 \<leftarrow> W16copy (replicate (LPCO + FRSZ) 0) 0 stsym 0 LPCO;
     (ltsym, buf1, E) \<leftarrow> for_up 0 (FRSZ div VDIM) (\<lambda>j st. do {
       let m = j * int VDIM;
       vid \<leftarrow> get idx j;
       uq \<leftarrow> excitation_vector cb vid;
       for_range m (m + int VDIM) (synthesis_step aq b pp gain_exp uq m) st }) (ltsym, buf1, 0);
     stsym \<leftarrow> W16copy stsym 0 buf1 FRSZ LPCO;
     xq \<leftarrow> W16copy xq XQOFF buf1 LPCO FRSZ;
     Some (xq, ltsym, stsym, E) }"

section \<open>Post filter (\<open>postfilt.c\<close>)\<close>

definition postfilter_range :: "int \<Rightarrow> int \<times> int" where
  "postfilter_range pp = (
     let pptmin = sub pp DPPQNS;
         pptmax = add pp DPPQNS
     in if pptmin < MINPP then (MINPP, add MINPP (2 * DPPQNS))
        else if pptmax > MAXPP then (sub MAXPP (2 * DPPQNS), MAXPP)
        else (pptmin, pptmax))"

text \<open>The signal, scaled down when its energy is high: the array, the offset of the frame in it and
  the shift.\<close>

definition postfilter_buffer :: "int list \<Rightarrow> int \<Rightarrow> (int list \<times> int \<times> int) option" where
  "postfilter_buffer s pptmax = do {
     let len = add (int FRSZ) pptmax;
     a0 \<leftarrow> for_up 0 (nat len) (\<lambda>n a0. do {
       v \<leftarrow> get s (int XQOFF - pptmax + n);
       let t1 = shr_16 v 3;
       Some (L_mac0 a0 t1 t1) }) 0;
     let shift = norm_l a0;
     let shift = (if a0 = 0 then 31 else shift);
     let shift = sub 6 shift;
     if shift > 0
     then do {
       let shift = shr_16 (add shift 1) 1;
       buf \<leftarrow> for_up 0 (nat len) (\<lambda>n buf. do {
         v \<leftarrow> get s (int XQOFF - pptmax + n);
         put buf n (shr_16 v shift) }) (replicate (nat MAXPP + FRSZ) 0);
       Some (buf, pptmax, shift) }
     else Some (s, int XQOFF, 0) }"

text \<open>\<open>\<Sigma> ps[n - i] * ps[n - k]\<close> over the frame.\<close>

definition frame_product :: "int list \<Rightarrow> int \<Rightarrow> int \<Rightarrow> int \<Rightarrow> int option" where
  "frame_product ps po i k = for_up 0 FRSZ (\<lambda>n R. do {
     u \<leftarrow> get ps (po + n - i);
     v \<leftarrow> get ps (po + n - k);
     Some (L_mac0 R u v) }) 0"

text \<open>A number with its exponent: \<open>norm_l\<close> and the upper half of the shifted number.\<close>

definition normalised :: "int \<Rightarrow> int \<times> int" where
  "normalised R = (let e = norm_l R in (extract_h (L_shl R e), e))"

text \<open>The best lag so far with its correlation, and the energy at the current lag.\<close>

record lag_search =
  lg_ppnew :: int
  lg_R1 :: int
  lg_R1max :: int
  lg_R1max_exp :: int
  lg_R01max :: int
  lg_R01Sqmax :: int
  lg_R01Sqmax_exp :: int

definition lag_step :: "int list \<Rightarrow> int \<Rightarrow> int \<Rightarrow> lag_search \<Rightarrow> lag_search option" where
  "lag_step ps po ppt st = do {
     u \<leftarrow> get ps (po + int FRSZ - ppt);
     v \<leftarrow> get ps (po - ppt);
     let R1 = L_mac0 (L_msu0 (lg_R1 st) u u) v v;
     R01 \<leftarrow> frame_product ps po 0 ppt;
     let (t1, R01Sq_exp) = normalised R01;
     let R01Sq_exp = shl R01Sq_exp 1;
     let R01Sq = extract_h (L_mult t1 t1);
     let (R1n, R1_exp) = normalised R1;
     let a0 = L_mult R01Sq (lg_R1max st);
     let a1 = L_mult (lg_R01Sqmax st) R1n;
     let t1 = add R01Sq_exp (lg_R1max_exp st);
     let t2 = add (lg_R01Sqmax_exp st) R1_exp;
     let t2 = sub t1 t2;
     let a0 = (if t2 \<ge> 0 then L_shr a0 t2 else a0);
     let a1 = (if t2 < 0 then L_shl a1 t2 else a1);
     Some (if L_sub a0 a1 > 0
       then \<lparr>lg_ppnew = ppt, lg_R1 = R1, lg_R1max = R1n, lg_R1max_exp = R1_exp, lg_R01max = R01,
             lg_R01Sqmax = R01Sq, lg_R01Sqmax_exp = R01Sq_exp\<rparr>
       else st\<lparr>lg_R1 := R1\<rparr>) }"

definition postfilter_search :: "int list \<Rightarrow> int \<Rightarrow> int \<Rightarrow> int \<Rightarrow> (int \<times> lag_search) option" where
  "postfilter_search ps po pptmin pptmax = do {
     R0 \<leftarrow> frame_product ps po 0 0;
     R1 \<leftarrow> frame_product ps po pptmin pptmin;
     R01 \<leftarrow> frame_product ps po 0 pptmin;
     let (R1max, R1max_exp) = normalised R1;
     let (t1, R01Sqmax_exp) = normalised R01;
     st \<leftarrow> for_range (pptmin + 1) (pptmax + 1) (lag_step ps po)
       \<lparr>lg_ppnew = pptmin, lg_R1 = R1, lg_R1max = R1max, lg_R1max_exp = R1max_exp, lg_R01max = R01,
        lg_R01Sqmax = extract_h (L_mult t1 t1), lg_R01Sqmax_exp = shl R01Sqmax_exp 1\<rparr>;
     Some (R0, st) }"

text \<open>The normalised correlation at the best lag.\<close>

definition pitch_correlation :: "int \<Rightarrow> lag_search \<Rightarrow> int option" where
  "pitch_correlation R0 st = (
     if lg_R1max st = 0 \<or> R0 = 0 \<or> lg_R01max st \<le> 0 then Some 0
     else do {
       let (R0norm, R0_exp) = normalised R0;
       let R0_exp = s16 (R0_exp - 16);
       let a0 = lg_R1max_exp st - 16;
       let t1 = mult (lg_R1max st) R0norm;
       let a0 = a0 + R0_exp - 15;
       (t1, t2) \<leftarrow> sqrt_i t1 (s16 a0);
       let (t3, t0) = normalised (lg_R01max st);
       let t0 = s16 (t0 - 16);
       let aa = mult t3 t1;
       let t0 = s16 (t0 + t2 - 15);
       let t0 = s16 (t0 - 15);
       Some (if t0 < 0 then shl aa (sub 0 t0) else shr_16 aa t0) })"

text \<open>The filtered frame and the energies before and after: \<open>e\<close>, \<open>Rx\<close>, \<open>R0\<close>.\<close>

definition postfilter_energies :: "int list \<Rightarrow> int \<Rightarrow> int \<Rightarrow> int \<Rightarrow> int list \<Rightarrow> (int list \<times> int \<times> int) option" where
  "postfilter_energies s bb1 ppnew shift e = for_up 0 FRSZ (\<lambda>n (e, Rx, R0). do {
     v \<leftarrow> get s (int XQOFF + n);
     w \<leftarrow> get s (int XQOFF + n - ppnew);
     let a0 = L_shl v 15;
     let a0 = L_add a0 (L_mult0 bb1 w);
     e \<leftarrow> put e n (intround a0);
     let t1 = shr_16 (intround a0) shift;
     let t2 = shr_16 v shift;
     Some (e, L_mac0 Rx t1 t1, L_mac0 R0 t2 t2) }) (e, 0, 0)"

definition postfilter_gain :: "int \<Rightarrow> int \<Rightarrow> int option" where
  "postfilter_gain Rx R0 = (
     let R0 = L_shr R0 2
     in if R0 = 0 \<or> Rx = 0 then Some 32767
     else let Rx_exp = norm_l Rx;
              t1 = extract_h (L_shl Rx Rx_exp);
              t2 = extract_h (L_shl R0 Rx_exp)
          in if t2 \<ge> t1 then Some 32767
             else do { t1 \<leftarrow> div_s t2 t1; sqrts t1 })"

text \<open>The step of the interpolation weight, \<open>2^31 / (NINT + 1)\<close>, and one interpolated sample.\<close>

definition interpolation_step :: int where
  "interpolation_step = 2147483648 div (int NINT + 1)"

definition interpolate :: "int list \<Rightarrow> int list \<Rightarrow> int \<Rightarrow> int list \<Rightarrow> int \<Rightarrow> int \<Rightarrow>
    int list \<times> int \<Rightarrow> (int list \<times> int) option" where
  "interpolate s bb ppnew b_prv pp_prv n = (\<lambda>(e, delta). do {
     let delta = L_add delta interpolation_step;
     let ww1 = intround delta;
     let ww2 = add (sub 32767 ww1) 1;
     bb0 \<leftarrow> get bb 0; bb1 \<leftarrow> get bb 1;
     p0 \<leftarrow> get b_prv 0; p1 \<leftarrow> get b_prv 1;
     let bi0 = intround (L_mac (L_mult ww1 bb0) ww2 p0);
     let bi1c = mult ww1 bb1;
     let bi1p = mult ww2 p1;
     u \<leftarrow> get s (int XQOFF + n - ppnew);
     v \<leftarrow> get s (int XQOFF + n - pp_prv);
     w \<leftarrow> get s (int XQOFF + n);
     e \<leftarrow> put e n (intround (L_mac (L_mac (L_mult bi1c u) bi1p v) bi0 w));
     Some (e, delta) })"

text \<open>The result: enhanced speech \<open>e\<close> and the state \<open>ma_a\<close>, \<open>b_prv\<close>, \<open>pp_prv\<close>.\<close>

definition postfilter :: "int list \<Rightarrow> int \<Rightarrow> int \<Rightarrow> int list \<Rightarrow> int \<Rightarrow> int list \<Rightarrow>
    (int list \<times> int \<times> int list \<times> int) option" where
  "postfilter s pp ma_a b_prv pp_prv e = do {
     let (pptmin, pptmax) = postfilter_range pp;
     (ps, po, shift) \<leftarrow> postfilter_buffer s pptmax;
     (R0, st) \<leftarrow> postfilter_search ps po pptmin pptmax;
     aa \<leftarrow> pitch_correlation R0 st;
     let a0 = L_mac (L_mult 8192 aa) 24576 ma_a;
     let ma_a = intround a0;
     let aa = (if ma_a < ATHLD1 \<and> aa < ATHLD2 then 0 else aa);
     let bb1 = mult ScLTPF aa;
     let ppnew = lg_ppnew st;
     (e, Rx, R0) \<leftarrow> postfilter_energies s bb1 ppnew shift e;
     gainn \<leftarrow> postfilter_gain Rx R0;
     let bb = [gainn, mult gainn bb1];
     (e, delta) \<leftarrow> for_up 0 NINT (interpolate s bb ppnew b_prv pp_prv) (e, 0);
     e \<leftarrow> for_up NINT FRSZ (\<lambda>n e. do {
       v \<leftarrow> get e n;
       put e n (intround (L_shl (L_mult gainn v) 1)) }) e;
     bb0 \<leftarrow> get bb 0; bb1 \<leftarrow> get bb 1;
     b_prv \<leftarrow> put b_prv 0 bb0;
     b_prv \<leftarrow> put b_prv 1 bb1;
     Some (e, ma_a, b_prv, ppnew) }"

section \<open>Excitation: no access out of bounds\<close>

lemma excitation_vector_ok:
  assumes "s16_arr 64 cb" "0 \<le> vid" "vid < 32"
  shows "\<exists>u. excitation_vector cb vid = Some u \<and> s16_arr 4 u"
proof -
  have "\<exists>u. for_up 0 VDIM (\<lambda>n uq. do { v \<leftarrow> get cb (i * int VDIM + n); put uq n (f v) }) (replicate VDIM 0) = Some u
      \<and> s16_arr 4 u" if "0 \<le> i" "i < 16" "\<And>v. is_s16 v \<Longrightarrow> is_s16 (f v)" for i f
    by (rule for_up_inv [where P = "s16_arr 4"])
      (use that assms(1) in \<open>auto simp: VDIM_def intro!: arr_update that(3) s16_nth\<close>)
  from this [of vid "\<lambda>v. v"] this [of "vid - 16" negate] show ?thesis
    using assms by (auto simp: excitation_vector_def CBSZ_def s16_idI)
qed

lemma pitch_prediction_ok:
  assumes "s16_arr 178 ltsym" "1 \<le> k" "k < 177" "s16_arr 3 b"
  shows "\<exists>a. pitch_prediction ltsym k b = Some a \<and> is_s32 a"
  using assms by (simp add: pitch_prediction_def)

lemma short_term_prediction_ok:
  assumes "s16_arr 48 buf" "0 \<le> n" "n < 40" "s16_arr 9 aq"
  shows "\<exists>a. short_term_prediction buf n aq = Some a \<and> is_s32 a"
  unfolding short_term_prediction_def
  by (rule for_down_inv [where P = is_s32]) (use assms in \<open>auto simp: LPCO_def\<close>)

lemma L_mac0_square: "is_s32 x \<Longrightarrow> is_s16 t \<Longrightarrow> 0 \<le> x \<Longrightarrow> 0 \<le> L_mac0 x t t"
  by (simp add: L_mac0_eq)

definition synthesis_ok :: "int list \<times> int list \<times> int \<Rightarrow> bool" where
  "synthesis_ok st \<longleftrightarrow> (case st of (ltsym, buf, E) \<Rightarrow> s16_arr 178 ltsym \<and> s16_arr 48 buf \<and> is_s32 E \<and> 0 \<le> E)"

lemma synthesis_step_ok:
  assumes "synthesis_ok st" "s16_arr 4 uq" "m \<le> n" "n < m + 4" "0 \<le> m" "m \<le> 36" "MINPP \<le> pp" "pp \<le> MAXPP"
    "s16_arr 9 aq" "s16_arr 3 b"
  shows "\<exists>t. synthesis_step aq b pp gain_exp uq m n st = Some t \<and> synthesis_ok t"
proof -
  obtain lt bf E where st: "st = (lt, bf, E)" by (cases st)
  have s: "s16_arr 178 lt" "s16_arr 48 bf" "is_s32 E" "0 \<le> E" using assms(1) by (simp_all add: synthesis_ok_def st)
  obtain a where a: "pitch_prediction lt (int LTMOFF + n - pp) b = Some a"
    using pitch_prediction_ok [OF s(1), of "int LTMOFF + n - pp" b] assms by (auto simp: syn_const)
  obtain c where c: "short_term_prediction bf n aq = Some c"
    using short_term_prediction_ok [OF s(2), of n aq] assms by auto
  show ?thesis using assms s
    by (auto simp: synthesis_step_def st a [simplified] c Let_def synthesis_ok_def syn_const
        a [unfolded LTMOFF_def, simplified] L_mac0_square intro!: arr_update)
qed

lemma excdec_w_synth_ok:
  assumes "s16_arr 178 xq" "s16_arr 178 ltsym" "s16_arr 8 stsym" "arr (\<lambda>i. 0 \<le> i \<and> i < 32) 10 idx"
    "s16_arr 3 b" "s16_arr 64 cb" "MINPP \<le> pp" "pp \<le> MAXPP" "s16_arr 9 aq"
  shows "\<exists>x l s E. excdec_w_synth xq ltsym stsym idx b cb pp aq gain_exp = Some (x, l, s, E) \<and>
    s16_arr 178 x \<and> s16_arr 178 l \<and> s16_arr 8 s \<and> is_s32 E \<and> 0 \<le> E"
proof -
  obtain b0 where b0: "W16copy (replicate (LPCO + FRSZ) 0) 0 stsym 0 LPCO = Some b0" "s16_arr 48 b0"
    using W16copy_ok [of is_s16 48 "replicate 48 0" 8 stsym 0 8 0] assms(3) by (auto simp: bv16_const)
  have "\<exists>t. for_up 0 (FRSZ div VDIM) (\<lambda>j st. do { let m = j * int VDIM; vid \<leftarrow> get idx j;
       uq \<leftarrow> excitation_vector cb vid; for_range m (m + int VDIM) (synthesis_step aq b pp gain_exp uq m) st })
       (ltsym, b0, 0) = Some t \<and> synthesis_ok t"
  proof (rule for_up_inv [where P = synthesis_ok])
    fix j st assume j: "int 0 \<le> j" "j < int (FRSZ div VDIM)" and st: "synthesis_ok st"
    then have j10: "0 \<le> j" "j < 10" by (simp_all add: bv16_const)
    obtain vid where vid: "get idx j = Some vid" "0 \<le> vid" "vid < 32" using arr_get [OF assms(4)] j10 by fastforce
    obtain uq where uq: "excitation_vector cb vid = Some uq" "s16_arr 4 uq" using excitation_vector_ok assms(6) vid by blast
    have "\<exists>t. for_range (j * int VDIM) (j * int VDIM + int VDIM) (synthesis_step aq b pp gain_exp uq (j * int VDIM)) st = Some t
        \<and> synthesis_ok t"
      by (rule for_range_inv [where P = synthesis_ok], rule st, rule synthesis_step_ok)
        (use uq j10 assms in \<open>simp_all add: VDIM_def\<close>)
    then show "\<exists>t. (do { let m = j * int VDIM; vid \<leftarrow> get idx j; uq \<leftarrow> excitation_vector cb vid;
        for_range m (m + int VDIM) (synthesis_step aq b pp gain_exp uq m) st }) = Some t \<and> synthesis_ok t"
      using vid uq by (simp add: Let_def)
  qed (use assms(2) b0 in \<open>simp add: synthesis_ok_def\<close>)
  then obtain l b1 E where r: "for_up 0 (FRSZ div VDIM) (\<lambda>j st. do { let m = j * int VDIM; vid \<leftarrow> get idx j;
       uq \<leftarrow> excitation_vector cb vid; for_range m (m + int VDIM) (synthesis_step aq b pp gain_exp uq m) st })
       (ltsym, b0, 0) = Some (l, b1, E)" "s16_arr 178 l" "s16_arr 48 b1" "is_s32 E" "0 \<le> E"
    by (auto simp: synthesis_ok_def)
  obtain s where s: "W16copy stsym 0 b1 FRSZ LPCO = Some s" "s16_arr 8 s"
    using W16copy_ok [OF assms(3) r(3), of FRSZ LPCO 0] by (auto simp: bv16_const)
  obtain x where x: "W16copy xq XQOFF b1 LPCO FRSZ = Some x" "s16_arr 178 x"
    using W16copy_ok [OF assms(1) r(3), of LPCO FRSZ XQOFF] by (auto simp: syn_const)
  show ?thesis using b0 r s x by (simp add: excdec_w_synth_def)
qed

section \<open>Post filter: no access out of bounds, no abort of the division\<close>

lemma postfilter_range_ok:
  assumes "MINPP \<le> pp" "pp \<le> MAXPP"
  shows "\<exists>lo hi. postfilter_range pp = (lo, hi) \<and> MINPP \<le> lo \<and> hi = lo + 8 \<and> hi \<le> MAXPP"
  using assms
  by (auto simp: postfilter_range_def Let_def sub_eq add_eq is_s16_def clamp_def syn_const)

lemma postfilter_buffer_ok:
  assumes "s16_arr 178 s" "MINPP \<le> hi" "hi \<le> MAXPP"
  shows "\<exists>ps po shift k. postfilter_buffer s hi = Some (ps, po, shift) \<and> s16_arr k ps \<and> hi \<le> po \<and> po + 40 \<le> int k"
proof -
  have len: "nat (add (int FRSZ) hi) = nat hi + 40" "0 \<le> hi" "hi \<le> 137"
    using assms by (simp_all add: syn_const add_eq is_s16_def clamp_id)
  have "\<exists>a. for_up 0 (nat hi + 40) (\<lambda>n a0. do { v \<leftarrow> get s (int XQOFF - hi + n); let t1 = shr_16 v 3;
      Some (L_mac0 a0 t1 t1) }) 0 = Some a \<and> is_s32 a"
    by (rule for_up_inv [where P = is_s32]) (use len assms(1) in \<open>auto simp: syn_const Let_def\<close>)
  then obtain a where a: "for_up 0 (nat hi + 40) (\<lambda>n a0. do { v \<leftarrow> get s (int XQOFF - hi + n); let t1 = shr_16 v 3;
      Some (L_mac0 a0 t1 t1) }) 0 = Some a" by blast
  define sh where "sh = sub 6 (if a = 0 then 31 else norm_l a)"
  have "\<exists>b. for_up 0 (nat hi + 40) (\<lambda>n buf. do { v \<leftarrow> get s (int XQOFF - hi + n);
         put buf n (shr_16 v (shr_16 (add sh 1) 1)) }) (replicate (nat MAXPP + FRSZ) 0) = Some b \<and> s16_arr 177 b"
  proof (rule for_up_inv [where P = "s16_arr 177"])
    fix i t assume i: "int 0 \<le> i" "i < int (nat hi + 40)" and t: "s16_arr 177 t"
    have "is_s16 (s ! nat (138 - hi + i))" using i len assms(1) by (intro s16_nth [OF assms(1)]) auto
    then show "\<exists>t'. (do { v \<leftarrow> get s (int XQOFF - hi + i); put t i (shr_16 v (shr_16 (add sh 1) 1)) }) = Some t' \<and> s16_arr 177 t'"
      using i t len assms(1) by (auto simp: syn_const intro!: arr_update)
  qed (simp add: syn_const)
  then obtain b where b: "for_up 0 (nat hi + 40) (\<lambda>n buf. do { v \<leftarrow> get s (int XQOFF - hi + n);
         put buf n (shr_16 v (shr_16 (add sh 1) 1)) }) (replicate (nat MAXPP + FRSZ) 0) = Some b" "s16_arr 177 b" by blast
  have e: "postfilter_buffer s hi = (if sh > 0 then Some (b, hi, shr_16 (add sh 1) 1) else Some (s, int XQOFF, 0))"
    using a b(1) by (simp add: postfilter_buffer_def len(1) Let_def sh_def)
  show ?thesis
  proof (cases "sh > 0")
    case True
    then have "postfilter_buffer s hi = Some (b, hi, shr_16 (add sh 1) 1) \<and> s16_arr 177 b \<and> hi \<le> hi \<and> hi + 40 \<le> int 177"
      using e b(2) len by simp
    then show ?thesis by blast
  next
    case False
    then have "postfilter_buffer s hi = Some (s, int XQOFF, 0) \<and> s16_arr 178 s \<and> hi \<le> int XQOFF \<and> int XQOFF + 40 \<le> int 178"
      using e assms(1) len by (simp add: syn_const)
    then show ?thesis by blast
  qed
qed

lemma frame_product_ok:
  assumes "s16_arr k ps" "0 \<le> i" "i \<le> po" "0 \<le> j" "j \<le> po" "po + 40 \<le> int k"
  shows "\<exists>R. frame_product ps po i j = Some R \<and> is_s32 R"
  unfolding frame_product_def
  by (rule for_up_inv [where P = is_s32]) (use assms in \<open>auto simp: FRSZ_def\<close>)

definition lag_ok :: "int \<Rightarrow> lag_search \<Rightarrow> bool" where
  "lag_ok hi st \<longleftrightarrow> MINPP \<le> lg_ppnew st \<and> lg_ppnew st \<le> hi \<and> is_s32 (lg_R1 st) \<and> is_s16 (lg_R1max st) \<and> is_s32 (lg_R01max st)"

lemma lag_step_ok:
  assumes "s16_arr k ps" "hi \<le> po" "po + 40 \<le> int k" "MINPP \<le> p" "p \<le> hi" "lag_ok hi st"
  shows "\<exists>t. lag_step ps po p st = Some t \<and> lag_ok hi t"
proof -
  obtain R where R: "frame_product ps po 0 p = Some R" "is_s32 R"
    using frame_product_ok [OF assms(1), of 0 po p] assms by (auto simp: MINPP_def)
  then show ?thesis using assms
    by (auto simp: lag_step_def lag_ok_def Let_def normalised_def syn_const)
qed

lemma postfilter_search_ok:
  assumes "s16_arr k ps" "hi \<le> po" "po + 40 \<le> int k" "MINPP \<le> lo" "lo \<le> hi"
  shows "\<exists>R0 st. postfilter_search ps po lo hi = Some (R0, st) \<and> is_s32 R0 \<and> lag_ok hi st"
proof -
  have p: "0 \<le> lo" "lo \<le> po" using assms by (simp_all add: MINPP_def)
  obtain R0 where R0: "frame_product ps po 0 0 = Some R0" "is_s32 R0" using frame_product_ok [OF assms(1), of 0 po 0] assms p by auto
  obtain R1 where R1: "frame_product ps po lo lo = Some R1" "is_s32 R1" using frame_product_ok [OF assms(1), of lo po lo] assms p by auto
  obtain R2 where R2: "frame_product ps po 0 lo = Some R2" "is_s32 R2" using frame_product_ok [OF assms(1), of 0 po lo] assms p by auto
  define st where "st = \<lparr>lg_ppnew = lo, lg_R1 = R1, lg_R1max = fst (normalised R1), lg_R1max_exp = snd (normalised R1),
    lg_R01max = R2, lg_R01Sqmax = extract_h (L_mult (fst (normalised R2)) (fst (normalised R2))),
    lg_R01Sqmax_exp = shl (snd (normalised R2)) 1\<rparr>"
  have "lag_ok hi st" using assms R1 R2 by (simp add: st_def lag_ok_def normalised_def Let_def)
  then have "\<exists>t. for_range (lo + 1) (hi + 1) (lag_step ps po) st = Some t \<and> lag_ok hi t"
    by (rule for_range_inv [where P = "lag_ok hi"], intro lag_step_ok [OF assms(1-3)]) (use assms in simp_all)
  then show ?thesis using R0 R1 R2 by (auto simp: postfilter_search_def split_beta st_def)
qed

lemma pitch_correlation_ok:
  assumes "is_s16 (lg_R1max st)"
  shows "\<exists>aa. pitch_correlation R0 st = Some aa \<and> is_s16 aa"
proof -
  have "is_s16 (mult (lg_R1max st) (fst (normalised R0)))" by simp
  then obtain t1 t2 where t: "sqrt_i (mult (lg_R1max st) (fst (normalised R0)))
      (s16 (lg_R1max_exp st - 16 + s16 (snd (normalised R0) - 16) - 15)) = Some (t1, t2)"
    using sqrt_i_ok by blast
  then show ?thesis by (simp add: pitch_correlation_def split_beta Let_def)
qed

lemma postfilter_energies_ok:
  assumes "s16_arr 178 s" "MINPP \<le> p" "p \<le> MAXPP" "s16_arr 40 e"
  shows "\<exists>e' Rx R0. postfilter_energies s bb1 p shift e = Some (e', Rx, R0) \<and> s16_arr 40 e' \<and>
    is_s32 Rx \<and> is_s32 R0 \<and> 0 \<le> Rx \<and> 0 \<le> R0"
proof -
  let ?P = "\<lambda>(e', Rx, R0). s16_arr 40 e' \<and> is_s32 Rx \<and> is_s32 R0 \<and> 0 \<le> Rx \<and> 0 \<le> R0"
  have "\<exists>t. postfilter_energies s bb1 p shift e = Some t \<and> ?P t"
    unfolding postfilter_energies_def
  proof (rule for_up_inv [where P = ?P])
    fix i t assume i: "int 0 \<le> i" "i < int FRSZ" and t: "?P t"
    obtain e' Rx R0 where "t = (e', Rx, R0)" by (cases t)
    moreover have "is_s16 (s ! nat (138 + i))" using i by (intro s16_nth [OF assms(1)]) (simp add: FRSZ_def)
    ultimately show "\<exists>t'. (case t of (e, Rx, R0) \<Rightarrow> do { v \<leftarrow> get s (int XQOFF + i); w \<leftarrow> get s (int XQOFF + i - p);
       let a0 = L_shl v 15; let a0 = L_add a0 (L_mult0 bb1 w); e \<leftarrow> put e i (intround a0);
       let t1 = shr_16 (intround a0) shift; let t2 = shr_16 v shift;
       Some (e, L_mac0 Rx t1 t1, L_mac0 R0 t2 t2) }) = Some t' \<and> ?P t'"
      using i t assms by (auto simp: syn_const Let_def L_mac0_square intro!: arr_update)
  qed (use assms(4) in simp)
  then show ?thesis by auto
qed

lemma postfilter_gain_ok:
  assumes "is_s32 Rx" "0 \<le> Rx" "is_s32 R0" "0 \<le> R0"
  shows "\<exists>g. postfilter_gain Rx R0 = Some g \<and> is_s16 g"
proof -
  define t1 where "t1 = extract_h (L_shl Rx (norm_l Rx))"
  define t2 where "t2 = extract_h (L_shl (L_shr R0 2) (norm_l Rx))"
  have R: "is_s32 (L_shr R0 2)" "0 \<le> L_shr R0 2"
    using assms by simp (use assms in \<open>simp add: L_shr_right shr_def pos_imp_zdiv_nonneg_iff\<close>)
  then have "0 \<le> L_shl (L_shr R0 2) (norm_l Rx)"
  proof (cases "norm_l Rx = 0")
    case False
    then show ?thesis using norm_l_range [OF assms(1)] R by (simp add: L_shl_left)
  next
    case True
    then show ?thesis using R by (simp add: L_shl.simps L_shr_right shr_def s16_idI)
  qed
  moreover have "is_s32 (L_shl (L_shr R0 2) (norm_l Rx))" using R by simp
  ultimately have t2: "0 \<le> t2" by (simp add: t2_def extract_h_eq pos_imp_zdiv_nonneg_iff)
  have t1: "t1 \<le> 32767" using s16_ops by (simp add: t1_def is_s16_def)
  have "\<exists>g. (if t2 \<ge> t1 then Some 32767 else do { t1 \<leftarrow> div_s t2 t1; sqrts t1 }) = Some g \<and> is_s16 g"
  proof (cases "t2 \<ge> t1")
    case False
    then obtain q where q: "div_s t2 t1 = Some q" "0 \<le> q" "q \<le> 32767" using div_s_ok [of t2 t1] t1 t2 by auto
    then have "is_s16 q" by (simp add: is_s16_def)
    then show ?thesis using False q(1) sqrts_ok by simp
  qed (simp add: is_s16_def)
  then show ?thesis
    by (simp add: postfilter_gain_def Let_def t1_def [symmetric] t2_def [symmetric] is_s16_def [of 32767] split: if_splits)
qed

lemma interpolate_ok:
  assumes "s16_arr 178 s" "s16_arr 2 bb" "s16_arr 2 b_prv" "MINPP \<le> p" "p \<le> MAXPP" "MINPP \<le> q" "q \<le> MAXPP"
    "s16_arr 40 (fst t)" "0 \<le> n" "n < 20"
  shows "\<exists>r. interpolate s bb p b_prv q n t = Some r \<and> s16_arr 40 (fst r)"
proof -
  obtain e d where "t = (e, d)" by (cases t)
  then show ?thesis using assms by (auto simp: interpolate_def Let_def syn_const intro!: arr_update)
qed

lemma postfilter_ok:
  assumes "s16_arr 178 s" "MINPP \<le> pp" "pp \<le> MAXPP" "s16_arr 2 b_prv" "MINPP \<le> pp_prv" "pp_prv \<le> MAXPP" "s16_arr 40 e"
  shows "\<exists>e' m b p. postfilter s pp ma_a b_prv pp_prv e = Some (e', m, b, p) \<and>
    s16_arr 40 e' \<and> is_s16 m \<and> s16_arr 2 b \<and> MINPP \<le> p \<and> p \<le> MAXPP"
proof -
  obtain lo hi where r: "postfilter_range pp = (lo, hi)" "MINPP \<le> lo" "lo \<le> hi" "hi \<le> MAXPP"
    using postfilter_range_ok [OF assms(2,3)] by force
  obtain ps po sh k where b: "postfilter_buffer s hi = Some (ps, po, sh)" "s16_arr k ps" "hi \<le> po" "po + 40 \<le> int k"
    using postfilter_buffer_ok [OF assms(1)] r by (meson order_trans)
  obtain R0 st where st: "postfilter_search ps po lo hi = Some (R0, st)" "lag_ok hi st"
    using postfilter_search_ok [OF b(2,3,4)] r by blast
  have l: "is_s16 (lg_R1max st)" "MINPP \<le> lg_ppnew st" "lg_ppnew st \<le> MAXPP" using st(2) r by (auto simp: lag_ok_def)
  obtain aa where aa: "pitch_correlation R0 st = Some aa" "is_s16 aa" using pitch_correlation_ok l(1) by blast
  define m where "m = intround (L_mac (L_mult 8192 aa) 24576 ma_a)"
  define bb1 where "bb1 = mult ScLTPF (if m < ATHLD1 \<and> aa < ATHLD2 then 0 else aa)"
  obtain e1 Rx Ry where e1: "postfilter_energies s bb1 (lg_ppnew st) sh e = Some (e1, Rx, Ry)" "s16_arr 40 e1"
    "is_s32 Rx" "is_s32 Ry" "0 \<le> Rx" "0 \<le> Ry"
    using postfilter_energies_ok [OF assms(1) l(2,3) assms(7)] by blast
  obtain g where g: "postfilter_gain Rx Ry = Some g" "is_s16 g" using postfilter_gain_ok e1(3-6) by blast
  have bb: "s16_arr 2 [g, mult g bb1]" using g(2) by (simp add: arr_def)
  have "\<exists>t. for_up 0 NINT (interpolate s [g, mult g bb1] (lg_ppnew st) b_prv pp_prv) (e1, 0) = Some t \<and> s16_arr 40 (fst t)"
    by (rule for_up_inv [where P = "\<lambda>t. s16_arr 40 (fst t)"], simp add: e1(2))
      (rule interpolate_ok [OF assms(1) bb assms(4) l(2,3) assms(5,6)]; simp add: NINT_def)
  then obtain e2 d where e2: "for_up 0 NINT (interpolate s [g, mult g bb1] (lg_ppnew st) b_prv pp_prv) (e1, 0) = Some (e2, d)"
    "s16_arr 40 e2" by auto
  have "\<exists>t. for_up NINT FRSZ (\<lambda>n e. do { v \<leftarrow> get e n; put e n (intround (L_shl (L_mult g v) 1)) }) e2 = Some t \<and> s16_arr 40 t"
    by (rule for_up_inv [where P = "s16_arr 40"]) (use e2(2) in \<open>auto simp: syn_const intro!: arr_update\<close>)
  then obtain e3 where e3: "for_up NINT FRSZ (\<lambda>n e. do { v \<leftarrow> get e n; put e n (intround (L_shl (L_mult g v) 1)) }) e2 = Some e3"
    "s16_arr 40 e3" by blast
  have "s16_arr 2 (b_prv[0 := g, Suc 0 := mult g bb1])" using assms(4) g(2) by (auto intro!: arr_update)
  then show ?thesis
    using assms(4) aa(1) e1(1) g(1) e2(1) e3 l b(1) st(1) r(1)
    by (simp add: postfilter_def Let_def m_def [symmetric] bb1_def [symmetric]) (simp add: m_def)
qed

end
