(* ===== verification/BV_Bitpack.thy ===== *)
theory BV_Bitpack
  imports Prelude Field_Codec
begin

text \<open>
  The packet of BroadVoice16 (\<open>bitpack.c\<close>): the 15 indexes of a frame of 5 ms to and from ten bytes.
  Indexes are the 16 bit integers of \<open>struct BV16_Bit_Stream\<close> (\<open>bv16strct.h\<close>), the stream is
  \<open>UWord8\<close>, the working word \<open>UWord32\<close>. The packer does not mask the indexes: it is exact for
  indexes that fit their widths, which is what the encoder produces.
\<close>

section \<open>The frame\<close>

record BV16_Bit_Stream =
  bs_lspidx :: "int list"
  bs_ppidx :: int
  bs_bqidx :: int
  bs_gidx :: int
  bs_qvidx :: "int list"

type_synonym octet = "8 word"

text \<open>\<open>(UWord32) x\<close> of a 16 bit integer, and the two upper bytes of the working word.\<close>

definition to_word :: "int \<Rightarrow> 32 word" where
  "to_word x = word_of_int x"

definition upper_bytes :: "32 word \<Rightarrow> octet list" where
  "upper_bytes t = [ucast (drop_bit 24 t), ucast (drop_bit 24 (push_bit 8 t))]"

text \<open>The packer on its 15 fields.\<close>

definition pack_fields :: "(nat \<Rightarrow> 32 word) \<Rightarrow> octet list" where
  "pack_fields f = (
     let temppack = push_bit 25 (f 0);
         temppack = temppack OR push_bit 18 (f 1);
         temppack = temppack OR push_bit 11 (f 2);
         b12 = upper_bytes temppack;
         temppack = push_bit 16 temppack;
         temppack = temppack OR push_bit 22 (f 3);
         temppack = temppack OR push_bit 18 (f 4);
         temppack = temppack OR push_bit 13 (f 5);
         b34 = upper_bytes temppack;
         temppack = push_bit 16 temppack;
         temppack = temppack OR push_bit 24 (f 6);
         temppack = temppack OR push_bit 19 (f 7);
         temppack = temppack OR push_bit 14 (f 8);
         b56 = upper_bytes temppack;
         temppack = push_bit 16 temppack;
         temppack = temppack OR push_bit 25 (f 9);
         temppack = temppack OR push_bit 20 (f 10);
         temppack = temppack OR push_bit 15 (f 11);
         b78 = upper_bytes temppack;
         temppack = push_bit 16 temppack;
         temppack = temppack OR push_bit 26 (f 12);
         temppack = temppack OR push_bit 21 (f 13);
         temppack = temppack OR push_bit 16 (f 14)
     in b12 @ b34 @ b56 @ b78 @ upper_bytes temppack)"

definition unpack_fields :: "(nat \<Rightarrow> 32 word) \<Rightarrow> 32 word list" where
  "unpack_fields b = (
     let w1 = push_bit 8 (b 0) OR b 1;
         w2 = push_bit 8 (push_bit 8 (w1 AND 0x0003) OR b 2) OR b 3;
         w3 = push_bit 8 (push_bit 8 (w2 AND 0x0003) OR b 4) OR b 5;
         w4 = push_bit 8 (push_bit 8 (w3 AND 0x0007) OR b 6) OR b 7;
         w5 = push_bit 8 (push_bit 8 (w4 AND 0x000F) OR b 8) OR b 9
     in [drop_bit 9 w1, drop_bit 2 (w1 AND 0x01FF),
         drop_bit 11 w2, drop_bit 6 (w2 AND 0x07FF), drop_bit 2 (w2 AND 0x003F),
         drop_bit 13 w3, drop_bit 8 (w3 AND 0x1FFF), drop_bit 3 (w3 AND 0x00FF),
         drop_bit 14 w4, drop_bit 9 (w4 AND 0x3FFF), drop_bit 4 (w4 AND 0x01FF),
         drop_bit 15 w5, drop_bit 10 (w5 AND 0x7FFF), drop_bit 5 (w5 AND 0x03FF), w5 AND 0x001F])"

text \<open>The 15 fields of the structure in the order of the packet.\<close>

definition fields_of :: "BV16_Bit_Stream \<Rightarrow> int list" where
  "fields_of bs = bs_lspidx bs @ [bs_ppidx bs, bs_bqidx bs, bs_gidx bs] @ bs_qvidx bs"

definition of_fields :: "int list \<Rightarrow> BV16_Bit_Stream" where
  "of_fields xs = \<lparr>bs_lspidx = take 2 xs, bs_ppidx = xs ! 2, bs_bqidx = xs ! 3, bs_gidx = xs ! 4,
     bs_qvidx = drop 5 xs\<rparr>"

definition BV16_BitPack :: "BV16_Bit_Stream \<Rightarrow> octet list option" where
  "BV16_BitPack bs = (if length (bs_lspidx bs) = 2 \<and> length (bs_qvidx bs) = 10
     then Some (pack_fields (\<lambda>i. to_word (fields_of bs ! i))) else None)"

definition BV16_BitUnPack :: "octet list \<Rightarrow> BV16_Bit_Stream option" where
  "BV16_BitUnPack stream = (if 10 \<le> length stream
     then Some (of_fields (map (\<lambda>w. s16 (uint w)) (unpack_fields (\<lambda>i. ucast (stream ! i))))) else None)"

section \<open>Round trips\<close>

text \<open>The widths in bits that the comment of the source lists.\<close>

definition bit_table :: "nat list" where
  "bit_table = [7, 7, 7, 5, 4, 5, 5, 5, 5, 5, 5, 5, 5, 5, 5]"

definition fits :: "BV16_Bit_Stream \<Rightarrow> bool" where
  "fits bs \<longleftrightarrow> length (bs_lspidx bs) = 2 \<and> length (bs_qvidx bs) = 10 \<and>
     (\<forall>i<15. 0 \<le> fields_of bs ! i \<and> fields_of bs ! i < 2 ^ (bit_table ! i))"

lemma octet_eqI: "list_all (\<lambda>n. bit a n = bit b n) [0..<8] \<Longrightarrow> a = b" for a b :: octet
  by (rule bit_word_eqI) (auto simp: list_all_iff)

lemma word32_eqI: "list_all (\<lambda>n. bit a n = bit b n) [0..<32] \<Longrightarrow> a = b" for a b :: "32 word"
  by (rule bit_word_eqI) (auto simp: list_all_iff)

lemma bits_8: "[0..<8] = [0, 1, 2, 3, 4, 5, 6, 7]"
  and bits_10: "[0..<10] = [0, 1, 2, 3, 4, 5, 6, 7, 8, 9]"
  and bits_15: "[0..<15] = [0, 1, 2, 3, 4, 5, 6, 7, 8, 9, 10, 11, 12, 13, 14]"
  and bits_32: "[0..<32] = [0, 1, 2, 3, 4, 5, 6, 7, 8, 9, 10, 11, 12, 13, 14, 15, 16, 17, 18, 19, 20,
    21, 22, 23, 24, 25, 26, 27, 28, 29, 30, 31]"
  by (simp_all add: upt_rec)

lemma octet_high_bits: "8 \<le> n \<Longrightarrow> \<not> bit (b :: octet) n"
  using bit_imp_le_length [of b n] by auto

lemma two_three: "Suc (Suc 0) = 2" "Suc (Suc (Suc 0)) = 3"
  by simp_all

lemma bit_twice: "bit (w * 2) n \<longleftrightarrow> 0 < n \<and> n < 32 \<and> bit w (n - 1)" for w :: "32 word"
proof -
  have "w * 2 = push_bit 1 w" by (simp add: push_bit_eq_mult)
  then show ?thesis by (simp only: bit_simps) auto
qed

lemmas field_simps_bits = bit_simps bit_0 bit_twice octet_high_bits two_three

lemma unpack_pack_fields:
  "unpack_fields (\<lambda>i. ucast (pack_fields (\<lambda>i. take_bit (bit_table ! i) (p i)) ! i))
    = map (\<lambda>i. take_bit (bit_table ! i) (p i)) [0..<15]"
  unfolding unpack_fields_def pack_fields_def upper_bytes_def Let_def
  by (simp add: bits_15 bit_table_def)
    (intro conjI; rule word32_eqI; simp add: bits_32 field_simps_bits)

text \<open>The fields read off the bytes directly.\<close>

definition byte_fields :: "(nat \<Rightarrow> 32 word) \<Rightarrow> 32 word list" where
  "byte_fields b =
    [drop_bit 1 (b 0), push_bit 6 (b 0 AND 1) OR drop_bit 2 (b 1), push_bit 5 (b 1 AND 3) OR drop_bit 3 (b 2),
     push_bit 2 (b 2 AND 7) OR drop_bit 6 (b 3), drop_bit 2 (b 3) AND 15, push_bit 3 (b 3 AND 3) OR drop_bit 5 (b 4),
     b 4 AND 31, drop_bit 3 (b 5), push_bit 2 (b 5 AND 7) OR drop_bit 6 (b 6), drop_bit 1 (b 6) AND 31,
     push_bit 4 (b 6 AND 1) OR drop_bit 4 (b 7), push_bit 1 (b 7 AND 15) OR drop_bit 7 (b 8),
     drop_bit 2 (b 8) AND 31, push_bit 3 (b 8 AND 3) OR drop_bit 5 (b 9), b 9 AND 31]"

lemma unpack_byte_fields:
  fixes b :: "nat \<Rightarrow> octet"
  shows "unpack_fields (\<lambda>i. ucast (b i)) = byte_fields (\<lambda>i. ucast (b i))"
  unfolding unpack_fields_def byte_fields_def Let_def list.inject
  by (intro conjI refl; rule word32_eqI; simp add: bits_32 field_simps_bits)

lemma pack_unpack_fields:
  fixes b :: "nat \<Rightarrow> octet"
  shows "pack_fields (\<lambda>i. unpack_fields (\<lambda>i. ucast (b i)) ! i) = map b [0..<10]"
  unfolding unpack_byte_fields
  unfolding byte_fields_def pack_fields_def upper_bytes_def Let_def
  by (simp add: bits_10)
    (intro conjI; rule octet_eqI; simp add: bits_8 field_simps_bits)

section \<open>Between indexes and words\<close>

lemma of_fields_of:
  "length (bs_lspidx bs) = 2 \<Longrightarrow> length (bs_qvidx bs) = 10 \<Longrightarrow> of_fields (fields_of bs) = bs"
  by (cases bs) (simp add: of_fields_def fields_of_def nth_append)

lemma fields_of_of:
  assumes "length xs = 15"
  shows "fields_of (of_fields xs) = xs" "length (bs_lspidx (of_fields xs)) = 2" "length (bs_qvidx (of_fields xs)) = 10"
proof -
  have "take 2 xs @ [xs ! 2, xs ! 3, xs ! 4] @ drop 5 xs = xs"
    using assms id_take_nth_drop [of 2 xs] Cons_nth_drop_Suc [of 3 xs] Cons_nth_drop_Suc [of 4 xs]
    by (simp add: numeral_nat)
  then show "fields_of (of_fields xs) = xs" by (simp add: fields_of_def of_fields_def)
qed (use assms in \<open>simp_all add: of_fields_def\<close>)

lemma bit_table_le: "i < 15 \<Longrightarrow> bit_table ! i \<le> 7"
  by (auto simp: bit_table_def numeral_nat less_Suc_eq)

text \<open>A field that fits survives the conversions, and so does a word of at most seven bits.\<close>

lemma to_word_field:
  assumes "0 \<le> x" "x < 2 ^ (bit_table ! i)" "i < 15"
  shows "take_bit (bit_table ! i) (to_word x) = to_word x" "s16 (uint (to_word x)) = x"
proof -
  have "(2 :: int) ^ (bit_table ! i) \<le> 2 ^ 7" using bit_table_le [OF assms(3)] by (intro power_increasing) auto
  with assms have b: "x < 128" by simp
  then have u: "uint (to_word x) = x" using assms(1)
    by (simp add: to_word_def unsigned_of_int take_bit_int_eq_self)
  then show "s16 (uint (to_word x)) = x" using assms(1) b by (simp add: s16_idI)
  have "bit_table ! i < 32" using bit_table_le [OF assms(3)] by simp
  then show "take_bit (bit_table ! i) (to_word x) = to_word x"
    using u assms by (simp add: word_uint_eq_iff unsigned_take_bit_eq take_bit_int_eq_self)
qed

lemma word_of_field:
  assumes "i < 15"
  shows "0 \<le> s16 (uint (take_bit (bit_table ! i) (w :: 32 word)))"
    "s16 (uint (take_bit (bit_table ! i) w)) < 2 ^ (bit_table ! i)"
    "to_word (s16 (uint (take_bit (bit_table ! i) w))) = take_bit (bit_table ! i) w"
proof -
  have l: "bit_table ! i \<le> 7" using bit_table_le [OF assms] .
  have u: "uint (take_bit (bit_table ! i) w) = take_bit (bit_table ! i) (uint w)"
    using l by (simp add: unsigned_take_bit_eq)
  have b: "0 \<le> take_bit (bit_table ! i) (uint w)" "take_bit (bit_table ! i) (uint w) < 2 ^ (bit_table ! i)"
    by simp_all
  have p: "(2 :: int) ^ (bit_table ! i) \<le> 2 ^ 7" using l by (intro power_increasing) auto
  obtain v where v: "take_bit (bit_table ! i) (uint w) = v" by blast
  have "0 \<le> v" "v \<le> 32767" using b p unfolding v by simp_all
  then have s: "s16 (uint (take_bit (bit_table ! i) w)) = uint (take_bit (bit_table ! i) w)"
    unfolding u v by (simp add: s16_idI)
  show "0 \<le> s16 (uint (take_bit (bit_table ! i) w))" "s16 (uint (take_bit (bit_table ! i) w)) < 2 ^ (bit_table ! i)"
    unfolding s unfolding u using b by simp_all
  show "to_word (s16 (uint (take_bit (bit_table ! i) w))) = take_bit (bit_table ! i) w"
    unfolding s to_word_def by simp
qed

section \<open>The codec\<close>

lemma length_unpack_fields [simp]: "length (unpack_fields b) = 15"
  by (simp add: unpack_fields_def Let_def)

lemma length_pack_fields [simp]: "length (pack_fields f) = 10"
  by (simp add: pack_fields_def upper_bytes_def Let_def)

lemma pack_fields_cong: "(\<And>i. i < 15 \<Longrightarrow> f i = g i) \<Longrightarrow> pack_fields f = pack_fields g"
  by (simp add: pack_fields_def)

lemma fields_length: "fits bs \<Longrightarrow> length (fields_of bs) = 15"
  by (simp add: fits_def fields_of_def)

lemma pack_fits:
  assumes "fits bs"
  shows "BV16_BitPack bs = Some (pack_fields (\<lambda>i. take_bit (bit_table ! i) (to_word (fields_of bs ! i))))"
  using assms to_word_field(1)
  by (auto simp: BV16_BitPack_def fits_def intro!: pack_fields_cong)

lemma unpack_pack_fits:
  assumes "fits bs" "BV16_BitPack bs = Some ys"
  shows "BV16_BitUnPack ys = Some bs"
proof -
  let ?p = "\<lambda>i. to_word (fields_of bs ! i)"
  have ys: "ys = pack_fields (\<lambda>i. take_bit (bit_table ! i) (?p i))" using assms pack_fits by simp
  have "map (\<lambda>w. s16 (uint w)) (map (\<lambda>i. take_bit (bit_table ! i) (?p i)) [0..<15]) = fields_of bs"
    using assms(1) fields_length [OF assms(1)] to_word_field(1) to_word_field(2) [of "fields_of bs ! _" _]
    by (intro nth_equalityI) (auto simp: fits_def)
  then show ?thesis using assms(1)
    by (simp add: BV16_BitUnPack_def ys unpack_pack_fields of_fields_of fits_def)
qed

text \<open>Every packet is the packet of its fields, which fit: the unpacker cuts them from the bytes.\<close>

lemma unpack_fields_take:
  fixes b :: "nat \<Rightarrow> octet"
  assumes "i < 15"
  shows "take_bit (bit_table ! i) (unpack_fields (\<lambda>i. ucast (b i)) ! i) = unpack_fields (\<lambda>i. ucast (b i)) ! i"
proof -
  have "unpack_fields (\<lambda>i. ucast (b i)) = unpack_fields (\<lambda>i. ucast (b i))" ..
  let ?w = "unpack_fields (\<lambda>i. ucast (b i))"
  have "list_all2 (\<lambda>n w. take_bit n w = w) bit_table ?w"
    unfolding unpack_byte_fields byte_fields_def bit_table_def
    by (simp; intro conjI; rule word32_eqI; simp add: bits_32 field_simps_bits)
  then show ?thesis using assms by (simp add: list_all2_conv_all_nth bit_table_def)
qed

lemma unpack_total:
  assumes "10 \<le> length ys"
  shows "\<exists>bs. BV16_BitUnPack ys = Some bs \<and> fits bs \<and> BV16_BitPack bs = Some (take 10 ys)"
proof -
  let ?w = "unpack_fields (\<lambda>i. ucast (ys ! i))"
  let ?bs = "of_fields (map (\<lambda>w. s16 (uint w)) ?w)"
  have f: "fields_of ?bs ! i = s16 (uint (take_bit (bit_table ! i) (?w ! i)))" if "i < 15" for i
    using that unpack_fields_take [of i "\<lambda>i. ys ! i"] by (simp add: fields_of_of)
  have "fits ?bs" using f word_of_field by (simp add: fits_def fields_of_of)
  moreover have "pack_fields (\<lambda>i. to_word (fields_of ?bs ! i)) = pack_fields (\<lambda>i. ?w ! i)"
    using f word_of_field(3) [of _ "?w ! _"] unpack_fields_take [of _ "\<lambda>i. ys ! i"]
    by (intro pack_fields_cong) metis
  moreover have "map ((!) ys) [0..<10] = take 10 ys" using assms by (intro nth_equalityI) auto
  ultimately show ?thesis using assms pack_unpack_fields [of "\<lambda>i. ys ! i"]
    by (simp add: BV16_BitUnPack_def BV16_BitPack_def fields_of_of)
qed

interpretation bv16: field_codec BV16_BitPack BV16_BitUnPack id fits 10
proof
  fix bs assume "fits bs"
  then show "\<exists>ys. BV16_BitPack bs = Some ys \<and> length ys = 10" by (simp add: pack_fits)
  fix ys assume "BV16_BitPack bs = Some ys"
  with \<open>fits bs\<close> show "BV16_BitUnPack ys = Some (id bs)" using unpack_pack_fits by simp
next
  fix ys :: "octet list" and bs assume l: "length ys = 10"
  then show "\<exists>bs. BV16_BitUnPack ys = Some bs \<and> fits bs" using unpack_total [of ys] by auto
  assume "BV16_BitUnPack ys = Some bs"
  with l show "BV16_BitPack bs = Some ys" using unpack_total [of ys] by auto
qed

section \<open>Properties\<close>

text \<open>(C37) The packet of BroadVoice16 loses nothing: a frame whose indexes fit the widths of the
  bit table is packed into ten bytes from which the unpacker returns it, and every ten bytes are
  the packet of the frame the unpacker reads from them. All 80 bits are used.\<close>

theorem bv16_packet_roundtrip:
  assumes "fits bs" "length ys = 10"
  shows "(\<exists>p. BV16_BitPack bs = Some p \<and> length p = 10 \<and> BV16_BitUnPack p = Some bs)
    \<and> Option.bind (BV16_BitUnPack ys) BV16_BitPack = Some ys"
  using bv16.pack_total [OF assms(1)] bv16.unpack_pack [OF assms(1)] bv16.roundtrip_bytes [OF assms(2)] by auto

theorem bv16_packet_roundtrip_witness:
  "\<exists>p. BV16_BitPack \<lparr>bs_lspidx = [127, 3], bs_ppidx = 64, bs_bqidx = 31, bs_gidx = 9, bs_qvidx = [0..9]\<rparr> = Some p \<and>
    BV16_BitUnPack p = Some \<lparr>bs_lspidx = [127, 3], bs_ppidx = 64, bs_bqidx = 31, bs_gidx = 9, bs_qvidx = [0..9]\<rparr>"
  using bv16_packet_roundtrip
    [of "\<lparr>bs_lspidx = [127, 3], bs_ppidx = 64, bs_bqidx = 31, bs_gidx = 9, bs_qvidx = [0..9]\<rparr>" "replicate 10 0"]
  by (auto simp: fits_def fields_of_def bit_table_def numeral_nat less_Suc_eq upto_rec1)

end
