(* ===== verification/BV_Decoder.thy ===== *)
theory BV_Decoder
  imports BV_Synthesis BV_Bitpack
begin

text \<open>
  The BroadVoice16 decoder: its state (\<open>struct BV16_Decoder_State\<close> of \<open>bv16strct.h\<close>), reset and
  decoding of a frame (\<open>decoder.c\<close>) and concealment of a lost one (\<open>plc.c\<close>), then the frames of a
  call, received or lost in any order, as a step relation with its invariant.

  The fields of the C structure carry the prefix \<open>ds_\<close>; the six variables of the level estimation
  are the record \<open>ds_lv\<close>.
\<close>

section \<open>State (\<open>bv16strct.h\<close>) and reset (\<open>decoder.c\<close>)\<close>

record BV16_Decoder_State =
  ds_stsym :: "int list"
  ds_ltsym :: "int list"
  ds_xq :: "int list"
  ds_lsppm :: "int list"
  ds_lgpm :: "int list"
  ds_lsplast :: "int list"
  ds_prevlg :: "int list"
  ds_lv :: level_state
  ds_pp_last :: int
  ds_cfecount :: int
  ds_ngfae :: int
  ds_bq_last :: "int list"
  ds_nggalgc :: int
  ds_idum :: int
  ds_per :: int
  ds_E :: int
  ds_atplc :: "int list"
  ds_ma_a :: int
  ds_b_prv :: "int list"
  ds_pp_prv :: int

text \<open>\<open>W16zero\<close> over the whole structure, then the values that are not zero.\<close>

definition zeroDecoder :: BV16_Decoder_State where
  "zeroDecoder = \<lparr>ds_stsym = replicate LPCO 0, ds_ltsym = replicate LTMOFF 0, ds_xq = replicate XQOFF 0,
     ds_lsppm = replicate (LPCO * LSPPORDER) 0, ds_lgpm = replicate LGPORDER 0, ds_lsplast = replicate LPCO 0,
     ds_prevlg = [0, 0],
     ds_lv = \<lparr>lv_level = 0, lv_lmax = 0, lv_lmin = 0, lv_lmean = 0, lv_x1 = 0, lv_alpha_min = 0\<rparr>,
     ds_pp_last = 0, ds_cfecount = 0, ds_ngfae = 0, ds_bq_last = replicate 3 0, ds_nggalgc = 0,
     ds_idum = 0, ds_per = 0, ds_E = 0, ds_atplc = replicate (LPCO + 1) 0, ds_ma_a = 0, ds_b_prv = [0, 0],
     ds_pp_prv = 0\<rparr>"

definition Reset_BV16_Decoder :: BV16_Decoder_State where
  "Reset_BV16_Decoder = zeroDecoder\<lparr>
     ds_lsplast := [3641, 7282, 10923, 14564, 18204, 21845, 25486, 29127],
     ds_pp_last := 50,
     ds_lv := \<lparr>lv_level = 570425344, lv_lmax = MIN_32, lv_lmin = MAX_32, lv_lmean = 419430400,
               lv_x1 = 570425344, lv_alpha_min = estl_alpha\<rparr>,
     ds_ngfae := int LGPORDER + 1,
     ds_nggalgc := Nfdm + 1,
     ds_idum := 0,
     ds_per := 0,
     ds_atplc := replicate (LPCO + 1) 0,
     ds_ma_a := 0,
     ds_b_prv := [8192, 0],
     ds_pp_prv := 100\<rparr>"

section \<open>A received frame (\<open>decoder.c\<close>)\<close>

text \<open>The frame erasure flags.\<close>

definition erasure_flags :: "BV16_Decoder_State \<Rightarrow> BV16_Decoder_State" where
  "erasure_flags ds = (
     let ngfae = (if ds_cfecount ds \<noteq> 0 then 1
                  else let n = s16 (ds_ngfae ds + 1) in if n > int LGPORDER then int LGPORDER + 1 else n)
     in ds\<lparr>ds_ngfae := ngfae, ds_cfecount := 0\<rparr>)"

text \<open>The code book scaled to the level of the signal: exponent of the gain and code vectors.\<close>

definition scaled_codebook :: "int \<Rightarrow> (int \<times> int list) option" where
  "scaled_codebook a0 = do {
     let gain_exp = sub (norm_l a0) 2;
     let (a0hi, a0lo) = L_Extract a0;
     let a0 = Mpy_32_16 a0hi a0lo 21845;
     let gainq = intround (L_shl a0 gain_exp);
     cbs \<leftarrow> for_up 0 (VDIM * CBSZ) (\<lambda>i cbs. do {
       v \<leftarrow> get cccb i;
       put cbs i (mult_r gainq v) }) (replicate (VDIM * CBSZ) 0);
     Some (gain_exp, cbs) }"

text \<open>\<open>x[i] + (x[i] >> 1)\<close> over the frame.\<close>

definition scale_up :: "int list \<Rightarrow> int list option" where
  "scale_up x = for_up 0 FRSZ (\<lambda>i x. do {
     v \<leftarrow> get x i;
     put x i (add v (shr_16 v 1)) }) x"

definition periodicity :: "int \<Rightarrow> int list \<Rightarrow> int option" where
  "periodicity per bq = do {
     b0 \<leftarrow> get bq 0; b1 \<leftarrow> get bq 1; b2 \<leftarrow> get bq 2;
     let bss = L_add (L_add b0 b1) b2;
     let bss = (if bss > 32768 then 32768 else if bss < 0 then 0 else bss);
     Some (add (shr_16 per 1) (s16 (L_shr bss 1))) }"

definition BV16_Decode :: "BV16_Bit_Stream \<Rightarrow> BV16_Decoder_State \<Rightarrow> int list \<Rightarrow>
    (BV16_Decoder_State \<times> int list) option" where
  "BV16_Decode bs ds x = do {
     let ds = erasure_flags ds;
     let pp = s16 (bs_ppidx bs + MINPP);
     (lspq, lsppm) \<leftarrow> lspdec (replicate LPCO 0) (bs_lspidx bs) (ds_lsppm ds) (ds_lsplast ds);
     a \<leftarrow> lsp2a lspq (replicate (LPCO + 1) 0);
     lsplast \<leftarrow> W16copy (ds_lsplast ds) 0 lspq 0 LPCO;
     bq \<leftarrow> pp3dec (bs_bqidx bs) (replicate 3 0);
     (a0, lgq, lgpm, prevlg, nggalgc, lg_el) \<leftarrow>
       gaindec (bs_gidx bs) (ds_lgpm ds) (ds_prevlg ds) (lv_level (ds_lv ds)) (ds_nggalgc ds);
     (gain_exp, cbs) \<leftarrow> scaled_codebook a0;
     xq \<leftarrow> W16copy (replicate LXQ 0) 0 (ds_xq ds) 0 XQOFF;
     ltsym \<leftarrow> W16copy (replicate (LTMOFF + FRSZ) 0) 0 (ds_ltsym ds) 0 LTMOFF;
     (xq, ltsym, stsym, E) \<leftarrow> excdec_w_synth xq ltsym (ds_stsym ds) (bs_qvidx bs) bq cbs pp a gain_exp;
     ds_lt \<leftarrow> W16copy (ds_ltsym ds) 0 ltsym FRSZ LTMOFF;
     ds_x \<leftarrow> W16copy (ds_xq ds) 0 xq FRSZ XQOFF;
     bq_last \<leftarrow> W16copy (ds_bq_last ds) 0 bq 0 3;
     let (lth, lv) = estlevel lg_el (ds_lv ds) (ds_ngfae ds) nggalgc;
     (x, ma_a, b_prv, pp_prv) \<leftarrow> postfilter xq pp (ds_ma_a ds) (ds_b_prv ds) (ds_pp_prv ds) x;
     x \<leftarrow> scale_up x;
     atplc \<leftarrow> W16copy (ds_atplc ds) 0 a 0 (LPCO + 1);
     per \<leftarrow> periodicity (ds_per ds) bq;
     Some (ds\<lparr>ds_stsym := stsym, ds_ltsym := ds_lt, ds_xq := ds_x, ds_lsppm := lsppm, ds_lgpm := lgpm,
              ds_lsplast := lsplast, ds_prevlg := prevlg, ds_lv := lv, ds_pp_last := pp,
              ds_bq_last := bq_last, ds_nggalgc := nggalgc, ds_per := per, ds_E := E, ds_atplc := atplc,
              ds_ma_a := ma_a, ds_b_prv := b_prv, ds_pp_prv := pp_prv\<rparr>, x) }"

section \<open>A lost frame (\<open>plc.c\<close>)\<close>

definition ScPLCGmin :: int where "ScPLCGmin = 1639"
definition ScPLCGmax :: int where "ScPLCGmax = 14746"
definition ScPLCG_b :: int where "ScPLCG_b = - 32768"
definition ScPLCG_a :: int where "ScPLCG_a = 31129"
definition HoldPLCG :: int where "HoldPLCG = 8"
definition AttnPLCG :: int where "AttnPLCG = 50"
definition AttnFacPLCG :: int where "AttnFacPLCG = 20971"

text \<open>The random excitation: a linear congruential generator on 32 bits. \<open>L_shr\<close> takes the state
  as a signed number.\<close>

definition next_idum :: "int \<Rightarrow> int" where
  "next_idum idum = u32 (1664525 * idum + 1013904223)"

definition noise_sample :: "int \<Rightarrow> int" where
  "noise_sample idum = extract_l (L_sub (L_shr (s32 idum) 16) 32768)"

definition noise_step :: "int \<Rightarrow> int list \<times> int \<times> int \<Rightarrow> (int list \<times> int \<times> int) option" where
  "noise_step n = (\<lambda>(r, E, idum). do {
     let idum = next_idum idum;
     r \<leftarrow> put r n (noise_sample idum);
     let tmp = shr_16 (noise_sample idum) 3;
     Some (r, L_mac0 E tmp tmp, idum) })"

text \<open>Gain and exponent that give the noise of energy \<open>E\<close> its share of the energy \<open>dsE\<close> of the last
  frame.\<close>

definition plc_scale :: "int \<Rightarrow> int" where
  "plc_scale per = (
     let scplcg = add ScPLCG_a (mult ScPLCG_b per);
         scplcg = (if scplcg > ScPLCGmax then ScPLCGmax else if scplcg < ScPLCGmin then ScPLCGmin else scplcg)
     in shl scplcg 1)"

definition plc_gain :: "int \<Rightarrow> int \<Rightarrow> int \<Rightarrow> (int \<times> int) option" where
  "plc_gain dsE E per = do {
     let scplcg = plc_scale per;
     let dsEexp = norm_l dsE;
     let dsEexp = sub dsEexp 1;
     let dsEw = extract_h (L_shl dsE dsEexp);
     let Eexp = norm_l E;
     let Ew = extract_h (L_shl E Eexp);
     let Eexp = sub Eexp 6;
     gain \<leftarrow> div_s dsEw Ew;
     let gainexp = add (sub dsEexp Eexp) 15;
     let (gain, gainexp) = (if gainexp AND 1 = 0 then (shr_16 gain 1, sub gainexp 1) else (gain, gainexp));
     gain \<leftarrow> sqrts gain;
     let gainexp = add (shr_16 (sub gainexp 15) 1) 15;
     let gain = mult gain scplcg;
     let gainexp = sub gainexp 15;
     Some (gain, gainexp) }"

text \<open>The long-term synthesis filter on the noise.\<close>

definition plc_long_term :: "int list \<Rightarrow> int \<Rightarrow> int \<Rightarrow> int list \<Rightarrow> int \<Rightarrow> int list \<Rightarrow> int list option" where
  "plc_long_term bq_last pp_last gain r gainexp d = for_up 0 FRSZ (\<lambda>n d. do {
     v \<leftarrow> get r n;
     let acc = L_shr (L_mult gain v) gainexp;
     b0 \<leftarrow> get bq_last 0; d0 \<leftarrow> get d (int LTMOFF + n - pp_last + 1);
     let acc = L_mac acc b0 d0;
     b1 \<leftarrow> get bq_last 1; d1 \<leftarrow> get d (int LTMOFF + n - pp_last);
     let acc = L_mac acc b1 d1;
     b2 \<leftarrow> get bq_last 2; d2 \<leftarrow> get d (int LTMOFF + n - pp_last - 1);
     let acc = L_mac acc b2 d2;
     put d (int LTMOFF + n) (intround acc) }) d"

text \<open>The attenuation of the taps and of the energy during a long loss.\<close>

definition attenuation_gain :: "int \<Rightarrow> int" where
  "attenuation_gain cfecount = (
     let acc = L_mult0 (- AttnFacPLCG) (sub cfecount (HoldPLCG - 1));
         acc = L_add (2 ^ 20) acc
     in intround (L_shl acc 11))"

definition attenuate :: "int \<Rightarrow> int list \<Rightarrow> int \<Rightarrow> (int list \<times> int) option" where
  "attenuate cfecount bq_last E = (
     if cfecount \<ge> HoldPLCG
     then do {
       let gain = attenuation_gain cfecount;
       b0 \<leftarrow> get bq_last 0; bq_last \<leftarrow> put bq_last 0 (mult gain b0);
       b1 \<leftarrow> get bq_last 1; bq_last \<leftarrow> put bq_last 1 (mult gain b1);
       b2 \<leftarrow> get bq_last 2; bq_last \<leftarrow> put bq_last 2 (mult gain b2);
       let gain = mult gain gain;
       let (hi, lo) = L_Extract E;
       Some (bq_last, Mpy_32_16 hi lo gain) }
     else Some (bq_last, E))"

definition BV16_PLC :: "BV16_Decoder_State \<Rightarrow> int list \<Rightarrow> (BV16_Decoder_State \<times> int list) option" where
  "BV16_PLC ds out = do {
     d \<leftarrow> W16copy (replicate (LTMOFF + FRSZ) 0) 0 (ds_ltsym ds) 0 LTMOFF;
     xq \<leftarrow> W16copy (replicate LXQ 0) 0 (ds_xq ds) 0 XQOFF;
     let cfecount = (if ds_cfecount ds < HoldPLCG + AttnPLCG - 1 then add (ds_cfecount ds) 1 else ds_cfecount ds);
     let ngfae = 0;
     (r, E, idum) \<leftarrow> for_up 0 FRSZ noise_step (replicate FRSZ 0, 0, ds_idum ds);
     (gain, gainexp) \<leftarrow> plc_gain (ds_E ds) E (ds_per ds);
     d \<leftarrow> plc_long_term (ds_bq_last ds) (ds_pp_last ds) gain r gainexp d;
     (xq, stsym) \<leftarrow> apfilter (ds_atplc ds) LPCO d LTMOFF xq XQOFF FRSZ (ds_stsym ds) 1;
     ltsym \<leftarrow> W16copy (ds_ltsym ds) 0 d FRSZ LTMOFF;
     lsppm \<leftarrow> lspdecplc (ds_lsplast ds) (ds_lsppm ds);
     let E = L_shr (ds_E ds) 2;
     let E = L_add E (L_shl (ds_E ds) 1);
     (lgpm, prevlg) \<leftarrow> gainplc E (ds_lgpm ds) (ds_prevlg ds);
     p0 \<leftarrow> get prevlg 0;
     let (lth, lv) = estlevel p0 (ds_lv ds) ngfae (ds_nggalgc ds);
     (bq_last, dsE) \<leftarrow> attenuate cfecount (ds_bq_last ds) (ds_E ds);
     (out, ma_a, b_prv, pp_prv) \<leftarrow> postfilter xq (ds_pp_last ds) (ds_ma_a ds) (ds_b_prv ds) (ds_pp_prv ds) out;
     out \<leftarrow> scale_up out;
     ds_x \<leftarrow> W16copy (ds_xq ds) 0 xq FRSZ XQOFF;
     Some (ds\<lparr>ds_cfecount := cfecount, ds_ngfae := ngfae, ds_idum := idum, ds_stsym := stsym, ds_ltsym := ltsym,
              ds_lsppm := lsppm, ds_lgpm := lgpm, ds_prevlg := prevlg, ds_lv := lv, ds_bq_last := bq_last,
              ds_E := dsE, ds_ma_a := ma_a, ds_b_prv := b_prv, ds_pp_prv := pp_prv, ds_xq := ds_x\<rparr>, out) }"

section \<open>The frames of a call\<close>

text \<open>A frame is received as ten bytes or lost.\<close>

definition receive :: "octet list option \<Rightarrow> BV16_Decoder_State \<Rightarrow> int list \<Rightarrow>
    (BV16_Decoder_State \<times> int list) option" where
  "receive packet ds x = (case packet of
     Some stream \<Rightarrow> do { bs \<leftarrow> BV16_BitUnPack stream; BV16_Decode bs ds x }
   | None \<Rightarrow> BV16_PLC ds x)"

inductive bv_channel :: "BV16_Decoder_State \<Rightarrow> bool" where
  reset: "bv_channel Reset_BV16_Decoder"
| frame: "bv_channel ds' " if "bv_channel ds" "receive packet ds x = Some (ds', y)"
    "packet = None \<or> (\<exists>stream. packet = Some stream \<and> length stream = 10)" "s16_arr 40 x"

inductive_simps bv_channel_iff: "bv_channel ds"

section \<open>The random excitation has energy\<close>

text \<open>A sample contributes nothing to the energy for one in 8192 states of the generator; three such
  states never follow each other.\<close>

definition faint :: "int \<Rightarrow> bool" where
  "faint x \<longleftrightarrow> 2147483648 \<le> x \<and> x < 2147483648 + 524288"

lemma next_idum_range: "0 \<le> next_idum x" "next_idum x < 4294967296"
  by (simp_all add: next_idum_def u32_def)

lemma faint_shr:
  assumes "0 \<le> x" "x < 4294967296" "\<not> faint x"
  shows "shr_16 (x div 65536 - 32768) 3 \<noteq> 0"
proof -
  define q where "q = x div 65536"
  have e: "x = 65536 * q + x mod 65536" "0 \<le> x mod 65536" "x mod 65536 < 65536" by (simp_all add: q_def)
  have q: "0 \<le> q" "q < 65536" using assms e by linarith+
  have "\<not> (32768 \<le> q \<and> q < 32776)" using assms(3) e unfolding faint_def by linarith
  moreover have "shr_16 (q - 32768) 3 = (q - 32768) div 8" using q by (simp add: shr_16_right is_s16_def shr_def)
  ultimately show ?thesis unfolding q_def [symmetric] by auto
qed

lemma next_faint_table:
  "\<forall>k\<in>set [0..204]. 524288 \<le> (1013904223 - 4294967296 * k) mod 1664525 \<or>
    \<not> faint (next_idum (2147483648 + (1013904223 - 4294967296 * k) mod 1664525))"
  by code_simp

lemma noise_sample_eq:
  assumes "0 \<le> x" "x < 4294967296"
  shows "noise_sample x = x div 65536 - 32768"
proof -
  define q where "q = x div 65536"
  have e: "x = 65536 * q + x mod 65536" "0 \<le> x mod 65536" "x mod 65536 < 65536" by (simp_all add: q_def)
  have q: "0 \<le> q" "q < 65536" using assms e by linarith+
  show ?thesis
  proof (cases "x < 2147483648")
    case True
    then have "L_shr (s32 x) 16 = q" using assms by (simp add: s32_idI L_shr_right shr_def is_s32_def q_def)
    moreover have "q < 32768" using True e by linarith
    ultimately show ?thesis using q
      by (simp add: noise_sample_def L_sub_eq is_s32_def clamp_id extract_l_def s16_idI q_def [symmetric])
  next
    case False
    have "(x + 2147483648) mod 4294967296 = x - 2147483648"
      by (rule int_mod_pos_eq [where q = 1]) (use False assms in auto)
    then have "s32 x = x + (- 65536) * 65536" by (simp add: s32_def)
    then have "s32 x div 65536 = q + (- 65536)" unfolding q_def by (simp only: div_mult_self1 div_mult_self2)
    moreover have "is_s32 (s32 x)" by simp
    ultimately have "L_shr (s32 x) 16 = q - 65536" by (simp add: L_shr_right shr_def)
    moreover have "32768 \<le> q" using False e by linarith
    ultimately show ?thesis using q
      by (simp add: noise_sample_def L_sub_eq is_s32_def clamp_id extract_l_def s16_def q_def [symmetric])
  qed
qed

lemma no_three_faint:
  assumes "faint a" "faint (next_idum a)"
  shows "\<not> faint (next_idum (next_idum a))"
proof -
  define y where "y = a - 2147483648"
  define z where "z = next_idum a - 2147483648"
  have y: "0 \<le> y" "y < 524288" "0 \<le> z" "z < 524288" using assms by (simp_all add: faint_def y_def z_def)
  have "1664525 * a + 1013904223 = (2147483648 + (1664525 * y + 1013904223)) + 4294967296 * 832262" by (simp add: y_def)
  then have "next_idum a = (2147483648 + (1664525 * y + 1013904223)) mod 4294967296"
    unfolding next_idum_def u32_def by (simp only: mod_mult_self2)
  then have n: "2147483648 + z = (2147483648 + (1664525 * y + 1013904223)) mod 4294967296" by (simp add: z_def)
  define k where "k = (2147483648 + (1664525 * y + 1013904223)) div 4294967296"
  have k: "1664525 * y + 1013904223 = z + 4294967296 * k"
    using n mult_div_mod_eq [of 4294967296 "2147483648 + (1664525 * y + 1013904223)"] unfolding k_def by linarith
  have kb: "0 \<le> k" "k \<le> 204" using k y by linarith+
  have "1013904223 - 4294967296 * k = z + 1664525 * (- y)" using k by simp
  then have "(1013904223 - 4294967296 * k) mod 1664525 = z mod 1664525" by (simp only: mod_mult_self2)
  then have z: "z = (1013904223 - 4294967296 * k) mod 1664525" using y by simp
  have "k \<in> set [0..204]" using kb by simp
  then have "524288 \<le> z \<or> \<not> faint (next_idum (2147483648 + z))"
    using next_faint_table unfolding z by blast
  then show ?thesis using y by (simp add: z_def)
qed

lemma noise_excitation_ok:
  assumes "0 \<le> idum" "idum < 4294967296"
  shows "\<exists>r E i. for_up 0 FRSZ noise_step (replicate FRSZ 0, 0, idum) = Some (r, E, i) \<and> s16_arr 40 r \<and>
    is_s32 E \<and> 0 < E \<and> 0 \<le> i \<and> i < 4294967296"
proof -
  let ?P = "\<lambda>n (r, E, i). s16_arr 40 r \<and> is_s32 E \<and> 0 \<le> E \<and> 0 \<le> i \<and> i < 4294967296 \<and>
    (E = 0 \<longrightarrow> n = 0 \<or> n = 1 \<and> faint i \<or> n = 2 \<and> faint i \<and> (\<exists>p. faint p \<and> i = next_idum p))"
  have "\<exists>t. for_up 0 FRSZ noise_step (replicate FRSZ 0, 0, idum) = Some t \<and> ?P FRSZ t"
  proof (rule for_up_rule [where P = ?P])
    fix n :: nat and t :: "int list \<times> int \<times> int"
    assume n: "n < FRSZ" and P: "?P n t"
    obtain r E i where t: "t = (r, E, i)" by (cases t)
    define j where "j = next_idum i"
    have j: "0 \<le> j" "j < 4294967296" using next_idum_range by (simp_all add: j_def)
    define s where "s = shr_16 (noise_sample j) 3"
    have s: "is_s16 (noise_sample j)" "is_s16 s" "\<not> faint j \<Longrightarrow> s \<noteq> 0"
      using faint_shr [OF j] by (simp_all add: s_def noise_sample_def extract_l_def [of "L_sub _ _"] flip: noise_sample_eq [OF j])
    have E: "is_s32 E" "0 \<le> E" and r: "s16_arr 40 r" using P by (simp_all add: t)
    have z: "E = 0 \<and> s = 0" if "L_mac0 E s s = 0"
    proof -
      have "E + s * s = 0" using that E s(2) by (auto simp: L_mac0_eq clamp_def split: if_splits)
      moreover have "0 \<le> s * s" by simp
      ultimately have "E = 0" "s * s = 0" using E by linarith+
      then show ?thesis by simp
    qed
    have "noise_step (int n) t = Some (r[n := noise_sample j], L_mac0 E s s, j)"
      using n r by (simp add: noise_step_def t j_def s_def Let_def FRSZ_def)
    moreover have "?P (Suc n) (r[n := noise_sample j], L_mac0 E s s, j)"
      using P z s j E no_three_faint by (auto simp: t L_mac0_square j_def intro!: arr_update)
    ultimately show "\<exists>t'. noise_step (int n) t = Some t' \<and> ?P (Suc n) t'" by blast
  qed (use assms in \<open>auto simp: FRSZ_def\<close>)
  then show ?thesis by (auto simp: FRSZ_def order_less_le)
qed

section \<open>Gain of the concealment\<close>

lemma L_shl_below_norm:
  assumes "0 \<le> x" "is_s32 x"
  shows "0 \<le> L_shl x (sub (norm_l x) 1)" "L_shl x (sub (norm_l x) 1) < 1073741824"
proof -
  have n: "0 \<le> norm_l x" "norm_l x \<le> 31" using norm_l_range [OF assms(2)] by auto
  have "0 \<le> L_shl x (sub (norm_l x) 1) \<and> L_shl x (sub (norm_l x) 1) < 1073741824"
  proof (cases "x = 0")
    case True
    then show ?thesis by (simp add: sub_eq is_s16_def clamp_id L_shl_right L_shr_right is_s32_def shr_def)
  next
    case False
    then have x: "0 < x" using assms(1) by simp
    define k where "k = nat (norm_l x)"
    have k: "norm_l x = int k" using n by (simp add: k_def)
    have b: "x * 2 ^ k < 2147483648" using norm_l_pos [OF x assms(2)] by (simp add: k_def)
    have e: "sub (norm_l x) 1 = int k - 1" using n by (simp add: k sub_eq is_s16_def clamp_id)
    show ?thesis
    proof (cases k)
      case 0
      then show ?thesis using b x assms(2) by (simp add: e L_shl_right L_shr_right shr_def)
    next
      case (Suc m)
      have m: "x * 2 ^ m < 1073741824" "0 \<le> x * 2 ^ m" using b x by (simp_all add: Suc)
      show ?thesis
      proof (cases "m = 0")
        case True
        then show ?thesis using m x assms(2) by (simp add: e Suc L_shl.simps L_shr_right shr_def s16_idI)
      next
        case False
        then show ?thesis using m assms(2) by (simp add: e Suc L_shl_left clamp_id)
      qed
    qed
  qed
  then show "0 \<le> L_shl x (sub (norm_l x) 1)" "L_shl x (sub (norm_l x) 1) < 1073741824" by simp_all
qed

lemma plc_gain_ok:
  assumes "is_s32 dsE" "0 \<le> dsE" "is_s32 E" "0 < E"
  shows "\<exists>g x. plc_gain dsE E per = Some (g, x) \<and> is_s16 g"
proof -
  define u where "u = extract_h (L_shl dsE (sub (norm_l dsE) 1))"
  define v where "v = extract_h (L_shl E (norm_l E))"
  have "is_s32 (L_shl dsE (sub (norm_l dsE) 1))" using assms(1) by simp
  then have u: "0 \<le> u" "u < 16384" using L_shl_below_norm [OF assms(2,1)]
    by (auto simp: u_def extract_h_eq pos_imp_zdiv_nonneg_iff intro: int_div_less)
  have w: "1073741824 \<le> L_shl E (norm_l E)" "is_s32 (L_shl E (norm_l E))"
    using norm_l_pos [OF assms(4,3)] assms(3) by (simp add: L_shl_norm) (use assms(3) in simp)
  have "1073741824 div 65536 \<le> L_shl E (norm_l E) div 65536" using w(1) by (rule zdiv_mono1) simp
  then have v: "16384 \<le> v" "v \<le> 32767" using w(2) s16_ops(5) [of "L_shl E (norm_l E)"]
    by (simp_all add: v_def extract_h_eq is_s16_def)
  obtain q where q: "div_s u v = Some q" "0 \<le> q" "q \<le> 32767" using div_s_ok [of u v] u v by auto
  have "is_s16 q" using q by (simp add: is_s16_def)
  then obtain y1 y2 where "sqrts q = Some y1" "sqrts (shr_16 q 1) = Some y2"
    using sqrts_ok [of q] sqrts_ok [of "shr_16 q 1"] by auto
  then show ?thesis
    by (simp add: plc_gain_def Let_def u_def [symmetric] v_def [symmetric] q(1))
qed

lemma attenuation_gain_range:
  assumes "8 \<le> n" "n \<le> 57"
  shows "attenuation_gain n = (2147516416 - 42948608 * (n - 7)) div 65536"
    "is_s16 (attenuation_gain n)" "0 \<le> attenuation_gain n"
proof -
  have "sub n (HoldPLCG - 1) = n - 7" using assms by (simp add: HoldPLCG_def sub_eq is_s16_def clamp_id)
  moreover have "L_mult0 (- AttnFacPLCG) (n - 7) = - 20971 * (n - 7)"
    using assms by (simp add: AttnFacPLCG_def L_mult0_eq is_s16_def)
  moreover have "L_add (2 ^ 20) (- 20971 * (n - 7)) = 1048576 - 20971 * (n - 7)"
    using assms by (simp add: L_add_eq is_s32_def clamp_id)
  moreover have "L_shl (1048576 - 20971 * (n - 7)) 11 = 2147483648 - 42948608 * (n - 7)"
    using assms by (simp add: L_shl_left is_s32_def clamp_id)
  moreover have "intround (2147483648 - 42948608 * (n - 7)) = (2147516416 - 42948608 * (n - 7)) div 65536"
    using assms by (simp add: intround_eq is_s32_def clamp_id)
  ultimately show e: "attenuation_gain n = (2147516416 - 42948608 * (n - 7)) div 65536"
    by (simp add: attenuation_gain_def)
  show "0 \<le> attenuation_gain n" unfolding e using assms by (simp add: pos_imp_zdiv_nonneg_iff)
  show "is_s16 (attenuation_gain n)" by (simp add: attenuation_gain_def Let_def)
qed

section \<open>The invariant of the decoder\<close>

definition decoder_ok :: "BV16_Decoder_State \<Rightarrow> bool" where
  "decoder_ok ds \<longleftrightarrow> s16_arr 8 (ds_stsym ds) \<and> s16_arr 138 (ds_ltsym ds) \<and> s16_arr 138 (ds_xq ds)
     \<and> s16_arr 64 (ds_lsppm ds) \<and> s16_arr 8 (ds_lgpm ds) \<and> s16_arr 8 (ds_lsplast ds) \<and> spaced (ds_lsplast ds)
     \<and> s32_arr 2 (ds_prevlg ds) \<and> level_ok (ds_lv ds) \<and> MINPP \<le> ds_pp_last ds \<and> ds_pp_last ds \<le> MAXPP
     \<and> 0 \<le> ds_cfecount ds \<and> ds_cfecount ds \<le> 57 \<and> is_s16 (ds_ngfae ds) \<and> s16_arr 3 (ds_bq_last ds)
     \<and> is_s16 (ds_nggalgc ds) \<and> 0 \<le> ds_idum ds \<and> ds_idum ds < 4294967296 \<and> is_s16 (ds_per ds)
     \<and> is_s32 (ds_E ds) \<and> 0 \<le> ds_E ds \<and> s16_arr 9 (ds_atplc ds) \<and> is_s16 (ds_ma_a ds)
     \<and> s16_arr 2 (ds_b_prv ds) \<and> MINPP \<le> ds_pp_prv ds \<and> ds_pp_prv ds \<le> MAXPP"

lemma decoder_okD:
  assumes "decoder_ok ds"
  shows "s16_arr 8 (ds_stsym ds)" "s16_arr 138 (ds_ltsym ds)" "s16_arr 138 (ds_xq ds)"
    "s16_arr 64 (ds_lsppm ds)" "s16_arr 8 (ds_lgpm ds)" "s16_arr 8 (ds_lsplast ds)" "spaced (ds_lsplast ds)"
    "s32_arr 2 (ds_prevlg ds)" "level_ok (ds_lv ds)" "MINPP \<le> ds_pp_last ds" "ds_pp_last ds \<le> MAXPP"
    "0 \<le> ds_cfecount ds" "ds_cfecount ds \<le> 57" "is_s16 (ds_ngfae ds)" "s16_arr 3 (ds_bq_last ds)"
    "is_s16 (ds_nggalgc ds)" "0 \<le> ds_idum ds" "ds_idum ds < 4294967296" "is_s16 (ds_per ds)"
    "is_s32 (ds_E ds)" "0 \<le> ds_E ds" "s16_arr 9 (ds_atplc ds)" "is_s16 (ds_ma_a ds)"
    "s16_arr 2 (ds_b_prv ds)" "MINPP \<le> ds_pp_prv ds" "ds_pp_prv ds \<le> MAXPP"
  using assms unfolding decoder_ok_def by blast+

lemma Reset_BV16_Decoder_ok: "decoder_ok Reset_BV16_Decoder"
  by (simp add: decoder_ok_def Reset_BV16_Decoder_def zeroDecoder_def level_ok_def spaced_def syn_const limits_def
      is_s16_def is_s32_def estl_alpha_def LSPMIN_def LSPMAX_def DLSPMIN_def arr_def numeral_nat less_Suc_eq)

lemma erasure_flags_ok: "decoder_ok ds \<Longrightarrow> decoder_ok (erasure_flags ds)"
  by (simp add: decoder_ok_def erasure_flags_def Let_def LGPORDER_def is_s16_def [of 1] is_s16_def [of 9])

lemma scaled_codebook_ok:
  assumes "is_s32 a"
  shows "\<exists>e c. scaled_codebook a = Some (e, c) \<and> s16_arr 64 c"
proof -
  define g where "g = intround (L_shl (Mpy_32_16 (fst (L_Extract a)) (snd (L_Extract a)) 21845) (sub (norm_l a) 2))"
  have "\<exists>c. for_up 0 (VDIM * CBSZ) (\<lambda>i cbs. do { v \<leftarrow> get cccb i; put cbs i (mult_r g v) }) (replicate (VDIM * CBSZ) 0) = Some c
      \<and> s16_arr 64 c"
    by (rule for_up_inv [where P = "s16_arr 64"]) (auto simp: bv16_const intro!: arr_update)
  then show ?thesis by (auto simp: scaled_codebook_def split_beta Let_def g_def)
qed

lemma scale_up_ok: "s16_arr 40 x \<Longrightarrow> \<exists>y. scale_up x = Some y \<and> s16_arr 40 y"
  unfolding scale_up_def
  by (rule for_up_inv [where P = "s16_arr 40"]) (auto simp: FRSZ_def intro!: arr_update)

lemma periodicity_ok: "s16_arr 3 bq \<Longrightarrow> \<exists>p. periodicity per bq = Some p \<and> is_s16 p"
  by (simp add: periodicity_def Let_def)

lemma fits_fields:
  assumes "fits bs"
  shows "length (bs_lspidx bs) = 2" "0 \<le> bs_lspidx bs ! 0" "bs_lspidx bs ! 0 < 128" "0 \<le> bs_lspidx bs ! 1"
    "bs_lspidx bs ! 1 < 128" "0 \<le> bs_ppidx bs" "bs_ppidx bs < 128" "0 \<le> bs_bqidx bs" "bs_bqidx bs < 32"
    "0 \<le> bs_gidx bs" "bs_gidx bs < 16" "arr (\<lambda>i. 0 \<le> i \<and> i < 32) 10 (bs_qvidx bs)"
proof -
  have l: "length (bs_lspidx bs) = 2" "length (bs_qvidx bs) = 10" using assms by (simp_all add: fits_def)
  have f: "0 \<le> fields_of bs ! i" "fields_of bs ! i < 2 ^ (bit_table ! i)" if "i < 15" for i
    using assms that by (simp_all add: fits_def)
  show "length (bs_lspidx bs) = 2" by (rule l)
  show "0 \<le> bs_lspidx bs ! 0" "bs_lspidx bs ! 0 < 128" "0 \<le> bs_lspidx bs ! 1" "bs_lspidx bs ! 1 < 128"
    using f [of 0] f [of 1] l by (simp_all add: fields_of_def nth_append bit_table_def)
  show "0 \<le> bs_ppidx bs" "bs_ppidx bs < 128" "0 \<le> bs_bqidx bs" "bs_bqidx bs < 32" "0 \<le> bs_gidx bs" "bs_gidx bs < 16"
    using f [of 2] f [of 3] f [of 4] l by (simp_all add: fields_of_def nth_append bit_table_def numeral_nat)
  have "0 \<le> bs_qvidx bs ! i \<and> bs_qvidx bs ! i < 32" if "i < 10" for i
    using f [of "5 + i"] that l
    by (auto simp: fields_of_def nth_append bit_table_def numeral_nat less_Suc_eq)
  then show "arr (\<lambda>i. 0 \<le> i \<and> i < 32) 10 (bs_qvidx bs)" using l by (simp add: arr_def list_all_length)
qed

lemma BV16_Decode_ok:
  assumes "decoder_ok ds" "fits bs" "s16_arr 40 x"
  shows "\<exists>ds' y. BV16_Decode bs ds x = Some (ds', y) \<and> decoder_ok ds' \<and> s16_arr 40 y"
proof -
  let ?d = "erasure_flags ds"
  note D = decoder_okD [OF erasure_flags_ok [OF assms(1)]] and B = fits_fields [OF assms(2)]
  have pp: "s16 (bs_ppidx bs + MINPP) = bs_ppidx bs + 10" "MINPP \<le> bs_ppidx bs + 10" "bs_ppidx bs + 10 \<le> MAXPP"
    using B(6,7) by (simp_all add: bv16_const s16_idI)
  obtain q m where q: "lspdec (replicate LPCO 0) (bs_lspidx bs) (ds_lsppm ?d) (ds_lsplast ?d) = Some (q, m)"
    "s16_arr 8 q" "spaced q" "s16_arr 64 m"
    using lspdec_ok [OF _ D(4,6) B(1-5), of "replicate LPCO 0"] by (auto simp: LPCO_def)
  obtain a where a: "lsp2a q (replicate (LPCO + 1) 0) = Some a" "s16_arr 9 a"
    using lsp2a_ok [of q "replicate (LPCO + 1) 0"] spaced_range [OF q(3)] arr_length [OF q(2)] by (auto simp: LPCO_def)
  have ll: "W16copy (ds_lsplast ?d) 0 q 0 LPCO = Some q"
    using W16copy_eq [of 0 8 q 0 "ds_lsplast ?d"] D(6) q(2) by (simp add: arr_length LPCO_def)
  obtain bq where bq: "pp3dec (bs_bqidx bs) (replicate 3 0) = Some bq" "s16_arr 3 bq"
    using pp3dec_ok [of "replicate 3 0" "bs_bqidx bs"] B(8,9) by auto
  obtain g lgq lm p n el where g: "gaindec (bs_gidx bs) (ds_lgpm ?d) (ds_prevlg ?d) (lv_level (ds_lv ?d)) (ds_nggalgc ?d)
      = Some (g, lgq, lm, p, n, el)" "is_s32 g" "s16_arr 8 lm" "s32_arr 2 p" "is_s16 n" "is_s32 el"
    using gaindec_ok [OF B(10,11) D(5,8,16)] by blast
  obtain e cb where cb: "scaled_codebook g = Some (e, cb)" "s16_arr 64 cb" using scaled_codebook_ok [OF g(2)] by blast
  obtain x0 where x0: "W16copy (replicate LXQ 0) 0 (ds_xq ?d) 0 XQOFF = Some x0" "s16_arr 178 x0"
    using W16copy_ok [of is_s16 178 "replicate 178 0", OF _ D(3), of 0 XQOFF 0] by (auto simp: syn_const)
  obtain l0 where l0: "W16copy (replicate (LTMOFF + FRSZ) 0) 0 (ds_ltsym ?d) 0 LTMOFF = Some l0" "s16_arr 178 l0"
    using W16copy_ok [of is_s16 178 "replicate 178 0", OF _ D(2), of 0 LTMOFF 0] by (auto simp: syn_const)
  obtain x1 l1 s E where s: "excdec_w_synth x0 l0 (ds_stsym ?d) (bs_qvidx bs) bq cb (bs_ppidx bs + 10) a e = Some (x1, l1, s, E)"
    "s16_arr 178 x1" "s16_arr 178 l1" "s16_arr 8 s" "is_s32 E" "0 \<le> E"
    using excdec_w_synth_ok [OF x0(2) l0(2) D(1) B(12) bq(2) cb(2) pp(2,3) a(2)] by blast
  obtain l2 where l2: "W16copy (ds_ltsym ?d) 0 l1 FRSZ LTMOFF = Some l2" "s16_arr 138 l2"
    using W16copy_ok [OF D(2) s(3), of FRSZ LTMOFF 0] by (auto simp: syn_const)
  obtain x2 where x2: "W16copy (ds_xq ?d) 0 x1 FRSZ XQOFF = Some x2" "s16_arr 138 x2"
    using W16copy_ok [OF D(3) s(2), of FRSZ XQOFF 0] by (auto simp: syn_const)
  obtain bl where bl: "W16copy (ds_bq_last ?d) 0 bq 0 3 = Some bl" "s16_arr 3 bl"
    using W16copy_ok [OF D(15) bq(2), of 0 3 0] by auto
  define lv where "lv = estlevel el (ds_lv ?d) (ds_ngfae ?d) n"
  have lv: "level_ok (snd lv)" using estlevel_ok [OF D(9) g(6)] by (simp add: lv_def)
  obtain y ma b pr where y: "postfilter x1 (bs_ppidx bs + 10) (ds_ma_a ?d) (ds_b_prv ?d) (ds_pp_prv ?d) x = Some (y, ma, b, pr)"
    "s16_arr 40 y" "is_s16 ma" "s16_arr 2 b" "MINPP \<le> pr" "pr \<le> MAXPP"
    using postfilter_ok [OF s(2) pp(2,3) D(24-26) assms(3)] by blast
  obtain z where z: "scale_up y = Some z" "s16_arr 40 z" using scale_up_ok [OF y(2)] by blast
  obtain ap where ap: "W16copy (ds_atplc ?d) 0 a 0 (LPCO + 1) = Some ap" "s16_arr 9 ap"
    using W16copy_ok [OF D(22) a(2), of 0 "LPCO + 1" 0] by (auto simp: LPCO_def)
  obtain pe where pe: "periodicity (ds_per ?d) bq = Some pe" "is_s16 pe" using periodicity_ok [OF bq(2)] by blast
  let ?r = "?d\<lparr>ds_stsym := s, ds_ltsym := l2, ds_xq := x2, ds_lsppm := m, ds_lgpm := lm, ds_lsplast := q,
     ds_prevlg := p, ds_lv := snd lv, ds_pp_last := bs_ppidx bs + 10, ds_bq_last := bl, ds_nggalgc := n, ds_per := pe,
     ds_E := E, ds_atplc := ap, ds_ma_a := ma, ds_b_prv := b, ds_pp_prv := pr\<rparr>"
  have "BV16_Decode bs ds x = Some (?r, z)"
    unfolding BV16_Decode_def Let_def pp(1)
    by (simp only: bind.bind_lunit split_beta fst_conv snd_conv q(1) a(1) ll bq(1) g(1) cb(1) x0(1) l0(1) s(1) l2(1) x2(1)
        bl(1) y(1) z(1) ap(1) pe(1) lv_def)
  moreover have "decoder_ok ?r"
    using D q g s l2 x2 bl lv pe ap y pp(2,3) by (simp add: decoder_ok_def)
  ultimately show ?thesis using z(2) by blast
qed

lemma plc_long_term_ok:
  assumes "s16_arr 3 bq" "MINPP \<le> pp" "pp \<le> MAXPP" "s16_arr 40 r" "s16_arr 178 d"
  shows "\<exists>e. plc_long_term bq pp gain r gainexp d = Some e \<and> s16_arr 178 e"
  unfolding plc_long_term_def
  by (rule for_up_inv [where P = "s16_arr 178"]) (use assms in \<open>auto simp: syn_const Let_def intro!: arr_update\<close>)

lemma attenuate_eq:
  assumes "s16_arr 3 bq" "8 \<le> n"
  shows "attenuate n bq E = Some (map (mult (attenuation_gain n)) bq,
    scale_32 E (mult (attenuation_gain n) (attenuation_gain n)))"
proof -
  have "length bq = 3" using assms(1) by (rule arr_length)
  then obtain b0 b1 b2 where "bq = [b0, b1, b2]" by (auto simp: numeral_3_eq_3 length_Suc_conv)
  then show ?thesis using assms(2)
    by (simp add: attenuate_def HoldPLCG_def Let_def get_def put_def scale_32_def split_beta numeral_nat)
qed

lemma attenuate_ok:
  assumes "0 \<le> n" "n \<le> 57" "s16_arr 3 bq" "is_s32 E" "0 \<le> E"
  shows "\<exists>b E'. attenuate n bq E = Some (b, E') \<and> s16_arr 3 b \<and> is_s32 E' \<and> 0 \<le> E'"
proof (cases "n \<ge> HoldPLCG")
  case True
  then have n: "8 \<le> n" by (simp add: HoldPLCG_def)
  let ?g = "mult (attenuation_gain n) (attenuation_gain n)"
  have g: "0 \<le> ?g" using attenuation_gain_range(2,3) [OF n assms(2)] by (simp add: mult_eq pos_imp_zdiv_nonneg_iff)
  obtain hi lo where h: "L_Extract E = (hi, lo)" by (cases "L_Extract E")
  note p = L_Extract_parts [OF assms(4) h]
  have "0 \<le> hi" using p(4) assms(5) by simp
  then have "0 \<le> scale_32 E ?g" using p g by (simp add: scale_32_def h Mpy_32_16_nonneg)
  moreover have "is_s32 (scale_32 E ?g)" by (simp add: scale_32_def h)
  moreover have "s16_arr 3 (map (mult (attenuation_gain n)) bq)" using assms(3) by (rule arr_map) simp
  ultimately show ?thesis using attenuate_eq [OF assms(3) n] by simp
next
  case False
  then show ?thesis using assms by (simp add: attenuate_def)
qed

lemma add_cfecount: "0 \<le> n \<Longrightarrow> n < 57 \<Longrightarrow> add n 1 = n + 1"
  by (simp add: add_eq is_s16_def clamp_id)

lemma BV16_PLC_ok:
  assumes "decoder_ok ds" "s16_arr 40 out"
  shows "\<exists>ds' y. BV16_PLC ds out = Some (ds', y) \<and> decoder_ok ds' \<and> s16_arr 40 y \<and>
    ds_cfecount ds' = min 57 (ds_cfecount ds + 1) \<and>
    attenuate (ds_cfecount ds') (ds_bq_last ds) (ds_E ds) = Some (ds_bq_last ds', ds_E ds')"
proof -
  note D = decoder_okD [OF assms(1)]
  obtain x0 where x0: "W16copy (replicate LXQ 0) 0 (ds_xq ds) 0 XQOFF = Some x0" "s16_arr 178 x0"
    using W16copy_ok [of is_s16 178 "replicate 178 0", OF _ D(3), of 0 XQOFF 0] by (auto simp: syn_const)
  obtain d0 where d0: "W16copy (replicate (LTMOFF + FRSZ) 0) 0 (ds_ltsym ds) 0 LTMOFF = Some d0" "s16_arr 178 d0"
    using W16copy_ok [of is_s16 178 "replicate 178 0", OF _ D(2), of 0 LTMOFF 0] by (auto simp: syn_const)
  define c where "c = (if ds_cfecount ds < HoldPLCG + AttnPLCG - 1 then add (ds_cfecount ds) 1 else ds_cfecount ds)"
  have c: "c = min 57 (ds_cfecount ds + 1)" "0 \<le> c" "c \<le> 57"
    using D(12,13) by (auto simp: c_def HoldPLCG_def AttnPLCG_def add_cfecount)
  obtain r E i where r: "for_up 0 FRSZ noise_step (replicate FRSZ 0, 0, ds_idum ds) = Some (r, E, i)"
    "s16_arr 40 r" "is_s32 E" "0 < E" "0 \<le> i" "i < 4294967296"
    using noise_excitation_ok [OF D(17,18)] by blast
  obtain g gx where g: "plc_gain (ds_E ds) E (ds_per ds) = Some (g, gx)" using plc_gain_ok [OF D(20,21) r(3,4)] by blast
  obtain d1 where d1: "plc_long_term (ds_bq_last ds) (ds_pp_last ds) g r gx d0 = Some d1" "s16_arr 178 d1"
    using plc_long_term_ok [OF D(15,10,11) r(2) d0(2)] by blast
  have "\<exists>r mem'. apfilter (ds_atplc ds) LPCO d1 LTMOFF x0 XQOFF FRSZ (ds_stsym ds) 1 = Some (r, mem') \<and>
      s16_arr 178 r \<and> s16_arr 8 mem'"
    by (rule apfilter_ok [OF D(22) d1(2) x0(2) D(1)]) (simp_all add: syn_const)
  then obtain x1 s where x1: "apfilter (ds_atplc ds) LPCO d1 LTMOFF x0 XQOFF FRSZ (ds_stsym ds) 1 = Some (x1, s)"
    "s16_arr 178 x1" "s16_arr 8 s"
    by blast
  obtain l2 where l2: "W16copy (ds_ltsym ds) 0 d1 FRSZ LTMOFF = Some l2" "s16_arr 138 l2"
    using W16copy_ok [OF D(2) d1(2), of FRSZ LTMOFF 0] by (auto simp: syn_const)
  obtain m where m: "lspdecplc (ds_lsplast ds) (ds_lsppm ds) = Some m" "s16_arr 64 m"
    using lspdecplc_ok [OF D(6,4)] by blast
  obtain lm p where lm: "gainplc (L_add (L_shr (ds_E ds) 2) (L_shl (ds_E ds) 1)) (ds_lgpm ds) (ds_prevlg ds) = Some (lm, p)"
    "s16_arr 8 lm" "s32_arr 2 p" using gainplc_ok [OF s32_ops(1) D(5,8)] by blast
  have p0: "get p 0 = Some (p ! 0)" "is_s32 (p ! 0)" using lm(3) by (auto intro: s32_nth)
  define lv where "lv = estlevel (p ! 0) (ds_lv ds) 0 (ds_nggalgc ds)"
  have lv: "level_ok (snd lv)" using estlevel_ok [OF D(9) p0(2)] by (simp add: lv_def)
  obtain bl E' where bl: "attenuate c (ds_bq_last ds) (ds_E ds) = Some (bl, E')" "s16_arr 3 bl" "is_s32 E'" "0 \<le> E'"
    using attenuate_ok [OF c(2,3) D(15,20,21)] by blast
  obtain y ma b pr where y: "postfilter x1 (ds_pp_last ds) (ds_ma_a ds) (ds_b_prv ds) (ds_pp_prv ds) out = Some (y, ma, b, pr)"
    "s16_arr 40 y" "is_s16 ma" "s16_arr 2 b" "MINPP \<le> pr" "pr \<le> MAXPP"
    using postfilter_ok [OF x1(2) D(10,11,24-26) assms(2)] by blast
  obtain z where z: "scale_up y = Some z" "s16_arr 40 z" using scale_up_ok [OF y(2)] by blast
  obtain x2 where x2: "W16copy (ds_xq ds) 0 x1 FRSZ XQOFF = Some x2" "s16_arr 138 x2"
    using W16copy_ok [OF D(3) x1(2), of FRSZ XQOFF 0] by (auto simp: syn_const)
  let ?r = "ds\<lparr>ds_cfecount := c, ds_ngfae := 0, ds_idum := i, ds_stsym := s, ds_ltsym := l2, ds_lsppm := m,
     ds_lgpm := lm, ds_prevlg := p, ds_lv := snd lv, ds_bq_last := bl, ds_E := E', ds_ma_a := ma, ds_b_prv := b,
     ds_pp_prv := pr, ds_xq := x2\<rparr>"
  have "BV16_PLC ds out = Some (?r, z)"
    unfolding BV16_PLC_def Let_def c_def [symmetric]
    by (simp only: bind.bind_lunit split_beta fst_conv snd_conv x0(1) d0(1) r(1) g d1(1) x1(1) l2(1) m(1) lm(1) p0(1)
        bl(1) y(1) z(1) x2(1) lv_def)
  moreover have "decoder_ok ?r"
    using D c r x1 l2 m lm lv bl y x2 by (simp add: decoder_ok_def)
  ultimately show ?thesis using z(2) c(1) bl(1) by (intro exI [of _ ?r] exI [of _ z]) simp
qed

section \<open>Calls\<close>

text \<open>A packet is valid when it has ten bytes; their values are arbitrary.\<close>

definition valid_packet :: "octet list option \<Rightarrow> bool" where
  "valid_packet p \<longleftrightarrow> (case p of None \<Rightarrow> True | Some ys \<Rightarrow> length ys = 10)"

lemma receive_ok:
  assumes "decoder_ok ds" "valid_packet p" "s16_arr 40 x"
  shows "\<exists>ds' y. receive p ds x = Some (ds', y) \<and> decoder_ok ds' \<and> s16_arr 40 y"
proof (cases p)
  case None
  then show ?thesis using BV16_PLC_ok [OF assms(1,3)] by (auto simp: receive_def)
next
  case (Some ys)
  then have "length ys = 10" using assms(2) by (simp add: valid_packet_def)
  then obtain bs where "BV16_BitUnPack ys = Some bs" "fits bs" using bv16.unpack_total by blast
  then show ?thesis using BV16_Decode_ok [OF assms(1) _ assms(3)] Some by (simp add: receive_def)
qed

lemma bv_channel_ok: "bv_channel ds \<Longrightarrow> decoder_ok ds"
proof (induction rule: bv_channel.induct)
  case reset
  show ?case by (rule Reset_BV16_Decoder_ok)
next
  case (frame ds packet x ds' y)
  then show ?case using receive_ok [of ds packet x] by (auto simp: valid_packet_def)
qed

text \<open>The frames of a call in order, each decoded into an output array of 40 samples.\<close>

fun receive_all :: "octet list option list \<Rightarrow> BV16_Decoder_State \<Rightarrow> (BV16_Decoder_State \<times> int list list) option" where
  "receive_all [] ds = Some (ds, [])"
| "receive_all (p # ps) ds = do {
     (ds, y) \<leftarrow> receive p ds (replicate FRSZ 0);
     (ds, ys) \<leftarrow> receive_all ps ds;
     Some (ds, y # ys) }"

lemma receive_all_ok:
  assumes "decoder_ok ds" "\<forall>p\<in>set ps. valid_packet p"
  shows "\<exists>ds' ys. receive_all ps ds = Some (ds', ys) \<and> decoder_ok ds' \<and> length ys = length ps \<and> (\<forall>y\<in>set ys. s16_arr 40 y)"
  using assms
proof (induction ps arbitrary: ds)
  case (Cons p ps)
  have "s16_arr 40 (replicate FRSZ 0)" by (simp add: FRSZ_def)
  then obtain d y where d: "receive p ds (replicate FRSZ 0) = Some (d, y)" "decoder_ok d" "s16_arr 40 y"
    using receive_ok Cons.prems by (meson list.set_intros(1))
  obtain e ys where "receive_all ps d = Some (e, ys)" "decoder_ok e" "length ys = length ps" "\<forall>y\<in>set ys. s16_arr 40 y"
    using Cons.IH [OF d(2)] Cons.prems(2) by auto
  then show ?case using d by simp
qed simp

text \<open>Lost frames in a row: the counter goes up to 57, where the gain is so small that its square
  is zero.\<close>

lemma lost_frames_count:
  assumes "decoder_ok ds"
  shows "\<exists>ds' ys. receive_all (replicate n None) ds = Some (ds', ys) \<and> decoder_ok ds' \<and>
    ds_cfecount ds' = min 57 (ds_cfecount ds + int n)"
  using assms
proof (induction n arbitrary: ds)
  case 0
  then show ?case using decoder_okD(13) [OF 0] by simp
next
  case (Suc n)
  have "s16_arr 40 (replicate FRSZ 0)" by (simp add: FRSZ_def)
  then obtain d y where d: "BV16_PLC ds (replicate FRSZ 0) = Some (d, y)" "decoder_ok d"
    "ds_cfecount d = min 57 (ds_cfecount ds + 1)" using BV16_PLC_ok [OF Suc.prems] by blast
  obtain e ys where e: "receive_all (replicate n None) d = Some (e, ys)" "decoder_ok e"
    "ds_cfecount e = min 57 (ds_cfecount d + int n)" using Suc.IH [OF d(2)] by blast
  have "min 57 (min 57 (ds_cfecount ds + 1) + int n) = min 57 (ds_cfecount ds + int (Suc n))" by simp
  then show ?case using d(1,3) e by (simp add: receive_def)
qed

lemma receive_all_snoc:
  assumes "receive_all ps ds = Some (d, xs)" "receive p d (replicate FRSZ 0) = Some (e, y)"
  shows "receive_all (ps @ [p]) ds = Some (e, xs @ [y])"
  using assms(1)
proof (induction ps arbitrary: ds xs)
  case Nil
  then show ?case using assms(2) by simp
next
  case (Cons q ps)
  then obtain d' y' xs' where "receive q ds (replicate FRSZ 0) = Some (d', y')" "receive_all ps d' = Some (d, xs')"
    "xs = y' # xs'" by (auto split: bind_splits)
  then show ?case using Cons.IH by simp
qed

lemma attenuate_end:
  assumes "s16_arr 3 bq" "is_s32 E"
  shows "\<exists>b. attenuate 57 bq E = Some (b, 0)"
proof -
  have g: "attenuation_gain 57 = 1" by (simp add: attenuation_gain_range(1))
  obtain hi lo where h: "L_Extract E = (hi, lo)" by (cases "L_Extract E")
  have "mult 1 1 = 0" by (simp add: mult_eq is_s16_def clamp_def)
  moreover have "scale_32 E 0 = 0" using L_Extract_parts [OF assms(2) h]
    by (simp add: scale_32_def h Mpy_32_16_def L_mult_eq mult_eq L_mac_eq is_s16_def [of 1] clamp_def)
  ultimately show ?thesis using attenuate_eq [OF assms(1), of 57 E] by (simp add: g)
qed

lemma plc_gain_silent:
  assumes "is_s32 E" "0 < E"
  shows "\<exists>x. plc_gain 0 E per = Some (0, x)"
proof -
  have s: "sub 0 1 = - 1" by (simp add: sub_eq is_s16_def clamp_id)
  have l: "L_shl 0 (- 1) = 0" by (simp add: L_shl_right L_shr_right is_s32_def shr_def)
  have e: "extract_h 0 = 0" by (simp add: extract_h_eq)
  have w: "1073741824 \<le> L_shl E (norm_l E)" "is_s32 (L_shl E (norm_l E))"
    using norm_l_pos [OF assms(2,1)] assms(1) by (simp add: L_shl_norm) (use assms(1) in simp)
  have "1073741824 div 65536 \<le> L_shl E (norm_l E) div 65536" using w(1) by (rule zdiv_mono1) simp
  then have v: "0 < extract_h (L_shl E (norm_l E))" using w(2) by (simp add: extract_h_eq)
  then have d: "div_s 0 (extract_h (L_shl E (norm_l E))) = Some 0" by (simp add: div_s_def)
  have z: "shr_16 0 1 = 0" "sqrts 0 = Some 0" by (simp_all add: shr_16_right shr_def sqrts_def)
  have "is_s16 (plc_scale per)"
    by (simp add: plc_scale_def Let_def ScPLCGmax_def ScPLCGmin_def is_s16_def [of 14746] is_s16_def [of 1639])
  then have "mult 0 (plc_scale per) = 0" by (simp add: mult_eq clamp_def)
  then show ?thesis by (simp add: plc_gain_def Let_def s l e d z split_beta)
qed

section \<open>Properties\<close>

text \<open>(C27) Decoding never fails: in every state that a decoder reaches from its reset by packets and
  losses in any order, each packet of ten bytes, whatever its bits, and each lost frame is decoded
  with all array accesses in bounds, all loops ended and no division outside of the domain of
  \<open>div_s\<close>, which would abort the program, into 40 samples of 16 bits. In the concealment this rests
  on the random generator: three faint samples never follow each other, so the energy of the noise,
  the divisor, is positive.\<close>

theorem bv16_decoder_safe:
  assumes "bv_channel ds" "valid_packet p" "s16_arr 40 x"
  shows "\<exists>ds' y. receive p ds x = Some (ds', y) \<and> bv_channel ds' \<and> length y = 40 \<and> list_all is_s16 y"
proof -
  obtain ds' y where d: "receive p ds x = Some (ds', y)" "s16_arr 40 y"
    using receive_ok [OF bv_channel_ok [OF assms(1)] assms(2,3)] by blast
  moreover have "bv_channel ds'"
    by (rule bv_channel.frame [OF assms(1) d(1) _ assms(3)]) (use assms(2) in \<open>auto simp: valid_packet_def split: option.splits\<close>)
  ultimately show ?thesis by (auto simp: arr_def)
qed

theorem bv16_decoder_safe_witness:
  "\<exists>ds y. receive (Some [1, 2, 3, 4, 5, 6, 7, 8, 9, 255]) Reset_BV16_Decoder (replicate 40 7) = Some (ds, y) \<and> length y = 40"
  using bv16_decoder_safe [OF bv_channel.reset, of "Some [1, 2, 3, 4, 5, 6, 7, 8, 9, 255]" "replicate 40 7"]
  by (auto simp: valid_packet_def is_s16_def)

text \<open>(C28) The state of a decoder: in every state it reaches, the frequencies of the last frame are
  spaced, so the synthesis filter made of them is stable, both pitch periods lie between 10 and 137,
  the counter of lost frames between 0 and 57, and the energy of the excitation is not negative.\<close>

theorem bv16_decoder_invariant:
  assumes "bv_channel ds"
  shows "49 \<le> ds_lsplast ds ! 0 \<and> ds_lsplast ds ! 7 \<le> 32694 \<and> (\<forall>i<7. ds_lsplast ds ! i + 410 \<le> ds_lsplast ds ! Suc i)
    \<and> 10 \<le> ds_pp_last ds \<and> ds_pp_last ds \<le> 137 \<and> 10 \<le> ds_pp_prv ds \<and> ds_pp_prv ds \<le> 137
    \<and> 0 \<le> ds_cfecount ds \<and> ds_cfecount ds \<le> 57 \<and> 0 \<le> ds_E ds"
  using bv_channel_ok [OF assms]
  by (auto simp: decoder_ok_def spaced_def LSPMIN_def LSPMAX_def DLSPMIN_def MINPP_def MAXPP_def)

theorem bv16_decoder_invariant_witness: "0 \<le> ds_E Reset_BV16_Decoder \<and> ds_pp_last Reset_BV16_Decoder \<le> 137"
  using bv16_decoder_invariant [OF bv_channel.reset] by blast

text \<open>(C29) A loss that goes on fades out: whatever the state, after 57 or more lost frames in a row the
  energy of the excitation is zero, and the gain of the noise of the next lost frame is zero too.\<close>

theorem bv16_loss_fades_out:
  assumes "bv_channel ds" "57 \<le> n"
  shows "\<exists>ds' ys. receive_all (replicate n None) ds = Some (ds', ys) \<and> ds_E ds' = 0
    \<and> (\<forall>E. is_s32 E \<and> 0 < E \<longrightarrow> (\<exists>x. plc_gain (ds_E ds') E (ds_per ds') = Some (0, x)))"
proof -
  obtain m where n: "n = m + 1" "56 \<le> m" using assms(2) by (cases n) auto
  have ok: "decoder_ok ds" using assms(1) by (rule bv_channel_ok)
  obtain d xs where d: "receive_all (replicate m None) ds = Some (d, xs)" "decoder_ok d"
    "ds_cfecount d = min 57 (ds_cfecount ds + int m)" using lost_frames_count [OF ok] by blast
  have "s16_arr 40 (replicate FRSZ 0)" by (simp add: FRSZ_def)
  then obtain e y where e: "BV16_PLC d (replicate FRSZ 0) = Some (e, y)" "ds_cfecount e = min 57 (ds_cfecount d + 1)"
    "attenuate (ds_cfecount e) (ds_bq_last d) (ds_E d) = Some (ds_bq_last e, ds_E e)"
    using BV16_PLC_ok [OF d(2)] by blast
  have c: "ds_cfecount e = 57" using d(3) e(2) n decoder_okD(12) [OF ok] by simp
  have "ds_E e = 0"
    using e(3) attenuate_end [OF decoder_okD(15) [OF d(2)] decoder_okD(20) [OF d(2)]] unfolding c by auto
  moreover have "receive_all (replicate n None) ds = Some (e, xs @ [y])"
    using receive_all_snoc [OF d(1), of None e y] e(1) unfolding n(1)
    by (simp add: receive_def flip: replicate_append_same)
  ultimately show ?thesis using plc_gain_silent by auto
qed

theorem bv16_loss_fades_out_witness:
  "\<exists>ds ys. receive_all (replicate 57 None) Reset_BV16_Decoder = Some (ds, ys) \<and> ds_E ds = 0"
  using bv16_loss_fades_out [OF bv_channel.reset, of 57] by blast

end
