(* ===== verification/BV_PitchRefine.thy ===== *)
theory BV_PitchRefine
  imports BV_Decoder
begin

text \<open>
  The last two steps of the pitch analysis of the BroadVoice16 encoder: the refinement of the coarse
  pitch period around its value (\<open>fineptch.c\<close>) and the choice of the three pitch taps (\<open>ptquan.c\<close>).
  The pointers into the signal are the indexes they have.
\<close>

section \<open>Constants (\<open>bv16cnst.h\<close>, \<open>fineptch.c\<close>)\<close>

definition DECF :: int where "DECF = 4"
definition DEV :: int where "DEV = DECF - 1"
definition XOFF :: nat where "XOFF = 138"
definition LX :: nat where "LX = 178"
definition PPCBSZ :: nat where "PPCBSZ = 32"

lemmas pitch_const = syn_const DECF_def DEV_def XOFF_def LX_def PPCBSZ_def

section \<open>Refinement (\<open>fineptch.c\<close>)\<close>

text \<open>The bounds of the search.\<close>

definition refine_range :: "int \<Rightarrow> int \<times> int" where
  "refine_range cpp = (
     let cpp = (if cpp \<ge> MAXPP then MAXPP - 1 else cpp);
         cpp = (if cpp < MINPP then MINPP else cpp);
         lb = sub cpp DEV;
         lb = (if lb < MINPP then MINPP else lb);
         ub = add cpp DEV;
         ub = (if ub \<ge> MAXPP then MAXPP - 1 else ub)
     in (lb, ub))"

text \<open>The best period so far with its correlation and energy, and the energy at the current period.\<close>

record refine_state =
  rf_pp :: int
  rf_cormax :: int
  rf_enermax32 :: int
  rf_energymax :: int
  rf_energymax_exp :: int
  rf_cor2max :: int
  rf_cor2max_exp :: int
  rf_energy :: int

definition refine_start :: "int list \<Rightarrow> int \<Rightarrow> refine_state option" where
  "refine_start x lb = do {
     (energy, cor) \<leftarrow> for_up 0 FRSZ (\<lambda>j (energy, cor). do {
       s \<leftarrow> get x (int XOFF - lb + j);
       t \<leftarrow> get x (int XOFF + j);
       Some (L_mac0 energy s s, L_mac0 cor s t) }) (0, 0);
     let energymax_exp = norm_l energy;
     let energymax = extract_h (L_shl energy energymax_exp);
     let cor2max_exp = norm_l cor;
     let s = extract_h (L_shl cor cor2max_exp);
     let cor2max_exp = shl cor2max_exp 1;
     let cor2max = extract_h (L_mult0 s s);
     Some \<lparr>rf_pp = lb, rf_cormax = cor, rf_enermax32 = energy, rf_energymax = energymax,
       rf_energymax_exp = energymax_exp, rf_cor2max = cor2max, rf_cor2max_exp = cor2max_exp,
       rf_energy = energy\<rparr> }"

definition refine_step :: "int list \<Rightarrow> int \<Rightarrow> refine_state \<Rightarrow> refine_state option" where
  "refine_step x i st = do {
     cor \<leftarrow> for_up 0 FRSZ (\<lambda>j cor. do {
       u \<leftarrow> get x (int XOFF + j);
       v \<leftarrow> get x (int XOFF - i + j);
       Some (L_mac0 cor u v) }) 0;
     let cor2_exp = norm_l cor;
     let s = extract_h (L_shl cor cor2_exp);
     let cor2_exp = shl cor2_exp 1;
     let cor2 = extract_h (L_mult0 s s);
     s \<leftarrow> get x (int XOFF + int FRSZ - i);
     t \<leftarrow> get x (int XOFF - i);
     let energy = L_msu0 (rf_energy st) s s;
     let energy = L_mac0 energy t t;
     let ener_exp = norm_l energy;
     let ener = extract_h (L_shl energy ener_exp);
     let st = st\<lparr>rf_energy := energy\<rparr>;
     if ener > 0
     then let a0 = L_mult0 cor2 (rf_energymax st);
              a1 = L_mult0 (rf_cor2max st) ener;
              s = add cor2_exp (rf_energymax_exp st);
              t = add (rf_cor2max_exp st) ener_exp;
              (a0, a1) = (if s \<ge> t then (L_shr a0 (sub s t), a1) else (a0, L_shr a1 (sub t s)))
          in Some (if a0 > a1
            then st\<lparr>rf_pp := i, rf_cormax := cor, rf_enermax32 := energy, rf_cor2max := cor2,
              rf_cor2max_exp := cor2_exp, rf_energymax := ener, rf_energymax_exp := ener_exp\<rparr>
            else st)
     else Some st }"

text \<open>The tap of the single tap predictor, the quotient of correlation and energy.\<close>

definition pitch_tap :: "int \<Rightarrow> int \<Rightarrow> int option" where
  "pitch_tap cormax enermax32 = (
     if enermax32 = 0 \<or> cormax \<le> 0 then Some 0
     else do {
       let ub = sub (norm_l cormax) 1;
       let lb = norm_l enermax32;
       let s = extract_h (L_shl cormax ub);
       let t = extract_h (L_shl enermax32 lb);
       s \<leftarrow> div_s s t;
       let lb = sub (sub lb ub) 6;
       Some (shl s lb) })"

text \<open>The result: \<open>pp\<close> and \<open>ppt\<close>.\<close>

definition refinepitch :: "int list \<Rightarrow> int \<Rightarrow> (int \<times> int) option" where
  "refinepitch x cpp = do {
     let (lb, ub) = refine_range cpp;
     st \<leftarrow> refine_start x lb;
     st \<leftarrow> for_range (lb + 1) (ub + 1) (refine_step x) st;
     ppt \<leftarrow> pitch_tap (rf_cormax st) (rf_enermax32 st);
     Some (rf_pp st, ppt) }"

section \<open>Quantisation of the pitch taps (\<open>ptquan.c\<close>)\<close>

text \<open>The correlations of the frame with the three delayed signals, then the products of the delayed
  signals with each other; the sums of the outer delays follow from the one of the first.\<close>

definition cross_correlation :: "int list \<Rightarrow> int \<Rightarrow> int \<Rightarrow> int option" where
  "cross_correlation x ppm2 i = for_up 0 FRSZ (\<lambda>j t0. do {
     u \<leftarrow> get x (int XOFF + j);
     v \<leftarrow> get x (int XOFF - ppm2 - i - 1 + j);
     Some (L_mac t0 u v) }) 1"

definition tap_correlations :: "int list \<Rightarrow> int \<Rightarrow> int list option" where
  "tap_correlations x ppm2 = do {
     p \<leftarrow> for_up 0 3 (\<lambda>i p. do { t0 \<leftarrow> cross_correlation x ppm2 i; put p i t0 }) (replicate 9 0);
     let sp0 = int XOFF - ppm2 - 3;
     s0 \<leftarrow> get x sp0; s1 \<leftarrow> get x (sp0 + 1); s2 \<leftarrow> get x (sp0 + 2);
     let t0 = L_mult s0 s0;
     let t1 = L_mult s0 s1;
     let (p8, p4, p5) = (t0, t1, L_mult s0 s2);
     s0 \<leftarrow> get x (sp0 + 1); s1 \<leftarrow> get x (sp0 + 2); s2 \<leftarrow> get x (sp0 + 3);
     let t2 = L_mult s0 s0;
     let (p8, p4, p5) = (L_add p8 t2, L_mac p4 s0 s1, L_mac p5 s0 s2);
     (p8, p4, p5) \<leftarrow> for_up 0 (FRSZ - 2) (\<lambda>i (p8, p4, p5). do {
       s0 \<leftarrow> get x (sp0 + 2 + i); s1 \<leftarrow> get x (sp0 + 3 + i); s2 \<leftarrow> get x (sp0 + 4 + i);
       Some (L_mac p8 s0 s0, L_mac p4 s0 s1, L_mac p5 s0 s2) }) (p8, p4, p5);
     let q = sp0 + int FRSZ;
     s0 \<leftarrow> get x q; s1 \<leftarrow> get x (q + 1); s2 \<leftarrow> get x (q + 2);
     let p7 = L_mac (L_sub p8 t0) s0 s0;
     let p3 = L_mac (L_sub p4 t1) s0 s1;
     let p6 = L_mac (L_sub p7 t2) s1 s1;
     p \<leftarrow> put p 3 p3; p \<leftarrow> put p 4 p4; p \<leftarrow> put p 5 p5;
     p \<leftarrow> put p 6 p6; p \<leftarrow> put p 7 p7; put p 8 p8 }"

text \<open>The common shift of the nine numbers.\<close>

definition common_scale :: "int list \<Rightarrow> int list option" where
  "common_scale p = do {
     s2 \<leftarrow> for_up 0 9 (\<lambda>i s2. do {
       v \<leftarrow> get p i;
       Some (if v \<noteq> 0 then (let s0 = norm_l v in if s0 < s2 then s0 else s2) else s2) }) 32;
     let s2 = sub s2 2;
     for_up 0 9 (\<lambda>i sp. do { v \<leftarrow> get p i; put sp i (extract_h (L_shl v s2)) }) (replicate 9 0) }"

definition best_taps :: "int list \<Rightarrow> (int \<times> int) option" where
  "best_taps sp = for_up 0 PPCBSZ (\<lambda>i (cormax, qidx). do {
     cor \<leftarrow> for_up 0 9 (\<lambda>j cor. do {
       c \<leftarrow> get pp9cb (i * 9 + j); v \<leftarrow> get sp j;
       Some (L_mac cor c v) }) 0;
     Some (if cor > cormax then (cor, i) else (cormax, qidx)) }) (MIN_32, 0)"

text \<open>The energy of the prediction residual.\<close>

definition tap_residual :: "int list \<Rightarrow> int \<Rightarrow> int list \<Rightarrow> int option" where
  "tap_residual x ppm2 b = for_up 0 FRSZ (\<lambda>i t1. do {
     let sp1 = int XOFF - ppm2 - 1 + i;
     v \<leftarrow> get x (int XOFF + i);
     b0 \<leftarrow> get b 0; v0 \<leftarrow> get x sp1;
     b1 \<leftarrow> get b 1; v1 \<leftarrow> get x (sp1 - 1);
     b2 \<leftarrow> get b 2; v2 \<leftarrow> get x (sp1 - 2);
     let s0 = intround (L_msu (L_msu (L_msu (L_deposit_h v) b0 v0) b1 v1) b2 v2);
     Some (L_mac t1 s0 s0) }) 0"

text \<open>The result: the index, the taps \<open>b\<close> and the energy \<open>re\<close>.\<close>

definition pitchtapquan :: "int list \<Rightarrow> int \<Rightarrow> int list \<Rightarrow> (int \<times> int list \<times> int) option" where
  "pitchtapquan x pp b = do {
     let ppm2 = pp - 2;
     p \<leftarrow> tap_correlations x ppm2;
     sp \<leftarrow> common_scale p;
     (cormax, qidx) \<leftarrow> best_taps sp;
     b \<leftarrow> for_up 0 3 (\<lambda>i b. do { v \<leftarrow> get pp9cb (qidx * 9 + i); put b i v }) b;
     re \<leftarrow> tap_residual x ppm2 b;
     Some (qidx, b, re) }"

section \<open>The refinement returns\<close>

lemma refine_range_ok:
  assumes "is_s16 cpp"
  shows "\<exists>lb ub. refine_range cpp = (lb, ub) \<and> 10 \<le> lb \<and> lb \<le> ub \<and> ub \<le> 136 \<and> is_s16 lb"
  using assms by (auto simp: refine_range_def Let_def pitch_const sub_eq add_eq clamp_def is_s16_def)

definition refine_ok :: "refine_state \<Rightarrow> bool" where
  "refine_ok st \<longleftrightarrow> MINPP \<le> rf_pp st \<and> rf_pp st < MAXPP \<and> is_s32 (rf_cormax st) \<and> is_s32 (rf_enermax32 st) \<and>
    0 \<le> rf_enermax32 st \<and> is_s16 (rf_energymax st) \<and> is_s16 (rf_cor2max st) \<and> is_s32 (rf_energy st)"

lemma refine_start_ok:
  assumes "s16_arr 178 x" "10 \<le> lb" "lb \<le> 136"
  shows "\<exists>st. refine_start x lb = Some st \<and> refine_ok st"
proof -
  have "\<exists>t. for_up 0 FRSZ (\<lambda>j (energy, cor). do {
       s \<leftarrow> get x (int XOFF - lb + j); t \<leftarrow> get x (int XOFF + j);
       Some (L_mac0 energy s s, L_mac0 cor s t) }) (0, 0) = Some t \<and> (case t of (e, c) \<Rightarrow> is_s32 e \<and> 0 \<le> e \<and> is_s32 c)"
    by (rule for_up_inv [where P = "\<lambda>(e, c). is_s32 e \<and> 0 \<le> e \<and> is_s32 c"])
      (use assms in \<open>auto simp: pitch_const intro!: L_mac0_square s16_nth [OF assms(1)]\<close>)
  then obtain e c where "for_up 0 FRSZ (\<lambda>j (energy, cor). do {
       s \<leftarrow> get x (int XOFF - lb + j); t \<leftarrow> get x (int XOFF + j);
       Some (L_mac0 energy s s, L_mac0 cor s t) }) (0, 0) = Some (e, c)" "is_s32 e" "0 \<le> e" "is_s32 c" by auto
  then show ?thesis using assms by (simp add: refine_start_def refine_ok_def Let_def pitch_const)
qed

lemma norm_positive:
  assumes "is_s32 e" "0 < extract_h (L_shl e (norm_l e))"
  shows "0 < e"
proof (rule ccontr)
  assume "\<not> 0 < e"
  then have "e * 2 ^ nat (norm_l e) \<le> 0" by (simp add: mult_nonpos_nonneg)
  moreover have "is_s32 (e * 2 ^ nat (norm_l e))" using L_shl_norm [OF assms(1)] assms(1) by (metis shift_types_32(1))
  ultimately show False using assms by (simp add: L_shl_norm extract_h_eq)
qed

lemma refine_step_ok:
  assumes "s16_arr 178 x" "10 \<le> i" "i \<le> 136" "refine_ok st"
  shows "\<exists>t. refine_step x i st = Some t \<and> refine_ok t"
proof -
  have "\<exists>c. for_up 0 FRSZ (\<lambda>j cor. do {
       u \<leftarrow> get x (int XOFF + j); v \<leftarrow> get x (int XOFF - i + j); Some (L_mac0 cor u v) }) 0 = Some c \<and> is_s32 c"
    by (rule for_up_inv [where P = is_s32]) (use assms in \<open>auto simp: pitch_const\<close>)
  then obtain c where c: "for_up 0 FRSZ (\<lambda>j cor. do {
       u \<leftarrow> get x (int XOFF + j); v \<leftarrow> get x (int XOFF - i + j); Some (L_mac0 cor u v) }) 0 = Some c" "is_s32 c" by blast
  have g: "get x (int XOFF + int FRSZ - i) = Some (x ! nat (178 - i))" "get x (int XOFF - i) = Some (x ! nat (138 - i))"
    using assms by (simp_all add: pitch_const arr_length)
  define s t where "s = x ! nat (178 - i)" and "t = x ! nat (138 - i)"
  define e where "e = L_mac0 (L_msu0 (rf_energy st) s s) t t"
  have e: "is_s32 e" by (simp add: e_def)
  have "0 < extract_h (L_shl e (norm_l e)) \<Longrightarrow> 0 < e" by (rule norm_positive [OF e])
  then show ?thesis unfolding refine_step_def c(1) g bind.bind_lunit Let_def s_def [symmetric] t_def [symmetric] e_def [symmetric]
    using assms c(2) e by (auto simp: refine_ok_def pitch_const split: if_splits prod.splits)
qed

lemma pitch_tap_ok:
  assumes "is_s32 c" "is_s32 e" "0 \<le> e"
  shows "\<exists>t. pitch_tap c e = Some t \<and> is_s16 t"
proof (cases "e = 0 \<or> c \<le> 0")
  case True then show ?thesis by (auto simp: pitch_tap_def)
next
  case False
  then have p: "0 < c" "0 < e" using assms by auto
  define s where "s = extract_h (L_shl c (sub (norm_l c) 1))"
  define t where "t = extract_h (L_shl e (norm_l e))"
  have "16384 \<le> t" using norm_l_pos(3) [OF p(2) assms(2)] shift_types_32(1) [of e "norm_l e"] assms(2)
    by (simp add: t_def L_shl_norm extract_h_eq is_s32_def)
  moreover have "0 \<le> s \<and> s < 16384"
    using L_shl_below_norm [OF less_imp_le [OF p(1)] assms(1)] assms(1) unfolding s_def
    by (simp add: extract_h_eq) linarith
  moreover have "is_s16 t" unfolding t_def by (simp add: assms(2))
  ultimately obtain q where "div_s s t = Some q" "is_s16 q" using div_s_ok [of s t] by (auto simp: is_s16_def)
  then show ?thesis using p by (auto simp: pitch_tap_def Let_def s_def t_def)
qed

lemma refinepitch_ok:
  assumes "s16_arr 178 x" "is_s16 cpp"
  shows "\<exists>pp ppt. refinepitch x cpp = Some (pp, ppt) \<and> 10 \<le> pp \<and> pp \<le> 136 \<and> is_s16 ppt"
proof -
  obtain lb ub where r: "refine_range cpp = (lb, ub)" "10 \<le> lb" "lb \<le> ub" "ub \<le> 136" using refine_range_ok [OF assms(2)] by blast
  obtain s where s: "refine_start x lb = Some s" "refine_ok s" using refine_start_ok [OF assms(1)] r by force
  have "\<exists>t. for_range (lb + 1) (ub + 1) (refine_step x) s = Some t \<and> refine_ok t"
    by (rule for_range_inv [where P = refine_ok], rule s(2), rule refine_step_ok [OF assms(1)]) (use r in auto)
  then obtain t where t: "for_range (lb + 1) (ub + 1) (refine_step x) s = Some t" "refine_ok t" by blast
  then obtain p where "pitch_tap (rf_cormax t) (rf_enermax32 t) = Some p" "is_s16 p"
    using pitch_tap_ok by (auto simp: refine_ok_def)
  then show ?thesis using t r(1) s(1) by (auto simp: refinepitch_def refine_ok_def pitch_const)
qed

section \<open>The pitch taps\<close>

lemma cross_correlation_ok:
  assumes "s16_arr 178 x" "8 \<le> ppm2" "ppm2 \<le> 134" "0 \<le> i" "i < 3"
  shows "\<exists>t. cross_correlation x ppm2 i = Some t \<and> is_s32 t"
  unfolding cross_correlation_def
  by (rule for_up_inv [where P = is_s32], simp add: is_s32_def) (use assms in \<open>auto simp: pitch_const\<close>)

lemma tap_correlations_ok:
  assumes "s16_arr 178 x" "8 \<le> ppm2" "ppm2 \<le> 134"
  shows "\<exists>p. tap_correlations x ppm2 = Some p \<and> s32_arr 9 p"
proof -
  let ?sp0 = "int XOFF - ppm2 - 3"
  have "\<exists>p. for_up 0 3 (\<lambda>i p. do { t0 \<leftarrow> cross_correlation x ppm2 i; put p i t0 }) (replicate 9 0) = Some p \<and> s32_arr 9 p"
  proof (rule for_up_inv [where P = "s32_arr 9"])
    fix i p assume i: "int 0 \<le> i" "i < int 3" and p: "s32_arr 9 p"
    obtain t where "cross_correlation x ppm2 i = Some t" "is_s32 t" using cross_correlation_ok [OF assms, of i] i by auto
    then show "\<exists>q. (do { t0 \<leftarrow> cross_correlation x ppm2 i; put p i t0 }) = Some q \<and> s32_arr 9 q"
      using i p by (auto intro!: arr_update)
  qed simp
  then obtain p where p: "for_up 0 3 (\<lambda>i p. do { t0 \<leftarrow> cross_correlation x ppm2 i; put p i t0 }) (replicate 9 0) = Some p" "s32_arr 9 p" by blast
  have g: "get x (?sp0 + k) = Some (x ! nat (?sp0 + k))" if "0 \<le> k" "k \<le> 42" for k
    using assms that by (simp add: pitch_const)
  have "\<exists>t. for_up 0 (FRSZ - 2) (\<lambda>i (p8, p4, p5). do {
       s0 \<leftarrow> get x (?sp0 + 2 + i); s1 \<leftarrow> get x (?sp0 + 3 + i); s2 \<leftarrow> get x (?sp0 + 4 + i);
       Some (L_mac p8 s0 s0, L_mac p4 s0 s1, L_mac p5 s0 s2) }) a = Some t \<and> (case t of (p8, p4, p5) \<Rightarrow> is_s32 p8 \<and> is_s32 p4 \<and> is_s32 p5)"
    if "case a of (p8, p4, p5) \<Rightarrow> is_s32 p8 \<and> is_s32 p4 \<and> is_s32 p5" for a
    by (rule for_up_inv [where P = "\<lambda>(p8, p4, p5). is_s32 p8 \<and> is_s32 p4 \<and> is_s32 p5"], rule that)
      (use assms in \<open>auto simp: pitch_const\<close>)
  then have l: "\<exists>p8 p4 p5. for_up 0 (FRSZ - 2) (\<lambda>i (p8, p4, p5). do {
       s0 \<leftarrow> get x (?sp0 + 2 + i); s1 \<leftarrow> get x (?sp0 + 3 + i); s2 \<leftarrow> get x (?sp0 + 4 + i);
       Some (L_mac p8 s0 s0, L_mac p4 s0 s1, L_mac p5 s0 s2) }) (a8, a4, a5) = Some (p8, p4, p5) \<and> is_s32 p8 \<and> is_s32 p4 \<and> is_s32 p5"
    if "is_s32 a8" "is_s32 a4" "is_s32 a5" for a8 a4 a5 using that by fastforce
  define u where "u k = x ! nat (?sp0 + k)" for k
  obtain p8 p4 p5 where l: "for_up 0 (FRSZ - 2) (\<lambda>i (p8, p4, p5). do {
       s0 \<leftarrow> get x (?sp0 + 2 + i); s1 \<leftarrow> get x (?sp0 + 3 + i); s2 \<leftarrow> get x (?sp0 + 4 + i);
       Some (L_mac p8 s0 s0, L_mac p4 s0 s1, L_mac p5 s0 s2) })
     (L_add (L_mult (u 0) (u 0)) (L_mult (u 1) (u 1)), L_mac (L_mult (u 0) (u 1)) (u 1) (u 2), L_mac (L_mult (u 0) (u 2)) (u 1) (u 3)) = Some (p8, p4, p5)"
    "is_s32 p8" "is_s32 p4" "is_s32 p5" using l [of "L_add (L_mult (u 0) (u 0)) (L_mult (u 1) (u 1))"
      "L_mac (L_mult (u 0) (u 1)) (u 1) (u 2)" "L_mac (L_mult (u 0) (u 2)) (u 1) (u 3)"] by auto
  have h: "get x ?sp0 = Some (u 0)" "get x (?sp0 + 1) = Some (u 1)" "get x (?sp0 + 2) = Some (u 2)" "get x (?sp0 + 3) = Some (u 3)"
    "get x (?sp0 + int FRSZ) = Some (u 40)" "get x (?sp0 + int FRSZ + 1) = Some (u 41)" "get x (?sp0 + int FRSZ + 2) = Some (u 42)"
    using g [of 0] g [of 1] g [of 2] g [of 3] g [of 40] g [of 41] g [of 42] by (simp_all add: u_def FRSZ_def add.assoc)
  show ?thesis unfolding tap_correlations_def p(1) bind.bind_lunit Let_def prod.case h l(1) using p(2) l(2-4)
    by (auto simp: arr_length intro!: arr_update)
qed

lemma common_scale_ok:
  assumes "s32_arr 9 p"
  shows "\<exists>sp. common_scale p = Some sp \<and> s16_arr 9 sp"
proof -
  have "\<exists>s2. for_up 0 9 (\<lambda>i s2. do {
       v \<leftarrow> get p i;
       Some (if v \<noteq> 0 then (let s0 = norm_l v in if s0 < s2 then s0 else s2) else s2) }) 32 = Some s2 \<and> True"
    by (rule for_up_inv [where P = "\<lambda>_. True"]) (use assms in simp_all)
  then obtain s2 where s2: "for_up 0 9 (\<lambda>i s2. do {
       v \<leftarrow> get p i;
       Some (if v \<noteq> 0 then (let s0 = norm_l v in if s0 < s2 then s0 else s2) else s2) }) 32 = Some s2" by blast
  have "\<exists>sp. for_up 0 9 (\<lambda>i sp. do { v \<leftarrow> get p i; put sp i (extract_h (L_shl v (sub s2 2))) }) (replicate 9 0) = Some sp \<and> s16_arr 9 sp"
    by (rule for_up_inv [where P = "s16_arr 9"])
      (use assms in \<open>auto intro!: arr_update s16_ops shift_types_32 s32_nth [OF assms]\<close>)
  then show ?thesis by (simp add: common_scale_def s2)
qed

lemma best_taps_ok:
  assumes "s16_arr 9 sp"
  shows "\<exists>c q. best_taps sp = Some (c, q) \<and> 0 \<le> q \<and> q < 32"
proof -
  have "\<exists>t. best_taps sp = Some t \<and> (case t of (c, q) \<Rightarrow> 0 \<le> q \<and> q < 32)"
    unfolding best_taps_def
  proof (rule for_up_inv [where P = "\<lambda>(c, q). 0 \<le> q \<and> q < 32"])
    fix i and s :: "int \<times> int" assume i: "int 0 \<le> i" "i < int PPCBSZ" and s: "case s of (c, q) \<Rightarrow> 0 \<le> q \<and> q < 32"
    have "\<exists>c. for_up 0 9 (\<lambda>j cor. do { c \<leftarrow> get pp9cb (i * 9 + j); v \<leftarrow> get sp j; Some (L_mac cor c v) }) 0 = Some c \<and> True"
      by (rule for_up_inv [where P = "\<lambda>_. True"]) (use assms i in \<open>auto simp: PPCBSZ_def\<close>)
    then obtain c where c: "for_up 0 9 (\<lambda>j cor. do { c \<leftarrow> get pp9cb (i * 9 + j); v \<leftarrow> get sp j; Some (L_mac cor c v) }) 0 = Some c" by blast
    show "\<exists>t. (case s of (cormax, qidx) \<Rightarrow> do {
       cor \<leftarrow> for_up 0 9 (\<lambda>j cor. do { c \<leftarrow> get pp9cb (i * 9 + j); v \<leftarrow> get sp j; Some (L_mac cor c v) }) 0;
       Some (if cor > cormax then (cor, i) else (cormax, qidx)) }) = Some t \<and> (case t of (c, q) \<Rightarrow> 0 \<le> q \<and> q < 32)"
      using s i by (auto simp: c PPCBSZ_def)
  qed simp
  then show ?thesis by auto
qed

lemma tap_residual_ok:
  assumes "s16_arr 178 x" "8 \<le> ppm2" "ppm2 \<le> 134" "s16_arr 3 b"
  shows "\<exists>e. tap_residual x ppm2 b = Some e \<and> is_s32 e \<and> 0 \<le> e"
  unfolding tap_residual_def Let_def
proof (rule for_up_inv [where P = "\<lambda>e. is_s32 e \<and> 0 \<le> e"])
  fix i e assume i: "int 0 \<le> i" "i < int FRSZ" and e: "is_s32 e \<and> 0 \<le> e"
  have sq: "is_s32 (L_mac e s s) \<and> 0 \<le> L_mac e s s" if "is_s16 s" for s
    using e that by (simp add: L_mac_eq)
  show "\<exists>t. (do { v \<leftarrow> get x (int XOFF + i); b0 \<leftarrow> get b 0; v0 \<leftarrow> get x (int XOFF - ppm2 - 1 + i);
      b1 \<leftarrow> get b 1; v1 \<leftarrow> get x (int XOFF - ppm2 - 1 + i - 1); b2 \<leftarrow> get b 2; v2 \<leftarrow> get x (int XOFF - ppm2 - 1 + i - 2);
      Some (L_mac e (intround (L_msu (L_msu (L_msu (L_deposit_h v) b0 v0) b1 v1) b2 v2))
        (intround (L_msu (L_msu (L_msu (L_deposit_h v) b0 v0) b1 v1) b2 v2))) }) = Some t \<and> is_s32 t \<and> 0 \<le> t"
    using assms i by (simp add: pitch_const sq)
qed simp

lemma pp3dec_same: "for_up 0 3 (\<lambda>i b. do { v \<leftarrow> get pp9cb (q * 9 + i); put b i v }) b = pp3dec q b"
  by (simp add: pp3dec_def)

lemma pitchtapquan_ok:
  assumes "s16_arr 178 x" "10 \<le> pp" "pp \<le> 136" "s16_arr 3 b"
  shows "\<exists>q r e. pitchtapquan x pp b = Some (q, r, e) \<and> 0 \<le> q \<and> q < 32 \<and> pp3dec q b = Some r \<and> s16_arr 3 r \<and> is_s32 e \<and> 0 \<le> e"
proof -
  have p2: "8 \<le> pp - 2" "pp - 2 \<le> 134" using assms by simp_all
  obtain p where p: "tap_correlations x (pp - 2) = Some p" "s32_arr 9 p" using tap_correlations_ok [OF assms(1) p2] by blast
  obtain sp where sp: "common_scale p = Some sp" "s16_arr 9 sp" using common_scale_ok [OF p(2)] by blast
  obtain c q where q: "best_taps sp = Some (c, q)" "0 \<le> q" "q < 32" using best_taps_ok [OF sp(2)] by blast
  obtain r where r: "pp3dec q b = Some r" "s16_arr 3 r" using pp3dec_ok [OF assms(4), of q] q by auto
  obtain e where "tap_residual x (pp - 2) r = Some e" "is_s32 e" "0 \<le> e" using tap_residual_ok [OF assms(1) p2 r(2)] by blast
  then show ?thesis using p sp q r by (simp add: pitchtapquan_def pp3dec_same)
qed

section \<open>The recursive products\<close>

text \<open>The product of the frame with itself, delayed by \<open>a\<close> and by \<open>b\<close> samples.\<close>

definition delayed_product :: "int list \<Rightarrow> int \<Rightarrow> int \<Rightarrow> int" where
  "delayed_product x a b = (\<Sum>n<40. 2 * (x ! nat (138 + int n - a) * x ! nat (138 + int n - b)))"

lemma small_product: "\<bar>a\<bar> \<le> 5180 \<Longrightarrow> \<bar>b\<bar> \<le> 5180 \<Longrightarrow> \<bar>2 * (a * b)\<bar> \<le> 53664800" for a b :: int
  using mult_abs_le [of a 5180 b 5180] by (simp add: abs_mult)

lemma L_mac_exact:
  assumes "\<bar>a\<bar> \<le> 5180" "\<bar>b\<bar> \<le> 5180" "\<bar>t\<bar> \<le> 2093818847"
  shows "L_mac t a b = t + 2 * (a * b)"
proof -
  have "is_s16 a" "is_s16 b" "is_s32 t" using assms by (auto simp: is_s16_def is_s32_def)
  then show ?thesis using small_product [OF assms(1,2)] assms(3) by (simp add: L_mac_eq clamp_id)
qed

lemma L_mult_exact:
  assumes "\<bar>a\<bar> \<le> 5180" "\<bar>b\<bar> \<le> 5180"
  shows "L_mult a b = 2 * (a * b)"
proof -
  have "is_s16 a" "is_s16 b" using assms by (auto simp: is_s16_def)
  then show ?thesis using small_product [OF assms] by (simp add: L_mult_eq clamp_id)
qed

lemma small_sum:
  fixes f :: "nat \<Rightarrow> int"
  assumes "\<And>n. n < k \<Longrightarrow> \<bar>f n\<bar> \<le> 53664800"
  shows "\<bar>\<Sum>n<k. f n\<bar> \<le> 53664800 * int k"
  using assms
proof (induction k)
  case (Suc k)
  then have "\<bar>\<Sum>n<k. f n\<bar> \<le> 53664800 * int k" "\<bar>f k\<bar> \<le> 53664800" by simp_all
  then show ?case unfolding sum.lessThan_Suc of_nat_Suc distrib_left by linarith
qed simp

lemma for_up_sum:
  assumes "\<And>j t. j < n \<Longrightarrow> body (int j) t = Some (L_mac t (f j) (g j))"
    and "\<And>j. j < n \<Longrightarrow> \<bar>f j\<bar> \<le> 5180 \<and> \<bar>g j\<bar> \<le> 5180" "n \<le> 40" "\<bar>c\<bar> \<le> 1"
  shows "for_up 0 n body c = Some (c + (\<Sum>j<n. 2 * (f j * g j)))"
proof -
  let ?P = "\<lambda>i t. t = c + (\<Sum>j<i. 2 * (f j * g j))"
  have "\<exists>t. for_up 0 n body c = Some t \<and> ?P n t"
  proof (rule for_up_rule [where P = ?P])
    fix i t assume i: "i < n" and t: "?P i t"
    have "\<bar>\<Sum>j<i. 2 * (f j * g j)\<bar> \<le> 53664800 * int i"
      by (rule small_sum) (use assms(2) i small_product in simp)
    then have "\<bar>t\<bar> \<le> 2093818847" using t i assms(3,4) by simp
    then show "\<exists>t'. body (int i) t = Some t' \<and> ?P (Suc i) t'" using t assms(1,2) [OF i] by (simp add: L_mac_exact)
  qed simp_all
  then show ?thesis by blast
qed

lemma slide_sum: "(\<Sum>n<Suc k. f n) - f 0 + f (Suc k) = (\<Sum>n<Suc k. f (Suc n))" for f :: "nat \<Rightarrow> int"
  using sum.lessThan_Suc_shift [of f "Suc k"] by simp

text \<open>The three sums over the signal \<open>u\<close> that the loop continues from their first two terms.\<close>

lemma product_loop:
  assumes "\<And>k. k < 43 \<Longrightarrow> get x (b + int k) = Some (u k) \<and> \<bar>u k\<bar> \<le> 5180"
  shows "for_up 0 38 (\<lambda>i (p8, p4, p5). do {
       s0 \<leftarrow> get x (b + 2 + i); s1 \<leftarrow> get x (b + 3 + i); s2 \<leftarrow> get x (b + 4 + i);
       Some (L_mac p8 s0 s0, L_mac p4 s0 s1, L_mac p5 s0 s2) })
     (\<Sum>n<2. 2 * (u n * u n), \<Sum>n<2. 2 * (u n * u (n + 1)), \<Sum>n<2. 2 * (u n * u (n + 2))) =
    Some (\<Sum>n<40. 2 * (u n * u n), \<Sum>n<40. 2 * (u n * u (n + 1)), \<Sum>n<40. 2 * (u n * u (n + 2)))"
    (is "for_up 0 38 ?f _ = _")
proof -
  let ?S = "\<lambda>d i. \<Sum>n<i + 2. 2 * (u n * u (n + d))"
  let ?P = "\<lambda>i t. t = (?S 0 i, ?S 1 i, ?S 2 i)"
  have "\<exists>t. for_up 0 38 ?f (?S 0 0, ?S 1 0, ?S 2 0) = Some t \<and> ?P 38 t"
  proof (rule for_up_rule [where P = ?P])
    fix i t assume i: "i < 38" and t: "?P i t"
    have g: "get x (b + 2 + int i) = Some (u (i + 2))" "get x (b + 3 + int i) = Some (u (i + 3))" "get x (b + 4 + int i) = Some (u (i + 4))"
      using assms [of "i + 2"] assms [of "i + 3"] assms [of "i + 4"] i by (simp_all add: ac_simps)
    have s: "L_mac (?S d i) (u (i + 2)) (u (i + 2 + d)) = ?S d (Suc i)" if "d \<le> 2" for d
    proof -
      have "\<bar>?S d i\<bar> \<le> 53664800 * int (i + 2)"
        by (rule small_sum, rule small_product) (use assms i that in auto)
      then have "\<bar>?S d i\<bar> \<le> 2093818847" using i by simp
      then show ?thesis using assms [of "i + 2"] assms [of "i + 2 + d"] i that by (simp add: L_mac_exact)
    qed
    have "?f (int i) t = Some (?S 0 (Suc i), ?S 1 (Suc i), ?S 2 (Suc i))"
      using s [of 0] s [of 1] s [of 2] by (simp add: t g numeral_eq_Suc)
    then show "\<exists>t'. ?f (int i) t = Some t' \<and> ?P (Suc i) t'" by blast
  qed simp_all
  then have "for_up 0 38 ?f (?S 0 0, ?S 1 0, ?S 2 0) = Some (?S 0 38, ?S 1 38, ?S 2 38)" by blast
  moreover have "(0 :: nat) + 2 = 2" "(38 :: nat) + 2 = 40" by simp_all
  ultimately show ?thesis by (simp only: add_0_right)
qed

lemma slide_product:
  fixes u :: "nat \<Rightarrow> int" and d e :: nat
  assumes "\<And>k. k < 43 \<Longrightarrow> \<bar>u k\<bar> \<le> 5180" "d \<le> 2" "e \<le> 2"
  shows "L_mac (L_sub (\<Sum>n<40. 2 * (u (n + d) * u (n + e))) (2 * (u d * u e))) (u (40 + d)) (u (40 + e)) =
    (\<Sum>n<40. 2 * (u (n + (d + 1)) * u (n + (e + 1))))"
proof -
  define f where "f n = 2 * (u (n + d) * u (n + e))" for n
  have f: "\<bar>f n\<bar> \<le> 53664800" if "n < 41" for n
    unfolding f_def by (rule small_product) (use assms(2,3) that in \<open>auto intro!: assms(1)\<close>)
  have "\<bar>\<Sum>n<40. f n\<bar> \<le> 53664800 * int 40" by (rule small_sum) (use f in auto)
  then have s: "is_s32 (\<Sum>n<40. f n)" by (auto simp: is_s32_def)
  have r: "(\<Sum>n<40. f n) - f 0 = (\<Sum>n<39. f (Suc n))"
    using sum.lessThan_Suc_shift [of f 39] by (simp add: numeral_eq_Suc)
  have b: "\<bar>\<Sum>n<39. f (Suc n)\<bar> \<le> 53664800 * int 39" by (rule small_sum) (use f in auto)
  have "is_s32 (f 0)" using f [of 0] by (auto simp: is_s32_def)
  then have "L_sub (\<Sum>n<40. f n) (f 0) = (\<Sum>n<39. f (Suc n))"
    using s r b by (simp add: L_sub_eq clamp_id)
  moreover have "L_mac (\<Sum>n<39. f (Suc n)) (u (40 + d)) (u (40 + e)) = (\<Sum>n<39. f (Suc n)) + f 40"
    unfolding f_def [of 40] by (rule L_mac_exact) (use assms(2,3) b in \<open>auto intro!: assms(1)\<close>)
  moreover have "(\<Sum>n<39. f (Suc n)) + f 40 = (\<Sum>n<40. f (Suc n))"
    using sum.lessThan_Suc [of "\<lambda>n. f (Suc n)" 39] by (simp add: numeral_eq_Suc)
  ultimately show ?thesis by (simp add: f_def)
qed



end
