(* ===== verification/BV_PitchSearch.thy ===== *)
theory BV_PitchSearch
  imports BV_PitchRefine
begin

text \<open>
  The search for the coarse pitch period in the BroadVoice16 encoder (\<open>coarptch.c\<close>): the weighted
  signal is filtered and decimated by four, its correlation peaks are found and interpolated, and one
  of the peaks is chosen. All comparisons of quotients of correlation and energy are cross
  multiplications of mantissas with one difference of exponents; \<open>exceeds\<close> is this comparison.
  The parallel arrays of mantissas and exponents are one array of records. The filter memory
  \<open>dfm_h\<close>, \<open>dfm_l\<close> of the coder state, which the C code addresses as one array of eight cells from
  \<open>dfm_h\<close> on, is one array.
\<close>

section \<open>Constants (\<open>bv16cnst.h\<close>)\<close>

definition XDOFF :: nat where "XDOFF = 55"
definition LXD :: nat where "LXD = 65"
definition FRSZD :: nat where "FRSZD = 10"
definition DFO :: nat where "DFO = 4"
definition MAXPPD :: nat where "MAXPPD = 34"
definition MINPPD :: nat where "MINPPD = 2"
definition MAXPPD1 :: nat where "MAXPPD1 = 35"
definition HMAXPPD :: nat where "HMAXPPD = 17"
definition M1 :: nat where "M1 = 1"
definition M2 :: nat where "M2 = 35"
definition HDECF :: nat where "HDECF = 2"
definition TH1 :: int where "TH1 = 23921"
definition TH2 :: int where "TH2 = 13107"
definition LPTH1 :: int where "LPTH1 = 25887"
definition LPTH2 :: int where "LPTH2 = 14090"
definition MPDTH :: int where "MPDTH = 2130"
definition SMDTH :: int where "SMDTH = 3113"
definition MPTH4 :: int where "MPTH4 = 9830"
definition MAX_NPEAKS :: int where "MAX_NPEAKS = 7"

lemmas coarse_const = pitch_const XDOFF_def LXD_def FRSZD_def DFO_def MAXPPD_def MINPPD_def MAXPPD1_def
  HMAXPPD_def M1_def M2_def HDECF_def MAX_NPEAKS_def

section \<open>Lowpass filter and decimation\<close>

text \<open>One sample \<open>v\<close> through the recursive part of the filter, stored at position \<open>p\<close>; one output
  sample after position \<open>p\<close>.\<close>

definition lowpass_sample :: "int \<Rightarrow> int \<Rightarrow> int list \<times> int list \<Rightarrow> (int list \<times> int list) option" where
  "lowpass_sample v p = (\<lambda>(tmp_h, tmp_l). do {
     a0 \<leftarrow> for_up 0 DFO (\<lambda>j a0. do {
       h \<leftarrow> get tmp_h (p - 1 - j); l \<leftarrow> get tmp_l (p - 1 - j);
       fh \<leftarrow> get adf_h (j + 1); fl \<leftarrow> get adf_l (j + 1);
       Some (L_sub a0 (Mpy_32 h l fh fl)) }) (L_shr (L_deposit_h v) 10);
     let a0 = L_shl a0 2;
     let (hi, lo) = L_Extract a0;
     tmp_h \<leftarrow> put tmp_h p hi;
     tmp_l \<leftarrow> put tmp_l p lo;
     Some (tmp_h, tmp_l) })"

definition decimated_sample :: "int list \<Rightarrow> int list \<Rightarrow> int \<Rightarrow> int option" where
  "decimated_sample tmp_h tmp_l p = do {
     h \<leftarrow> get tmp_h (p - 1); l \<leftarrow> get tmp_l (p - 1); c \<leftarrow> get bdf 0;
     for_up 0 DFO (\<lambda>j a0. do {
       h \<leftarrow> get tmp_h (p - 2 - j); l \<leftarrow> get tmp_l (p - 2 - j); c \<leftarrow> get bdf (j + 1);
       Some (L_add a0 (Mpy_32_16 h l c)) }) (Mpy_32_16 h l c) }"

text \<open>The result: the decimated signal \<open>lxwd\<close>, the maximum \<open>a1\<close> and the filter memory.\<close>

definition decimate :: "int list \<Rightarrow> int list \<Rightarrow> (int list \<times> int \<times> int list) option" where
  "decimate xw dfm = do {
     tmp_h \<leftarrow> for_up 0 DFO (\<lambda>i t. do { v \<leftarrow> get dfm (2 * i + 1); put t i v }) (replicate (DFO + FRSZ) 0);
     tmp_l \<leftarrow> for_up 0 DFO (\<lambda>i t. do { v \<leftarrow> get dfm (2 * i); put t i v }) (replicate (DFO + FRSZ) 0);
     (tmp_h, tmp_l, lxwd, a1) \<leftarrow> for_up 0 FRSZD (\<lambda>i (tmp_h, tmp_l, lxwd, a1). do {
       let p = int DFO + i * DECF;
       (tmp_h, tmp_l) \<leftarrow> for_up 0 (nat DECF) (\<lambda>k tmp. do {
         v \<leftarrow> get xw (i * DECF + k);
         lowpass_sample v (p + k) tmp }) (tmp_h, tmp_l);
       a0 \<leftarrow> decimated_sample tmp_h tmp_l (p + DECF);
       lxwd \<leftarrow> put lxwd i a0;
       let a0 = L_abs a0;
       Some (tmp_h, tmp_l, lxwd, if a1 < a0 then a0 else a1) }) (tmp_h, tmp_l, replicate FRSZD 0, 1);
     dfm \<leftarrow> for_up 0 DFO (\<lambda>i dfm. do {
       h \<leftarrow> get tmp_h (int FRSZ + i); l \<leftarrow> get tmp_l (int FRSZ + i);
       dfm \<leftarrow> put dfm (2 * i + 1) h;
       put dfm (2 * i) l }) dfm;
     Some (lxwd, a1, dfm) }"

section \<open>Block floating point\<close>

text \<open>The history and the new samples at a common exponent, and the history for the next frame: the
  signal \<open>xwd\<close>, the new memory \<open>xwd\<close> of the state and its exponent.\<close>

definition rescale_signal :: "int list \<Rightarrow> int \<Rightarrow> int list \<Rightarrow> int \<Rightarrow> (int list \<times> int \<times> int) option" where
  "rescale_signal lxwd a1 cs_xwd xwd_exp = do {
     let new_exp = sub (norm_l a1) 3;
     let ex = sub xwd_exp new_exp;
     let (new_exp, ex) = (if ex < 0 then (xwd_exp, 0) else (new_exp, ex));
     xwd \<leftarrow> for_up 0 XDOFF (\<lambda>i xwd. do { v \<leftarrow> get cs_xwd i; put xwd i (shr_16 v ex) }) (replicate LXD 0);
     xwd \<leftarrow> for_up 0 FRSZD (\<lambda>i xwd. do { v \<leftarrow> get lxwd i; put xwd (int XDOFF + i) (intround (L_shl v new_exp)) }) xwd;
     Some (xwd, new_exp, ex) }"

definition store_signal :: "int list \<Rightarrow> int \<Rightarrow> int \<Rightarrow> int list \<Rightarrow> (int list \<times> int) option" where
  "store_signal xwd new_exp ex cs_xwd = do {
     exp0 \<leftarrow> for_up 0 XDOFF (\<lambda>i exp0. do {
       v \<leftarrow> get xwd (int FRSZD + i);
       let exp1 = abs_s v;
       Some (if exp1 > exp0 then exp1 else exp0) }) 1;
     let exp0 = sub (norm_s exp0) 3;
     let ex = sub exp0 ex;
     cs_xwd \<leftarrow> (if ex \<ge> 0
       then for_up 0 (XDOFF - FRSZD) (\<lambda>i m. do { v \<leftarrow> get m (i + int FRSZD); put m i (shl v ex) }) cs_xwd
       else let ex = s16 (- ex); ex = (if ex \<ge> 15 then 15 else ex)
            in for_up 0 (XDOFF - FRSZD) (\<lambda>i m. do { v \<leftarrow> get m (i + int FRSZD); put m i (shr_16 v ex) }) cs_xwd);
     cs_xwd \<leftarrow> for_up (XDOFF - FRSZD) XDOFF (\<lambda>i m. do {
       v \<leftarrow> get xwd (int FRSZD + i); put m i (shl v exp0) }) cs_xwd;
     Some (cs_xwd, add new_exp exp0) }"

section \<open>Correlations and peaks\<close>

text \<open>The squared correlation, with its sign, and the energy, each as mantissa and exponent.\<close>

record peak =
  pk_cor2 :: int
  pk_cor2_exp :: int
  pk_energy_man :: int
  pk_energy_exp :: int

text \<open>The quotient of \<open>p\<close> is larger than the one of \<open>q\<close>; the second form scales the energy of \<open>p\<close> by
  a threshold in Q15 first, so \<open>p\<close> has to exceed the scaled quotient of \<open>q\<close>.\<close>

definition exceeds :: "peak \<Rightarrow> peak \<Rightarrow> bool" where
  "exceeds p q = (
     let a0 = L_mult (pk_cor2 p) (pk_energy_man q);
         a1 = L_mult (pk_cor2 q) (pk_energy_man p);
         exp0 = shl (sub (pk_cor2_exp p) (pk_cor2_exp q)) 1;
         exp0 = add exp0 (pk_energy_exp q);
         exp0 = sub exp0 (pk_energy_exp p)
     in if exp0 \<ge> 0 then L_shr a0 exp0 > a1 else a0 > L_shl a1 exp0)"

definition exceeds_scaled :: "int \<Rightarrow> peak \<Rightarrow> peak \<Rightarrow> bool" where
  "exceeds_scaled threshold p q =
     exceeds (p\<lparr>pk_energy_man := extract_h (L_mult (pk_energy_man p) threshold)\<rparr>) q"

text \<open>The worst peak, the start of each search for a maximum.\<close>

definition no_peak :: peak where
  "no_peak = \<lparr>pk_cor2 = - 32768, pk_cor2_exp = 0, pk_energy_man = 1, pk_energy_exp = 0\<rparr>"

definition peak_of :: "int \<Rightarrow> int \<Rightarrow> peak" where
  "peak_of c e = (
     let energy_exp = norm_l e;
         energy_man = extract_h (L_shl e energy_exp);
         s0 = norm_l c;
         t0 = extract_h (L_shl c s0);
         cor2 = extract_h (L_mult t0 t0);
         cor2 = (if c < 0 then negate cor2 else cor2)
     in \<lparr>pk_cor2 = cor2, pk_cor2_exp = s0, pk_energy_man = energy_man, pk_energy_exp = energy_exp\<rparr>)"

text \<open>Correlation, energy and peak of each lag.\<close>

definition correlate :: "int list \<Rightarrow> (int list \<times> int list \<times> peak list) option" where
  "correlate xwd = do {
     (a0, a1) \<leftarrow> for_up 0 (LXD - MAXPPD1) (\<lambda>i (a0, a1). do {
       v \<leftarrow> get xwd (int MAXPPD1 - int M1 + i); u \<leftarrow> get xwd (int MAXPPD1 + i);
       Some (L_mac0 a0 v v, L_mac0 a1 u v) }) (0, 0);
     cor \<leftarrow> put (replicate MAXPPD1 0) (int M1 - 1) a1;
     energy \<leftarrow> put (replicate MAXPPD1 0) (int M1 - 1) a0;
     pk \<leftarrow> put (replicate MAXPPD1 no_peak) (int M1 - 1) (peak_of a1 a0);
     (cor, energy, pk, a0) \<leftarrow> for_up M1 M2 (\<lambda>i (cor, energy, pk, a0). do {
       a1 \<leftarrow> for_up 0 (LXD - MAXPPD1) (\<lambda>j a1. do {
         u \<leftarrow> get xwd (int MAXPPD1 + j); v \<leftarrow> get xwd (int MAXPPD1 - i - 1 + j);
         Some (L_mac0 a1 u v) }) 0;
       cor \<leftarrow> put cor i a1;
       u \<leftarrow> get xwd (int LXD - i - 1); v \<leftarrow> get xwd (int MAXPPD1 - i - 1);
       let a0 = L_mac0 (L_msu0 a0 u u) v v;
       energy \<leftarrow> put energy i a0;
       pk \<leftarrow> put pk i (peak_of a1 a0);
       Some (cor, energy, pk, a0) }) (cor, energy, pk, a0);
     Some (cor, energy, pk) }"

text \<open>The lags of the positive peaks, at most seven, with their number.\<close>

definition find_peaks :: "int list \<Rightarrow> peak list \<Rightarrow> (int list \<times> int) option" where
  "find_peaks cor pk = run_break (map int [MINPPD - 1..<MAXPPD]) (\<lambda>n (idx, npeaks).
     if npeaks < MAX_NPEAKS
     then do {
       c \<leftarrow> get cor n;
       if c > 0
       then do {
         p \<leftarrow> get pk n; l \<leftarrow> get pk (n - 1);
         if exceeds p l
         then do {
           r \<leftarrow> get pk (n + 1);
           if exceeds p r
           then do { idx \<leftarrow> put idx npeaks n; Some ((idx, s16 (npeaks + 1)), False) }
           else Some ((idx, npeaks), False) }
         else Some ((idx, npeaks), False) }
       else Some ((idx, npeaks), False) }
     else Some ((idx, npeaks), True)) (replicate (MAXPPD - MINPPD + 1) 0, 0)"

section \<open>Interpolation of the peaks\<close>

text \<open>One of the points right (\<open>sg = 1\<close>) or left (\<open>sg = - 1\<close>) of the peak: the best offset so far,
  the interpolated energy and the best peak.\<close>

definition interpolation_point :: "int \<Rightarrow> int \<Rightarrow> int \<Rightarrow> int \<Rightarrow> int \<Rightarrow> int \<times> int \<times> peak \<Rightarrow> (int \<times> int \<times> peak) option" where
  "interpolation_point sg a b cc k = (\<lambda>(im, eni, m). do {
     let (ah, al) = L_Extract a;
     let (bh, bl) = L_Extract b;
     x2 \<leftarrow> get x2_tab k; x \<leftarrow> get x_tab k;
     let u = Mpy_32_16 ah al x2;
     let v = Mpy_32_16 bh bl x;
     let a0 = L_add (if sg = 1 then L_add u v else L_sub u v) cc;
     let exp0 = norm_l a0;
     let s0 = extract_h (L_shl a0 exp0);
     let s0 = extract_h (L_mult s0 s0);
     let e3 = norm_l eni;
     let t1 = extract_h (L_shl eni e3);
     let c = \<lparr>pk_cor2 = s0, pk_cor2_exp = exp0, pk_energy_man = t1, pk_energy_exp = e3\<rparr>;
     Some (if exceeds c m then (s16 (sg * (k + 1)), eni, c) else (im, eni, m)) })"

text \<open>The offset of the interpolated peak from lag \<open>n\<close> in quarters, and the peak.\<close>

definition interpolate_peak :: "int list \<Rightarrow> int list \<Rightarrow> peak list \<Rightarrow> int \<Rightarrow> (int \<times> peak) option" where
  "interpolate_peak cor energy pk n = do {
     cr \<leftarrow> get cor (n + 1); cl \<leftarrow> get cor (n - 1); cc \<leftarrow> get cor n;
     let a = L_sub (L_shr (L_add cr cl) 1) cc;
     let b = L_shr (L_sub cr cl) 1;
     m \<leftarrow> get pk n; r \<leftarrow> get pk (n + 1); l \<leftarrow> get pk (n - 1);
     eni \<leftarrow> get energy n;
     let sg = (if exceeds r l then 1 else - 1);
     en \<leftarrow> get energy (n + sg);
     let deltae = L_shr (L_sub en eni) 2;
     (im, eni, m) \<leftarrow> for_up 0 HDECF (\<lambda>k (im, eni, m).
       interpolation_point sg a b cc k (im, L_add eni deltae, m)) (0, eni, m);
     Some (im, m) }"

text \<open>The lags of all interpolated peaks, the peaks, and the largest of them with its position.\<close>

definition collect_peaks :: "int list \<Rightarrow> int list \<Rightarrow> peak list \<Rightarrow> int list \<Rightarrow> int \<Rightarrow>
    (int list \<times> peak list \<times> int \<times> peak) option" where
  "collect_peaks cor energy pk idx npeaks = for_range 0 npeaks (\<lambda>i (plag, pki, imax, best). do {
     n \<leftarrow> get idx i;
     (im, m) \<leftarrow> interpolate_peak cor energy pk n;
     plag \<leftarrow> put plag i (add (shl (add n 1) 2) im);
     pki \<leftarrow> put pki i m;
     Some (if exceeds m best then (plag, pki, i, m) else (plag, pki, imax, best)) })
     (replicate HMAXPPD 0, replicate HMAXPPD no_peak, 0, no_peak)"

section \<open>Choice of the pitch period\<close>

text \<open>The largest peak near the last pitch period, or \<open>- 1\<close>.\<close>

definition peak_near_last :: "int list \<Rightarrow> peak list \<Rightarrow> int \<Rightarrow> int \<Rightarrow> (int \<times> peak) option" where
  "peak_near_last plag pki npeaks cpplast = do {
     let maxdev = shr_16 cpplast 2;
     for_range 0 npeaks (\<lambda>i (im, m). do {
       lag \<leftarrow> get plag i; p \<leftarrow> get pki i;
       Some (if abs_s (sub lag cpplast) \<le> maxdev \<and> exceeds p m then (i, p) else (im, m)) }) (- 1, no_peak) }"

text \<open>The peaks from \<open>j\<close> on that lie between \<open>a\<close> and \<open>b\<close>: the position of the first that is large
  enough and 1, or the position of the first beyond \<open>b\<close> and 0.\<close>

definition scan_multiple :: "int list \<Rightarrow> peak list \<Rightarrow> int \<Rightarrow> peak \<Rightarrow> int \<Rightarrow> int \<Rightarrow> int \<Rightarrow> int \<Rightarrow> (int \<times> int) option" where
  "scan_multiple plag pki npeaks best k a b j = run_break (map int [nat j..<nat npeaks]) (\<lambda>j _. do {
     lag \<leftarrow> get plag j;
     if lag > b then Some ((j, 0), True)
     else if lag > a
     then do {
       p \<leftarrow> get pki j;
       t1 \<leftarrow> (if k < 4 then get MPTH k else Some MPTH4);
       if exceeds_scaled t1 p best then Some ((j, 1), True) else Some ((s16 (j + 1), 0), False) }
     else Some ((s16 (j + 1), 0), False) }) (j, 0)"

text \<open>Whether there is a large enough peak near every multiple \<open>s\<close> of the lag.\<close>

partial_function (option) test_multiples :: "int list \<Rightarrow> peak list \<Rightarrow> int \<Rightarrow> peak \<Rightarrow> int \<Rightarrow> int \<Rightarrow>
    int \<Rightarrow> int \<Rightarrow> int \<Rightarrow> bool option" where
  "test_multiples plag pki npeaks best mplth lag s j k = (if s \<le> mplth
     then do {
       let t0 = mult_r s MPDTH;
       (j, mpflag) \<leftarrow> scan_multiple plag pki npeaks best k (sub s t0) (add s t0) j;
       if mpflag = 0 then Some False
       else test_multiples plag pki npeaks best mplth lag (add s lag) j (s16 (k + 1)) }
     else Some True)"

declare test_multiples.simps [code]

text \<open>The first lag in the lower half of the range that has peaks at all its multiples.\<close>

definition fundamental :: "int list \<Rightarrow> peak list \<Rightarrow> int \<Rightarrow> peak \<Rightarrow> int \<Rightarrow> int \<Rightarrow> int option option" where
  "fundamental plag pki npeaks best mplth im = run_break (map int [0..<nat npeaks]) (\<lambda>i _. do {
     lag \<leftarrow> get plag i;
     if 2 * lag < mplth
     then do {
       p \<leftarrow> get pki i;
       if exceeds_scaled (if i \<noteq> im then TH1 else TH2) p best
       then do {
         flag \<leftarrow> test_multiples plag pki npeaks best mplth lag (shl lag 1) (s16 (i + 1)) 0;
         Some (if flag then (Some lag, True) else (None, False)) }
       else Some (None, False) }
     else Some (None, True) }) None"

text \<open>Whether the lag of the last pitch period divides the lag of the largest peak.\<close>

definition submultiple :: "int \<Rightarrow> int \<Rightarrow> bool option" where
  "submultiple lag_im lag_max = run_break (map int [2..<6]) (\<lambda>k _. do {
     c \<leftarrow> get invk (k - 2);
     let s = mult lag_max c;
     let t0 = mult_r s SMDTH;
     let a = sub s t0;
     let b = add s t0;
     Some (if lag_im > a \<and> lag_im < b then (True, True) else (False, False)) }) False"

definition prefer_last :: "int list \<Rightarrow> int \<Rightarrow> peak \<Rightarrow> int \<Rightarrow> peak \<Rightarrow> int option" where
  "prefer_last plag im m imax best = do {
     cpp \<leftarrow> get plag imax;
     if im = - 1 \<or> im = imax then Some cpp
     else do {
       lag \<leftarrow> get plag im;
       if im < imax
       then if exceeds_scaled LPTH2 m best
         then if lag > int HMAXPPD * DECF then Some lag
           else do { yes \<leftarrow> submultiple lag cpp; Some (if yes then lag else cpp) }
         else Some cpp
       else Some (if exceeds_scaled LPTH1 m best then lag else cpp) } }"

definition choose_pitch :: "int list \<Rightarrow> int list \<Rightarrow> peak list \<Rightarrow> int \<Rightarrow> int option" where
  "choose_pitch cor energy pk cpplast = do {
     (idx, npeaks) \<leftarrow> find_peaks cor pk;
     if npeaks = 0 then Some (int MINPPD * DECF)
     else do {
       first \<leftarrow> get idx 0;
       if npeaks = 1 then Some ((first + 1) * DECF)
       else do {
         (plag, pki, imax, best) \<leftarrow> collect_peaks cor energy pk idx npeaks;
         mplth \<leftarrow> get plag (npeaks - 1);
         (im, m) \<leftarrow> peak_near_last plag pki npeaks cpplast;
         fund \<leftarrow> fundamental plag pki npeaks best mplth im;
         case fund of Some lag \<Rightarrow> Some lag | None \<Rightarrow> prefer_last plag im m imax best } } }"

text \<open>The result: the pitch period and the new \<open>xwd\<close>, \<open>xwd_exp\<close> and filter memory of the state.\<close>

definition coarsepitch :: "int list \<Rightarrow> int list \<Rightarrow> int \<Rightarrow> int list \<Rightarrow> int \<Rightarrow>
    (int \<times> int list \<times> int \<times> int list) option" where
  "coarsepitch xw cs_xwd xwd_exp dfm cpplast = do {
     (lxwd, a1, dfm) \<leftarrow> decimate xw dfm;
     (xwd, new_exp, ex) \<leftarrow> rescale_signal lxwd a1 cs_xwd xwd_exp;
     (cs_xwd, xwd_exp) \<leftarrow> store_signal xwd new_exp ex cs_xwd;
     (cor, energy, pk) \<leftarrow> correlate xwd;
     cpp \<leftarrow> choose_pitch cor energy pk cpplast;
     Some (cpp, cs_xwd, xwd_exp, dfm) }"

section \<open>The signal\<close>

lemma L_Extract_types [simp]: "is_s16 (fst (L_Extract x))" "is_s16 (snd (L_Extract x))"
  by (simp_all add: L_Extract_def Let_def)

lemma lowpass_sample_ok:
  assumes "s16_arr 44 h" "s16_arr 44 l" "4 \<le> p" "p < 44"
  shows "\<exists>h' l'. lowpass_sample v p (h, l) = Some (h', l') \<and> s16_arr 44 h' \<and> s16_arr 44 l'"
proof -
  have "\<exists>a. for_up 0 DFO (\<lambda>j a0. do {
       h \<leftarrow> get h (p - 1 - j); l \<leftarrow> get l (p - 1 - j); fh \<leftarrow> get adf_h (j + 1); fl \<leftarrow> get adf_l (j + 1);
       Some (L_sub a0 (Mpy_32 h l fh fl)) }) (L_shr (L_deposit_h v) 10) = Some a \<and> True"
    by (rule for_up_inv [where P = "\<lambda>_. True"]) (use assms in \<open>auto simp: DFO_def\<close>)
  then show ?thesis using assms by (auto simp: lowpass_sample_def split_beta Let_def intro!: arr_update)
qed

lemma decimated_sample_ok:
  assumes "s16_arr 44 h" "s16_arr 44 l" "5 \<le> p" "p \<le> 44"
  shows "\<exists>a. decimated_sample h l p = Some a \<and> is_s32 a"
proof -
  have "\<exists>a. for_up 0 DFO (\<lambda>j a0. do {
       h \<leftarrow> get h (p - 2 - j); l \<leftarrow> get l (p - 2 - j); c \<leftarrow> get bdf (j + 1);
       Some (L_add a0 (Mpy_32_16 h l c)) }) (Mpy_32_16 (h ! nat (p - 1)) (l ! nat (p - 1)) (bdf ! 0)) = Some a \<and> is_s32 a"
    by (rule for_up_inv [where P = is_s32], simp) (use assms in \<open>auto simp: DFO_def\<close>)
  then show ?thesis using assms by (simp add: decimated_sample_def)
qed

lemma decimate_ok:
  assumes "s16_arr 40 xw" "s16_arr 8 dfm"
  shows "\<exists>lxwd a1 dfm'. decimate xw dfm = Some (lxwd, a1, dfm') \<and> s32_arr 10 lxwd \<and> is_s32 a1 \<and> 0 < a1 \<and> s16_arr 8 dfm'"
proof -
  have "\<exists>t. for_up 0 DFO (\<lambda>i t. do { v \<leftarrow> get dfm (2 * i + c); put t i v }) (replicate (DFO + FRSZ) 0) = Some t \<and> s16_arr 44 t"
    if "0 \<le> c" "c \<le> 1" for c
    by (rule for_up_inv [where P = "s16_arr 44"])
      (use assms(2) that in \<open>auto simp: DFO_def FRSZ_def intro!: arr_update s16_nth [OF assms(2)]\<close>)
  from this [of 1] this [of 0] obtain h l where
    h: "for_up 0 DFO (\<lambda>i t. do { v \<leftarrow> get dfm (2 * i + 1); put t i v }) (replicate (DFO + FRSZ) 0) = Some h" "s16_arr 44 h"
    and l: "for_up 0 DFO (\<lambda>i t. do { v \<leftarrow> get dfm (2 * i); put t i v }) (replicate (DFO + FRSZ) 0) = Some l" "s16_arr 44 l" by auto
  let ?P = "\<lambda>(h, l, lxwd, a1). s16_arr 44 h \<and> s16_arr 44 l \<and> s32_arr 10 lxwd \<and> is_s32 a1 \<and> 0 < a1"
  let ?f = "\<lambda>i (tmp_h, tmp_l, lxwd, a1). do {
       let p = int DFO + i * DECF;
       (tmp_h, tmp_l) \<leftarrow> for_up 0 (nat DECF) (\<lambda>k tmp. do {
         v \<leftarrow> get xw (i * DECF + k);
         lowpass_sample v (p + k) tmp }) (tmp_h, tmp_l);
       a0 \<leftarrow> decimated_sample tmp_h tmp_l (p + DECF);
       lxwd \<leftarrow> put lxwd i a0;
       let a0 = L_abs a0;
       Some (tmp_h, tmp_l, lxwd, if a1 < a0 then a0 else a1) }"
  have "\<exists>t. for_up 0 FRSZD ?f (h, l, replicate FRSZD 0, 1) = Some t \<and> ?P t"
  proof (rule for_up_inv [where P = ?P])
    fix i and t :: "int list \<times> int list \<times> int list \<times> int" assume i: "int 0 \<le> i" "i < int FRSZD" and t: "?P t"
    obtain h l w a where t': "t = (h, l, w, a)" by (cases t)
    have T: "s16_arr 44 h" "s16_arr 44 l" "s32_arr 10 w" "is_s32 a" "0 < a" using t t' by auto
    have "\<exists>u. for_up 0 (nat DECF) (\<lambda>k tmp. do {
         v \<leftarrow> get xw (i * DECF + k); lowpass_sample v (int DFO + i * DECF + k) tmp }) (h, l) = Some u \<and>
         (case u of (h, l) \<Rightarrow> s16_arr 44 h \<and> s16_arr 44 l)"
    proof (rule for_up_inv [where P = "\<lambda>(h, l). s16_arr 44 h \<and> s16_arr 44 l"])
      fix k and u :: "int list \<times> int list" assume k: "int 0 \<le> k" "k < int (nat DECF)" and u: "case u of (h, l) \<Rightarrow> s16_arr 44 h \<and> s16_arr 44 l"
      obtain h l where u': "u = (h, l)" "s16_arr 44 h" "s16_arr 44 l" using u by (cases u) auto
      have "get xw (i * DECF + k) = Some (xw ! nat (i * DECF + k))" using assms(1) i k by (simp add: coarse_const)
      moreover have "4 \<le> int DFO + i * DECF + k" "int DFO + i * DECF + k < 44" using i k by (simp_all add: coarse_const)
      ultimately show "\<exists>t. (do { v \<leftarrow> get xw (i * DECF + k); lowpass_sample v (int DFO + i * DECF + k) u }) = Some t \<and>
          (case t of (h, l) \<Rightarrow> s16_arr 44 h \<and> s16_arr 44 l)"
        using lowpass_sample_ok [OF u'(2,3)] u'(1) by fastforce
    qed (use T in simp)
    then obtain h' l' where hl: "for_up 0 (nat DECF) (\<lambda>k tmp. do {
         v \<leftarrow> get xw (i * DECF + k); lowpass_sample v (int DFO + i * DECF + k) tmp }) (h, l) = Some (h', l')"
         "s16_arr 44 h'" "s16_arr 44 l'" by auto
    obtain a0 where a0: "decimated_sample h' l' (int DFO + i * DECF + DECF) = Some a0" "is_s32 a0"
      using decimated_sample_ok [OF hl(2,3), of "int DFO + i * DECF + DECF"] i by (auto simp: coarse_const)
    show "\<exists>u. ?f i t = Some u \<and> ?P u"
      unfolding t' prod.case Let_def hl(1) bind.bind_lunit a0(1) using T hl(2,3) a0(2) i
      by (auto simp: coarse_const intro!: arr_update)
  qed (use h(2) l(2) in \<open>simp add: coarse_const is_s32_def\<close>)
  then obtain h' l' w a where m: "for_up 0 FRSZD ?f (h, l, replicate FRSZD 0, 1) = Some (h', l', w, a)"
    "s16_arr 44 h'" "s16_arr 44 l'" "s32_arr 10 w" "is_s32 a" "0 < a" by auto
  have "\<exists>d. for_up 0 DFO (\<lambda>i dfm. do {
       h \<leftarrow> get h' (int FRSZ + i); l \<leftarrow> get l' (int FRSZ + i);
       dfm \<leftarrow> put dfm (2 * i + 1) h; put dfm (2 * i) l }) dfm = Some d \<and> s16_arr 8 d"
    by (rule for_up_inv [where P = "s16_arr 8"], rule assms(2))
      (use m(2,3) in \<open>auto simp: coarse_const arr_length intro!: arr_update s16_nth [OF m(2)] s16_nth [OF m(3)]\<close>)
  then show ?thesis using m(4-6) unfolding decimate_def h(1) l(1) bind.bind_lunit m(1) prod.case by auto
qed

lemma rescale_signal_ok:
  assumes "s32_arr 10 lxwd" "s16_arr 55 m" "is_s16 e"
  shows "\<exists>xwd n ex. rescale_signal lxwd a1 m e = Some (xwd, n, ex) \<and> s16_arr 65 xwd"
proof -
  have A: "\<exists>t. for_up 0 XDOFF (\<lambda>i xwd. do { v \<leftarrow> get m i; put xwd i (shr_16 v x) }) (replicate LXD 0) = Some t \<and> s16_arr 65 t" for x
    by (rule for_up_inv [where P = "s16_arr 65"])
      (use assms(2) in \<open>auto simp: coarse_const intro!: arr_update shift_types_16 s16_nth [OF assms(2)]\<close>)
  have B: "\<exists>t. for_up 0 FRSZD (\<lambda>i xwd. do { v \<leftarrow> get lxwd i; put xwd (int XDOFF + i) (intround (L_shl v n)) }) s = Some t \<and> s16_arr 65 t"
    if "s16_arr 65 s" for s n
    by (rule for_up_inv [where P = "s16_arr 65"], rule that) (use assms(1) in \<open>auto simp: coarse_const intro!: arr_update\<close>)
  define c where "c = (if sub e (sub (norm_l a1) 3) < 0 then (e, 0) else (sub (norm_l a1) 3, sub e (sub (norm_l a1) 3)))"
  obtain t where t: "for_up 0 XDOFF (\<lambda>i xwd. do { v \<leftarrow> get m i; put xwd i (shr_16 v (snd c)) }) (replicate LXD 0) = Some t" "s16_arr 65 t"
    using A by blast
  obtain u where u: "for_up 0 FRSZD (\<lambda>i xwd. do { v \<leftarrow> get lxwd i; put xwd (int XDOFF + i) (intround (L_shl v (fst c))) }) t = Some u" "s16_arr 65 u"
    using B [OF t(2)] by blast
  have "rescale_signal lxwd a1 m e = Some (u, fst c, snd c) \<and> s16_arr 65 u"
    unfolding rescale_signal_def Let_def split_beta c_def [symmetric] using t u by simp
  then show ?thesis by blast
qed

lemma store_signal_ok:
  assumes "s16_arr 65 xwd" "s16_arr 55 m"
  shows "\<exists>m' e. store_signal xwd n ex m = Some (m', e) \<and> s16_arr 55 m' \<and> is_s16 e"
proof -
  have "\<exists>t. for_up 0 XDOFF (\<lambda>i exp0. do {
       v \<leftarrow> get xwd (int FRSZD + i);
       Some (if abs_s v > exp0 then abs_s v else exp0) }) 1 = Some t \<and> True"
    by (rule for_up_inv [where P = "\<lambda>_. True"]) (use assms in \<open>auto simp: coarse_const\<close>)
  then obtain t where t: "for_up 0 XDOFF (\<lambda>i exp0. do {
       v \<leftarrow> get xwd (int FRSZD + i);
       Some (if abs_s v > exp0 then abs_s v else exp0) }) 1 = Some t" by blast
  have "\<exists>u. for_up 0 (XDOFF - FRSZD) (\<lambda>i m. do { v \<leftarrow> get m (i + int FRSZD); put m i (f v) }) m = Some u \<and> s16_arr 55 u"
    if f: "\<And>v. is_s16 v \<Longrightarrow> is_s16 (f v)" for f
  proof (rule for_up_inv [where P = "s16_arr 55"])
    fix i u assume i: "int 0 \<le> i" "i < int (XDOFF - FRSZD)" and u: "s16_arr 55 u"
    then have "get u (i + int FRSZD) = Some (u ! nat (i + int FRSZD))" "is_s16 (u ! nat (i + int FRSZD))"
      by (auto simp: coarse_const intro!: s16_nth [OF u])
    then show "\<exists>t. (do { v \<leftarrow> get u (i + int FRSZD); put u i (f v) }) = Some t \<and> s16_arr 55 t"
      using i u f by (auto simp: coarse_const intro!: arr_update)
  qed (rule assms(2))
  from this [of "\<lambda>v. shl v (sub (sub (norm_s t) 3) ex)"] this [of "\<lambda>v. shr_16 v k" for k]
  have "\<exists>u. (if sub (sub (norm_s t) 3) ex \<ge> 0
       then for_up 0 (XDOFF - FRSZD) (\<lambda>i m. do { v \<leftarrow> get m (i + int FRSZD); put m i (shl v (sub (sub (norm_s t) 3) ex)) }) m
       else let e = s16 (- sub (sub (norm_s t) 3) ex); e = (if e \<ge> 15 then 15 else e)
            in for_up 0 (XDOFF - FRSZD) (\<lambda>i m. do { v \<leftarrow> get m (i + int FRSZD); put m i (shr_16 v e) }) m) = Some u \<and> s16_arr 55 u"
    by (simp add: Let_def)
  then obtain u where u: "(if sub (sub (norm_s t) 3) ex \<ge> 0
       then for_up 0 (XDOFF - FRSZD) (\<lambda>i m. do { v \<leftarrow> get m (i + int FRSZD); put m i (shl v (sub (sub (norm_s t) 3) ex)) }) m
       else let e = s16 (- sub (sub (norm_s t) 3) ex); e = (if e \<ge> 15 then 15 else e)
            in for_up 0 (XDOFF - FRSZD) (\<lambda>i m. do { v \<leftarrow> get m (i + int FRSZD); put m i (shr_16 v e) }) m) = Some u" "s16_arr 55 u"
    by blast
  have "\<exists>w. for_up (XDOFF - FRSZD) XDOFF (\<lambda>i m. do { v \<leftarrow> get xwd (int FRSZD + i); put m i (shl v (sub (norm_s t) 3)) }) u = Some w \<and> s16_arr 55 w"
    by (rule for_up_inv [where P = "s16_arr 55"], rule u(2))
      (use assms(1) in \<open>auto simp: coarse_const intro!: arr_update shift_types_16 s16_nth [OF assms(1)]\<close>)
  then show ?thesis unfolding store_signal_def Let_def t bind.bind_lunit u(1) [unfolded Let_def] by auto
qed

section \<open>The peaks\<close>

lemma correlate_ok:
  assumes "s16_arr 65 xwd"
  shows "\<exists>cor energy pk. correlate xwd = Some (cor, energy, pk) \<and> length cor = 35 \<and> length energy = 35 \<and> length pk = 35"
proof -
  have len: "length xwd = 65" using assms by (rule arr_length)
  have "\<exists>t. for_up 0 (LXD - MAXPPD1) (\<lambda>i (a0, a1). do {
       v \<leftarrow> get xwd (int MAXPPD1 - int M1 + i); u \<leftarrow> get xwd (int MAXPPD1 + i);
       Some (L_mac0 a0 v v, L_mac0 a1 u v) }) (0, 0) = Some t \<and> True"
    by (rule for_up_inv [where P = "\<lambda>_. True"]) (use len in \<open>auto simp: coarse_const\<close>)
  then obtain a0 a1 where a: "for_up 0 (LXD - MAXPPD1) (\<lambda>i (a0, a1). do {
       v \<leftarrow> get xwd (int MAXPPD1 - int M1 + i); u \<leftarrow> get xwd (int MAXPPD1 + i);
       Some (L_mac0 a0 v v, L_mac0 a1 u v) }) (0, 0) = Some (a0, a1)" by auto
  have c: "\<exists>c. for_up 0 (LXD - MAXPPD1) (\<lambda>j a1. do {
         u \<leftarrow> get xwd (int MAXPPD1 + j); v \<leftarrow> get xwd (int MAXPPD1 - i - 1 + j);
         Some (L_mac0 a1 u v) }) 0 = Some c" if i: "1 \<le> i" "i < 35" for i
  proof -
    have "\<exists>c. for_up 0 (LXD - MAXPPD1) (\<lambda>j a1. do {
         u \<leftarrow> get xwd (int MAXPPD1 + j); v \<leftarrow> get xwd (int MAXPPD1 - i - 1 + j);
         Some (L_mac0 a1 u v) }) 0 = Some c \<and> True"
      by (rule for_up_inv [where P = "\<lambda>_. True"]) (use len i in \<open>auto simp: coarse_const\<close>)
    then show ?thesis by blast
  qed
  let ?P = "\<lambda>(cor, energy, pk, a0). length cor = 35 \<and> length energy = 35 \<and> length pk = (35 :: nat)"
  let ?f = "\<lambda>i (cor, energy, pk, a0). do {
       a1 \<leftarrow> for_up 0 (LXD - MAXPPD1) (\<lambda>j a1. do {
         u \<leftarrow> get xwd (int MAXPPD1 + j); v \<leftarrow> get xwd (int MAXPPD1 - i - 1 + j);
         Some (L_mac0 a1 u v) }) 0;
       cor \<leftarrow> put cor i a1;
       u \<leftarrow> get xwd (int LXD - i - 1); v \<leftarrow> get xwd (int MAXPPD1 - i - 1);
       let a0 = L_mac0 (L_msu0 a0 u u) v v;
       energy \<leftarrow> put energy i a0;
       pk \<leftarrow> put pk i (peak_of a1 a0);
       Some (cor, energy, pk, a0) }"
  let ?s = "((replicate 35 0)[0 := a1], (replicate 35 0)[0 := a0], (replicate 35 no_peak)[0 := peak_of a1 a0], a0)"
  have "\<exists>t. for_up M1 M2 ?f ?s = Some t \<and> ?P t"
  proof (rule for_up_inv [where P = ?P])
    fix i and s :: "int list \<times> int list \<times> peak list \<times> int"
    assume i: "int M1 \<le> i" "i < int M2" and s: "?P s"
    obtain co en pk a where s': "s = (co, en, pk, a)" by (cases s)
    obtain c where c: "for_up 0 (LXD - MAXPPD1) (\<lambda>j a1. do {
         u \<leftarrow> get xwd (int MAXPPD1 + j); v \<leftarrow> get xwd (int MAXPPD1 - i - 1 + j);
         Some (L_mac0 a1 u v) }) 0 = Some c" using c [of i] i by (auto simp: coarse_const)
    show "\<exists>t. ?f i s = Some t \<and> ?P t"
      unfolding s' prod.case c bind.bind_lunit using i s s' len by (simp add: coarse_const Let_def)
  qed simp
  then obtain co en pk b where l: "for_up M1 M2 ?f ?s = Some (co, en, pk, b)" "length co = 35" "length en = 35" "length pk = 35" by auto
  have p: "put (replicate MAXPPD1 0) (int M1 - 1) v = Some ((replicate 35 0)[0 := v])" for v :: int by (simp add: coarse_const)
  have q: "put (replicate MAXPPD1 no_peak) (int M1 - 1) v = Some ((replicate 35 no_peak)[0 := v])" for v by (simp add: coarse_const)
  show ?thesis unfolding correlate_def a bind.bind_lunit prod.case p q l(1) using l(2-4) by simp
qed

lemma find_peaks_ok:
  assumes "length cor = 35" "length pk = 35"
  shows "\<exists>idx np. find_peaks cor pk = Some (idx, np) \<and> 0 \<le> np \<and> np \<le> 7 \<and> length idx = 33 \<and>
    (\<forall>i<nat np. 1 \<le> idx ! i \<and> idx ! i \<le> 33)"
proof -
  let ?P = "\<lambda>(idx, np). 0 \<le> np \<and> np \<le> (7 :: int) \<and> length idx = 33 \<and> (\<forall>i<nat np. 1 \<le> idx ! i \<and> idx ! i \<le> (33 :: int))"
  let ?f = "\<lambda>n (idx, npeaks).
     if npeaks < MAX_NPEAKS
     then do {
       c \<leftarrow> get cor n;
       if c > 0
       then do {
         p \<leftarrow> get pk n; l \<leftarrow> get pk (n - 1);
         if exceeds p l
         then do {
           r \<leftarrow> get pk (n + 1);
           if exceeds p r
           then do { idx \<leftarrow> put idx npeaks n; Some ((idx, s16 (npeaks + 1)), False) }
           else Some ((idx, npeaks), False) }
         else Some ((idx, npeaks), False) }
       else Some ((idx, npeaks), False) }
     else Some ((idx, npeaks), True)"
  have "\<exists>t. run_break (map int [MINPPD - 1..<MAXPPD]) ?f (replicate (MAXPPD - MINPPD + 1) 0, 0) = Some t \<and> ?P t"
  proof (rule run_break_inv [where P = ?P])
    fix n and s :: "int list \<times> int" assume n: "n \<in> set (map int [MINPPD - 1..<MAXPPD])" and s: "?P s"
    obtain idx np where s': "s = (idx, np)" by (cases s)
    have n': "1 \<le> n" "n \<le> 33" using n by (auto simp: coarse_const)
    have P: "0 \<le> np" "np \<le> 7" "length idx = 33" "\<forall>i<nat np. 1 \<le> idx ! i \<and> idx ! i \<le> 33" using s s' by auto
    have g: "get cor n = Some (cor ! nat n)" "get pk n = Some (pk ! nat n)" "get pk (n - 1) = Some (pk ! nat (n - 1))"
      "get pk (n + 1) = Some (pk ! nat (n + 1))" using n' assms by simp_all
    have u: "?P (idx[nat np := n], s16 (np + 1))" if "np < 7"
    proof -
      have "s16 (np + 1) = np + 1" using P that by (intro s16_idI) auto
      moreover have "nat (np + 1) = Suc (nat np)" using P by simp
      ultimately show ?thesis using P that n' by (auto simp: nth_list_update less_Suc_eq)
    qed
    have p: "put idx np n = Some (idx[nat np := n])" if "np < 7" using P that by simp
    show "\<exists>t b. ?f n s = Some (t, b) \<and> (if b then ?P t else ?P t)"
    proof (cases "np < 7")
      case True
      then show ?thesis unfolding s' prod.case g bind.bind_lunit p [OF True]
        using u [OF True] s [unfolded s'] by (auto simp: MAX_NPEAKS_def)
    next
      case False
      then show ?thesis using s s' by (auto simp: MAX_NPEAKS_def)
    qed
  qed (simp_all add: coarse_const)
  then show ?thesis by (auto simp: find_peaks_def)
qed

lemma interpolate_peak_ok:
  assumes "length cor = 35" "length energy = 35" "length pk = 35" "1 \<le> n" "n \<le> 33"
  shows "\<exists>im m. interpolate_peak cor energy pk n = Some (im, m) \<and> - 2 \<le> im \<and> im \<le> 2"
proof -
  have I: "\<exists>t. for_up 0 HDECF (\<lambda>k (im, eni, m). interpolation_point sg a b cc k (im, L_add eni d, m)) (0, e, m) = Some t \<and>
      (case t of (im, _) \<Rightarrow> - 2 \<le> im \<and> im \<le> 2)" if sg: "sg = 1 \<or> sg = - 1" for sg a b cc d e m
  proof (rule for_up_inv [where P = "\<lambda>(im, _). - 2 \<le> im \<and> im \<le> 2"])
    fix k and t :: "int \<times> int \<times> peak" assume k: "int 0 \<le> k" "k < int HDECF" and t: "case t of (im, _) \<Rightarrow> - 2 \<le> im \<and> im \<le> 2"
    have "- 2 \<le> s16 (sg * (k + 1)) \<and> s16 (sg * (k + 1)) \<le> 2" using k sg by (auto simp: HDECF_def s16_idI)
    then show "\<exists>t'. (case t of (im, eni, m) \<Rightarrow> interpolation_point sg a b cc k (im, L_add eni d, m)) = Some t' \<and>
        (case t' of (im, _) \<Rightarrow> - 2 \<le> im \<and> im \<le> 2)"
      using k t by (auto simp: interpolation_point_def split_beta Let_def HDECF_def)
  qed simp
  have "get cor (n + 1) = Some (cor ! nat (n + 1))" "get cor (n - 1) = Some (cor ! nat (n - 1))" "get cor n = Some (cor ! nat n)"
    "get pk (n + 1) = Some (pk ! nat (n + 1))" "get pk (n - 1) = Some (pk ! nat (n - 1))" "get pk n = Some (pk ! nat n)"
    "get energy n = Some (energy ! nat n)" "get energy (n + 1) = Some (energy ! nat (n + 1))"
    "get energy (n - 1) = Some (energy ! nat (n - 1))" using assms by simp_all
  note g = this
  define sg :: int where "sg = (if exceeds (pk ! nat (n + 1)) (pk ! nat (n - 1)) then 1 else - 1)"
  have sg: "sg = 1 \<or> sg = - 1" by (simp add: sg_def)
  then have e: "get energy (n + sg) = Some (energy ! nat (n + sg))" using g by auto
  obtain im eni m where "for_up 0 HDECF (\<lambda>k (im, eni, m). interpolation_point sg
      (L_sub (L_shr (L_add (cor ! nat (n + 1)) (cor ! nat (n - 1))) 1) (cor ! nat n))
      (L_shr (L_sub (cor ! nat (n + 1)) (cor ! nat (n - 1))) 1) (cor ! nat n) k
      (im, L_add eni (L_shr (L_sub (energy ! nat (n + sg)) (energy ! nat n)) 2), m)) (0, energy ! nat n, pk ! nat n) = Some (im, eni, m)"
    "- 2 \<le> im" "im \<le> 2" using I [OF sg] by fastforce
  then show ?thesis unfolding interpolate_peak_def g bind.bind_lunit Let_def sg_def [symmetric] e by simp
qed

definition lag_range :: "int list \<Rightarrow> int \<Rightarrow> bool" where
  "lag_range plag np \<longleftrightarrow> length plag = 17 \<and> (\<forall>i<nat np. 6 \<le> plag ! i \<and> plag ! i \<le> 138)"

lemma lag_range_get: "lag_range plag np \<Longrightarrow> np \<le> 7 \<Longrightarrow> 0 \<le> i \<Longrightarrow> i < np \<Longrightarrow>
    get plag i = Some (plag ! nat i) \<and> 6 \<le> plag ! nat i \<and> plag ! nat i \<le> 138"
  by (auto simp: lag_range_def get_def)

lemma collect_peaks_ok:
  assumes "length cor = 35" "length energy = 35" "length pk = 35" "1 \<le> np" "np \<le> 7" "length idx = 33"
    and "\<forall>i<nat np. 1 \<le> idx ! i \<and> idx ! i \<le> 33"
  shows "\<exists>plag pki imax best. collect_peaks cor energy pk idx np = Some (plag, pki, imax, best) \<and>
    lag_range plag np \<and> length pki = 17 \<and> 0 \<le> imax \<and> imax < np"
proof -
  let ?P = "\<lambda>i (plag, pki, imax, best). lag_range plag i \<and> length pki = (17 :: nat) \<and> 0 \<le> imax \<and> imax < np"
  let ?f = "\<lambda>i (plag, pki, imax, best). do {
     n \<leftarrow> get idx i;
     (im, m) \<leftarrow> interpolate_peak cor energy pk n;
     plag \<leftarrow> put plag i (add (shl (add n 1) 2) im);
     pki \<leftarrow> put pki i m;
     Some (if exceeds m best then (plag, pki, i, m) else (plag, pki, imax, best)) }"
  have "\<exists>t. for_range 0 np ?f (replicate HMAXPPD 0, replicate HMAXPPD no_peak, 0, no_peak) = Some t \<and> ?P np t"
  proof (rule for_range_rule [where P = ?P])
    fix i and t :: "int list \<times> peak list \<times> int \<times> peak" assume i: "0 \<le> i" "i < np" and t: "?P i t"
    obtain plag pki imax best where t': "t = (plag, pki, imax, best)" by (cases t)
    define n where "n = idx ! nat i"
    have n: "get idx i = Some n" "1 \<le> n" "n \<le> 33" using i assms by (auto simp: n_def)
    obtain im m where im: "interpolate_peak cor energy pk n = Some (im, m)" "- 2 \<le> im" "im \<le> 2"
      using interpolate_peak_ok [OF assms(1-3) n(2,3)] by blast
    have "add (shl (add n 1) 2) im = 4 * (n + 1) + im"
      using n im by (simp add: add_eq shl_left is_s16_def clamp_id)
    then have l: "6 \<le> add (shl (add n 1) 2) im" "add (shl (add n 1) 2) im \<le> 138" using n im by simp_all
    have L: "length plag = 17" "\<forall>j<nat i. 6 \<le> plag ! j \<and> plag ! j \<le> 138" using t t' by (auto simp: lag_range_def)
    have p: "put plag i v = Some (plag[nat i := v])" for v using i assms(5) L by simp
    have q: "put pki i v = Some (pki[nat i := v])" for v using i assms(5) t t' by simp
    have "nat (i + 1) = Suc (nat i)" using i by simp
    then have "lag_range (plag[nat i := add (shl (add n 1) 2) im]) (i + 1)"
      using L l i assms(5) by (auto simp: lag_range_def nth_list_update less_Suc_eq)
    then show "\<exists>u. ?f i t = Some u \<and> ?P (i + 1) u"
      unfolding t' prod.case n(1) bind.bind_lunit im(1) p q using t t' i by simp
  qed (use assms in \<open>simp_all add: coarse_const lag_range_def\<close>)
  then show ?thesis by (auto simp: collect_peaks_def)
qed

section \<open>The choice ends\<close>

lemma peak_near_last_ok:
  assumes "lag_range plag np" "np \<le> 7" "1 \<le> np" "length pki = 17"
  shows "\<exists>im m. peak_near_last plag pki np c = Some (im, m) \<and> - 1 \<le> im \<and> im < np"
proof -
  let ?f = "\<lambda>i (im, m). do {
     lag \<leftarrow> get plag i; p \<leftarrow> get pki i;
     Some (if abs_s (sub lag c) \<le> shr_16 c 2 \<and> exceeds p m then (i, p) else (im, m)) }"
  have "\<exists>t. for_range 0 np ?f (- 1, no_peak) = Some t \<and> (case t of (im, m) \<Rightarrow> - 1 \<le> im \<and> im < np)"
  proof (rule for_range_inv [where P = "\<lambda>(im, m). - 1 \<le> im \<and> im < np"])
    fix i and t :: "int \<times> peak" assume i: "0 \<le> i" "i < np" and t: "case t of (im, m) \<Rightarrow> - 1 \<le> im \<and> im < np"
    show "\<exists>u. ?f i t = Some u \<and> (case u of (im, m) \<Rightarrow> - 1 \<le> im \<and> im < np)"
      using lag_range_get [OF assms(1,2) i] assms i t by (auto split: prod.splits)
  qed (use assms in simp)
  then show ?thesis by (auto simp: peak_near_last_def Let_def)
qed

lemma scan_multiple_ok:
  assumes "lag_range plag np" "np \<le> 7" "length pki = 17" "0 \<le> k" "0 \<le> j" "j \<le> np"
  shows "\<exists>j' f. scan_multiple plag pki np best k a b j = Some (j', f) \<and> 0 \<le> j' \<and> j' \<le> np"
proof -
  let ?P = "\<lambda>(j, f). 0 \<le> j \<and> j \<le> np"
  obtain t1 where t1: "(if k < 4 then get MPTH k else Some MPTH4) = Some t1" using assms(4) by (cases "k < 4") auto
  let ?f = "\<lambda>j _. do {
     lag \<leftarrow> get plag j;
     if lag > b then Some ((j, 0), True)
     else if lag > a
     then do {
       p \<leftarrow> get pki j;
       t1 \<leftarrow> (if k < 4 then get MPTH k else Some MPTH4);
       if exceeds_scaled t1 p best then Some ((j, 1), True) else Some ((s16 (j + 1), 0), False) }
     else Some ((s16 (j + 1), 0), False) }"
  have "\<exists>t. run_break (map int [nat j..<nat np]) ?f (j, 0 :: int) = Some t \<and> ?P t"
  proof (rule run_break_inv [where P = ?P])
    fix i and s :: "int \<times> int" assume "i \<in> set (map int [nat j..<nat np])"
    then have i: "0 \<le> i" "i < np" by auto
    have "s16 (i + 1) = i + 1" using i assms(2) by (intro s16_idI) auto
    then show "\<exists>t c. ?f i s = Some (t, c) \<and> (if c then ?P t else ?P t)"
      using lag_range_get [OF assms(1,2) i] assms(2,3) i unfolding t1 by auto
  qed (use assms in auto)
  then show ?thesis by (auto simp: scan_multiple_def)
qed

text \<open>The multiples of a lag are exhausted: each turn of the loop moves \<open>s\<close> up by the lag, and \<open>s\<close>
  stays below the largest lag as long as the loop runs.\<close>

lemma test_multiples_ends:
  assumes "lag_range plag np" "np \<le> 7" "length pki = 17" "6 \<le> lag" "lag \<le> 138" "mplth \<le> 138"
    and "0 \<le> k" "k \<le> s" "0 \<le> s" "s \<le> 276" "0 \<le> j" "j \<le> np"
  shows "\<exists>f. test_multiples plag pki np best mplth lag s j k = Some f"
  using assms(7-12)
proof (induction "nat (277 - s)" arbitrary: s j k rule: less_induct)
  case less
  show ?case
  proof (cases "s \<le> mplth")
    case True
    then have s: "s \<le> 138" using assms(6) by simp
    obtain j' f where sc: "scan_multiple plag pki np best k (sub s (mult_r s MPDTH)) (add s (mult_r s MPDTH)) j = Some (j', f)"
      "0 \<le> j'" "j' \<le> np" using scan_multiple_ok [OF assms(1-3) less.prems(1,5,6)] by blast
    show ?thesis
    proof (cases "f = 0")
      case True
      then show ?thesis using sc by (subst test_multiples.simps) (auto simp: Let_def)
    next
      case False
      have a: "add s lag = s + lag" using s less.prems assms(4,5) by (simp add: add_eq is_s16_def clamp_id)
      have k: "s16 (k + 1) = k + 1" using s less.prems by (intro s16_idI) auto
      have "\<exists>f. test_multiples plag pki np best mplth lag (add s lag) j' (s16 (k + 1)) = Some f"
        unfolding a k by (rule less.hyps) (use s less.prems assms(4,5) sc in auto)
      then show ?thesis using sc False \<open>s \<le> mplth\<close> by (subst test_multiples.simps) (simp add: Let_def)
    qed
  next
    case False
    then show ?thesis by (subst test_multiples.simps) auto
  qed
qed

lemma fundamental_ok:
  assumes "lag_range plag np" "np \<le> 7" "length pki = 17" "mplth \<le> 138"
  shows "\<exists>r. fundamental plag pki np best mplth im = Some r \<and> (\<forall>lag. r = Some lag \<longrightarrow> 6 \<le> lag \<and> lag \<le> 138)"
  unfolding fundamental_def
proof (rule run_break_inv [where P = "\<lambda>r. r = None"])
  fix i and r :: "int option" assume "i \<in> set (map int [0..<nat np])" and r: "r = None"
  then have i: "0 \<le> i" "i < np" by auto
  define lag where "lag = plag ! nat i"
  have l: "get plag i = Some lag" "6 \<le> lag" "lag \<le> 138" using lag_range_get [OF assms(1,2) i] by (simp_all add: lag_def)
  have p: "get pki i = Some (pki ! nat i)" using i assms(2,3) by simp
  have s: "shl lag 1 = 2 * lag" using l by (simp add: shl_left is_s16_def clamp_id)
  have j: "s16 (i + 1) = i + 1" using i assms(2) by (intro s16_idI) auto
  obtain f where f: "test_multiples plag pki np best mplth lag (shl lag 1) (s16 (i + 1)) 0 = Some f"
    unfolding s j using test_multiples_ends [OF assms(1-3) l(2,3) assms(4), of 0 "2 * lag" "i + 1" best] l i by auto
  show "\<exists>t b. (do { lag \<leftarrow> get plag i;
     if 2 * lag < mplth
     then do {
       p \<leftarrow> get pki i;
       if exceeds_scaled (if i \<noteq> im then TH1 else TH2) p best
       then do {
         flag \<leftarrow> test_multiples plag pki np best mplth lag (shl lag 1) (s16 (i + 1)) 0;
         Some (if flag then (Some lag, True) else (None, False)) }
       else Some (None, False) }
     else Some (None, True) }) = Some (t, b) \<and>
     (if b then \<forall>lag. t = Some lag \<longrightarrow> 6 \<le> lag \<and> lag \<le> 138 else t = None)"
    unfolding l(1) bind.bind_lunit p f using l by auto
qed simp_all

lemma submultiple_ok: "\<exists>b. submultiple x y = Some b"
proof -
  have "\<exists>b. submultiple x y = Some b \<and> True"
    unfolding submultiple_def by (rule run_break_inv [where P = "\<lambda>_. True"]) (auto simp: Let_def)
  then show ?thesis by blast
qed

lemma prefer_last_ok:
  assumes "lag_range plag np" "np \<le> 7" "- 1 \<le> im" "im < np" "0 \<le> imax" "imax < np"
  shows "\<exists>c. prefer_last plag im m imax best = Some c \<and> 6 \<le> c \<and> c \<le> 138"
proof -
  have c: "get plag imax = Some (plag ! nat imax)" "6 \<le> plag ! nat imax" "plag ! nat imax \<le> 138"
    using lag_range_get [OF assms(1,2,5,6)] by simp_all
  show ?thesis
  proof (cases "im = - 1 \<or> im = imax")
    case True
    then show ?thesis using c by (simp add: prefer_last_def)
  next
    case False
    then have l: "get plag im = Some (plag ! nat im)" "6 \<le> plag ! nat im" "plag ! nat im \<le> 138"
      using lag_range_get [OF assms(1,2), of im] assms(3,4) by auto
    obtain y where "submultiple (plag ! nat im) (plag ! nat imax) = Some y" using submultiple_ok by blast
    then show ?thesis using False c l by (simp add: prefer_last_def)
  qed
qed

lemma choose_pitch_ok:
  assumes "length cor = 35" "length energy = 35" "length pk = 35"
  shows "\<exists>c. choose_pitch cor energy pk cpplast = Some c \<and> 6 \<le> c \<and> c \<le> 138"
proof -
  obtain idx np where f: "find_peaks cor pk = Some (idx, np)" "0 \<le> np" "np \<le> 7" "length idx = 33"
    "\<forall>i<nat np. 1 \<le> idx ! i \<and> idx ! i \<le> 33" using find_peaks_ok [OF assms(1,3)] by blast
  consider "np = 0" | "np = 1" | "2 \<le> np" using f(2) by linarith
  then show ?thesis
  proof cases
    case 1
    then show ?thesis using f(1) by (simp add: choose_pitch_def coarse_const)
  next
    case 2
    then show ?thesis using f by (simp add: choose_pitch_def coarse_const)
  next
    case 3
    then have np: "1 \<le> np" "np \<noteq> 0" "np \<noteq> 1" by simp_all
    obtain plag pki imax best where p: "collect_peaks cor energy pk idx np = Some (plag, pki, imax, best)"
      "lag_range plag np" "length pki = 17" "0 \<le> imax" "imax < np"
      using collect_peaks_ok [OF assms np(1) f(3-5)] by blast
    have m: "get plag (np - 1) = Some (plag ! nat (np - 1))" "plag ! nat (np - 1) \<le> 138"
      using lag_range_get [OF p(2) f(3), of "np - 1"] np by simp_all
    obtain im q where n: "peak_near_last plag pki np cpplast = Some (im, q)" "- 1 \<le> im" "im < np"
      using peak_near_last_ok [OF p(2) f(3) np(1) p(3)] by blast
    obtain r where r: "fundamental plag pki np best (plag ! nat (np - 1)) im = Some r"
      "\<forall>lag. r = Some lag \<longrightarrow> 6 \<le> lag \<and> lag \<le> 138" using fundamental_ok [OF p(2) f(3) p(3) m(2)] by blast
    obtain c where c: "prefer_last plag im q imax best = Some c" "6 \<le> c" "c \<le> 138"
      using prefer_last_ok [OF p(2) f(3) n(2,3) p(4,5)] by blast
    have z: "get idx 0 = Some (idx ! 0)" using f(4) by simp
    show ?thesis unfolding choose_pitch_def f(1) bind.bind_lunit prod.case z p(1) m(1) n(1) r(1)
      using np r(2) c by (cases r) auto
  qed
qed

lemma coarsepitch_ok:
  assumes "s16_arr 40 xw" "s16_arr 55 m" "is_s16 e" "s16_arr 8 dfm"
  shows "\<exists>cpp m' e' dfm'. coarsepitch xw m e dfm cpplast = Some (cpp, m', e', dfm') \<and> 6 \<le> cpp \<and> cpp \<le> 138 \<and>
    s16_arr 55 m' \<and> is_s16 e' \<and> s16_arr 8 dfm'"
proof -
  obtain lxwd a1 dfm' where d: "decimate xw dfm = Some (lxwd, a1, dfm')" "s32_arr 10 lxwd" "s16_arr 8 dfm'"
    using decimate_ok [OF assms(1,4)] by blast
  obtain xwd n ex where s: "rescale_signal lxwd a1 m e = Some (xwd, n, ex)" "s16_arr 65 xwd"
    using rescale_signal_ok [OF d(2) assms(2,3)] by blast
  obtain m' e' where t: "store_signal xwd n ex m = Some (m', e')" "s16_arr 55 m'" "is_s16 e'"
    using store_signal_ok [OF s(2) assms(2)] by blast
  obtain cor energy pk where c: "correlate xwd = Some (cor, energy, pk)" "length cor = 35" "length energy = 35" "length pk = 35"
    using correlate_ok [OF s(2)] by blast
  obtain cpp where "choose_pitch cor energy pk cpplast = Some cpp" "6 \<le> cpp" "cpp \<le> 138" using choose_pitch_ok [OF c(2-4)] by blast
  then show ?thesis using d s t c by (simp add: coarsepitch_def)
qed



end
