(* ===== verification/BV_EncExc.thy ===== *)
theory BV_EncExc
  imports BV_Synthesis
begin

text \<open>
  The noise feedback coding of the excitation in the BroadVoice16 encoder (\<open>excquan.c\<close>): responses of
  the filters to the code vectors and to their memory, the search of the code book and the update of
  the memories. The encoder runs the synthesis of the decoder: \<open>ltsym\<close> and \<open>buf1\<close> are the arrays of
  \<open>excdec.c\<close>. A pointer argument \<open>&buf1[m]\<close> is the array with the offset \<open>m\<close>; \<open>MAXPP1\<close> is
  \<open>LTMOFF\<close>. Local arrays start as zeros, each cell is written before it is read.
\<close>

definition MAXPP1 :: nat where "MAXPP1 = 138"
definition NSTORDER :: nat where "NSTORDER = 8"

lemmas exc_const = syn_const MAXPP1_def NSTORDER_def

section \<open>Filter responses\<close>

text \<open>The short-term predictor over the last \<open>k\<close> cells before \<open>p\<close>, and the pole-zero noise
  feedback filter.\<close>

definition prediction_sum :: "int list \<Rightarrow> int \<Rightarrow> nat \<Rightarrow> int list \<Rightarrow> int option" where
  "prediction_sum buf p k aq = for_down 1 (k + 1) (\<lambda>n a0. do {
     v \<leftarrow> get buf (p - n); c \<leftarrow> get aq n;
     Some (L_msu a0 v c) }) 0"

definition noise_feedback :: "int list \<Rightarrow> int list \<Rightarrow> int \<Rightarrow> nat \<Rightarrow> int list \<Rightarrow> int list \<Rightarrow> int option" where
  "noise_feedback buf2 buf3 p k fsz fsp = for_down 1 (k + 1) (\<lambda>n a1. do {
     u \<leftarrow> get buf2 (p - n); z \<leftarrow> get fsz n;
     let a1 = L_mac a1 u z;
     v \<leftarrow> get buf3 (p - n); q \<leftarrow> get fsp n;
     Some (L_msu a1 v q) }) 0"

text \<open>The negated zero-state responses of the 16 code vectors.\<close>

definition zsr_sample :: "int list \<Rightarrow> int list \<Rightarrow> int list \<Rightarrow> int list \<Rightarrow> int \<Rightarrow> int \<Rightarrow>
    int list \<times> int list \<times> int list \<times> int list \<Rightarrow> (int list \<times> int list \<times> int list \<times> int list) option" where
  "zsr_sample cb aq fsz fsp j i = (\<lambda>(qzsr, buf1, buf2, buf3). do {
     a0 \<leftarrow> prediction_sum buf1 i (nat i) aq;
     let a0 = L_shl a0 3;
     c \<leftarrow> get cb (j * int VDIM + i);
     let a0 = L_add a0 (L_deposit_h c);
     buf1 \<leftarrow> put buf1 i (intround a0);
     a1 \<leftarrow> noise_feedback buf2 buf3 i (nat i) fsz fsp;
     let a1 = L_shl a1 3;
     buf3 \<leftarrow> put buf3 i (intround a1);
     let a0 = L_add a0 a1;
     buf2 \<leftarrow> put buf2 i (negate (intround a0));
     qzsr \<leftarrow> put qzsr (j * int VDIM + i) (intround (L_shr a0 1));
     Some (qzsr, buf1, buf2, buf3) })"

definition vq2snfc_zsr_codebook :: "int list \<Rightarrow> int list \<Rightarrow> int list \<Rightarrow> int list \<Rightarrow> int list option" where
  "vq2snfc_zsr_codebook cb aq fsz fsp = do {
     (qzsr, buf1, buf2, buf3) \<leftarrow> for_up 0 CBSZ (\<lambda>j. for_up 0 VDIM (zsr_sample cb aq fsz fsp j))
       (replicate (VDIM * CBSZ) 0, replicate VDIM 0, replicate VDIM 0, replicate VDIM 0);
     Some qzsr }"

text \<open>Pitch prediction and long-term noise feedback for the four samples from \<open>m\<close>: \<open>ltfv\<close>, \<open>ppv\<close>.\<close>

definition vq2snfc_ppv :: "int list \<Rightarrow> int list \<Rightarrow> int \<Rightarrow> int \<Rightarrow> int list \<Rightarrow> int \<Rightarrow> (int list \<times> int list) option" where
  "vq2snfc_ppv ltsym ltnfm m pp b beta = for_up 0 VDIM (\<lambda>n (ltfv, ppv). do {
     a0 \<leftarrow> pitch_prediction ltsym (int MAXPP1 + m - pp + n) b;
     ppv \<leftarrow> put ppv n a0;
     v \<leftarrow> get ltnfm (int MAXPP1 + m - pp + n);
     let a1 = L_mult v beta;
     let a1 = L_shl a1 2;
     ltfv \<leftarrow> put ltfv n (L_add a0 a1);
     Some (ltfv, ppv) }) (replicate VDIM 0, replicate VDIM 0)"

text \<open>The zero-input response: \<open>qzir\<close> and the buffers with their provisional contents.\<close>

definition zir_sample :: "int list \<Rightarrow> int list \<Rightarrow> int list \<Rightarrow> int list \<Rightarrow> int list \<Rightarrow> int list \<Rightarrow> int \<Rightarrow> int \<Rightarrow> int \<Rightarrow> int \<Rightarrow>
    int list \<times> int list \<times> int list \<times> int list \<Rightarrow> (int list \<times> int list \<times> int list \<times> int list) option" where
  "zir_sample ppv ltfv aq fsz fsp s so m gexpm3 n = (\<lambda>(qzir, buf1, buf2, buf3). do {
     a0 \<leftarrow> short_term_prediction buf1 (m + n) aq;
     let a0 = L_shl a0 3;
     a1 \<leftarrow> noise_feedback buf2 buf3 (m + n + int NSTORDER) NSTORDER fsz fsp;
     let a1 = L_shl a1 3;
     buf3 \<leftarrow> put buf3 (m + n + int NSTORDER) (intround a1);
     x \<leftarrow> get s (so + m + n);
     let a2 = L_deposit_h x;
     let a2 = L_sub a2 a0;
     let a2 = L_sub a2 a1;
     l \<leftarrow> get ltfv n;
     qzir \<leftarrow> put qzir n (intround (L_shl (L_sub a2 l) gexpm3));
     p \<leftarrow> get ppv n;
     let a0 = L_add a0 p;
     buf1 \<leftarrow> put buf1 (m + n + int LPCO) (intround a0);
     let a2 = L_sub a2 p;
     buf2 \<leftarrow> put buf2 (m + n + int NSTORDER) (intround a2);
     Some (qzir, buf1, buf2, buf3) })"

definition vq2snfc_zir :: "int list \<Rightarrow> int list \<Rightarrow> int list \<Rightarrow> int list \<Rightarrow> int list \<Rightarrow> int list \<Rightarrow> int list \<Rightarrow> int list \<Rightarrow>
    int list \<Rightarrow> int \<Rightarrow> int \<Rightarrow> int \<Rightarrow> (int list \<times> int list \<times> int list \<times> int list) option" where
  "vq2snfc_zir ppv ltfv aq buf1 buf2 buf3 fsz fsp s so m gexpm3 =
     for_up 0 VDIM (zir_sample ppv ltfv aq fsz fsp s so m gexpm3) (replicate VDIM 0, buf1, buf2, buf3)"

section \<open>Search and update\<close>

text \<open>The energy of the response with a sign, and the best code vector: index and sign.\<close>

definition response_energy :: "int list \<Rightarrow> int list \<Rightarrow> int \<Rightarrow> int \<Rightarrow> int option" where
  "response_energy qzsr qzir sign j = for_up 0 VDIM (\<lambda>n E. do {
     u \<leftarrow> get qzir n;
     v \<leftarrow> get qzsr (j * int VDIM + n);
     let e = (if sign = 1 then sub (shl u 2) v else add (shl u 2) v);
     Some (L_mac0 E e e) }) 0"

definition vq2snfc_vq :: "int list \<Rightarrow> int list \<Rightarrow> (int \<times> int) option" where
  "vq2snfc_vq qzsr qzir = do {
     (Emin, jmin, sign) \<leftarrow> for_up 0 CBSZ (\<lambda>j (Emin, jmin, sign). do {
       E \<leftarrow> response_energy qzsr qzir 1 j;
       let (Emin, jmin, sign) = (if L_sub E Emin < 0 then (E, j, 1) else (Emin, jmin, sign));
       E \<leftarrow> response_energy qzsr qzir (- 1) j;
       Some (if L_sub E Emin < 0 then (E, j, - 1) else (Emin, jmin, sign)) }) (MAX_32, 0, 1);
     Some (jmin, sign) }"

text \<open>The memories: long-term synthesis and noise feedback, then the three buffers.\<close>

type_synonym exc_memory = "int list \<times> int list \<times> int list \<times> int list \<times> int list"

definition update_sample :: "int list \<Rightarrow> int \<Rightarrow> int list \<Rightarrow> int list \<Rightarrow> int list \<Rightarrow> int list \<Rightarrow> int list \<Rightarrow> int list \<Rightarrow> int \<Rightarrow>
    int \<Rightarrow> int \<Rightarrow> exc_memory \<Rightarrow> exc_memory option" where
  "update_sample s so aq fsz fsp uq ppv ltfv gain_exp m n = (\<lambda>(ltsym, ltnfm, buf1, buf2, buf3). do {
     u \<leftarrow> get uq n;
     let uq32 = L_shr (L_deposit_h u) gain_exp;
     p \<leftarrow> get ppv n;
     let vq = L_add p uq32;
     ltsym \<leftarrow> put ltsym (int MAXPP1 + m + n) (intround vq);
     a0 \<leftarrow> short_term_prediction buf1 (m + n) aq;
     let a0 = L_shl a0 3;
     buf1 \<leftarrow> put buf1 (m + n + int LPCO) (intround (L_add a0 vq));
     a1 \<leftarrow> noise_feedback buf2 buf3 (m + n + int NSTORDER) NSTORDER fsz fsp;
     let a1 = L_shl a1 3;
     buf3 \<leftarrow> put buf3 (m + n + int NSTORDER) (intround a1);
     x \<leftarrow> get s (so + m + n);
     let v = L_sub (L_sub (L_deposit_h x) a0) a1;
     let qs = L_sub v vq;
     buf2 \<leftarrow> put buf2 (m + n + int NSTORDER) (intround qs);
     l \<leftarrow> get ltfv n;
     ltnfm \<leftarrow> put ltnfm (int MAXPP1 + m + n) (intround (L_sub (L_sub v l) uq32));
     Some (ltsym, ltnfm, buf1, buf2, buf3) })"

definition vq2snfc_update_mem :: "int list \<Rightarrow> int \<Rightarrow> int list \<Rightarrow> int list \<Rightarrow> int list \<Rightarrow> int list \<Rightarrow> int list \<Rightarrow> int list \<Rightarrow> int \<Rightarrow>
    int \<Rightarrow> exc_memory \<Rightarrow> exc_memory option" where
  "vq2snfc_update_mem s so aq fsz fsp uq ppv ltfv gain_exp m =
     for_up 0 VDIM (update_sample s so aq fsz fsp uq ppv ltfv gain_exp m)"

text \<open>The excitation vector of the encoder: the code vector times its sign.\<close>

definition signed_vector :: "int list \<Rightarrow> int \<Rightarrow> int \<Rightarrow> int list option" where
  "signed_vector cb jmin sign = for_up 0 VDIM (\<lambda>n uq. do {
     v \<leftarrow> get cb (jmin * int VDIM + n);
     put uq n (s16 (sign * v)) }) (replicate VDIM 0)"

definition code_one_vector :: "int list \<Rightarrow> int \<Rightarrow> int list \<Rightarrow> int list \<Rightarrow> int list \<Rightarrow> int list \<Rightarrow> int \<Rightarrow> int list \<Rightarrow> int \<Rightarrow>
    int \<Rightarrow> int list \<Rightarrow> int \<Rightarrow> exc_memory \<times> int list \<Rightarrow> (exc_memory \<times> int list) option" where
  "code_one_vector s so aq fsz fsp b beta cb pp gain_exp qzsr j = (\<lambda>((ltsym, ltnfm, buf1, buf2, buf3), idx). do {
     let m = j * int VDIM;
     (ltfv, ppv) \<leftarrow> vq2snfc_ppv ltsym ltnfm m pp b beta;
     (qzir, buf1, buf2, buf3) \<leftarrow> vq2snfc_zir ppv ltfv aq buf1 buf2 buf3 fsz fsp s so m (sub gain_exp 3);
     (jmin, sign) \<leftarrow> vq2snfc_vq qzsr qzir;
     idx \<leftarrow> put idx j (if sign = - 1 then jmin + int CBSZ else jmin);
     uq \<leftarrow> signed_vector cb jmin sign;
     mem \<leftarrow> vq2snfc_update_mem s so aq fsz fsp uq ppv ltfv gain_exp m (ltsym, ltnfm, buf1, buf2, buf3);
     Some (mem, idx) })"

text \<open>The result: \<open>idx\<close>, \<open>stsym\<close>, \<open>ltsym\<close>, \<open>ltnfm\<close>, \<open>stnfz\<close>, \<open>stnfp\<close>.\<close>

definition excquan :: "int list \<Rightarrow> int list \<Rightarrow> int \<Rightarrow> int list \<Rightarrow> int list \<Rightarrow> int list \<Rightarrow> int list \<Rightarrow> int \<Rightarrow> int list \<Rightarrow>
    int list \<Rightarrow> int list \<Rightarrow> int list \<Rightarrow> int list \<Rightarrow> int list \<Rightarrow> int \<Rightarrow> int \<Rightarrow>
    (int list \<times> int list \<times> int list \<times> int list \<times> int list \<times> int list) option" where
  "excquan idx s so aq fsz fsp b beta stsym ltsym ltnfm stnfz stnfp cb pp gain_exp = do {
     buf1 \<leftarrow> W16copy (replicate (LPCO + FRSZ) 0) 0 stsym 0 LPCO;
     buf2 \<leftarrow> W16copy (replicate (NSTORDER + FRSZ) 0) 0 stnfz 0 NSTORDER;
     buf3 \<leftarrow> W16copy (replicate (NSTORDER + FRSZ) 0) 0 stnfp 0 NSTORDER;
     qzsr \<leftarrow> vq2snfc_zsr_codebook cb aq fsz fsp;
     ((ltsym, ltnfm, buf1, buf2, buf3), idx) \<leftarrow>
       for_up 0 (FRSZ div VDIM) (code_one_vector s so aq fsz fsp b beta cb pp gain_exp qzsr)
         ((ltsym, ltnfm, buf1, buf2, buf3), idx);
     stsym \<leftarrow> W16copy stsym 0 buf1 FRSZ LPCO;
     stnfz \<leftarrow> W16copy stnfz 0 buf2 FRSZ NSTORDER;
     stnfp \<leftarrow> W16copy stnfp 0 buf3 FRSZ NSTORDER;
     Some (idx, stsym, ltsym, ltnfm, stnfz, stnfp) }"

section \<open>No access out of bounds\<close>

lemma prediction_sum_ok:
  assumes "s16_arr m buf" "0 \<le> p" "p \<le> int m" "int k \<le> p" "s16_arr 9 aq" "k \<le> 8"
  shows "\<exists>a. prediction_sum buf p k aq = Some a \<and> is_s32 a"
  unfolding prediction_sum_def
  by (rule for_down_inv [where P = is_s32]) (use assms in auto)

lemma noise_feedback_ok:
  assumes "s16_arr m buf2" "s16_arr m buf3" "p \<le> int m" "int k \<le> p" "s16_arr 9 fsz" "s16_arr 9 fsp" "k \<le> 8"
  shows "\<exists>a. noise_feedback buf2 buf3 p k fsz fsp = Some a \<and> is_s32 a"
  unfolding noise_feedback_def
  by (rule for_down_inv [where P = is_s32]) (use assms in \<open>auto simp: Let_def\<close>)

lemma zsr_codebook_ok:
  assumes "s16_arr 64 cb" "s16_arr 9 aq" "s16_arr 9 fsz" "s16_arr 9 fsp"
  shows "\<exists>q. vq2snfc_zsr_codebook cb aq fsz fsp = Some q \<and> s16_arr 64 q"
proof -
  let ?P = "\<lambda>(q, b1, b2, b3). s16_arr 64 q \<and> s16_arr 4 b1 \<and> s16_arr 4 b2 \<and> s16_arr 4 b3"
  have step: "\<exists>t. zsr_sample cb aq fsz fsp j i st = Some t \<and> ?P t"
    if "0 \<le> j" "j < 16" "0 \<le> i" "i < 4" "?P st" for i j st
  proof -
    obtain q b1 b2 b3 where st: "st = (q, b1, b2, b3)" by (cases st)
    have b: "s16_arr 64 q" "s16_arr 4 b1" "s16_arr 4 b2" "s16_arr 4 b3" using that(5) by (simp_all add: st)
    have i0: "0 \<le> i" and i: "i \<le> int 4" "int (nat i) \<le> i" "nat i \<le> 8" using that by simp_all
    obtain a where a: "prediction_sum b1 i (nat i) aq = Some a"
      using prediction_sum_ok [OF b(2) i0 i(1,2) assms(2) i(3)] by blast
    obtain c where c: "noise_feedback b2 b3 i (nat i) fsz fsp = Some c"
      using noise_feedback_ok [OF b(3,4) i(1,2) assms(3,4) i(3)] by blast
    show ?thesis using that b assms by (auto simp: zsr_sample_def st a c Let_def VDIM_def intro!: arr_update)
  qed
  have "\<exists>t. for_up 0 CBSZ (\<lambda>j. for_up 0 VDIM (zsr_sample cb aq fsz fsp j))
      (replicate (VDIM * CBSZ) 0, replicate VDIM 0, replicate VDIM 0, replicate VDIM 0) = Some t \<and> ?P t"
  proof (rule for_up_inv [where P = ?P])
    fix j st assume j: "int 0 \<le> j" "j < int CBSZ" and st: "?P st"
    show "\<exists>t. for_up 0 VDIM (zsr_sample cb aq fsz fsp j) st = Some t \<and> ?P t"
      by (rule for_up_inv [where P = ?P]) (use j st step in \<open>auto simp: VDIM_def CBSZ_def\<close>)
  qed (simp add: VDIM_def CBSZ_def)
  then show ?thesis by (auto simp: vq2snfc_zsr_codebook_def)
qed

lemma ppv_ok:
  assumes "s16_arr 178 ltsym" "s16_arr 178 ltnfm" "0 \<le> m" "m \<le> 36" "MINPP \<le> pp" "pp \<le> MAXPP" "s16_arr 3 b"
  shows "\<exists>l p. vq2snfc_ppv ltsym ltnfm m pp b beta = Some (l, p) \<and> s32_arr 4 l \<and> s32_arr 4 p \<and>
    (\<forall>n<4. pitch_prediction ltsym (138 + m - pp + int n) b = Some (p ! n))"
proof -
  let ?P = "\<lambda>i (l, p). s32_arr 4 l \<and> s32_arr 4 p \<and> (\<forall>n<i. pitch_prediction ltsym (138 + m - pp + int n) b = Some (p ! n))"
  have "\<exists>t. vq2snfc_ppv ltsym ltnfm m pp b beta = Some t \<and> ?P VDIM t"
    unfolding vq2snfc_ppv_def
  proof (rule for_up_rule [where P = ?P])
    fix i :: nat and t :: "int list \<times> int list"
    assume i: "i < VDIM" and P: "?P i t"
    obtain l p where t: "t = (l, p)" by (cases t)
    have lp: "s32_arr 4 l" "s32_arr 4 p" "length p = 4" using P by (auto simp: t arr_length)
    obtain a where a: "pitch_prediction ltsym (138 + m - pp + int i) b = Some a" "is_s32 a"
      using pitch_prediction_ok [OF assms(1), of "138 + m - pp + int i" b] assms i by (auto simp: syn_const)
    show "\<exists>t'. (case t of (ltfv, ppv) \<Rightarrow> do { a0 \<leftarrow> pitch_prediction ltsym (int MAXPP1 + m - pp + int i) b;
         ppv \<leftarrow> put ppv (int i) a0; v \<leftarrow> get ltnfm (int MAXPP1 + m - pp + int i); let a1 = L_mult v beta;
         let a1 = L_shl a1 2; ltfv \<leftarrow> put ltfv (int i) (L_add a0 a1); Some (ltfv, ppv) }) = Some t' \<and> ?P (Suc i) t'"
      using i P lp a assms by (auto simp: t MAXPP1_def Let_def syn_const nth_list_update less_Suc_eq intro!: arr_update)
  qed (simp_all add: VDIM_def)
  then show ?thesis by (auto simp: VDIM_def)
qed

text \<open>The first \<open>k\<close> cells of two arrays agree.\<close>

definition agree :: "nat \<Rightarrow> int list \<Rightarrow> int list \<Rightarrow> bool" where
  "agree k xs ys \<longleftrightarrow> length xs = length ys \<and> (\<forall>i<k. xs ! i = ys ! i)"

lemma agree_refl [simp]: "agree k xs xs"
  by (simp add: agree_def)

lemma agree_mono: "agree k xs ys \<Longrightarrow> j \<le> k \<Longrightarrow> agree j xs ys"
  by (simp add: agree_def)

lemma agree_update: "agree k xs ys \<Longrightarrow> k < length xs \<Longrightarrow> agree (Suc k) (xs[k := v]) (ys[k := v])"
  by (auto simp: agree_def nth_list_update less_Suc_eq)

lemma agree_beyond: "k \<le> j \<Longrightarrow> agree k xs ys \<Longrightarrow> agree k (xs[j := v]) ys"
  by (auto simp: agree_def)

lemma agree_all: "agree k xs ys \<Longrightarrow> length xs \<le> k \<Longrightarrow> xs = ys"
  by (auto simp: agree_def intro: nth_equalityI)

lemma agree_sym: "agree k xs ys \<longleftrightarrow> agree k ys xs"
  by (auto simp: agree_def)

lemma get_agree: "agree k xs ys \<Longrightarrow> i < int k \<Longrightarrow> get xs i = get ys i"
  by (auto simp: get_def agree_def)

lemma pitch_prediction_agree:
  "agree k xs ys \<Longrightarrow> i + 1 < int k \<Longrightarrow> pitch_prediction xs i b = pitch_prediction ys i b"
  using get_agree [of k xs ys i] get_agree [of k xs ys "i + 1"] get_agree [of k xs ys "i - 1"]
  by (simp add: pitch_prediction_def)

lemma short_term_prediction_agree:
  assumes "agree k xs ys" "n + 8 \<le> int k"
  shows "short_term_prediction xs n aq = short_term_prediction ys n aq"
  unfolding short_term_prediction_def for_down_def
  by (rule run_loop_cong) (use assms get_agree [OF assms(1)] in \<open>auto simp: LPCO_def\<close>)

lemma zir_ok:
  assumes "s32_arr 4 ppv" "s32_arr 4 ltfv" "s16_arr 9 aq" "s16_arr 48 b1" "s16_arr 48 b2" "s16_arr 48 b3"
    "s16_arr 9 fsz" "s16_arr 9 fsp" "s16_arr k s" "0 \<le> so" "so + 40 \<le> int k" "0 \<le> m" "m \<le> 36"
  shows "\<exists>q c1 c2 c3. vq2snfc_zir ppv ltfv aq b1 b2 b3 fsz fsp s so m g = Some (q, c1, c2, c3) \<and> s16_arr 4 q \<and>
    s16_arr 48 c1 \<and> s16_arr 48 c2 \<and> s16_arr 48 c3 \<and> agree (nat m + 8) c1 b1"
proof -
  let ?P = "\<lambda>(q, c1, c2, c3). s16_arr 4 q \<and> s16_arr 48 c1 \<and> s16_arr 48 c2 \<and> s16_arr 48 c3 \<and> agree (nat m + 8) c1 b1"
  have "\<exists>t. vq2snfc_zir ppv ltfv aq b1 b2 b3 fsz fsp s so m g = Some t \<and> ?P t"
    unfolding vq2snfc_zir_def
  proof (rule for_up_inv [where P = ?P])
    fix n and t :: "int list \<times> int list \<times> int list \<times> int list"
    assume n: "int 0 \<le> n" "n < int VDIM" and P: "?P t"
    obtain q c1 c2 c3 where t: "t = (q, c1, c2, c3)" by (cases t)
    have b: "s16_arr 4 q" "s16_arr 48 c1" "s16_arr 48 c2" "s16_arr 48 c3" "agree (nat m + 8) c1 b1" using P by (simp_all add: t)
    obtain a where a: "short_term_prediction c1 (m + n) aq = Some a"
      using short_term_prediction_ok [OF b(2), of "m + n" aq] assms n by (auto simp: VDIM_def)
    obtain c where c: "noise_feedback c2 c3 (m + n + int NSTORDER) NSTORDER fsz fsp = Some c"
      using noise_feedback_ok [OF b(3,4), of "m + n + int NSTORDER" NSTORDER fsz fsp] assms n by (auto simp: VDIM_def NSTORDER_def)
    have "nat m + 8 \<le> nat (m + n + 8)" using n assms by simp
    then show "\<exists>t'. zir_sample ppv ltfv aq fsz fsp s so m g n t = Some t' \<and> ?P t'"
      using n b assms
      by (auto simp: zir_sample_def t a c Let_def VDIM_def c [unfolded NSTORDER_def, simplified] NSTORDER_def LPCO_def
          intro!: arr_update agree_beyond)
  qed (use assms in \<open>simp add: VDIM_def\<close>)
  then show ?thesis by auto
qed

lemma response_energy_ok:
  assumes "s16_arr 64 q" "s16_arr 4 z" "0 \<le> j" "j < 16"
  shows "\<exists>E. response_energy q z s j = Some E \<and> is_s32 E"
  unfolding response_energy_def
  by (rule for_up_inv [where P = is_s32]) (use assms in \<open>auto simp: VDIM_def Let_def\<close>)

lemma vq_ok:
  assumes "s16_arr 64 q" "s16_arr 4 z"
  shows "\<exists>j s. vq2snfc_vq q z = Some (j, s) \<and> 0 \<le> j \<and> j < 16 \<and> (s = 1 \<or> s = - 1)"
proof -
  let ?P = "\<lambda>(E, j, s). 0 \<le> j \<and> j < (16 :: int) \<and> (s = 1 \<or> s = (- 1 :: int))"
  have "\<exists>t. for_up 0 CBSZ (\<lambda>j (Emin, jmin, sign). do {
       E \<leftarrow> response_energy q z 1 j;
       let (Emin, jmin, sign) = (if L_sub E Emin < 0 then (E, j, 1) else (Emin, jmin, sign));
       E \<leftarrow> response_energy q z (- 1) j;
       Some (if L_sub E Emin < 0 then (E, j, - 1) else (Emin, jmin, sign)) }) (MAX_32, 0, 1) = Some t \<and> ?P t"
  proof (rule for_up_inv [where P = ?P])
    fix j and t :: "int \<times> int \<times> int"
    assume j: "int 0 \<le> j" "j < int CBSZ" and t: "?P t"
    obtain e1 where e1: "response_energy q z 1 j = Some e1" using response_energy_ok [OF assms] j by (auto simp: CBSZ_def)
    obtain e2 where e2: "response_energy q z (- 1) j = Some e2" using response_energy_ok [OF assms] j by (auto simp: CBSZ_def)
    show "\<exists>t'. (case t of (Emin, jmin, sign) \<Rightarrow> do {
       E \<leftarrow> response_energy q z 1 j;
       let (Emin, jmin, sign) = (if L_sub E Emin < 0 then (E, j, 1) else (Emin, jmin, sign));
       E \<leftarrow> response_energy q z (- 1) j;
       Some (if L_sub E Emin < 0 then (E, j, - 1) else (Emin, jmin, sign)) }) = Some t' \<and> ?P t'"
      using j t by (cases t) (auto simp: e1 e2 CBSZ_def Let_def)
  qed simp
  then show ?thesis by (auto simp: vq2snfc_vq_def)
qed

text \<open>The excitation vector that the decoder reads for the index of the encoder. The smallest 16 bit
  number, which \<open>negate\<close> limits and the product with the sign wraps, must not occur.\<close>

lemma signed_vector_eq:
  assumes "s16_arr 64 cb" "0 \<le> j" "j < 16" "s = 1 \<or> s = - 1" "- 32768 \<notin> set cb"
  shows "excitation_vector cb (if s = - 1 then j + int CBSZ else j) = signed_vector cb j s"
proof -
  have v: "is_s16 (cb ! i)" "cb ! i \<noteq> - 32768" if "i < 64" for i
  proof -
    show "is_s16 (cb ! i)" using assms(1) that by (rule s16_nth)
    have "cb ! i \<in> set cb" using that arr_length [OF assms(1)] by (intro nth_mem) simp
    then show "cb ! i \<noteq> - 32768" using assms(5) by metis
  qed
  have "for_up 0 VDIM (\<lambda>n uq. do { v \<leftarrow> get cb (j * int VDIM + n); put uq n (negate v) }) (replicate VDIM 0)
     = for_up 0 VDIM (\<lambda>n uq. do { v \<leftarrow> get cb (j * int VDIM + n); put uq n (s16 (- 1 * v)) }) (replicate VDIM 0)"
    unfolding for_up_def
  proof (rule run_loop_cong)
    fix i and u :: "int list" assume "i \<in> set (map int [0..<VDIM])"
    then have i: "0 \<le> i" "i < 4" by (auto simp: VDIM_def)
    then have "nat (j * 4 + i) < 64" using assms(2,3) by simp
    then have "negate (cb ! nat (j * 4 + i)) = s16 (- 1 * cb ! nat (j * 4 + i))" using v by (simp add: negate_def limits_def)
    then show "(do { v \<leftarrow> get cb (j * int VDIM + i); put u i (negate v) }) = (do { v \<leftarrow> get cb (j * int VDIM + i); put u i (s16 (- 1 * v)) })"
      using i assms by (simp add: VDIM_def)
  qed
  moreover have "for_up 0 VDIM (\<lambda>n uq. do { v \<leftarrow> get cb (j * int VDIM + n); put uq n v }) (replicate VDIM 0)
     = for_up 0 VDIM (\<lambda>n uq. do { v \<leftarrow> get cb (j * int VDIM + n); put uq n (s16 (1 * v)) }) (replicate VDIM 0)"
    unfolding for_up_def
  proof (rule run_loop_cong)
    fix i and u :: "int list" assume "i \<in> set (map int [0..<VDIM])"
    then have i: "0 \<le> i" "i < 4" by (auto simp: VDIM_def)
    then have "nat (j * 4 + i) < 64" using assms(2,3) by simp
    then show "(do { v \<leftarrow> get cb (j * int VDIM + i); put u i v }) = (do { v \<leftarrow> get cb (j * int VDIM + i); put u i (s16 (1 * v)) })"
      using i assms v by (simp add: VDIM_def)
  qed
  ultimately show ?thesis using assms(2-4) by (auto simp: excitation_vector_def signed_vector_def CBSZ_def s16_idI)
qed

section \<open>The encoder runs the decoder\<close>

lemma L_add_commute: "is_s32 x \<Longrightarrow> is_s32 y \<Longrightarrow> L_add x y = L_add y x"
  by (simp add: L_add_eq add.commute)

definition memory_ok :: "exc_memory \<Rightarrow> bool" where
  "memory_ok mem \<longleftrightarrow> (case mem of (lt, nf, b1, b2, b3) \<Rightarrow> s16_arr 178 lt \<and> s16_arr 178 nf \<and> s16_arr 48 b1 \<and>
     s16_arr 48 b2 \<and> s16_arr 48 b3)"

text \<open>What the search works on: the signal and the filters.\<close>

definition filters_ok :: "nat \<Rightarrow> int list \<Rightarrow> int \<Rightarrow> int list \<Rightarrow> int list \<Rightarrow> int list \<Rightarrow> bool" where
  "filters_ok k s so aq fsz fsp \<longleftrightarrow> s16_arr k s \<and> 0 \<le> so \<and> so + 40 \<le> int k \<and> s16_arr 9 aq \<and> s16_arr 9 fsz \<and> s16_arr 9 fsp"

lemma filters_okD:
  assumes "filters_ok k s so aq fsz fsp"
  shows "s16_arr k s" "0 \<le> so" "so + 40 \<le> int k" "s16_arr 9 aq" "s16_arr 9 fsz" "s16_arr 9 fsp"
  using assms by (simp_all add: filters_ok_def)

lemma update_sample_core:
  assumes "memory_ok (lt, nf, b1, b2, b3)" "filters_ok k s so aq fsz fsp"
    and "s16_arr 4 uq" "s32_arr 4 ppv" "s32_arr 4 ltfv" "0 \<le> m" "m \<le> 36" "0 \<le> n" "n < 4"
  shows "\<exists>nf' b2' b3' a. short_term_prediction b1 (m + n) aq = Some a \<and>
    update_sample s so aq fsz fsp uq ppv ltfv g m n (lt, nf, b1, b2, b3) = Some
      (lt[nat (138 + (m + n)) := intround (L_add (ppv ! nat n) (L_shr (L_deposit_h (uq ! nat n)) g))], nf',
       b1[nat (m + n + 8) := intround (L_add (L_shl a 3) (L_add (ppv ! nat n) (L_shr (L_deposit_h (uq ! nat n)) g)))], b2', b3') \<and>
    s16_arr 178 nf' \<and> s16_arr 48 b2' \<and> s16_arr 48 b3' \<and> is_s32 a"
proof -
  note F = filters_okD [OF assms(2)]
  have b: "s16_arr 178 lt" "s16_arr 178 nf" "s16_arr 48 b1" "s16_arr 48 b2" "s16_arr 48 b3"
    using assms(1) by (simp_all add: memory_ok_def)
  obtain a where a: "short_term_prediction b1 (m + n) aq = Some a" "is_s32 a"
    using short_term_prediction_ok [OF b(3), of "m + n" aq] assms F by auto
  obtain c where c: "noise_feedback b2 b3 (m + n + int NSTORDER) NSTORDER fsz fsp = Some c"
    using noise_feedback_ok [OF b(4,5), of "m + n + int NSTORDER" NSTORDER fsz fsp] assms F by (auto simp: NSTORDER_def)
  have e: "138 + m + n = 138 + (m + n)" by simp
  show ?thesis using assms(3-) b F a
    by (auto simp: update_sample_def c c [unfolded NSTORDER_def, simplified] Let_def NSTORDER_def LPCO_def MAXPP1_def e
        intro!: arr_update)
qed

lemma synthesis_step_core:
  assumes "synthesis_ok (lt, b1, E)" "s16_arr 4 uq" "0 \<le> m" "m \<le> 36" "0 \<le> n" "n < 4"
    and "pitch_prediction lt (138 + (m + n) - pp) b = Some p" "short_term_prediction b1 (m + n) aq = Some a"
  shows "\<exists>E'. synthesis_step aq b pp g uq m (m + n) (lt, b1, E) = Some
      (lt[nat (138 + (m + n)) := intround (L_add (L_shr (L_deposit_h (uq ! nat n)) g) p)],
       b1[nat (m + n + 8) := intround (L_add (L_add (L_shr (L_deposit_h (uq ! nat n)) g) p) (L_shl a 3))], E') \<and>
    is_s32 E' \<and> 0 \<le> E'"
proof -
  have b: "s16_arr 178 lt" "s16_arr 48 b1" "is_s32 E" "0 \<le> E" using assms(1) by (simp_all add: synthesis_ok_def)
  have "short_term_prediction (b1[k := v]) n' aq = short_term_prediction (b1[k := v]) n' aq" for k v n' ..
  have e: "int LTMOFF + (m + n) = 138 + (m + n)" "int LPCO = 8" by (simp_all add: LTMOFF_def LPCO_def)
  show ?thesis using assms b unfolding synthesis_step_def e by (simp add: Let_def L_mac0_square)
qed

text \<open>Encoder and decoder agree on what is decoded so far.\<close>

definition in_step :: "nat \<Rightarrow> exc_memory \<Rightarrow> int list \<times> int list \<times> int \<Rightarrow> bool" where
  "in_step j mem dec \<longleftrightarrow> memory_ok mem \<and> synthesis_ok dec \<and> agree (138 + j) (fst mem) (fst dec) \<and>
     agree (8 + j) (fst (snd (snd mem))) (fst (snd dec))"

lemma vector_in_step:
  assumes "in_step (nat m) (lt, nf, b1, b2, b3) dec" "filters_ok k s so aq fsz fsp"
    and "s16_arr 4 uq" "s32_arr 4 ppv" "s32_arr 4 ltfv" "0 \<le> m" "m \<le> 36" "MINPP \<le> pp"
    and ppv: "\<And>n. n < 4 \<Longrightarrow> pitch_prediction lt (138 + m - pp + int n) b = Some (ppv ! n)"
  shows "\<exists>mem dec'. vq2snfc_update_mem s so aq fsz fsp uq ppv ltfv g m (lt, nf, b1, b2, b3) = Some mem \<and>
    for_range m (m + 4) (synthesis_step aq b pp g uq m) dec = Some dec' \<and> in_step (nat m + 4) mem dec'"
proof -
  let ?f = "synthesis_step aq b pp g uq m"
  let ?P = "\<lambda>i mem. \<exists>d. for_range m (m + int i) ?f dec = Some d \<and> in_step (nat m + i) mem d \<and> agree (138 + nat m) (fst d) lt"
  have "\<exists>mem. vq2snfc_update_mem s so aq fsz fsp uq ppv ltfv g m (lt, nf, b1, b2, b3) = Some mem \<and> ?P VDIM mem"
    unfolding vq2snfc_update_mem_def
  proof (rule for_up_rule [where P = ?P])
    show "?P 0 (lt, nf, b1, b2, b3)" using assms(1) agree_sym by (auto simp: for_range_def in_step_def)
  next
    fix i mem assume i: "i < VDIM" and P: "?P i mem"
    then have i4: "i < 4" by (simp add: VDIM_def)
    obtain l1 n1 c1 c2 c3 where mem: "mem = (l1, n1, c1, c2, c3)" by (cases mem)
    obtain l2 d1 E where d: "for_range m (m + int i) ?f dec = Some (l2, d1, E)" "in_step (nat m + i) mem (l2, d1, E)"
      "agree (138 + nat m) l2 lt" using P by (metis fst_conv prod_cases3)
    have ok: "memory_ok (l1, n1, c1, c2, c3)" "synthesis_ok (l2, d1, E)" "agree (138 + nat m + i) l1 l2" "agree (8 + nat m + i) c1 d1"
      using d(2) by (simp_all add: in_step_def mem add.assoc)
    have p: "pitch_prediction l2 (138 + (m + int i) - pp) b = Some (ppv ! i)"
      using pitch_prediction_agree [OF d(3), of "138 + (m + int i) - pp" b] ppv [OF i4] assms(6,8) i4
      by (simp add: MINPP_def algebra_simps)
    obtain n1' c2' c3' a where u: "short_term_prediction c1 (m + int i) aq = Some a" "is_s32 a"
      "update_sample s so aq fsz fsp uq ppv ltfv g m (int i) (l1, n1, c1, c2, c3) = Some
        (l1[nat (138 + (m + int i)) := intround (L_add (ppv ! i) (L_shr (L_deposit_h (uq ! i)) g))], n1',
         c1[nat (m + int i + 8) := intround (L_add (L_shl a 3) (L_add (ppv ! i) (L_shr (L_deposit_h (uq ! i)) g)))], c2', c3')"
      "s16_arr 178 n1'" "s16_arr 48 c2'" "s16_arr 48 c3'"
      using update_sample_core [OF ok(1) assms(2-7), of "int i" g] i4 by auto
    have st: "short_term_prediction d1 (m + int i) aq = Some a"
      using short_term_prediction_agree [OF ok(4), of "m + int i" aq] u(1) assms(6) by simp
    obtain E' where v: "?f (m + int i) (l2, d1, E) = Some
        (l2[nat (138 + (m + int i)) := intround (L_add (L_shr (L_deposit_h (uq ! i)) g) (ppv ! i))],
         d1[nat (m + int i + 8) := intround (L_add (L_add (L_shr (L_deposit_h (uq ! i)) g) (ppv ! i)) (L_shl a 3))], E')"
      "is_s32 E'" "0 \<le> E'"
      using synthesis_step_core [OF ok(2) assms(3,6,7) _ _ p st] i4 by auto
    have t: "is_s32 (ppv ! i)" "is_s32 (L_shr (L_deposit_h (uq ! i)) g)" "is_s32 (L_shl a 3)"
      using assms(3,4) i4 u(2) by (auto intro: s32_nth)
    have idx: "nat (138 + (m + int i)) = 138 + nat m + i" "nat (m + int i + 8) = 8 + nat m + i" using assms(6) by simp_all
    define w where "w = L_add (ppv ! i) (L_shr (L_deposit_h (uq ! i)) g)"
    have w: "L_add (L_shr (L_deposit_h (uq ! i)) g) (ppv ! i) = w" "L_add (L_shl a 3) w = L_add w (L_shl a 3)"
      using t by (simp_all add: w_def L_add_commute)
    let ?l = "l1[138 + nat m + i := intround w]" and ?l' = "l2[138 + nat m + i := intround w]"
    let ?c = "c1[8 + nat m + i := intround (L_add w (L_shl a 3))]" and ?c' = "d1[8 + nat m + i := intround (L_add w (L_shl a 3))]"
    have U: "update_sample s so aq fsz fsp uq ppv ltfv g m (int i) mem = Some (?l, n1', ?c, c2', c3')"
      using u(3) unfolding mem idx w_def [symmetric] w(2) .
    have V: "?f (m + int i) (l2, d1, E) = Some (?l', ?c', E')" using v(1) unfolding idx w(1) .
    have len: "138 + nat m + i < length l1" "8 + nat m + i < length c1" "138 + nat m + i < length l2"
      using ok(1,2) assms(7) i4 by (auto simp: memory_ok_def synthesis_ok_def arr_length)
    have "agree (138 + nat m + Suc i) ?l ?l'" "agree (8 + nat m + Suc i) ?c ?c'"
      using agree_update [OF ok(3) len(1)] agree_update [OF ok(4) len(2)] by simp_all
    moreover have "memory_ok (?l, n1', ?c, c2', c3')" "synthesis_ok (?l', ?c', E')"
      using ok(1,2) u(4-6) v(2,3) by (auto simp: memory_ok_def synthesis_ok_def intro!: arr_update)
    ultimately have "in_step (nat m + Suc i) (?l, n1', ?c, c2', c3') (?l', ?c', E')" by (simp add: in_step_def add.assoc)
    moreover have "agree (138 + nat m) ?l' lt" using d(3) by (intro agree_beyond) simp_all
    moreover have "for_range m (m + int (Suc i)) ?f dec = Some (?l', ?c', E')"
      using for_range_Suc [of m "m + int i" ?f dec] d(1) V by (simp add: ac_simps)
    ultimately have "?P (Suc i) (?l, n1', ?c, c2', c3')" by auto
    with U show "\<exists>t. update_sample s so aq fsz fsp uq ppv ltfv g m (int i) mem = Some t \<and> ?P (Suc i) t" by blast
  qed (simp add: VDIM_def)
  then show ?thesis by (auto simp: VDIM_def)
qed


definition decode_vector :: "int list \<Rightarrow> int list \<Rightarrow> int \<Rightarrow> int \<Rightarrow> int list \<Rightarrow> int list \<Rightarrow> int \<Rightarrow>
    int list \<times> int list \<times> int \<Rightarrow> (int list \<times> int list \<times> int) option" where
  "decode_vector aq b pp g cb idx j st = do {
     let m = j * int VDIM;
     vid \<leftarrow> get idx j;
     uq \<leftarrow> excitation_vector cb vid;
     for_range m (m + int VDIM) (synthesis_step aq b pp g uq m) st }"

lemma code_one_vector_in_step:
  assumes "in_step (4 * j) mem dec" "filters_ok k s so aq fsz fsp" "s16_arr 3 b" "MINPP \<le> pp" "pp \<le> MAXPP"
    and "s16_arr 64 cb" "- 32768 \<notin> set cb" "s16_arr 64 qzsr" "j < 10" "length idx = 10"
  shows "\<exists>mem' ix. code_one_vector s so aq fsz fsp b beta cb pp g qzsr (int j) (mem, idx) = Some (mem', idx[j := ix]) \<and>
    0 \<le> ix \<and> ix < 32 \<and> (\<forall>idx'. length idx' = 10 \<and> idx' ! j = ix \<longrightarrow>
      (\<exists>dec'. decode_vector aq b pp g cb idx' (int j) dec = Some dec' \<and> in_step (4 * Suc j) mem' dec'))"
proof -
  note F = filters_okD [OF assms(2)]
  obtain lt nf b1 b2 b3 where mem: "mem = (lt, nf, b1, b2, b3)" by (cases mem)
  have M: "s16_arr 178 lt" "s16_arr 178 nf" "s16_arr 48 b1" "s16_arr 48 b2" "s16_arr 48 b3"
    using assms(1) by (simp_all add: in_step_def mem memory_ok_def)
  define m where "m = int j * int VDIM"
  have m: "0 \<le> m" "m \<le> 36" "nat m = 4 * j" using assms(9) by (simp_all add: m_def VDIM_def)
  obtain l p where lp: "vq2snfc_ppv lt nf m pp b beta = Some (l, p)" "s32_arr 4 l" "s32_arr 4 p"
    "\<forall>n<4. pitch_prediction lt (138 + m - pp + int n) b = Some (p ! n)"
    using ppv_ok [OF M(1,2) m(1,2) assms(4,5,3)] by blast
  obtain q c1 c2 c3 where c: "vq2snfc_zir p l aq b1 b2 b3 fsz fsp s so m (sub g 3) = Some (q, c1, c2, c3)" "s16_arr 4 q"
    "s16_arr 48 c1" "s16_arr 48 c2" "s16_arr 48 c3" "agree (nat m + 8) c1 b1"
    using zir_ok [OF lp(3,2) F(4) M(3-5) F(5,6,1-3) m(1,2)] by blast
  obtain jm sg where v: "vq2snfc_vq qzsr q = Some (jm, sg)" "0 \<le> jm" "jm < 16" "sg = 1 \<or> sg = - 1"
    using vq_ok [OF assms(8) c(2)] by blast
  define ix where "ix = (if sg = - 1 then jm + int CBSZ else jm)"
  have ix: "0 \<le> ix" "ix < 32" using v by (auto simp: ix_def CBSZ_def)
  obtain uq where uq: "excitation_vector cb ix = Some uq" "s16_arr 4 uq" using excitation_vector_ok [OF assms(6) ix] by blast
  have sv: "signed_vector cb jm sg = Some uq"
    using signed_vector_eq [OF assms(6) v(2,3,4) assms(7)] uq(1) by (simp add: ix_def)
  have "in_step (nat m) (lt, nf, c1, c2, c3) dec"
    using assms(1) c M unfolding m(3)
    by (auto simp: in_step_def mem memory_ok_def agree_def)
  then obtain mem' dec' where r: "vq2snfc_update_mem s so aq fsz fsp uq p l g m (lt, nf, c1, c2, c3) = Some mem'"
    "for_range m (m + 4) (synthesis_step aq b pp g uq m) dec = Some dec'" "in_step (nat m + 4) mem' dec'"
    using vector_in_step [OF _ assms(2) uq(2) lp(3,2) m(1,2) assms(4)] lp(4) by blast
  have "code_one_vector s so aq fsz fsp b beta cb pp g qzsr (int j) (mem, idx) = Some (mem', idx[j := ix])"
    using lp(1) c(1) v(1) sv r(1) assms(9,10)
    by (simp add: code_one_vector_def mem m_def [symmetric] ix_def [symmetric])
  moreover have "decode_vector aq b pp g cb idx' (int j) dec = Some dec'" if "length idx' = 10" "idx' ! j = ix" for idx'
    using that uq(1) r(2) assms(9) unfolding decode_vector_def m_def [symmetric] by (simp add: VDIM_def)
  moreover have "in_step (4 * Suc j) mem' dec'" using r(3) m(3) by (simp add: add.commute)
  ultimately show ?thesis using ix by (intro exI [of _ mem'] exI [of _ ix]) blast
qed

lemma excquan_in_step:
  assumes "in_step 0 mem dec" "filters_ok k s so aq fsz fsp" "s16_arr 3 b" "MINPP \<le> pp" "pp \<le> MAXPP"
    and "s16_arr 64 cb" "- 32768 \<notin> set cb" "s16_arr 64 qzsr" "length idx = 10"
  shows "\<exists>mem' idx'. for_up 0 10 (code_one_vector s so aq fsz fsp b beta cb pp g qzsr) (mem, idx) = Some (mem', idx') \<and>
    arr (\<lambda>i. 0 \<le> i \<and> i < 32) 10 idx' \<and>
    (\<exists>dec'. for_up 0 10 (decode_vector aq b pp g cb idx') dec = Some dec' \<and> in_step 40 mem' dec')"
proof -
  let ?f = "decode_vector aq b pp g cb"
  let ?P = "\<lambda>j (m, ix). length ix = 10 \<and> (\<forall>i<j. 0 \<le> ix ! i \<and> ix ! i < 32) \<and>
    (\<forall>ix'. length ix' = 10 \<and> (\<forall>i<j. ix' ! i = ix ! i) \<longrightarrow> (\<exists>d. for_up 0 j (?f ix') dec = Some d \<and> in_step (4 * j) m d))"
  have "\<exists>t. for_up 0 10 (code_one_vector s so aq fsz fsp b beta cb pp g qzsr) (mem, idx) = Some t \<and> ?P 10 t"
  proof (rule for_up_rule [where P = ?P])
    show "?P 0 (mem, idx)" using assms(1,9) by (simp add: for_up_def)
  next
    fix j and t :: "exc_memory \<times> int list"
    assume j: "j < 10" and P: "?P j t"
    obtain m ix where t: "t = (m, ix)" by (cases t)
    have len: "length ix = 10" and rng: "\<forall>i<j. 0 \<le> ix ! i \<and> ix ! i < 32"
      and dec: "\<And>ix'. length ix' = 10 \<Longrightarrow> \<forall>i<j. ix' ! i = ix ! i \<Longrightarrow> \<exists>d. for_up 0 j (?f ix') dec = Some d \<and> in_step (4 * j) m d"
      using P by (simp_all add: t)
    obtain d where d: "in_step (4 * j) m d" using dec [OF len] by blast
    obtain m' c where c: "code_one_vector s so aq fsz fsp b beta cb pp g qzsr (int j) (m, ix) = Some (m', ix[j := c])"
      "0 \<le> c" "c < 32" using code_one_vector_in_step [OF d assms(2-8) j len] by blast
    have "\<exists>d'. for_up 0 (Suc j) (?f ix') dec = Some d' \<and> in_step (4 * Suc j) m' d'"
      if x: "length ix' = 10" "\<forall>i<Suc j. ix' ! i = ix[j := c] ! i" for ix'
    proof -
      have "\<forall>i<j. ix' ! i = ix ! i" and xj: "ix' ! j = c" using x(2) j len by auto
      then obtain d where d: "for_up 0 j (?f ix') dec = Some d" "in_step (4 * j) m d" using dec [OF x(1)] by blast
      obtain m2 c2 where s: "code_one_vector s so aq fsz fsp b beta cb pp g qzsr (int j) (m, ix) = Some (m2, ix[j := c2])"
        "\<forall>idx'. length idx' = 10 \<and> idx' ! j = c2 \<longrightarrow>
          (\<exists>dec'. ?f idx' (int j) d = Some dec' \<and> in_step (4 * Suc j) m2 dec')"
        using code_one_vector_in_step [OF d(2) assms(2-8) j len] by blast
      have "ix[j := c2] ! j = ix[j := c] ! j" "m2 = m'" using s(1) c(1) by simp_all
      then have "c2 = c" "m2 = m'" using j len by simp_all
      then obtain d' where "?f ix' (int j) d = Some d'" "in_step (4 * Suc j) m' d'" using s(2) x(1) xj by blast
      then show ?thesis using d(1) for_up_Suc [of 0 j "?f ix'" dec] by simp
    qed
    then have "?P (Suc j) (m', ix[j := c])" using len rng c(2,3) j by (auto simp: nth_list_update less_Suc_eq)
    then show "\<exists>t'. code_one_vector s so aq fsz fsp b beta cb pp g qzsr (int j) t = Some t' \<and> ?P (Suc j) t'"
      using c(1) t by blast
  qed simp
  then obtain m ix where r: "for_up 0 10 (code_one_vector s so aq fsz fsp b beta cb pp g qzsr) (mem, idx) = Some (m, ix)"
    "?P 10 (m, ix)" by auto
  then show ?thesis by (auto simp: arr_def list_all_length)
qed

text \<open>The decoder is the loop of \<open>decode_vector\<close>.\<close>

lemma excdec_w_synth_vectors:
  "excdec_w_synth xq ltsym stsym idx b cb pp aq g = do {
     buf1 \<leftarrow> W16copy (replicate (LPCO + FRSZ) 0) 0 stsym 0 LPCO;
     (ltsym, buf1, E) \<leftarrow> for_up 0 10 (decode_vector aq b pp g cb idx) (ltsym, buf1, 0);
     stsym \<leftarrow> W16copy stsym 0 buf1 FRSZ LPCO;
     xq \<leftarrow> W16copy xq XQOFF buf1 LPCO FRSZ;
     Some (xq, ltsym, stsym, E) }"
proof -
  have "FRSZ div VDIM = 10" by (simp add: FRSZ_def VDIM_def)
  then show ?thesis unfolding excdec_w_synth_def decode_vector_def [abs_def] by simp
qed


lemma excquan_follows:
  assumes "s16_arr k s" "0 \<le> so" "so + 40 \<le> int k" "s16_arr 9 aq" "s16_arr 9 fsz" "s16_arr 9 fsp"
    and "s16_arr 3 b" "MINPP \<le> pp" "pp \<le> MAXPP" "s16_arr 64 cb" "- 32768 \<notin> set cb" "length idx = 10"
    and "s16_arr 8 stsym" "s16_arr 8 stnfz" "s16_arr 8 stnfp" "s16_arr 178 ltsym" "s16_arr 178 ltnfm"
    and "s16_arr 178 ltsym_d" "take 138 ltsym_d = take 138 ltsym" "s16_arr LXQ xq"
  shows "\<exists>idx' stsym' ltsym' ltnfm' stnfz' stnfp' xq' E.
    excquan idx s so aq fsz fsp b beta stsym ltsym ltnfm stnfz stnfp cb pp g =
      Some (idx', stsym', ltsym', ltnfm', stnfz', stnfp') \<and> arr (\<lambda>i. 0 \<le> i \<and> i < 32) 10 idx' \<and>
    s16_arr 8 stsym' \<and> s16_arr 178 ltsym' \<and> s16_arr 178 ltnfm' \<and> s16_arr 8 stnfz' \<and> s16_arr 8 stnfp' \<and>
    excdec_w_synth xq ltsym_d stsym idx' b cb pp aq g = Some (xq', ltsym', stsym', E)"
proof -
  have Z: "s16_arr 48 (replicate 48 0)" by simp
  obtain b1 where b1: "W16copy (replicate 48 0) 0 stsym 0 8 = Some b1" "s16_arr 48 b1"
    using W16copy_ok [OF Z assms(13), of 0 8 0] by auto
  obtain b2 where b2: "W16copy (replicate 48 0) 0 stnfz 0 8 = Some b2" "s16_arr 48 b2"
    using W16copy_ok [OF Z assms(14), of 0 8 0] by auto
  obtain b3 where b3: "W16copy (replicate 48 0) 0 stnfp 0 8 = Some b3" "s16_arr 48 b3"
    using W16copy_ok [OF Z assms(15), of 0 8 0] by auto
  obtain q where q: "vq2snfc_zsr_codebook cb aq fsz fsp = Some q" "s16_arr 64 q"
    using zsr_codebook_ok [OF assms(10,4,5,6)] by blast
  have len: "length ltsym = 178" "length ltsym_d = 178" using assms(16,18) by (auto simp: arr_def)
  have "ltsym ! i = ltsym_d ! i" if "i < 138" for i using assms(19) that by (metis nth_take)
  then have ag: "agree 138 ltsym ltsym_d" by (simp add: agree_def len)
  have "in_step 0 (ltsym, ltnfm, b1, b2, b3) (ltsym_d, b1, 0)"
    using assms(16-18) b1 b2 b3 ag by (simp add: in_step_def memory_ok_def synthesis_ok_def)
  moreover have "filters_ok k s so aq fsz fsp" using assms(1-6) by (simp add: filters_ok_def)
  ultimately obtain mem idx' dec where r:
    "for_up 0 10 (code_one_vector s so aq fsz fsp b beta cb pp g q) ((ltsym, ltnfm, b1, b2, b3), idx) = Some (mem, idx')"
    "arr (\<lambda>i. 0 \<le> i \<and> i < 32) 10 idx'"
    "for_up 0 10 (decode_vector aq b pp g cb idx') (ltsym_d, b1, 0) = Some dec" "in_step 40 mem dec"
    using excquan_in_step [OF _ _ assms(7-11) q(2) assms(12)] by blast
  obtain lt nf c1 c2 c3 where mem: "mem = (lt, nf, c1, c2, c3)" by (cases mem)
  obtain lt' c1' E where dec: "dec = (lt', c1', E)" by (cases dec)
  have T: "s16_arr 178 lt" "s16_arr 178 nf" "s16_arr 48 c1" "s16_arr 48 c2" "s16_arr 48 c3" "agree 178 lt lt'" "agree 48 c1 c1'"
    using r(4) by (simp_all add: in_step_def memory_ok_def mem dec)
  have same: "lt' = lt" "c1' = c1"
    using agree_all [OF T(6)] agree_all [OF T(7)] T(1,3) by (simp_all add: arr_def)
  have e: "VDIM = 4" "40 div 4 = (10 :: nat)" "LPCO + FRSZ = 48" "NSTORDER + FRSZ = 48" "LPCO = 8" "NSTORDER = 8" "FRSZ = 40"
    by (simp_all add: FRSZ_def VDIM_def LPCO_def NSTORDER_def)
  obtain st' where st': "W16copy stsym 0 c1 40 8 = Some st'" "s16_arr 8 st'" using W16copy_ok [OF assms(13) T(3), of 40 8 0] by auto
  obtain z' where z': "W16copy stnfz 0 c2 40 8 = Some z'" "s16_arr 8 z'" using W16copy_ok [OF assms(14) T(4), of 40 8 0] by auto
  obtain p' where p': "W16copy stnfp 0 c3 40 8 = Some p'" "s16_arr 8 p'" using W16copy_ok [OF assms(15) T(5), of 40 8 0] by auto
  obtain xq' where xq': "W16copy xq XQOFF c1 8 40 = Some xq'"
    using W16copy_ok [OF assms(20) T(3), of 8 40 XQOFF] by (auto simp: LXQ_def XQOFF_def FRSZ_def)
  have "excquan idx s so aq fsz fsp b beta stsym ltsym ltnfm stnfz stnfp cb pp g = Some (idx', st', lt, nf, z', p')"
    unfolding excquan_def e by (simp add: b1 b2 b3 q r(1) mem st'(1) z'(1) p'(1))
  moreover have "excdec_w_synth xq ltsym_d stsym idx' b cb pp aq g = Some (xq', lt, st', E)"
    unfolding excdec_w_synth_vectors e by (simp add: b1 r(3) dec same st'(1) xq')
  ultimately show ?thesis using r(2) T(1,2) st'(2) z'(2) p'(2) by blast
qed

text \<open>(C32) The encoder of BroadVoice16 runs the decoder inside its search: when the filters and the
signal fit in their types and the long-term memories of both sides agree on the past, the noise
feedback coding of a frame returns ten codes of five bits, and the decoder that reads these codes
builds the same excitation memory and the same short-term memory as the encoder keeps for its next
frame. Sums of saturating operations are only commutative, so this needs the same order of
operations in both.\<close>

theorem excitation_synchronised:
  assumes "s16_arr k s" "0 \<le> so" "so + 40 \<le> int k" "s16_arr 9 aq" "s16_arr 9 fsz" "s16_arr 9 fsp"
    and "s16_arr 3 b" "MINPP \<le> pp" "pp \<le> MAXPP" "s16_arr 64 cb" "- 32768 \<notin> set cb" "length idx = 10"
    and "s16_arr 8 stsym" "s16_arr 8 stnfz" "s16_arr 8 stnfp" "s16_arr 178 ltsym" "s16_arr 178 ltnfm"
    and "s16_arr 178 ltsym_d" "take 138 ltsym_d = take 138 ltsym" "s16_arr LXQ xq"
  shows "\<exists>idx' stsym' ltsym' ltnfm' stnfz' stnfp' xq' E.
    excquan idx s so aq fsz fsp b beta stsym ltsym ltnfm stnfz stnfp cb pp g =
      Some (idx', stsym', ltsym', ltnfm', stnfz', stnfp') \<and> arr (\<lambda>i. 0 \<le> i \<and> i < 32) 10 idx' \<and>
    excdec_w_synth xq ltsym_d stsym idx' b cb pp aq g = Some (xq', ltsym', stsym', E)"
  using excquan_follows [OF assms] by blast

lemma excitation_synchronised_witness:
  "\<exists>idx' stsym' ltsym' ltnfm' stnfz' stnfp' xq' E.
    excquan (replicate 10 0) (replicate 40 500) 0 (4096 # replicate 8 0) (4096 # replicate 8 0) (4096 # replicate 8 0)
      [100, 2000, 100] 64 (replicate 8 7) (replicate 178 40) (replicate 178 3) (replicate 8 1) (replicate 8 2)
      (map (\<lambda>i. 100 * int i) [0..<64]) 50 5 = Some (idx', stsym', ltsym', ltnfm', stnfz', stnfp') \<and>
    arr (\<lambda>i. 0 \<le> i \<and> i < 32) 10 idx' \<and>
    excdec_w_synth (replicate LXQ 0) (replicate 178 40) (replicate 8 7) idx' [100, 2000, 100]
      (map (\<lambda>i. 100 * int i) [0..<64]) 50 (4096 # replicate 8 0) 5 = Some (xq', ltsym', stsym', E)"
  by (rule excitation_synchronised [where k = 40]) (auto simp: arr_def list_all_length nth_Cons' is_s16_def MINPP_def MAXPP_def)

end
