(* ===== verification/BV_EncParams.thy ===== *)
theory BV_EncParams
  imports BV_EncExc
begin

text \<open>
  The parameters of the BroadVoice16 encoder: the high-pass filter (\<open>preproc.c\<close>), the quantisation of
  the line spectral frequencies (\<open>lspquan.c\<close>) and of the gain (\<open>gainquan.c\<close>), and the lemmas that
  compare them with the decoding in \<open>BV_Params\<close>. The gain prediction, the limit of the gain change and
  the conversion to the linear gain have the same text in \<open>gainquan.c\<close> and \<open>gaindec.c\<close>; they are the
  definitions of \<open>BV_Params\<close>.
\<close>

definition LGPECBSZ :: nat where "LGPECBSZ = 16"
definition LSPECBSZ1 :: nat where "LSPECBSZ1 = 128"

section \<open>High-pass filter (\<open>preproc.c\<close>)\<close>

text \<open>The state is \<open>hpfpm\<close> (two double precision numbers) and \<open>hpfzm\<close>.\<close>

definition highpass_sample :: "int list \<Rightarrow> nat \<Rightarrow> int \<Rightarrow> int list \<times> int list \<times> int list \<Rightarrow>
    (int list \<times> int list \<times> int list) option" where
  "highpass_sample input oo n = (\<lambda>(output, hpfpm, hpfzm). do {
     p0 \<leftarrow> get hpfpm 0; p1 \<leftarrow> get hpfpm 1; a1 \<leftarrow> get hpfa 1;
     let a0 = Mpy_32_16 p0 p1 a1;
     p2 \<leftarrow> get hpfpm 2; p3 \<leftarrow> get hpfpm 3; a2 \<leftarrow> get hpfa 2;
     let a0 = L_add a0 (Mpy_32_16 p2 p3 a2);
     x \<leftarrow> get input n; b0 \<leftarrow> get hpfb 0;
     let a0 = L_mac0 a0 x b0;
     z0 \<leftarrow> get hpfzm 0; b1 \<leftarrow> get hpfb 1;
     let a0 = L_mac0 a0 z0 b1;
     z1 \<leftarrow> get hpfzm 1; b2 \<leftarrow> get hpfb 2;
     let a0 = L_mac0 a0 z1 b2;
     let a0 = L_shl a0 1;
     hpfpm \<leftarrow> put hpfpm 2 p0;
     hpfpm \<leftarrow> put hpfpm 3 p1;
     let (hi, lo) = L_Extract a0;
     hpfpm \<leftarrow> put hpfpm 0 hi;
     hpfpm \<leftarrow> put hpfpm 1 lo;
     let a0 = L_shl a0 1;
     output \<leftarrow> put output (int oo + n) (intround a0);
     hpfzm \<leftarrow> put hpfzm 1 z0;
     hpfzm \<leftarrow> put hpfzm 0 x;
     Some (output, hpfpm, hpfzm) })"

definition preprocess :: "int list \<Rightarrow> int list \<Rightarrow> int list \<Rightarrow> nat \<Rightarrow> int list \<Rightarrow> nat \<Rightarrow>
    (int list \<times> int list \<times> int list) option" where
  "preprocess hpfpm hpfzm output oo input N = for_up 0 N (highpass_sample input oo) (output, hpfpm, hpfzm)"

section \<open>Quantisation of the frequencies (\<open>lspquan.c\<close>)\<close>

text \<open>The first stage; \<open>idx\<close> keeps its old value when no code vector has a distance below \<open>MAX_32\<close>.\<close>

definition vector_distance :: "int list \<Rightarrow> int list \<Rightarrow> nat \<Rightarrow> int \<Rightarrow> int option" where
  "vector_distance x cb vdim j = for_up 0 vdim (\<lambda>k d. do {
     u \<leftarrow> get x k; v \<leftarrow> get cb (j * int vdim + k);
     let e = sub u v;
     Some (L_mac0 d e e) }) 0"

definition vqmse :: "int list \<Rightarrow> int \<Rightarrow> int list \<Rightarrow> int list \<Rightarrow> nat \<Rightarrow> nat \<Rightarrow> (int list \<times> int) option" where
  "vqmse xq idx x cb vdim cbsz = do {
     (dmin, idx) \<leftarrow> for_up 0 cbsz (\<lambda>j (dmin, idx). do {
       d \<leftarrow> vector_distance x cb vdim j;
       Some (if L_sub d dmin < 0 then (d, j) else (dmin, idx)) }) (MAX_32, idx);
     let j = s16 (idx * int vdim);
     xq \<leftarrow> for_up 0 vdim (\<lambda>k xq. do { v \<leftarrow> get cb (j + k); put xq k v }) xq;
     Some (xq, idx) }"

text \<open>The second stage tries every vector with both signs; a candidate counts when the first
  frequencies stay in order.\<close>

definition weighted_distance :: "int list \<Rightarrow> int list \<Rightarrow> int list \<Rightarrow> nat \<Rightarrow> int \<Rightarrow> int \<Rightarrow> int option" where
  "weighted_distance x w cb vdim sign j = for_up 0 vdim (\<lambda>k d. do {
     u \<leftarrow> get x k; v \<leftarrow> get cb (j * int vdim + k); wk \<leftarrow> get w k;
     let e = (if sign = 1 then sub u v else add u v);
     let we = mult wk e;
     Some (L_mac0 d we e) }) 0"

definition candidate_stable :: "int list \<Rightarrow> int list \<Rightarrow> nat \<Rightarrow> int \<Rightarrow> int \<Rightarrow> int option" where
  "candidate_stable xa cb vdim sign j = do {
     xqc \<leftarrow> for_up 0 STBLDIM (\<lambda>k xqc. do {
       a \<leftarrow> get xa k; v \<leftarrow> get cb (j * int vdim + k);
       put xqc k (if sign = 1 then add a (shr_16 v 2) else sub a (shr_16 v 2)) }) (replicate STBLDIM 0);
     stblchck xqc STBLDIM }"

definition try_candidate :: "int list \<Rightarrow> int list \<Rightarrow> int list \<Rightarrow> int list \<Rightarrow> nat \<Rightarrow> int \<Rightarrow> int \<Rightarrow>
    int \<times> int \<times> int \<Rightarrow> (int \<times> int \<times> int) option" where
  "try_candidate x xa w cb vdim sg j = (\<lambda>(dmin, idx, sign). do {
     d \<leftarrow> weighted_distance x w cb vdim sg j;
     if L_sub d dmin < 0 then do {
       stbl \<leftarrow> candidate_stable xa cb vdim sg j;
       Some (if stbl > 0 then (d, j, sg) else (dmin, idx, sign)) }
     else Some (dmin, idx, sign) })"

definition svqwmse :: "int list \<Rightarrow> int list \<Rightarrow> int list \<Rightarrow> int list \<Rightarrow> int list \<Rightarrow> nat \<Rightarrow> nat \<Rightarrow>
    (int list \<times> int) option" where
  "svqwmse xq x xa w cb vdim cbsz = do {
     (dmin, idx, sign) \<leftarrow> for_up 0 cbsz (\<lambda>j st. do {
       st \<leftarrow> try_candidate x xa w cb vdim (- 1) j st;
       try_candidate x xa w cb vdim 1 j st }) (MAX_32, - 1, 1);
     let (idx, sign) = (if idx = - 1 then (0, 1) else (idx, sign));
     xq \<leftarrow> for_up 0 vdim (\<lambda>k xq. do { v \<leftarrow> get cb (idx * int vdim + k); put xq k v }) xq;
     xq \<leftarrow> (if sign = - 1 then for_up 0 vdim (\<lambda>k xq. do { v \<leftarrow> get xq k; put xq k (negate v) }) xq
            else Some xq);
     Some (xq, if sign < 0 then sub (s16 (2 * int cbsz - 1)) idx else idx) }"

text \<open>The distances of neighbours with their minimum, and the weights; \<open>div_s\<close> aborts the program when
  its operands do not fit.\<close>

definition lsp_differences :: "int list \<Rightarrow> (int list \<times> int) option" where
  "lsp_differences lsp = for_up 0 (LPCO - 1) (\<lambda>i (d, min_d). do {
     u \<leftarrow> get lsp (i + 1); v \<leftarrow> get lsp i;
     let di = sub u v;
     d \<leftarrow> put d i di;
     Some (d, if di < min_d then di else min_d) }) (replicate LPCO 0, MAX_16)"

definition lsp_weights :: "int list \<Rightarrow> int \<Rightarrow> int list option" where
  "lsp_weights d min_d = do {
     d0 \<leftarrow> get d 0;
     q \<leftarrow> div_s min_d d0;
     w \<leftarrow> put (replicate LPCO 0) 0 (shr_16 q 1);
     w \<leftarrow> for_up 1 (LPCO - 1) (\<lambda>i w. do {
       u \<leftarrow> get d i; v \<leftarrow> get d (i - 1);
       q \<leftarrow> div_s min_d (if u < v then u else v);
       put w i (shr_16 q 1) }) w;
     dl \<leftarrow> get d (int LPCO - 2);
     q \<leftarrow> div_s min_d dl;
     put w (int LPCO - 1) (shr_16 q 1) }"

text \<open>The target of the second stage, its base, the quantised error, and the quantised frequencies.\<close>

definition lspquan :: "int list \<Rightarrow> int list \<Rightarrow> int list \<Rightarrow> int list \<Rightarrow> (int list \<times> int list \<times> int list) option" where
  "lspquan lspq lspidx lsp lsppm = do {
     (d, min_d) \<leftarrow> lsp_differences lsp;
     w \<leftarrow> lsp_weights d min_d;
     elsp \<leftarrow> lsp_estimate lsppm;
     lspe \<leftarrow> for_up 0 LPCO (\<lambda>i lspe. do {
       l \<leftarrow> get lsp i; m \<leftarrow> get lspmean i; e \<leftarrow> get elsp i;
       put lspe i (shl (sub (sub l m) e) 2) }) (replicate LPCO 0);
     idx0 \<leftarrow> get lspidx 0;
     (lspeq1, idx0) \<leftarrow> vqmse (replicate LPCO 0) idx0 lspe lspecb1 LPCO LSPECBSZ1;
     lspidx \<leftarrow> put lspidx 0 idx0;
     d \<leftarrow> for_up 0 LPCO (\<lambda>i d. do {
       u \<leftarrow> get lspe i; v \<leftarrow> get lspeq1 i; put d i (sub u v) }) d;
     lspa \<leftarrow> for_up 0 LPCO (\<lambda>i lspa. do {
       m \<leftarrow> get lspmean i; e \<leftarrow> get elsp i; v \<leftarrow> get lspeq1 i;
       put lspa i (add (add m e) (shr_16 v 2)) }) (replicate LPCO 0);
     (lspeq2, idx1) \<leftarrow> svqwmse (replicate LPCO 0) d lspa w lspecb2 LPCO (nat LSPECBSZ2);
     lspidx \<leftarrow> put lspidx 1 idx1;
     lspe \<leftarrow> for_up 0 LPCO (\<lambda>i lspe. do {
       u \<leftarrow> get lspeq1 i; v \<leftarrow> get lspeq2 i; put lspe i (shr_16 (add u v) 2) }) lspe;
     lsppm \<leftarrow> lsp_memory_update (get lspe) lsppm;
     lspq \<leftarrow> for_up 0 LPCO (\<lambda>i lspq. do {
       m \<leftarrow> get lspmean i; e \<leftarrow> get elsp i; v \<leftarrow> get lspe i;
       put lspq i (add (add m e) v) }) lspq;
     lspq \<leftarrow> stblz_lsp lspq LPCO;
     Some (lspq, lspidx, lsppm) }"

section \<open>Quantisation of the gain (\<open>gainquan.c\<close>)\<close>

definition log_gain :: "int \<Rightarrow> int option" where
  "log_gain ee = (if ee < 2 * int FRSZ then Some 0
     else do {
       let (lg_exp, lg_frac) = L_Extract ee;
       let lg = Mpy_32_16 lg_exp lg_frac 6554;
       (lg_exp, lg_frac) \<leftarrow> Log2 lg;
       let lg_exp = sub lg_exp 4;
       Some (L_add (L_shl (L_deposit_h lg_exp) 9) (L_shr (L_deposit_h lg_frac) 6)) })"

definition nearest_gain :: "int \<Rightarrow> (int \<times> int) option" where
  "nearest_gain lgpe = for_up 0 LGPECBSZ (\<lambda>i (dmin, gidx). do {
     k \<leftarrow> get idxord i; c \<leftarrow> get lgpecb k;
     let d = abs_s (sub lgpe c);
     Some (if d < dmin then (d, i) else (dmin, gidx)) }) (MAX_16, 0)"

definition quantised_gain :: "int \<Rightarrow> int \<Rightarrow> int option" where
  "quantised_gain elg gidx = do {
     k \<leftarrow> get idxord gidx; c \<leftarrow> get lgpecb k;
     Some (L_add (L_shr (L_deposit_h c) 2) elg) }"

text \<open>The loop that lowers the gain to the limit; it counts down to zero.\<close>

primrec limit_gain :: "int \<Rightarrow> int \<Rightarrow> nat \<Rightarrow> int \<Rightarrow> (int \<times> int) option" where
  "limit_gain limit elg 0 lgq = Some (0, lgq)"
| "limit_gain limit elg (Suc gidx) lgq = (if lgq > limit
     then do {
       lgq \<leftarrow> quantised_gain elg (int gidx);
       limit_gain limit elg gidx lgq }
     else Some (int (Suc gidx), lgq))"

text \<open>The result: the index, \<open>gainq\<close>, \<open>lgpm\<close>, \<open>prevlg\<close>.\<close>

definition gainquan :: "int \<Rightarrow> int list \<Rightarrow> int list \<Rightarrow> int \<Rightarrow> (int \<times> int \<times> int list \<times> int list) option" where
  "gainquan ee lgpm prevlg level = do {
     lg \<leftarrow> log_gain ee;
     elg \<leftarrow> log_gain_prediction lgpm (L_shr (L_deposit_h lgmean) 1);
     let elg = L_shr elg 1;
     let lgpe = intround (L_shl (L_sub lg elg) 2);
     (dmin, gidx) \<leftarrow> nearest_gain lgpe;
     lgq \<leftarrow> quantised_gain elg gidx;
     i \<leftarrow> gain_limit_index prevlg level;
     p0 \<leftarrow> get prevlg 0;
     lim \<leftarrow> get lgclimit i;
     let limit = L_add p0 (L_deposit_h lim);
     (gidx, lgq) \<leftarrow> limit_gain limit elg (nat gidx) lgq;
     gidx \<leftarrow> get idxord gidx;
     prevlg \<leftarrow> put prevlg 1 p0;
     prevlg \<leftarrow> put prevlg 0 lgq;
     lgpm \<leftarrow> gain_memory_shift lgpm;
     c \<leftarrow> get lgpecb gidx;
     lgpm \<leftarrow> put lgpm 0 c;
     gainq \<leftarrow> linear_gain lgq;
     Some (gidx, gainq, lgpm, prevlg) }"

section \<open>High-pass filter: no access out of bounds\<close>

lemma preprocess_ok:
  assumes "s16_arr k output" "s16_arr 4 hpfpm" "s16_arr 2 hpfzm" "s16_arr m input" "oo + N \<le> k" "N \<le> m"
  shows "\<exists>y p z. preprocess hpfpm hpfzm output oo input N = Some (y, p, z) \<and> s16_arr k y \<and> s16_arr 4 p \<and> s16_arr 2 z"
proof -
  let ?P = "\<lambda>(y, p, z). s16_arr k y \<and> s16_arr 4 p \<and> s16_arr 2 z"
  have "\<exists>t. preprocess hpfpm hpfzm output oo input N = Some t \<and> ?P t"
    unfolding preprocess_def
  proof (rule for_up_inv [where P = ?P])
    fix i t assume i: "int 0 \<le> i" "i < int N" and P: "?P t"
    obtain y p z where t: "t = (y, p, z)" by (cases t)
    have s: "s16_arr k y" "s16_arr 4 p" "s16_arr 2 z" using P by (simp_all add: t)
    show "\<exists>t'. highpass_sample input oo i t = Some t' \<and> ?P t'"
      using s i assms arr_length [OF s(2)] arr_length [OF s(3)] L_Extract_parts(1,3) [OF _ surjective_pairing]
      by (auto simp: highpass_sample_def t split_beta Let_def put_def [of _ _ p] put_def [of _ _ z] put_def [of "_[_ := _]"]
          intro!: arr_update s16_nth)
  qed (use assms in simp)
  then show ?thesis by auto
qed

section \<open>Gain: the decoder follows\<close>

lemma log_gain_ok: "is_s32 ee \<Longrightarrow> \<exists>lg. log_gain ee = Some lg \<and> is_s32 lg"
proof (cases "ee < 2 * int FRSZ")
  case False
  assume e: "is_s32 ee"
  obtain hi lo where h: "L_Extract ee = (hi, lo)" by (cases "L_Extract ee")
  obtain x f where "Log2 (Mpy_32_16 hi lo 6554) = Some (x, f)" "is_s16 x" "is_s16 f"
    using Log2_ok [of "Mpy_32_16 hi lo 6554"] L_Extract_parts [OF e h] by (auto simp: is_s16_def [of 6554])
  then show ?thesis using False h by (simp add: log_gain_def)
qed (simp add: log_gain_def is_s32_def)

lemma idxord_range: "0 \<le> i \<Longrightarrow> i < 16 \<Longrightarrow> 0 \<le> idxord ! nat i \<and> idxord ! nat i < 16 \<and> (idxord ! nat i = 0 \<longleftrightarrow> i = 0)"
proof -
  have "\<forall>k<16. 0 \<le> idxord ! k \<and> idxord ! k < 16 \<and> (idxord ! k = 0 \<longleftrightarrow> k = 0)" by code_simp
  then show "0 \<le> i \<Longrightarrow> i < 16 \<Longrightarrow> 0 \<le> idxord ! nat i \<and> idxord ! nat i < 16 \<and> (idxord ! nat i = 0 \<longleftrightarrow> i = 0)" by auto
qed

lemma nearest_gain_ok: "\<exists>d g. nearest_gain lgpe = Some (d, g) \<and> 0 \<le> g \<and> g < 16"
proof -
  have "\<exists>t. nearest_gain lgpe = Some t \<and> (case t of (d, g) \<Rightarrow> 0 \<le> g \<and> g < 16)"
    unfolding nearest_gain_def
    by (rule for_up_inv) (use idxord_range in \<open>auto simp: LGPECBSZ_def Let_def\<close>)
  then show ?thesis by auto
qed

lemma quantised_gain_eq:
  "0 \<le> g \<Longrightarrow> g < 16 \<Longrightarrow> quantised_gain elg g = Some (L_add (L_shr (L_deposit_h (lgpecb ! nat (idxord ! nat g))) 2) elg)"
  using idxord_range [of g] by (simp add: quantised_gain_def)

lemma limit_gain_ok:
  "k < 16 \<Longrightarrow> quantised_gain elg (int k) = Some q \<Longrightarrow>
    \<exists>g q'. limit_gain limit elg k q = Some (g, q') \<and> 0 \<le> g \<and> g \<le> int k \<and> quantised_gain elg g = Some q' \<and> (g = 0 \<or> q' \<le> limit)"
proof (induction k arbitrary: q)
  case (Suc k)
  obtain p where p: "quantised_gain elg (int k) = Some p" using quantised_gain_eq [of "int k" elg] Suc.prems(1) by simp
  from Suc.IH [OF _ p] Suc.prems p show ?case by fastforce
qed simp

text \<open>A gain below the limit is one that the decoder does not limit.\<close>

lemma below_limit:
  assumes "is_s32 p" "is_s16 lim" "is_s32 q" "- 2147483648 < q" "q \<le> L_add p (L_deposit_h lim)"
  shows "extract_h (L_sub q p) \<le> lim"
proof -
  have d: "L_deposit_h lim = lim * 65536" using assms(2) by (simp add: L_deposit_h_def s32_idI is_s16_def)
  have "is_s32 (L_sub q p)" using assms by simp
  then have "extract_h (L_sub q p) = L_sub q p div 65536" by (rule extract_h_eq)
  moreover have "L_sub q p \<le> lim * 65536"
    using assms unfolding d by (auto simp: L_sub_eq L_add_eq clamp_def is_s32_def is_s16_def split: if_splits)
  ultimately show ?thesis by linarith
qed


lemma quantised_gain_type:
  assumes "0 \<le> g" "g < 16" "is_s32 e" "quantised_gain (L_shr e 1) g = Some q"
  shows "is_s32 q" "- 2147483648 < q"
proof -
  define c where "c = lgpecb ! nat (idxord ! nat g)"
  have c: "is_s16 c" unfolding c_def using idxord_range [OF assms(1,2)] by (intro s16_nth [OF lgpecb_arr]) auto
  have q: "q = L_add (L_shr (L_deposit_h c) 2) (L_shr e 1)" using assms quantised_gain_eq by (simp add: c_def)
  have "L_shr (L_deposit_h c) 2 = c * 16384" "L_shr e 1 = e div 2"
    using c assms(3) by (simp_all add: L_deposit_h_def s32_idI is_s16_def L_shr_right shr_def is_s32_def)
  moreover have "is_s32 (c * 16384)" "is_s32 (e div 2)" using c assms(3) by (auto simp: is_s16_def is_s32_def)
  ultimately show "is_s32 q" "- 2147483648 < q"
    using c assms(3) q by (auto simp: L_add_eq is_s16_def is_s32_def clamp_def)
qed

lemma gainquan_follows:
  assumes "is_s32 ee" "s16_arr 8 lgpm" "s32_arr 2 prevlg" "is_s16 n"
  shows "\<exists>gidx gq lgpm' prevlg'. gainquan ee lgpm prevlg level = Some (gidx, gq, lgpm', prevlg') \<and> 0 \<le> gidx \<and> gidx < 16 \<and>
    gaindec gidx lgpm prevlg level n =
      Some (gq, prevlg' ! 0, lgpm', prevlg', if add n 1 > Nfdm then Nfdm + 1 else add n 1, prevlg' ! 0)"
proof -
  obtain lg where lg: "log_gain ee = Some lg" using log_gain_ok [OF assms(1)] by blast
  obtain e where e: "log_gain_prediction lgpm (L_shr (L_deposit_h lgmean) 1) = Some e" "is_s32 e"
    using log_gain_prediction_ok [OF assms(2), of "L_shr (L_deposit_h lgmean) 1"] by auto
  define elg where "elg = L_shr e 1"
  obtain dm g0 where g0: "nearest_gain (intround (L_shl (L_sub lg elg) 2)) = Some (dm, g0)" "0 \<le> g0" "g0 < 16"
    using nearest_gain_ok by blast
  obtain q0 where q0: "quantised_gain elg g0 = Some q0" using quantised_gain_eq [OF g0(2,3)] by simp
  obtain i where i: "gain_limit_index prevlg level = Some i" "0 \<le> i" "i < 216" using gain_limit_index_ok [OF assms(3)] by blast
  define lim where "lim = lgclimit ! nat i"
  have lim: "get lgclimit i = Some lim" "is_s16 lim" using i by (auto simp: lim_def intro: s16_nth [OF lgclimit_arr])
  obtain p0 p1 where p: "prevlg = [p0, p1]" using assms(3) by (auto simp: arr_def length_Suc_conv numeral_2_eq_2)
  have p0: "is_s32 p0" using assms(3) by (simp add: p arr_def)
  have q0': "quantised_gain elg (int (nat g0)) = Some q0" using q0 g0 by simp
  have "nat g0 < 16" using g0 by simp
  then obtain g q where g: "limit_gain (L_add p0 (L_deposit_h lim)) elg (nat g0) q0 = Some (g, q)" "0 \<le> g" "g \<le> g0"
    "quantised_gain elg g = Some q" "g = 0 \<or> q \<le> L_add p0 (L_deposit_h lim)"
    using limit_gain_ok [OF _ q0'] g0 by fastforce
  have g16: "g < 16" using g g0 by simp
  note q = quantised_gain_type [OF g(2) g16 e(2) g(4) [unfolded elg_def]]
  define k where "k = idxord ! nat g"
  have k: "get idxord g = Some k" "0 \<le> k" "k < 16" "k = 0 \<longleftrightarrow> g = 0"
    using idxord_range [OF g(2) g16] g(2) g16 by (simp_all add: k_def)
  define c where "c = lgpecb ! nat k"
  have c: "get lgpecb k = Some c" using k by (simp add: c_def)
  have qe: "L_add (L_shr (L_deposit_h c) 2) elg = q" using quantised_gain_eq [OF g(2) g16] g(4) by (simp add: c_def k_def)
  obtain m where m: "gain_memory_shift lgpm = Some m" "s16_arr 8 m" using gain_memory_shift_ok [OF assms(2)] by blast
  obtain gq where gq: "linear_gain q = Some gq" using linear_gain_ok [OF q(1)] by blast
  have free: "\<not> (extract_h (L_sub q p0) > lim \<and> k > 0)" using below_limit [OF p0 lim(2) q] g(5) k(4) by auto
  have P: "get prevlg 0 = Some p0" "put prevlg 1 v = Some [p0, v]" "put [p0, v] 0 w = Some [w, v]" "put m 0 c = Some (m[0 := c])"
    for v w using arr_length [OF m(2)] by (auto simp: p get_def put_def)
  have enc: "gainquan ee lgpm prevlg level = Some (k, gq, m[0 := c], [q, p0])"
    unfolding gainquan_def lg e(1) bind.bind_lunit Let_def elg_def [symmetric] g0(1) split_beta fst_conv snd_conv q0 i(1) lim(1)
    by (simp add: P g(1) k(1) c gq m)
  have dec: "gaindec k lgpm prevlg level n =
      Some (gq, q, m[0 := c], [q, p0], if add n 1 > Nfdm then Nfdm + 1 else add n 1, q)"
    unfolding gaindec_def e(1) bind.bind_lunit Let_def elg_def [symmetric] c qe i(1) m(1) lim(1)
    using free m by (auto simp: p gq get_def put_def arr_length [OF m(2)])
  show ?thesis using enc dec k by (intro exI conjI) (auto simp: p)
qed

text \<open>(C34) The decoder of BroadVoice16 follows the gain of the encoder: for every residual energy and
every state of the predictor, the gain coder returns an index of four bits, and the decoder that reads
it in the same state computes the same gain, the same predictor memory and the same past log gains,
and never takes its own limitation of the gain change: its count of frames since a limitation goes on.\<close>

theorem gain_synchronised:
  assumes "is_s32 ee" "s16_arr 8 lgpm" "s32_arr 2 prevlg" "is_s16 n"
  shows "\<exists>gidx gq lgpm' prevlg'. gainquan ee lgpm prevlg level = Some (gidx, gq, lgpm', prevlg') \<and> 0 \<le> gidx \<and> gidx < 16 \<and>
    gaindec gidx lgpm prevlg level n =
      Some (gq, prevlg' ! 0, lgpm', prevlg', if add n 1 > Nfdm then Nfdm + 1 else add n 1, prevlg' ! 0)"
  by (rule gainquan_follows [OF assms])

lemma gain_synchronised_witness:
  "\<exists>gidx gq lgpm' prevlg'. gainquan 123456 (replicate 8 (- 500)) [300000000, 200000000] 570425344 = Some (gidx, gq, lgpm', prevlg') \<and>
    0 \<le> gidx \<and> gidx < 16 \<and> gaindec gidx (replicate 8 (- 500)) [300000000, 200000000] 570425344 101 =
      Some (gq, prevlg' ! 0, lgpm', prevlg', if add 101 1 > Nfdm then Nfdm + 1 else add 101 1, prevlg' ! 0)"
  by (rule gain_synchronised) (simp_all add: arr_def list_all_length nth_Cons' is_s16_def is_s32_def)

section \<open>Frequencies: when the quantisation returns\<close>

lemma for_up_fill_body:
  assumes "length out = n" and "\<And>i ys. i < n \<Longrightarrow> length ys = n \<Longrightarrow> f (int i) ys = put ys (int i) (v i)"
  shows "for_up 0 n f out = Some (map v [0..<n])"
proof -
  have "\<exists>t. for_up 0 n f out = Some t \<and> (length t = n \<and> (\<forall>k<n. t ! k = v k))"
  proof (rule for_up_rule [where P = "\<lambda>i t. length t = n \<and> (\<forall>k<i. t ! k = v k)"])
    fix i t assume "i < n" "length t = n \<and> (\<forall>k<i. t ! k = v k)"
    then show "\<exists>t'. f (int i) t = Some t' \<and> length t' = n \<and> (\<forall>k<Suc i. t' ! k = v k)"
      using assms(2) by (auto simp: put_def nth_list_update less_Suc_eq)
  qed (use assms(1) in simp_all)
  then obtain t where "for_up 0 n f out = Some t" "length t = n" "\<forall>k<n. t ! k = v k" by blast
  moreover from this have "t = map v [0..<n]" by (intro nth_equalityI) simp_all
  ultimately show ?thesis by simp
qed

lemma arr_map_upt: "(\<And>i. i < n \<Longrightarrow> P (v i)) \<Longrightarrow> arr P n (map v [0..<n])"
  by (simp add: arr_def list_all_length)

lemma lsp_differences_ok:
  assumes "s16_arr 8 lsp"
  shows "\<exists>d m. lsp_differences lsp = Some (d, m) \<and> s16_arr 8 d \<and> is_s16 m \<and>
    (\<forall>i<7. d ! i = sub (lsp ! Suc i) (lsp ! i) \<and> m \<le> d ! i) \<and> (\<exists>i<7. m = d ! i)"
proof -
  let ?P = "\<lambda>k (d, m). s16_arr 8 d \<and> is_s16 m \<and> (\<forall>i<k. d ! i = sub (lsp ! Suc i) (lsp ! i) \<and> m \<le> d ! i) \<and>
    (m = 32767 \<or> (\<exists>i<k. m = d ! i))"
  have "\<exists>t. lsp_differences lsp = Some t \<and> ?P (LPCO - 1) t"
    unfolding lsp_differences_def
  proof (rule for_up_rule [where P = ?P])
    show "?P 0 (replicate LPCO 0, MAX_16)" by (simp add: LPCO_def MAX_16_def is_s16_def)
  next
    fix i t assume i: "i < LPCO - 1" and P: "?P i t"
    obtain d m where t: "t = (d, m)" by (cases t)
    have d: "s16_arr 8 d" "is_s16 m" "\<forall>k<i. d ! k = sub (lsp ! Suc k) (lsp ! k) \<and> m \<le> d ! k"
      "m = 32767 \<or> (\<exists>k<i. m = d ! k)" using P unfolding t prod.case by blast+
    have i7: "i < 7" using i by (simp add: LPCO_def)
    let ?v = "sub (lsp ! Suc i) (lsp ! i)"
    have "is_s16 (lsp ! Suc i)" "is_s16 (lsp ! i)" using i7 by (auto intro: s16_nth [OF assms])
    then have v: "is_s16 ?v" by simp
    have e: "nat (int i + 1) = Suc i" by simp
    have len: "length d = 8" using d(1) by (rule arr_length)
    have "(case t of (d, min_d) \<Rightarrow> do {
       u \<leftarrow> get lsp (int i + 1); v \<leftarrow> get lsp (int i);
       let di = sub u v;
       d \<leftarrow> put d (int i) di;
       Some (d, if di < min_d then di else min_d) }) = Some (d[i := ?v], if ?v < m then ?v else m)"
      using i7 assms d(1) by (simp add: t e Let_def)
    moreover have "?P (Suc i) (d[i := ?v], if ?v < m then ?v else m)"
    proof -
      let ?w = "if ?v < m then ?v else m"
      have "s16_arr 8 (d[i := ?v])" "is_s16 ?w" using d(1,2) v i7 by (auto intro!: arr_update)
      moreover have "d[i := ?v] ! k = sub (lsp ! Suc k) (lsp ! k) \<and> ?w \<le> d[i := ?v] ! k" if "k < Suc i" for k
      proof (cases "k = i")
        case False
        then have "k < i" using that by simp
        then have "d ! k = sub (lsp ! Suc k) (lsp ! k) \<and> m \<le> d ! k" using d(3) by blast
        then show ?thesis using False by (simp split: if_splits)
      qed (use i7 len in simp)
      moreover have "?w = 32767 \<or> (\<exists>k<Suc i. ?w = d[i := ?v] ! k)"
      proof (cases "?v < m")
        case True
        then show ?thesis using i7 len by (intro disjI2 exI [of _ i]) simp
      next
        case False
        then show ?thesis using d(4) by (metis less_SucI less_irrefl nth_list_update_neq)
      qed
      ultimately show ?thesis unfolding prod.case by blast
    qed
    ultimately show "\<exists>t'. (case t of (d, min_d) \<Rightarrow> do {
       u \<leftarrow> get lsp (int i + 1); v \<leftarrow> get lsp (int i);
       let di = sub u v;
       d \<leftarrow> put d (int i) di;
       Some (d, if di < min_d then di else min_d) }) = Some t' \<and> ?P (Suc i) t'"
      by (intro exI [of _ "(d[i := ?v], if ?v < m then ?v else m)"] conjI)
  qed simp
  then obtain t where t: "lsp_differences lsp = Some t" "?P (LPCO - 1) t" by (elim exE conjE)
  obtain d m where dm: "t = (d, m)" by (cases t)
  note r = t [unfolded dm]
  have e: "LPCO - 1 = 7" by (simp add: LPCO_def)
  have d: "s16_arr 8 d" "is_s16 m" "\<forall>i<7. d ! i = sub (lsp ! Suc i) (lsp ! i) \<and> m \<le> d ! i" "m = 32767 \<or> (\<exists>i<7. m = d ! i)"
    using r(2) unfolding e prod.case by blast+
  have "\<exists>i<7. m = d ! i"
  proof (cases "m = 32767")
    case True
    have "is_s16 (d ! 0)" using d(1) by (rule s16_nth) simp
    moreover have "m \<le> d ! 0" using d(3) by (metis zero_less_numeral)
    ultimately show ?thesis using True by (intro exI [of _ 0]) (simp add: is_s16_def)
  qed (use d(4) in blast)
  with r(1) d(1-3) show ?thesis by blast
qed

lemma lsp_weights_ok:
  assumes "s16_arr 8 d" "\<forall>i<7. m \<le> d ! i" "0 < m"
  shows "\<exists>w. lsp_weights d m = Some w \<and> s16_arr 8 w"
proof -
  have q: "\<exists>q. div_s m v = Some q \<and> is_s16 q" if "m \<le> v" "is_s16 v" for v
    using div_s_ok [of m v] assms(3) that by (auto simp: is_s16_def)
  have dv: "is_s16 (d ! i)" if "i < 8" for i using assms(1) that by (rule s16_nth)
  obtain q0 where q0: "div_s m (d ! 0) = Some q0" "is_s16 q0" using q [of "d ! 0"] assms(2) dv by auto
  obtain q7 where q7: "div_s m (d ! 6) = Some q7" "is_s16 q7" using q [of "d ! 6"] assms(2) dv by auto
  have "\<exists>w. for_up 1 (LPCO - 1) (\<lambda>i w. do {
       u \<leftarrow> get d i; v \<leftarrow> get d (i - 1);
       q \<leftarrow> div_s m (if u < v then u else v);
       put w i (shr_16 q 1) }) ((replicate LPCO 0)[0 := shr_16 q0 1]) = Some w \<and> s16_arr 8 w"
  proof (rule for_up_inv [where P = "s16_arr 8"])
    fix i w assume i: "int 1 \<le> i" "i < int (LPCO - 1)" and w: "s16_arr 8 w"
    have i': "nat i < 7" "nat (i - 1) < 7" using i by (simp_all add: LPCO_def)
    have "m \<le> d ! nat i" "m \<le> d ! nat (i - 1)" "is_s16 (d ! nat i)" "is_s16 (d ! nat (i - 1))"
      using assms(2) i' by (auto intro: dv)
    then obtain q' where "div_s m (if d ! nat i < d ! nat (i - 1) then d ! nat i else d ! nat (i - 1)) = Some q'" "is_s16 q'"
      using q by (metis (full_types))
    then show "\<exists>w'. (do { u \<leftarrow> get d i; v \<leftarrow> get d (i - 1); q \<leftarrow> div_s m (if u < v then u else v); put w i (shr_16 q 1) }) = Some w' \<and>
        s16_arr 8 w'" using i w assms(1) by (auto simp: LPCO_def intro!: arr_update)
  qed (use q0 in \<open>auto simp: LPCO_def intro!: arr_update\<close>)
  then show ?thesis using q0 q7 assms(1) by (auto simp: lsp_weights_def LPCO_def intro!: arr_update)
qed

lemma lsp_weights_fails:
  assumes "s16_arr 8 d" "\<forall>i<7. m \<le> d ! i" "m \<le> 0" "i < 7" "m = d ! i"
  shows "lsp_weights d m = None"
proof (cases "m < 0 \<or> i = 0")
  case True
  then have "div_s m (d ! 0) = None" using assms by (auto simp: div_s_def)
  then show ?thesis using assms(1) by (simp add: lsp_weights_def)
next
  case False
  then have m: "m = 0" and i: "1 \<le> i" "i < 7" using assms by auto
  have "0 \<le> d ! (i - 1)" using assms(2) i m by auto
  moreover have "nat (int i - 1) = i - 1" using i by simp
  ultimately have "(do { u \<leftarrow> get d (int i); v \<leftarrow> get d (int i - 1); q \<leftarrow> div_s m (if u < v then u else v);
      put w (int i) (shr_16 q 1) }) = None" for w
    using assms(1,5) i m by (auto simp: div_s_def)
  then have "for_up 1 (LPCO - 1) (\<lambda>i w. do { u \<leftarrow> get d i; v \<leftarrow> get d (i - 1); q \<leftarrow> div_s m (if u < v then u else v);
      put w i (shr_16 q 1) }) w = None" for w
    using i by (intro for_up_fails [of _ i]) (simp_all add: LPCO_def)
  then show ?thesis by (simp add: lsp_weights_def bind_eq_None_conv del: get_arr)
qed

section \<open>Frequencies: the vector quantisers\<close>

lemma vector_distance_ok:
  assumes "s16_arr m cb" "s16_arr n x" "vdim \<le> n" "0 \<le> j" "(j + 1) * int vdim \<le> int m"
  shows "\<exists>d. vector_distance x cb vdim j = Some d \<and> is_s32 d"
  unfolding vector_distance_def
proof (rule for_up_inv [where P = is_s32])
  fix i d assume i: "int 0 \<le> i" "i < int vdim" and d: "is_s32 d"
  have "0 \<le> j * int vdim" using assms(4) by simp
  moreover have "j * int vdim + i < int m" using i assms(5) by (simp add: distrib_right)
  ultimately show "\<exists>t. (do { u \<leftarrow> get x i; v \<leftarrow> get cb (j * int vdim + i); let e = sub u v; Some (L_mac0 d e e) }) = Some t \<and> is_s32 t"
    using i d assms(1-3) by (simp add: Let_def)
qed simp

lemma vqmse_ok:
  assumes "s16_arr 8 x" "s16_arr 8 xq" "0 \<le> idx" "idx < 128"
  shows "\<exists>q j. vqmse xq idx x lspecb1 LPCO LSPECBSZ1 = Some (q, j) \<and> 0 \<le> j \<and> j < 128 \<and>
    vqdec xq j lspecb1 LPCO = Some q \<and> s16_arr 8 q"
proof -
  have "\<exists>t. for_up 0 LSPECBSZ1 (\<lambda>j (dmin, idx). do {
       d \<leftarrow> vector_distance x lspecb1 LPCO j;
       Some (if L_sub d dmin < 0 then (d, j) else (dmin, idx)) }) (MAX_32, idx) = Some t \<and> 0 \<le> snd t \<and> snd t < 128"
  proof (rule for_up_inv [where P = "\<lambda>t. 0 \<le> snd t \<and> snd t < 128"])
    fix j and t :: "int \<times> int" assume j: "int 0 \<le> j" "j < int LSPECBSZ1" and t: "0 \<le> snd t \<and> snd t < 128"
    obtain d where "vector_distance x lspecb1 LPCO j = Some d"
      using vector_distance_ok [OF lspecb1_arr assms(1), of LPCO j] j by (auto simp: LPCO_def LSPECBSZ1_def)
    then show "\<exists>t'. (case t of (dmin, idx) \<Rightarrow> do {
       d \<leftarrow> vector_distance x lspecb1 LPCO j;
       Some (if L_sub d dmin < 0 then (d, j) else (dmin, idx)) }) = Some t' \<and> 0 \<le> snd t' \<and> snd t' < 128"
      using j t by (cases t) (auto simp: LSPECBSZ1_def)
  qed (use assms in simp)
  then obtain d j where j: "for_up 0 LSPECBSZ1 (\<lambda>j (dmin, idx). do {
       d \<leftarrow> vector_distance x lspecb1 LPCO j;
       Some (if L_sub d dmin < 0 then (d, j) else (dmin, idx)) }) (MAX_32, idx) = Some (d, j)" "0 \<le> j" "j < 128" by auto
  obtain q where q: "vqdec xq j lspecb1 LPCO = Some q" "s16_arr 8 q"
    using vqdec_ok [OF lspecb1_arr, of LPCO xq j] assms(2) j by (auto simp: LPCO_def)
  then show ?thesis using j by (simp add: vqmse_def vqdec_def)
qed

lemma weighted_distance_ok:
  assumes "s16_arr m cb" "s16_arr n x" "s16_arr n w" "vdim \<le> n" "0 \<le> j" "(j + 1) * int vdim \<le> int m"
  shows "\<exists>d. weighted_distance x w cb vdim sg j = Some d"
proof -
  have "\<exists>d. weighted_distance x w cb vdim sg j = Some d \<and> is_s32 d"
    unfolding weighted_distance_def
  proof (rule for_up_inv [where P = is_s32])
    fix i d assume i: "int 0 \<le> i" "i < int vdim" and d: "is_s32 d"
    have "0 \<le> j * int vdim" using assms(5) by simp
    moreover have "j * int vdim + i < int m" using i assms(6) by (simp add: distrib_right)
    ultimately show "\<exists>t. (do { u \<leftarrow> get x i; v \<leftarrow> get cb (j * int vdim + i); wk \<leftarrow> get w i;
        let e = (if sg = 1 then sub u v else add u v); let we = mult wk e; Some (L_mac0 d we e) }) = Some t \<and> is_s32 t"
      using i d assms(1-4) by (simp add: Let_def)
  qed simp
  then show ?thesis by blast
qed

lemma candidate_stable_ok:
  assumes "s16_arr m cb" "s16_arr n xa" "3 \<le> vdim" "3 \<le> n" "0 \<le> j" "(j + 1) * int vdim \<le> int m"
  shows "\<exists>b. candidate_stable xa cb vdim sg j = Some b"
proof -
  have "\<exists>q. for_up 0 STBLDIM (\<lambda>k xqc. do {
       a \<leftarrow> get xa k; v \<leftarrow> get cb (j * int vdim + k);
       put xqc k (if sg = 1 then add a (shr_16 v 2) else sub a (shr_16 v 2)) }) (replicate STBLDIM 0) = Some q \<and> s16_arr 3 q"
  proof (rule for_up_inv [where P = "s16_arr 3"])
    fix i q assume i: "int 0 \<le> i" "i < int STBLDIM" and q: "s16_arr 3 q"
    have "0 \<le> j * int vdim" using assms(5) by simp
    moreover have "j * int vdim + i < int m" using i assms(3,6) by (simp add: distrib_right STBLDIM_def)
    ultimately show "\<exists>t. (do { a \<leftarrow> get xa i; v \<leftarrow> get cb (j * int vdim + i);
       put q i (if sg = 1 then add a (shr_16 v 2) else sub a (shr_16 v 2)) }) = Some t \<and> s16_arr 3 t"
      using i q assms(1,2,4) by (auto simp: STBLDIM_def intro!: arr_update)
  qed (simp add: STBLDIM_def)
  then obtain q where q: "for_up 0 STBLDIM (\<lambda>k xqc. do {
       a \<leftarrow> get xa k; v \<leftarrow> get cb (j * int vdim + k);
       put xqc k (if sg = 1 then add a (shr_16 v 2) else sub a (shr_16 v 2)) }) (replicate STBLDIM 0) = Some q" "s16_arr 3 q"
    by blast
  then show ?thesis using stblchck_ok [OF q(2), of STBLDIM] by (auto simp: candidate_stable_def STBLDIM_def)
qed

text \<open>The vector and its index: the code vector of the index, negated for an index of the upper half.\<close>

lemma svqwmse_ok:
  assumes "s16_arr 8 x" "s16_arr 8 xa" "s16_arr 8 w" "s16_arr 8 xq"
  shows "\<exists>q j (sg :: int) c. svqwmse xq x xa w lspecb2 LPCO (nat LSPECBSZ2) = Some (q, if sg = - 1 then 127 - j else j) \<and>
    0 \<le> j \<and> j < 64 \<and> (sg = 1 \<or> sg = - 1) \<and> vqdec xq j lspecb2 LPCO = Some c \<and> s16_arr 8 c \<and>
    q = (if sg = - 1 then map negate c else c)"
proof -
  let ?P = "\<lambda>t :: int \<times> int \<times> int. (fst (snd t) = - 1 \<or> 0 \<le> fst (snd t) \<and> fst (snd t) < 64) \<and>
    (snd (snd t) = 1 \<or> snd (snd t) = - 1)"
  have cand: "\<exists>t'. try_candidate x xa w lspecb2 LPCO sg j t = Some t' \<and> ?P t'"
    if h: "0 \<le> j" "j < 64" "sg = 1 \<or> sg = - 1" "?P t" for sg j t
  proof -
    obtain d where "weighted_distance x w lspecb2 LPCO sg j = Some d"
      using weighted_distance_ok [OF lspecb2_arr assms(1,3), of LPCO j sg] h by (auto simp: LPCO_def)
    moreover obtain b where "candidate_stable xa lspecb2 LPCO sg j = Some b"
      using candidate_stable_ok [OF lspecb2_arr assms(2), of LPCO j sg] h by (auto simp: LPCO_def)
    ultimately show ?thesis using h by (cases t) (auto simp: try_candidate_def)
  qed
  have "\<exists>t. for_up 0 (nat LSPECBSZ2) (\<lambda>j st. do {
       st \<leftarrow> try_candidate x xa w lspecb2 LPCO (- 1) j st;
       try_candidate x xa w lspecb2 LPCO 1 j st }) (MAX_32, - 1, 1) = Some t \<and> ?P t"
  proof (rule for_up_inv [where P = ?P])
    fix j t assume j: "int 0 \<le> j" "j < int (nat LSPECBSZ2)" and P: "?P t"
    have j': "0 \<le> j" "j < 64" using j by (simp_all add: LSPECBSZ2_def)
    obtain t1 where t1: "try_candidate x xa w lspecb2 LPCO (- 1) j t = Some t1" "?P t1" using cand [OF j' _ P, of "- 1"] by blast
    obtain t2 where "try_candidate x xa w lspecb2 LPCO 1 j t1 = Some t2" "?P t2" using cand [OF j' _ t1(2), of 1] by blast
    then show "\<exists>t'. (do { st \<leftarrow> try_candidate x xa w lspecb2 LPCO (- 1) j t;
       try_candidate x xa w lspecb2 LPCO 1 j st }) = Some t' \<and> ?P t'" using t1(1) by simp
  qed simp
  then obtain d j0 s0 where loop: "for_up 0 (nat LSPECBSZ2) (\<lambda>j st. do {
       st \<leftarrow> try_candidate x xa w lspecb2 LPCO (- 1) j st;
       try_candidate x xa w lspecb2 LPCO 1 j st }) (MAX_32, - 1, 1) = Some (d, j0, s0)"
    and P: "j0 = - 1 \<or> 0 \<le> j0 \<and> j0 < 64" "s0 = 1 \<or> s0 = - 1" by auto
  define j where "j = (if j0 = - 1 then 0 else j0)"
  define sg where "sg = (if j0 = - 1 then 1 else s0)"
  have r: "(if j0 = - 1 then (0, 1) else (j0, s0)) = (j, sg)" by (simp add: j_def sg_def)
  have j: "0 \<le> j" "j < 64" "sg = 1 \<or> sg = - 1" using P by (auto simp: j_def sg_def)
  obtain c where c: "vqdec xq j lspecb2 LPCO = Some c" "s16_arr 8 c"
    using vqdec_ok [OF lspecb2_arr, of LPCO xq j] assms(4) j by (auto simp: LPCO_def)
  have "s16 (j * int LPCO) = j * int LPCO" using j by (intro s16_idI) (simp_all add: LPCO_def)
  then have c': "for_up 0 LPCO (\<lambda>k xq. do { v \<leftarrow> get lspecb2 (j * int LPCO + k); put xq k v }) xq = Some c"
    using c(1) by (simp add: vqdec_def)
  have len: "length c = 8" using c(2) by (rule arr_length)
  have "\<exists>t. for_up 0 LPCO (\<lambda>k xq. do { v \<leftarrow> get xq k; put xq k (negate v) }) c = Some t \<and>
      (length t = 8 \<and> (\<forall>i<8. t ! i = (if i < LPCO then negate (c ! i) else c ! i)))"
    by (rule for_up_rule [where P = "\<lambda>k t. length t = 8 \<and> (\<forall>i<8. t ! i = (if i < k then negate (c ! i) else c ! i))"])
      (auto simp: len LPCO_def put_def nth_list_update less_Suc_eq)
  then obtain t where t: "for_up 0 LPCO (\<lambda>k xq. do { v \<leftarrow> get xq k; put xq k (negate v) }) c = Some t"
    "length t = 8" "\<forall>i<8. t ! i = negate (c ! i)" by (auto simp: LPCO_def)
  have neg: "t = map negate c" using t len by (intro nth_equalityI) simp_all
  have i: "sub (s16 (2 * int (nat LSPECBSZ2) - 1)) j = 127 - j"
    using j by (simp add: LSPECBSZ2_def s16_idI sub_eq is_s16_def clamp_id)
  have "svqwmse xq x xa w lspecb2 LPCO (nat LSPECBSZ2) =
      Some (if sg = - 1 then map negate c else c, if sg = - 1 then 127 - j else j)"
    unfolding svqwmse_def loop bind.bind_lunit prod.case r Let_def c' using t(1) j i by (auto simp: neg)
  with j c show ?thesis
    by (intro exI [of _ "if sg = - 1 then map negate c else c"] exI [of _ j] exI [of _ sg] exI [of _ c] conjI) simp_all
qed


section \<open>Frequencies: what the quantisation returns\<close>

text \<open>The code vector that an index pair stands for, as both sides compute it.\<close>

definition pair_vector :: "int list \<Rightarrow> int list \<Rightarrow> int \<Rightarrow> int list" where
  "pair_vector u c sg = map (\<lambda>i. shr_16 (add (u ! i) (if sg = - 1 then negate (c ! i) else c ! i)) 2) [0..<8]"

lemma pair_vector_type: "s16_arr 8 u \<Longrightarrow> s16_arr 8 c \<Longrightarrow> s16_arr 8 (pair_vector u c sg)"
  unfolding pair_vector_def by (rule arr_map_upt) (auto intro: s16_nth)

lemma lspquan_returns:
  assumes "length lspq = 8" "s16_arr 8 lsp" "s16_arr 64 lsppm" "length lspidx = 2" "0 \<le> lspidx ! 0" "lspidx ! 0 < 128"
    and "\<forall>i<7. lsp ! i < lsp ! Suc i"
  shows "\<exists>e u c j1 j2 sg m q. lsp_estimate lsppm = Some e \<and> s16_arr 8 e \<and>
    vqdec (replicate LPCO 0) j1 lspecb1 LPCO = Some u \<and> s16_arr 8 u \<and> 0 \<le> j1 \<and> j1 < 128 \<and>
    vqdec (replicate LPCO 0) j2 lspecb2 LPCO = Some c \<and> s16_arr 8 c \<and> 0 \<le> j2 \<and> j2 < 64 \<and> (sg = 1 \<or> sg = - 1) \<and>
    lsp_memory_update (get (pair_vector u c sg)) lsppm = Some m \<and> s16_arr 64 m \<and>
    stblz_lsp (map (\<lambda>i. add (add (lspmean ! i) (e ! i)) (pair_vector u c sg ! i)) [0..<8]) 8 = Some q \<and> s16_arr 8 q \<and> spaced q \<and>
    lspquan lspq lspidx lsp lsppm = Some (q, [j1, if sg = - 1 then 127 - j2 else j2], m)"
proof -
  have Z: "s16_arr 8 (replicate LPCO 0)" by (simp add: LPCO_def)
  obtain d mn where d: "lsp_differences lsp = Some (d, mn)" "s16_arr 8 d" "\<forall>i<7. mn \<le> d ! i"
    "\<exists>i<7. mn = d ! i" "\<forall>i<7. d ! i = sub (lsp ! Suc i) (lsp ! i)"
    using lsp_differences_ok [OF assms(2)] by blast
  have "0 < sub (lsp ! Suc i) (lsp ! i)" if "i < 7" for i
    using assms(7) that s16_nth [OF assms(2), of i] s16_nth [OF assms(2), of "Suc i"] by (auto simp: sub_eq clamp_def)
  then have "0 < mn" using d(4,5) by auto
  then obtain w where w: "lsp_weights d mn = Some w" "s16_arr 8 w" using lsp_weights_ok [OF d(2,3)] by blast
  obtain e where e: "lsp_estimate lsppm = Some e" "s16_arr 8 e" using lsp_estimate_ok [OF assms(3)] by blast
  define t where "t = map (\<lambda>i. shl (sub (sub (lsp ! i) (lspmean ! i)) (e ! i)) 2) [0..<8]"
  have t: "s16_arr 8 t" unfolding t_def by (rule arr_map_upt) (use assms(2) e(2) in \<open>auto intro!: s16_nth\<close>)
  obtain u j1 where u: "vqmse (replicate LPCO 0) (lspidx ! 0) t lspecb1 LPCO LSPECBSZ1 = Some (u, j1)" "0 \<le> j1" "j1 < 128"
    "vqdec (replicate LPCO 0) j1 lspecb1 LPCO = Some u" "s16_arr 8 u"
    using vqmse_ok [OF t Z assms(5,6)] by blast
  define x where "x = map (\<lambda>i. sub (t ! i) (u ! i)) [0..<8]"
  have x: "s16_arr 8 x" unfolding x_def by (rule arr_map_upt) (use t u(5) in \<open>auto intro!: s16_nth\<close>)
  define a where "a = map (\<lambda>i. add (add (lspmean ! i) (e ! i)) (shr_16 (u ! i) 2)) [0..<8]"
  have a: "s16_arr 8 a" unfolding a_def by (rule arr_map_upt) (use e(2) u(5) in \<open>auto intro!: s16_nth\<close>)
  obtain p j2 c and sg :: int where p: "svqwmse (replicate LPCO 0) x a w lspecb2 LPCO (nat LSPECBSZ2) = Some (p, if sg = - 1 then 127 - j2 else j2)"
    "0 \<le> j2" "j2 < 64" "sg = 1 \<or> sg = - 1" "vqdec (replicate LPCO 0) j2 lspecb2 LPCO = Some c" "s16_arr 8 c"
    "p = (if sg = - 1 then map negate c else c)"
    using svqwmse_ok [OF x a w(2) Z] by blast
  define v where "v = pair_vector u c sg"
  have v: "s16_arr 8 v" unfolding v_def by (rule pair_vector_type [OF u(5) p(6)])
  have len: "length lsp = 8" "length e = 8" "length t = 8" "length u = 8" "length x = 8" "length c = 8" "length v = 8" "length d = 8"
    "length p = 8" using assms(2) d e t u x p v by (auto simp: arr_def)
  obtain m where m: "lsp_memory_update (get v) lsppm = Some m" "s16_arr 64 m"
    using lsp_memory_update_ok [OF assms(3), of "get v"] arr_get [OF v] by auto
  define q0 where "q0 = map (\<lambda>i. add (add (lspmean ! i) (e ! i)) (v ! i)) [0..<8]"
  have "s16_arr 8 q0" unfolding q0_def by (rule arr_map_upt) (use e(2) v in \<open>auto intro!: s16_nth\<close>)
  then obtain q where q: "stblz_lsp q0 8 = Some q" "s16_arr 8 q" "spaced q" using stblz_lsp_ok by blast
  have L1: "for_up 0 LPCO (\<lambda>i lspe. do { l \<leftarrow> get lsp i; m \<leftarrow> get lspmean i; e' \<leftarrow> get e i;
       put lspe i (shl (sub (sub l m) e') 2) }) (replicate LPCO 0) = Some t"
    unfolding t_def LPCO_def by (rule for_up_fill_body) (simp_all add: len)
  have L2: "for_up 0 LPCO (\<lambda>i d. do { a \<leftarrow> get t i; b \<leftarrow> get u i; put d i (sub a b) }) d = Some x"
    unfolding x_def LPCO_def by (rule for_up_fill_body) (simp_all add: len)
  have L3: "for_up 0 LPCO (\<lambda>i lspa. do { m \<leftarrow> get lspmean i; e' \<leftarrow> get e i; b \<leftarrow> get u i;
       put lspa i (add (add m e') (shr_16 b 2)) }) (replicate LPCO 0) = Some a"
    unfolding a_def LPCO_def by (rule for_up_fill_body) (simp_all add: len)
  have L4: "for_up 0 LPCO (\<lambda>i lspe. do { a \<leftarrow> get u i; b \<leftarrow> get p i; put lspe i (shr_16 (add a b) 2) }) t = Some v"
    unfolding v_def pair_vector_def LPCO_def
    by (rule for_up_fill_body) (simp_all add: len p(7) if_distrib [of "\<lambda>xs. xs ! _"])
  have L5: "for_up 0 LPCO (\<lambda>i lspq. do { m \<leftarrow> get lspmean i; e' \<leftarrow> get e i; b \<leftarrow> get v i;
       put lspq i (add (add m e') b) }) lspq = Some q0"
    unfolding q0_def LPCO_def by (rule for_up_fill_body) (simp_all add: len assms(1))
  obtain i0 i1 where idx: "lspidx = [i0, i1]" using assms(4) by (auto simp: numeral_2_eq_2 length_Suc_conv)
  have I: "get lspidx 0 = Some (lspidx ! 0)" "put lspidx 0 j1 = Some [j1, i1]" "put [j1, i1] 1 k = Some [j1, k]" for k
    by (simp_all add: idx get_def put_def)
  have "lspquan lspq lspidx lsp lsppm = Some (q, [j1, if sg = - 1 then 127 - j2 else j2], m)"
    unfolding lspquan_def d(1) w(1) e(1) bind.bind_lunit split_beta fst_conv snd_conv L1 I(1) u(1) I(2) L2 L3 p(1) I(3) L4 m(1) L5
    using q(1) by (simp add: LPCO_def)
  then show ?thesis using e u(2-5) p(2-6) m q unfolding v_def q0_def by blast
qed

lemma lspquan_aborts:
  assumes "s16_arr 8 lsp" "\<not> (\<forall>i<7. lsp ! i < lsp ! Suc i)"
  shows "lspquan lspq lspidx lsp lsppm = None"
proof -
  obtain i where i: "i < 7" "lsp ! Suc i \<le> lsp ! i" using assms(2) by (auto simp: not_less)
  obtain d mn where d: "lsp_differences lsp = Some (d, mn)" "s16_arr 8 d" "\<forall>i<7. mn \<le> d ! i"
    "\<exists>i<7. mn = d ! i" "\<forall>i<7. d ! i = sub (lsp ! Suc i) (lsp ! i)"
    using lsp_differences_ok [OF assms(1)] by blast
  have "sub (lsp ! Suc i) (lsp ! i) \<le> 0"
    using i s16_nth [OF assms(1), of i] s16_nth [OF assms(1), of "Suc i"] by (auto simp: sub_eq clamp_def)
  then have "mn \<le> 0" using d(3,5) i(1) by fastforce
  moreover obtain k where "k < 7" "mn = d ! k" using d(4) by blast
  ultimately have "lsp_weights d mn = None" by (intro lsp_weights_fails [OF d(2,3)])
  then show ?thesis by (simp add: lspquan_def d(1))
qed

text \<open>The quantisation of the frequencies divides by their distances: it returns exactly when the
eight frequencies are strictly increasing. When two of them coincide or cross, a division aborts the
whole program. When it returns, the indices have seven bits and the quantised frequencies keep their
minimal distance.\<close>

theorem lspquan_domain:
  assumes "length lspq = 8" "s16_arr 8 lsp" "s16_arr 64 lsppm" "length lspidx = 2" "0 \<le> lspidx ! 0" "lspidx ! 0 < 128"
  shows "case lspquan lspq lspidx lsp lsppm of
      None \<Rightarrow> \<exists>i<7. lsp ! Suc i \<le> lsp ! i
    | Some (q, idx, m) \<Rightarrow> (\<forall>i<7. lsp ! i < lsp ! Suc i) \<and> spaced q \<and> arr (\<lambda>k. 0 \<le> k \<and> k < 128) 2 idx \<and> s16_arr 64 m"
proof (cases "\<forall>i<7. lsp ! i < lsp ! Suc i")
  case True
  from lspquan_returns [OF assms True] obtain j1 j2 m q and sg :: int where
    "lspquan lspq lspidx lsp lsppm = Some (q, [j1, if sg = - 1 then 127 - j2 else j2], m)" "spaced q" "s16_arr 64 m"
    "0 \<le> j1" "j1 < 128" "0 \<le> j2" "j2 < 64" by blast
  with True show ?thesis by (simp add: arr_def)
next
  case False
  then show ?thesis using lspquan_aborts [OF assms(2) False, of lspq lspidx lsppm] by (auto simp: not_less)
qed

lemma lspquan_domain_witness:
  "case lspquan (replicate 8 0) [0, 0] [1000, 2000, 2000, 3000, 4000, 5000, 6000, 7000] (replicate 64 0) of
      None \<Rightarrow> \<exists>i<7. [1000, 2000, 2000, 3000, 4000, 5000, 6000, 7000] ! Suc i \<le> [1000, 2000, 2000, 3000, 4000, 5000, 6000, 7000 :: int] ! i
    | Some (q, idx, m) \<Rightarrow> (\<forall>i<7. [1000, 2000, 2000, 3000, 4000, 5000, 6000, 7000] ! i <
        [1000, 2000, 2000, 3000, 4000, 5000, 6000, 7000 :: int] ! Suc i) \<and> spaced q \<and> arr (\<lambda>k. 0 \<le> k \<and> k < 128) 2 idx \<and> s16_arr 64 m"
  by (rule lspquan_domain) (simp_all add: arr_def list_all_length nth_Cons' is_s16_def)

section \<open>Frequencies: the decoder follows\<close>

lemma pair_vector_decoded:
  assumes "vqdec (replicate LPCO 0) j1 lspecb1 LPCO = Some u" "s16_arr 8 u"
    and "vqdec (replicate LPCO 0) j2 lspecb2 LPCO = Some c" "s16_arr 8 c" "0 \<le> j2" "j2 < 64" "sg = 1 \<or> sg = - 1"
  shows "lsp_code_vector j1 (if sg = - 1 then 127 - j2 else j2) = Some (pair_vector u c sg)"
proof -
  let ?k = "if sg = - 1 then 127 - j2 else j2"
  have t: "arr (\<lambda>x. is_s16 x \<and> x \<noteq> - 32768) 512 lspecb2" by code_simp
  have "\<exists>r. vqdec (replicate LPCO 0) j2 lspecb2 LPCO = Some r \<and> arr (\<lambda>x. is_s16 x \<and> x \<noteq> - 32768) LPCO r"
    using assms(5,6) by (intro vqdec_ok [OF t]) (simp_all add: LPCO_def)
  then have c: "is_s16 (c ! i) \<and> c ! i \<noteq> - 32768" if "i < 8" for i
    using assms(3) that by (auto simp: LPCO_def dest: arr_nth)
  have idx: "(if ?k \<ge> LSPECBSZ2 then (- 1, sub (s16 (2 * LSPECBSZ2 - 1)) ?k) else (1 :: int, ?k)) = (sg, j2)"
    using assms(5-7) by (auto simp: LSPECBSZ2_def s16_idI sub_eq is_s16_def clamp_id)
  have step: "(if sg = 1 then add (u ! i) (c ! i) else sub (u ! i) (c ! i)) =
      add (u ! i) (if sg = - 1 then negate (c ! i) else c ! i)" if "i < 8" for i
  proof -
    have "is_s16 (u ! i)" using assms(2) that by (rule s16_nth)
    then show ?thesis using c [OF that] assms(7)
      by (auto simp: sub_eq add_eq negate_eq clamp_def is_s16_def)
  qed
  have len: "length u = 8" "length c = 8" using assms by (auto simp: arr_def)
  have "for_up 0 LPCO (\<lambda>i lspe. do { a \<leftarrow> get u i; b \<leftarrow> get c i;
      put lspe i (shr_16 (if sg = 1 then add a b else sub a b) 2) }) (replicate LPCO 0) = Some (pair_vector u c sg)"
    unfolding pair_vector_def LPCO_def by (rule for_up_fill_body) (simp_all add: len step [symmetric])
  then show ?thesis unfolding lsp_code_vector_def idx using assms(1,3) by simp
qed

text \<open>The frequencies of the decoder before it spaces them.\<close>

definition decoded_lsp :: "int list \<Rightarrow> int list \<Rightarrow> int list option" where
  "decoded_lsp lspidx lsppm = do {
     elsp \<leftarrow> lsp_estimate lsppm;
     idx1 \<leftarrow> get lspidx 0;
     idx2 \<leftarrow> get lspidx 1;
     lspe \<leftarrow> lsp_code_vector idx1 idx2;
     for_up 0 LPCO (\<lambda>i lspq. do { v \<leftarrow> lsp_sum lspe elsp i; put lspq i v }) (replicate LPCO 0) }"

lemma stblchck_agree: "agree 3 xs ys \<Longrightarrow> stblchck xs STBLDIM = stblchck ys STBLDIM"
proof -
  assume a: "agree 3 xs ys"
  have g: "get xs i = get ys i" if "i < 3" for i using get_agree [OF a, of i] that by simp
  have e: "for_up 1 3 (\<lambda>k s. do { u \<leftarrow> get xs k; v \<leftarrow> get xs (k - 1); Some (if u < v then 0 else s) }) (1 :: int)
      = for_up 1 3 (\<lambda>k s. do { u \<leftarrow> get ys k; v \<leftarrow> get ys (k - 1); Some (if u < v then 0 else s) }) 1"
    unfolding for_up_def by (rule run_loop_cong) (auto simp: g)
  show ?thesis unfolding stblchck_def STBLDIM_def e using g [of 0] by simp
qed

lemma for_up_split: "a \<le> b \<Longrightarrow> b \<le> c \<Longrightarrow> for_up a c f s = Option.bind (for_up a b f s) (for_up b c f)"
  using upt_add_eq_append [of a b "c - b"] by (simp add: for_up_def run_loop_append)

lemma lspdec_accepts:
  assumes "lsp_estimate lsppm = Some e" "s16_arr 8 e" "lsp_code_vector j1 k = Some v" "s16_arr 8 v" "length lspq = 8"
    and "decoded_lsp [j1, k] lsppm = Some d" "stblchck d STBLDIM = Some 1"
    and "lsp_memory_update (get v) lsppm = Some m" "stblz_lsp d LPCO = Some q"
  shows "lspdec lspq [j1, k] lsppm lspq_last = Some (q, m)"
proof -
  let ?f = "\<lambda>i lspq. do { x \<leftarrow> lsp_sum v e i; put lspq i x }"
  define w where "w i = add (add (v ! i) (e ! i)) (lspmean ! i)" for i
  have len: "length e = 8" "length v = 8" using assms(2,4) by (auto simp: arr_def)
  have w: "lsp_sum v e (int i) = Some (w i)" if "i < 8" for i
    using that by (simp add: lsp_sum_def len w_def)
  have body: "?f (int i) ys = put ys (int i) (w i)" if "i < 8" for i ys using w [OF that] by simp
  have full: "for_up 0 8 ?f ys = Some (map w [0..<8])" if "length ys = 8" for ys
    using that by (rule for_up_fill_body) (rule body)
  have d: "d = map w [0..<8]"
    using assms(1,3,6) full [of "replicate 8 0"] by (simp add: decoded_lsp_def LPCO_def get_def)
  have "\<exists>t. for_up 0 3 ?f lspq = Some t \<and> length t = 8 \<and> (\<forall>k<3. t ! k = w k)"
  proof (rule for_up_rule [where P = "\<lambda>i t. length t = 8 \<and> (\<forall>k<i. t ! k = w k)"])
    fix i t assume "i < 3" "length t = 8 \<and> (\<forall>k<i. t ! k = w k)"
    then show "\<exists>t'. ?f (int i) t = Some t' \<and> length t' = 8 \<and> (\<forall>k<Suc i. t' ! k = w k)"
      using w [of i] by (auto simp: put_def nth_list_update less_Suc_eq)
  qed (use assms(5) in simp_all)
  then obtain t where t: "for_up 0 3 ?f lspq = Some t" "length t = 8" "\<forall>k<3. t ! k = w k" by blast
  have "agree 3 t d" using t(2,3) by (simp add: agree_def d)
  then have "stblchck t STBLDIM = Some 1" using stblchck_agree assms(7) by simp
  moreover have "for_up 3 8 ?f t = Some d"
    using for_up_split [of 0 3 8 ?f lspq] full [OF assms(5)] t(1) d by simp
  ultimately show ?thesis
    using assms(1,3,8,9) t(1) unfolding lspdec_def by (simp add: get_def STBLDIM_def LPCO_def)
qed

lemma lspquan_follows:
  assumes "length lspq = 8" "s16_arr 8 lsp" "s16_arr 64 lsppm" "length lspidx = 2" "0 \<le> lspidx ! 0" "lspidx ! 0 < 128"
    and "\<forall>i<7. lsp ! i < lsp ! Suc i"
    and "\<forall>e. lsp_estimate lsppm = Some e \<longrightarrow> (\<forall>i<8. \<bar>e ! i\<bar> \<le> 24576 \<and> lspmean ! i + e ! i \<le> 32767)"
    and "length lspq_d = 8"
  shows "\<exists>q idx m d. lspquan lspq lspidx lsp lsppm = Some (q, idx, m) \<and> decoded_lsp idx lsppm = Some d \<and>
    (stblchck d STBLDIM = Some 1 \<longrightarrow> lspdec lspq_d idx lsppm lspq_last = Some (q, m))"
proof -
  from lspquan_returns [OF assms(1-7)] obtain e u c j1 j2 m q and sg :: int where
    e: "lsp_estimate lsppm = Some e" "s16_arr 8 e"
    and u: "vqdec (replicate LPCO 0) j1 lspecb1 LPCO = Some u" "s16_arr 8 u" "0 \<le> j1" "j1 < 128"
    and c: "vqdec (replicate LPCO 0) j2 lspecb2 LPCO = Some c" "s16_arr 8 c" "0 \<le> j2" "j2 < 64" "sg = 1 \<or> sg = - 1"
    and m: "lsp_memory_update (get (pair_vector u c sg)) lsppm = Some m"
    and q: "stblz_lsp (map (\<lambda>i. add (add (lspmean ! i) (e ! i)) (pair_vector u c sg ! i)) [0..<8]) 8 = Some q"
    and r: "lspquan lspq lspidx lsp lsppm = Some (q, [j1, if sg = - 1 then 127 - j2 else j2], m)" by blast
  define k where "k = (if sg = - 1 then 127 - j2 else j2)"
  define v where "v = pair_vector u c sg"
  note r = r [folded k_def] and m = m [folded v_def] and q = q [folded v_def]
  have cv: "lsp_code_vector j1 k = Some v" unfolding k_def v_def by (rule pair_vector_decoded [OF u(1,2) c])
  have v: "s16_arr 8 v" unfolding v_def by (rule pair_vector_type [OF u(2) c(2)])
  define d where "d = map (\<lambda>i. add (add (v ! i) (e ! i)) (lspmean ! i)) [0..<8]"
  have len: "length e = 8" "length v = 8" using e v by (auto simp: arr_def)
  have "for_up 0 LPCO (\<lambda>i lspq. do { x \<leftarrow> lsp_sum v e i; put lspq i x }) (replicate LPCO 0) = Some d"
    unfolding d_def LPCO_def by (rule for_up_fill_body) (simp_all add: lsp_sum_def len)
  then have d: "decoded_lsp [j1, k] lsppm = Some d" by (simp add: decoded_lsp_def e(1) cv get_def)
  have "add (add (lspmean ! i) (e ! i)) (v ! i) = add (add (v ! i) (e ! i)) (lspmean ! i)" if i: "i < 8" for i
  proof -
    have x: "\<bar>e ! i\<bar> \<le> 24576" "lspmean ! i + e ! i \<le> 32767" using assms(8) e(1) i by auto
    have s: "is_s16 (lspmean ! i)" "is_s16 (e ! i)" "is_s16 (v ! i)" "is_s16 (u ! i)" "is_s16 (c ! i)"
      using i by (auto intro: s16_nth [OF lspmean_arr] s16_nth [OF e(2)] s16_nth [OF v] s16_nth [OF u(2)] s16_nth [OF c(2)])
    define a where "a = add (u ! i) (if sg = - 1 then negate (c ! i) else c ! i)"
    have "is_s16 a" using s by (simp add: a_def)
    moreover have "v ! i = shr_16 a 2" using i by (simp add: v_def pair_vector_def a_def)
    ultimately have "- 8192 \<le> v ! i" "v ! i \<le> 8191" by (auto simp: shr_16_right shr_def is_s16_def)
    moreover have "\<forall>i<8. 0 \<le> lspmean ! i" by code_simp
    ultimately show ?thesis using x s i by (auto simp: add_eq clamp_def is_s16_def)
  qed
  then have "map (\<lambda>i. add (add (lspmean ! i) (e ! i)) (v ! i)) [0..<8] = d" by (simp add: d_def)
  then have "stblz_lsp d LPCO = Some q" using q by (simp add: LPCO_def)
  then show ?thesis using r d lspdec_accepts [OF e cv v assms(9) d _ m] by blast
qed



text \<open>(C36) The two sides do not check the same numbers: the encoder adds the halves of the code vector
after rounding each of them, the decoder rounds their sum. In the state that the first frame with the
codes 122 and 76 leaves behind, the encoder accepts the candidate with the codes 126 and 65 as ordered,
and the decoder, which received every bit right, takes the same codes for a transmission error.\<close>

theorem stability_checks_disagree:
  "\<exists>v m e u d. lsp_code_vector 122 76 = Some v \<and> lsp_memory_update (get v) (replicate 64 0) = Some m \<and>
    lsp_estimate m = Some e \<and> vqdec (replicate LPCO 0) 126 lspecb1 LPCO = Some u \<and>
    candidate_stable (map (\<lambda>i. add (add (lspmean ! i) (e ! i)) (shr_16 (u ! i) 2)) [0..<LPCO]) lspecb2 LPCO (- 1) 62 = Some 1 \<and>
    decoded_lsp [126, 65] m = Some d \<and> stblchck d STBLDIM = Some 0"
proof -
  define v :: "int list" where "v = [- 144, - 821, - 3612, - 2082, - 1395, - 1242, - 604, - 355]"
  define m where "m = concat (map (\<lambda>v. v # replicate 7 0) v)"
  have v: "lsp_code_vector 122 76 = Some v" unfolding v_def by code_simp
  have m: "lsp_memory_update (get v) (replicate 64 0) = Some m" unfolding m_def v_def by code_simp
  define e :: "int list" where "e = [- 150, - 850, - 3812, - 2242, - 1486, - 1289, - 617, - 343]"
  have e: "lsp_estimate m = Some e" unfolding m_def v_def e_def by code_simp
  define u :: "int list" where "u = [3843, 8267, 6516, - 1579, - 5774, - 5780, - 3922, - 3817]"
  have u: "vqdec (replicate LPCO 0) 126 lspecb1 LPCO = Some u" unfolding u_def by code_simp
  have enc: "candidate_stable (map (\<lambda>i. add (add (lspmean ! i) (e ! i)) (shr_16 (u ! i) 2)) [0..<LPCO]) lspecb2 LPCO (- 1) 62 = Some 1"
    unfolding e_def u_def by code_simp
  define d :: "int list" where "d = [4311, 7314, 7313, 9509, 13299, 16873, 21690, 24983]"
  have d: "decoded_lsp [126, 65] m = Some d" unfolding m_def v_def d_def by code_simp
  have "stblchck d STBLDIM = Some 0" unfolding d_def by code_simp
  with v m e u enc d show ?thesis by blast
qed

end
