(* ===== verification/BV_EncLPC.thy ===== *)
theory BV_EncLPC
  imports Complex_Main BV_Params
begin

text \<open>
  The linear prediction analysis of the BroadVoice16 encoder: windowing and autocorrelation with
  spectral smoothing (\<open>autocor.c\<close>), the Levinson-Durbin recursion (\<open>levdur.c\<close>) and the search of
  the line spectral frequencies (\<open>a2lsp.c\<close>). Local arrays start as zeros, each cell is written before
  it is read. The recursion returns early for an unstable filter: the last component of its state says
  whether it is stable.
\<close>

definition WINSZ :: nat where "WINSZ = 160"
definition NAB :: nat where "NAB = 5"
definition NBIS :: nat where "NBIS = 4"

section \<open>Autocorrelation (\<open>autocor.c\<close>)\<close>

definition window_samples :: "int list \<Rightarrow> int \<Rightarrow> int list \<Rightarrow> nat \<Rightarrow> int list option" where
  "window_samples x xo window l_window = for_up 0 l_window (\<lambda>n buf. do {
     v \<leftarrow> get x (xo + n); w \<leftarrow> get window n;
     put buf n (mult_r v w) }) (replicate WINSZ 0)"

definition scaled_energy :: "int list \<Rightarrow> nat \<Rightarrow> int option" where
  "scaled_energy buf l_window = for_up 0 l_window (\<lambda>n a0. do {
     v \<leftarrow> get buf n;
     let y_shift = shr_16 v 4;
     Some (L_mac0 a0 y_shift y_shift) }) 1"

definition shift_samples :: "int list \<Rightarrow> nat \<Rightarrow> int \<Rightarrow> (int list \<times> int) option" where
  "shift_samples buf l_window shift = for_up 0 l_window (\<lambda>n (buf, a0). do {
     v \<leftarrow> get buf n;
     let v = shr_16 v shift;
     buf \<leftarrow> put buf n v;
     Some (buf, L_mac0 a0 v v) }) (buf, 1)"

definition correlation_at :: "int list \<Rightarrow> int \<Rightarrow> int \<Rightarrow> int option" where
  "correlation_at buf l_window j = for_range 0 (l_window - j) (\<lambda>n a0. do {
     u \<leftarrow> get buf n; v \<leftarrow> get buf (n + j);
     Some (L_mac0 a0 u v) }) 0"

definition Autocorr :: "int list \<Rightarrow> int list \<Rightarrow> int \<Rightarrow> int list \<Rightarrow> nat \<Rightarrow> nat \<Rightarrow> int list option" where
  "Autocorr r x xo window l_window m = do {
     buf \<leftarrow> window_samples x xo window l_window;
     a0 \<leftarrow> scaled_energy buf l_window;
     let shift = sub 4 (shr_16 (norm_l a0) 1);
     let shift = (if shift < 0 then 0 else shift);
     (buf, a0) \<leftarrow> shift_samples buf l_window shift;
     let shift = norm_l a0;
     r \<leftarrow> put r 0 (L_shl a0 shift);
     for_up 1 (m + 1) (\<lambda>j r. do {
       a0 \<leftarrow> correlation_at buf (int l_window) j;
       put r j (L_shl a0 shift) }) r }"

definition Spectral_Smoothing :: "nat \<Rightarrow> int list \<Rightarrow> int list \<Rightarrow> int list \<Rightarrow> int list option" where
  "Spectral_Smoothing m r lag_h lag_l = for_up 1 (m + 1) (\<lambda>i r. do {
     v \<leftarrow> get r i;
     let (hi, lo) = L_Extract v;
     h \<leftarrow> get lag_h (i - 1); l \<leftarrow> get lag_l (i - 1);
     put r i (Mpy_32 hi lo h l) }) r"

section \<open>Levinson-Durbin recursion (\<open>levdur.c\<close>)\<close>

definition normalise_correlation :: "int list \<Rightarrow> nat \<Rightarrow> (int list \<times> int list \<times> int list) option" where
  "normalise_correlation r32 m = do {
     r0 \<leftarrow> get r32 0;
     let ex = norm_l r0;
     for_up 0 (m + 1) (\<lambda>i (r32, r_hi, r_lo). do {
       v \<leftarrow> get r32 i;
       let v = L_shl v ex;
       r32 \<leftarrow> put r32 i v;
       let (hi, lo) = L_Extract v;
       r_hi \<leftarrow> put r_hi i hi;
       r_lo \<leftarrow> put r_lo i lo;
       Some (r32, r_hi, r_lo) }) (r32, replicate (LPCO + 1) 0, replicate (LPCO + 1) 0) }"

text \<open>The coefficients so far and the residual energy: \<open>a_hi\<close>, \<open>a_lo\<close>, \<open>alpha_man\<close>, \<open>alpha_exp\<close>.\<close>

type_synonym levdur_state = "int list \<times> int list \<times> int \<times> int"

definition first_coefficient :: "int list \<Rightarrow> int list \<Rightarrow> int list \<Rightarrow> levdur_state option" where
  "first_coefficient r32 r_hi r_lo = do {
     r1 \<leftarrow> get r32 1; h0 \<leftarrow> get r_hi 0; l0 \<leftarrow> get r_lo 0;
     a0 \<leftarrow> Div_32 (L_abs r1) h0 l0;
     let a0 = (if r1 > 0 then L_negate a0 else a0);
     let (hi, lo) = L_Extract (L_shr a0 4);
     a_hi \<leftarrow> put (replicate (LPCO + 1) 0) 1 hi;
     a_lo \<leftarrow> put (replicate (LPCO + 1) 0) 1 lo;
     let (high, low) = L_Extract a0;
     let a0 = Mpy_32 high low high low;
     let a0 = L_abs a0;
     let a0 = L_sub 0x40000000 (L_shr a0 1);
     let (high, low) = L_Extract a0;
     let a0 = Mpy_32 h0 l0 high low;
     let alpha_exp = norm_l a0;
     let alpha_man = L_shl a0 alpha_exp;
     Some (a_hi, a_lo, alpha_man, sub alpha_exp 1) }"

definition yule_sum :: "int list \<Rightarrow> int list \<Rightarrow> int list \<Rightarrow> int list \<Rightarrow> int \<Rightarrow> int option" where
  "yule_sum r_hi r_lo a_hi a_lo i = for_range 1 i (\<lambda>j a0. do {
     rh \<leftarrow> get r_hi j; rl \<leftarrow> get r_lo j; ah \<leftarrow> get a_hi (i - j); al \<leftarrow> get a_lo (i - j);
     Some (L_add a0 (Mpy_32 rh rl ah al)) }) 0"

definition new_coefficients :: "int list \<Rightarrow> int list \<Rightarrow> int \<Rightarrow> int \<Rightarrow> int \<Rightarrow> int \<Rightarrow> (int list \<times> int list) option" where
  "new_coefficients a_hi a_lo rc_hi rc_lo a1 i = do {
     (anew_hi, anew_lo) \<leftarrow> for_range 1 i (\<lambda>j (anew_hi, anew_lo). do {
       ah \<leftarrow> get a_hi (i - j); al \<leftarrow> get a_lo (i - j);
       let a0 = Mpy_32 ah al rc_hi rc_lo;
       h \<leftarrow> get a_hi j; l \<leftarrow> get a_lo j;
       let a0 = L_add a0 (L_Comp h l);
       let (hi, lo) = L_Extract a0;
       anew_hi \<leftarrow> put anew_hi j hi;
       anew_lo \<leftarrow> put anew_lo j lo;
       Some (anew_hi, anew_lo) }) (replicate (LPCO + 1) 0, replicate (LPCO + 1) 0);
     let (hi, lo) = L_Extract (L_shr a1 4);
     anew_hi \<leftarrow> put anew_hi i hi;
     anew_lo \<leftarrow> put anew_lo i lo;
     Some (anew_hi, anew_lo) }"

definition levdur_step :: "int list \<Rightarrow> int list \<Rightarrow> int list \<Rightarrow> int \<Rightarrow> levdur_state \<times> bool \<Rightarrow>
    ((levdur_state \<times> bool) \<times> bool) option" where
  "levdur_step r32 r_hi r_lo i = (\<lambda>((a_hi, a_lo, alpha_man, alpha_exp), stable). do {
     a0 \<leftarrow> yule_sum r_hi r_lo a_hi a_lo i;
     let a0 = L_shl a0 4;
     ri \<leftarrow> get r32 i;
     let a0 = L_add a0 ri;
     let ex = norm_l a0;
     let a0 = L_shl a0 ex;
     let a1 = L_abs a0;
     let (a1, ex) = (if L_sub a1 alpha_man \<ge> 0 then (L_shr a1 1, sub ex 1) else (a1, ex));
     let (alpha_hi, alpha_lo) = L_Extract alpha_man;
     a1 \<leftarrow> Div_32 a1 alpha_hi alpha_lo;
     let a1 = (if a0 > 0 then L_negate a1 else a1);
     let a1 = L_shr a1 (sub ex alpha_exp);
     let (rc_hi, rc_lo) = L_Extract a1;
     if sub (abs_s (intround a1)) 32750 > 0
     then Some (((a_hi, a_lo, alpha_man, alpha_exp), False), True)
     else do {
       (anew_hi, anew_lo) \<leftarrow> new_coefficients a_hi a_lo rc_hi rc_lo a1 i;
       let a0 = Mpy_32 rc_hi rc_lo rc_hi rc_lo;
       let a0 = L_abs a0;
       let a0 = L_shr a0 1;
       let a0 = L_sub 0x40000000 a0;
       let (high, low) = L_Extract a0;
       let a0 = Mpy_32 alpha_hi alpha_lo high low;
       let ex = norm_l a0;
       let alpha_man = L_shl a0 ex;
       let alpha_exp = sub (add alpha_exp ex) 1;
       (a_hi, a_lo) \<leftarrow> for_range 1 (i + 1) (\<lambda>j (a_hi, a_lo). do {
         h \<leftarrow> get anew_hi j; a_hi \<leftarrow> put a_hi j h;
         l \<leftarrow> get anew_lo j; a_lo \<leftarrow> put a_lo j l;
         Some (a_hi, a_lo) }) (a_hi, a_lo);
       Some (((a_hi, a_lo, alpha_man, alpha_exp), stable), False) } })"

definition Levinson :: "int list \<Rightarrow> int list \<Rightarrow> int list \<Rightarrow> nat \<Rightarrow> (int list \<times> int list) option" where
  "Levinson r32 a old_a m = do {
     (r32, r_hi, r_lo) \<leftarrow> normalise_correlation r32 m;
     st \<leftarrow> first_coefficient r32 r_hi r_lo;
     ((a_hi, a_lo, alpha_man, alpha_exp), stable) \<leftarrow>
       run_break (map int [2..<m + 1]) (levdur_step r32 r_hi r_lo) (st, True);
     a \<leftarrow> put a 0 4096;
     if \<not> stable
     then do {
       a \<leftarrow> for_up 1 (m + 1) (\<lambda>j a. do { v \<leftarrow> get old_a j; put a j v }) a;
       Some (a, old_a) }
     else for_up 1 (m + 1) (\<lambda>j (a, old_a). do {
       h \<leftarrow> get a_hi j; l \<leftarrow> get a_lo j;
       let v = intround (L_shl (L_Comp h l) 1);
       a \<leftarrow> put a j v;
       old_a \<leftarrow> put old_a j v;
       Some (a, old_a) }) (a, old_a) }"

section \<open>Line spectral frequencies (\<open>a2lsp.c\<close>)\<close>

text \<open>A number as normalised mantissa and exponent.\<close>

definition mantissa_exponent :: "int \<Rightarrow> int \<times> int" where
  "mantissa_exponent a0 = (let ex = norm_l a0 in (intround (L_shl a0 ex), ex))"

text \<open>The value of a polynomial, by the recurrence of the Chebyshev polynomials.\<close>

definition chebyshev_step :: "int \<Rightarrow> int list \<Rightarrow> int list \<Rightarrow> int \<Rightarrow> int \<Rightarrow> int list \<times> int list \<Rightarrow>
    (int list \<times> int list) option" where
  "chebyshev_step x2 t_man t_exp nd2 i = (\<lambda>(b_man, b_exp). do {
     bm \<leftarrow> get b_man (i - 1); be \<leftarrow> get b_exp (i - 1);
     let a0 = L_mult x2 bm;
     let a0 = L_shr a0 (sub be 1);
     tm \<leftarrow> get t_man (nd2 - i); te \<leftarrow> get t_exp (nd2 - i);
     let a0 = L_add a0 (L_shr (L_deposit_h tm) te);
     cm \<leftarrow> get b_man (i - 2); ce \<leftarrow> get b_exp (i - 2);
     let a0 = L_sub a0 (L_shr (L_deposit_h cm) ce);
     let (man, ex) = mantissa_exponent a0;
     b_exp \<leftarrow> put b_exp i ex;
     b_man \<leftarrow> put b_man i man;
     Some (b_man, b_exp) })"

definition FNevChebP :: "int \<Rightarrow> int list \<Rightarrow> int list \<Rightarrow> int \<Rightarrow> int option" where
  "FNevChebP x t_man t_exp nd2 = do {
     let x2 = x;
     m0 \<leftarrow> get t_man nd2; e0 \<leftarrow> get t_exp nd2;
     b_man \<leftarrow> put (replicate NAB 0) 0 m0;
     b_exp \<leftarrow> put (replicate NAB 0) 0 e0;
     let a0 = L_mult x2 m0;
     let a0 = L_shr a0 (sub e0 1);
     m1 \<leftarrow> get t_man (nd2 - 1); e1 \<leftarrow> get t_exp (nd2 - 1);
     let a0 = L_add a0 (L_shr (L_deposit_h m1) e1);
     let (man, ex) = mantissa_exponent a0;
     b_exp \<leftarrow> put b_exp 1 ex;
     b_man \<leftarrow> put b_man 1 man;
     (b_man, b_exp) \<leftarrow> for_range 2 nd2 (chebyshev_step x2 t_man t_exp nd2) (b_man, b_exp);
     bm \<leftarrow> get b_man (nd2 - 1); be \<leftarrow> get b_exp (nd2 - 1);
     let a0 = L_mult x bm;
     let a0 = L_shr a0 be;
     t0 \<leftarrow> get t_man 0; te0 \<leftarrow> get t_exp 0;
     let a0 = L_add a0 (L_shr (L_deposit_h t0) te0);
     cm \<leftarrow> get b_man (nd2 - 2); ce \<leftarrow> get b_exp (nd2 - 2);
     let a0 = L_sub a0 (L_shr (L_deposit_h cm) ce);
     Some (intround (L_shl a0 6)) }"

text \<open>The sum and the difference polynomial as mantissas and exponents, then in reversed order with a
  halved first coefficient.\<close>

definition half_polynomials :: "int list \<Rightarrow> (int list \<times> int list \<times> int list \<times> int list) option" where
  "half_polynomials pc = do {
     fa_man \<leftarrow> put (replicate NAB 0) 0 16384; fa_exp \<leftarrow> put (replicate NAB 0) 0 6;
     fb_man \<leftarrow> put (replicate NAB 0) 0 16384; fb_exp \<leftarrow> put (replicate NAB 0) 0 6;
     for_up 1 (LPCO div 2 + 1) (\<lambda>i (fa_man, fa_exp, fb_man, fb_exp). do {
       let j = int LPCO + 1 - i;
       p \<leftarrow> get pc i; q \<leftarrow> get pc j;
       m \<leftarrow> get fa_man (i - 1); e \<leftarrow> get fa_exp (i - 1);
       let a0 = L_mult0 p 4096;
       let a0 = L_mac0 a0 q 4096;
       let a0 = L_sub a0 (L_shr (L_deposit_h m) e);
       let (man, ex) = mantissa_exponent a0;
       fa_exp \<leftarrow> put fa_exp i ex;
       fa_man \<leftarrow> put fa_man i man;
       m \<leftarrow> get fb_man (i - 1); e \<leftarrow> get fb_exp (i - 1);
       let a0 = L_mult0 p 4096;
       let a0 = L_msu0 a0 q 4096;
       let a0 = L_add a0 (L_shr (L_deposit_h m) e);
       let (man, ex) = mantissa_exponent a0;
       fb_exp \<leftarrow> put fb_exp i ex;
       fb_man \<leftarrow> put fb_man i man;
       Some (fa_man, fa_exp, fb_man, fb_exp) }) (fa_man, fa_exp, fb_man, fb_exp) }"

definition reversed_polynomial :: "int list \<Rightarrow> int list \<Rightarrow> (int list \<times> int list) option" where
  "reversed_polynomial f_man f_exp = do {
     m \<leftarrow> get f_man (int NAB - 1); e \<leftarrow> get f_exp (int NAB - 1);
     t_man \<leftarrow> put (replicate NAB 0) 0 m;
     t_exp \<leftarrow> put (replicate NAB 0) 0 (add e 1);
     for_up 1 NAB (\<lambda>i (t_man, t_exp). do {
       let j = int NAB - 1 - i;
       m \<leftarrow> get f_man j; t_man \<leftarrow> put t_man i m;
       e \<leftarrow> get f_exp j; t_exp \<leftarrow> put t_exp i e;
       Some (t_man, t_exp) }) (t_man, t_exp) }"

text \<open>The interval of a sign change is halved four times, then interpolated.\<close>

definition bisect :: "(int \<Rightarrow> int option) \<Rightarrow> int \<Rightarrow> int \<Rightarrow> int \<Rightarrow> int \<Rightarrow> (int \<times> int \<times> int \<times> int) option" where
  "bisect F xlow ylow xhigh yhigh = do {
     let dx = s16 (xhigh - xlow);
     (dx, xlow, ylow, xhigh, yhigh) \<leftarrow> for_up 1 (NBIS + 1) (\<lambda>_ (dx, xlow, ylow, xhigh, yhigh). do {
       let dx = shr_16 dx 1;
       let xmid = add xlow dx;
       ymid \<leftarrow> F xmid;
       Some (if L_mult ylow ymid \<le> 0 then (dx, xlow, ylow, xmid, ymid) else (dx, xmid, ymid, xhigh, yhigh)) })
       (dx, xlow, ylow, xhigh, yhigh);
     Some (xlow, ylow, xhigh, yhigh) }"

definition root_interpolation :: "int \<Rightarrow> int \<Rightarrow> int \<Rightarrow> int \<Rightarrow> int option" where
  "root_interpolation dx xlow ylow yhigh = do {
     let dy = sub ylow yhigh;
     if dy \<noteq> 0 then do {
       let sign = dy;
       let dy = abs_s dy;
       let ex = norm_s dy;
       let dy = shl dy ex;
       dxdy \<leftarrow> div_s (shl dx 6) dy;
       let a0 = L_mult dxdy ylow;
       let a0 = L_shr a0 (sub 6 ex);
       let x = intround a0;
       let x = (if sign < 0 then negate x else x);
       Some (add xlow x) }
     else Some (add xlow (shr_16 dx 1)) }"

text \<open>The position of a root in the table of cosines, and its angle.\<close>

partial_function (option) cosine_index :: "int \<Rightarrow> int \<Rightarrow> int option" where
  "cosine_index xmid ind = do {
     c \<leftarrow> get costable ind;
     if c \<ge> xmid \<and> ind < 63 then cosine_index xmid (s16 (ind + 1)) else Some ind }"

declare cosine_index.simps [code]

definition root_angle :: "int \<Rightarrow> int \<Rightarrow> (int \<times> int) option" where
  "root_angle xmid ind = do {
     ind \<leftarrow> cosine_index xmid ind;
     let ind = s16 (ind - 1);
     c \<leftarrow> get costable ind; sl \<leftarrow> get acosslope ind;
     let a0 = L_mult (sub xmid c) sl;
     let x = intround (L_shl a0 4);
     Some (add x (shl ind 9), ind) }"

text \<open>One step of the search: \<open>lsp\<close>, \<open>nf\<close>, \<open>xlow\<close>, \<open>ylow\<close>, \<open>xroot\<close>, \<open>ind\<close> and whether the sum
  polynomial is searched. The loop over the grid ends with the last point or with all roots found.\<close>

type_synonym root_search = "int list \<times> int \<times> int \<times> int \<times> int \<times> int \<times> bool"

definition search_step :: "(bool \<Rightarrow> int \<Rightarrow> int option) \<Rightarrow> int \<Rightarrow> root_search \<Rightarrow> (root_search \<times> bool) option" where
  "search_step F ngrd = (\<lambda>(lsp, nf, xlow, ylow, xroot, ind, in_a). do {
     let xhigh = xlow;
     let yhigh = ylow;
     xlow \<leftarrow> get grid ngrd;
     ylow \<leftarrow> F in_a xlow;
     if L_mult ylow yhigh \<le> 0 then do {
       (xlow, ylow, xhigh, yhigh) \<leftarrow> bisect (F in_a) xlow ylow xhigh yhigh;
       let dx = sub xhigh xlow;
       xmid \<leftarrow> root_interpolation dx xlow ylow yhigh;
       (angle, ind) \<leftarrow> root_angle xmid ind;
       lsp \<leftarrow> put lsp nf angle;
       let nf = nf + 1;
       let xmid = (if xmid \<ge> xroot then s16 (xlow - dx) else xmid);
       ylow \<leftarrow> F (\<not> in_a) xmid;
       Some ((lsp, nf, xmid, ylow, xmid, ind, \<not> in_a), nf \<ge> int LPCO) }
     else Some ((lsp, nf, xlow, ylow, xroot, ind, in_a), nf \<ge> int LPCO) })"

definition a2lsp :: "int list \<Rightarrow> int list \<Rightarrow> int list \<Rightarrow> int list option" where
  "a2lsp pc lsp old_lsp = do {
     (fa_man, fa_exp, fb_man, fb_exp) \<leftarrow> half_polynomials pc;
     (ta_man, ta_exp) \<leftarrow> reversed_polynomial fa_man fa_exp;
     (tb_man, tb_exp) \<leftarrow> reversed_polynomial fb_man fb_exp;
     let nd2 = int (LPCO div 2);
     let F = (\<lambda>in_a x. if in_a then FNevChebP x ta_man ta_exp nd2 else FNevChebP x tb_man tb_exp nd2);
     xlow \<leftarrow> get grid 0;
     ylow \<leftarrow> F True xlow;
     (lsp, nf, _) \<leftarrow> run_break (map int [1..<Ngrd]) (search_step F) (lsp, 0, xlow, ylow, 0x7fff, 0, True);
     if sub nf (int LPCO) < 0 then W16copy lsp 0 old_lsp 0 LPCO else Some lsp }"

section \<open>Double precision products and quotients\<close>

lemma mult_floor:
  assumes "is_s16 a" "is_s16 b" "0 \<le> a \<or> 0 \<le> b"
  shows "mult a b = a * b div 32768" "is_s16 (a * b div 32768)"
proof -
  have "\<bar>a * b\<bar> \<le> 32768 * 32767"
  proof -
    have "\<bar>a\<bar> \<le> 32768" "\<bar>b\<bar> \<le> 32767 \<or> \<bar>a\<bar> \<le> 32767 \<and> \<bar>b\<bar> \<le> 32768" using assms by (auto simp: is_s16_def)
    then have "\<bar>a\<bar> * \<bar>b\<bar> \<le> 32768 * 32767"
      using mult_mono [of "\<bar>a\<bar>" 32768 "\<bar>b\<bar>" 32767] mult_mono [of "\<bar>a\<bar>" 32767 "\<bar>b\<bar>" 32768] by auto
    then show ?thesis by (simp add: abs_mult)
  qed
  then have "- 32768 \<le> a * b div 32768" "a * b div 32768 \<le> 32767" by linarith+
  then show "is_s16 (a * b div 32768)" "mult a b = a * b div 32768"
    using assms by (auto simp: mult_eq is_s16_def clamp_def)
qed

lemma L_mac_one: "is_s32 x \<Longrightarrow> is_s16 a \<Longrightarrow> L_mac x a 1 = clamp (- 2147483648) 2147483647 (x + 2 * a)"
  by (simp add: L_mac_eq is_s16_def clamp_def)

lemma sat32_id: "is_s32 x \<Longrightarrow> clamp (- 2147483648) 2147483647 x = x"
  by (simp add: is_s32_def clamp_id)

lemma Mpy_32_16_exact:
  assumes "is_s16 hi" "is_s16 lo" "0 \<le> lo" "is_s16 n" "is_s32 (2 * (hi * n))" "is_s32 (2 * (hi * n) + 2 * (lo * n div 32768))"
  shows "Mpy_32_16 hi lo n = 2 * (hi * n) + 2 * (lo * n div 32768)"
  using assms mult_floor [of lo n] by (simp add: Mpy_32_16_def L_mult_eq L_mac_one sat32_id)

lemma Mpy_32_exact:
  assumes "is_s16 h1" "is_s16 l1" "0 \<le> l1" "is_s16 h2" "is_s16 l2" "0 \<le> l2" "is_s32 (2 * (h1 * h2))"
    and "is_s32 (2 * (h1 * h2) + 2 * (h1 * l2 div 32768))"
    and "is_s32 (2 * (h1 * h2) + 2 * (h1 * l2 div 32768) + 2 * (l1 * h2 div 32768))"
  shows "Mpy_32 h1 l1 h2 l2 = 2 * (h1 * h2) + 2 * (h1 * l2 div 32768) + 2 * (l1 * h2 div 32768)"
  using assms mult_floor [of h1 l2] mult_floor [of l1 h2] by (simp add: Mpy_32_def L_mult_eq L_mac_one sat32_id)

text \<open>The halves of a number, and the product of two numbers in halves.\<close>

lemma L_Extract_value:
  assumes "is_s32 x" "L_Extract x = (hi, lo)"
  shows "is_s16 hi" "0 \<le> lo" "lo \<le> 32767" "is_s16 lo" "65536 * hi + 2 * lo \<le> x" "x \<le> 65536 * hi + 2 * lo + 1"
proof -
  have e: "hi = x div 65536" "lo = x mod 65536 div 2" using assms L_Extract_eq by auto
  show "is_s16 hi" "0 \<le> lo" "is_s16 lo" using L_Extract_parts [OF assms] by auto
  then show "lo \<le> 32767" by (simp add: is_s16_def)
  show "65536 * hi + 2 * lo \<le> x" "x \<le> 65536 * hi + 2 * lo + 1" unfolding e by presburger+
qed


lemma div_product_le: "real_of_int (x * y div 32768) \<le> real_of_int x * real_of_int y / 32768"
  using real_of_int_div4 [of "x * y" 32768] by simp

text \<open>The quotient of two numbers in halves is their quotient in Q31, up to an error of \<open>2^-28\<close>.\<close>

lemma Div_32_bound:
  assumes hi: "16384 \<le> hi" "hi \<le> 32767" and lo: "0 \<le> lo" "lo \<le> 32767"
    and num: "0 \<le> num" "is_s32 num" "100000 * num \<le> 99943 * (65536 * hi + 2 * lo)"
  shows "\<exists>q. Div_32 num hi lo = Some q \<and> 0 \<le> q \<and> q \<le> 2146400000"
proof -
  define d where "d = 65536 * hi + 2 * lo"
  define A where "A = 16383 * 32768 div hi"
  have A: "16383 \<le> A" "A \<le> 32766"
    using zdiv_mono2 [of "16383 * 32768" hi 32767] zdiv_mono2 [of "16383 * 32768" 16384 hi] hi by (simp_all add: A_def)
  have Ahi: "A * hi \<le> 16383 * 32768" "16383 * 32768 - hi < A * hi"
    using div_mult_mod_eq [of "16383 * 32768" hi] pos_mod_bound [of hi "16383 * 32768"] pos_mod_sign [of hi "16383 * 32768"] hi
    unfolding A_def by linarith+
  have ds: "div_s 0x3fff hi = Some A" using div_s_eq [of 16383 hi] hi A by (simp add: A_def)
  define p where "p = lo * A div 32768"
  have p: "0 \<le> p" "p \<le> 32765"
    using lo A mult_mono [of lo 32767 A 32766] by (auto simp: p_def pos_imp_zdiv_nonneg_iff)
  define X1 where "X1 = 2 * (hi * A) + 2 * p"
  have X1: "1073610000 \<le> X1" "X1 \<le> 1073741820" using Ahi hi p by (simp_all add: X1_def mult.commute)
  have "Mpy_32_16 hi lo A = X1"
    unfolding X1_def p_def using hi lo A Ahi X1 by (intro Mpy_32_16_exact) (auto simp: is_s16_def is_s32_def X1_def p_def mult.commute)
  moreover define X2 where "X2 = 2147483647 - X1"
  have X2: "1073741827 \<le> X2" "X2 \<le> 1073873647" "L_sub 0x7fffffff X1 = X2"
    using X1 by (simp_all add: X2_def L_sub_eq is_s32_def clamp_id)
  obtain h2 l2 where e2: "L_Extract X2 = (h2, l2)" by (cases "L_Extract X2")
  note v2 = L_Extract_value [OF _ e2]
  have X2s: "is_s32 X2" using X2 by (simp add: is_s32_def)
  have h2: "16384 \<le> h2" "h2 \<le> 16386" using v2(3,5,6) [OF X2s] v2(2) [OF X2s] X2 by linarith+
  define X3 where "X3 = 2 * (h2 * A) + 2 * (l2 * A div 32768)"
  have l2A: "0 \<le> l2 * A div 32768" "l2 * A div 32768 \<le> 32765"
    using v2(2,3) [OF X2s] A mult_mono [of l2 32767 A 32766] by (auto simp: pos_imp_zdiv_nonneg_iff)
  have h2A: "16384 * 16383 \<le> h2 * A" "h2 * A \<le> 16386 * 32766" using h2 A mult_mono [of 16384 h2 16383 A] mult_mono [of h2 16386 A 32766] by simp_all
  have X3: "0 \<le> X3" "X3 \<le> 1073900000" using h2A l2A by (simp_all add: X3_def)
  have m3: "Mpy_32_16 h2 l2 A = X3"
  proof -
    have "is_s32 (2 * (h2 * A))" "is_s32 (2 * (h2 * A) + 2 * (l2 * A div 32768))"
      unfolding is_s32_def using h2A l2A by linarith+
    moreover have "is_s16 A" using A by (simp add: is_s16_def)
    ultimately show ?thesis unfolding X3_def using v2 [OF X2s] by (intro Mpy_32_16_exact)
  qed
  obtain h3 l3 where e3: "L_Extract X3 = (h3, l3)" by (cases "L_Extract X3")
  have X3s: "is_s32 X3" using X3 by (simp add: is_s32_def)
  note v3 = L_Extract_value [OF X3s e3]
  obtain n_hi n_lo where en: "L_Extract num = (n_hi, n_lo)" by (cases "L_Extract num")
  note vn = L_Extract_value [OF num(2) en]
  have n_hi: "0 \<le> n_hi" "n_hi \<le> 32767" using L_Extract_parts(4) [OF num(2) en] num(1) vn(1) by (auto simp: is_s16_def)
  have h3: "0 \<le> h3" "h3 \<le> 16386" using L_Extract_parts(4) [OF X3s e3] X3 v3(5) v3(2) by linarith+
  define X4 where "X4 = 2 * (n_hi * h3) + 2 * (n_hi * l3 div 32768) + 2 * (n_lo * h3 div 32768)"
  have b: "0 \<le> n_hi * h3" "n_hi * h3 \<le> 32767 * 16386" "0 \<le> n_hi * l3 div 32768" "n_hi * l3 div 32768 \<le> 32767"
    "0 \<le> n_lo * h3 div 32768" "n_lo * h3 div 32768 \<le> 32767"
    using n_hi h3 v3(2,3) vn(2,3) mult_mono [of n_hi 32767 h3 16386] mult_mono [of n_hi 32767 l3 32767] mult_mono [of n_lo 32767 h3 16386]
    by (auto simp: pos_imp_zdiv_nonneg_iff)
  have X4: "0 \<le> X4" "X4 \<le> 1073988000" using b by (simp_all add: X4_def)
  have m4: "Mpy_32 n_hi n_lo h3 l3 = X4"
  proof -
    have "is_s32 (2 * (n_hi * h3))" "is_s32 (2 * (n_hi * h3) + 2 * (n_hi * l3 div 32768))"
      "is_s32 (2 * (n_hi * h3) + 2 * (n_hi * l3 div 32768) + 2 * (n_lo * h3 div 32768))"
      unfolding is_s32_def using b by linarith+
    then show ?thesis unfolding X4_def using vn v3 by (intro Mpy_32_exact)
  qed
  have q: "Div_32 num hi lo = Some (L_shl X4 2)"
    using ds calculation X2(3) by (simp add: Div_32_def e2 m3 e3 en m4)
  have "4 * X4 \<le> 2146400000"
  proof -
    let ?r = real_of_int
    define D where "D = ?r d"
    define a where "a = ?r A"
    define t where "t = D * a / 32768"
    have D: "1073741824 \<le> D" using hi lo by (simp add: D_def d_def)
    have "?r p > ?r lo * a / 32768 - 1"
      unfolding p_def a_def by (metis of_int_mult of_int_numeral floor_divide_of_int_eq real_of_int_floor_gt_diff_one)
    then have "?r X1 > t - 2" by (simp add: X1_def t_def D_def d_def a_def algebra_simps)
    then have x2: "?r X2 < 2147483649 - t" by (simp add: X2_def)
    have "?r (l2 * A div 32768) \<le> ?r l2 * a / 32768" using div_product_le [of l2 A] by (simp add: a_def)
    then have "?r X3 \<le> (65536 * ?r h2 + 2 * ?r l2) * a / 32768" by (simp add: X3_def a_def algebra_simps)
    also have "65536 * ?r h2 + 2 * ?r l2 \<le> ?r X2" using v2(5) [OF X2s] by linarith
    also have "\<dots> \<le> 2147483649 - t" using x2 by simp
    finally have x3: "?r X3 \<le> (2147483649 - t) * a / 32768" using A by (simp add: a_def mult_right_mono divide_right_mono)
    let ?n = "65536 * ?r n_hi + 2 * ?r n_lo" and ?v = "65536 * ?r h3 + 2 * ?r l3"
    have n: "?n \<le> ?r num" using vn(5) by linarith
    have v: "?v \<le> ?r X3" using v3(5) by linarith
    have nv: "0 \<le> ?n" "0 \<le> ?v" using n_hi h3 vn(2) v3(2) by simp_all
    have "?r X4 \<le> 2 * (?r n_hi * ?r h3) + 2 * (?r n_hi * ?r l3 / 32768) + 2 * (?r n_lo * ?r h3 / 32768)"
      using div_product_le [of n_hi l3] div_product_le [of n_lo h3]
      unfolding X4_def of_int_add of_int_mult of_int_numeral by linarith
    also have "\<dots> \<le> ?n * ?v / 2147483648"
    proof -
      have "0 \<le> ?r n_lo * ?r l3" using vn(2) v3(2) by simp
      then show ?thesis by (simp add: field_simps)
    qed
    also have "\<dots> \<le> ?r num * ?r X3 / 2147483648"
      using n v nv num(1) X3(1) by (intro divide_right_mono mult_mono) simp_all
    also have "\<dots> \<le> ?r num * ((2147483649 - t) * a / 32768) / 2147483648"
      using x3 num(1) by (intro divide_right_mono mult_left_mono) simp_all
    finally have "?r X4 * D \<le> ?r num * ((2147483649 - t) * a / 32768) / 2147483648 * D"
      using D by (intro mult_right_mono) auto
    also have "\<dots> = ?r num * ((2147483649 - t) * (a * D) / 32768) / 2147483648" by simp
    also have "a * D = 32768 * t" by (simp add: t_def)
    also have "?r num * ((2147483649 - t) * (32768 * t) / 32768) / 2147483648 = ?r num * ((2147483649 - t) * t) / 2147483648" by simp
    also have "\<dots> \<le> ?r num * 1152921505680588801 / 2147483648"
    proof -
      have "0 \<le> (2147483649 - 2 * t) * (2147483649 - 2 * t)" by simp
      then have "(2147483649 - t) * t \<le> 1152921505680588801" by (simp add: algebra_simps)
      from mult_left_mono [OF this, of "?r num"] show ?thesis using num(1) by (simp add: divide_right_mono)
    qed
    also have "\<dots> \<le> 536600000 * D"
    proof -
      have "100000 * ?r num \<le> 99943 * D" using num(3) unfolding D_def d_def by linarith
      then show ?thesis using D by (simp add: field_simps)
    qed
    finally have "?r X4 \<le> 536600000" using D by simp
    then show ?thesis by linarith
  qed
  then have "L_shl X4 2 = 4 * X4" using X4 by (simp add: L_shl_left is_s32_def clamp_id)
  then show ?thesis using q X4(1) \<open>4 * X4 \<le> 2146400000\<close> by simp
qed

lemma Div_32_ok:
  assumes "16384 \<le> hi" "hi \<le> 32767" "is_s16 lo"
  shows "\<exists>q. Div_32 num hi lo = Some q \<and> is_s32 q"
proof -
  obtain a where "div_s 0x3fff hi = Some a" "0 \<le> a" "a \<le> 32767" using div_s_ok [of 16383 hi] assms by auto
  then show ?thesis by (auto simp: Div_32_def split_beta Let_def)
qed

lemma square_in_halves:
  assumes "is_s32 x" "\<bar>x\<bar> \<le> 2146400000" "L_Extract x = (h, l)"
  shows "is_s32 (Mpy_32 h l h l)" "0 \<le> L_abs (Mpy_32 h l h l)" "L_abs (Mpy_32 h l h l) \<le> 2145400000"
proof -
  note v = L_Extract_value [OF assms(1,3)]
  define w where "w = 65536 * h + 2 * l"
  have w: "\<bar>w\<bar> \<le> 2146400001" using v(5,6) assms(2) unfolding w_def by linarith
  have h: "- 32752 \<le> h" "h \<le> 32751" using w v(2,3) unfolding w_def by linarith+
  have hh: "0 \<le> h * h" "h * h \<le> 32752 * 32752" "2 * \<bar>h\<bar> \<le> h * h + 1"
  proof -
    show "0 \<le> h * h" by simp
    have "\<bar>h\<bar> \<le> 32752" using h by simp
    then have "\<bar>h\<bar> * \<bar>h\<bar> \<le> 32752 * 32752" by (intro mult_mono) auto
    then show "h * h \<le> 32752 * 32752" by simp
    have "0 \<le> (\<bar>h\<bar> - 1) * (\<bar>h\<bar> - 1)" by simp
    then show "2 * \<bar>h\<bar> \<le> h * h + 1" by (simp add: algebra_simps)
  qed
  define p where "p = h * l div 32768"
  have p: "- \<bar>h\<bar> - 1 \<le> p" "p \<le> \<bar>h\<bar>" "32768 * p \<le> h * l"
  proof -
    have "\<bar>h * l\<bar> \<le> \<bar>h\<bar> * 32767" unfolding abs_mult using v(2,3) by (intro mult_left_mono) auto
    then show "- \<bar>h\<bar> - 1 \<le> p" "p \<le> \<bar>h\<bar>" "32768 * p \<le> h * l" unfolding p_def by linarith+
  qed
  have p': "l * h div 32768 = p" by (simp add: p_def mult.commute)
  define s where "s = 2 * (h * h) + 4 * p"
  have "2147483648 * s \<le> w * w"
  proof -
    have "w * w = 4294967296 * (h * h) + 262144 * (h * l) + 4 * (l * l)" by (simp add: w_def algebra_simps)
    moreover have "0 \<le> l * l" by simp
    moreover have "2147483648 * (2 * H + 4 * p) \<le> W" if "W = 4294967296 * H + 262144 * K + 4 * L" "0 \<le> L" "32768 * p \<le> K"
      for H K L W :: int
    proof -
      have "262144 * (32768 * p) \<le> 262144 * K" using that(3) by (intro mult_left_mono) simp_all
      then show ?thesis using that(1,2) by (simp add: algebra_simps)
    qed
    ultimately show ?thesis unfolding s_def using p(3) by blast
  qed
  moreover have "w * w \<le> 2146400001 * 2146400001"
  proof -
    have "\<bar>w\<bar> * \<bar>w\<bar> \<le> 2146400001 * 2146400001" using w by (intro mult_mono) auto
    then show ?thesis by simp
  qed
  ultimately have s: "s \<le> 2145400000" by linarith
  have s': "- 8 \<le> s" unfolding s_def using hh p by linarith
  have "Mpy_32 h l h l = 2 * (h * h) + 2 * p + 2 * p"
  proof -
    have "is_s32 (2 * (h * h))" "is_s32 (2 * (h * h) + 2 * (h * l div 32768))"
      "is_s32 (2 * (h * h) + 2 * (h * l div 32768) + 2 * (l * h div 32768))"
      unfolding is_s32_def p' p_def [symmetric] using hh p h s s' unfolding s_def by linarith+
    from Mpy_32_exact [OF v(1,4,2) v(1,4,2) this] show ?thesis unfolding p' p_def [symmetric] by simp
  qed
  then have m: "Mpy_32 h l h l = s" by (simp add: s_def)
  show "is_s32 (Mpy_32 h l h l)" "0 \<le> L_abs (Mpy_32 h l h l)" "L_abs (Mpy_32 h l h l) \<le> 2145400000"
    using s s' by (auto simp: m L_abs_eq is_s32_def clamp_def)
qed

text \<open>The residual energy stays positive while the reflection coefficient stays away from one.\<close>

lemma residual_positive:
  assumes "is_s32 x" "\<bar>x\<bar> \<le> 2146400000" "L_Extract x = (h, l)" "16384 \<le> eh" "eh \<le> 32767" "0 \<le> el" "el \<le> 32767"
    and "L_Extract (L_sub 0x40000000 (L_shr (L_abs (Mpy_32 h l h l)) 1)) = (high, low)"
  shows "0 < Mpy_32 eh el high low" "is_s32 (Mpy_32 eh el high low)"
proof -
  define p where "p = L_abs (Mpy_32 h l h l)"
  have p: "0 \<le> p" "p \<le> 2145400000" unfolding p_def using square_in_halves [OF assms(1-3)] by simp_all
  define q where "q = L_sub 0x40000000 (L_shr p 1)"
  have "L_shr p 1 = p div 2" using p by (simp add: L_shr_right is_s32_def shr_def)
  moreover have "is_s32 (p div 2)" "is_s32 1073741824" using p by (auto simp: is_s32_def)
  ultimately have "q = clamp (- 2147483648) 2147483647 (1073741824 - p div 2)" by (simp add: q_def L_sub_eq)
  then have q: "1041824 \<le> q" "q \<le> 1073741824" "is_s32 q" using p by (auto simp: clamp_def is_s32_def)
  note v = L_Extract_value [OF q(3) assms(8) [folded p_def, folded q_def]]
  have high: "15 \<le> high" "high \<le> 16384" using q v(2,3,5,6) by linarith+
  have b: "16384 * 15 \<le> eh * high" "eh * high \<le> 32767 * 16384" "0 \<le> eh * low div 32768" "eh * low div 32768 \<le> 32767"
    "0 \<le> el * high div 32768" "el * high div 32768 \<le> 32767"
    using assms(4-7) high v(2,3) mult_mono [of 16384 eh 15 high] mult_mono [of eh 32767 high 16384]
      mult_mono [of eh 32767 low 32767] mult_mono [of el 32767 high 16384] by (auto simp: pos_imp_zdiv_nonneg_iff)
  have "is_s32 (2 * (eh * high))" "is_s32 (2 * (eh * high) + 2 * (eh * low div 32768))"
    "is_s32 (2 * (eh * high) + 2 * (eh * low div 32768) + 2 * (el * high div 32768))"
    unfolding is_s32_def using b by linarith+
  moreover have "is_s16 eh" "is_s16 el" using assms(4-7) by (simp_all add: is_s16_def)
  ultimately have "Mpy_32 eh el high low = 2 * (eh * high) + 2 * (eh * low div 32768) + 2 * (el * high div 32768)"
    using v assms(6) by (intro Mpy_32_exact)
  then show "0 < Mpy_32 eh el high low" "is_s32 (Mpy_32 eh el high low)"
    using b unfolding is_s32_def by linarith+
qed

section \<open>Levinson-Durbin recursion: it always returns\<close>

lemma yule_sum_ok:
  assumes "s16_arr 9 r_hi" "s16_arr 9 r_lo" "s16_arr 9 a_hi" "s16_arr 9 a_lo" "2 \<le> i" "i \<le> 8"
  shows "\<exists>s. yule_sum r_hi r_lo a_hi a_lo i = Some s \<and> is_s32 s"
  unfolding yule_sum_def by (rule for_range_inv [where P = is_s32]) (use assms in simp_all)

lemma new_coefficients_ok:
  assumes "s16_arr 9 a_hi" "s16_arr 9 a_lo" "is_s32 a1" "2 \<le> i" "i \<le> 8"
  shows "\<exists>h l. new_coefficients a_hi a_lo rc_hi rc_lo a1 i = Some (h, l) \<and> s16_arr 9 h \<and> s16_arr 9 l"
proof -
  let ?P = "\<lambda>(h, l). s16_arr 9 h \<and> s16_arr 9 l"
  let ?f = "\<lambda>j (anew_hi, anew_lo). do {
       ah \<leftarrow> get a_hi (i - j); al \<leftarrow> get a_lo (i - j);
       let a0 = Mpy_32 ah al rc_hi rc_lo;
       h \<leftarrow> get a_hi j; l \<leftarrow> get a_lo j;
       let a0 = L_add a0 (L_Comp h l);
       let (hi, lo) = L_Extract a0;
       anew_hi \<leftarrow> put anew_hi j hi;
       anew_lo \<leftarrow> put anew_lo j lo;
       Some (anew_hi, anew_lo) }"
  have "\<exists>t. for_range 1 i ?f (replicate (LPCO + 1) 0, replicate (LPCO + 1) 0) = Some t \<and> ?P t"
  proof (rule for_range_inv [where P = ?P])
    fix j t assume j: "1 \<le> j" "j < i" and t: "?P t"
    obtain h l where hl: "t = (h, l)" by (cases t)
    then show "\<exists>t'. ?f j t = Some t' \<and> ?P t'"
      using j t assms L_Extract_parts(1,3) [OF _ surjective_pairing]
      by (auto simp: split_beta Let_def intro!: arr_update)
  qed (simp add: LPCO_def)
  then obtain h l where hl: "for_range 1 i ?f (replicate (LPCO + 1) 0, replicate (LPCO + 1) 0) = Some (h, l)"
    "s16_arr 9 h" "s16_arr 9 l" by auto
  then show ?thesis using assms L_Extract_parts(1,3) [OF _ surjective_pairing, of "L_shr a1 4"]
    by (auto simp: new_coefficients_def split_beta Let_def intro!: arr_update)
qed

text \<open>The state of the recursion: the residual energy is normalised.\<close>

definition recursion_ok :: "levdur_state \<times> bool \<Rightarrow> bool" where
  "recursion_ok t \<longleftrightarrow> (case t of ((a_hi, a_lo, alpha_man, alpha_exp), _) \<Rightarrow>
     s16_arr 9 a_hi \<and> s16_arr 9 a_lo \<and> 1073741824 \<le> alpha_man \<and> alpha_man \<le> 2147483647)"

lemma normalised_positive:
  assumes "0 < x" "is_s32 x"
  shows "1073741824 \<le> L_shl x (norm_l x)" "L_shl x (norm_l x) \<le> 2147483647"
  using norm_l_pos [OF assms] L_shl_norm [OF assms(2)] by simp_all

lemma levdur_step_ok:
  assumes "s32_arr 9 r32" "s16_arr 9 r_hi" "s16_arr 9 r_lo" "2 \<le> i" "i \<le> 8" "recursion_ok t"
  shows "\<exists>t' b. levdur_step r32 r_hi r_lo i t = Some (t', b) \<and> recursion_ok t'"
proof -
  obtain a_hi a_lo man ex st where t: "t = ((a_hi, a_lo, man, ex), st)" by (metis surj_pair)
  have a: "s16_arr 9 a_hi" "s16_arr 9 a_lo" and man: "1073741824 \<le> man" "man \<le> 2147483647" "is_s32 man"
    using assms(6) by (simp_all add: t recursion_ok_def is_s32_def)
  obtain s where s: "yule_sum r_hi r_lo a_hi a_lo i = Some s" "is_s32 s"
    using yule_sum_ok [OF assms(2,3) a assms(4,5)] by blast
  obtain mh ml where m: "L_Extract man = (mh, ml)" by (cases "L_Extract man")
  note mv = L_Extract_value [OF man(3) m]
  have mh: "16384 \<le> mh" "mh \<le> 32767" using mv(2,3,5,6) man by linarith+
  define y where "y = L_add (L_shl s 4) (r32 ! nat i)"
  define a0 where "a0 = L_shl y (norm_l y)"
  define num where "num = (if L_sub (L_abs a0) man \<ge> 0 then L_shr (L_abs a0) 1 else L_abs a0)"
  define e where "e = (if L_sub (L_abs a0) man \<ge> 0 then sub (norm_l y) 1 else norm_l y)"
  obtain q where q: "Div_32 num mh ml = Some q" "is_s32 q" using Div_32_ok [OF mh mv(4)] by blast
  define a1 where "a1 = L_shr (if a0 > 0 then L_negate q else q) (sub e ex)"
  have a1: "is_s32 a1" using q(2) by (simp add: a1_def)
  obtain rh rl where r: "L_Extract a1 = (rh, rl)" by (cases "L_Extract a1")
  have ri: "get r32 i = Some (r32 ! nat i)" using assms(1,4,5) by simp
  have split: "(if L_sub (L_abs a0) man \<ge> 0 then (L_shr (L_abs a0) 1, sub (norm_l y) 1) else (L_abs a0, norm_l y)) = (num, e)"
    by (simp add: num_def e_def)
  show ?thesis
  proof (cases "sub (abs_s (intround a1)) 32750 > 0")
    case True
    have "levdur_step r32 r_hi r_lo i t = Some (((a_hi, a_lo, man, ex), False), True)"
      unfolding levdur_step_def t prod.case s(1) ri bind.bind_lunit Let_def y_def [symmetric] a0_def [symmetric] split m q(1)
        a1_def [symmetric] r using True by simp
    then show ?thesis using assms(6) by (auto simp: t recursion_ok_def)
  next
    case False
    have "is_s16 (intround a1)" using a1 by simp
    then have "\<bar>intround a1\<bar> \<le> 32750" using False by (auto simp: sub_eq abs_s_eq clamp_def is_s16_def split: if_splits)
    then have small: "\<bar>a1\<bar> \<le> 2146400000"
      using a1 by (auto simp: intround_eq clamp_def is_s32_def split: if_splits)
    obtain h l where n: "new_coefficients a_hi a_lo rh rl a1 i = Some (h, l)" "s16_arr 9 h" "s16_arr 9 l"
      using new_coefficients_ok [OF a a1 assms(4,5)] by blast
    obtain high low where x: "L_Extract (L_sub 0x40000000 (L_shr (L_abs (Mpy_32 rh rl rh rl)) 1)) = (high, low)"
      by (cases "L_Extract (L_sub 0x40000000 (L_shr (L_abs (Mpy_32 rh rl rh rl)) 1))")
    define z where "z = Mpy_32 mh ml high low"
    have z: "0 < z" "is_s32 z" unfolding z_def by (rule residual_positive [OF a1 small r mh mv(2,3) x])+
    let ?P = "\<lambda>(u, v). s16_arr 9 u \<and> s16_arr 9 v"
    have "\<exists>t. for_range 1 (i + 1) (\<lambda>j (a_hi, a_lo). do {
         h \<leftarrow> get h j; a_hi \<leftarrow> put a_hi j h;
         l \<leftarrow> get l j; a_lo \<leftarrow> put a_lo j l;
         Some (a_hi, a_lo) }) (a_hi, a_lo) = Some t \<and> ?P t"
      by (rule for_range_inv [where P = ?P]) (use a n assms(5) in \<open>auto intro!: arr_update s16_nth\<close>)
    then obtain u v where uv: "for_range 1 (i + 1) (\<lambda>j (a_hi, a_lo). do {
         h \<leftarrow> get h j; a_hi \<leftarrow> put a_hi j h;
         l \<leftarrow> get l j; a_lo \<leftarrow> put a_lo j l;
         Some (a_hi, a_lo) }) (a_hi, a_lo) = Some (u, v)" "s16_arr 9 u" "s16_arr 9 v" by auto
    have "levdur_step r32 r_hi r_lo i t =
        Some (((u, v, L_shl z (norm_l z), sub (add ex (norm_l z)) 1), st), False)"
      unfolding levdur_step_def t prod.case s(1) ri bind.bind_lunit Let_def y_def [symmetric] a0_def [symmetric] split m q(1)
        a1_def [symmetric] r n(1) x z_def [symmetric] using False uv(1) by simp
    then show ?thesis using uv(2,3) normalised_positive [OF z] by (auto simp: recursion_ok_def)
  qed
qed

lemma norm_l_large: "1073741824 \<le> x \<Longrightarrow> x \<le> 2147483647 \<Longrightarrow> norm_l x = 0"
proof -
  assume x: "1073741824 \<le> x" "x \<le> 2147483647"
  then have n: "0 \<le> norm_l x" "x * 2 ^ nat (norm_l x) \<le> 2147483647" using norm_l_pos [of x] by (simp_all add: is_s32_def)
  have "nat (norm_l x) = 0"
  proof (rule ccontr)
    assume "nat (norm_l x) \<noteq> 0"
    then have "(2 :: int) ^ 1 \<le> 2 ^ nat (norm_l x)" by (intro power_increasing) simp_all
    then have "x * 2 \<le> x * 2 ^ nat (norm_l x)" using x by (intro mult_left_mono) simp_all
    then show False using n(2) x(1) by linarith
  qed
  then show ?thesis using n by simp
qed

lemma normalise_correlation_ok:
  assumes "s32_arr 9 r" "1073741824 \<le> r ! 0"
  shows "\<exists>h l. normalise_correlation r 8 = Some (r, h, l) \<and> s16_arr 9 h \<and> s16_arr 9 l \<and> (\<forall>k<9. L_Extract (r ! k) = (h ! k, l ! k))"
proof -
  have r: "is_s32 (r ! k)" if "k < 9" for k using assms(1) that by (rule s32_nth)
  have n: "norm_l (r ! 0) = 0" using norm_l_large [of "r ! 0"] r [of 0] assms(2) by (simp add: is_s32_def)
  have len: "length r = 9" using assms(1) by (rule arr_length)
  let ?P = "\<lambda>i (r', h, l). r' = r \<and> s16_arr 9 h \<and> s16_arr 9 l \<and> (\<forall>k<i. L_Extract (r ! k) = (h ! k, l ! k))"
  let ?f = "\<lambda>i (r32, r_hi, r_lo). do {
       v \<leftarrow> get r32 i;
       let v = L_shl v 0;
       r32 \<leftarrow> put r32 i v;
       let (hi, lo) = L_Extract v;
       r_hi \<leftarrow> put r_hi i hi;
       r_lo \<leftarrow> put r_lo i lo;
       Some (r32, r_hi, r_lo) }"
  have "\<exists>t. for_up 0 9 ?f (r, replicate (LPCO + 1) 0, replicate (LPCO + 1) 0) = Some t \<and> ?P 9 t"
  proof (rule for_up_rule [where P = ?P])
    fix i t assume i: "i < 9" and P: "?P i t"
    obtain h l where t: "t = (r, h, l)" using P by auto
    have hl: "s16_arr 9 h" "s16_arr 9 l" "\<And>k. k < i \<Longrightarrow> L_Extract (r ! k) = (h ! k, l ! k)" using P by (auto simp: t)
    have lens: "length h = 9" "length l = 9" using hl by (auto simp: arr_def)
    obtain x y where xy: "L_Extract (r ! i) = (x, y)" by (cases "L_Extract (r ! i)")
    have z: "L_shl (r ! i) 0 = r ! i" using r [OF i] by (simp add: L_shl_left sat32_id)
    have "?f (int i) t = Some (r, h[i := x], l[i := y])" using i hl len by (simp add: t z xy get_def put_def lens Let_def)
    moreover have "L_Extract (r ! k) = (h[i := x] ! k, l[i := y] ! k)" if "k < Suc i" for k
      using that hl(3) xy i lens by (cases "k = i") simp_all
    then have "?P (Suc i) (r, h[i := x], l[i := y])"
      using hl i L_Extract_parts(1,3) [OF r [OF i] xy] by (auto intro!: arr_update)
    ultimately show "\<exists>t'. ?f (int i) t = Some t' \<and> ?P (Suc i) t'" by blast
  qed (simp_all add: LPCO_def)
  then show ?thesis using assms(1) by (auto simp: normalise_correlation_def n)
qed

lemma first_coefficient_ok:
  assumes "s32_arr 9 r" "1073741824 \<le> r ! 0" "100000 * \<bar>r ! 1\<bar> \<le> 99942 * (r ! 0)" "s16_arr 9 h" "s16_arr 9 l"
    and "\<forall>k<9. L_Extract (r ! k) = (h ! k, l ! k)"
  shows "\<exists>t. first_coefficient r h l = Some t \<and> recursion_ok (t, st)"
proof -
  have r: "is_s32 (r ! 0)" "is_s32 (r ! 1)" using assms(1) by (auto intro: s32_nth)
  have e0: "L_Extract (r ! 0) = (h ! 0, l ! 0)" using assms(6) by simp
  note v = L_Extract_value [OF r(1) e0]
  have h0: "16384 \<le> h ! 0" "h ! 0 \<le> 32767" using v(2,3,5,6) assms(2) r(1) unfolding is_s32_def by linarith+
  have num: "0 \<le> L_abs (r ! 1)" "is_s32 (L_abs (r ! 1))" "100000 * L_abs (r ! 1) \<le> 99943 * (65536 * h ! 0 + 2 * l ! 0)"
  proof -
    show "is_s32 (L_abs (r ! 1))" using r(2) by simp
    have "L_abs (r ! 1) = \<bar>r ! 1\<bar>"
    proof -
      have "\<bar>r ! 1\<bar> \<le> 2147483647" using assms(3) r(1) unfolding is_s32_def by linarith
      then show ?thesis unfolding L_abs_eq [OF r(2)] clamp_def by auto
    qed
    then show "0 \<le> L_abs (r ! 1)" "100000 * L_abs (r ! 1) \<le> 99943 * (65536 * h ! 0 + 2 * l ! 0)"
      using assms(2,3) v(6) by simp_all
  qed
  obtain q where q: "Div_32 (L_abs (r ! 1)) (h ! 0) (l ! 0) = Some q" "0 \<le> q" "q \<le> 2146400000"
    using Div_32_bound [OF h0 v(2,3) num] by blast
  define a0 where "a0 = (if r ! 1 > 0 then L_negate q else q)"
  have a0: "is_s32 a0" "\<bar>a0\<bar> \<le> 2146400000"
    using q by (auto simp: a0_def L_negate_eq is_s32_def clamp_def)
  obtain x y where xy: "L_Extract (L_shr a0 4) = (x, y)" by (cases "L_Extract (L_shr a0 4)")
  have "is_s32 (L_shr a0 4)" using a0(1) by simp
  note xyp = L_Extract_parts(1,3) [OF this xy]
  obtain u w where uw: "L_Extract a0 = (u, w)" by (cases "L_Extract a0")
  obtain high low where z: "L_Extract (L_sub 0x40000000 (L_shr (L_abs (Mpy_32 u w u w)) 1)) = (high, low)"
    by (cases "L_Extract (L_sub 0x40000000 (L_shr (L_abs (Mpy_32 u w u w)) 1))")
  note alpha = residual_positive [OF a0 uw h0 v(2,3) z]
  define al where "al = Mpy_32 (h ! 0) (l ! 0) high low"
  have g: "get r 1 = Some (r ! 1)" "get h 0 = Some (h ! 0)" "get l 0 = Some (l ! 0)" using assms(1,4,5) by simp_all
  have "first_coefficient r h l = Some ((replicate 9 0)[1 := x], (replicate 9 0)[1 := y], L_shl al (norm_l al), sub (norm_l al) 1)"
    unfolding first_coefficient_def g bind.bind_lunit q(1) Let_def a0_def [symmetric] xy uw prod.case z al_def [symmetric]
    by (simp add: LPCO_def put_def)
  then show ?thesis using alpha xyp normalised_positive [of al]
    by (auto simp: recursion_ok_def al_def intro!: arr_update)
qed

text \<open>The recursion returns for every autocorrelation whose first lag stays below the energy.\<close>

lemma Levinson_ok:
  assumes "s32_arr 9 r" "1073741824 \<le> r ! 0" "100000 * \<bar>r ! 1\<bar> \<le> 99942 * (r ! 0)" "s16_arr 9 a" "s16_arr 9 old_a"
  shows "\<exists>b c. Levinson r a old_a 8 = Some (b, c) \<and> s16_arr 9 b \<and> s16_arr 9 c \<and> b ! 0 = 4096"
proof -
  obtain h l where n: "normalise_correlation r 8 = Some (r, h, l)" "s16_arr 9 h" "s16_arr 9 l" "\<forall>k<9. L_Extract (r ! k) = (h ! k, l ! k)"
    using normalise_correlation_ok [OF assms(1,2)] by blast
  obtain t where f: "first_coefficient r h l = Some t" "recursion_ok (t, True)"
    using first_coefficient_ok [OF assms(1-3) n(2-4)] by blast
  have "\<exists>t'. run_break (map int [2..<8 + 1]) (levdur_step r h l) (t, True) = Some t' \<and> recursion_ok t'"
  proof (rule run_break_inv [where P = recursion_ok and Q = recursion_ok])
    fix i s assume "i \<in> set (map int [2..<8 + 1])" "recursion_ok s"
    then have "2 \<le> i" "i \<le> 8" "recursion_ok s" by auto
    then show "\<exists>t b. levdur_step r h l i s = Some (t, b) \<and> (if b then recursion_ok t else recursion_ok t)"
      using levdur_step_ok [OF assms(1) n(2,3)] by (metis (full_types))
  qed (use f(2) in simp_all)
  then obtain ah al man ex st where l: "run_break (map int [2..<8 + 1]) (levdur_step r h l) (t, True) = Some ((ah, al, man, ex), st)"
    "s16_arr 9 ah" "s16_arr 9 al" by (auto simp: recursion_ok_def)
  have a0: "put a 0 4096 = Some (a[0 := 4096])" "s16_arr 9 (a[0 := 4096])" "length a = 9"
    using assms(4) arr_length [OF assms(4)] by (auto simp: is_s16_def intro!: arr_update)
  have keep: "\<exists>b. for_up 1 (8 + 1) (\<lambda>j a. do { v \<leftarrow> get old_a j; put a j v }) (a[0 := 4096]) = Some b \<and> (s16_arr 9 b \<and> b ! 0 = 4096)"
    by (rule for_up_inv) (use a0 assms(5) in \<open>auto intro!: arr_update s16_nth\<close>)
  let ?P = "\<lambda>(b, c). (s16_arr 9 b \<and> b ! 0 = 4096) \<and> s16_arr 9 c"
  have new: "\<exists>t. for_up 1 (8 + 1) (\<lambda>j (a, old_a). do {
       h \<leftarrow> get ah j; l \<leftarrow> get al j;
       let v = intround (L_shl (L_Comp h l) 1);
       a \<leftarrow> put a j v;
       old_a \<leftarrow> put old_a j v;
       Some (a, old_a) }) (a[0 := 4096], old_a) = Some t \<and> ?P t"
    by (rule for_up_inv [where P = ?P]) (use a0 assms(5) l in \<open>auto simp: Let_def intro!: arr_update s16_nth\<close>)
  show ?thesis
  proof (cases st)
    case False
    then show ?thesis unfolding Levinson_def n(1) bind.bind_lunit prod.case f(1) l(1) a0(1) using keep assms(5) by auto
  next
    case True
    then show ?thesis unfolding Levinson_def n(1) bind.bind_lunit prod.case f(1) l(1) a0(1) using new by auto
  qed
qed

section \<open>Autocorrelation: the first lag stays below the energy\<close>

definition square_sum :: "int list \<Rightarrow> nat \<Rightarrow> int" where
  "square_sum b n = (\<Sum>k<n. b ! k * b ! k)"

definition lag_sum :: "int list \<Rightarrow> nat \<Rightarrow> int" where
  "lag_sum b n = (\<Sum>k<n. b ! k * b ! Suc k)"

lemma square_sum_simps [simp]: "square_sum b 0 = 0" "square_sum b (Suc n) = square_sum b n + b ! n * b ! n"
  by (simp_all add: square_sum_def)

lemma lag_sum_simps [simp]: "lag_sum b 0 = 0" "lag_sum b (Suc n) = lag_sum b n + b ! n * b ! Suc n"
  by (simp_all add: lag_sum_def)

lemma square_sum_nonneg: "0 \<le> square_sum b n"
  by (simp add: square_sum_def sum_nonneg)

lemma square_sum_mono: "m \<le> n \<Longrightarrow> square_sum b m \<le> square_sum b n"
  unfolding square_sum_def by (rule sum_mono2) auto

lemma square_sum_update: "n \<le> k \<Longrightarrow> square_sum (b[k := v]) n = square_sum b n"
  by (auto simp: square_sum_def intro: sum.cong)

lemma lag_sum_bound: "2 * \<bar>lag_sum b n\<bar> \<le> 2 * square_sum b (Suc n) - b ! 0 * b ! 0 - b ! n * b ! n"
proof (induction n)
  case (Suc n)
  have "0 \<le> (\<bar>b ! n\<bar> - \<bar>b ! Suc n\<bar>) * (\<bar>b ! n\<bar> - \<bar>b ! Suc n\<bar>)" by simp
  then have "2 * \<bar>b ! n * b ! Suc n\<bar> \<le> b ! n * b ! n + b ! Suc n * b ! Suc n"
    by (simp add: algebra_simps abs_mult)
  moreover have "\<bar>lag_sum b (Suc n)\<bar> \<le> \<bar>lag_sum b n\<bar> + \<bar>b ! n * b ! Suc n\<bar>" by simp
  ultimately show ?case using Suc.IH unfolding square_sum_simps(2) [of b "Suc n"] distrib_left_numeral by linarith
qed simp

lemma lag_sum_le: "n < m \<Longrightarrow> \<bar>lag_sum b n\<bar> \<le> square_sum b m"
proof -
  assume n: "n < m"
  have "0 \<le> b ! 0 * b ! 0" "0 \<le> b ! n * b ! n" by simp_all
  then have "\<bar>lag_sum b n\<bar> \<le> square_sum b (Suc n)" using lag_sum_bound [of b n] by linarith
  also have "\<dots> \<le> square_sum b m" using n by (intro square_sum_mono) simp
  finally show ?thesis .
qed

lemma shift_samples_ok:
  assumes "s16_arr 160 buf"
  shows "\<exists>b E. shift_samples buf 160 s = Some (b, E) \<and> s16_arr 160 b \<and> E = min 2147483647 (1 + square_sum b 160)"
proof -
  let ?P = "\<lambda>i (b, E). s16_arr 160 b \<and> E = min 2147483647 (1 + square_sum b i)"
  let ?f = "\<lambda>n (buf, a0). do {
     v \<leftarrow> get buf n;
     let v = shr_16 v s;
     buf \<leftarrow> put buf n v;
     Some (buf, L_mac0 a0 v v) }"
  have "\<exists>t. for_up 0 160 ?f (buf, 1) = Some t \<and> ?P 160 t"
  proof (rule for_up_rule [where P = ?P])
    fix i t assume i: "i < 160" and P: "?P i t"
    obtain b E where t: "t = (b, E)" by (cases t)
    have b: "s16_arr 160 b" "E = min 2147483647 (1 + square_sum b i)" using P by (simp_all add: t)
    have len: "length b = 160" using b(1) by (rule arr_length)
    define v where "v = shr_16 (b ! i) s"
    have v: "is_s16 v" using i by (simp add: v_def s16_nth [OF b(1)])
    have "is_s32 E" using b(2) square_sum_nonneg [of b i] by (simp add: is_s32_def min_def)
    then have "L_mac0 E v v = clamp (- 2147483648) 2147483647 (E + v * v)" using v by (simp add: L_mac0_eq)
    also have "\<dots> = min 2147483647 (1 + square_sum (b[i := v]) (Suc i))"
    proof -
      have "clamp (- 2147483648) 2147483647 (min 2147483647 (1 + S) + q) = min 2147483647 (1 + (S + q))"
        if "0 \<le> S" "0 \<le> q" for S q :: int using that by (auto simp: clamp_def min_def)
      from this [OF square_sum_nonneg [of b i], of "v * v"] show ?thesis
        using b(2) i len by (simp add: square_sum_update)
    qed
    finally have "?f (int i) t = Some (b[i := v], min 2147483647 (1 + square_sum (b[i := v]) (Suc i)))"
      using i len by (simp add: t get_def put_def v_def [symmetric] Let_def)
    then show "\<exists>t'. ?f (int i) t = Some t' \<and> ?P (Suc i) t'" using b(1) v i by (auto intro!: arr_update)
  qed (use assms in simp_all)
  then show ?thesis by (auto simp: shift_samples_def)
qed

lemma correlation_at_ok:
  assumes "s16_arr 160 b" "0 \<le> j"
  shows "\<exists>C. correlation_at b 160 j = Some C \<and> is_s32 C"
  unfolding correlation_at_def by (rule for_range_inv [where P = is_s32]) (use assms in simp_all)

lemma first_lag:
  assumes "s16_arr 160 b" "correlation_at b 160 1 = Some C" "1 + square_sum b 160 \<le> 2147483647"
  shows "\<bar>C\<bar> \<le> square_sum b 160"
proof -
  let ?f = "\<lambda>n a0. do { u \<leftarrow> get b n; v \<leftarrow> get b (n + 1); Some (L_mac0 a0 u v) }"
  have "\<exists>C. for_range 0 159 ?f 0 = Some C \<and> C = lag_sum b (nat 159)"
  proof (rule for_range_rule [where P = "\<lambda>i C. C = lag_sum b (nat i)"])
    fix i :: int and C assume i: "0 \<le> i" "i < 159" and C: "C = lag_sum b (nat i)"
    define n where "n = nat i"
    have n: "i = int n" "n < 159" using i by (simp_all add: n_def)
    have s: "is_s16 (b ! n)" "is_s16 (b ! Suc n)" using n(2) by (auto intro: s16_nth [OF assms(1)])
    have l: "\<bar>lag_sum b n\<bar> \<le> square_sum b 160" "\<bar>lag_sum b (Suc n)\<bar> \<le> square_sum b 160" using n by (auto intro: lag_sum_le simp del: lag_sum_simps)
    have "is_s32 (lag_sum b n)" using l(1) assms(3) by (simp add: is_s32_def abs_le_iff)
    then have "L_mac0 (lag_sum b n) (b ! n) (b ! Suc n) = lag_sum b (Suc n)"
      using s l(2) assms(3) by (simp add: L_mac0_eq clamp_id abs_le_iff)
    moreover have "nat (i + 1) = Suc n" using n by simp
    ultimately show "\<exists>C'. ?f i C = Some C' \<and> C' = lag_sum b (nat (i + 1))"
      using assms(1) n C arr_length [OF assms(1)] by (simp add: get_def nat_add_distrib)
  qed simp_all
  then have "C = lag_sum b 159" using assms(2) by (simp add: correlation_at_def)
  then show ?thesis using lag_sum_le [of 159 160 b] by simp
qed


lemma window_samples_ok:
  assumes "s16_arr k x" "0 \<le> xo" "xo + 160 \<le> int k"
  shows "\<exists>b. window_samples x xo winl 160 = Some b \<and> s16_arr 160 b"
  unfolding window_samples_def
  by (rule for_up_inv [where P = "s16_arr 160"]) (use assms in \<open>auto simp: WINSZ_def intro!: arr_update\<close>)

lemma scaled_energy_ok: "s16_arr 160 b \<Longrightarrow> \<exists>e. scaled_energy b 160 = Some e \<and> is_s32 e"
  unfolding scaled_energy_def
  by (rule for_up_inv [where P = is_s32]) (auto simp: is_s32_def [of 1] Let_def)

lemma Autocorr_ok:
  assumes "s32_arr 9 r" "s16_arr k x" "0 \<le> xo" "xo + 160 \<le> int k"
  shows "\<exists>r'. Autocorr r x xo winl WINSZ 8 = Some r' \<and> s32_arr 9 r' \<and> 1073741824 \<le> r' ! 0 \<and> \<bar>r' ! 1\<bar> \<le> r' ! 0 + 1"
proof -
  obtain b0 where b0: "window_samples x xo winl 160 = Some b0" "s16_arr 160 b0" using window_samples_ok [OF assms(2-4)] by blast
  obtain e where e: "scaled_energy b0 160 = Some e" using scaled_energy_ok [OF b0(2)] by blast
  define s where "s = (if sub 4 (shr_16 (norm_l e) 1) < 0 then 0 else sub 4 (shr_16 (norm_l e) 1))"
  obtain b E where b: "shift_samples b0 160 s = Some (b, E)" "s16_arr 160 b" "E = min 2147483647 (1 + square_sum b 160)"
    using shift_samples_ok [OF b0(2)] by blast
  have E: "0 < E" "is_s32 E" using b(3) square_sum_nonneg [of b 160] by (auto simp: is_s32_def min_def)
  define sh where "sh = norm_l E"
  define r0 where "r0 = L_shl E sh"
  have r0: "1073741824 \<le> r0" "r0 \<le> 2147483647" "r0 = E * 2 ^ nat sh"
    using normalised_positive [OF E] L_shl_norm [OF E(2)] by (simp_all add: r0_def sh_def)
  obtain C where C: "correlation_at b 160 1 = Some C" "is_s32 C" using correlation_at_ok [OF b(2), of 1] by auto
  have bound: "\<bar>L_shl C sh\<bar> \<le> r0 + 1"
  proof (cases "1 + square_sum b 160 \<le> 2147483647")
    case True
    then have "\<bar>C\<bar> \<le> E" using first_lag [OF b(2) C(1)] b(3) by simp
    then have "\<bar>C\<bar> * 2 ^ nat sh \<le> r0" unfolding r0(3) by (intro mult_right_mono) simp_all
    then have "\<bar>C * 2 ^ nat sh\<bar> \<le> r0" by (simp add: abs_mult)
    moreover have "0 \<le> sh" using norm_l_pos [OF E] by (simp add: sh_def)
    ultimately show ?thesis using r0(2) C(2) by (simp add: L_shl_left clamp_def abs_le_iff)
  next
    case False
    then have "E = 2147483647" using b(3) by simp
    then have "r0 = 2147483647" using r0 norm_l_large [of E] by (simp add: sh_def)
    moreover have "is_s32 (L_shl C sh)" using C(2) by simp
    ultimately show ?thesis by (auto simp: is_s32_def)
  qed
  let ?P = "\<lambda>(i :: nat) r. s32_arr 9 r \<and> r ! 0 = r0 \<and> (1 < i \<longrightarrow> r ! 1 = L_shl C sh)"
  let ?f = "\<lambda>j r. do { a0 \<leftarrow> correlation_at b (int WINSZ) j; put r j (L_shl a0 sh) }"
  have len: "length r = 9" using assms(1) by (rule arr_length)
  have "\<exists>r'. for_up 1 (8 + 1) ?f (r[0 := r0]) = Some r' \<and> ?P (8 + 1 :: nat) r'"
  proof (rule for_up_rule [where P = ?P])
    show "?P 1 (r[0 := r0])" using assms(1) r0 len by (auto simp: is_s32_def intro!: arr_update)
  next
    fix i r' assume i: "1 \<le> i" "i < 8 + 1" and P: "?P i r'"
    obtain c where c: "correlation_at b 160 (int i) = Some c" "is_s32 c" using correlation_at_ok [OF b(2), of "int i"] by auto
    have l: "length r' = 9" using P by (auto simp: arr_def)
    have "?f (int i) r' = Some (r'[i := L_shl c sh])" using c i l by (simp add: WINSZ_def put_def)
    moreover have "?P (Suc i) (r'[i := L_shl c sh])"
      using P i c C l by (cases "i = 1") (auto simp: nth_list_update intro!: arr_update)
    ultimately show "\<exists>t. ?f (int i) r' = Some t \<and> ?P (Suc i) t" by blast
  qed simp
  then obtain r' where r': "for_up 1 (8 + 1) ?f (r[0 := r0]) = Some r'" "s32_arr 9 r'" "r' ! 0 = r0" "r' ! 1 = L_shl C sh" by auto
  have w: "WINSZ = 160" by (simp add: WINSZ_def)
  have p: "put r 0 r0 = Some (r[0 := r0])" using len by (simp add: put_def)
  have "Autocorr r x xo winl WINSZ 8 = Some r'"
    unfolding Autocorr_def b0(1) [folded w] e [folded w] bind.bind_lunit Let_def s_def [symmetric] b(1) [folded w] prod.case
      sh_def [symmetric] r0_def [symmetric] p by (rule r'(1))
  then show ?thesis using r' r0 bound by simp
qed

lemma div_32768: "32768 * (x div 32768) \<le> x" "x \<le> 32768 * (x div 32768) + 32767" for x :: int
  by presburger+

lemma smoothed_lag:
  assumes "is_s32 r1" "\<bar>r1\<bar> \<le> r0 + 1" "1073741824 \<le> r0" "L_Extract r1 = (hi, lo)"
  shows "100000 * \<bar>Mpy_32 hi lo 32748 18309\<bar> \<le> 99942 * r0"
proof -
  note v = L_Extract_value [OF assms(1,4)]
  have hi: "- 32768 \<le> hi" "hi \<le> 32767" using v(1) by (simp_all add: is_s16_def)
  define p q where "p = hi * 18309 div 32768" and "q = lo * 32748 div 32768"
  have p: "32768 * p \<le> hi * 18309" "hi * 18309 \<le> 32768 * p + 32767" unfolding p_def by (rule div_32768)+
  have q: "32768 * q \<le> lo * 32748" "lo * 32748 \<le> 32768 * q + 32767" unfolding q_def by (rule div_32768)+
  have "is_s32 (2 * (hi * 32748))" "is_s32 (2 * (hi * 32748) + 2 * p)" "is_s32 (2 * (hi * 32748) + 2 * p + 2 * q)"
    unfolding is_s32_def using hi p q v(2,3) by linarith+
  then have "Mpy_32 hi lo 32748 18309 = 2 * (hi * 32748) + 2 * p + 2 * q"
    unfolding p_def q_def using v by (intro Mpy_32_exact) (simp_all add: is_s16_def)
  moreover have "100000 * (2 * (hi * 32748) + 2 * p + 2 * q) \<le> 99942 * r0" "- (99942 * r0) \<le> 100000 * (2 * (hi * 32748) + 2 * p + 2 * q)"
    using p q v(2,3,5,6) assms(2,3) unfolding distrib_left_numeral by linarith+
  moreover have "100000 * \<bar>M\<bar> \<le> 99942 * r0" if "100000 * M \<le> 99942 * r0" "- (99942 * r0) \<le> 100000 * M" for M
    using that by (simp add: abs_if)
  ultimately show ?thesis by (simp only:)
qed

lemma Spectral_Smoothing_ok:
  assumes "s32_arr 9 r" "1073741824 \<le> r ! 0" "\<bar>r ! 1\<bar> \<le> r ! 0 + 1"
  shows "\<exists>r'. Spectral_Smoothing 8 r sstwinl_h sstwinl_l = Some r' \<and> s32_arr 9 r' \<and> r' ! 0 = r ! 0 \<and>
    100000 * \<bar>r' ! 1\<bar> \<le> 99942 * r' ! 0"
proof -
  let ?P = "\<lambda>(i :: nat) r'. s32_arr 9 r' \<and> r' ! 0 = r ! 0 \<and> (if 1 < i then 100000 * \<bar>r' ! 1\<bar> \<le> 99942 * r' ! 0 else r' ! 1 = r ! 1)"
  let ?f = "\<lambda>i r. do { v \<leftarrow> get r i;
     let (hi, lo) = L_Extract v;
     h \<leftarrow> get sstwinl_h (i - 1); l \<leftarrow> get sstwinl_l (i - 1);
     put r i (Mpy_32 hi lo h l) }"
  have "\<exists>r'. for_up 1 (8 + 1) ?f r = Some r' \<and> ?P (8 + 1 :: nat) r'"
  proof (rule for_up_rule [where P = ?P])
    fix i r' assume i: "1 \<le> i" "i < 8 + 1" and P: "?P i r'"
    have l: "s32_arr 9 r'" "length r' = 9" using P by (auto simp: arr_def)
    obtain hi lo where e: "L_Extract (r' ! i) = (hi, lo)" by (cases "L_Extract (r' ! i)")
    define m where "m = Mpy_32 hi lo (sstwinl_h ! (i - 1)) (sstwinl_l ! (i - 1))"
    have "is_s32 (r' ! i)" using l i by (auto intro: s32_nth)
    have "is_s32 m" unfolding m_def by simp
    have n: "nat (int i - 1) = i - 1" using i by simp
    have "?f (int i) r' = Some (r'[i := m])" using i l by (simp add: get_def put_def e m_def n)
    moreover have "100000 * \<bar>m\<bar> \<le> 99942 * r ! 0" if "i = 1"
    proof -
      have "sstwinl_h ! 0 = 32748" "sstwinl_l ! 0 = 18309" by code_simp+
      moreover have "r' ! 1 = r ! 1" using P that by simp
      ultimately show ?thesis using smoothed_lag [of "r' ! 1" "r ! 0" hi lo] \<open>is_s32 (r' ! i)\<close> assms(2,3) e that by (simp add: m_def)
    qed
    then have "?P (Suc i) (r'[i := m])"
      using P i l \<open>is_s32 m\<close> by (cases "i = 1") (auto simp: nth_list_update intro!: arr_update)
    ultimately show "\<exists>t. ?f (int i) r' = Some t \<and> ?P (Suc i) t" by blast
  qed (use assms in simp_all)
  then show ?thesis by (auto simp: Spectral_Smoothing_def)
qed

lemma lpc_analysis_ok:
  assumes "s16_arr k x" "0 \<le> xo" "xo + int WINSZ \<le> int k" "s32_arr 9 r" "s16_arr 9 a" "s16_arr 9 old_a"
  shows "\<exists>r1 r2 b c. Autocorr r x xo winl WINSZ 8 = Some r1 \<and> Spectral_Smoothing 8 r1 sstwinl_h sstwinl_l = Some r2 \<and>
    Levinson r2 a old_a 8 = Some (b, c) \<and> s16_arr 9 b \<and> s16_arr 9 c \<and> b ! 0 = 4096"
proof -
  have w: "xo + 160 \<le> int k" using assms(3) by (simp add: WINSZ_def)
  obtain r1 where r1: "Autocorr r x xo winl WINSZ 8 = Some r1" "s32_arr 9 r1" "1073741824 \<le> r1 ! 0" "\<bar>r1 ! 1\<bar> \<le> r1 ! 0 + 1"
    using Autocorr_ok [OF assms(4,1,2) w] by blast
  obtain r2 where r2: "Spectral_Smoothing 8 r1 sstwinl_h sstwinl_l = Some r2" "s32_arr 9 r2" "r2 ! 0 = r1 ! 0"
    "100000 * \<bar>r2 ! 1\<bar> \<le> 99942 * r2 ! 0"
    using Spectral_Smoothing_ok [OF r1(2-4)] by blast
  have "1073741824 \<le> r2 ! 0" using r1(3) r2(3) by simp
  from Levinson_ok [OF r2(2) this r2(4) assms(5,6)] show ?thesis using r1(1) r2(1) by blast
qed

text \<open>(C35) The linear prediction analysis of BroadVoice16 returns for every signal: whatever the 16 bit
samples in the window and the coefficients of the last frame, the divisions of the recursion have
operands that fit, because the smoothed first lag stays 0.05 percent below the energy and the recursion
stops before a reflection coefficient comes near one. The result is nine coefficients, the first 1.0 in Q12.\<close>

theorem lpc_analysis_returns:
  assumes "s16_arr k x" "0 \<le> xo" "xo + int WINSZ \<le> int k" "s32_arr 9 r" "s16_arr 9 a" "s16_arr 9 old_a"
  shows "\<exists>r1 r2 b c. Autocorr r x xo winl WINSZ 8 = Some r1 \<and> Spectral_Smoothing 8 r1 sstwinl_h sstwinl_l = Some r2 \<and>
    Levinson r2 a old_a 8 = Some (b, c) \<and> s16_arr 9 b \<and> s16_arr 9 c \<and> b ! 0 = 4096"
  by (rule lpc_analysis_ok [OF assms])

lemma lpc_analysis_returns_witness:
  "\<exists>r1 r2 b c. Autocorr (replicate 9 0) (replicate 178 20000) 18 winl WINSZ 8 = Some r1 \<and>
    Spectral_Smoothing 8 r1 sstwinl_h sstwinl_l = Some r2 \<and>
    Levinson r2 (replicate 9 0) (replicate 9 0) 8 = Some (b, c) \<and> s16_arr 9 b \<and> s16_arr 9 c \<and> b ! 0 = 4096"
  by (rule lpc_analysis_returns [where k = 178]) (simp_all add: WINSZ_def arr_def list_all_length is_s16_def is_s32_def)

end
