(* ===== verification/BV_Encoder.thy ===== *)
theory BV_Encoder
  imports BV_PitchSearch BV_EncParams BV_EncLPC
begin

text \<open>
  The frame driver of the BroadVoice16 encoder (\<open>encoder.c\<close>) with its state
  (\<open>struct BV16_Encoder_State\<close> of \<open>bv16strct.h\<close>), then the encoder and the decoder of a channel
  together: a received frame leaves both with the same predictor memories, the same synthesis memories
  and the same level. The fields of the C structure carry the prefix \<open>es_\<close>; \<open>dfm_h\<close> and \<open>dfm_l\<close> are
  the one array \<open>es_dfm\<close> as in \<open>BV_PitchSearch\<close>. Local arrays start as zeros; each is written before
  it is read.
\<close>

definition LTWF :: int where "LTWF = 4096"

lemmas enc_const = coarse_const exc_const LTWF_def WINSZ_def

section \<open>State (\<open>bv16strct.h\<close>) and reset\<close>

record BV16_Encoder_State =
  es_prevlg :: "int list"
  es_lmax :: int
  es_lmin :: int
  es_lmean :: int
  es_x1 :: int
  es_level :: int
  es_x :: "int list"
  es_xwd :: "int list"
  es_xwd_exp :: int
  es_dq :: "int list"
  es_dfm :: "int list"
  es_stwpm :: "int list"
  es_stsym :: "int list"
  es_stnfz :: "int list"
  es_stnfp :: "int list"
  es_ltnfm :: "int list"
  es_lsplast :: "int list"
  es_lsppm :: "int list"
  es_lgpm :: "int list"
  es_cpplast :: int
  es_hpfzm :: "int list"
  es_hpfpm :: "int list"
  es_old_A :: "int list"

definition zeroEncoder :: BV16_Encoder_State where
  "zeroEncoder = \<lparr>es_prevlg = [0, 0], es_lmax = 0, es_lmin = 0, es_lmean = 0, es_x1 = 0, es_level = 0,
     es_x = replicate XOFF 0, es_xwd = replicate XDOFF 0, es_xwd_exp = 0, es_dq = replicate XOFF 0,
     es_dfm = replicate (2 * DFO) 0, es_stwpm = replicate LPCO 0, es_stsym = replicate LPCO 0,
     es_stnfz = replicate NSTORDER 0, es_stnfp = replicate NSTORDER 0, es_ltnfm = replicate MAXPP1 0,
     es_lsplast = replicate LPCO 0, es_lsppm = replicate (LPCO * LSPPORDER) 0, es_lgpm = replicate LGPORDER 0,
     es_cpplast = 0, es_hpfzm = [0, 0], es_hpfpm = [0, 0, 0, 0], es_old_A = replicate (LPCO + 1) 0\<rparr>"

definition Reset_BV16_Encoder :: BV16_Encoder_State where
  "Reset_BV16_Encoder = zeroEncoder\<lparr>
     es_lsplast := [3641, 7282, 10923, 14564, 18204, 21845, 25486, 29127],
     es_xwd_exp := 32,
     es_cpplast := 12 * DECF,
     es_lmax := MIN_32,
     es_lmin := MAX_32,
     es_lmean := 419430400,
     es_x1 := 570425344,
     es_level := 570425344,
     es_old_A := 4096 # replicate LPCO 0\<rparr>"

section \<open>A frame (\<open>encoder.c\<close>)\<close>

text \<open>\<open>f[i] = mult_r(a[i], g[i])\<close> for the coefficients after the first.\<close>

definition scaled_coefficients :: "int list \<Rightarrow> int list \<Rightarrow> int list \<Rightarrow> int list option" where
  "scaled_coefficients a g f = for_up 1 (NSTORDER + 1) (\<lambda>i f. do {
     u \<leftarrow> get a i; v \<leftarrow> get g i;
     put f i (mult_r u v) }) f"

text \<open>\<open>a[i] = mult_r(g[i], a[i])\<close> in place.\<close>

definition expand_bandwidth :: "int list \<Rightarrow> int list \<Rightarrow> int list option" where
  "expand_bandwidth g a = for_up 1 (LPCO + 1) (\<lambda>i a. do {
     v \<leftarrow> get g i; u \<leftarrow> get a i;
     put a i (mult_r v u) }) a"

definition weighted_coefficients :: "int list \<Rightarrow> int list option" where
  "weighted_coefficients a = do {
     a0 \<leftarrow> get a 0;
     aw \<leftarrow> put (replicate (LPCO + 1) 0) 0 a0;
     for_up 1 (LPCO + 1) (\<lambda>i aw. do {
       v \<leftarrow> get STWAL i; u \<leftarrow> get a i;
       put aw i (mult_r v u) }) aw }"

text \<open>The analysis of a frame, up to the line spectral frequencies: the signal \<open>x\<close>, the new memories of
  the high pass filter and of the signal, the noise feedback filters, the frequencies, the predictor
  coefficients and the memory \<open>old_A\<close>.\<close>

definition encoder_analysis :: "BV16_Encoder_State \<Rightarrow> int list \<Rightarrow>
    (int list \<times> int list \<times> int list \<times> int list \<times> int list \<times> int list \<times> int list \<times> int list \<times> int list) option" where
  "encoder_analysis cs inx = do {
     x \<leftarrow> W16copy (replicate LX 0) 0 (es_x cs) 0 XOFF;
     (x, hpfpm, hpfzm) \<leftarrow> preprocess (es_hpfpm cs) (es_hpfzm cs) x XOFF inx FRSZ;
     cs_x \<leftarrow> W16copy (es_x cs) 0 x FRSZ XOFF;
     r \<leftarrow> Autocorr (replicate (NSTORDER + 1) 0) x (int LX - int WINSZ) winl WINSZ NSTORDER;
     r \<leftarrow> Spectral_Smoothing NSTORDER r sstwinl_h sstwinl_l;
     (a, old_A) \<leftarrow> Levinson r (replicate (LPCO + 1) 0) (es_old_A cs) LPCO;
     fsz \<leftarrow> put (replicate (NSTORDER + 1) 0) 0 0;
     fsz \<leftarrow> scaled_coefficients a gfsz fsz;
     fsp \<leftarrow> put (replicate (NSTORDER + 1) 0) 0 4096;
     fsp \<leftarrow> scaled_coefficients a gfsp fsp;
     a \<leftarrow> expand_bandwidth bwel a;
     lsp \<leftarrow> a2lsp a (replicate LPCO 0) (es_lsplast cs);
     Some (x, hpfpm, hpfzm, cs_x, fsz, fsp, lsp, a, old_A) }"

definition noise_feedback_tap :: "int \<Rightarrow> int" where
  "noise_feedback_tap ppt = (
     if ppt > 512 then LTWF
     else if ppt \<le> 0 then 0
     else extract_h (L_shl (L_mult LTWF ppt) 6))"

definition scaled_down :: "int list \<Rightarrow> int list option" where
  "scaled_down dq = for_up 0 LX (\<lambda>i sdq. do { v \<leftarrow> get dq i; put sdq i (shr_16 v 2) }) (replicate LX 0)"

definition BV16_Encode :: "BV16_Bit_Stream \<Rightarrow> BV16_Encoder_State \<Rightarrow> int list \<Rightarrow>
    (BV16_Bit_Stream \<times> BV16_Encoder_State) option" where
  "BV16_Encode bs cs inx = do {
     (x, hpfpm, hpfzm, cs_x, fsz, fsp, lsp, a, old_A) \<leftarrow> encoder_analysis cs inx;
     ltnfm \<leftarrow> W16copy (replicate (MAXPP1 + FRSZ) 0) 0 (es_ltnfm cs) 0 MAXPP1;
     lsplast \<leftarrow> W16copy (es_lsplast cs) 0 lsp 0 LPCO;
     (lspq, lspidx, lsppm) \<leftarrow> lspquan (replicate LPCO 0) (bs_lspidx bs) lsp (es_lsppm cs);
     a \<leftarrow> lsp2a lspq a;
     dq \<leftarrow> W16copy (replicate LX 0) 0 (es_dq cs) 0 XOFF;
     dq \<leftarrow> azfilter a LPCO x XOFF dq XOFF FRSZ;
     aw \<leftarrow> weighted_coefficients a;
     (xw, stwpm) \<leftarrow> apfilter aw LPCO dq XOFF (replicate FRSZ 0) 0 FRSZ (es_stwpm cs) 1;
     (cpp, xwd, xwd_exp, dfm) \<leftarrow> coarsepitch xw (es_xwd cs) (es_xwd_exp cs) (es_dfm cs) (es_cpplast cs);
     sdq \<leftarrow> scaled_down dq;
     (pp, ppt) \<leftarrow> refinepitch sdq cpp;
     (bqidx, bq, ee) \<leftarrow> pitchtapquan dq pp (replicate 3 0);
     let (eehi, eelo) = L_Extract ee;
     let ee = L_shl (Mpy_32_16 eehi eelo 18432) 2;
     let beta = noise_feedback_tap ppt;
     (gidx, a0, lgpm, prevlg) \<leftarrow> gainquan ee (es_lgpm cs) (es_prevlg cs) (es_level cs);
     lg \<leftarrow> get prevlg 0;
     let (lth, lv) = estlevel lg \<lparr>lv_level = es_level cs, lv_lmax = es_lmax cs, lv_lmin = es_lmin cs,
       lv_lmean = es_lmean cs, lv_x1 = es_x1 cs, lv_alpha_min = estl_alpha\<rparr> (int LGPORDER + 1) (Nfdm + 1);
     (gain_exp, cbs) \<leftarrow> scaled_codebook a0;
     (qvidx, stsym, dq, ltnfm, stnfz, stnfp) \<leftarrow>
       excquan (bs_qvidx bs) x (int XOFF) a fsz fsp bq beta (es_stsym cs) dq ltnfm (es_stnfz cs) (es_stnfp cs) cbs pp gain_exp;
     cs_dq \<leftarrow> W16copy (es_dq cs) 0 dq FRSZ XOFF;
     cs_ltnfm \<leftarrow> W16copy (es_ltnfm cs) 0 ltnfm FRSZ MAXPP1;
     Some (\<lparr>bs_lspidx = lspidx, bs_ppidx = s16 (pp - MINPP), bs_bqidx = bqidx, bs_gidx = gidx, bs_qvidx = qvidx\<rparr>,
       \<lparr>es_prevlg = prevlg, es_lmax = lv_lmax lv, es_lmin = lv_lmin lv, es_lmean = lv_lmean lv, es_x1 = lv_x1 lv,
        es_level = lv_level lv, es_x = cs_x, es_xwd = xwd, es_xwd_exp = xwd_exp, es_dq = cs_dq, es_dfm = dfm,
        es_stwpm = stwpm, es_stsym = stsym, es_stnfz = stnfz, es_stnfp = stnfp, es_ltnfm = cs_ltnfm,
        es_lsplast = lsplast, es_lsppm = lsppm, es_lgpm = lgpm, es_cpplast = cpp, es_hpfzm = hpfzm,
        es_hpfpm = hpfpm, es_old_A = old_A\<rparr>) }"

section \<open>The analysis\<close>

lemma run_break_SomeD:
  assumes "run_break is f s = Some t" "P s" "\<And>i s t b. i \<in> set is \<Longrightarrow> P s \<Longrightarrow> f i s = Some (t, b) \<Longrightarrow> P t"
  shows "P t"
  using assms
proof (induction "is" arbitrary: s)
  case (Cons i "is")
  then obtain u b where u: "f i s = Some (u, b)" "(if b then Some u else run_break is f u) = Some t"
    by (auto elim!: bind_SomeE)
  have "P u" using Cons.prems(2,3) u(1) by auto
  then show ?case using u(2) Cons.IH [of u] Cons.prems(3) by (cases b) auto
qed simp

text \<open>Whatever the search finds, its frequencies are 16 bit numbers.\<close>

lemma put_add_type: "put xs i (add a b) = Some ys \<Longrightarrow> s16_arr 8 xs \<Longrightarrow> s16_arr 8 ys"
  by (auto simp: put_def arr_update split: if_splits)

lemma search_step_type:
  assumes "search_step F n s = Some (t, b)" "s16_arr 8 (fst s)"
  shows "s16_arr 8 (fst t)"
proof -
  obtain lsp nf xlow ylow xroot ind ia where s: "s = (lsp, nf, xlow, ylow, xroot, ind, ia)" by (cases s)
  show ?thesis using assms unfolding search_step_def s root_angle_def
    by (auto simp: Let_def split: if_splits elim!: bind_SomeE) (erule (1) put_add_type)+
qed

lemma a2lsp_type:
  assumes "a2lsp pc lsp old = Some r" "s16_arr 8 lsp" "s16_arr 8 old"
  shows "s16_arr 8 r"
proof -
  obtain F x y l nf rest where
    l: "run_break (map int [1..<Ngrd]) (search_step F) (lsp, 0, x, y, 0x7fff, 0, True) = Some (l, nf, rest)"
    and r: "(if sub nf (int LPCO) < 0 then W16copy l 0 old 0 LPCO else Some l) = Some r"
    using assms(1) unfolding a2lsp_def by (auto simp: Let_def split_beta elim!: bind_SomeE)
  have "s16_arr 8 (fst (l, nf, rest))"
    by (rule run_break_SomeD [OF l, where P = "\<lambda>s. s16_arr 8 (fst s)"]) (use assms(2) search_step_type in auto)
  then have l8: "s16_arr 8 l" by simp
  obtain w where "W16copy l 0 old 0 LPCO = Some w" "s16_arr 8 w"
    using W16copy_ok [OF l8 assms(3), of 0 LPCO 0] by (auto simp: LPCO_def)
  then show ?thesis using r l8 by (auto split: if_splits)
qed

lemma scaled_coefficients_ok:
  assumes "s16_arr 9 a" "s16_arr 9 g" "s16_arr 9 f"
  shows "\<exists>r. scaled_coefficients a g f = Some r \<and> s16_arr 9 r"
  unfolding scaled_coefficients_def
  by (rule for_up_inv [where P = "s16_arr 9"]) (use assms in \<open>auto simp: NSTORDER_def intro!: arr_update\<close>)

lemma expand_bandwidth_ok:
  assumes "s16_arr 9 g" "s16_arr 9 a"
  shows "\<exists>r. expand_bandwidth g a = Some r \<and> s16_arr 9 r"
  unfolding expand_bandwidth_def
  by (rule for_up_inv [where P = "s16_arr 9"]) (use assms in \<open>auto simp: LPCO_def intro!: arr_update\<close>)

lemma weighted_coefficients_ok:
  assumes "s16_arr 9 a"
  shows "\<exists>r. weighted_coefficients a = Some r \<and> s16_arr 9 r"
proof -
  have "s16_arr 9 ((replicate 9 0)[0 := a ! 0])" using assms by (auto intro!: arr_update s16_nth)
  then have "\<exists>r. for_up 1 (LPCO + 1) (\<lambda>i aw. do { v \<leftarrow> get STWAL i; u \<leftarrow> get a i; put aw i (mult_r v u) })
      ((replicate 9 0)[0 := a ! 0]) = Some r \<and> s16_arr 9 r"
    by (rule for_up_inv [where P = "s16_arr 9"]) (use assms in \<open>auto simp: LPCO_def intro!: arr_update\<close>)
  then show ?thesis using assms by (simp add: weighted_coefficients_def LPCO_def)
qed

lemma scaled_down_ok:
  assumes "s16_arr 178 dq"
  shows "\<exists>r. scaled_down dq = Some r \<and> s16_arr 178 r"
  unfolding scaled_down_def
  by (rule for_up_inv [where P = "s16_arr 178"]) (use assms in \<open>auto simp: LX_def intro!: arr_update shift_types_16 s16_nth [OF assms]\<close>)

definition encoder_ok :: "BV16_Encoder_State \<Rightarrow> bool" where
  "encoder_ok cs \<longleftrightarrow> s32_arr 2 (es_prevlg cs) \<and> is_s32 (es_lmax cs) \<and> is_s32 (es_lmin cs) \<and> is_s32 (es_lmean cs) \<and>
     is_s32 (es_x1 cs) \<and> is_s32 (es_level cs) \<and> s16_arr 138 (es_x cs) \<and> s16_arr 55 (es_xwd cs) \<and>
     is_s16 (es_xwd_exp cs) \<and> s16_arr 138 (es_dq cs) \<and> s16_arr 8 (es_dfm cs) \<and> s16_arr 8 (es_stwpm cs) \<and>
     s16_arr 8 (es_stsym cs) \<and> s16_arr 8 (es_stnfz cs) \<and> s16_arr 8 (es_stnfp cs) \<and> s16_arr 138 (es_ltnfm cs) \<and>
     s16_arr 8 (es_lsplast cs) \<and> s16_arr 64 (es_lsppm cs) \<and> s16_arr 8 (es_lgpm cs) \<and> s16_arr 2 (es_hpfzm cs) \<and>
     s16_arr 4 (es_hpfpm cs) \<and> s16_arr 9 (es_old_A cs)"

lemma encoder_okD:
  assumes "encoder_ok cs"
  shows "s32_arr 2 (es_prevlg cs)" "is_s32 (es_lmax cs)" "is_s32 (es_lmin cs)" "is_s32 (es_lmean cs)"
    "is_s32 (es_x1 cs)" "is_s32 (es_level cs)" "s16_arr 138 (es_x cs)" "s16_arr 55 (es_xwd cs)"
    "is_s16 (es_xwd_exp cs)" "s16_arr 138 (es_dq cs)" "s16_arr 8 (es_dfm cs)" "s16_arr 8 (es_stwpm cs)"
    "s16_arr 8 (es_stsym cs)" "s16_arr 8 (es_stnfz cs)" "s16_arr 8 (es_stnfp cs)" "s16_arr 138 (es_ltnfm cs)"
    "s16_arr 8 (es_lsplast cs)" "s16_arr 64 (es_lsppm cs)" "s16_arr 8 (es_lgpm cs)" "s16_arr 2 (es_hpfzm cs)"
    "s16_arr 4 (es_hpfpm cs)" "s16_arr 9 (es_old_A cs)"
  using assms unfolding encoder_ok_def by blast+

lemma Reset_BV16_Encoder_ok: "encoder_ok Reset_BV16_Encoder"
  by (simp add: encoder_ok_def Reset_BV16_Encoder_def zeroEncoder_def enc_const limits_def is_s16_def is_s32_def arr_def list_all_iff)

text \<open>Everything before the search for the roots returns.\<close>

lemma encoder_front:
  assumes "encoder_ok cs" "s16_arr 40 inx"
  shows "\<exists>x p z cx fsz fsp a oa. s16_arr 178 x \<and> s16_arr 4 p \<and> s16_arr 2 z \<and> s16_arr 138 cx \<and> s16_arr 9 fsz \<and>
    s16_arr 9 fsp \<and> s16_arr 9 a \<and> s16_arr 9 oa \<and>
    encoder_analysis cs inx = do { lsp \<leftarrow> a2lsp a (replicate LPCO 0) (es_lsplast cs); Some (x, p, z, cx, fsz, fsp, lsp, a, oa) }"
proof -
  note C = encoder_okD [OF assms(1)]
  obtain x0 where x0: "W16copy (replicate LX 0) 0 (es_x cs) 0 XOFF = Some x0" "s16_arr 178 x0"
    using W16copy_ok [of is_s16 178 "replicate 178 0", OF _ C(7), of 0 XOFF 0] by (auto simp: enc_const)
  obtain x p z where x: "preprocess (es_hpfpm cs) (es_hpfzm cs) x0 XOFF inx FRSZ = Some (x, p, z)" "s16_arr 178 x" "s16_arr 4 p" "s16_arr 2 z"
    using preprocess_ok [OF x0(2) C(21,20) assms(2), of XOFF FRSZ] by (auto simp: enc_const)
  obtain cx where cx: "W16copy (es_x cs) 0 x FRSZ XOFF = Some cx" "s16_arr 138 cx"
    using W16copy_ok [OF C(7) x(2), of FRSZ XOFF 0] by (auto simp: enc_const)
  have Z: "s32_arr 9 (replicate (NSTORDER + 1) 0)" "s16_arr 9 (replicate (NSTORDER + 1) 0)" "s16_arr 9 (replicate (LPCO + 1) 0)"
    by (simp_all add: enc_const)
  obtain r1 r2 b oa where r: "Autocorr (replicate (NSTORDER + 1) 0) x (int LX - int WINSZ) winl WINSZ 8 = Some r1"
    "Spectral_Smoothing 8 r1 sstwinl_h sstwinl_l = Some r2"
    "Levinson r2 (replicate (LPCO + 1) 0) (es_old_A cs) 8 = Some (b, oa)" "s16_arr 9 b" "s16_arr 9 oa"
    using lpc_analysis_ok [OF x(2) _ _ Z(1,3) C(22), of "int LX - int WINSZ"] by (auto simp: enc_const)
  have f: "put (replicate (NSTORDER + 1) 0) 0 v = Some ((replicate (NSTORDER + 1) 0)[0 := v])" for v :: int by simp
  have f': "s16_arr 9 ((replicate (NSTORDER + 1) 0)[0 := 0])" "s16_arr 9 ((replicate (NSTORDER + 1) 0)[0 := 4096])"
    by (rule arr_update [OF Z(2)]; simp add: is_s16_def)+
  obtain fsz where fsz: "scaled_coefficients b gfsz ((replicate (NSTORDER + 1) 0)[0 := 0]) = Some fsz" "s16_arr 9 fsz"
    using scaled_coefficients_ok [OF r(4) gfsz_arr f'(1)] by blast
  obtain fsp where fsp: "scaled_coefficients b gfsp ((replicate (NSTORDER + 1) 0)[0 := 4096]) = Some fsp" "s16_arr 9 fsp"
    using scaled_coefficients_ok [OF r(4) gfsp_arr f'(2)] by blast
  obtain a where a: "expand_bandwidth bwel b = Some a" "s16_arr 9 a" using expand_bandwidth_ok [OF bwel_arr r(4)] by blast
  have n: "NSTORDER = 8" "LPCO = 8" by (simp_all add: enc_const)
  have "encoder_analysis cs inx = do { lsp \<leftarrow> a2lsp a (replicate LPCO 0) (es_lsplast cs); Some (x, p, z, cx, fsz, fsp, lsp, a, oa) }"
    unfolding encoder_analysis_def x0(1) bind.bind_lunit x(1) prod.case cx(1) f fsz(1) fsp(1) r(1-3) [folded n]
    using r(1-3) fsz(1) fsp(1) a(1) by (simp add: n)
  then show ?thesis using x cx fsz(2) fsp(2) a(2) r(5) by blast
qed

section \<open>Memories that both sides share\<close>

lemma run_loop_SomeD:
  assumes "run_loop is f s = Some t" "P s" "\<And>i s t. i \<in> set is \<Longrightarrow> P s \<Longrightarrow> f i s = Some t \<Longrightarrow> P t"
  shows "P t"
  using assms by (induction "is" arbitrary: s) (auto elim!: bind_SomeE)

lemma azfilter_prefix:
  assumes "azfilter a m x xo y yo n = Some r" "yo + n \<le> length y"
  shows "length r = length y \<and> take yo r = take yo y"
proof -
  show ?thesis
    using assms(1) unfolding azfilter_def for_up_def
  proof (rule run_loop_SomeD [where P = "\<lambda>r. length r = length y \<and> take yo r = take yo y"])
    fix i s t assume "i \<in> set (map int [0..<n])" "length s = length y \<and> take yo s = take yo y"
      "(do { c0 \<leftarrow> get a 0; v0 \<leftarrow> get x (int xo + i);
         a0 \<leftarrow> run_loop (map int [1..<m + 1]) (\<lambda>j a0. do { c \<leftarrow> get a j; v \<leftarrow> get x (int xo + i - j); Some (L_mac0 a0 c v) }) (L_mult0 c0 v0);
         put s (int yo + i) (intround (L_shl a0 4)) }) = Some t"
    then show "length t = length y \<and> take yo t = take yo y"
      by (auto simp: put_def split: if_splits elim!: bind_SomeE)
  qed simp
qed

text \<open>The predictor coefficients do not depend on the array they are stored in.\<close>

lemma lsp2a_array:
  assumes "length lsp = 8" "\<forall>v\<in>set lsp. 0 \<le> v \<and> v \<le> 32767" "s16_arr 9 a" "s16_arr 9 b"
  shows "lsp2a lsp a = lsp2a lsp b"
proof -
  have z: "s32_arr 9 (replicate (LPCO + 1) 0)" by (simp add: LPCO_def)
  obtain p where p: "get_pq_polynomials (replicate (LPCO + 1) 0) lsp 0 = Some p" "s32_arr 9 p"
    using get_pq_polynomials_ok [OF z assms(1,2)] by blast
  obtain q where q: "get_pq_polynomials (replicate (LPCO + 1) 0) lsp 1 = Some q" "s32_arr 9 q"
    using get_pq_polynomials_ok [OF z assms(1,2)] by blast
  define w where "w k = intround (L_shl (L_sub (L_add (L_add (p ! (k - 1)) (p ! k)) (q ! k)) (q ! (k - 1))) 4)" for k
  define h where "h = intround (L_shl (L_add (p ! 1) (q ! 1)) 4)"
  have r: "lsp2a lsp c = Some ([4096, h] @ map w [2..<9])" if c: "s16_arr 9 c" for c
  proof -
    have len: "length p = 9" "length q = 9" "length c = 9" using p q c by (auto simp: arr_def)
    let ?f = "\<lambda>i a. do { pi \<leftarrow> get p i; pn \<leftarrow> get p (i + 1); qn \<leftarrow> get q (i + 1); qi \<leftarrow> get q i;
       let a0 = L_add pi pn; let a0 = L_add a0 qn; let a0 = L_sub a0 qi; put a (i + 1) (intround (L_shl a0 4)) }"
    let ?P = "\<lambda>i t. length t = 9 \<and> t ! 0 = 4096 \<and> t ! 1 = h \<and> (\<forall>k. 2 \<le> k \<and> k \<le> i \<longrightarrow> t ! k = w k)"
    have "\<exists>t. for_up 1 LPCO ?f (c[0 := 4096, 1 := h]) = Some t \<and> ?P LPCO t"
    proof (rule for_up_rule [where P = ?P])
      fix i t assume i: "1 \<le> i" "i < LPCO" and t: "?P i t"
      have "nat (int i + 1) = Suc i" by simp
      then have "?f (int i) t = Some (t[Suc i := w (Suc i)])"
        using i t len by (simp add: LPCO_def w_def Let_def)
      moreover have "?P (Suc i) (t[Suc i := w (Suc i)])" using t i by (auto simp: nth_list_update LPCO_def le_Suc_eq)
      ultimately show "\<exists>t'. ?f (int i) t = Some t' \<and> ?P (Suc i) t'" by blast
    qed (use len in \<open>simp_all add: LPCO_def\<close>)
    then obtain t where t: "for_up 1 LPCO ?f (c[0 := 4096, 1 := h]) = Some t" "?P LPCO t" by blast
    have "t = [4096, h] @ map w [2..<9]"
      by (rule nth_equalityI) (use t(2) in \<open>auto simp: LPCO_def nth_append nth_Cons' less_Suc_eq numeral_nat\<close>)
    then show ?thesis using t(1) p(1) q(1) len by (simp add: lsp2a_def h_def)
  qed
  show ?thesis using r [OF assms(3)] r [OF assms(4)] by simp
qed

lemma mult_r_above:
  assumes "is_s16 g" "\<bar>v\<bar> \<le> 24000"
  shows "mult_r g v \<noteq> - 32768"
proof -
  have "is_s16 v" using assms(2) by (auto simp: is_s16_def)
  moreover have "\<bar>g * v\<bar> \<le> 32768 * 24000" using assms by (intro mult_abs_le) (auto simp: is_s16_def)
  then have "- 786432000 \<le> g * v" by linarith
  then have "- 24001 \<le> (g * v + 16384) div 32768" by linarith
  ultimately show ?thesis using assms(1) by (auto simp: mult_r_eq clamp_def)
qed

lemma scaled_codebook_above:
  assumes "scaled_codebook a = Some (e, c)"
  shows "- 32768 \<notin> set c"
proof -
  have t: "\<forall>i<64. \<bar>cccb ! i\<bar> \<le> 24000" by code_simp
  obtain g where g: "for_up 0 (VDIM * CBSZ) (\<lambda>i cbs. do { v \<leftarrow> get cccb i; put cbs i (mult_r g v) }) (replicate (VDIM * CBSZ) 0) = Some c"
    "is_s16 g" using assms by (auto simp: scaled_codebook_def split_beta Let_def elim!: bind_SomeE)
  have "- 32768 \<notin> set c"
    using g(1) unfolding for_up_def
  proof (rule run_loop_SomeD [where P = "\<lambda>c. - 32768 \<notin> set c"])
    fix i s u assume i: "i \<in> set (map int [0..<VDIM * CBSZ])" and s: "- 32768 \<notin> set s"
      and u: "(do { v \<leftarrow> get cccb i; put s i (mult_r g v) }) = Some u"
    have "mult_r g (cccb ! nat i) \<noteq> - 32768" using i t by (intro mult_r_above [OF g(2)]) (auto simp: enc_const)
    moreover have "cccb ! nat i = v \<Longrightarrow> set (s[nat i := mult_r g v]) \<subseteq> insert (mult_r g v) (set s)" for v
      by (rule set_update_subset_insert)
    ultimately show "- 32768 \<notin> set u"
      using s u by (auto simp: put_def dest!: get_SomeD split: if_splits elim!: bind_SomeE)
  qed simp
  then show ?thesis .
qed

section \<open>Encoder and decoder\<close>

lemma fitsI:
  assumes "length (bs_lspidx bs) = 2" "arr (\<lambda>i. 0 \<le> i \<and> i < 128) 2 (bs_lspidx bs)" "0 \<le> bs_ppidx bs" "bs_ppidx bs < 128"
    and "0 \<le> bs_bqidx bs" "bs_bqidx bs < 32" "0 \<le> bs_gidx bs" "bs_gidx bs < 16" "arr (\<lambda>i. 0 \<le> i \<and> i < 32) 10 (bs_qvidx bs)"
  shows "fits bs"
proof -
  have q: "length (bs_qvidx bs) = 10" using assms(9) by (simp add: arr_def)
  have "0 \<le> fields_of bs ! i \<and> fields_of bs ! i < 2 ^ (bit_table ! i)" if i: "i < 15" for i
  proof (cases "i < 5")
    case True
    then show ?thesis using assms(1-8) arr_nth [OF assms(2), of 0] arr_nth [OF assms(2), of 1]
      by (auto simp: fields_of_def nth_append bit_table_def less_Suc_eq numeral_nat)
  next
    case False
    then obtain k where k: "i = 5 + k" by (metis le_Suc_ex not_less)
    then have "k < 10" using i by simp
    then have "0 \<le> bs_qvidx bs ! k \<and> bs_qvidx bs ! k < 32" using arr_nth [OF assms(9)] by blast
    moreover have "bit_table ! (5 + k) = 5" using \<open>k < 10\<close> by (auto simp: bit_table_def less_Suc_eq numeral_nat)
    ultimately show ?thesis using assms(1) k by (simp add: fields_of_def nth_append)
  qed
  then show ?thesis using assms(1) q by (simp add: fits_def)
qed

text \<open>The memories that both sides keep, and the counters of the decoder without losses.\<close>

definition synced :: "BV16_Encoder_State \<Rightarrow> BV16_Decoder_State \<Rightarrow> bool" where
  "synced cs ds \<longleftrightarrow> es_lsppm cs = ds_lsppm ds \<and> es_lgpm cs = ds_lgpm ds \<and> es_prevlg cs = ds_prevlg ds \<and>
     es_stsym cs = ds_stsym ds \<and> es_dq cs = ds_ltsym ds \<and> es_level cs = lv_level (ds_lv ds) \<and>
     es_lmax cs = lv_lmax (ds_lv ds) \<and> es_lmin cs = lv_lmin (ds_lv ds) \<and> es_lmean cs = lv_lmean (ds_lv ds) \<and>
     es_x1 cs = lv_x1 (ds_lv ds) \<and> ds_cfecount ds = 0 \<and> ds_ngfae ds = int LGPORDER + 1 \<and> ds_nggalgc ds = Nfdm + 1"

lemma synced_reset: "synced Reset_BV16_Encoder Reset_BV16_Decoder"
  by (simp add: synced_def Reset_BV16_Encoder_def zeroEncoder_def Reset_BV16_Decoder_def zeroDecoder_def enc_const)

text \<open>The sums of mean and prediction fit, and the decoder takes the decoded frequencies as ordered.\<close>

definition accepted :: "int list \<Rightarrow> int list \<Rightarrow> bool" where
  "accepted lsppm lspidx \<longleftrightarrow>
     (case lsp_estimate lsppm of None \<Rightarrow> False
      | Some e \<Rightarrow> list_all (\<lambda>i. \<bar>e ! i\<bar> \<le> 24576 \<and> lspmean ! i + e ! i \<le> 32767) [0..<8]) \<and>
     (case decoded_lsp lspidx lsppm of None \<Rightarrow> False | Some d \<Rightarrow> stblchck d STBLDIM = Some 1)"

lemma estlevel_alpha: "estlevel lg (st\<lparr>lv_alpha_min := v\<rparr>) n (Nfdm + 1) = estlevel lg st n (Nfdm + 1)"
  by (cases st) (simp add: estlevel_def Nfdm_def Let_def)

text \<open>A received frame, with what the encoder knows of it.\<close>

lemma BV16_Decode_fields:
  assumes "BV16_Decode bs ds x = Some (ds', y)" "ds_cfecount ds = 0" "ds_ngfae ds = int LGPORDER + 1"
    and "lspdec (replicate LPCO 0) (bs_lspidx bs) (ds_lsppm ds) (ds_lsplast ds) = Some (q, m)"
    and "lsp2a q (replicate (LPCO + 1) 0) = Some a" "pp3dec (bs_bqidx bs) (replicate 3 0) = Some bq"
    and "gaindec (bs_gidx bs) (ds_lgpm ds) (ds_prevlg ds) (lv_level (ds_lv ds)) (ds_nggalgc ds) = Some (g, lgq, lm, pl, n, el)"
    and "scaled_codebook g = Some (ge, cb)" "W16copy (replicate LXQ 0) 0 (ds_xq ds) 0 XQOFF = Some xq"
    and "W16copy (replicate (LTMOFF + FRSZ) 0) 0 (ds_ltsym ds) 0 LTMOFF = Some lt"
    and "excdec_w_synth xq lt (ds_stsym ds) (bs_qvidx bs) bq cb (s16 (bs_ppidx bs + MINPP)) a ge = Some (xq', lt', st, E)"
    and "W16copy (ds_ltsym ds) 0 lt' FRSZ LTMOFF = Some dl"
  shows "ds_lsppm ds' = m" "ds_lgpm ds' = lm" "ds_prevlg ds' = pl" "ds_stsym ds' = st" "ds_ltsym ds' = dl"
    "ds_lv ds' = snd (estlevel el (ds_lv ds) (int LGPORDER + 1) n)" "ds_cfecount ds' = 0" "ds_ngfae ds' = int LGPORDER + 1"
    "ds_nggalgc ds' = n"
proof -
  have e: "ds_ngfae (erasure_flags ds) = int LGPORDER + 1" "ds_cfecount (erasure_flags ds) = 0"
    using assms(2,3) by (simp_all add: erasure_flags_def Let_def LGPORDER_def s16_idI)
  have f: "ds_lsppm (erasure_flags ds) = ds_lsppm ds" "ds_lsplast (erasure_flags ds) = ds_lsplast ds" "ds_lgpm (erasure_flags ds) = ds_lgpm ds"
    "ds_prevlg (erasure_flags ds) = ds_prevlg ds" "ds_lv (erasure_flags ds) = ds_lv ds" "ds_nggalgc (erasure_flags ds) = ds_nggalgc ds"
    "ds_xq (erasure_flags ds) = ds_xq ds" "ds_ltsym (erasure_flags ds) = ds_ltsym ds" "ds_stsym (erasure_flags ds) = ds_stsym ds"
    by (simp_all add: erasure_flags_def Let_def)
  note b = assms(1) [unfolded BV16_Decode_def Let_def f assms(4-12) bind.bind_lunit prod.case e]
  show "ds_lsppm ds' = m" "ds_lgpm ds' = lm" "ds_prevlg ds' = pl" "ds_stsym ds' = st" "ds_ltsym ds' = dl"
    "ds_lv ds' = snd (estlevel el (ds_lv ds) (int LGPORDER + 1) n)" "ds_cfecount ds' = 0" "ds_ngfae ds' = int LGPORDER + 1"
    "ds_nggalgc ds' = n"
    using b e by (auto simp: split_beta elim!: bind_SomeE)
qed

text \<open>The whole frame: the encoder returns, and so does the decoder, with the same memories.\<close>

lemma BV16_Encode_follows:
  assumes "encoder_ok cs" "s16_arr 40 inx" "length (bs_lspidx bs) = 2" "0 \<le> bs_lspidx bs ! 0" "bs_lspidx bs ! 0 < 128"
    and "length (bs_qvidx bs) = 10" "encoder_analysis cs inx = Some (x, p, z, cx, fsz, fsp, lsp, a0, oa)"
    and "\<forall>i<7. lsp ! i < lsp ! Suc i"
  shows "\<exists>bs' cs'. BV16_Encode bs cs inx = Some (bs', cs') \<and> encoder_ok cs' \<and> fits bs' \<and>
    (\<forall>ds out. decoder_ok ds \<and> synced cs ds \<and> s16_arr 40 out \<and> accepted (es_lsppm cs) (bs_lspidx bs') \<longrightarrow>
      (\<exists>ds' y. BV16_Decode bs' ds out = Some (ds', y) \<and> synced cs' ds'))"
proof -
  note C = encoder_okD [OF assms(1)]
  obtain x1 p1 z1 cx1 fz1 fp1 a1 oa1 where F: "s16_arr 178 x1" "s16_arr 4 p1" "s16_arr 2 z1" "s16_arr 138 cx1" "s16_arr 9 fz1"
    "s16_arr 9 fp1" "s16_arr 9 a1" "s16_arr 9 oa1" and an: "encoder_analysis cs inx =
      do { lsp \<leftarrow> a2lsp a1 (replicate LPCO 0) (es_lsplast cs); Some (x1, p1, z1, cx1, fz1, fp1, lsp, a1, oa1) }"
    using encoder_front [OF assms(1,2)] by blast
  have "do { lsp \<leftarrow> a2lsp a1 (replicate LPCO 0) (es_lsplast cs); Some (x1, p1, z1, cx1, fz1, fp1, lsp, a1, oa1) } =
      Some (x, p, z, cx, fsz, fsp, lsp, a0, oa)" using an assms(7) by simp
  then have A: "s16_arr 178 x" "s16_arr 4 p" "s16_arr 2 z" "s16_arr 138 cx" "s16_arr 9 fsz" "s16_arr 9 fsp" "s16_arr 9 a0" "s16_arr 9 oa"
    and ls: "a2lsp a0 (replicate LPCO 0) (es_lsplast cs) = Some lsp" using F by (auto elim!: bind_SomeE)
  have Z: "s16_arr 8 (replicate LPCO 0)" "length (replicate LPCO 0) = 8" "s16_arr 178 (replicate LX 0)"
    "s16_arr 178 (replicate (MAXPP1 + FRSZ) 0)" "s16_arr 40 (replicate FRSZ 0)" by (simp_all add: enc_const)
  have l8: "s16_arr 8 lsp" using a2lsp_type [OF ls Z(1) C(17)] .
  obtain nf where nf: "W16copy (replicate (MAXPP1 + FRSZ) 0) 0 (es_ltnfm cs) 0 MAXPP1 = Some nf" "s16_arr 178 nf"
    using W16copy_ok [OF Z(4) C(16), of 0 MAXPP1 0] by (auto simp: enc_const)
  obtain ll where ll: "W16copy (es_lsplast cs) 0 lsp 0 LPCO = Some ll" "s16_arr 8 ll"
    using W16copy_ok [OF C(17) l8, of 0 LPCO 0] by (auto simp: enc_const)
  obtain e j1 j2 m q and sg :: int where e: "lsp_estimate (es_lsppm cs) = Some e"
    and j: "0 \<le> j1" "j1 < 128" "0 \<le> j2" "j2 < 64" "sg = 1 \<or> sg = - 1"
    and m: "s16_arr 64 m" and q: "s16_arr 8 q" "spaced q"
    and lq: "lspquan (replicate LPCO 0) (bs_lspidx bs) lsp (es_lsppm cs) = Some (q, [j1, if sg = - 1 then 127 - j2 else j2], m)"
    using lspquan_returns [OF Z(2) l8 C(18) assms(3,4,5,8)] by blast
  define ix where "ix = [j1, if sg = - 1 then 127 - j2 else j2]"
  note lq = lq [folded ix_def]
  have ix: "arr (\<lambda>i. 0 \<le> i \<and> i < 128) 2 ix" using j by (auto simp: ix_def arr_def)
  obtain a where a: "lsp2a q a0 = Some a" "s16_arr 9 a"
    using lsp2a_ok [OF _ spaced_range [OF q(2)] A(7)] arr_length [OF q(1)] by blast
  obtain d0 where d0: "W16copy (replicate LX 0) 0 (es_dq cs) 0 XOFF = Some d0" "s16_arr 178 d0"
    using W16copy_ok [OF Z(3) C(10), of 0 XOFF 0] by (auto simp: enc_const)
  obtain dq where dq: "azfilter a LPCO x XOFF d0 XOFF FRSZ = Some dq" "s16_arr 178 dq"
    using azfilter_ok [OF a(2) A(1) d0(2), of LPCO XOFF FRSZ XOFF] by (auto simp: enc_const)
  have pre: "take 138 d0 = take 138 dq" using azfilter_prefix [OF dq(1)] d0(2) by (simp add: arr_length enc_const)
  obtain aw where aw: "weighted_coefficients a = Some aw" "s16_arr 9 aw" using weighted_coefficients_ok [OF a(2)] by blast
  have "\<exists>r mem'. apfilter aw LPCO dq XOFF (replicate FRSZ 0) 0 FRSZ (es_stwpm cs) 1 = Some (r, mem') \<and> s16_arr 40 r \<and> s16_arr 8 mem'"
    by (rule apfilter_ok [OF aw(2) dq(2) Z(5) C(12)]) (simp_all add: enc_const)
  then obtain xw sw where xw: "apfilter aw LPCO dq XOFF (replicate FRSZ 0) 0 FRSZ (es_stwpm cs) 1 = Some (xw, sw)" "s16_arr 40 xw" "s16_arr 8 sw"
    by blast
  obtain cpp xd xe df where cp: "coarsepitch xw (es_xwd cs) (es_xwd_exp cs) (es_dfm cs) (es_cpplast cs) = Some (cpp, xd, xe, df)"
    "6 \<le> cpp" "cpp \<le> 138" "s16_arr 55 xd" "is_s16 xe" "s16_arr 8 df"
    using coarsepitch_ok [OF xw(2) C(8,9,11)] by blast
  obtain sd where sd: "scaled_down dq = Some sd" "s16_arr 178 sd" using scaled_down_ok [OF dq(2)] by blast
  have "is_s16 cpp" using cp(2,3) by (simp add: is_s16_def)
  then obtain pp ppt where pp: "refinepitch sd cpp = Some (pp, ppt)" "10 \<le> pp" "pp \<le> 136"
    using refinepitch_ok [OF sd(2)] by blast
  have b3: "s16_arr 3 (replicate 3 0)" by simp
  obtain bi bq ee where bq: "pitchtapquan dq pp (replicate 3 0) = Some (bi, bq, ee)" "0 \<le> bi" "bi < 32"
    "pp3dec bi (replicate 3 0) = Some bq" "s16_arr 3 bq" using pitchtapquan_ok [OF dq(2) pp(2,3) b3] by blast
  define e2 where "e2 = L_shl (Mpy_32_16 (fst (L_Extract ee)) (snd (L_Extract ee)) 18432) 2"
  have e2: "is_s32 e2" by (simp add: e2_def)
  have n: "is_s16 (Nfdm + 1)" by (simp add: Nfdm_def is_s16_def)
  obtain gi g lm pl where g: "gainquan e2 (es_lgpm cs) (es_prevlg cs) (es_level cs) = Some (gi, g, lm, pl)" "0 \<le> gi" "gi < 16"
    "gaindec gi (es_lgpm cs) (es_prevlg cs) (es_level cs) (Nfdm + 1) =
      Some (g, pl ! 0, lm, pl, if add (Nfdm + 1) 1 > Nfdm then Nfdm + 1 else add (Nfdm + 1) 1, pl ! 0)"
    using gainquan_follows [OF e2 C(19,1) n] by blast
  have nn: "(if add (Nfdm + 1) 1 > Nfdm then Nfdm + 1 else add (Nfdm + 1) 1) = Nfdm + 1"
    by (simp add: Nfdm_def add_eq is_s16_def clamp_id)
  note gd = g(4) [unfolded nn]
  have gt: "is_s32 g" "s16_arr 8 lm" "s32_arr 2 pl" "is_s32 (pl ! 0)"
    using gaindec_ok [OF g(2,3) C(19,1) n, of "es_level cs"] gd by auto
  have pl0: "get pl 0 = Some (pl ! 0)" using gt(3) by simp
  define lv0 where "lv0 = \<lparr>lv_level = es_level cs, lv_lmax = es_lmax cs, lv_lmin = es_lmin cs,
    lv_lmean = es_lmean cs, lv_x1 = es_x1 cs, lv_alpha_min = estl_alpha\<rparr>"
  define lv where "lv = estlevel (pl ! 0) lv0 (int LGPORDER + 1) (Nfdm + 1)"
  have "level_ok lv0" using C by (simp add: level_ok_def lv0_def estl_alpha_def is_s16_def)
  then have lv: "level_ok (snd lv)" using estlevel_ok [OF _ gt(4)] by (simp add: lv_def)
  obtain ge cb where cb: "scaled_codebook g = Some (ge, cb)" "s16_arr 64 cb" using scaled_codebook_ok [OF gt(1)] by blast
  note cb' = scaled_codebook_above [OF cb(1)]
  have ppr: "MINPP \<le> pp" "pp \<le> MAXPP" using pp(2,3) by (simp_all add: enc_const)
  have xo: "0 \<le> int XOFF" "int XOFF + 40 \<le> int 178" by (simp_all add: enc_const)
  note X = excquan_follows [OF A(1) xo a(2) A(5,6) bq(5) ppr cb(2) cb' assms(6) C(13-15) dq(2) nf(2) d0(2) pre]
  have xq0: "s16_arr LXQ (replicate LXQ 0)" by simp
  obtain qv st dq' nf' sz sp where xq: "excquan (bs_qvidx bs) x (int XOFF) a fsz fsp bq (noise_feedback_tap ppt) (es_stsym cs) dq nf
      (es_stnfz cs) (es_stnfp cs) cb pp ge = Some (qv, st, dq', nf', sz, sp)"
    and qv: "arr (\<lambda>i. 0 \<le> i \<and> i < 32) 10 qv" "s16_arr 8 st" "s16_arr 178 dq'" "s16_arr 178 nf'" "s16_arr 8 sz" "s16_arr 8 sp"
    using X [OF xq0] by blast
  have dec: "\<exists>xq' E. excdec_w_synth xq d0 (es_stsym cs) qv bq cb pp a ge = Some (xq', dq', st, E)" if "s16_arr LXQ xq" for xq
    using X [OF that, of "noise_feedback_tap ppt" ge] xq by auto
  obtain cd where cd: "W16copy (es_dq cs) 0 dq' FRSZ XOFF = Some cd" "s16_arr 138 cd"
    using W16copy_ok [OF C(10) qv(3), of FRSZ XOFF 0] by (auto simp: enc_const)
  obtain cn where cn: "W16copy (es_ltnfm cs) 0 nf' FRSZ MAXPP1 = Some cn" "s16_arr 138 cn"
    using W16copy_ok [OF C(16) qv(4), of FRSZ MAXPP1 0] by (auto simp: enc_const)
  define bs' where "bs' = \<lparr>bs_lspidx = ix, bs_ppidx = s16 (pp - MINPP), bs_bqidx = bi, bs_gidx = gi, bs_qvidx = qv\<rparr>"
  define cs' where "cs' = \<lparr>es_prevlg = pl, es_lmax = lv_lmax (snd lv), es_lmin = lv_lmin (snd lv), es_lmean = lv_lmean (snd lv),
    es_x1 = lv_x1 (snd lv), es_level = lv_level (snd lv), es_x = cx, es_xwd = xd, es_xwd_exp = xe, es_dq = cd, es_dfm = df,
    es_stwpm = sw, es_stsym = st, es_stnfz = sz, es_stnfp = sp, es_ltnfm = cn, es_lsplast = ll, es_lsppm = m, es_lgpm = lm,
    es_cpplast = cpp, es_hpfzm = z, es_hpfpm = p, es_old_A = oa\<rparr>"
  have enc: "BV16_Encode bs cs inx = Some (bs', cs')"
    unfolding BV16_Encode_def assms(7) bind.bind_lunit prod.case nf(1) ll(1) lq a(1) d0(1) dq(1) aw(1) xw(1) cp(1) sd(1) pp(1) bq(1)
      Let_def split_beta e2_def [symmetric] g(1) fst_conv snd_conv pl0 lv0_def [symmetric] lv_def [symmetric] cb(1) xq cd(1) cn(1)
    by (simp add: bs'_def cs'_def)
  have eok: "encoder_ok cs'"
    using A ll(2) m xw(3) cp(4-6) gt lv qv cd(2) cn(2) by (simp add: encoder_ok_def cs'_def level_ok_def)
  have pi: "s16 (pp - MINPP) = pp - 10" using pp(2,3) by (simp add: enc_const s16_idI)
  have fit: "fits bs'" by (rule fitsI) (use ix pp(2,3) bq(2,3) g(2,3) qv(1) in \<open>simp_all add: bs'_def pi arr_length\<close>)
  have "\<exists>ds' y. BV16_Decode bs' ds out = Some (ds', y) \<and> synced cs' ds'"
    if D: "decoder_ok ds" "synced cs ds" "s16_arr 40 out" "accepted (es_lsppm cs) (bs_lspidx bs')" for ds out
  proof -
    note S = D(2) [unfolded synced_def]
    have room: "\<forall>e. lsp_estimate (es_lsppm cs) = Some e \<longrightarrow> (\<forall>i<8. \<bar>e ! i\<bar> \<le> 24576 \<and> lspmean ! i + e ! i \<le> 32767)"
      using D(4) by (auto simp: accepted_def e list_all_iff)
    obtain d where d: "decoded_lsp ix (es_lsppm cs) = Some d" "stblchck d STBLDIM = Some 1"
      using D(4) by (auto simp: accepted_def bs'_def split: option.splits)
    have ld: "lspdec (replicate LPCO 0) ix (es_lsppm cs) (ds_lsplast ds) = Some (q, m)"
      using lspquan_follows [OF Z(2) l8 C(18) assms(3,4,5,8) room Z(2), of "ds_lsplast ds"] lq d by auto
    have z9: "s16_arr 9 (replicate (LPCO + 1) 0)" by (simp add: enc_const)
    have la: "lsp2a q (replicate (LPCO + 1) 0) = Some a"
      using lsp2a_array [OF _ spaced_range [OF q(2)] A(7) z9] a(1) arr_length [OF q(1)] by simp
    obtain ds' y where B: "BV16_Decode bs' ds out = Some (ds', y)" using BV16_Decode_ok [OF D(1) fit D(3)] by blast
    obtain xq where xq: "W16copy (replicate LXQ 0) 0 (ds_xq ds) 0 XQOFF = Some xq" "s16_arr 178 xq"
      using W16copy_ok [of is_s16 178 "replicate 178 0", OF _ decoder_okD(3) [OF D(1)], of 0 XQOFF 0] by (auto simp: enc_const)
    have xl: "s16_arr LXQ xq" using xq(2) by (simp add: enc_const)
    obtain xq' E where ex: "excdec_w_synth xq d0 (es_stsym cs) qv bq cb pp a ge = Some (xq', dq', st, E)" using dec [OF xl] by blast
    have pm: "s16 (pp - 10 + MINPP) = pp" using pp(2,3) by (simp add: enc_const s16_idI)
    have c: "W16copy (replicate (LTMOFF + FRSZ) 0) 0 (es_dq cs) 0 LTMOFF = Some d0" "W16copy (es_dq cs) 0 dq' FRSZ LTMOFF = Some cd"
      using d0(1) cd(1) by (simp_all add: enc_const)
    have f: "ds_cfecount ds = 0" "ds_ngfae ds = int LGPORDER + 1" using S by simp_all
    have k: "lspdec (replicate LPCO 0) (bs_lspidx bs') (ds_lsppm ds) (ds_lsplast ds) = Some (q, m)"
      "pp3dec (bs_bqidx bs') (replicate 3 0) = Some bq"
      "gaindec (bs_gidx bs') (ds_lgpm ds) (ds_prevlg ds) (lv_level (ds_lv ds)) (ds_nggalgc ds) = Some (g, pl ! 0, lm, pl, Nfdm + 1, pl ! 0)"
      "W16copy (replicate (LTMOFF + FRSZ) 0) 0 (ds_ltsym ds) 0 LTMOFF = Some d0"
      "excdec_w_synth xq d0 (ds_stsym ds) (bs_qvidx bs') bq cb (s16 (bs_ppidx bs' + MINPP)) a ge = Some (xq', dq', st, E)"
      "W16copy (ds_ltsym ds) 0 dq' FRSZ LTMOFF = Some cd"
      using S ld bq(4) gd c ex pm by (simp_all add: bs'_def pi)
    note R = BV16_Decode_fields [OF B f k(1) la k(2,3) cb(1) xq(1) k(4-6)]
    have "lv0 = (ds_lv ds)\<lparr>lv_alpha_min := estl_alpha\<rparr>" using S by (cases "ds_lv ds") (simp add: lv0_def)
    then have "lv = estlevel (pl ! 0) (ds_lv ds) (int LGPORDER + 1) (Nfdm + 1)" by (simp add: lv_def estlevel_alpha)
    then have "synced cs' ds'" by (simp add: synced_def cs'_def R)
    then show ?thesis using B by blast
  qed
  then show ?thesis using enc eok fit by blast
qed

text \<open>The frequencies of a frame before their quantisation.\<close>

definition encoder_lsp :: "BV16_Encoder_State \<Rightarrow> int list \<Rightarrow> int list option" where
  "encoder_lsp cs inx = map_option (\<lambda>(x, hpfpm, hpfzm, cs_x, fsz, fsp, lsp, a, old_A). lsp) (encoder_analysis cs inx)"

lemma encoder_lsp_None: "encoder_lsp cs inx = None \<Longrightarrow> BV16_Encode bs cs inx = None"
  by (simp add: encoder_lsp_def BV16_Encode_def)

lemma encoder_lsp_Some:
  assumes "encoder_lsp cs inx = Some lsp"
  shows "\<exists>x p z cx fsz fsp a oa. encoder_analysis cs inx = Some (x, p, z, cx, fsz, fsp, lsp, a, oa)"
  using assms by (auto simp: encoder_lsp_def)

lemma BV16_Encode_aborts:
  assumes "encoder_ok cs" "s16_arr 40 inx" "encoder_lsp cs inx = Some lsp" "\<not> (\<forall>i<7. lsp ! i < lsp ! Suc i)"
  shows "BV16_Encode bs cs inx = None"
proof -
  obtain x p z cx fsz fsp a oa where an: "encoder_analysis cs inx = Some (x, p, z, cx, fsz, fsp, lsp, a, oa)"
    using encoder_lsp_Some [OF assms(3)] by blast
  have Z: "s16_arr 8 (replicate LPCO 0)" by (simp add: enc_const)
  have "\<exists>a. a2lsp a (replicate LPCO 0) (es_lsplast cs) = Some lsp"
    using encoder_front [OF assms(1,2)] an by (fastforce elim!: bind_SomeE)
  then have "s16_arr 8 lsp" using a2lsp_type [OF _ Z encoder_okD(17) [OF assms(1)]] by blast
  then have "lspquan (replicate LPCO 0) (bs_lspidx bs) lsp (es_lsppm cs) = None" using assms(4) by (rule lspquan_aborts)
  then show ?thesis by (simp add: BV16_Encode_def an)
qed

section \<open>A call\<close>

text \<open>Both sides of a call, from their resets: the encoder codes a frame, the decoder accepts its
  frequencies and receives its packet. What the encoder finds in the bit stream structure and the
  decoder in its output array is arbitrary.\<close>

inductive bv_codec :: "BV16_Encoder_State \<Rightarrow> BV16_Decoder_State \<Rightarrow> bool" where
  reset: "bv_codec Reset_BV16_Encoder Reset_BV16_Decoder"
| frame: "bv_codec cs' ds'" if "bv_codec cs ds" "s16_arr 40 inx" "length (bs_lspidx bs) = 2" "0 \<le> bs_lspidx bs ! 0"
    "bs_lspidx bs ! 0 < 128" "length (bs_qvidx bs) = 10" "BV16_Encode bs cs inx = Some (bs', cs')"
    "accepted (es_lsppm cs) (bs_lspidx bs')" "BV16_BitPack bs' = Some packet" "s16_arr 40 out"
    "receive (Some packet) ds out = Some (ds', y)"

inductive_simps bv_codec_iff: "bv_codec cs ds"

text \<open>One frame: what the encoder returns, the decoder receives.\<close>

lemma frame_in_step:
  assumes "encoder_ok cs" "decoder_ok ds" "synced cs ds" "s16_arr 40 inx" "length (bs_lspidx bs) = 2" "0 \<le> bs_lspidx bs ! 0"
    and "bs_lspidx bs ! 0 < 128" "length (bs_qvidx bs) = 10" "BV16_Encode bs cs inx = Some (bs', cs')" "s16_arr 40 out"
  shows "encoder_ok cs' \<and> fits bs' \<and> (\<exists>packet. BV16_BitPack bs' = Some packet \<and> length packet = 10 \<and>
    (\<exists>ds' y. receive (Some packet) ds out = Some (ds', y) \<and> decoder_ok ds' \<and> s16_arr 40 y \<and>
      (accepted (es_lsppm cs) (bs_lspidx bs') \<longrightarrow> synced cs' ds')))"
proof -
  obtain lsp where l: "encoder_lsp cs inx = Some lsp" using assms(9) encoder_lsp_None by fastforce
  have inc: "\<forall>i<7. lsp ! i < lsp ! Suc i"
    using BV16_Encode_aborts [OF assms(1,4) l, of bs] assms(9) by fastforce
  obtain x p z cx fsz fsp a oa where an: "encoder_analysis cs inx = Some (x, p, z, cx, fsz, fsp, lsp, a, oa)"
    using encoder_lsp_Some [OF l] by blast
  have E: "encoder_ok cs'" "fits bs'" and D: "\<And>ds out. decoder_ok ds \<Longrightarrow> synced cs ds \<Longrightarrow> s16_arr 40 out \<Longrightarrow>
      accepted (es_lsppm cs) (bs_lspidx bs') \<Longrightarrow> \<exists>ds' y. BV16_Decode bs' ds out = Some (ds', y) \<and> synced cs' ds'"
    using BV16_Encode_follows [OF assms(1,4-8) an inc] assms(9) by auto
  obtain pk where pk: "BV16_BitPack bs' = Some pk" "length pk = 10" using bv16.pack_total [OF E(2)] by blast
  have u: "BV16_BitUnPack pk = Some bs'" using bv16.unpack_pack [OF E(2) pk(1)] by simp
  obtain ds' y where d: "BV16_Decode bs' ds out = Some (ds', y)" "decoder_ok ds'" "s16_arr 40 y"
    using BV16_Decode_ok [OF assms(2) E(2) assms(10)] by blast
  have "accepted (es_lsppm cs) (bs_lspidx bs') \<Longrightarrow> synced cs' ds'" using D [OF assms(2,3,10)] d(1) by auto
  then show ?thesis using E pk u d by (auto simp: receive_def)
qed

lemma bv_codec_ok: "bv_codec cs ds \<Longrightarrow> encoder_ok cs \<and> decoder_ok ds \<and> synced cs ds"
proof (induction rule: bv_codec.induct)
  case reset
  then show ?case by (simp add: Reset_BV16_Encoder_ok Reset_BV16_Decoder_ok synced_reset)
next
  case (frame cs ds inx bs bs' cs' packet out ds' y)
  then show ?case using frame_in_step [of cs ds inx bs bs' cs' out] by auto
qed

section \<open>Properties\<close>







end
