(* ===== verification/Spec2Isabelle.thy ===== *)
theory Spec2Isabelle
  imports G729_Sync BV_Encoder
begin

text \<open>
  A model of the speech codecs of the Soft-Phone application.

  \<^bold>\<open>The program.\<close> The C code under \<open>src/voipcodec/src/main/jni\<close> encodes and decodes the audio of a
  call. Two of its codecs are modelled in full, encoder and decoder: \<open>bcg729\<close>, a fixed point G.729
  codec with comfort noise, voice activity detection and discontinuous transmission (frames of 80
  samples in 10 bytes, or 2 bytes for noise), and \<open>bx16_fixedp\<close>, the fixed point BroadVoice16 codec
  (frames of 40 samples in 10 bytes), which is written on the ITU-T basic operators of \<open>itug191lib\<close>.
  An encoder turns samples into indexes: it predicts the signal, quantises the predictor (as line
  spectral frequencies), searches the pitch, and codes the excitation and its gains. The decoder turns
  the indexes back into an excitation and filters it. Both sides predict from their own past output,
  so their memories have to stay equal; this agreement, the absence of accesses out of bounds and the
  end of all loops are the main subjects of the theorems.

  \<^bold>\<open>Shared theories.\<close>
  \<^item> \<open>Prelude\<close>: the C integer types as wrap-around on \<open>int\<close> (\<open>s16\<close>, \<open>s32\<close>, \<open>u16\<close>, ...), shifts,
    arrays with checked access (\<open>get\<close>, \<open>put\<close>), counted loops (\<open>for_up\<close>, \<open>for_down\<close>, \<open>run_break\<close>)
    with their invariant rules, typed arrays (\<open>arr\<close>).
  \<^item> \<open>Field_Codec\<close>: the contract of a packer and its unpacker as a locale, interpreted on both
    packet formats.

  \<^bold>\<open>The G.729 codec (\<open>bcg729/src\<close>).\<close>
  \<^item> \<open>G729_Arith\<close>: \<open>fixedPointMacros.h\<close>. \<open>G729_Math\<close>: \<open>g729FixedPointMath.h\<close>. \<open>G729_Tables\<close>:
    \<open>codebooks.c\<close>. \<open>G729_Utils\<close>, \<open>G729_Bitstream\<close>: \<open>utils.c\<close>, \<open>utils.h\<close>. \<open>G729_Context\<close>: the decoder
    context of \<open>typedef.h\<close> and the sizes of \<open>codecParameters.h\<close>.
  \<^item> Decoder: \<open>G729_LSP\<close> (\<open>decodeLSP.c\<close>, \<open>interpolateqLSP.c\<close>, \<open>qLSP2LP.c\<close>), \<open>G729_Excitation\<close>
    (\<open>decodeAdaptativeCodeVector.c\<close>, \<open>decodeFixedCodeVector.c\<close>, \<open>decodeGains.c\<close>), \<open>G729_Filters\<close>
    (\<open>LPSynthesisFilter.c\<close>, \<open>preProcessing.c\<close>, \<open>postProcessing.c\<close>), \<open>G729_PostFilter\<close>
    (\<open>postFilter.c\<close>), \<open>G729_CNG\<close> (\<open>cng.c\<close>), \<open>G729_Decoder\<close> (\<open>decoder.c\<close>).
  \<^item> Encoder: \<open>G729_EncLP\<close> (\<open>computeLP.c\<close>, \<open>computeWeightedSpeech.c\<close>), \<open>G729_LP2LSP\<close>
    (\<open>LP2LSPConversion.c\<close>), \<open>G729_LSPQuant\<close> (\<open>LSPQuantization.c\<close>), \<open>G729_PitchSearch\<close>
    (\<open>findOpenLoopPitchDelay.c\<close>, \<open>adaptativeCodebookSearch.c\<close>,
    \<open>computeAdaptativeCodebookGain.c\<close>), \<open>G729_FixedSearch\<close>
    (\<open>fixedCodebookSearch.c\<close>), \<open>G729_GainSearch\<close> (\<open>gainQuantization.c\<close>),
    \<open>G729_VAD\<close> (\<open>vad.c\<close>), \<open>G729_DTX\<close> (\<open>dtx.c\<close>),
    \<open>G729_Encoder\<close> (\<open>encoder.c\<close>).
  \<^item> \<open>G729_Sync\<close>: what the encoder and the decoder have in common.

  \<^bold>\<open>The BroadVoice16 codec (\<open>bx16_fixedp\<close>).\<close>
  \<^item> \<open>BV_Basop\<close>: \<open>itug191lib/basop32.c\<close> and \<open>itug729ilib/oper_32b.c\<close>. \<open>BV_Tables\<close>: \<open>tables.c\<close>,
    \<open>mathtables.c\<close>, \<open>cmtables.c\<close>. \<open>BV_Math\<close>: \<open>mathutil.c\<close>. \<open>BV_Common\<close>: \<open>utility.c\<close>, \<open>vqdecode.c\<close>,
    \<open>ptdec.c\<close>, \<open>allzero.c\<close>, \<open>allpole.c\<close>, \<open>stblzlsp.c\<close>, \<open>lsp2a.c\<close>. \<open>BV_Bitpack\<close>: \<open>bitpack.c\<close>.
  \<^item> Decoder: \<open>BV_Params\<close> (\<open>lspdec.c\<close>, \<open>gaindec.c\<close>, \<open>levelest.c\<close>), \<open>BV_Synthesis\<close> (\<open>excdec.c\<close>,
    \<open>postfilt.c\<close>), \<open>BV_Decoder\<close> (\<open>decoder.c\<close>, \<open>plc.c\<close>, the states of \<open>bv16strct.h\<close>).
  \<^item> Encoder: \<open>BV_EncLPC\<close> (\<open>autocor.c\<close>, \<open>levdur.c\<close>, \<open>a2lsp.c\<close>), \<open>BV_EncParams\<close> (\<open>preproc.c\<close>,
    \<open>lspquan.c\<close>, \<open>gainquan.c\<close>), \<open>BV_PitchSearch\<close> (\<open>coarptch.c\<close>), \<open>BV_PitchRefine\<close>
    (\<open>fineptch.c\<close>, \<open>ptquan.c\<close>), \<open>BV_EncExc\<close> (\<open>excquan.c\<close>), \<open>BV_Encoder\<close> (\<open>encoder.c\<close>, and a call of
    encoder and decoder as a step relation).

  \<^bold>\<open>What the lemmas show.\<close>
  \<^item> Whole channels: every reachable decoder state is well formed and every frame, erasure or lost
    packet is decoded, with all accesses in bounds and all loops ending (\<open>G729_Decoder\<close>,
    \<open>BV_Decoder\<close>); the G.729 encoder returns for every frame (\<open>G729_Encoder\<close>); the BroadVoice16
    encoder returns exactly for the frames whose spectral frequencies are found and increasing
    (\<open>BV_Encoder\<close>).
  \<^item> Encoder and decoder in step: stage by stage for G.729 (the history of the frequencies, the pitch
    delays, the pulses, the gains and the adaptive code vector), with the one point where the two sides
    differ, the bound of the sharpening gain (\<open>G729_Sync\<close>, \<open>G729_PitchSearch\<close>, \<open>G729_FixedSearch\<close>);
    for BroadVoice16 by stages (\<open>BV_EncParams\<close>, \<open>BV_EncExc\<close>) and for the whole call
    (\<open>BV_Encoder\<close>), as long as the decoder accepts the frequencies. \<open>BV_EncParams\<close> has a code that
    it does not accept.
  \<^item> Packets: packing and unpacking are inverse to each other (\<open>G729_Bitstream\<close>, \<open>BV_Bitpack\<close>).
  \<^item> Arithmetic: the basic operators saturate as their comments say (\<open>BV_Basop\<close>), the filters do not
    overflow, or wrap exactly where stated (\<open>G729_Filters\<close>, \<open>G729_PostFilter\<close>), and computations by
    recursion equal the sums they stand for (\<open>BV_PitchRefine\<close>).
  \<^item> Loops: those without a bound in the code end (\<open>BV_Basop\<close>, \<open>BV_Common\<close>, \<open>BV_EncLPC\<close>,
    \<open>BV_PitchSearch\<close>, \<open>G729_Utils\<close>).

  \<^bold>\<open>Conventions.\<close> Integers are \<open>int\<close>, with \<open>s16\<close>, \<open>s32\<close>, \<open>u16\<close> and the like where the code stores
  or casts; the bit streams are on \<open>8 word\<close>, \<open>16 word\<close> and \<open>32 word\<close>. Arrays are lists of fixed
  length; an array of the C code that a function changes is an argument and a part of the result. A
  function returns \<open>None\<close> when the code reads or writes out of an array, does not end, or calls
  \<open>abort\<close> in a division of the basic operators; so a theorem that a result is \<open>Some\<close> excludes all
  three. A local array that is not initialised is a parameter, or starts as zeros where each cell is
  written before it is read. A division by zero in G.729 code is 0, as in HOL; the theorems on whole
  channels do not depend on it. The global flags \<open>Overflow\<close> and \<open>Carry\<close> of the basic operators are
  modelled for the operators that read them, the codec itself never does.

  \<^bold>\<open>Termination.\<close> Counted loops are recursions on the list of their indexes. Loops without a
  bound are \<open>function\<close> with a measure, or \<open>partial_function (option)\<close> where they may run forever:
  \<open>norm_s_loop\<close>, \<open>norm_l_loop\<close>, \<open>clz_loop\<close>, \<open>uclz_loop\<close>, \<open>order_loop\<close>, \<open>cosine_index\<close> and
  \<open>test_multiples\<close>. For each of them a lemma shows that it ends where the code calls it. \<open>norm_l\<close> and
  \<open>norm_s\<close> take the result of their loop with \<open>the\<close>, which \<open>norm_l_loop_ends\<close> and
  \<open>norm_s_loop_ends\<close> justify. No fuel is used.

  \<^bold>\<open>Not modelled, or not proved.\<close> That the search for roots (\<open>a2lsp.c\<close>) never divides outside the domain
  of \<open>div_s\<close> is not proved for clustered roots; the theorems on the BroadVoice16 encoder make the case
  distinction instead. The G.729 encoder with voice activity detection is modelled, its safety theorem is
  for the encoder without. Not modelled: the vendored Speex codec (floating point or build-time fixed
  point), the JNI wrappers in C++ (\<open>g729_jni.cpp\<close>, \<open>bv16_jni.cpp\<close>, \<open>speex_jni.cpp\<close>), the stand-alone
  BroadVoice programs with their file and memory handling (\<open>bv.c\<close>, \<open>g192.c\<close>, \<open>memutil.c\<close>), and the
  Java application.
\<close>

end
